(* ===== verification/Prelude.thy ===== *)
theory Prelude
  imports Main "HOL-Library.Word" "HOL-Library.Monad_Syntax"
begin

text \<open>
  Shared vocabulary of the development: the names of the model's types, the collections that the
  component theories fill, and the generic facts on options, lists and C integer conversions.

  Conventions used by every theory.
  \<^item> A C string is a HOL \<open>string\<close>; the terminating NUL is implicit and never an element.
    A pointer into a string is the suffix that starts there, so that pointer differences are
    differences of lengths.
  \<^item> A \<open>char *\<close> that may be NULL is a \<open>string option\<close>.
  \<^item> A computation that may have undefined behaviour or abort (NULL dereference, failed
    \<open>assert\<close>) has an \<open>option\<close> result, \<open>None\<close> standing for that crash.  Dereferencing
    a pointer is therefore just binding it, which \<open>deref\<close> makes visible.
  \<^item> Console output (\<open>xprintf\<close>, \<open>eprintf\<close>) is not part of any state.
\<close>

subsection \<open>Collections\<close>

named_theorems crun_simps \<open>equations that run a model function on explicit arguments\<close>
named_theorems inv_intros \<open>preservation rules of component invariants\<close>

subsection \<open>Names of the model's types\<close>

type_synonym cstring = "string"
type_synonym cptr = "string option"
type_synonym 'a crash = "'a option"
type_synonym byte = "8 word"
type_synonym u32 = "32 word"
type_synonym u64 = "64 word"

text \<open>Reading through a pointer: NULL crashes.\<close>

definition deref :: "'a option \<Rightarrow> 'a crash" where
  "deref p = p"

lemma deref_simps [simp]: "deref None = None" "deref (Some x) = Some x"
  by (simp_all add: deref_def)

lemma deref_eq_Some [simp]: "deref p = Some x \<longleftrightarrow> p = Some x"
  by (simp add: deref_def)

lemma deref_eq_None [simp]: "deref p = None \<longleftrightarrow> p = None"
  by (simp add: deref_def)

subsection \<open>Integer conversions\<close>

text \<open>
  Storing a \<open>long long\<close> in an \<open>int\<close> keeps the low 32 bits, read as two's complement;
  storing it in a \<open>char\<close> keeps the low 8 bits.  Storing it in an \<open>unsigned int\<close> is
  \<open>word_of_int\<close> at type \<open>u32\<close>.
\<close>

definition c_int :: "int \<Rightarrow> int" where
  "c_int x = sint (word_of_int x :: 32 word)"

definition c_char :: "int \<Rightarrow> int" where
  "c_char x = sint (word_of_int x :: 8 word)"

definition c_uint :: "int \<Rightarrow> u32" where
  "c_uint x = word_of_int x"

lemma c_int_id: "- (2 ^ 31) \<le> x \<Longrightarrow> x < 2 ^ 31 \<Longrightarrow> c_int x = x"
  by (simp add: c_int_def sint_sbintrunc' signed_take_bit_int_eq_self)

lemma c_char_id: "- 128 \<le> x \<Longrightarrow> x < 128 \<Longrightarrow> c_char x = x"
  by (simp add: c_char_def sint_sbintrunc' signed_take_bit_int_eq_self)

lemma c_int_range: "- (2 ^ 31) \<le> c_int x \<and> c_int x < 2 ^ 31"
  using sint_range_size [of "word_of_int x :: 32 word"] by (simp add: c_int_def word_size)

lemma c_int_idem [simp]: "c_int (c_int x) = c_int x"
  using c_int_range [of x] by (intro c_int_id) auto

lemma c_int_small [simp]: "c_int 0 = 0" "c_int 1 = 1"
  by (simp_all add: c_int_id)

subsection \<open>Lists\<close>

lemma find_Some_split:
  "find P xs = Some x \<Longrightarrow>
     \<exists>ys zs. xs = ys @ x # zs \<and> P x \<and> (\<forall>y\<in>set ys. \<not> P y)"
proof (induction xs)
  case Nil
  then show ?case by simp
next
  case (Cons a xs)
  show ?case
  proof (cases "P a")
    case True
    with Cons.prems have "a # xs = [] @ x # xs" "P x" by auto
    then show ?thesis by fastforce
  next
    case False
    with Cons obtain ys zs where "xs = ys @ x # zs" "P x" "\<forall>y\<in>set ys. \<not> P y" by auto
    with False have "a # xs = (a # ys) @ x # zs" "P x" "\<forall>y\<in>set (a # ys). \<not> P y" by auto
    then show ?thesis by blast
  qed
qed

lemma find_in_set: "find P xs = Some x \<Longrightarrow> x \<in> set xs"
  by (auto dest!: find_Some_split)

lemma find_holds: "find P xs = Some x \<Longrightarrow> P x"
  by (auto dest!: find_Some_split)

lemma find_append:
  "find P (xs @ ys) = (case find P xs of None \<Rightarrow> find P ys | Some x \<Rightarrow> Some x)"
  by (induction xs) auto

lemma find_eq_None: "find P xs = None \<longleftrightarrow> (\<forall>x\<in>set xs. \<not> P x)"
  by (auto simp: find_None_iff)

lemma find_cong_on: "(\<And>x. x \<in> set xs \<Longrightarrow> P x = Q x) \<Longrightarrow> find P xs = find Q xs"
  by (induction xs) auto

end
