(* ===== verification/Wake.thy ===== *)
theory Wake
  imports Prelude
begin

text \<open>
  \<open>third_party/wake.c\<close>: Wheeler's WAKE stream cipher in the auto-key feedback form that the
  game's protected stream uses, on a little-endian machine.

  The key structure is a record; registers, counter and the initialisation vector are as in the
  code.  The locals \<open>r3\<close>, \<open>r4\<close>, \<open>r5\<close>, \<open>r6\<close> of the two
  routines are a tuple threaded through the byte loop.  The nested run over the initialisation
  vector is the recursive call that the code makes, with \<open>started\<close> set.
\<close>

subsection \<open>State\<close>

record wake_key =
  wk_t :: "u32 list"
  wk_r :: "u32 \<times> u32 \<times> u32 \<times> u32"
  wk_counter :: nat
  wk_tmp :: u32
  wk_started :: bool
  wk_iv :: "byte list"
  wk_ivsize :: nat

text \<open>The bytes of a word in memory, and a word with one of its bytes replaced.\<close>

definition word_byte :: "u32 \<Rightarrow> nat \<Rightarrow> byte" where
  "word_byte w k = ucast (drop_bit (8 * k) w)"

definition set_word_byte :: "u32 \<Rightarrow> nat \<Rightarrow> byte \<Rightarrow> u32" where
  "set_word_byte w k b = or (and w (not (push_bit (8 * k) 0xff))) (push_bit (8 * k) (ucast b))"

definition word_bytes :: "u32 \<Rightarrow> byte list" where
  "word_bytes w = map (word_byte w) [0, 1, 2, 3]"

subsection \<open>Key schedule\<close>

definition tt :: "u32 list" where
  "tt = [0x726a8f3b, 0xe69a3b5c, 0xd3c71fe5, 0xab3c73d2, 0x4d3a8eb3, 0x0396d6e8, 0x3d4c2f7a,
         0x9ee27cf3, 0, 0]"

definition step_expand :: "nat \<Rightarrow> u32 list \<Rightarrow> u32 list" where
  "step_expand p t =
     (let x = t ! (p - 4) + t ! (p - 1) in t[p := xor (drop_bit 3 x) (tt ! unat (and x 7))])"

definition step_fold :: "nat \<Rightarrow> u32 list \<Rightarrow> u32 list" where
  "step_fold p t = t[p := t ! p + t ! (p + 89)]"

definition step_mask :: "u32 \<Rightarrow> nat \<Rightarrow> u32 list \<times> u32 \<Rightarrow> u32 list \<times> u32" where
  "step_mask z p = (\<lambda>(t, x).
     (let x' = and x 0xff7fffff + z in (t[p := xor (and (t ! p) 0x00ffffff) x'], x')))"

definition step_permute :: "nat \<Rightarrow> u32 list \<times> u32 \<Rightarrow> u32 list \<times> u32" where
  "step_permute p = (\<lambda>(t, x).
     (let x' = and (xor (t ! unat (xor (of_nat p) x)) x) 0xff;
          t' = t[p := t ! unat x']
      in (t'[unat x' := t' ! (p + 1)], x')))"

definition key_table :: "u32 list \<Rightarrow> u32 list \<Rightarrow> u32 list" where
  "key_table t0 k =
     (let t1 = fold (\<lambda>p t. t[p := k ! p]) [0..<4] t0;
          t2 = fold step_expand [4..<256] t1;
          t3 = fold step_fold [0..<23] t2;
          x = t3 ! 33;
          z = and (or (t3 ! 59) 0x01000001) 0xff7fffff;
          (t4, x4) = fold (step_mask z) [0..<256] (t3, x);
          t5 = t4[256 := t4 ! 0];
          (t6, x6) = fold step_permute [0..<256] (t5, and x4 0xff)
      in t6)"

definition iv_size :: "u32 list option \<Rightarrow> nat \<Rightarrow> nat" where
  "iv_size IV ivlen = (if IV = None then 0 else if 32 < ivlen then 32 else ivlen div 4 * 4)"

text \<open>The result is the status and the key; \<open>wk\<close> is the memory that is filled.\<close>

definition mcrypt_set_key ::
  "wake_key \<Rightarrow> u32 list \<Rightarrow> nat \<Rightarrow> u32 list option \<Rightarrow> nat \<Rightarrow> int \<times> wake_key" where
  "mcrypt_set_key wk key len IV ivlen =
     (if len \<noteq> 32 then (- 1, wk)
      else
        (let k = take 4 key;
             n = iv_size IV ivlen
         in (0, wk\<lparr>wk_t := key_table (wk_t wk) k,
                   wk_counter := 0,
                   wk_r := (k ! 0, k ! 1, k ! 2, k ! 3),
                   wk_started := False,
                   wk_ivsize := n,
                   wk_iv := (case IV of
                               None \<Rightarrow> wk_iv wk
                             | Some iv \<Rightarrow> take n (concat (map word_bytes iv)) @ drop n (wk_iv wk))\<rparr>)))"

subsection \<open>Encryption and decryption\<close>

definition int_M :: "u32 \<Rightarrow> u32 \<Rightarrow> u32 list \<Rightarrow> u32" where
  "int_M X Y t = (let TMP = X + Y in xor (and (drop_bit 8 TMP) 0x00ffffff) (t ! unat (and TMP 0xff)))"

type_synonym regs = "u32 \<times> u32 \<times> u32 \<times> u32"

text \<open>After four bytes all registers advance, driven by the ciphertext word in \<open>tmp\<close>.\<close>

definition advance :: "u32 list \<Rightarrow> u32 \<Rightarrow> regs \<Rightarrow> regs" where
  "advance t tmp = (\<lambda>(r3, r4, r5, r6).
     (let r3' = int_M r3 tmp t;
          r4' = int_M r4 r3' t;
          r5' = int_M r5 r4' t;
          r6' = int_M r6 r5' t
      in (r3', r4', r5', r6')))"

definition r6 :: "regs \<Rightarrow> u32" where
  "r6 = (\<lambda>(_, _, _, w). w)"

fun enc_loop ::
  "u32 list \<Rightarrow> regs \<Rightarrow> nat \<Rightarrow> u32 \<Rightarrow> byte list \<Rightarrow> byte list \<times> regs \<times> nat \<times> u32" where
  "enc_loop t r cnt tmp [] = ([], r, cnt, tmp)"
| "enc_loop t r cnt tmp (b # bs) =
     (let c = xor b (word_byte (r6 r) cnt);
          tmp' = set_word_byte tmp cnt c;
          (out, res) = (if cnt + 1 = 4 then enc_loop t (advance t tmp' r) 0 tmp' bs
                        else enc_loop t r (cnt + 1) tmp' bs)
      in (c # out, res))"

fun dec_loop ::
  "u32 list \<Rightarrow> regs \<Rightarrow> nat \<Rightarrow> u32 \<Rightarrow> byte list \<Rightarrow> byte list \<times> regs \<times> nat \<times> u32" where
  "dec_loop t r cnt tmp [] = ([], r, cnt, tmp)"
| "dec_loop t r cnt tmp (b # bs) =
     (let tmp' = set_word_byte tmp cnt b;
          c = xor b (word_byte (r6 r) cnt);
          (out, res) = (if cnt + 1 = 4 then dec_loop t (advance t tmp' r) 0 tmp' bs
                        else dec_loop t r (cnt + 1) tmp' bs)
      in (c # out, res))"

text \<open>Writing back the loop's results.\<close>

definition put_back :: "wake_key \<Rightarrow> regs \<times> nat \<times> u32 \<Rightarrow> wake_key" where
  "put_back wk = (\<lambda>(r, cnt, tmp). wk\<lparr>wk_r := r, wk_counter := cnt, wk_tmp := tmp\<rparr>)"

text \<open>The nested call works on the first \<open>ivsize\<close> bytes of the vector, in place.\<close>

definition iv_bytes :: "wake_key \<Rightarrow> byte list" where
  "iv_bytes wk = take (wk_ivsize wk) (wk_iv wk)"

definition put_iv :: "byte list \<Rightarrow> wake_key \<Rightarrow> wake_key" where
  "put_iv bs wk = wk\<lparr>wk_iv := bs @ drop (length bs) (wk_iv wk)\<rparr>"

function mcrypt_encrypt :: "wake_key \<Rightarrow> byte list \<Rightarrow> wake_key \<times> byte list" where
  "mcrypt_encrypt wk input =
     (if input = [] then (wk, [])
      else
        (let r = wk_r wk;
             wk1 = (if \<not> wk_started wk
                    then let wk' = wk\<lparr>wk_started := True\<rparr>;
                             (wk'', iv) = mcrypt_encrypt wk' (iv_bytes wk')
                         in put_iv iv wk''
                    else wk);
             (out, res) = enc_loop (wk_t wk1) r (wk_counter wk1) (wk_tmp wk1) input
         in (put_back wk1 res, out)))"
  by pat_completeness auto
termination
  by (relation "measure (\<lambda>(wk, _). if wk_started wk then 0 else 1)") auto

declare mcrypt_encrypt.simps [simp del]

lemma put_back_sel [simp]:
  "wk_t (put_back wk s) = wk_t wk" "wk_started (put_back wk s) = wk_started wk"
  "wk_iv (put_back wk s) = wk_iv wk" "wk_ivsize (put_back wk s) = wk_ivsize wk"
  "wk_r (put_back wk s) = fst s" "wk_counter (put_back wk s) = fst (snd s)" "wk_tmp (put_back wk s) = snd (snd s)"
  by (auto simp: put_back_def split: prod.splits)

lemma put_iv_sel [simp]:
  "wk_t (put_iv b wk) = wk_t wk" "wk_started (put_iv b wk) = wk_started wk"
  "wk_ivsize (put_iv b wk) = wk_ivsize wk" "wk_r (put_iv b wk) = wk_r wk"
  "wk_counter (put_iv b wk) = wk_counter wk" "wk_tmp (put_iv b wk) = wk_tmp wk"
  by (simp_all add: put_iv_def)

lemma mcrypt_encrypt_started:
  "wk_started wk \<Longrightarrow>
     mcrypt_encrypt wk bs
       = (if bs = [] then (wk, [])
          else let (out, res) = enc_loop (wk_t wk) (wk_r wk) (wk_counter wk) (wk_tmp wk) bs
               in (put_back wk res, out))"
  by (subst mcrypt_encrypt.simps) simp

lemma mcrypt_encrypt_stays_started:
  "wk_started wk \<Longrightarrow> mcrypt_encrypt wk bs = (wk', out) \<Longrightarrow> wk_started wk'"
  by (auto simp: mcrypt_encrypt_started Let_def split: if_splits prod.splits)

function mcrypt_decrypt :: "wake_key \<Rightarrow> byte list \<Rightarrow> wake_key \<times> byte list" where
  "mcrypt_decrypt wk input =
     (if input = [] then (wk, [])
      else
        (let r = wk_r wk;
             wk1 = (if \<not> wk_started wk
                    then let wk' = wk\<lparr>wk_started := True\<rparr>;
                             (wk2, iv) = mcrypt_encrypt wk' (iv_bytes wk');
                             wk3 = (put_iv iv wk2)\<lparr>wk_r := r\<rparr>;
                             (wk4, iv') = mcrypt_decrypt wk3 (iv_bytes wk3)
                         in put_iv iv' wk4
                    else wk);
             (out, res) = dec_loop (wk_t wk1) r (wk_counter wk1) (wk_tmp wk1) input
         in (put_back wk1 res, out)))"
  by pat_completeness auto
termination
proof (relation "measure (\<lambda>(wk, _). if wk_started wk then 0 else 1)", goal_cases)
  case 1
  then show ?case by simp
next
  case (2 wk input r wk' p wk2 iv wk3)
  have "wk_started wk2" using 2 mcrypt_encrypt_stays_started [of wk' "iv_bytes wk'" wk2 iv] by simp
  with 2 show ?case by simp
qed

declare mcrypt_decrypt.simps [simp del]

subsection \<open>Self test\<close>

text \<open>\<open>sprintf ("%.2x")\<close> of every byte.\<close>

definition hex_digit :: "nat \<Rightarrow> char" where
  "hex_digit d = (if d < 10 then char_of (48 + d) else char_of (87 + d))"

definition hex_bytes :: "byte list \<Rightarrow> cstring" where
  "hex_bytes bs = concat (map (\<lambda>b. [hex_digit (unat b div 16), hex_digit (unat b mod 16)]) bs)"

definition CIPHER :: cstring where
  "CIPHER = ''434d575db053acfe6e4076f05298bedbd5f4f000be555d029b1367cffc7cd51bba61c76aa17da3530fb7d9''"

definition bytes_word :: "byte list \<Rightarrow> u32" where
  "bytes_word bs = foldr (\<lambda>b w. or (push_bit 8 w) (ucast b)) bs 0"

definition self_test_key :: "u32 list" where
  "self_test_key =
     map (\<lambda>i. bytes_word (map (\<lambda>k. of_nat ((4 * i + k) * 5 + 10)) [0, 1, 2, 3])) [0..<8]"

definition self_test_plain :: "byte list" where
  "self_test_plain = map (\<lambda>j. of_nat ((j + 5) mod 0xff)) [0..<43]"

definition mcrypt_self_test :: "wake_key \<Rightarrow> wake_key \<Rightarrow> int" where
  "mcrypt_self_test m1 m2 =
     (let key = snd (mcrypt_set_key m1 self_test_key 32 None 0);
          (key', ciphertext) = mcrypt_encrypt key self_test_plain
      in if hex_bytes ciphertext \<noteq> CIPHER then - 1
         else (let key2 = snd (mcrypt_set_key m2 self_test_key 32 None 0);
                   (key2', plain) = mcrypt_decrypt key2 ciphertext
               in if plain \<noteq> self_test_plain then - 1 else 0))"

subsection \<open>Bytes of words\<close>

lemma byte_ff_bit: "bit (push_bit m 0xff :: u32) n \<longleftrightarrow> m \<le> n \<and> n < m + 8 \<and> n < 32"
proof -
  have "(0xff :: u32) = mask 8" by (simp add: mask_eq_exp_minus_1)
  then show ?thesis unfolding bit_push_bit_iff by (simp only: bit_mask_iff) auto
qed

lemma word_byte_bit: "bit (word_byte w k) n \<longleftrightarrow> n < 8 \<and> bit w (8 * k + n)"
  by (auto simp: word_byte_def bit_simps ac_simps dest: bit_imp_le_length)

lemma set_word_byte_bit:
  "bit (set_word_byte w k b) n \<longleftrightarrow> n < 32 \<and> (if 8 * k \<le> n \<and> n < 8 * k + 8 then bit b (n - 8 * k) else bit w n)"
  unfolding set_word_byte_def bit_or_iff bit_and_iff bit_not_iff byte_ff_bit
  by (auto simp: bit_push_bit_iff bit_ucast_iff dest: bit_imp_le_length)

lemma word_byte_set:
  assumes "k < 4" "j < 4"
  shows "word_byte (set_word_byte w k b) j = (if j = k then b else word_byte w j)"
proof (rule bit_word_eqI)
  fix n :: nat
  assume n: "n < LENGTH(8)"
  have "8 * j + n < 32" using assms n by simp
  moreover have "8 * k \<le> 8 * j + n \<and> 8 * j + n < 8 * k + 8 \<longleftrightarrow> j = k" using n by auto
  ultimately show "bit (word_byte (set_word_byte w k b) j) n = bit (if j = k then b else word_byte w j) n"
    using n by (simp add: word_byte_bit set_word_byte_bit)
qed

lemma word_bytes_eqI:
  assumes "\<And>k. k < 4 \<Longrightarrow> word_byte v k = word_byte w k"
  shows "v = w"
proof (rule bit_word_eqI)
  fix n :: nat
  assume n: "n < LENGTH(32)"
  have "bit (word_byte v (n div 8)) (n mod 8) = bit (word_byte w (n div 8)) (n mod 8)"
    using assms [of "n div 8"] n by simp
  then show "bit v n = bit w n" by (simp add: word_byte_bit)
qed

subsection \<open>The byte loops\<close>

lemma enc_dec_loop:
  "enc_loop t r c tmp bs = (out, res) \<Longrightarrow> dec_loop t r c tmp out = (bs, res)"
proof (induction t r c tmp bs arbitrary: out res rule: enc_loop.induct)
  case (1 t r cnt tmp)
  then show ?case by simp
next
  case (2 t r cnt tmp b bs)
  let ?c = "xor b (word_byte (r6 r) cnt)"
  let ?tmp = "set_word_byte tmp cnt ?c"
  have undo: "xor ?c (word_byte (r6 r) cnt) = b" by (simp add: xor.assoc)
  show ?case
  proof (cases "cnt + 1 = 4")
    case True
    with "2.prems" obtain out' where o: "enc_loop t (advance t ?tmp r) 0 ?tmp bs = (out', res)" "out = ?c # out'"
      by (auto simp: Let_def split: prod.splits)
    from "2.IH"(1) [OF refl refl True o(1)] o(2) True undo show ?thesis by (simp add: Let_def)
  next
    case False
    with "2.prems" obtain out' where o: "enc_loop t r (cnt + 1) ?tmp bs = (out', res)" "out = ?c # out'"
      by (auto simp: Let_def split: prod.splits)
    from "2.IH"(2) [OF refl refl False o(1)] o(2) False undo show ?thesis by (simp add: Let_def)
  qed
qed

lemma enc_loop_counter: "cnt < 4 \<Longrightarrow> fst (snd (snd (enc_loop t r cnt tmp bs))) = (cnt + length bs) mod 4"
proof (induction bs arbitrary: r cnt tmp)
  case Nil
  then show ?case by simp
next
  case (Cons b bs)
  show ?case
  proof (cases "cnt + 1 = 4")
    case True
    then have "cnt = 3" by simp
    then show ?thesis using Cons.IH [of 0] by (auto simp: Let_def split_beta mod_Suc_eq)
  next
    case False
    then have "Suc cnt < 4" using Cons.prems by simp
    with False Cons.IH [of "Suc cnt"] show ?thesis by (auto simp: Let_def split_beta)
  qed
qed

lemma enc_loop_length: "length (fst (enc_loop t r cnt tmp bs)) = length bs"
  by (induction t r cnt tmp bs rule: enc_loop.induct) (auto simp: Let_def split: prod.splits)

lemma dec_loop_counter: "cnt < 4 \<Longrightarrow> fst (snd (snd (dec_loop t r cnt tmp bs))) = (cnt + length bs) mod 4"
proof (induction bs arbitrary: r cnt tmp)
  case Nil
  then show ?case by simp
next
  case (Cons b bs)
  show ?case
  proof (cases "cnt + 1 = 4")
    case True
    then have "cnt = 3" by simp
    then show ?thesis using Cons.IH [of 0] by (auto simp: Let_def split_beta mod_Suc_eq)
  next
    case False
    then have "Suc cnt < 4" using Cons.prems by simp
    with False Cons.IH [of "Suc cnt"] show ?thesis by (auto simp: Let_def split_beta)
  qed
qed

text \<open>
  The bytes of \<open>tmp\<close> at and above the counter are overwritten before the word is used, so
  only the others matter.
\<close>

definition agree_below :: "nat \<Rightarrow> u32 \<Rightarrow> u32 \<Rightarrow> bool" where
  "agree_below c v w \<longleftrightarrow> (\<forall>k<c. word_byte v k = word_byte w k)"

lemma agree_set: "c < 4 \<Longrightarrow> agree_below c v w \<Longrightarrow> agree_below (Suc c) (set_word_byte v c b) (set_word_byte w c b)"
  by (auto simp: agree_below_def word_byte_set less_Suc_eq)

lemma agree_all: "agree_below 4 v w \<Longrightarrow> v = w"
  by (auto simp: agree_below_def intro: word_bytes_eqI)

lemma enc_loop_tmp:
  "cnt < 4 \<Longrightarrow> agree_below cnt tmp tmp' \<Longrightarrow>
     fst (enc_loop t r cnt tmp bs) = fst (enc_loop t r cnt tmp' bs)"
proof (induction bs arbitrary: r cnt tmp tmp')
  case Nil
  then show ?case by simp
next
  case (Cons b bs)
  let ?c = "xor b (word_byte (r6 r) cnt)"
  have a: "agree_below (Suc cnt) (set_word_byte tmp cnt ?c) (set_word_byte tmp' cnt ?c)"
    using Cons.prems by (rule agree_set)
  show ?case
  proof (cases "cnt + 1 = 4")
    case True
    then have "cnt = 3" by simp
    with a have "set_word_byte tmp cnt ?c = set_word_byte tmp' cnt ?c" by (auto intro!: agree_all)
    with True show ?thesis by (simp only: enc_loop.simps Let_def if_True)
  next
    case False
    then have "Suc cnt < 4" using Cons.prems(1) by simp
    from Cons.IH [OF this a, of r] False show ?thesis by (auto simp: Let_def split: prod.splits)
  qed
qed

subsection \<open>The whole routines\<close>

definition key_ok :: "wake_key \<Rightarrow> bool" where
  "key_ok wk \<longleftrightarrow> wk_counter wk = 0 \<and> wk_ivsize wk mod 4 = 0 \<and> wk_ivsize wk \<le> length (wk_iv wk)"

lemma encrypt_started_fields:
  assumes "wk_started wk" "mcrypt_encrypt wk bs = (wk', out)" "wk_counter wk = 0" "length bs mod 4 = 0"
  shows "wk_t wk' = wk_t wk \<and> wk_counter wk' = 0 \<and> wk_started wk' \<and> wk_ivsize wk' = wk_ivsize wk
    \<and> wk_iv wk' = wk_iv wk \<and> length out = length bs"
  using assms enc_loop_counter [of 0 "wk_t wk" "wk_r wk" "wk_tmp wk" bs]
    enc_loop_length [of "wk_t wk" "wk_r wk" 0 "wk_tmp wk" bs]
  by (auto simp: mcrypt_encrypt_started Let_def split: if_splits prod.splits)

lemma mcrypt_decrypt_started:
  "wk_started wk \<Longrightarrow>
     mcrypt_decrypt wk bs
       = (if bs = [] then (wk, [])
          else let (out, res) = dec_loop (wk_t wk) (wk_r wk) (wk_counter wk) (wk_tmp wk) bs
               in (put_back wk res, out))"
  by (subst mcrypt_decrypt.simps) simp

lemma decrypt_started_fields:
  assumes "wk_started wk" "mcrypt_decrypt wk bs = (wk', out)" "wk_counter wk = 0" "length bs mod 4 = 0"
  shows "wk_t wk' = wk_t wk \<and> wk_counter wk' = 0"
  using assms dec_loop_counter [of 0 "wk_t wk" "wk_r wk" "wk_tmp wk" bs]
  by (auto simp: mcrypt_decrypt_started Let_def split: if_splits prod.splits)

lemma iv_bytes_mod: "key_ok wk \<Longrightarrow> length (iv_bytes (wk\<lparr>wk_started := b\<rparr>)) mod 4 = 0"
  by (auto simp: key_ok_def iv_bytes_def min_def)

text \<open>On a key that has just been set, only table and registers determine the output.\<close>

lemma encrypt_out:
  assumes "key_ok wk"
  shows "\<exists>tmp. snd (mcrypt_encrypt wk bs) = fst (enc_loop (wk_t wk) (wk_r wk) 0 tmp bs)"
proof -
  let ?wk' = "wk\<lparr>wk_started := True\<rparr>"
  obtain wk2 iv where e: "mcrypt_encrypt ?wk' (iv_bytes ?wk') = (wk2, iv)" by force
  have f: "wk_t wk2 = wk_t wk" "wk_counter wk2 = 0"
    using encrypt_started_fields [OF _ e] iv_bytes_mod [OF assms, of True] assms by (simp_all add: key_ok_def)
  show ?thesis
    using e f assms
    by (subst mcrypt_encrypt.simps) (auto simp: Let_def key_ok_def split_beta intro: exI [of _ undefined])
qed

lemma decrypt_out:
  assumes "key_ok wk"
  shows "\<exists>tmp. snd (mcrypt_decrypt wk bs) = fst (dec_loop (wk_t wk) (wk_r wk) 0 tmp bs)"
proof -
  let ?wk' = "wk\<lparr>wk_started := True\<rparr>"
  obtain wk2 iv where e: "mcrypt_encrypt ?wk' (iv_bytes ?wk') = (wk2, iv)" by force
  have f: "wk_t wk2 = wk_t wk" "wk_counter wk2 = 0" "wk_started wk2" "wk_ivsize wk2 = wk_ivsize wk"
    "wk_iv wk2 = wk_iv wk" "length iv = length (iv_bytes ?wk')"
    using encrypt_started_fields [OF _ e] iv_bytes_mod [OF assms, of True] assms by (simp_all add: key_ok_def)
  let ?wk3 = "(put_iv iv wk2)\<lparr>wk_r := wk_r wk\<rparr>"
  obtain wk4 iv' where d: "mcrypt_decrypt ?wk3 (iv_bytes ?wk3) = (wk4, iv')" by force
  have "length (iv_bytes ?wk3) mod 4 = 0"
    using f assms by (auto simp: iv_bytes_def put_iv_def key_ok_def min_def)
  with decrypt_started_fields [OF _ d] f have g: "wk_t wk4 = wk_t wk" "wk_counter wk4 = 0" by simp_all
  show ?thesis
    using e d g assms
    by (subst mcrypt_decrypt.simps) (auto simp: Let_def key_ok_def split_beta intro: exI [of _ undefined])
qed

lemma decrypt_encrypt:
  assumes "key_ok wk1" "key_ok wk2" "wk_t wk1 = wk_t wk2" "wk_r wk1 = wk_r wk2"
  shows "snd (mcrypt_decrypt wk2 (snd (mcrypt_encrypt wk1 bs))) = bs"
proof -
  obtain tmp1 where e: "snd (mcrypt_encrypt wk1 bs) = fst (enc_loop (wk_t wk1) (wk_r wk1) 0 tmp1 bs)"
    using encrypt_out [OF assms(1)] by blast
  let ?out = "fst (enc_loop (wk_t wk1) (wk_r wk1) 0 tmp1 bs)"
  obtain tmp2 where d: "snd (mcrypt_decrypt wk2 ?out) = fst (dec_loop (wk_t wk2) (wk_r wk2) 0 tmp2 ?out)"
    using decrypt_out [OF assms(2)] by blast
  have "?out = fst (enc_loop (wk_t wk1) (wk_r wk1) 0 tmp2 bs)"
    by (rule enc_loop_tmp) (simp_all add: agree_below_def)
  then have "fst (dec_loop (wk_t wk2) (wk_r wk2) 0 tmp2 ?out) = bs"
    using assms(3,4) enc_dec_loop [of "wk_t wk2" "wk_r wk2" 0 tmp2 bs] by (metis fst_conv surj_pair)
  with e d show ?thesis by simp
qed

subsection \<open>The key schedule does not depend on the memory it fills\<close>

definition same_upto :: "nat \<Rightarrow> u32 list \<Rightarrow> u32 list \<Rightarrow> bool" where
  "same_upto n s t \<longleftrightarrow> length s = 257 \<and> length t = 257 \<and> (\<forall>i<n. s ! i = t ! i)"

lemma same_uptoD: "same_upto n s t \<Longrightarrow> i < n \<Longrightarrow> s ! i = t ! i"
  by (simp add: same_upto_def)

lemma same_upto_update:
  "same_upto n s t \<Longrightarrow> n \<le> 257 \<Longrightarrow> v = w \<Longrightarrow> same_upto n (s[p := v]) (t[p := w])"
  by (cases "p < 257") (auto simp: same_upto_def nth_list_update list_update_beyond)

lemma same_upto_extend:
  "same_upto p s t \<Longrightarrow> p < 257 \<Longrightarrow> v = w \<Longrightarrow> same_upto (Suc p) (s[p := v]) (t[p := w])"
  by (auto simp: same_upto_def nth_list_update less_Suc_eq)

lemma same_fold_grow:
  assumes "\<And>p s t. a \<le> p \<Longrightarrow> p < b \<Longrightarrow> same_upto p s t \<Longrightarrow> same_upto (Suc p) (f p s) (f p t)"
    and "same_upto a s t" "a \<le> b"
  shows "same_upto b (fold f [a..<b] s) (fold f [a..<b] t)"
  using assms(3,1,2)
proof (induction b rule: dec_induct)
  case base
  then show ?case by simp
next
  case (step n)
  then have "same_upto n (fold f [a..<n] s) (fold f [a..<n] t)" by simp
  then have "same_upto (Suc n) (f n (fold f [a..<n] s)) (f n (fold f [a..<n] t))"
    using step.prems(1) [of n] step.hyps by simp
  then show ?case using step.hyps by simp
qed

lemma same_fold_keep:
  assumes "\<And>p x y. p \<in> set ps \<Longrightarrow> R x y \<Longrightarrow> R (f p x) (f p y)" "R x y"
  shows "R (fold f ps x) (fold f ps y)"
  using assms by (induction ps arbitrary: x y) auto

definition same_pair :: "nat \<Rightarrow> u32 list \<times> u32 \<Rightarrow> u32 list \<times> u32 \<Rightarrow> bool" where
  "same_pair n = (\<lambda>(s, x) (t, y). same_upto n s t \<and> x = y)"

lemma key_table_same:
  assumes "length s = 257" "length t = 257"
  shows "key_table s k = key_table t k"
proof -
  define s1 where "s1 = fold (\<lambda>p t. t[p := k ! p]) [0..<4] s"
  define t1 where "t1 = fold (\<lambda>p t. t[p := k ! p]) [0..<4] t"
  have 1: "same_upto 4 s1 t1" unfolding s1_def t1_def
    by (rule same_fold_grow) (use assms in \<open>auto intro!: same_upto_extend\<close>, simp_all add: same_upto_def)
  define s2 where "s2 = fold step_expand [4..<256] s1"
  define t2 where "t2 = fold step_expand [4..<256] t1"
  have 2: "same_upto 256 s2 t2" unfolding s2_def t2_def
  proof (rule same_fold_grow [OF _ 1])
    fix p s t assume p: "4 \<le> p" "p < (256 :: nat)" and st: "same_upto p s t"
    then have "s ! (p - 4) = t ! (p - 4)" "s ! (p - 1) = t ! (p - 1)" by (auto intro: same_uptoD)
    with p st show "same_upto (Suc p) (step_expand p s) (step_expand p t)"
      unfolding step_expand_def by (simp add: Let_def same_upto_extend)
  qed simp
  define s3 where "s3 = fold step_fold [0..<23] s2"
  define t3 where "t3 = fold step_fold [0..<23] t2"
  have 3: "same_upto 256 s3 t3" unfolding s3_def t3_def
  proof (rule same_fold_keep [where R = "same_upto 256", OF _ 2])
    fix p s t assume p: "p \<in> set [0..<23]" and st: "same_upto 256 s t"
    then have "s ! p = t ! p" "s ! (p + 89) = t ! (p + 89)" by (auto intro: same_uptoD)
    with st show "same_upto 256 (step_fold p s) (step_fold p t)"
      unfolding step_fold_def by (simp add: same_upto_update)
  qed
  have eq: "s3 ! 33 = t3 ! 33" "s3 ! 59 = t3 ! 59" using 3 by (auto intro: same_uptoD)
  define z where "z = and (or (t3 ! 59) 0x01000001) 0xff7fffff"
  have "same_pair 256 (fold (step_mask z) [0..<256] (s3, s3 ! 33)) (fold (step_mask z) [0..<256] (t3, t3 ! 33))"
  proof (rule same_fold_keep)
    show "same_pair 256 (s3, s3 ! 33) (t3, t3 ! 33)" using 3 eq by (simp add: same_pair_def)
    fix p x y assume "p \<in> set [0..<256]" and st: "same_pair 256 x y"
    moreover then have "fst x ! p = fst y ! p" by (auto simp: same_pair_def intro: same_uptoD)
    ultimately show "same_pair 256 (step_mask z p x) (step_mask z p y)"
      by (auto simp: same_pair_def step_mask_def Let_def intro: same_upto_update)
  qed
  moreover obtain s4 xs where s4: "fold (step_mask z) [0..<256] (s3, s3 ! 33) = (s4, xs)" by force
  moreover obtain t4 xt where t4: "fold (step_mask z) [0..<256] (t3, t3 ! 33) = (t4, xt)" by force
  ultimately have 4: "same_upto 256 s4 t4" "xs = xt" by (simp_all add: same_pair_def)
  have "s4[256 := s4 ! 0] = t4[256 := t4 ! 0]"
  proof (rule nth_equalityI)
    show "length (s4[256 := s4 ! 0]) = length (t4[256 := t4 ! 0])" using 4(1) by (simp add: same_upto_def)
    fix i assume i: "i < length (s4[256 := s4 ! 0])"
    then have "i < 257" using 4(1) by (simp add: same_upto_def)
    then have "i = 256 \<or> i < 256" by auto
    then show "s4[256 := s4 ! 0] ! i = t4[256 := t4 ! 0] ! i"
      using 4(1) by (auto simp: same_upto_def nth_list_update)
  qed
  with 4(2) s4 t4 eq show ?thesis
    unfolding key_table_def Let_def s1_def [symmetric] t1_def [symmetric] s2_def [symmetric] t2_def [symmetric]
      s3_def [symmetric] t3_def [symmetric] eq z_def [symmetric] by (simp only: eq z_def [symmetric] prod.case s4 t4)
qed

subsection \<open>Properties\<close>

text \<open>Memory of the size the declaration of \<open>WAKE_KEY\<close> gives it.\<close>

definition key_memory :: "wake_key \<Rightarrow> bool" where
  "key_memory wk \<longleftrightarrow> length (wk_t wk) = 257 \<and> length (wk_iv wk) = 32"

lemma iv_size_mod: "iv_size IV n mod 4 = 0 \<and> iv_size IV n \<le> 32"
  by (auto simp: iv_size_def)

lemma set_key_ok:
  assumes "key_memory m" "length key = 32" "\<And>iv. IV = Some iv \<Longrightarrow> length iv = n"
  shows "key_ok (snd (mcrypt_set_key m key 32 IV n))"
proof (cases IV)
  case None
  then show ?thesis by (simp add: mcrypt_set_key_def key_ok_def Let_def iv_size_def)
next
  case (Some iv)
  have "length (concat (map word_bytes iv)) = 4 * length iv"
    by (induction iv) (simp_all add: word_bytes_def)
  moreover have "length iv = n" using assms(3) Some by simp
  ultimately show ?thesis
    using Some assms(1) iv_size_mod [of IV n]
    by (auto simp: mcrypt_set_key_def key_ok_def Let_def key_memory_def iv_size_def)
qed

lemma set_key_table:
  "wk_t (snd (mcrypt_set_key m key 32 IV n)) = key_table (wk_t m) (take 4 key)"
  "wk_r (snd (mcrypt_set_key m key 32 IV n)) = (take 4 key ! 0, take 4 key ! 1, take 4 key ! 2, take 4 key ! 3)"
  by (simp_all add: mcrypt_set_key_def Let_def)

text \<open>C34: decryption inverts encryption when both sides set the same key, whatever memory the key
  structures occupied before and whatever initialisation vectors they use.\<close>

theorem wake_roundtrip:
  assumes "key_memory m1" "key_memory m2" "length key = 32" "length iv1 = n1" "length iv2 = n2"
  shows "snd (mcrypt_decrypt (snd (mcrypt_set_key m2 key 32 (Some iv2) n2))
           (snd (mcrypt_encrypt (snd (mcrypt_set_key m1 key 32 (Some iv1) n1)) bs))) = bs"
  using assms by (intro decrypt_encrypt set_key_ok)
    (auto simp: set_key_table key_memory_def intro: key_table_same)

definition blank_memory :: "u32 \<Rightarrow> wake_key" where
  "blank_memory g = \<lparr>wk_t = replicate 257 g, wk_r = (g, g, g, g), wk_counter = 7, wk_tmp = g,
     wk_started = True, wk_iv = replicate 32 1, wk_ivsize = 5\<rparr>"

lemma blank_memory [simp]: "key_memory (blank_memory g)"
  by (simp add: key_memory_def blank_memory_def)

theorem wake_roundtrip_witness:
  "snd (mcrypt_decrypt (snd (mcrypt_set_key (blank_memory 9) (replicate 32 5) 32 (Some [1, 2]) 2))
     (snd (mcrypt_encrypt (snd (mcrypt_set_key (blank_memory 3) (replicate 32 5) 32 (Some [7]) 1)) [1, 2, 3, 4, 5]))) = [1, 2, 3, 4, 5]"
  by (rule wake_roundtrip) simp_all

text \<open>the initialisation vector has no influence on the ciphertext: the nested run over it leaves
  the registers that were loaded before it untouched.\<close>

theorem wake_iv_ignored:
  assumes "key_memory m1" "key_memory m2" "length key = 32" "length iv1 = n1" "length iv2 = n2"
  shows "snd (mcrypt_encrypt (snd (mcrypt_set_key m1 key 32 (Some iv1) n1)) bs)
       = snd (mcrypt_encrypt (snd (mcrypt_set_key m2 key 32 (Some iv2) n2)) bs)"
proof -
  let ?k1 = "snd (mcrypt_set_key m1 key 32 (Some iv1) n1)"
  let ?k2 = "snd (mcrypt_set_key m2 key 32 (Some iv2) n2)"
  have ok: "key_ok ?k1" "key_ok ?k2" using assms by (auto intro!: set_key_ok)
  have eq: "wk_t ?k1 = wk_t ?k2" "wk_r ?k1 = wk_r ?k2"
    using assms by (auto simp: set_key_table key_memory_def intro: key_table_same)
  from encrypt_out [OF ok(1), of bs] encrypt_out [OF ok(2), of bs] obtain t1 t2 where
    "snd (mcrypt_encrypt ?k1 bs) = fst (enc_loop (wk_t ?k1) (wk_r ?k1) 0 t1 bs)"
    "snd (mcrypt_encrypt ?k2 bs) = fst (enc_loop (wk_t ?k2) (wk_r ?k2) 0 t2 bs)" by blast
  moreover have "fst (enc_loop (wk_t ?k1) (wk_r ?k1) 0 t1 bs) = fst (enc_loop (wk_t ?k1) (wk_r ?k1) 0 t2 bs)"
    by (rule enc_loop_tmp) (simp_all add: agree_below_def)
  ultimately show ?thesis using eq by simp
qed

theorem wake_iv_ignored_witness:
  "snd (mcrypt_encrypt (snd (mcrypt_set_key (blank_memory 9) (replicate 32 5) 32 (Some [1, 2]) 2)) [1, 2, 3])
   = snd (mcrypt_encrypt (snd (mcrypt_set_key (blank_memory 3) (replicate 32 5) 32 (Some [7]) 1)) [1, 2, 3])"
  by (rule wake_iv_ignored) simp_all

end
