(* ===== verification/CString.thy ===== *)
theory CString
  imports Prelude
begin

text \<open>
  The C string library as far as the program uses it: searching (\<open>strstr\<close>, \<open>strchr\<close>),
  comparing (\<open>strcmp\<close>, \<open>strncmp\<close>, \<open>strcasecmp\<close>), tokenising (\<open>strspn\<close>,
  \<open>strtok_r\<close>), number parsing (\<open>strtoll\<close>, \<open>strtoul\<close>) and the number
  directives of \<open>printf\<close>.  Pointers into a string are suffixes.  The lemmas describe the
  first occurrence that \<open>strstr\<close> finds and the inversion of printing by parsing.
\<close>

subsection \<open>Buffers\<close>

abbreviation NUL :: char where
  "NUL \<equiv> CHR 0x00"

abbreviation apos :: char where
  "apos \<equiv> CHR 0x27"

text \<open>The C string stored at the start of a buffer.\<close>

definition c_str :: "char list \<Rightarrow> cstring" where
  "c_str b = takeWhile (\<lambda>c. c \<noteq> NUL) b"

lemma c_str_NUL [simp]: "NUL \<notin> set s \<Longrightarrow> c_str (s @ NUL # r) = s"
  by (auto simp: c_str_def takeWhile_append)

lemma c_str_id [simp]: "NUL \<notin> set s \<Longrightarrow> c_str s = s"
  by (auto simp: c_str_def takeWhile_eq_all_conv)

lemma c_str_no_NUL: "NUL \<notin> set (c_str b)"
  by (auto simp: c_str_def dest: set_takeWhileD)

subsection \<open>Searching\<close>

fun starts_with :: "cstring \<Rightarrow> cstring \<Rightarrow> bool" where
  "starts_with s [] = True"
| "starts_with [] (p # ps) = False"
| "starts_with (c # cs) (p # ps) = (c = p \<and> starts_with cs ps)"

fun strstr :: "cstring \<Rightarrow> cstring \<Rightarrow> cptr" where
  "strstr [] p = (if p = [] then Some [] else None)"
| "strstr (c # cs) p = (if starts_with (c # cs) p then Some (c # cs) else strstr cs p)"

fun strchr :: "cstring \<Rightarrow> char \<Rightarrow> cptr" where
  "strchr [] x = None"
| "strchr (c # cs) x = (if c = x then Some (c # cs) else strchr cs x)"

text \<open>The part of \<open>s\<close> before the pointer \<open>q\<close> into it: \<open>strndup (s, q - s)\<close>.\<close>

definition upto_ptr :: "cstring \<Rightarrow> cstring \<Rightarrow> cstring" where
  "upto_ptr s q = take (length s - length q) s"

lemma starts_with_iff: "starts_with s p \<longleftrightarrow> (\<exists>r. s = p @ r)"
  by (induction s p rule: starts_with.induct) auto

lemma starts_with_append [simp]: "starts_with (p @ r) p"
  by (auto simp: starts_with_iff)

lemma starts_with_Nil_left [simp]: "starts_with [] p \<longleftrightarrow> p = []"
  by (cases p) auto

lemma starts_with_take: "starts_with s p \<longleftrightarrow> take (length p) s = p"
  by (induction s p rule: starts_with.induct) auto

lemma starts_with_drop: "starts_with s p \<Longrightarrow> s = p @ drop (length p) s"
  by (metis append_take_drop_id starts_with_take)

lemma strstr_Some_split:
  "strstr s p = Some q \<Longrightarrow>
     \<exists>u v. s = u @ q \<and> q = p @ v \<and> (\<forall>k < length u. \<not> starts_with (drop k s) p)"
proof (induction s)
  case Nil
  then show ?case by (auto split: if_splits)
next
  case (Cons c cs)
  show ?case
  proof (cases "starts_with (c # cs) p")
    case True
    with Cons.prems have "q = c # cs" by simp
    moreover obtain v where "c # cs = p @ v" using True by (auto simp: starts_with_iff)
    ultimately show ?thesis by (intro exI [of _ "[]"] exI [of _ v]) simp
  next
    case False
    with Cons obtain u v where uv: "cs = u @ q" "q = p @ v"
      "\<forall>k < length u. \<not> starts_with (drop k cs) p" by auto
    have "\<forall>k < length (c # u). \<not> starts_with (drop k (c # cs)) p"
      using False uv(3) by (auto simp: less_Suc_eq_0_disj)
    with uv(1,2) show ?thesis by (intro exI [of _ "c # u"] exI [of _ v]) simp
  qed
qed

lemma strstr_suffix: "strstr s p = Some q \<Longrightarrow> \<exists>u. s = u @ q"
  by (auto dest: strstr_Some_split)

lemma strstr_length: "strstr s p = Some q \<Longrightarrow> length q \<le> length s"
  by (auto dest: strstr_Some_split)

lemma strstr_result_starts: "strstr s p = Some q \<Longrightarrow> starts_with q p"
  by (auto dest: strstr_Some_split)

lemma strstr_none_iff: "strstr s p = None \<longleftrightarrow> (\<forall>u v. s \<noteq> u @ p @ v)"
proof (induction s)
  case Nil
  then show ?case by auto
next
  case (Cons c cs)
  have "(\<exists>u v. c # cs = u @ p @ v) \<longleftrightarrow>
        starts_with (c # cs) p \<or> (\<exists>u v. cs = u @ p @ v)" (is "?L \<longleftrightarrow> ?R")
  proof
    assume ?L
    then obtain u v where uv: "c # cs = u @ p @ v" by blast
    show ?R
    proof (cases u)
      case Nil
      with uv show ?thesis by (auto simp: starts_with_iff)
    next
      case (Cons a u')
      with uv show ?thesis by auto
    qed
  next
    assume ?R
    then show ?L
    proof
      assume "starts_with (c # cs) p"
      then obtain r where "c # cs = [] @ p @ r" by (auto simp: starts_with_iff)
      then show ?L by blast
    next
      assume "\<exists>u v. cs = u @ p @ v"
      then obtain u v where "c # cs = (c # u) @ p @ v" by auto
      then show ?L by blast
    qed
  qed
  then show ?case using Cons by (auto simp del: starts_with.simps)
qed

text \<open>
  Symbolic search: a stretch \<open>t\<close> that avoids the character \<open>x\<close>, followed by a separator
  that is neither \<open>x\<close> nor in the part of the pattern before \<open>x\<close>, cannot hold the start of
  a match of \<open>u @ x # v\<close>.  This is how a search for \<open>id='\<close> jumps over an earlier
  attribute value.
\<close>

lemma no_match_in_field:
  assumes "x \<notin> set t" "c \<notin> set u" "c \<noteq> x" "k \<le> length t"
  shows "\<not> starts_with (drop k (t @ c # r)) (u @ x # v)"
proof
  assume "starts_with (drop k (t @ c # r)) (u @ x # v)"
  then obtain w where w: "drop k (t @ c # r) = u @ x # v @ w"
    by (auto simp: starts_with_iff)
  let ?i = "length t - k"
  have "drop k (t @ c # r) = drop k t @ c # r" using assms(4) by simp
  then have eq: "drop k t @ c # r = u @ x # v @ w" using w by simp
  have len: "length (drop k t) = ?i" by simp
  show False
  proof (cases "?i < length u")
    case True
    have "(drop k t @ c # r) ! ?i = c" using len by (simp add: nth_append)
    moreover have "(u @ x # v @ w) ! ?i = u ! ?i" using True by (simp add: nth_append)
    ultimately have "c = u ! ?i" using eq by simp
    with True assms(2) show False by simp
  next
    case False
    have x: "(u @ x # v @ w) ! length u = x" by simp
    show False
    proof (cases "?i = length u")
      case True
      then have "(drop k t @ c # r) ! length u = c" by (simp add: nth_append)
      with x eq assms(3) show False by simp
    next
      case ne: False
      with False have lt: "length u < length (drop k t)" by simp
      then have "(drop k t @ c # r) ! length u = drop k t ! length u"
        by (simp add: nth_append)
      with x eq have "x = drop k t ! length u" by simp
      with lt have "x \<in> set (drop k t)" by (metis nth_mem)
      with assms(1) show False by (meson in_set_dropD)
    qed
  qed
qed

lemma strstr_skip:
  assumes "\<forall>k < length t. \<not> starts_with (drop k (t @ r)) p"
  shows "strstr (t @ r) p = strstr r p"
  using assms
proof (induction t)
  case Nil
  then show ?case by simp
next
  case (Cons a t)
  have "\<not> starts_with (a # t @ r) p" using Cons.prems by (auto dest: spec [of _ 0])
  moreover have "\<forall>k < length t. \<not> starts_with (drop k (t @ r)) p"
    using Cons.prems by (auto dest: spec [of _ "Suc k" for k])
  ultimately show ?case using Cons.IH by simp
qed

lemma strstr_skip_field:
  assumes "x \<notin> set t" "c \<notin> set u" "c \<noteq> x"
  shows "strstr (t @ c # r) (u @ x # v) = strstr r (u @ x # v)"
proof -
  have "\<forall>k < length (t @ [c]). \<not> starts_with (drop k ((t @ [c]) @ r)) (u @ x # v)"
    using no_match_in_field [OF assms] by (auto simp: less_Suc_eq_le)
  from strstr_skip [OF this] show ?thesis by simp
qed

lemma strstr_here [simp]: "strstr (p @ r) p = Some (p @ r)"
proof (cases "p @ r")
  case Nil
  then show ?thesis by simp
next
  case (Cons a list)
  then have "starts_with (a # list) p" using starts_with_append [of p r] by simp
  with Cons show ?thesis by simp
qed

lemma strstr_first:
  "\<forall>k < length t. \<not> starts_with (drop k (t @ p @ r)) p \<Longrightarrow> strstr (t @ p @ r) p = Some (p @ r)"
  by (simp add: strstr_skip)

text \<open>A match cannot end before a character of the pattern that the text only has later.\<close>

lemma match_reaches:
  assumes "starts_with (drop k (t @ r)) (u @ x # v)" "x \<notin> set t" "k \<le> length t"
  shows "length t \<le> k + length u"
proof (rule ccontr)
  assume "\<not> length t \<le> k + length u"
  then have lt: "k + length u < length t" by simp
  obtain w where "drop k (t @ r) = u @ x # v @ w" using assms(1) by (auto simp: starts_with_iff)
  then have "drop k (t @ r) ! length u = x" by simp
  moreover have "drop k (t @ r) ! length u = t ! (k + length u)"
  proof -
    have "length u < length t - k" using lt by simp
    with assms(3) show ?thesis by (simp add: nth_append)
  qed
  ultimately show False using lt assms(2) by (metis nth_mem)
qed

text \<open>A stretch without the first character of the pattern.\<close>

lemma strstr_skip_head: "h \<notin> set t \<Longrightarrow> strstr (t @ r) (h # p) = strstr r (h # p)"
  by (induction t) auto

text \<open>A stretch without a match, ended by a character that the pattern does not contain.\<close>

lemma starts_with_cut: "c \<notin> set p \<Longrightarrow> starts_with (t @ c # r) p \<Longrightarrow> starts_with t p"
  by (induction t p rule: starts_with.induct) auto

lemma strstr_skip_absent:
  assumes "strstr t p = None" "c \<notin> set p"
  shows "strstr (t @ c # r) p = strstr r p"
proof -
  have "\<forall>k < length (t @ [c]). \<not> starts_with (drop k ((t @ [c]) @ r)) p"
  proof (intro allI impI notI)
    fix k
    assume k: "k < length (t @ [c])" and st: "starts_with (drop k ((t @ [c]) @ r)) p"
    then have "starts_with (drop k t @ c # r) p" by simp
    then have "starts_with (drop k t) p" using assms(2) by (rule starts_with_cut [rotated])
    then obtain v where "drop k t = p @ v" by (auto simp: starts_with_iff)
    then have "t = take k t @ p @ v" by (metis append_take_drop_id)
    with assms(1) show False by (auto simp: strstr_none_iff)
  qed
  from strstr_skip [OF this] show ?thesis by simp
qed

lemma strstr_char:
  assumes "c \<notin> set t"
  shows "strstr (t @ c # r) [c] = Some (c # r)"
  using assms by (induction t) auto

lemma strstr_char_none: "c \<notin> set t \<Longrightarrow> strstr t [c] = None"
  by (induction t) auto

lemma strstr_single: "strstr s [c] = strchr s c"
  by (induction s) auto

lemma strchr_append: "c \<notin> set t \<Longrightarrow> strchr (t @ c # r) c = Some (c # r)"
  by (induction t) auto

lemma strchr_none_iff: "strchr s c = None \<longleftrightarrow> c \<notin> set s"
  by (induction s) auto

lemma strchr_Some_split: "strchr s c = Some q \<Longrightarrow> \<exists>t r. s = t @ c # r \<and> q = c # r \<and> c \<notin> set t"
proof (induction s)
  case Nil
  then show ?case by simp
next
  case (Cons a s)
  show ?case
  proof (cases "a = c")
    case True
    with Cons.prems have "a # s = [] @ c # s \<and> q = c # s" by simp
    then show ?thesis by fastforce
  next
    case False
    with Cons obtain t r where "s = t @ c # r" "q = c # r" "c \<notin> set t" by auto
    with False have "a # s = (a # t) @ c # r \<and> q = c # r \<and> c \<notin> set (a # t)" by simp
    then show ?thesis by blast
  qed
qed

lemma upto_ptr_append [simp]: "upto_ptr (u @ q) q = u"
  by (simp add: upto_ptr_def)

subsection \<open>Comparing\<close>

text \<open>
  \<open>strncmp a b n = 0\<close> with a size that exceeds the buffer of \<open>a\<close> compares the strings cut
  at \<open>n\<close> characters.
\<close>

definition strncmp_eq :: "cstring \<Rightarrow> cstring \<Rightarrow> nat \<Rightarrow> bool" where
  "strncmp_eq a b n = (take n a = take n b)"

definition char_lower :: "char \<Rightarrow> char" where
  "char_lower c =
     (let n = of_char c :: nat in if 65 \<le> n \<and> n \<le> 90 then char_of (n + 32) else c)"

definition strcasecmp_eq :: "cstring \<Rightarrow> cstring \<Rightarrow> bool" where
  "strcasecmp_eq a b = (map char_lower a = map char_lower b)"

definition strcasestr :: "cstring \<Rightarrow> cstring \<Rightarrow> cptr" where
  "strcasestr s p =
     (case strstr (map char_lower s) (map char_lower p) of
        None \<Rightarrow> None | Some q \<Rightarrow> Some (drop (length s - length q) s))"

subsection \<open>Spaces and tokens\<close>

definition isspace :: "char \<Rightarrow> bool" where
  "isspace c = (let n = of_char c :: nat in n = 32 \<or> (9 \<le> n \<and> n \<le> 13))"

definition isdigit :: "char \<Rightarrow> bool" where
  "isdigit c = (let n = of_char c :: nat in 48 \<le> n \<and> n \<le> 57)"

text \<open>\<open>strspn s d\<close>, as the suffix that starts after the accepted prefix.\<close>

definition skip_any :: "cstring \<Rightarrow> char list \<Rightarrow> cstring" where
  "skip_any s d = dropWhile (\<lambda>c. c \<in> set d) s"

text \<open>
  \<open>strtok_r\<close> on a non-NULL pointer: the token, if any, and the new save pointer, which is
  just after the delimiter that ended the token.
\<close>

definition strtok_r :: "cstring \<Rightarrow> char list \<Rightarrow> cptr \<times> cstring" where
  "strtok_r s d =
     (let t = skip_any s d in
      if t = [] then (None, [])
      else (Some (takeWhile (\<lambda>c. c \<notin> set d) t), drop 1 (dropWhile (\<lambda>c. c \<notin> set d) t)))"

lemma strtok_r_token:
  "strtok_r s d = (Some t, r) \<Longrightarrow> t \<noteq> [] \<and> set t \<inter> set d = {}"
  by (auto simp: strtok_r_def skip_any_def Let_def split: if_splits
           dest: hd_dropWhile set_takeWhileD)
     (metis dropWhile_eq_Nil_conv dropWhile_idem hd_dropWhile takeWhile_eq_Nil_iff)+

subsection \<open>Numbers\<close>

definition digit_val :: "char \<Rightarrow> nat" where
  "digit_val c = of_char c - 48"

fun digits_val :: "nat \<Rightarrow> cstring \<Rightarrow> nat" where
  "digits_val acc [] = acc"
| "digits_val acc (c # cs) = digits_val (10 * acc + digit_val c) cs"

text \<open>
  The unbounded value that the decimal \<open>strto*\<close> functions read, and where they stop: blanks,
  an optional sign, digits.  Without digits the value is 0 and the end pointer is the start.
\<close>

definition strto_dec :: "cstring \<Rightarrow> int \<times> cstring" where
  "strto_dec s =
     (let t = dropWhile isspace s;
          neg = (t \<noteq> [] \<and> hd t = CHR ''-'');
          u = (if t \<noteq> [] \<and> (hd t = CHR ''-'' \<or> hd t = CHR ''+'') then tl t else t);
          ds = takeWhile isdigit u;
          v = int (digits_val 0 ds)
      in if ds = [] then (0, s) else (if neg then - v else v, dropWhile isdigit u))"

definition clamp_int :: "int \<Rightarrow> int \<Rightarrow> int \<Rightarrow> int" where
  "clamp_int lo hi x = (if x < lo then lo else if hi < x then hi else x)"

definition strtoll :: "cstring \<Rightarrow> int" where
  "strtoll s = clamp_int (- (2 ^ 63)) (2 ^ 63 - 1) (fst (strto_dec s))"

text \<open>\<open>strtoul\<close>: saturating at \<open>ULONG_MAX\<close>; a minus sign negates modulo \<open>2 ^ 64\<close>.\<close>

definition strtoul :: "cstring \<Rightarrow> nat \<times> cstring" where
  "strtoul s =
     (let (v, e) = strto_dec s in
      (if 2 ^ 64 \<le> \<bar>v\<bar> then 2 ^ 64 - 1 else nat (v mod 2 ^ 64), e))"

lemma strtoll_range: "- (2 ^ 63) \<le> strtoll s \<and> strtoll s < 2 ^ 63"
  by (simp add: strtoll_def clamp_int_def)

text \<open>Printing with \<open>%d\<close>, \<open>%u\<close> and \<open>%ld\<close>.\<close>

definition digit_char :: "nat \<Rightarrow> char" where
  "digit_char d = char_of (48 + d)"

fun nat_dec :: "nat \<Rightarrow> cstring" where
  "nat_dec n = (if n < 10 then [digit_char n] else nat_dec (n div 10) @ [digit_char (n mod 10)])"

declare nat_dec.simps [simp del]

definition int_dec :: "int \<Rightarrow> cstring" where
  "int_dec i = (if i < 0 then CHR ''-'' # nat_dec (nat (- i)) else nat_dec (nat i))"

lemma of_char_digit [simp]: "d < 10 \<Longrightarrow> of_char (digit_char d) = (48 + d :: nat)"
  by (simp add: digit_char_def of_char_of)

lemma isdigit_digit_char [simp]: "d < 10 \<Longrightarrow> isdigit (digit_char d)"
  by (simp add: isdigit_def)

lemma digit_val_digit_char [simp]: "d < 10 \<Longrightarrow> digit_val (digit_char d) = d"
  by (simp add: digit_val_def)

lemma digits_val_snoc: "digits_val acc (ds @ [c]) = 10 * digits_val acc ds + digit_val c"
  by (induction acc ds rule: digits_val.induct) auto

lemma nat_dec_digits: "c \<in> set (nat_dec n) \<Longrightarrow> isdigit c"
proof (induction n rule: nat_dec.induct)
  case (1 n)
  then show ?case by (subst (asm) nat_dec.simps) (auto split: if_splits)
qed

lemma nat_dec_nonempty [simp]: "nat_dec n \<noteq> []"
  by (subst nat_dec.simps) simp

lemma digits_val_nat_dec: "digits_val 0 (nat_dec n) = n"
proof (induction n rule: nat_dec.induct)
  case (1 n)
  show ?case
  proof (cases "n < 10")
    case True
    then show ?thesis by (subst nat_dec.simps) simp
  next
    case False
    with 1 have "digits_val 0 (nat_dec (n div 10)) = n div 10" by simp
    with False show ?thesis by (subst nat_dec.simps) (simp add: digits_val_snoc)
  qed
qed

lemma isdigit_not_space: "isdigit c \<Longrightarrow> \<not> isspace c"
  by (auto simp: isdigit_def isspace_def Let_def)

lemma isdigit_not_sign: "isdigit c \<Longrightarrow> c \<noteq> CHR ''-'' \<and> c \<noteq> CHR ''+''"
  by (auto simp: isdigit_def Let_def)

lemma takeWhile_digits:
  "\<forall>c\<in>set ds. isdigit c \<Longrightarrow> r = [] \<or> \<not> isdigit (hd r) \<Longrightarrow>
     takeWhile isdigit (ds @ r) = ds \<and> dropWhile isdigit (ds @ r) = r"
  by (induction ds) (cases r; auto)+

lemma strto_dec_nat_dec:
  assumes "r = [] \<or> \<not> isdigit (hd r)"
  shows "strto_dec (nat_dec n @ r) = (int n, r)"
proof -
  obtain c cs where c: "nat_dec n = c # cs" by (cases "nat_dec n") auto
  then have dc: "isdigit c" using nat_dec_digits [of c n] by simp
  have tw: "takeWhile isdigit (nat_dec n @ r) = nat_dec n" "dropWhile isdigit (nat_dec n @ r) = r"
    using takeWhile_digits [OF _ assms, of "nat_dec n"] nat_dec_digits by auto
  have "dropWhile isspace (nat_dec n @ r) = nat_dec n @ r"
    using c isdigit_not_space [OF dc] by simp
  then show ?thesis
    using c isdigit_not_sign [OF dc] tw digits_val_nat_dec [of n]
    by (simp add: strto_dec_def Let_def)
qed

lemma strto_dec_int_dec:
  assumes "r = [] \<or> \<not> isdigit (hd r)"
  shows "strto_dec (int_dec i @ r) = (i, r)"
proof (cases "i < 0")
  case True
  let ?n = "nat (- i)"
  have tw: "takeWhile isdigit (nat_dec ?n @ r) = nat_dec ?n" "dropWhile isdigit (nat_dec ?n @ r) = r"
    using takeWhile_digits [OF _ assms, of "nat_dec ?n"] nat_dec_digits by auto
  from True tw show ?thesis
    using digits_val_nat_dec [of ?n]
    by (simp add: int_dec_def strto_dec_def Let_def isspace_def)
next
  case False
  then show ?thesis using strto_dec_nat_dec [OF assms, of "nat i"] by (simp add: int_dec_def)
qed

lemma strtoll_int_dec:
  assumes "r = [] \<or> \<not> isdigit (hd r)" "- (2 ^ 63) \<le> i" "i < 2 ^ 63"
  shows "strtoll (int_dec i @ r) = i"
  using assms by (simp add: strtoll_def strto_dec_int_dec clamp_int_def)

lemma int_dec_chars: "c \<in> set (int_dec i) \<Longrightarrow> c = CHR ''-'' \<or> isdigit c"
  by (auto simp: int_dec_def dest: nat_dec_digits split: if_splits)

text \<open>\<open>printf ("%s", NULL)\<close>.\<close>

definition show_ptr :: "cptr \<Rightarrow> cstring" where
  "show_ptr p = (case p of None \<Rightarrow> ''(null)'' | Some s \<Rightarrow> s)"

end
