(* ===== verification/GetInfo.thy ===== *)
theory GetInfo
  imports CString
begin

text \<open>
  \<open>src/tools/get_info.c\<close>: the attribute scanner that every message handler uses in place of an
  XML parser.  \<open>start\<close> and \<open>end\<close> of the C code are suffixes of the input; the optional
  description only selects a line of console output and is dropped.  \<open>strtof\<close>, whose result
  is an IEEE single, is a parameter that yields its bit pattern.
\<close>

subsection \<open>Definitions\<close>

definition get_info :: "cstring \<Rightarrow> cstring \<Rightarrow> cstring \<Rightarrow> cptr" where
  "get_info input patt_b patt_e =
     (case strstr input patt_b of
        None \<Rightarrow> None
      | Some start \<Rightarrow>
          (let start' = drop (length patt_b) start in
           case strstr start' patt_e of
             None \<Rightarrow> None
           | Some end' \<Rightarrow> Some (upto_ptr start' end')))"

text \<open>The loop over the list of end characters keeps the leftmost hit, i.e. the longest suffix.\<close>

fun first_end :: "cstring \<Rightarrow> char list \<Rightarrow> cptr \<Rightarrow> cptr" where
  "first_end s [] e = e"
| "first_end s (c # cs) e =
     (let nend = strchr s c in
      first_end s cs
        (case e of
           None \<Rightarrow> nend
         | Some e' \<Rightarrow> (case nend of
                        None \<Rightarrow> e
                      | Some n' \<Rightarrow> if length e' < length n' then nend else e)))"

definition get_info_first :: "cstring \<Rightarrow> cstring \<Rightarrow> char list \<Rightarrow> cptr" where
  "get_info_first input patt_b patt_e_list =
     (case strstr input patt_b of
        None \<Rightarrow> None
      | Some start \<Rightarrow>
          (let start' = drop (length patt_b) start in
           case first_end start' patt_e_list None of
             None \<Rightarrow> None
           | Some end' \<Rightarrow> Some (upto_ptr start' end')))"

definition get_info_int :: "cstring \<Rightarrow> cstring \<Rightarrow> cstring \<Rightarrow> int" where
  "get_info_int input patt_b patt_e =
     (case strstr input patt_b of
        None \<Rightarrow> 0
      | Some b \<Rightarrow>
          (let b' = drop (length patt_b) b in
           case strstr b' patt_e of None \<Rightarrow> 0 | Some e \<Rightarrow> strtoll b'))"

definition get_info_float :: "(cstring \<Rightarrow> u32) \<Rightarrow> cstring \<Rightarrow> cstring \<Rightarrow> cstring \<Rightarrow> u32" where
  "get_info_float strtof input patt_b patt_e =
     (case strstr input patt_b of
        None \<Rightarrow> 0
      | Some b \<Rightarrow>
          (let b' = drop (length patt_b) b in
           case strstr b' patt_e of None \<Rightarrow> 0 | Some e \<Rightarrow> strtof b'))"

definition get_token :: "cstring \<Rightarrow> char list \<Rightarrow> cptr \<times> cstring" where
  "get_token str delim =
     (case strtok_r str delim of
        (Some ret, saveptr) \<Rightarrow> (Some ret, saveptr)
      | (None, saveptr) \<Rightarrow> (None, saveptr))"

fun trim_end :: "cstring \<Rightarrow> nat \<Rightarrow> nat" where
  "trim_end s 0 = 0"
| "trim_end s (Suc n) = (if isspace (s ! n) then trim_end s n else Suc n)"

definition get_trim :: "cstring \<Rightarrow> cstring" where
  "get_trim s =
     (let start = length (takeWhile isspace s) in
      if start = length s then []
      else (let end' = trim_end s (length s) in take (end' - start) (drop start s)))"

subsection \<open>Attributes\<close>

lemma get_info_decomp:
  assumes "strstr input pb = Some (pb @ r @ pe @ w)" "\<forall>k < length r. \<not> starts_with (drop k (r @ pe @ w)) pe"
  shows "get_info input pb pe = Some r"
proof -
  have "strstr (r @ pe @ w) pe = Some (pe @ w)" using assms(2) by (rule strstr_first)
  with assms(1) show ?thesis by (simp add: get_info_def)
qed

lemma get_info_upto:
  assumes "c \<notin> set r" "strstr input pb = Some (pb @ r @ c # w)"
  shows "get_info input pb [c] = Some r"
  using assms strstr_char [OF assms(1), of w] by (simp add: get_info_def)

lemma get_info_quoted:
  assumes "CHR 0x27 \<notin> set r" "strstr input pb = Some (pb @ r @ CHR 0x27 # w)"
  shows "get_info input pb [CHR 0x27] = Some r"
  using assms strstr_char [OF assms(1), of w] by (simp add: get_info_def)

lemma get_info_SomeD:
  assumes "get_info input pb pe = Some r"
  shows "\<exists>u w. input = u @ pb @ r @ pe @ w
     \<and> (\<forall>k < length u. \<not> starts_with (drop k input) pb)
     \<and> (\<forall>k < length r. \<not> starts_with (drop k (r @ pe @ w)) pe)"
proof -
  from assms obtain start where st: "strstr input pb = Some start"
    by (auto simp: get_info_def split: option.splits)
  then obtain u v where uv: "input = u @ start" "start = pb @ v"
    "\<forall>k < length u. \<not> starts_with (drop k input) pb"
    by (auto dest: strstr_Some_split)
  with assms st obtain e where e: "strstr v pe = Some e" "r = upto_ptr v e"
    by (auto simp: get_info_def split: option.splits)
  then obtain x w where xw: "v = x @ e" "e = pe @ w"
    "\<forall>k < length x. \<not> starts_with (drop k v) pe"
    by (auto dest: strstr_Some_split)
  with e have "r = x" by simp
  with uv xw show ?thesis by (intro exI [of _ u] exI [of _ w]) simp
qed

lemma get_info_no_quote: "get_info input pb [CHR 0x27] = Some r \<Longrightarrow> CHR 0x27 \<notin> set r"
proof
  assume a: "get_info input pb [CHR 0x27] = Some r" and b: "CHR 0x27 \<in> set r"
  from a obtain u w where "\<forall>k < length r. \<not> starts_with (drop k (r @ [CHR 0x27] @ w)) [CHR 0x27]"
    by (blast dest: get_info_SomeD)
  moreover from b obtain i where i: "i < length r" "r ! i = CHR 0x27" by (auto simp: in_set_conv_nth)
  moreover from i have "starts_with (drop i (r @ [CHR 0x27] @ w)) [CHR 0x27]"
    by (simp add: starts_with_take take_Suc_conv_app_nth hd_drop_conv_nth nth_append
             Cons_nth_drop_Suc [symmetric])
  ultimately show False by blast
qed

lemma get_info_int_range: "- (2 ^ 63) \<le> get_info_int s b e \<and> get_info_int s b e < 2 ^ 63"
  using strtoll_range by (auto simp: get_info_int_def Let_def split: option.splits)

lemma get_info_int_printed:
  assumes "strstr input pb = Some (pb @ int_dec i @ CHR 0x27 # w)" "- (2 ^ 63) \<le> i" "i < 2 ^ 63"
  shows "get_info_int input pb [CHR 0x27] = i"
proof -
  have "CHR 0x27 \<notin> set (int_dec i)"
    using int_dec_chars [of "CHR 0x27" i] by (auto simp: isdigit_def)
  from strstr_char [OF this, of w] have "strstr (int_dec i @ CHR 0x27 # w) [CHR 0x27] = Some (CHR 0x27 # w)" .
  moreover have "strtoll (int_dec i @ CHR 0x27 # w) = i"
    using assms(2,3) by (intro strtoll_int_dec) (auto simp: isdigit_def)
  ultimately show ?thesis using assms(1) by (simp add: get_info_int_def)
qed

text \<open>the scanner returns exactly the text between the first occurrence of the opening pattern
  and the first following occurrence of the closing pattern, and NULL when there is none.\<close>

theorem get_info_correct:
  "get_info input pb pe = Some r \<longleftrightarrow>
     (\<exists>u w. input = u @ pb @ r @ pe @ w
        \<and> (\<forall>k < length u. \<not> starts_with (drop k input) pb)
        \<and> (\<forall>k < length r. \<not> starts_with (drop k (r @ pe @ w)) pe))"
  (is "?L \<longleftrightarrow> ?R")
proof
  assume ?L
  then show ?R by (rule get_info_SomeD)
next
  assume ?R
  then obtain u w where h: "input = u @ pb @ r @ pe @ w"
    "\<forall>k < length u. \<not> starts_with (drop k input) pb"
    "\<forall>k < length r. \<not> starts_with (drop k (r @ pe @ w)) pe" by blast
  from h(1,2) have "strstr input pb = Some (pb @ r @ pe @ w)" by (simp add: strstr_first)
  then show ?L using h(3) by (rule get_info_decomp)
qed

theorem get_info_correct_witness:
  "\<exists>u w. ''<a b=(1) c=(2)/>'' = u @ ''c=('' @ ''2'' @ '')'' @ w"
proof -
  have "get_info ''<a b=(1) c=(2)/>'' ''c=('' '')'' = Some ''2''"
    by (simp add: get_info_def upto_ptr_def)
  then show ?thesis using get_info_correct [THEN iffD1] by blast
qed

subsection \<open>End character lists\<close>

lemma first_end_sound:
  "first_end s cs e = Some q \<Longrightarrow> e = Some q \<or> (\<exists>c\<in>set cs. strchr s c = Some q)"
  by (induction s cs e rule: first_end.induct)
     (fastforce simp: Let_def split: option.splits if_splits)+

lemma first_end_longest:
  "first_end s cs e = Some q \<Longrightarrow>
     (\<forall>e'. e = Some e' \<longrightarrow> length e' \<le> length q) \<and>
     (\<forall>c\<in>set cs. \<forall>x. strchr s c = Some x \<longrightarrow> length x \<le> length q)"
proof (induction s cs e rule: first_end.induct)
  case (1 s e)
  then show ?case by simp
next
  case (2 s c cs e)
  let ?n = "strchr s c"
  let ?e = "case e of None \<Rightarrow> ?n
            | Some e' \<Rightarrow> (case ?n of None \<Rightarrow> e | Some n' \<Rightarrow> if length e' < length n' then ?n else e)"
  from "2.prems" have "first_end s cs ?e = Some q" by (simp add: Let_def)
  from "2.IH" [OF refl this] show ?case
    by (auto split: option.splits if_splits)
qed

lemma first_end_None:
  "first_end s cs e = None \<longleftrightarrow> e = None \<and> (\<forall>c\<in>set cs. c \<notin> set s)"
  by (induction s cs e rule: first_end.induct)
     (auto simp: Let_def strchr_none_iff [symmetric] split: option.splits if_splits)

lemma first_end_cut:
  assumes "first_end s cs None = Some q"
  shows "\<exists>t c r. s = t @ c # r \<and> q = c # r \<and> c \<in> set cs \<and> set t \<inter> set cs = {}"
proof -
  from first_end_sound [OF assms] obtain c where c: "c \<in> set cs" "strchr s c = Some q" by auto
  then obtain t r where s: "s = t @ c # r" "q = c # r" by (auto dest: strchr_Some_split)
  have "set t \<inter> set cs = {}"
  proof (rule ccontr)
    assume "set t \<inter> set cs \<noteq> {}"
    then obtain d where d: "d \<in> set t" "d \<in> set cs" by auto
    then obtain t1 t2 where t: "t = t1 @ d # t2" "d \<notin> set t1" by (metis split_list_first)
    then have "strchr s d = Some (d # t2 @ c # r)" using s(1) strchr_append [of d t1] by simp
    with first_end_longest [OF assms] d(2) have "length (d # t2 @ c # r) \<le> length q" by blast
    with s(2) show False by simp
  qed
  with c(1) s show ?thesis by blast
qed

text \<open>with a list of end characters the scanner stops at the leftmost one.\<close>

theorem get_info_first_leftmost:
  assumes "get_info_first input pb cs = Some r"
  shows "\<exists>u c w. input = u @ pb @ r @ c # w \<and> c \<in> set cs \<and> set r \<inter> set cs = {}"
proof -
  from assms obtain v q u where v: "input = u @ pb @ v" "first_end v cs None = Some q" "r = upto_ptr v q"
    by (auto simp: get_info_first_def Let_def split: option.splits dest: strstr_Some_split)
  from first_end_cut [OF v(2)] obtain t c w where
    "v = t @ c # w" "q = c # w" "c \<in> set cs" "set t \<inter> set cs = {}" by blast
  with v show ?thesis by auto
qed

theorem get_info_first_leftmost_witness:
  "\<exists>u c w. ''<foo a>'' = u @ ''<'' @ ''foo'' @ c # w \<and> c \<in> set '' >'' \<and> set ''foo'' \<inter> set '' >'' = {}"
proof -
  have "get_info_first ''<foo a>'' ''<'' '' >'' = Some ''foo''"
    by (simp add: get_info_first_def upto_ptr_def)
  then show ?thesis by (rule get_info_first_leftmost)
qed

lemma get_info_first_append:
  assumes "strstr input pb = Some (pb @ r @ c # w)" "c \<in> set cs" "set r \<inter> set cs = {}"
  shows "get_info_first input pb cs = Some r"
proof -
  obtain q where q: "first_end (r @ c # w) cs None = Some q"
    using assms(2) first_end_None [of "r @ c # w" cs None] by (cases "first_end (r @ c # w) cs None") auto
  from first_end_cut [OF q] obtain t d x where d: "r @ c # w = t @ d # x" "q = d # x" "d \<in> set cs"
    "set t \<inter> set cs = {}" by blast
  have "takeWhile (\<lambda>y. y \<notin> set cs) (r @ c # w) = r"
    using assms(2,3) by (auto simp: takeWhile_append)
  moreover have "takeWhile (\<lambda>y. y \<notin> set cs) (t @ d # x) = t"
    using d(3,4) by (auto simp: takeWhile_append)
  ultimately have "r = t" using d(1) by simp
  with d q assms(1) show ?thesis by (simp add: get_info_first_def)
qed

subsection \<open>Trimming\<close>

lemma trim_end_le: "trim_end s n \<le> n"
  by (induction s n rule: trim_end.induct) auto

lemma trim_end_spaces: "\<forall>i. trim_end s n \<le> i \<and> i < n \<longrightarrow> isspace (s ! i)"
  by (induction s n rule: trim_end.induct) (auto simp: less_Suc_eq)

lemma trim_end_last: "0 < trim_end s n \<Longrightarrow> \<not> isspace (s ! (trim_end s n - 1))"
  by (induction s n rule: trim_end.induct) (auto split: if_splits)

lemma trim_end_gt:
  assumes "i < n" "\<not> isspace (s ! i)"
  shows "i < trim_end s n"
  using trim_end_spaces [of s n] assms by (meson not_le)

text \<open>trimming removes exactly the blanks at both ends.\<close>

theorem get_trim_correct:
  "\<exists>a b. s = a @ get_trim s @ b \<and> (\<forall>c\<in>set (a @ b). isspace c)
     \<and> (get_trim s = [] \<or> \<not> isspace (hd (get_trim s)) \<and> \<not> isspace (last (get_trim s)))"
proof -
  define st where "st = length (takeWhile isspace s)"
  define en where "en = trim_end s (length s)"
  have pre: "take st s = takeWhile isspace s" unfolding st_def by (rule takeWhile_eq_take [symmetric])
  show ?thesis
  proof (cases "st = length s")
    case True
    then have "takeWhile isspace s = s" using pre by simp
    then have "\<forall>c\<in>set s. isspace c" by (metis takeWhile_eq_all_conv)
    moreover have "get_trim s = []" using True by (simp add: get_trim_def st_def Let_def)
    ultimately show ?thesis by (intro exI [of _ s] exI [of _ "[]"]) simp
  next
    case False
    then have lt: "st < length s" using length_takeWhile_le [of isspace s] by (simp add: st_def)
    then have ns: "\<not> isspace (s ! st)" unfolding st_def by (rule nth_length_takeWhile)
    from trim_end_gt [OF lt ns] have st_en: "st < en" by (simp add: en_def)
    have en_le: "en \<le> length s" unfolding en_def by (rule trim_end_le)
    have gt: "get_trim s = take (en - st) (drop st s)"
      using False by (simp add: get_trim_def Let_def st_def en_def)
    have d: "drop (en - st) (drop st s) = drop en s" using st_en by simp
    have split: "take st s @ take (en - st) (drop st s) @ drop en s = s"
      using append_take_drop_id [of st s] append_take_drop_id [of "en - st" "drop st s"]
      unfolding d by simp
    have sp1: "\<forall>c\<in>set (take st s). isspace c" unfolding pre by (blast dest: set_takeWhileD)
    have sp2: "\<forall>c\<in>set (drop en s). isspace c"
      using trim_end_spaces [of s "length s"] en_le
      by (auto simp: in_set_conv_nth en_def less_diff_conv add.commute)
    have "hd (get_trim s) = s ! st"
      using gt lt st_en by (simp add: hd_drop_conv_nth)
    moreover have "last (get_trim s) = s ! (en - 1)"
      using gt st_en en_le lt by (simp add: last_conv_nth)
    moreover have "\<not> isspace (s ! (en - 1))"
      using trim_end_last [of s "length s"] st_en by (simp add: en_def)
    ultimately have "\<not> isspace (hd (get_trim s)) \<and> \<not> isspace (last (get_trim s))"
      using ns by simp
    moreover have "s = take st s @ get_trim s @ drop en s" unfolding gt using split by (rule sym)
    moreover have "\<forall>c\<in>set (take st s @ drop en s). isspace c" using sp1 sp2 by (simp only: set_append) blast
    ultimately show ?thesis by blast
  qed
qed

theorem get_trim_correct_witness: "\<exists>a b. '' ab '' = a @ get_trim '' ab '' @ b"
  using get_trim_correct by blast

text \<open>an integer attribute printed with \<open>%d\<close> or \<open>%lld\<close> is read back unchanged.\<close>

theorem get_info_int_roundtrip:
  assumes "x \<notin> set pre" "c \<notin> set u" "c \<noteq> x" "- (2 ^ 63) \<le> i" "i < 2 ^ 63"
  shows "get_info_int (pre @ c # (u @ x # v) @ int_dec i @ CHR 0x27 # w) (u @ x # v) [CHR 0x27] = i"
proof -
  have "strstr (pre @ c # (u @ x # v) @ int_dec i @ CHR 0x27 # w) (u @ x # v)
      = Some ((u @ x # v) @ int_dec i @ CHR 0x27 # w)"
    using strstr_skip_field [OF assms(1-3), of "(u @ x # v) @ int_dec i @ CHR 0x27 # w" v]
      strstr_here [of "u @ x # v" "int_dec i @ CHR 0x27 # w"] by (simp only:)
  then show ?thesis using assms(4,5) by (rule get_info_int_printed)
qed

theorem get_info_int_roundtrip_witness:
  "get_info_int (''<x a'' @ CHR '' '' # (''from'' @ CHR ''='' # [CHR 0x27]) @ int_dec (- 42) @ CHR 0x27 # ''/>'')
     (''from'' @ CHR ''='' # [CHR 0x27]) [CHR 0x27] = - 42"
  by (rule get_info_int_roundtrip) simp_all

end
