(* ===== verification/Base64.thy ===== *)
theory Base64
  imports CString
begin

text \<open>
  \<open>src/tools/base64.c\<close>, \<open>src/tools/zlibb64.c\<close> and \<open>src/xmpp/sasl.c\<close>: base64, the
  compressed-then-encoded form of query contents, and the SASL login string.

  Binary data are lists of bytes, encoded text is a C string.  The decoder works on a pointer into
  a C string (a suffix) and writes into a buffer of a computed capacity: reading behind the
  terminating NUL and writing behind the capacity are crashes.  zlib's \<open>compress\<close> and
  \<open>uncompress\<close> are parameters.
\<close>

subsection \<open>Encoding\<close>

definition b64_lkp :: string where
  "b64_lkp = ''ABCDEFGHIJKLMNOPQRSTUVWXYZabcdefghijklmnopqrstuvwxyz0123456789+/''"

definition lkp :: "byte \<Rightarrow> char" where
  "lkp i = b64_lkp ! unat i"

fun base64encode :: "byte list \<Rightarrow> cstring" where
  "base64encode (b1 # b2 # b3 # input) =
     lkp (drop_bit 2 b1)
     # lkp (or (push_bit 4 (and b1 0x03)) (drop_bit 4 b2))
     # lkp (or (push_bit 2 (and b2 0x0F)) (drop_bit 6 b3))
     # lkp (and b3 0x3F)
     # base64encode input"
| "base64encode [b1, b2] =
     [lkp (drop_bit 2 b1), lkp (or (push_bit 4 (and b1 0x03)) (drop_bit 4 b2)),
      lkp (push_bit 2 (and b2 0x0F)), CHR ''='']"
| "base64encode [b1] = [lkp (drop_bit 2 b1), lkp (push_bit 4 (and b1 0x03)), CHR ''='', CHR ''='']"
| "base64encode [] = []"

subsection \<open>Decoding\<close>

definition in_range :: "char \<Rightarrow> char \<Rightarrow> char \<Rightarrow> bool" where
  "in_range c lo hi = ((of_char lo :: nat) \<le> of_char c \<and> (of_char c :: nat) \<le> of_char hi)"

definition b64_val :: "char \<Rightarrow> byte" where
  "b64_val c =
     (if in_range c CHR ''A'' CHR ''Z'' then of_char c - of_char CHR ''A''
      else if in_range c CHR ''a'' CHR ''z'' then of_char c + 26 - of_char CHR ''a''
      else if in_range c CHR ''0'' CHR ''9'' then of_char c + 52 - of_char CHR ''0''
      else if c = CHR ''+'' then 62
      else if c = CHR ''/'' then 63
      else 0)"

text \<open>
  The inner loop reads up to four characters.  Only \<open>=\<close> stops it: when it consumes the
  terminating NUL, the next access to the input is outside the string.
\<close>

fun quad_loop :: "nat \<Rightarrow> cstring \<Rightarrow> byte list \<Rightarrow> (byte list \<times> cstring) crash" where
  "quad_loop 0 inp res = Some (res, inp)"
| "quad_loop (Suc n) [] res = None"
| "quad_loop (Suc n) (c # cs) res =
     (if c = CHR ''='' then Some (res, c # cs) else quad_loop n cs (res @ [b64_val c]))"

text \<open>The one to three bytes made from \<open>i\<close> decoded characters (the others are 0).\<close>

definition quad_bytes :: "byte list \<Rightarrow> byte list" where
  "quad_bytes r =
     (let i = length r; res = r @ replicate (4 - i) 0 in
      [or (push_bit 2 (res ! 0)) (drop_bit 4 (res ! 1))]
      @ (if 2 < i then [or (push_bit 4 (res ! 1)) (drop_bit 2 (res ! 2))] else [])
      @ (if 3 < i then [or (push_bit 6 (res ! 2)) (res ! 3)] else []))"

lemma quad_loop_shorter: "quad_loop n s res = Some (res', s') \<Longrightarrow> length s' \<le> length s"
  by (induction n s res rule: quad_loop.induct) (auto split: if_splits)

lemma quad_loop_progress:
  "quad_loop 4 (c # cs) [] = Some (res, s) \<Longrightarrow> c \<noteq> CHR ''='' \<Longrightarrow> length s < length (c # cs)"
  using quad_loop_shorter [of 3 cs "[b64_val c]" res s] by (simp add: numeral_eq_Suc)

function b64_dec_loop :: "nat \<Rightarrow> cstring \<Rightarrow> byte list \<Rightarrow> byte list crash" where
  "b64_dec_loop cap [] buf = (if cap \<le> length buf then None else Some buf)"
| "b64_dec_loop cap (c # cs) buf =
     (if c = CHR ''='' then (if cap \<le> length buf then None else Some buf)
      else (case quad_loop 4 (c # cs) [] of
              None \<Rightarrow> None
            | Some (r, s) \<Rightarrow>
                (let buf' = buf @ quad_bytes r in
                 if cap < length buf' then None else b64_dec_loop cap s buf')))"
  by pat_completeness auto
termination
  by (relation "measure (\<lambda>(cap, s, buf). length s)") (auto dest: quad_loop_progress)

definition b64_capacity :: "nat \<Rightarrow> nat" where
  "b64_capacity inlength = (inlength div 4 + 3) * 3 + 1 + 1"

definition base64decode :: "cstring \<Rightarrow> nat \<Rightarrow> byte list crash" where
  "base64decode input inlength = b64_dec_loop (b64_capacity inlength) input []"

subsection \<open>Compressed text and login strings\<close>

definition bytes_of :: "cstring \<Rightarrow> byte list" where
  "bytes_of s = map of_char s"

definition chars_of :: "byte list \<Rightarrow> char list" where
  "chars_of bs = map (\<lambda>b. char_of (unat b)) bs"

definition zlibb64encode :: "(byte list \<Rightarrow> byte list) \<Rightarrow> byte list \<Rightarrow> cstring" where
  "zlibb64encode compress input = base64encode (compress input)"

text \<open>
  \<open>uncompress data n\<close> is \<open>None\<close> for any status but \<open>Z_OK\<close>, else the bytes written, at most
  \<open>n\<close>.  The rest of the output buffer keeps the contents of fresh memory, \<open>junk\<close>.
\<close>

definition zlibb64decode ::
  "(byte list \<Rightarrow> nat \<Rightarrow> byte list option) \<Rightarrow> (nat \<Rightarrow> byte) \<Rightarrow> cstring \<Rightarrow> nat \<Rightarrow> nat \<Rightarrow> byte list option crash" where
  "zlibb64decode uncompress junk input inlength outlength =
     (case base64decode input inlength of
        None \<Rightarrow> None
      | Some out_b64d \<Rightarrow>
          (case uncompress out_b64d outlength of
             None \<Rightarrow> Some None
           | Some out \<Rightarrow> Some (Some (out @ map junk [length out..<outlength]))))"

definition sasl_combine_logins :: "cstring \<Rightarrow> cstring \<Rightarrow> cstring" where
  "sasl_combine_logins login pwd =
     (let logins = [0] @ bytes_of login @ [0] @ bytes_of pwd in base64encode logins)"

subsection \<open>The alphabet\<close>

lemma b64_lkp_vals: "map b64_val b64_lkp = map of_nat [0..<64]"
  by (simp add: b64_lkp_def b64_val_def in_range_def upt_rec)

lemma b64_lkp_chars: "CHR ''='' \<notin> set b64_lkp" "CHR 0x27 \<notin> set b64_lkp" "length b64_lkp = 64"
  by (simp_all add: b64_lkp_def)

lemma b64_lkp_good:
  assumes "(w :: byte) < 64"
  shows "b64_val (lkp w) = w" "lkp w \<noteq> CHR ''=''" "lkp w \<noteq> CHR 0x27"
proof -
  from assms have i: "unat w < 64" by (simp add: word_less_nat_alt)
  then have "b64_val (b64_lkp ! unat w) = map b64_val b64_lkp ! unat w" by (simp add: b64_lkp_chars)
  also have "\<dots> = of_nat (unat w)" unfolding b64_lkp_vals using i by (simp del: upt_Suc)
  finally show "b64_val (lkp w) = w" by (simp add: lkp_def)
  from i have "b64_lkp ! unat w \<in> set b64_lkp" by (simp add: b64_lkp_chars)
  with b64_lkp_chars(1,2) show "lkp w \<noteq> CHR ''=''" "lkp w \<noteq> CHR 0x27"
    by (auto simp: lkp_def)
qed

lemma byte_less_64: "(w :: byte) < 64 \<longleftrightarrow> \<not> bit w 6 \<and> \<not> bit w 7"
proof -
  have "w < 64 \<longleftrightarrow> take_bit 6 w = w"
    by (simp add: word_less_nat_alt word_unat_eq_iff take_bit_nat_eq_self_iff unsigned_take_bit_eq)
  also have "\<dots> \<longleftrightarrow> \<not> bit w 6 \<and> \<not> bit w 7"
  proof
    assume a: "take_bit 6 w = w"
    then have "bit w 6 = bit (take_bit 6 w) 6" "bit w 7 = bit (take_bit 6 w) 7" by simp_all
    then show "\<not> bit w 6 \<and> \<not> bit w 7" by (simp_all add: bit_take_bit_iff)
  next
    assume a: "\<not> bit w 6 \<and> \<not> bit w 7"
    show "take_bit 6 w = w"
    proof (rule bit_word_eqI)
      fix n :: nat
      assume "n < LENGTH(8)"
      then have "n \<in> {0..<8}" by simp
      then have "n < 6 \<or> n = 6 \<or> n = 7" by auto
      with a show "bit (take_bit 6 w) n = bit w n" by (auto simp: bit_take_bit_iff)
    qed
  qed
  finally show ?thesis .
qed

declare push_bit_and [simp del]

text \<open>Every table index that the encoder computes is below 64, and the decoder's shifts invert it.\<close>

lemmas byte_bits = bit_or_iff bit_and_iff bit_push_bit_iff bit_drop_bit_eq

lemma mask_bits:
  "bit (0x03 :: byte) n \<longleftrightarrow> n < 2" "bit (0x0F :: byte) n \<longleftrightarrow> n < 4" "bit (0x3F :: byte) n \<longleftrightarrow> n < 6"
proof -
  have m: "(0x03 :: byte) = mask 2" "(0x0F :: byte) = mask 4" "(0x3F :: byte) = mask 6"
    by (simp_all add: mask_eq_exp_minus_1)
  show "bit (0x03 :: byte) n \<longleftrightarrow> n < 2" "bit (0x0F :: byte) n \<longleftrightarrow> n < 4" "bit (0x3F :: byte) n \<longleftrightarrow> n < 6"
    unfolding m bit_mask_iff by auto
qed

lemma byte_high_bit [simp]: "8 \<le> n \<Longrightarrow> \<not> bit (b :: byte) n"
  using bit_imp_le_length [of b n] by auto

lemma enc_index_small:
  "drop_bit 2 (b :: byte) < 64"
  "or (push_bit 4 (and (a :: byte) 0x03)) (drop_bit 4 b) < 64"
  "or (push_bit 2 (and a 0x0F)) (drop_bit 6 b) < 64"
  "and a 0x3F < 64"
  "push_bit 2 (and a 0x0F) < 64"
  "push_bit 4 (and a 0x03) < 64"
  by (simp_all add: byte_less_64 byte_bits mask_bits)

lemma byte_eqI:
  assumes "bit a 0 = bit b 0" "bit a 1 = bit b 1" "bit a 2 = bit b 2" "bit a 3 = bit b 3"
    "bit a 4 = bit b 4" "bit a 5 = bit b 5" "bit a 6 = bit b 6" "bit a 7 = bit b 7"
  shows "(a :: byte) = b"
proof (rule bit_word_eqI)
  fix n :: nat
  assume "n < LENGTH(8)"
  then have "n \<in> {0, 1, 2, 3, 4, 5, 6, 7}" by auto
  with assms show "bit a n = bit b n" by auto
qed

lemma dec_bytes:
  "or (push_bit 2 (drop_bit 2 (b1 :: byte))) (drop_bit 4 (or (push_bit 4 (and b1 0x03)) (drop_bit 4 b2))) = b1"
  "or (push_bit 2 (drop_bit 2 (b1 :: byte))) (drop_bit 4 (push_bit 4 (and b1 0x03))) = b1"
  "or (push_bit 4 (or (push_bit 4 (and b1 0x03)) (drop_bit 4 b2))) (drop_bit 2 (or (push_bit 2 (and b2 0x0F)) (drop_bit 6 b3))) = b2"
  "or (push_bit 4 (or (push_bit 4 (and b1 0x03)) (drop_bit 4 b2))) (drop_bit 2 (push_bit 2 (and b2 0x0F))) = b2"
  "or (push_bit 6 (or (push_bit 2 (and b2 0x0F)) (drop_bit 6 b3))) (and b3 0x3F) = b3"
  "or (push_bit 4 (drop_bit 4 b2)) (drop_bit 2 (push_bit 2 (and b2 0x0F))) = b2"
  "or (push_bit 6 (drop_bit 6 b3)) (and b3 0x3F) = b3"
  by (rule byte_eqI; simp add: byte_bits mask_bits)+

subsection \<open>Decoding inverts encoding\<close>

lemmas b64_lkp_simps = b64_lkp_good b64_lkp_good(2,3) [symmetric] enc_index_small dec_bytes

lemma base64encode_length: "length (base64encode bs) = 4 * ((length bs + 2) div 3)"
proof (induction bs rule: base64encode.induct)
  case (1 b1 b2 b3 input)
  have "(length (b1 # b2 # b3 # input) + 2) div 3 = Suc ((length input + 2) div 3)" by simp
  with 1 show ?case by simp
qed simp_all

lemma quad_loop_unroll:
  "quad_loop 4 (c # cs) res = (if c = CHR ''='' then Some (res, c # cs) else quad_loop 3 cs (res @ [b64_val c]))"
  "quad_loop 3 (c # cs) res = (if c = CHR ''='' then Some (res, c # cs) else quad_loop 2 cs (res @ [b64_val c]))"
  "quad_loop 2 (c # cs) res = (if c = CHR ''='' then Some (res, c # cs) else quad_loop 1 cs (res @ [b64_val c]))"
  "quad_loop 1 (c # cs) res = (if c = CHR ''='' then Some (res, c # cs) else quad_loop 0 cs (res @ [b64_val c]))"
  by (simp_all add: eval_nat_numeral)

lemma quad_loop_full:
  "CHR ''='' \<notin> {c1, c2, c3, c4} \<Longrightarrow>
     quad_loop 4 (c1 # c2 # c3 # c4 # s) [] = Some ([b64_val c1, b64_val c2, b64_val c3, b64_val c4], s)"
  by (auto simp: numeral_eq_Suc)

lemma b64_dec_loop_quad:
  assumes "CHR ''='' \<notin> {c1, c2, c3, c4}" "length buf + 3 \<le> cap"
  shows "b64_dec_loop cap (c1 # c2 # c3 # c4 # s) buf
       = b64_dec_loop cap s (buf @ [or (push_bit 2 (b64_val c1)) (drop_bit 4 (b64_val c2)),
                                or (push_bit 4 (b64_val c2)) (drop_bit 2 (b64_val c3)),
                                or (push_bit 6 (b64_val c3)) (b64_val c4)])"
  using assms quad_loop_full [OF assms(1), of s] by (auto simp: quad_bytes_def Let_def)

lemma b64_dec_loop_stop: "length buf < cap \<Longrightarrow> b64_dec_loop cap (CHR ''='' # s) buf = Some buf"
  by simp

text \<open>Without padding the decoder runs on into whatever follows the encoded text.\<close>

lemma dec_encode:
  "length buf + length bs < cap \<Longrightarrow>
     b64_dec_loop cap (base64encode bs @ t) buf
       = (if length bs mod 3 = 0 then b64_dec_loop cap t (buf @ bs) else Some (buf @ bs))"
proof (induction bs arbitrary: buf rule: base64encode.induct)
  case (1 b1 b2 b3 input)
  have "b64_dec_loop cap (base64encode (b1 # b2 # b3 # input) @ t) buf
      = b64_dec_loop cap (base64encode input @ t) (buf @ [b1, b2, b3])"
    using "1.prems" unfolding base64encode.simps append_Cons
    by (subst b64_dec_loop_quad) (simp_all add: b64_lkp_simps)
  also have "\<dots> = (if length input mod 3 = 0 then b64_dec_loop cap t ((buf @ [b1, b2, b3]) @ input)
                  else Some ((buf @ [b1, b2, b3]) @ input))"
    using "1.prems" by (intro "1.IH") simp
  finally show ?case by (simp add: mod_Suc)
next
  case (2 b1 b2)
  have n: "lkp (drop_bit 2 b1) \<noteq> CHR ''=''" "lkp (or (push_bit 4 (and b1 3)) (drop_bit 4 b2)) \<noteq> CHR ''=''"
    "lkp (push_bit 2 (and b2 15)) \<noteq> CHR ''=''" by (simp_all add: b64_lkp_good enc_index_small)
  have "quad_loop 4 (base64encode [b1, b2] @ t) []
      = Some ([drop_bit 2 b1, or (push_bit 4 (and b1 3)) (drop_bit 4 b2), push_bit 2 (and b2 15)], CHR ''='' # t)"
    using n by (simp add: quad_loop_unroll b64_lkp_good enc_index_small)
  with 2 n show ?case by (simp add: quad_bytes_def Let_def dec_bytes)
next
  case (3 b1)
  have n: "lkp (drop_bit 2 b1) \<noteq> CHR ''=''" "lkp (push_bit 4 (and b1 3)) \<noteq> CHR ''=''"
    by (simp_all add: b64_lkp_good enc_index_small)
  have "quad_loop 4 (base64encode [b1] @ t) []
      = Some ([drop_bit 2 b1, push_bit 4 (and b1 3)], CHR ''='' # CHR ''='' # t)"
    using n by (simp add: quad_loop_unroll b64_lkp_good enc_index_small)
  with 3 n show ?case by (simp add: quad_bytes_def Let_def dec_bytes)
next
  case 4
  then show ?case by simp
qed

lemma b64_capacity_enough: "length bs + 11 \<le> b64_capacity (length (base64encode bs) + k)"
  by (simp add: b64_capacity_def base64encode_length)

lemma base64_alphabet: "c \<in> set (base64encode bs) \<Longrightarrow> c \<noteq> CHR 0x27"
  by (induction bs rule: base64encode.induct) (auto simp: b64_lkp_simps)

lemma char_of_unat_of_char: "char_of (unat (of_char c :: byte)) = c"
proof -
  have "unat (of_nat (of_char c) :: byte) = take_bit LENGTH(8) (of_char c)"
    by (simp add: unsigned_of_nat)
  also have "\<dots> = of_char c" by (intro take_bit_nat_eq_self) simp
  finally show ?thesis unfolding of_nat_of_char by simp
qed

lemma base64_unpadded: "length bs mod 3 = 0 \<Longrightarrow> CHR ''='' \<notin> set (base64encode bs)"
  by (induction bs rule: base64encode.induct) (auto simp: b64_lkp_simps mod_Suc split: if_splits)

lemma chars_of_bytes_of [simp]: "chars_of (bytes_of s) = s"
  by (simp add: chars_of_def bytes_of_def comp_def char_of_unat_of_char)

text \<open>C38: decoding an encoded byte sequence gives it back; the encoder stays within the buffer it
  allocates and neither the input nor the output buffer of the decoder is left.\<close>

theorem base64_roundtrip:
  "base64decode (base64encode bs) (length (base64encode bs)) = Some bs
   \<and> length (base64encode bs) + 1 \<le> (length bs + 2) div 3 * 4 + 2"
  using dec_encode [of "[]" bs "b64_capacity (length (base64encode bs))" "[]"]
    b64_capacity_enough [of bs 0]
  by (simp add: base64decode_def base64encode_length)

text \<open>the SASL PLAIN string carries login and password: it decodes to NUL, login, NUL, password.\<close>

theorem sasl_logins_recovered:
  "map_option chars_of
     (base64decode (sasl_combine_logins login pwd) (length (sasl_combine_logins login pwd)))
   = Some (CHR 0x00 # login @ CHR 0x00 # pwd)"
proof -
  have "chars_of ([0] @ bytes_of login @ [0] @ bytes_of pwd)
      = CHR 0x00 # chars_of (bytes_of login) @ CHR 0x00 # chars_of (bytes_of pwd)"
    by (simp add: chars_of_def char_of_def)
  then show ?thesis
    using base64_roundtrip [of "[0] @ bytes_of login @ [0] @ bytes_of pwd"]
    by (simp add: sasl_combine_logins_def Let_def)
qed

end
