(* ===== verification/WfQuery.thy ===== *)
theory WfQuery
  imports GetInfo Base64
begin

text \<open>
  \<open>src/xmpp_wf/tools.c\<close>: the Warface query layer.  \<open>wf_compress_query\<close> replaces the content
  of a large \<open>urn:cryonline:k01\<close> query by a \<open>data\<close> element holding its zlib-compressed,
  base64-encoded form; \<open>wf_get_query_content\<close> takes the content out of either form.

  zlib is a parameter; \<open>zlib_ok\<close> states what its manual promises: uncompressing what
  \<open>compress\<close> produced into a buffer of the original size succeeds and gives the original
  bytes, and bytes that follow the end of the stream are not looked at.
\<close>

definition MAX_PLAIN_QUERY_SIZE :: nat where
  "MAX_PLAIN_QUERY_SIZE = 512"

text \<open>Patterns, spelled with their quote characters.\<close>

definition k01_open :: cstring where
  "k01_open = ''urn:cryonline:k01'' @ [apos, CHR ''>'']"

definition compressed_attr :: cstring where
  "compressed_attr = ''compressedData='' @ [apos]"

definition original_attr :: cstring where
  "original_attr = ''originalSize='' @ [apos]"

definition zlib_ok :: "(byte list \<Rightarrow> byte list) \<Rightarrow> (byte list \<Rightarrow> nat \<Rightarrow> byte list option) \<Rightarrow> bool" where
  "zlib_ok compress uncompress \<longleftrightarrow>
     (\<forall>bs junk. uncompress (compress bs @ junk) (length bs) = Some bs)"

subsection \<open>Reading\<close>

definition quote_to_apos :: "cstring \<Rightarrow> cstring" where
  "quote_to_apos s = map (\<lambda>c. if c = CHR 0x22 then apos else c) s"

definition wf_get_query_content ::
  "(byte list \<Rightarrow> nat \<Rightarrow> byte list option) \<Rightarrow> (nat \<Rightarrow> byte) \<Rightarrow> cptr \<Rightarrow> cptr crash" where
  "wf_get_query_content uncompress junk msg =
     (case msg of
        None \<Rightarrow> Some None
      | Some m \<Rightarrow>
          (case strstr m compressed_attr of
             None \<Rightarrow> Some (get_info m k01_open ''</query>'')
           | Some cd \<Rightarrow>
               (let compressedData = drop (length compressed_attr) cd in
                case strstr m original_attr of
                  None \<Rightarrow> Some None
                | Some os \<Rightarrow>
                    (let originalSize = drop (length original_attr) os;
                         outsize = nat (strtoll originalSize mod 2 ^ 64)
                     in do {
                       q \<leftarrow> deref (strstr compressedData [apos]);
                       let insize = length compressedData - length q + 1;
                       r \<leftarrow> zlibb64decode uncompress junk compressedData insize outsize;
                       ret \<leftarrow> deref r;
                       Some (Some (quote_to_apos (c_str (chars_of ret))))
                     }))))"

subsection \<open>Writing\<close>

text \<open>A trailing slash of the arguments is cut, arguments of 513 characters and more are dropped.\<close>

definition data_args :: "cstring \<Rightarrow> cstring" where
  "data_args args =
     (let end_args = length args in
      if MAX_PLAIN_QUERY_SIZE < end_args then []
      else if 0 < end_args \<and> args ! (end_args - 1) = CHR ''/'' then take (end_args - 1) args
      else args)"

definition data_query :: "cstring \<Rightarrow> cstring \<Rightarrow> cstring \<Rightarrow> nat \<Rightarrow> cstring \<Rightarrow> cstring \<Rightarrow> cstring" where
  "data_query prologue query_name compressed osize args epilogue =
     ''<'' @ prologue @ k01_open @ ''<data query_name='' @ [apos] @ query_name @ [apos] @ '' ''
     @ compressed_attr @ compressed @ [apos] @ '' '' @ original_attr @ nat_dec osize @ [apos] @ '' ''
     @ args @ '' /></query>'' @ epilogue @ ''</iq>''"

definition wf_compress_query :: "(byte list \<Rightarrow> byte list) \<Rightarrow> cptr \<Rightarrow> cptr" where
  "wf_compress_query compress msg =
     (case msg of
        None \<Rightarrow> None
      | Some iq \<Rightarrow>
          if length iq < MAX_PLAIN_QUERY_SIZE then Some iq
          else if strstr iq ''/></query>'' \<noteq> None then Some iq
          else (case get_info iq k01_open ''</query>'' of
                  None \<Rightarrow> Some iq
                | Some query \<Rightarrow>
                    (case get_info_first query ''<'' '' />'' of
                       None \<Rightarrow> Some iq
                     | Some query_name \<Rightarrow>
                         if query_name = ''data'' then Some iq
                         else (case (get_info_first query query_name ''>'', get_info iq ''<'' k01_open,
                                     get_info iq ''</query>'' ''</iq>'') of
                                 (Some args, Some prologue, Some epilogue) \<Rightarrow>
                                   (let osize = length query;
                                        compressed = zlibb64encode compress (bytes_of query)
                                    in Some (data_query prologue query_name compressed osize
                                               (data_args args) epilogue))
                               | _ \<Rightarrow> Some iq))))"

definition wf_decompress_query :: "cptr \<Rightarrow> cptr" where
  "wf_decompress_query iq = (case iq of None \<Rightarrow> None | Some s \<Rightarrow> Some s)"

subsection \<open>Where the attributes of a compressed query are found\<close>

lemma k01_open_split: "k01_open = CHR ''u'' # tl k01_open"
  by (simp add: k01_open_def)

lemma skip_k01:
  assumes "strstr prologue p = None" "p \<in> {compressed_attr, original_attr}"
  shows "strstr (''<'' @ prologue @ k01_open @ ''<data query_name='' @ [apos] @ s) p = strstr s p"
proof -
  have c: "CHR ''<'' \<notin> set p" "CHR ''u'' \<notin> set p"
    using assms(2) by (auto simp: compressed_attr_def original_attr_def)
  have "strstr (''<'' @ prologue @ k01_open @ ''<data query_name='' @ [apos] @ s) p
      = strstr ([] @ CHR ''<'' # prologue @ k01_open @ ''<data query_name='' @ [apos] @ s) p" by simp
  also have "\<dots> = strstr (prologue @ k01_open @ ''<data query_name='' @ [apos] @ s) p"
    using assms c by (intro strstr_skip_absent) (auto simp: compressed_attr_def original_attr_def)
  also have "\<dots> = strstr (prologue @ CHR ''u'' # tl k01_open @ ''<data query_name='' @ [apos] @ s) p"
    by (subst k01_open_split) simp
  also have "\<dots> = strstr (tl k01_open @ ''<data query_name='' @ [apos] @ s) p"
    by (rule strstr_skip_absent [OF assms(1) c(2)])
  also have "\<dots> = strstr s p"
    using assms(2) by (elim insertE emptyE) (simp_all add: compressed_attr_def original_attr_def k01_open_def)
  finally show ?thesis .
qed

lemma skip_name:
  assumes "CHR ''='' \<notin> set nm" "p \<in> {compressed_attr, original_attr}"
  shows "strstr (nm @ apos # CHR '' '' # s) p = strstr s p"
proof -
  have "strstr ((nm @ [apos]) @ CHR '' '' # s) (u @ CHR ''='' # v) = strstr s (u @ CHR ''='' # v)"
    if "u \<in> {''compressedData'', ''originalSize''}" for u v
    using assms(1) that by (intro strstr_skip_field) auto
  from this [of "''compressedData''" "[apos]"] this [of "''originalSize''" "[apos]"] show ?thesis
    using assms(2) by (auto simp: compressed_attr_def original_attr_def simp del: strstr.simps)
qed

lemma find_compressed:
  assumes "strstr prologue compressed_attr = None" "CHR ''='' \<notin> set nm"
  shows "strstr (''<'' @ prologue @ k01_open @ ''<data query_name='' @ [apos] @ nm @ apos # CHR '' '' # compressed_attr @ r)
           compressed_attr = Some (compressed_attr @ r)"
  using skip_k01 [OF assms(1)] skip_name [OF assms(2)] strstr_here by (simp only: insert_iff simp_thms)

text \<open>
  An occurrence of \<open>originalSize='\<close> that starts inside the encoded data would have to end with
  the quote that closes them.
\<close>

lemma skip_data:
  assumes "apos \<notin> set d" "\<nexists>x. d = x @ ''originalSize=''"
  shows "strstr (d @ apos # CHR '' '' # s) original_attr = strstr s original_attr"
proof -
  have "\<forall>k < length (d @ [apos, CHR '' '']). \<not> starts_with (drop k ((d @ [apos, CHR '' '']) @ s)) original_attr"
  proof (intro allI impI notI)
    fix k
    assume k: "k < length (d @ [apos, CHR '' ''])"
      and st: "starts_with (drop k ((d @ [apos, CHR '' '']) @ s)) original_attr"
    then obtain w where w: "drop k (d @ apos # CHR '' '' # s) = ''originalSize='' @ apos # w"
      by (auto simp: starts_with_iff original_attr_def)
    show False
    proof (cases "k \<le> length d")
      case True
      then have e: "drop k d @ apos # CHR '' '' # s = ''originalSize='' @ apos # w" using w by simp
      have "takeWhile (\<lambda>c. c \<noteq> apos) (drop k d @ apos # CHR '' '' # s) = drop k d"
        using assms(1) by (auto simp: takeWhile_append dest: in_set_dropD)
      then have "drop k d = ''originalSize=''" unfolding e by simp
      then have "d = take k d @ ''originalSize=''" by (metis append_take_drop_id)
      with assms(2) show False by blast
    next
      case False
      with k have "k = Suc (length d)" by simp
      with w show False by simp
    qed
  qed
  from strstr_skip [OF this] show ?thesis by simp
qed

lemma skip_compressed_attr: "strstr (compressed_attr @ s) original_attr = strstr s original_attr"
  by (simp add: compressed_attr_def original_attr_def)

lemma find_original:
  assumes "strstr prologue original_attr = None" "CHR ''='' \<notin> set nm" "apos \<notin> set d"
    "\<nexists>x. d = x @ ''originalSize=''"
  shows "strstr (''<'' @ prologue @ k01_open @ ''<data query_name='' @ [apos] @ nm @ apos # CHR '' ''
                 # compressed_attr @ d @ apos # CHR '' '' # original_attr @ r)
           original_attr = Some (original_attr @ r)"
  using skip_k01 [OF assms(1)] skip_name [OF assms(2)] skip_compressed_attr skip_data [OF assms(3,4)] strstr_here
  by (simp only: insert_iff simp_thms)

text \<open>Decoding runs on to the \<open>=\<close> of the next attribute when the data have no padding; the ten extra
  bytes just fit the buffer.\<close>

lemma decode_in_message:
  "\<exists>j. base64decode (base64encode bs @ apos # CHR '' '' # original_attr @ r) (length (base64encode bs) + 1)
     = Some (bs @ j)"
proof -
  let ?cap = "b64_capacity (length (base64encode bs) + 1)" and ?t = "apos # CHR '' '' # original_attr @ r"
  note cap = b64_capacity_enough [of bs 1]
  have enc: "base64decode (base64encode bs @ ?t) (length (base64encode bs) + 1)
      = (if length bs mod 3 = 0 then b64_dec_loop ?cap ?t ([] @ bs) else Some ([] @ bs))"
    unfolding base64decode_def by (rule dec_encode) (use cap in simp)
  show ?thesis
  proof (cases "length bs mod 3 = 0")
    case False
    with enc show ?thesis by simp
  next
    case True
    have quad: "\<exists>j. length j = 3 \<and> b64_dec_loop c (c1 # c2 # c3 # c4 # s) b = b64_dec_loop c s (b @ j)"
      if "CHR ''='' \<notin> {c1, c2, c3, c4}" "length b + 3 \<le> c" for c c1 c2 c3 c4 s b
      using b64_dec_loop_quad [OF that] by (intro exI conjI) (auto simp: that)
    let ?r = "CHR ''='' # apos # r"
    obtain j1 where 1: "length j1 = 3" "b64_dec_loop ?cap ?t bs
        = b64_dec_loop ?cap (CHR ''i'' # CHR ''g'' # CHR ''i'' # CHR ''n'' # ''alSize'' @ ?r) (bs @ j1)"
      using quad [of apos "CHR '' ''" "CHR ''o''" "CHR ''r''" bs ?cap "''iginalSize'' @ ?r"] cap
      by (auto simp: original_attr_def)
    obtain j2 where 2: "length j2 = 3" "b64_dec_loop ?cap (CHR ''i'' # CHR ''g'' # CHR ''i'' # CHR ''n'' # ''alSize'' @ ?r) (bs @ j1)
        = b64_dec_loop ?cap (''alSize'' @ ?r) (bs @ j1 @ j2)"
      using quad [of "CHR ''i''" "CHR ''g''" "CHR ''i''" "CHR ''n''" "bs @ j1" ?cap "''alSize'' @ ?r"] cap 1(1)
      by auto
    obtain j3 where 3: "length j3 = 3" "b64_dec_loop ?cap (''alSize'' @ ?r) (bs @ j1 @ j2) = b64_dec_loop ?cap (''ze'' @ ?r) (bs @ j1 @ j2 @ j3)"
      using quad [of "CHR ''a''" "CHR ''l''" "CHR ''S''" "CHR ''i''" "bs @ j1 @ j2" ?cap "''ze'' @ ?r"] cap 1(1) 2(1)
      by auto
    have "quad_loop 4 (''ze'' @ ?r) [] = Some ([b64_val CHR ''z'', b64_val CHR ''e''], ?r)"
      by (simp add: quad_loop_unroll)
    then obtain b where 4: "b64_dec_loop ?cap (''ze'' @ ?r) (bs @ j1 @ j2 @ j3) = Some (bs @ j1 @ j2 @ j3 @ [b])"
      using cap 1(1) 2(1) 3(1) by (auto simp: quad_bytes_def Let_def)
    from True enc 1(2) 2(2) 3(2) 4 show ?thesis by auto
  qed
qed

lemma wf_content_of_data_query:
  assumes "zlib_ok compress uncompress"
    and pro: "strstr prologue compressed_attr = None" "strstr prologue original_attr = None"
    and nm: "CHR ''='' \<notin> set nm"
    and enc: "\<nexists>x. zlibb64encode compress (bytes_of q) = x @ ''originalSize=''"
    and q: "NUL \<notin> set q" "length q < 2 ^ 63"
  shows "wf_get_query_content uncompress junk
           (Some (data_query prologue nm (zlibb64encode compress (bytes_of q)) (length q) args ep))
         = Some (Some (quote_to_apos q))"
proof -
  define d where "d = zlibb64encode compress (bytes_of q)"
  define R where "R = nat_dec (length q) @ apos # '' '' @ args @ '' /></query>'' @ ep @ ''</iq>''"
  define Y where "Y = apos # CHR '' '' # original_attr @ R"
  define X where "X = d @ Y"
  define M where "M = data_query prologue nm d (length q) args ep"
  have m: "M = ''<'' @ prologue @ k01_open @ ''<data query_name='' @ [apos] @ nm @ apos # CHR '' ''
                 # compressed_attr @ d @ apos # CHR '' '' # original_attr @ R"
    by (simp add: M_def data_query_def R_def)
  have nq: "apos \<notin> set d" unfolding d_def zlibb64encode_def using base64_alphabet by blast
  have f1: "strstr M compressed_attr = Some (compressed_attr @ X)"
    unfolding m X_def Y_def by (rule find_compressed [OF pro(1) nm])
  have f2: "strstr M original_attr = Some (original_attr @ R)"
    unfolding m by (rule find_original [OF pro(2) nm nq enc [folded d_def]])
  have sz: "strtoll R = int (length q)"
    unfolding R_def
    using strtoll_int_dec [of "apos # '' '' @ args @ '' /></query>'' @ ep @ ''</iq>''" "int (length q)"] q(2)
    by (simp add: int_dec_def isdigit_def)
  have end': "strstr X [apos] = Some Y" unfolding X_def Y_def using nq by (rule strstr_char)
  have len: "length X - length Y = length d" by (simp add: X_def)
  obtain j where j: "base64decode X (length d + 1) = Some (compress (bytes_of q) @ j)"
    unfolding X_def Y_def d_def zlibb64encode_def using decode_in_message by blast
  have "uncompress (compress (bytes_of q) @ j) (length q) = Some (bytes_of q)"
    using assms(1) by (metis bytes_of_def length_map zlib_ok_def)
  then have z: "zlibb64decode uncompress junk X (length d + 1) (length q) = Some (Some (bytes_of q))"
    using j by (simp add: zlibb64decode_def bytes_of_def)
  have n: "nat (int (length q) mod 2 ^ 64) = length q" using q(2) by simp
  have "wf_get_query_content uncompress junk (Some M) = Some (Some (quote_to_apos q))"
    using z by (simp add: wf_get_query_content_def f1 f2 sz n end' len q(1) Let_def del: power_numeral)
  then show ?thesis by (simp add: M_def d_def)
qed

subsection \<open>Properties\<close>

lemma quote_to_apos_idem [simp]: "quote_to_apos (quote_to_apos s) = quote_to_apos s"
  by (simp add: quote_to_apos_def)

lemma strstr_none_part: "strstr (u @ t @ v) p = None \<Longrightarrow> strstr t p = None"
  unfolding strstr_none_iff by (metis append.assoc)

lemma not_ends_with: "drop (length d - length p) d \<noteq> p \<Longrightarrow> \<nexists>x. d = x @ p"
  by auto

lemma wf_compress_query_cases:
  assumes "wf_compress_query compress (Some iq) \<noteq> Some iq" "get_info iq k01_open ''</query>'' = Some q"
  shows "\<exists>prologue nm args ep. get_info iq ''<'' k01_open = Some prologue
           \<and> get_info_first q ''<'' '' />'' = Some nm
           \<and> wf_compress_query compress (Some iq)
               = Some (data_query prologue nm (zlibb64encode compress (bytes_of q)) (length q) args ep)"
  using assms by (auto simp: wf_compress_query_def Let_def split: if_splits option.splits)

text \<open>C35: sending a query compressed is transparent: whatever \<open>wf_compress_query\<close> makes of a query
  (it may also leave it alone), \<open>wf_get_query_content\<close> reads the original content back from it, up
  to the double quotes that it turns into single ones.\<close>

theorem wf_compression_transparent:
  assumes "zlib_ok compress uncompress"
    and "get_info iq k01_open ''</query>'' = Some q"
    and "strstr iq compressed_attr = None" "strstr iq original_attr = None"
    and "\<forall>nm. get_info_first q ''<'' '' />'' = Some nm \<longrightarrow> CHR ''='' \<notin> set nm"
    and "drop (length (zlibb64encode compress (bytes_of q)) - 13) (zlibb64encode compress (bytes_of q)) \<noteq> ''originalSize=''"
    and "NUL \<notin> set iq" "length iq < 2 ^ 63"
  shows "map_option (map_option quote_to_apos)
           (wf_get_query_content uncompress junk (wf_compress_query compress (Some iq)))
         = Some (Some (quote_to_apos q))"
proof (cases "wf_compress_query compress (Some iq) = Some iq")
  case True
  with assms(2,3) show ?thesis by (simp add: wf_get_query_content_def)
next
  case False
  from wf_compress_query_cases [OF this assms(2)] obtain prologue nm args ep where c:
    "get_info iq ''<'' k01_open = Some prologue" "get_info_first q ''<'' '' />'' = Some nm"
    "wf_compress_query compress (Some iq)
       = Some (data_query prologue nm (zlibb64encode compress (bytes_of q)) (length q) args ep)" by blast
  obtain u w where u: "iq = u @ ''<'' @ prologue @ k01_open @ w" using c(1) by (auto dest: get_info_SomeD)
  obtain u' w' where u': "iq = u' @ k01_open @ q @ ''</query>'' @ w'" using assms(2) by (auto dest: get_info_SomeD)
  have pro: "strstr prologue p = None" if "strstr iq p = None" for p
    using strstr_none_part [of "u @ ''<''" prologue "k01_open @ w" p] that u by simp
  have "length (''originalSize='') = 13" by simp
  with assms(6) have enc: "\<nexists>x. zlibb64encode compress (bytes_of q) = x @ ''originalSize=''"
    by (metis not_ends_with)
  have "NUL \<notin> set q" "length q < 2 ^ 63" using assms(7,8) u' by auto
  from wf_content_of_data_query [OF assms(1) pro [OF assms(3)] pro [OF assms(4)] _ enc this] assms(5) c(2)
  show ?thesis unfolding c(3) by simp
qed

text \<open>A query with one element whose text is \<open>x\<close>.\<close>

definition sample_query :: "cstring \<Rightarrow> cstring" where
  "sample_query x = ''<iq to='' @ [apos] @ ''k01.warface'' @ [apos] @ ''><query xmlns='' @ [apos] @ k01_open
     @ ''<a>'' @ x @ ''</a></query></iq>''"

lemma sample_query_facts:
  assumes "set x \<subseteq> {CHR ''x''}"
  shows "get_info (sample_query x) k01_open ''</query>'' = Some (''<a>'' @ x @ ''</a>'')"
    "strstr (sample_query x) compressed_attr = None"
    "strstr (sample_query x) original_attr = None"
proof -
  have h: "strstr (x @ r) (c # p) = strstr r (c # p)" if "c \<noteq> CHR ''x''" for c r p
    using assms that by (intro strstr_skip_head) auto
  have k: "strstr (sample_query x) k01_open = Some (k01_open @ ''<a>'' @ x @ ''</a></query></iq>'')"
    by (simp add: sample_query_def k01_open_def)
  moreover have "strstr (''<a>'' @ x @ ''</a></query></iq>'') ''</query>'' = Some (''</query></iq>'')"
    by (simp add: h)
  moreover have "upto_ptr ((''<a>'' @ x @ ''</a>'') @ ''</query></iq>'') (''</query></iq>'') = ''<a>'' @ x @ ''</a>''"
    by (rule upto_ptr_append)
  ultimately show "get_info (sample_query x) k01_open ''</query>'' = Some (''<a>'' @ x @ ''</a>'')"
    by (simp add: get_info_def Let_def)
  show "strstr (sample_query x) compressed_attr = None" "strstr (sample_query x) original_attr = None"
    by (simp_all add: sample_query_def k01_open_def compressed_attr_def original_attr_def h)
qed

theorem wf_compression_transparent_witness:
  "map_option (map_option quote_to_apos)
     (wf_get_query_content (\<lambda>bs n. Some (take n bs)) (\<lambda>_. 0)
        (wf_compress_query id (Some (sample_query (replicate 503 CHR ''x'')))))
   = Some (Some (quote_to_apos (''<a>'' @ replicate 503 CHR ''x'' @ ''</a>'')))"
proof (rule wf_compression_transparent)
  let ?x = "replicate 503 CHR ''x''"
  let ?q = "''<a>'' @ ?x @ ''</a>''"
  have x: "set ?x \<subseteq> {CHR ''x''}" by simp
  show "zlib_ok id (\<lambda>bs n. Some (take n bs))" by (simp add: zlib_ok_def)
  show "get_info (sample_query ?x) k01_open ''</query>'' = Some ?q"
    "strstr (sample_query ?x) compressed_attr = None" "strstr (sample_query ?x) original_attr = None"
    by (rule sample_query_facts [OF x])+
  have "get_info_first ?q ''<'' '' />'' = Some ''a''"
    by (rule get_info_first_append [of _ _ _ "CHR ''>''" "?x @ ''</a>''"]) simp_all
  then show "\<forall>nm. get_info_first ?q ''<'' '' />'' = Some nm \<longrightarrow> CHR ''='' \<notin> set nm" by simp
  have "CHR ''='' \<notin> set (base64encode (bytes_of ?q))" by (rule base64_unpadded) (simp add: bytes_of_def)
  then have "CHR ''='' \<notin> set (drop n (zlibb64encode id (bytes_of ?q)))" for n
    by (auto simp: zlibb64encode_def dest: in_set_dropD)
  moreover have "CHR ''='' \<in> set ''originalSize=''" by simp
  ultimately show "drop (length (zlibb64encode id (bytes_of ?q)) - 13) (zlibb64encode id (bytes_of ?q)) \<noteq> ''originalSize=''"
    by metis
  show "NUL \<notin> set (sample_query ?x)" by (simp add: sample_query_def k01_open_def)
  show "length (sample_query ?x) < 2 ^ 63" by (simp add: sample_query_def k01_open_def)
qed

text \<open>a message whose compressed content zlib rejects is dereferenced as NULL.\<close>

theorem wf_content_bad_zlib_crashes:
  assumes "strstr m compressed_attr = Some (compressed_attr @ cd)" "strstr m original_attr \<noteq> None"
    and "\<forall>bs n. uncompress bs n = None"
  shows "wf_get_query_content uncompress junk (Some m) = None"
  using assms
  by (auto simp: wf_get_query_content_def zlibb64decode_def Let_def bind_eq_None_conv split: option.splits)

theorem wf_content_bad_zlib_crashes_witness:
  "wf_get_query_content (\<lambda>_ _. None) (\<lambda>_. 0)
     (Some (compressed_attr @ ''AA=='' @ [apos] @ '' '' @ original_attr @ ''3'' @ [apos])) = None"
proof (rule wf_content_bad_zlib_crashes)
  show "strstr (compressed_attr @ ''AA=='' @ [apos] @ '' '' @ original_attr @ ''3'' @ [apos]) compressed_attr
      = Some (compressed_attr @ ''AA=='' @ [apos] @ '' '' @ original_attr @ ''3'' @ [apos])"
    by (rule strstr_here)
  show "strstr (compressed_attr @ ''AA=='' @ [apos] @ '' '' @ original_attr @ ''3'' @ [apos]) original_attr \<noteq> None"
    by (simp add: compressed_attr_def original_attr_def)
qed simp

text \<open>encoded data without padding that are not followed by another attribute make the decoder
  read behind the end of the message.\<close>

theorem wf_content_overread:
  "wf_get_query_content uncompress junk
     (Some (''<data '' @ original_attr @ ''3'' @ [apos] @ '' '' @ compressed_attr @ ''YWJj'' @ [apos] @ ''/>'')) = None"
proof -
  have "base64decode (''YWJj'' @ [apos] @ ''/>'') n = None" for n
  proof -
    have "quad_loop 4 ([apos] @ ''/>'') [] = None" by (simp add: eval_nat_numeral)
    then have "b64_dec_loop c ([apos] @ ''/>'') b = None" for c b by (simp del: quad_loop.simps)
    moreover have "quad_loop 4 (''YWJj'' @ [apos] @ ''/>'') []
        = Some ([b64_val CHR ''Y'', b64_val CHR ''W'', b64_val CHR ''J'', b64_val CHR ''j''], [apos] @ ''/>'')"
      by (simp add: quad_loop_unroll)
    ultimately show ?thesis by (simp add: base64decode_def Let_def del: quad_loop.simps)
  qed
  then show ?thesis
    by (simp add: wf_get_query_content_def original_attr_def compressed_attr_def zlibb64decode_def Let_def)
qed
end
