(* ===== verification/Stream.thy ===== *)
theory Stream
  imports Wake WfQuery
begin

text \<open>
  \<open>src/stream/\<close>: key setup and message encryption (\<open>crypt.c\<close>), and the framing of
  outgoing and incoming messages (\<open>send.c\<close>, \<open>recv.c\<close>, \<open>def.h\<close>).

  The socket is the list of segments that the network still delivers: one \<open>RECV\<close> takes a
  prefix of the first one, an empty list or segment is an error or the end of the stream.  Sent
  bytes are appended to a list.  The static \<open>_protect\<close> copies of \<open>online_use_protect\<close>
  are the boolean \<open>protect\<close>, the uninitialised \<open>WAKE_KEY\<close> on the stack is the
  parameter \<open>m\<close>.
\<close>

subsection \<open>Keys\<close>

record crypt_state =
  crypt_key :: "u32 list"
  crypt_iv :: "u32 list"
  crypt_ready :: bool

record crypt_cvars =
  game_version :: cptr
  game_crypt_key :: cptr
  game_crypt_iv :: cptr

definition crypt_initial :: crypt_state where
  "crypt_initial =
     \<lparr>crypt_key = replicate 32 0,
      crypt_iv = [0x31C0E100, 0x01C8008C, 0x329F0AE5, 0x00D80763, 0x2E7D7958, 0x39CF165A, 0x137F7D26, 0],
      crypt_ready = False\<rparr>"

text \<open>
  \<open>n\<close> numbers separated by one character each.  \<open>p = end + 1\<close> is outside the string when
  \<open>end\<close> is at its NUL (\<open>None\<close>), and reading there crashes.
\<close>

fun parse_numbers :: "nat \<Rightarrow> cptr \<Rightarrow> nat list crash" where
  "parse_numbers 0 p = Some []"
| "parse_numbers (Suc n) p =
     do {
       s \<leftarrow> deref p;
       let (v, e) = strtoul s;
       vs \<leftarrow> parse_numbers n (if e = [] then None else Some (tl e));
       Some (v # vs)
     }"

definition version_key :: "nat list \<Rightarrow> u32 list" where
  "version_key ver =
     concat (map (\<lambda>j. map (\<lambda>i. and (xor (of_nat (ver ! i)) (of_nat (ver ! 3) + of_nat j)) 0xFF) [0..<4]) [0..<8])"

definition crypt_init :: "int \<Rightarrow> crypt_cvars \<Rightarrow> crypt_state \<Rightarrow> crypt_state crash" where
  "crypt_init salt cv cs =
     do {
       let iv0 = map (\<lambda>v. xor v (c_uint salt)) (crypt_iv cs);
       key1 \<leftarrow> (case game_version cv of
                   None \<Rightarrow> Some (crypt_key cs)
                 | Some v \<Rightarrow> map_option version_key (parse_numbers 4 (Some v)));
       key2 \<leftarrow> (case game_crypt_key cv of
                   None \<Rightarrow> Some key1
                 | Some k \<Rightarrow> map_option (map of_nat) (parse_numbers 32 (Some k)));
       iv \<leftarrow> (case game_crypt_iv cv of
                   None \<Rightarrow> Some iv0
                 | Some v \<Rightarrow> map_option (map of_nat) (parse_numbers 8 (Some v)));
       Some \<lparr>crypt_key = key2, crypt_iv = iv, crypt_ready = True\<rparr>
     }"

text \<open>
  Both functions take \<open>int len\<close>: a \<open>size_t\<close> or \<open>uint32_t\<close> size of
  \<open>2 ^ 31\<close> bytes or more arrives negative, and the loops of \<open>wake.c\<close> then
  touch nothing.
\<close>

definition crypt_len :: "byte list \<Rightarrow> nat" where
  "crypt_len buff = nat (c_int (int (length buff)))"

definition crypt_encrypt :: "wake_key \<Rightarrow> crypt_state \<Rightarrow> byte list \<Rightarrow> byte list" where
  "crypt_encrypt m cs buff =
     (if crypt_ready cs
      then snd (mcrypt_encrypt (snd (mcrypt_set_key m (crypt_key cs) 32 (Some (crypt_iv cs)) 8))
                  (take (crypt_len buff) buff))
           @ drop (crypt_len buff) buff
      else buff)"

definition crypt_decrypt :: "wake_key \<Rightarrow> crypt_state \<Rightarrow> byte list \<Rightarrow> byte list" where
  "crypt_decrypt m cs buff =
     (if crypt_ready cs
      then snd (mcrypt_decrypt (snd (mcrypt_set_key m (crypt_key cs) 32 (Some (crypt_iv cs)) 8))
                  (take (crypt_len buff) buff))
           @ drop (crypt_len buff) buff
      else buff)"

subsection \<open>Frames\<close>

definition STREAM_MAGIC :: u32 where
  "STREAM_MAGIC = 0xFEEDDEAD"

datatype stream_encrypt = SE_PLAIN | SE_ENCRYPTED | SE_CLIENT_KEY | SE_SERVER_KEY | SE_CLIENT_ACK

fun se_code :: "stream_encrypt \<Rightarrow> u32" where
  "se_code SE_PLAIN = 0"
| "se_code SE_ENCRYPTED = 1"
| "se_code SE_CLIENT_KEY = 2"
| "se_code SE_SERVER_KEY = 3"
| "se_code SE_CLIENT_ACK = 4"

record stream_hdr =
  hdr_magic :: u32
  hdr_len :: u32
  hdr_se :: u32

definition hdr_bytes :: "stream_hdr \<Rightarrow> byte list" where
  "hdr_bytes h = word_bytes (hdr_magic h) @ word_bytes (hdr_len h) @ word_bytes (hdr_se h)"

definition bytes_hdr :: "byte list \<Rightarrow> stream_hdr" where
  "bytes_hdr b = \<lparr>hdr_magic = bytes_word (take 4 b), hdr_len = bytes_word (take 4 (drop 4 b)),
     hdr_se = bytes_word (take 4 (drop 8 b))\<rparr>"

subsection \<open>Sending\<close>

definition stream_send_msg ::
  "(byte list \<Rightarrow> byte list) \<Rightarrow> wake_key \<Rightarrow> bool \<Rightarrow> crypt_state \<Rightarrow> cstring \<Rightarrow> byte list" where
  "stream_send_msg compress m protect cs msg =
     (let buffer = (case wf_compress_query compress (Some msg) of
                      Some compressed \<Rightarrow> bytes_of compressed
                    | None \<Rightarrow> bytes_of msg);
          msg_size = length buffer
      in if protect
         then hdr_bytes \<lparr>hdr_magic = STREAM_MAGIC, hdr_len = of_nat msg_size,
                hdr_se = se_code (if crypt_ready cs then SE_ENCRYPTED else SE_PLAIN)\<rparr>
              @ (if crypt_ready cs then crypt_encrypt m cs buffer else buffer)
         else buffer)"

definition stream_send_ack :: "byte list" where
  "stream_send_ack = hdr_bytes \<lparr>hdr_magic = STREAM_MAGIC, hdr_len = 0, hdr_se = se_code SE_CLIENT_ACK\<rparr>"

subsection \<open>Receiving\<close>

type_synonym net = "byte list list"

definition recv :: "nat \<Rightarrow> net \<Rightarrow> (byte list \<times> net) option" where
  "recv n segs =
     (case segs of
        [] \<Rightarrow> None
      | s # ss \<Rightarrow>
          if take n s = [] then None
          else Some (take n s, if drop n s = [] then ss else drop n s # ss))"

text \<open>
  The loops that read the header and the body: until \<open>n\<close> bytes have arrived or the socket
  fails.  What was taken from the socket before a failure is lost.
\<close>

function read_exact :: "nat \<Rightarrow> net \<Rightarrow> byte list option \<times> net" where
  "read_exact n segs =
     (case recv n segs of
        None \<Rightarrow> (None, segs)
      | Some (bs, segs') \<Rightarrow>
          if length bs < n
          then (case read_exact (n - length bs) segs' of
                  (None, segs'') \<Rightarrow> (None, segs'')
                | (Some rest, segs'') \<Rightarrow> (Some (bs @ rest), segs''))
          else (Some bs, segs'))"
  by pat_completeness auto
termination
  by (relation "measure fst") (auto simp: recv_def split: list.splits if_splits)

declare read_exact.simps [simp del]

text \<open>
  The unprotected mode reads until a message ends in \<open>>\<close> or NUL, with a buffer that doubles.
  The first component of the result is the buffer size at the end.
\<close>

function read_plain :: "nat \<Rightarrow> byte list \<Rightarrow> net \<Rightarrow> ((nat \<times> byte list) option \<times> net) crash" where
  "read_plain buff_size msg segs =
     (case recv (buff_size div 2) segs of
        None \<Rightarrow> Some (None, segs)
      | Some (bs, segs') \<Rightarrow>
          (let msg' = msg @ bs in
           if buff_size < length msg' then None
           else if last msg' \<noteq> of_char CHR ''>'' \<and> last msg' \<noteq> 0
           then read_plain (buff_size * 2) msg' segs'
           else Some (Some (buff_size, msg'), segs')))"
  by pat_completeness auto
termination
proof (relation "measure (\<lambda>(_, _, segs). length (concat segs))", goal_cases)
  case 1
  then show ?case by simp
next
  case (2 buff_size msg segs a bs segs' msg')
  from 2(1,2) show ?case by (auto simp: recv_def split: list.splits if_splits)
qed

declare read_plain.simps [simp del]

text \<open>What a call leaves: the returned string, the socket, the crypt state and the sent bytes.\<close>

record stream_state =
  st_net :: net
  st_crypt :: crypt_state
  st_sent :: "byte list"

definition strtol_int :: "cstring \<Rightarrow> int" where
  "strtol_int s = c_int (strtoll s)"

text \<open>One frame in protected mode; \<open>Inr\<close> is the tail call after a key frame.\<close>

definition read_frame ::
  "wake_key \<Rightarrow> crypt_cvars \<Rightarrow> stream_state \<Rightarrow> ((cptr \<times> stream_state) + stream_state) crash" where
  "read_frame m cv st =
     (case read_exact 12 (st_net st) of
        (None, segs) \<Rightarrow> Some (Inl (None, st\<lparr>st_net := segs\<rparr>))
      | (Some hb, segs) \<Rightarrow>
          (let hdr = bytes_hdr hb; st1 = st\<lparr>st_net := segs\<rparr> in
           if hdr_magic hdr \<noteq> STREAM_MAGIC then Some (Inl (None, st1))
           else if hdr_len hdr = 0 then Some (Inl (None, st1))
           else if hdr_len hdr + 1 = 0 then None
           else (case read_exact (unat (hdr_len hdr)) segs of
                   (None, segs') \<Rightarrow> Some (Inl (None, st1\<lparr>st_net := segs'\<rparr>))
                 | (Some msg, segs') \<Rightarrow>
                     (let st2 = st1\<lparr>st_net := segs'\<rparr> in
                      if hdr_se hdr = se_code SE_PLAIN then Some (Inl (Some (c_str (chars_of msg)), st2))
                      else if hdr_se hdr = se_code SE_ENCRYPTED
                      then Some (Inl (Some (c_str (chars_of (crypt_decrypt m (st_crypt st2) msg))), st2))
                      else if hdr_se hdr = se_code SE_SERVER_KEY
                      then do {
                             cs \<leftarrow> crypt_init (strtol_int (c_str (chars_of msg))) cv (st_crypt st2);
                             Some (Inr (st2\<lparr>st_crypt := cs, st_sent := st_sent st2 @ stream_send_ack\<rparr>))
                           }
                      else Some (Inl (Some (c_str (chars_of msg)), st2))))))"

lemma recv_SomeD:
  "recv n segs = Some (bs, segs') \<Longrightarrow>
     bs @ concat segs' = concat segs \<and> bs \<noteq> [] \<and> length bs \<le> n"
  by (auto simp: recv_def split: list.splits if_splits)

lemma read_exact_SomeD:
  "read_exact n segs = (Some bs, segs') \<Longrightarrow> bs @ concat segs' = concat segs \<and> length bs = n"
proof (induction n segs arbitrary: bs segs' rule: read_exact.induct)
  case (1 n segs)
  from "1.prems" obtain b1 s1 where r: "recv n segs = Some (b1, s1)"
    by (subst (asm) read_exact.simps) (auto split: option.splits)
  note l = recv_SomeD [OF r]
  show ?case
  proof (cases "length b1 < n")
    case True
    with "1.prems" r obtain b2 where b2: "read_exact (n - length b1) s1 = (Some b2, segs')" "bs = b1 @ b2"
      by (subst (asm) read_exact.simps) (auto split: option.splits prod.splits)
    from "1.IH" [OF r refl True b2(1)] l True b2(2) show ?thesis by auto
  next
    case False
    with "1.prems" r l show ?thesis by (subst (asm) read_exact.simps) auto
  qed
qed

lemma read_exact_shorter:
  "read_exact n segs = (Some bs, segs') \<Longrightarrow> length (concat segs') + n = length (concat segs)"
  by (drule read_exact_SomeD) (metis add.commute length_append)

lemma read_frame_shorter:
  "read_frame m cv st = Some (Inr st') \<Longrightarrow> length (concat (st_net st')) < length (concat (st_net st))"
  by (auto simp: read_frame_def Let_def bind_eq_Some_conv dest!: read_exact_shorter
      split: option.splits if_splits prod.splits)

function stream_read_protected ::
  "wake_key \<Rightarrow> crypt_cvars \<Rightarrow> stream_state \<Rightarrow> (cptr \<times> stream_state) crash" where
  "stream_read_protected m cv st =
     (case read_frame m cv st of
        None \<Rightarrow> None
      | Some (Inl r) \<Rightarrow> Some r
      | Some (Inr st') \<Rightarrow> stream_read_protected m cv st')"
  by pat_completeness auto
termination
  by (relation "measure (\<lambda>(_, _, st). length (concat (st_net st)))") (auto dest: read_frame_shorter)

declare stream_read_protected.simps [simp del]

definition stream_read ::
  "wake_key \<Rightarrow> bool \<Rightarrow> crypt_cvars \<Rightarrow> stream_state \<Rightarrow> (cptr \<times> stream_state) crash" where
  "stream_read m protect cv st =
     (if protect then stream_read_protected m cv st
      else (case read_plain 256 [] (st_net st) of
              None \<Rightarrow> None
            | Some (None, segs) \<Rightarrow> Some (None, st\<lparr>st_net := segs\<rparr>)
            | Some (Some (_, msg), segs) \<Rightarrow>
                Some (Some (c_str (chars_of msg)), st\<lparr>st_net := segs\<rparr>)))"

subsection \<open>Encryption of messages\<close>

definition crypt_ok :: "crypt_state \<Rightarrow> bool" where
  "crypt_ok cs \<longleftrightarrow> length (crypt_key cs) = 32 \<and> length (crypt_iv cs) = 8"

lemma crypt_initial_ok: "crypt_ok crypt_initial"
  by (simp add: crypt_ok_def crypt_initial_def)

lemma parse_numbers_length: "parse_numbers n p = Some vs \<Longrightarrow> length vs = n"
proof (induction n arbitrary: p vs)
  case (Suc n)
  then obtain s vs' where "p = Some s" "vs = fst (strtoul s) # vs'"
    "parse_numbers n (if snd (strtoul s) = [] then None else Some (tl (snd (strtoul s)))) = Some vs'"
    by (auto simp: bind_eq_Some_conv split_beta)
  with Suc.IH show ?case by simp
qed simp

lemma version_key_length: "length (version_key ver) = 32"
  by (simp add: version_key_def upt_rec)

lemma crypt_init_ok: "crypt_init salt cv cs = Some cs' \<Longrightarrow> crypt_ok cs \<Longrightarrow> crypt_ok cs' \<and> crypt_ready cs'"
  by (auto simp: crypt_init_def crypt_ok_def bind_eq_Some_conv version_key_length
      dest!: parse_numbers_length split: option.splits)

lemma crypt_len_le: "crypt_len buff \<le> length buff"
proof -
  have "c_int x \<le> x" if "0 \<le> x" for x
  proof (cases "x < 2 ^ 31")
    case True
    with that show ?thesis by (simp add: c_int_id)
  next
    case False
    with c_int_range [of x] show ?thesis by linarith
  qed
  then have "c_int (int (length buff)) \<le> int (length buff)" by simp
  then show ?thesis by (simp add: crypt_len_def)
qed

lemma crypt_len_cong: "length b = length c \<Longrightarrow> crypt_len b = crypt_len c"
  by (simp add: crypt_len_def)

lemma mcrypt_encrypt_length: "key_ok wk \<Longrightarrow> length (snd (mcrypt_encrypt wk bs)) = length bs"
  using encrypt_out [of wk bs] by (auto simp: enc_loop_length)

lemma crypt_encrypt_length:
  assumes "key_memory m" "crypt_ok cs"
  shows "length (crypt_encrypt m cs bs) = length bs"
proof -
  have "length (snd (mcrypt_encrypt (snd (mcrypt_set_key m (crypt_key cs) 32 (Some (crypt_iv cs)) 8)) a)) = length a" for a
    using assms by (intro mcrypt_encrypt_length set_key_ok) (auto simp: crypt_ok_def)
  then show ?thesis using crypt_len_le [of bs] by (simp add: crypt_encrypt_def)
qed

lemma crypt_roundtrip:
  assumes "key_memory m1" "key_memory m2" "crypt_ok cs1" "crypt_ok cs2"
    "crypt_ready cs1 = crypt_ready cs2" "crypt_key cs1 = crypt_key cs2"
  shows "crypt_decrypt m2 cs2 (crypt_encrypt m1 cs1 bs) = bs"
proof (cases "crypt_ready cs2")
  case True
  have k: "length (crypt_key cs2) = 32" "length (crypt_iv cs1) = 8" "length (crypt_iv cs2) = 8"
    using assms(3,4) by (simp_all add: crypt_ok_def)
  let ?enc = "\<lambda>a. snd (mcrypt_encrypt (snd (mcrypt_set_key m1 (crypt_key cs2) 32 (Some (crypt_iv cs1)) 8)) a)"
  let ?dec = "\<lambda>a. snd (mcrypt_decrypt (snd (mcrypt_set_key m2 (crypt_key cs2) 32 (Some (crypt_iv cs2)) 8)) a)"
  have inv: "?dec (?enc a) = a" for a
    using assms(1,2) k by (intro decrypt_encrypt set_key_ok) (auto simp: set_key_table key_memory_def intro: key_table_same)
  have len: "length (?enc a) = length a" for a
    using assms(1) k by (intro mcrypt_encrypt_length set_key_ok) auto
  let ?n = "crypt_len bs"
  have e: "crypt_encrypt m1 cs1 bs = ?enc (take ?n bs) @ drop ?n bs"
    using True assms(5,6) by (simp add: crypt_encrypt_def)
  have n: "crypt_len (?enc (take ?n bs) @ drop ?n bs) = ?n"
    by (rule crypt_len_cong) (simp add: len crypt_len_le)
  have l: "length (?enc (take ?n bs)) = ?n" by (simp add: len crypt_len_le)
  show ?thesis
    unfolding e using True by (simp add: crypt_decrypt_def n l inv)
qed (simp add: assms(5) crypt_decrypt_def crypt_encrypt_def)

subsection \<open>Frames\<close>

lemma word_bytes_length [simp]: "length (word_bytes w) = 4"
  by (simp add: word_bytes_def)

lemma bytes_word_bit:
  "bit (bytes_word [b0, b1, b2, b3]) n \<longleftrightarrow>
     n < 32 \<and> (if n < 8 then bit b0 n else if n < 16 then bit b1 (n - 8) else if n < 24 then bit b2 (n - 16) else bit b3 (n - 24))"
  by (auto simp: bytes_word_def bit_or_iff bit_push_bit_iff bit_ucast_iff dest: bit_imp_le_length)

lemma bytes_word_bytes [simp]: "bytes_word (word_bytes w) = w"
proof (rule bit_word_eqI)
  fix n :: nat
  assume "n < LENGTH(32)"
  then have "n < 32" by simp
  then show "bit (bytes_word (word_bytes w)) n = bit w n"
    by (auto simp: word_bytes_def bytes_word_bit word_byte_bit)
qed

lemma hdr_roundtrip [simp]: "bytes_hdr (hdr_bytes h) = h"
  by (simp add: bytes_hdr_def hdr_bytes_def)

lemma hdr_bytes_length [simp]: "length (hdr_bytes h) = 12"
  by (simp add: hdr_bytes_def)

lemma recv_ready:
  assumes "[] \<notin> set segs" "segs \<noteq> []" "0 < n"
  shows "\<exists>bs segs'. recv n segs = Some (bs, segs') \<and> [] \<notin> set segs'"
  using assms by (cases segs) (auto simp: recv_def take_eq_Nil)

lemma read_exact_ready:
  assumes "[] \<notin> set segs" "0 < n" "concat segs = a @ r" "length a = n"
  shows "\<exists>segs'. read_exact n segs = (Some a, segs') \<and> concat segs' = r \<and> [] \<notin> set segs'"
  using assms
proof (induction n segs arbitrary: a rule: read_exact.induct)
  case (1 n segs)
  then have "segs \<noteq> []" by auto
  with recv_ready [OF "1.prems"(1) _ "1.prems"(2)] obtain b1 s1 where
    r: "recv n segs = Some (b1, s1)" "[] \<notin> set s1" by blast
  note l = recv_SomeD [OF r(1)]
  show ?case
  proof (cases "length b1 < n")
    case True
    obtain a' where a: "a = b1 @ a'"
      using l "1.prems"(3,4) True by (metis append_eq_append_conv_if append_take_drop_id less_imp_le)
    have "concat s1 = a' @ r" using l "1.prems"(3) a by simp
    moreover have "length a' = n - length b1" "0 < n - length b1" using a "1.prems"(4) True by auto
    ultimately obtain segs' where "read_exact (n - length b1) s1 = (Some a', segs')" "concat segs' = r" "[] \<notin> set segs'"
      using "1.IH" [OF r(1) refl True r(2)] by blast
    with r(1) True a show ?thesis by (subst read_exact.simps) auto
  next
    case False
    then have "length b1 = n" using l by simp
    with l "1.prems"(3,4) have "b1 = a" "concat s1 = r" by auto
    with r False show ?thesis by (subst read_exact.simps) auto
  qed
qed

text \<open>A complete frame at the head of the stream, however the network cuts it.\<close>

lemma frame_ready:
  assumes "[] \<notin> set segs" "concat segs = hdr_bytes h @ body @ rest" "hdr_magic h = STREAM_MAGIC"
    "hdr_len h = of_nat (length body)" "body \<noteq> []" "length body < 2 ^ 32 - 1"
  shows "\<exists>s1 s2. read_exact 12 segs = (Some (hdr_bytes h), s1)
     \<and> read_exact (unat (hdr_len h)) s1 = (Some body, s2) \<and> concat s2 = rest \<and> [] \<notin> set s2
     \<and> hdr_len h \<noteq> 0 \<and> hdr_len h + 1 \<noteq> 0"
proof -
  obtain s1 where s1: "read_exact 12 segs = (Some (hdr_bytes h), s1)" "concat s1 = body @ rest" "[] \<notin> set s1"
    using read_exact_ready [OF assms(1) _ assms(2)] by auto
  have "take_bit 32 (length body) = length body" using assms(6) by (intro take_bit_nat_eq_self) simp
  then have u: "unat (hdr_len h) = length body" unfolding assms(4) by (simp add: unsigned_of_nat)
  obtain s2 where s2: "read_exact (length body) s1 = (Some body, s2)" "concat s2 = rest" "[] \<notin> set s2"
    using read_exact_ready [OF s1(3) _ s1(2)] assms(5) by auto
  have z: "hdr_len h \<noteq> 0" using u assms(5) by auto
  have "hdr_len h + 1 \<noteq> 0"
  proof
    assume "hdr_len h + 1 = 0"
    then have "hdr_len h = - 1" by (simp add: eq_neg_iff_add_eq_0)
    then have "unat (hdr_len h) = 2 ^ 32 - 1" by (simp add: unsigned_minus_1_eq_mask mask_eq_exp_minus_1)
    with u assms(6) show False by simp
  qed
  with s1(1) s2 u z show ?thesis by auto
qed

subsection \<open>Properties\<close>

text \<open>The state of a stream whose socket still delivers \<open>segs\<close>.\<close>

abbreviation stream_at :: "net \<Rightarrow> crypt_state \<Rightarrow> byte list \<Rightarrow> stream_state" where
  "stream_at segs cs out \<equiv> \<lparr>st_net = segs, st_crypt = cs, st_sent = out\<rparr>"

lemma c_str_chars_bytes: "NUL \<notin> set s \<Longrightarrow> c_str (chars_of (bytes_of s)) = s"
  by simp

lemma bytes_of_simps [simp]: "bytes_of s = [] \<longleftrightarrow> s = []" "length (bytes_of s) = length s"
  by (simp_all add: bytes_of_def)

text \<open>C33: a protected message arrives as it was sent (in the form \<open>wf_compress_query\<close> gave it),
  encrypted or not, however the network splits it, and nothing behind its frame is consumed.\<close>

theorem stream_roundtrip:
  assumes "[] \<notin> set segs" "concat segs = stream_send_msg compress m1 True cs1 msg @ rest"
    and "wf_compress_query compress (Some msg) = Some r" "r \<noteq> []" "NUL \<notin> set r" "length r < 2 ^ 32 - 1"
    and "key_memory m1" "key_memory m2" "crypt_ok cs1" "crypt_ok cs2"
    and "crypt_ready cs1 = crypt_ready cs2" "crypt_key cs1 = crypt_key cs2"
  shows "\<exists>segs'. stream_read m2 True cv (stream_at segs cs2 out) = Some (Some r, stream_at segs' cs2 out)
           \<and> concat segs' = rest \<and> [] \<notin> set segs'"
proof -
  let ?se = "se_code (if crypt_ready cs1 then SE_ENCRYPTED else SE_PLAIN)"
  let ?h = "\<lparr>hdr_magic = STREAM_MAGIC, hdr_len = of_nat (length r), hdr_se = ?se\<rparr>"
  define body where "body = (if crypt_ready cs1 then crypt_encrypt m1 cs1 (bytes_of r) else bytes_of r)"
  have len: "length body = length r" using assms(7,9) by (simp add: body_def crypt_encrypt_length)
  have c: "concat segs = hdr_bytes ?h @ body @ rest"
    using assms(2,3) by (simp add: stream_send_msg_def body_def)
  have nz: "body \<noteq> []" using len assms(4) by auto
  obtain s1 s2 where f: "read_exact 12 segs = (Some (hdr_bytes ?h), s1)"
    "read_exact (unat (hdr_len ?h)) s1 = (Some body, s2)" "concat s2 = rest" "[] \<notin> set s2"
    "hdr_len ?h \<noteq> 0" "hdr_len ?h + 1 \<noteq> 0"
    using frame_ready [OF assms(1) c _ _ nz] len assms(6) by auto
  have dec: "crypt_decrypt m2 cs2 body = bytes_of r" if "crypt_ready cs1"
    using crypt_roundtrip [OF assms(7-12)] that by (simp add: body_def)
  have "read_frame m2 cv (stream_at segs cs2 out) = Some (Inl (Some r, stream_at s2 cs2 out))"
    using f dec assms(5) by (auto simp: read_frame_def Let_def body_def)
  then have "stream_read m2 True cv (stream_at segs cs2 out) = Some (Some r, stream_at s2 cs2 out)"
    by (simp add: stream_read_def stream_read_protected.simps)
  with f(3,4) show ?thesis by blast
qed

definition sample_crypt :: "u32 \<Rightarrow> crypt_state" where
  "sample_crypt v = \<lparr>crypt_key = replicate 32 5, crypt_iv = replicate 8 v, crypt_ready = True\<rparr>"

theorem stream_roundtrip_witness:
  "\<exists>segs'. stream_read (blank_memory 2) True \<lparr>game_version = None, game_crypt_key = None, game_crypt_iv = None\<rparr>
       (stream_at [stream_send_msg id (blank_memory 1) True (sample_crypt 3) ''<iq/>'', [7]] (sample_crypt 4) [])
     = Some (Some ''<iq/>'', stream_at segs' (sample_crypt 4) [])
   \<and> concat segs' = [7] \<and> [] \<notin> set segs'"
  by (rule stream_roundtrip [where compress = id and msg = "''<iq/>''" and ?m1.0 = "blank_memory 1"
        and ?cs1.0 = "sample_crypt 3"])
     (simp_all add: stream_send_msg_def wf_compress_query_def MAX_PLAIN_QUERY_SIZE_def crypt_ok_def
        sample_crypt_def hdr_bytes_def word_bytes_def)

text \<open>a server key frame switches encryption on with the key derived from it and is acknowledged
  before the next message, which is then read with the new key.\<close>

theorem stream_key_exchange:
  assumes "[] \<notin> set segs"
    and "concat segs = hdr_bytes \<lparr>hdr_magic = STREAM_MAGIC, hdr_len = of_nat (length ks), hdr_se = se_code SE_SERVER_KEY\<rparr>
           @ bytes_of ks @ stream_send_msg compress m1 True cs2 msg @ rest"
    and "ks \<noteq> []" "NUL \<notin> set ks" "length ks < 2 ^ 32 - 1"
    and "crypt_init (strtol_int ks) cv cs = Some cs2"
    and "wf_compress_query compress (Some msg) = Some r" "r \<noteq> []" "NUL \<notin> set r" "length r < 2 ^ 32 - 1"
    and "key_memory m1" "key_memory m2" "crypt_ok cs"
  shows "\<exists>segs'. stream_read m2 True cv (stream_at segs cs out)
           = Some (Some r, stream_at segs' cs2 (out @ stream_send_ack)) \<and> concat segs' = rest \<and> [] \<notin> set segs'"
proof -
  let ?h = "\<lparr>hdr_magic = STREAM_MAGIC, hdr_len = of_nat (length ks), hdr_se = se_code SE_SERVER_KEY\<rparr>"
  have ok: "crypt_ok cs2" using crypt_init_ok [OF assms(6)] assms(13) by simp
  have nz: "bytes_of ks \<noteq> []" using assms(3) by simp
  obtain s1 s2 where f: "read_exact 12 segs = (Some (hdr_bytes ?h), s1)"
    "read_exact (unat (hdr_len ?h)) s1 = (Some (bytes_of ks), s2)"
    "concat s2 = stream_send_msg compress m1 True cs2 msg @ rest" "[] \<notin> set s2"
    "hdr_len ?h \<noteq> 0" "hdr_len ?h + 1 \<noteq> 0"
    using frame_ready [OF assms(1,2) _ _ nz] assms(5) by auto
  have "read_frame m2 cv (stream_at segs cs out) = Some (Inr (stream_at s2 cs2 (out @ stream_send_ack)))"
    using f assms(4,6) by (auto simp: read_frame_def Let_def)
  then have "stream_read m2 True cv (stream_at segs cs out)
      = stream_read m2 True cv (stream_at s2 cs2 (out @ stream_send_ack))"
    by (subst (1) stream_read_def, subst stream_read_protected.simps) (simp add: stream_read_def)
  with stream_roundtrip [OF f(4,3) assms(7-10) assms(11,12) ok ok refl refl] show ?thesis by simp
qed

theorem stream_key_exchange_witness:
  "\<exists>segs'. stream_read (blank_memory 2) True \<lparr>game_version = None, game_crypt_key = None, game_crypt_iv = None\<rparr>
       (stream_at [hdr_bytes \<lparr>hdr_magic = STREAM_MAGIC, hdr_len = of_nat (length ''7''), hdr_se = se_code SE_SERVER_KEY\<rparr>,
          bytes_of ''7'', stream_send_msg id (blank_memory 1) True
            \<lparr>crypt_key = replicate 32 5, crypt_iv = replicate 8 4, crypt_ready = True\<rparr> ''<iq/>'']
        \<lparr>crypt_key = replicate 32 5, crypt_iv = replicate 8 3, crypt_ready = False\<rparr> [])
     = Some (Some ''<iq/>'', stream_at segs' \<lparr>crypt_key = replicate 32 5, crypt_iv = replicate 8 4, crypt_ready = True\<rparr>
         ([] @ stream_send_ack))
   \<and> concat segs' = [] \<and> [] \<notin> set segs'"
proof (rule stream_key_exchange [where compress = id and msg = "''<iq/>''" and ?m1.0 = "blank_memory 1" and ks = "''7''"])
  show "crypt_init (strtol_int ''7'') \<lparr>game_version = None, game_crypt_key = None, game_crypt_iv = None\<rparr>
       \<lparr>crypt_key = replicate 32 5, crypt_iv = replicate 8 3, crypt_ready = False\<rparr>
     = Some \<lparr>crypt_key = replicate 32 5, crypt_iv = replicate 8 4, crypt_ready = True\<rparr>"
    by code_simp
qed (simp_all add: stream_send_msg_def wf_compress_query_def MAX_PLAIN_QUERY_SIZE_def crypt_ok_def
        hdr_bytes_def word_bytes_def bytes_of_def)

text \<open>C40: a header that announces \<open>0xFFFFFFFF\<close> bytes makes the allocation size wrap around to 0,
  and the body is written outside the buffer.\<close>

theorem stream_length_wraps:
  assumes "[] \<notin> set segs" "concat segs = hdr_bytes \<lparr>hdr_magic = STREAM_MAGIC, hdr_len = 0xFFFFFFFF, hdr_se = t\<rparr> @ rest"
  shows "stream_read m True cv (stream_at segs cs out) = None"
proof -
  obtain s1 where "read_exact 12 segs = (Some (hdr_bytes \<lparr>hdr_magic = STREAM_MAGIC, hdr_len = 0xFFFFFFFF, hdr_se = t\<rparr>), s1)"
    using read_exact_ready [OF assms(1) _ assms(2)] by auto
  then have "read_frame m cv (stream_at segs cs out) = None" by (simp add: read_frame_def Let_def)
  then show ?thesis by (simp add: stream_read_def stream_read_protected.simps)
qed

theorem stream_length_wraps_witness:
  "stream_read (blank_memory 0) True \<lparr>game_version = None, game_crypt_key = None, game_crypt_iv = None\<rparr>
     (stream_at [hdr_bytes \<lparr>hdr_magic = STREAM_MAGIC, hdr_len = 0xFFFFFFFF, hdr_se = 0\<rparr>] crypt_initial []) = None"
  by (rule stream_length_wraps [where t = 0 and rest = "[]"]) (simp_all add: hdr_bytes_def word_bytes_def)

lemma read_plain_inside:
  "2 * length msg + 2 \<le> b \<Longrightarrow> read_plain b msg segs \<noteq> None
     \<and> (\<forall>b' msg' segs'. read_plain b msg segs = Some (Some (b', msg'), segs') \<longrightarrow> length msg' < b')"
proof (induction b msg segs rule: read_plain.induct)
  case (1 b msg segs)
  show ?case
  proof (cases "recv (b div 2) segs")
    case None
    then show ?thesis by (subst (1 2) read_plain.simps) simp
  next
    case (Some x)
    then obtain bs segs' where r: "recv (b div 2) segs = Some (bs, segs')" by (cases x) auto
    from recv_SomeD [OF r] "1.prems" have l: "length (msg @ bs) < b" "2 * length (msg @ bs) + 2 \<le> b * 2" by auto
    show ?thesis
    proof (cases "last (msg @ bs) \<noteq> of_char CHR ''>'' \<and> last (msg @ bs) \<noteq> 0")
      case True
      have "read_plain b msg segs = read_plain (b * 2) (msg @ bs) segs'"
        using r l(1) True by (subst read_plain.simps) (simp add: Let_def)
      with "1.IH" [OF r refl refl _ True l(2)] l(1) show ?thesis by simp
    next
      case False
      then have "read_plain b msg segs = Some (Some (b, msg @ bs), segs')"
        using r l(1) by (subst read_plain.simps) (auto simp: Let_def)
      with l(1) show ?thesis by simp
    qed
  qed
qed

text \<open>in unprotected mode no read leaves the doubling buffer, and the returned message is followed
  by at least one byte of it, which is zero.\<close>

theorem stream_plain_buffer_safe:
  "case read_plain 256 [] segs of
     None \<Rightarrow> False | Some (None, _) \<Rightarrow> True | Some (Some (b, msg), _) \<Rightarrow> length msg < b"
  using read_plain_inside [of "[]" 256 segs] by (auto split: option.splits)

end
