(* ===== verification/ThreadQueue.thy ===== *)
theory ThreadQueue
  imports Prelude
begin

text \<open>
  The two message queues between threads: \<open>src/threads/thread_sendstream.c\<close> and
  \<open>src/threads/thread_readstream.c\<close>.  Each is a ring of 16 pointers with a counting semaphore for
  the free and one for the used slots, a write and a read position (the \<open>static int pos\<close> of the
  two functions), and a mutex around the side that several threads use: the writers of the send
  queue, the readers of the read queue.

  A step of the relation \<open>qstep\<close> is one call of a semaphore or mutex operation, one access to the
  ring or one update of a position, by any of the posting threads (a list of program counters) or by
  the thread that takes messages out.  The posting thread of the read queue is alone and takes no
  lock, and so does the taking thread of the send queue; the model lets every poster lock, which for
  a single poster is no restriction.  \<open>written\<close> and \<open>taken\<close> are history variables.
\<close>

definition MSG_MAX :: nat where
  "MSG_MAX = 16"

text \<open>Where a thread is inside \<open>post_new_msg\<close> and inside \<open>get_next_msg\<close>.\<close>

datatype 'm post_pc =
    PIdle
  | PEntered 'm
  | PToken 'm
  | PLocked 'm
  | PWritten
  | PMoved
  | PUnlocked

datatype 'm get_pc =
    GIdle
  | GEntered
  | GToken
  | GLocked
  | GRead "'m option"
  | GMoved "'m option"
  | GUnlocked "'m option"

record 'm queue =
  slots :: "'m option list"
  sem_empty :: nat
  sem_full :: nat
  post_pos :: nat
  get_pos :: nat
  post_lock :: "nat option"
  posters :: "'m post_pc list"
  getter :: "'m get_pc"
  written :: "'m list"
  taken :: "'m option list"

definition queue_init :: "nat \<Rightarrow> 'm queue" where
  "queue_init n =
     \<lparr>slots = replicate MSG_MAX None, sem_empty = MSG_MAX, sem_full = 0, post_pos = 0, get_pos = 0,
      post_lock = None, posters = replicate n PIdle, getter = GIdle, written = [], taken = []\<rparr>"

definition next_pos :: "nat \<Rightarrow> nat" where
  "next_pos pos = (if MSG_MAX \<le> pos + 1 then 0 else pos + 1)"

text \<open>\<open>moves q i pc pc'\<close>: poster \<open>i\<close> is at \<open>pc\<close>; \<open>at q i pc'\<close>: and is moved to
  \<open>pc'\<close>.\<close>

definition is_at :: "'m queue \<Rightarrow> nat \<Rightarrow> 'm post_pc \<Rightarrow> bool" where
  "is_at q i pc \<longleftrightarrow> i < length (posters q) \<and> posters q ! i = pc"

definition goes :: "nat \<Rightarrow> 'm post_pc \<Rightarrow> 'm queue \<Rightarrow> 'm queue" where
  "goes i pc q = q\<lparr>posters := (posters q)[i := pc]\<rparr>"

inductive qstep :: "'m queue \<Rightarrow> 'm queue \<Rightarrow> bool" where
  post_call: "is_at q i PIdle \<Longrightarrow> qstep q (goes i (PEntered m) q)"
| post_wait: "is_at q i (PEntered m) \<Longrightarrow> 0 < sem_empty q \<Longrightarrow>
    qstep q (goes i (PToken m) (q\<lparr>sem_empty := sem_empty q - 1\<rparr>))"
| post_acquire: "is_at q i (PToken m) \<Longrightarrow> post_lock q = None \<Longrightarrow>
    qstep q (goes i (PLocked m) (q\<lparr>post_lock := Some i\<rparr>))"
| post_write: "is_at q i (PLocked m) \<Longrightarrow>
    qstep q (goes i PWritten (q\<lparr>slots := (slots q)[post_pos q := Some m], written := written q @ [m]\<rparr>))"
| post_move: "is_at q i PWritten \<Longrightarrow>
    qstep q (goes i PMoved (q\<lparr>post_pos := next_pos (post_pos q)\<rparr>))"
| post_release: "is_at q i PMoved \<Longrightarrow> qstep q (goes i PUnlocked (q\<lparr>post_lock := None\<rparr>))"
| post_signal: "is_at q i PUnlocked \<Longrightarrow> qstep q (goes i PIdle (q\<lparr>sem_full := sem_full q + 1\<rparr>))"
| get_call: "getter q = GIdle \<Longrightarrow> qstep q (q\<lparr>getter := GEntered\<rparr>)"
| get_wait: "getter q = GEntered \<Longrightarrow> 0 < sem_full q \<Longrightarrow>
    qstep q (q\<lparr>getter := GToken, sem_full := sem_full q - 1\<rparr>)"
| get_acquire: "getter q = GToken \<Longrightarrow> qstep q (q\<lparr>getter := GLocked\<rparr>)"
| get_read: "getter q = GLocked \<Longrightarrow>
    qstep q (q\<lparr>getter := GRead (slots q ! get_pos q), slots := (slots q)[get_pos q := None],
               taken := taken q @ [slots q ! get_pos q]\<rparr>)"
| get_move: "getter q = GRead m \<Longrightarrow> qstep q (q\<lparr>getter := GMoved m, get_pos := next_pos (get_pos q)\<rparr>)"
| get_release: "getter q = GMoved m \<Longrightarrow> qstep q (q\<lparr>getter := GUnlocked m\<rparr>)"
| get_signal: "getter q = GUnlocked m \<Longrightarrow> qstep q (q\<lparr>getter := GIdle, sem_empty := sem_empty q + 1\<rparr>)"

inductive reachable :: "nat \<Rightarrow> 'm queue \<Rightarrow> bool" for n where
  start: "reachable n (queue_init n)"
| step: "reachable n q \<Longrightarrow> qstep q q' \<Longrightarrow> reachable n q'"

subsection \<open>Invariant\<close>

text \<open>Holding a free-slot token; having written but not yet signalled.\<close>

fun has_token :: "'m post_pc \<Rightarrow> bool" where
  "has_token (PToken m) = True"
| "has_token (PLocked m) = True"
| "has_token _ = False"

fun has_written :: "'m post_pc \<Rightarrow> bool" where
  "has_written PWritten = True"
| "has_written PMoved = True"
| "has_written PUnlocked = True"
| "has_written _ = False"

fun in_section :: "'m post_pc \<Rightarrow> bool" where
  "in_section (PLocked m) = True"
| "in_section PWritten = True"
| "in_section PMoved = True"
| "in_section _ = False"

definition count :: "('a \<Rightarrow> bool) \<Rightarrow> 'a list \<Rightarrow> nat" where
  "count P xs = length (filter P xs)"

definition getter_before :: "'m get_pc \<Rightarrow> nat" where
  "getter_before g = (case g of GToken \<Rightarrow> 1 | GLocked \<Rightarrow> 1 | _ \<Rightarrow> 0)"

definition getter_after :: "'m get_pc \<Rightarrow> nat" where
  "getter_after g = (case g of GRead m \<Rightarrow> 1 | GMoved m \<Rightarrow> 1 | GUnlocked m \<Rightarrow> 1 | _ \<Rightarrow> 0)"

text \<open>
  The ring holds exactly the messages written and not yet taken, each at its number modulo 16; the
  positions follow the two counts (one behind between the access and the update); the tokens add up.
\<close>

definition ring_ok :: "'m queue \<Rightarrow> bool" where
  "ring_ok q \<longleftrightarrow>
     length (slots q) = MSG_MAX \<and>
     taken q = map Some (take (length (taken q)) (written q)) \<and>
     length (taken q) \<le> length (written q) \<and>
     length (written q) - length (taken q) \<le> MSG_MAX \<and>
     (\<forall>k. length (taken q) \<le> k \<and> k < length (written q) \<longrightarrow> slots q ! (k mod MSG_MAX) = Some (written q ! k)) \<and>
     (\<forall>k. length (written q) \<le> k \<and> k < length (taken q) + MSG_MAX \<longrightarrow> slots q ! (k mod MSG_MAX) = None)"

definition section_ok :: "'m queue \<Rightarrow> bool" where
  "section_ok q \<longleftrightarrow>
     (\<forall>i. i < length (posters q) \<longrightarrow> (in_section (posters q ! i) \<longleftrightarrow> post_lock q = Some i)) \<and>
     (\<forall>i. post_lock q = Some i \<longrightarrow> i < length (posters q))"

definition pos_ok :: "'m queue \<Rightarrow> bool" where
  "pos_ok q \<longleftrightarrow>
     (if PWritten \<in> set (posters q)
      then written q \<noteq> [] \<and> post_pos q = (length (written q) - 1) mod MSG_MAX
      else post_pos q = length (written q) mod MSG_MAX) \<and>
     (case getter q of
        GRead m \<Rightarrow> taken q \<noteq> [] \<and> get_pos q = (length (taken q) - 1) mod MSG_MAX
      | _ \<Rightarrow> get_pos q = length (taken q) mod MSG_MAX)"

definition tokens_ok :: "'m queue \<Rightarrow> bool" where
  "tokens_ok q \<longleftrightarrow>
     length (written q) = length (taken q) + sem_full q + count has_written (posters q) + getter_before (getter q) \<and>
     sem_empty q + count has_token (posters q) + (length (written q) - length (taken q)) + getter_after (getter q) = MSG_MAX"

definition getter_msg_ok :: "'m queue \<Rightarrow> bool" where
  "getter_msg_ok q \<longleftrightarrow>
     (case getter q of
        GRead m \<Rightarrow> taken q \<noteq> [] \<and> m = last (taken q) | GMoved m \<Rightarrow> taken q \<noteq> [] \<and> m = last (taken q)
      | GUnlocked m \<Rightarrow> taken q \<noteq> [] \<and> m = last (taken q) | _ \<Rightarrow> True)"

definition queue_inv :: "'m queue \<Rightarrow> bool" where
  "queue_inv q \<longleftrightarrow> ring_ok q \<and> section_ok q \<and> pos_ok q \<and> tokens_ok q \<and> getter_msg_ok q"

lemma count_update:
  "i < length xs \<Longrightarrow> count P (xs[i := y]) + of_bool (P (xs ! i)) = count P xs + of_bool (P y)"
proof (induction xs arbitrary: i)
  case Nil
  then show ?case by simp
next
  case (Cons x xs)
  then show ?case by (cases i) (auto simp: count_def)
qed

lemma next_pos_mod: "next_pos (n mod MSG_MAX) = Suc n mod MSG_MAX"
  by (auto simp: next_pos_def MSG_MAX_def mod_Suc)

lemma queue_init_inv: "queue_inv (queue_init n)"
  by (auto simp: queue_inv_def queue_init_def ring_ok_def section_ok_def pos_ok_def tokens_ok_def
      getter_msg_ok_def is_at_def MSG_MAX_def count_def getter_before_def getter_after_def)

subsection \<open>Preservation\<close>

lemma goes_sel [simp]:
  "slots (goes i pc q) = slots q" "sem_empty (goes i pc q) = sem_empty q" "sem_full (goes i pc q) = sem_full q"
  "post_pos (goes i pc q) = post_pos q" "get_pos (goes i pc q) = get_pos q" "post_lock (goes i pc q) = post_lock q"
  "getter (goes i pc q) = getter q" "written (goes i pc q) = written q" "taken (goes i pc q) = taken q"
  "posters (goes i pc q) = (posters q)[i := pc]"
  by (simp_all add: goes_def)

lemma writer_same:
  "i < length ps \<Longrightarrow> ps ! i \<noteq> PWritten \<Longrightarrow> y \<noteq> PWritten \<Longrightarrow> PWritten \<in> set (ps[i := y]) \<longleftrightarrow> PWritten \<in> set ps"
  by (auto simp: in_set_conv_nth nth_list_update)

lemma section_alone:
  assumes "section_ok q" "is_at q i pc" "in_section pc" "j < length (posters q)" "j \<noteq> i"
  shows "\<not> in_section (posters q ! j)"
  using assms by (auto simp: section_ok_def is_at_def)

lemma locked_no_writer:
  assumes "section_ok q" "is_at q i pc" "in_section pc" "pc \<noteq> PWritten"
  shows "PWritten \<notin> set (posters q)"
proof
  assume "PWritten \<in> set (posters q)"
  then obtain j where j: "j < length (posters q)" "posters q ! j = PWritten" by (auto simp: in_set_conv_nth)
  with assms(2,4) have "j \<noteq> i" by (auto simp: is_at_def)
  from section_alone [OF assms(1-3) j(1) this] j(2) show False by simp
qed

lemma writer_leaves:
  assumes "section_ok q" "is_at q i PWritten" "y \<noteq> PWritten"
  shows "PWritten \<notin> set ((posters q)[i := y])"
proof
  assume "PWritten \<in> set ((posters q)[i := y])"
  then obtain j where j: "j < length (posters q)" "(posters q)[i := y] ! j = PWritten" by (auto simp: in_set_conv_nth)
  with assms(2,3) have "j \<noteq> i" by (auto simp: is_at_def)
  with j have "posters q ! j = PWritten" by simp
  with section_alone [OF assms(1,2) _ j(1) \<open>j \<noteq> i\<close>] show False by simp
qed

lemma section_step: "qstep q q' \<Longrightarrow> section_ok q \<Longrightarrow> section_ok q'"
  by (induction rule: qstep.induct)
     (auto simp: section_ok_def is_at_def nth_list_update split: if_splits)

lemma tokens_step: "qstep q q' \<Longrightarrow> ring_ok q \<Longrightarrow> tokens_ok q \<Longrightarrow> tokens_ok q'"
proof (induction rule: qstep.induct)
  case (post_call q i m)
  then show ?case using count_update [of i "posters q" has_token "PEntered m"] count_update [of i "posters q" has_written "PEntered m"]
    by (auto simp: tokens_ok_def is_at_def)
next
  case (post_wait q i m)
  then show ?case using count_update [of i "posters q" has_token "PToken m"] count_update [of i "posters q" has_written "PToken m"]
    by (auto simp: tokens_ok_def is_at_def)
next
  case (post_acquire q i m)
  then show ?case using count_update [of i "posters q" has_token "PLocked m"] count_update [of i "posters q" has_written "PLocked m"]
    by (auto simp: tokens_ok_def is_at_def)
next
  case (post_write q i m)
  then show ?case using count_update [of i "posters q" has_token PWritten] count_update [of i "posters q" has_written PWritten]
    by (auto simp: tokens_ok_def is_at_def ring_ok_def)
next
  case (post_move q i)
  then show ?case using count_update [of i "posters q" has_token PMoved] count_update [of i "posters q" has_written PMoved]
    by (auto simp: tokens_ok_def is_at_def)
next
  case (post_release q i)
  then show ?case using count_update [of i "posters q" has_token PUnlocked] count_update [of i "posters q" has_written PUnlocked]
    by (auto simp: tokens_ok_def is_at_def)
next
  case (post_signal q i)
  then show ?case using count_update [of i "posters q" has_token PIdle] count_update [of i "posters q" has_written PIdle]
    by (auto simp: tokens_ok_def is_at_def)
qed (auto simp: tokens_ok_def getter_before_def getter_after_def)

lemma token_room: "tokens_ok q \<Longrightarrow> is_at q i (PLocked m) \<Longrightarrow> length (written q) - length (taken q) < MSG_MAX"
proof -
  assume t: "tokens_ok q" and a: "is_at q i (PLocked m)"
  then have "PLocked m \<in> set (posters q)" unfolding is_at_def by (metis nth_mem)
  then have "PLocked m \<in> set (filter has_token (posters q))" by simp
  then have "0 < count has_token (posters q)" unfolding count_def by (metis length_pos_if_in_set)
  with t show ?thesis by (auto simp: tokens_ok_def)
qed

lemma token_message: "tokens_ok q \<Longrightarrow> getter q = GLocked \<Longrightarrow> length (taken q) < length (written q)"
  by (auto simp: tokens_ok_def getter_before_def)

lemma pos_step: "qstep q q' \<Longrightarrow> section_ok q \<Longrightarrow> pos_ok q \<Longrightarrow> pos_ok q'"
proof (induction rule: qstep.induct)
  case (post_write q i m)
  have "PWritten \<notin> set (posters q)" using locked_no_writer [OF post_write.prems(1) post_write.hyps] by simp
  moreover have "PWritten \<in> set ((posters q)[i := PWritten])" using post_write.hyps by (auto simp: is_at_def set_update_memI)
  ultimately show ?case using post_write.prems(2) by (auto simp: pos_ok_def split: get_pc.splits)
next
  case (post_move q i)
  have w: "PWritten \<in> set (posters q)" using post_move.hyps unfolding is_at_def by (metis nth_mem)
  moreover have "PWritten \<notin> set ((posters q)[i := PMoved])" using writer_leaves [OF post_move.prems(1) post_move.hyps] by simp
  moreover have "next_pos (post_pos q) = length (written q) mod MSG_MAX"
    using post_move.prems(2) w next_pos_mod [of "length (written q) - 1"] by (auto simp: pos_ok_def)
  ultimately show ?case using post_move.prems(2) by (auto simp: pos_ok_def split: get_pc.splits)
next
  case (get_read q)
  then show ?case by (auto simp: pos_ok_def)
next
  case (get_move q m)
  then have "next_pos (get_pos q) = length (taken q) mod MSG_MAX"
    using next_pos_mod [of "length (taken q) - 1"] by (auto simp: pos_ok_def)
  with get_move show ?case by (auto simp: pos_ok_def)
qed (auto simp: pos_ok_def is_at_def writer_same split: get_pc.splits)

text \<open>Two numbers in a window of 16 are equal when they agree modulo 16.\<close>

lemma mod_window:
  assumes "a \<le> j" "j < a + MSG_MAX" "a \<le> k" "k < a + MSG_MAX" "j mod MSG_MAX = k mod MSG_MAX"
  shows "j = k"
proof (rule ccontr)
  assume "j \<noteq> k"
  then have "MSG_MAX \<le> j - k \<or> MSG_MAX \<le> k - j"
    using assms(5) by (metis dvd_imp_le linorder_neqE_nat mod_eq_dvd_iff_nat nat_less_le zero_less_diff)
  with assms(1-4) show False by linarith
qed

lemma ring_write:
  assumes "ring_ok q" "post_pos q = length (written q) mod MSG_MAX" "length (written q) - length (taken q) < MSG_MAX"
  shows "ring_ok (q\<lparr>slots := (slots q)[post_pos q := Some m], written := written q @ [m]\<rparr>)"
proof -
  let ?R = "length (taken q)" and ?W = "length (written q)"
  from assms(1) have r: "length (slots q) = MSG_MAX" "taken q = map Some (take ?R (written q))" "?R \<le> ?W"
    "\<And>k. ?R \<le> k \<Longrightarrow> k < ?W \<Longrightarrow> slots q ! (k mod MSG_MAX) = Some (written q ! k)"
    "\<And>k. ?W \<le> k \<Longrightarrow> k < ?R + MSG_MAX \<Longrightarrow> slots q ! (k mod MSG_MAX) = None"
    by (auto simp: ring_ok_def)
  have pos: "0 < MSG_MAX" by (simp add: MSG_MAX_def)
  have W: "?W < ?R + MSG_MAX" using assms(3) r(3) by linarith
  have ne: "k mod MSG_MAX \<noteq> ?W mod MSG_MAX" if "?R \<le> k" "k < ?R + MSG_MAX" "k \<noteq> ?W" for k
    using mod_window [OF that(1,2) r(3) W] that(3) by auto
  have full: "(slots q)[?W mod MSG_MAX := Some m] ! (k mod MSG_MAX) = Some ((written q @ [m]) ! k)"
    if "?R \<le> k" "k < Suc ?W" for k
  proof (cases "k = ?W")
    case True
    with r(1) pos show ?thesis by simp
  next
    case False
    with that W have "k < ?W" "k mod MSG_MAX \<noteq> ?W mod MSG_MAX" using ne [of k] by auto
    with r(4) [OF that(1)] show ?thesis by (simp add: nth_append)
  qed
  have free: "(slots q)[?W mod MSG_MAX := Some m] ! (k mod MSG_MAX) = None" if "Suc ?W \<le> k" "k < ?R + MSG_MAX" for k
    using r(3,5) that ne [of k] by simp
  show ?thesis
    using r(1,3) r(2) [symmetric] full free assms(2,3) by (simp add: ring_ok_def)
qed

lemma ring_read:
  assumes "ring_ok q" "get_pos q = length (taken q) mod MSG_MAX" "length (taken q) < length (written q)"
  shows "ring_ok (q\<lparr>slots := (slots q)[get_pos q := None], taken := taken q @ [slots q ! get_pos q]\<rparr>)
       \<and> slots q ! get_pos q = Some (written q ! length (taken q))"
proof -
  let ?R = "length (taken q)" and ?W = "length (written q)"
  from assms(1) have r: "length (slots q) = MSG_MAX" "taken q = map Some (take ?R (written q))" "?W - ?R \<le> MSG_MAX"
    "\<And>k. ?R \<le> k \<Longrightarrow> k < ?W \<Longrightarrow> slots q ! (k mod MSG_MAX) = Some (written q ! k)"
    "\<And>k. ?W \<le> k \<Longrightarrow> k < ?R + MSG_MAX \<Longrightarrow> slots q ! (k mod MSG_MAX) = None"
    by (auto simp: ring_ok_def)
  have pos: "0 < MSG_MAX" by (simp add: MSG_MAX_def)
  have s: "slots q ! (?R mod MSG_MAX) = Some (written q ! ?R)" using r(4) assms(3) by simp
  have ne: "k mod MSG_MAX \<noteq> ?R mod MSG_MAX" if "?R < k" "k < ?R + MSG_MAX" for k
    using mod_window [of ?R k ?R] that pos by auto
  have t: "taken q @ [Some (written q ! ?R)] = map Some (take (Suc ?R) (written q))"
    using r(2) assms(3) by (simp add: take_Suc_conv_app_nth)
  have full: "(slots q)[?R mod MSG_MAX := None] ! (k mod MSG_MAX) = Some (written q ! k)"
    if "Suc ?R \<le> k" "k < ?W" for k
  proof -
    have "k < ?R + MSG_MAX" using r(3) that by linarith
    with r(4) that ne [of k] show ?thesis by simp
  qed
  have free: "(slots q)[?R mod MSG_MAX := None] ! (k mod MSG_MAX) = None" if "?W \<le> k" "k < Suc ?R + MSG_MAX" for k
  proof (cases "k < ?R + MSG_MAX")
    case True
    with r(1,5) that(1) pos show ?thesis by (simp add: nth_list_update)
  next
    case False
    with that have "k = ?R + MSG_MAX" by simp
    with r(1) pos show ?thesis by simp
  qed
  have "ring_ok (q\<lparr>slots := (slots q)[?R mod MSG_MAX := None], taken := taken q @ [Some (written q ! ?R)]\<rparr>)"
    using r(1,3) assms(3) t full free by (simp add: ring_ok_def le_diff_conv)
  with s assms(2) show ?thesis by simp
qed

lemma ring_step:
  "qstep q q' \<Longrightarrow> queue_inv q \<Longrightarrow> ring_ok q'"
proof (induction rule: qstep.induct)
  case (post_write q i m)
  then have "PWritten \<notin> set (posters q)" using locked_no_writer [of q i "PLocked m"] by (auto simp: queue_inv_def)
  then have "post_pos q = length (written q) mod MSG_MAX" using post_write by (auto simp: queue_inv_def pos_ok_def)
  moreover have "length (written q) - length (taken q) < MSG_MAX"
    using post_write token_room by (auto simp: queue_inv_def)
  ultimately show ?case using post_write ring_write [of q m] by (auto simp: queue_inv_def ring_ok_def)
next
  case (get_read q)
  then have "get_pos q = length (taken q) mod MSG_MAX" "length (taken q) < length (written q)"
    using token_message [of q] by (auto simp: queue_inv_def pos_ok_def)
  with get_read ring_read [of q] show ?case by (auto simp: queue_inv_def ring_ok_def)
qed (auto simp: queue_inv_def ring_ok_def)

lemma msg_step: "qstep q q' \<Longrightarrow> getter_msg_ok q \<Longrightarrow> getter_msg_ok q'"
  by (induction rule: qstep.induct) (auto simp: getter_msg_ok_def split: get_pc.splits)

lemma queue_inv_step: "queue_inv q \<Longrightarrow> qstep q q' \<Longrightarrow> queue_inv q'"
  using ring_step section_step pos_step tokens_step msg_step unfolding queue_inv_def by blast

lemma reachable_inv: "reachable n q \<Longrightarrow> queue_inv q"
  by (induction rule: reachable.induct) (auto intro: queue_init_inv queue_inv_step)

subsection \<open>Properties\<close>

text \<open>C2: in every reachable state, whatever the interleaving and the number of posting threads, the
  messages taken out are the first ones that were put in, in that order, and none of them is NULL.\<close>

theorem queue_fifo:
  assumes "reachable n q"
  shows "taken q = map Some (take (length (taken q)) (written q))
       \<and> length (taken q) \<le> length (written q) \<and> length (written q) \<le> length (taken q) + MSG_MAX"
  using reachable_inv [OF assms] by (auto simp: queue_inv_def ring_ok_def)

theorem queue_fifo_witness:
  "taken (goes 0 (PEntered (5 :: nat)) (queue_init 1)) = map Some (take 0 (written (goes 0 (PEntered 5) (queue_init 1))))"
proof -
  have "is_at (queue_init 1) 0 (PIdle :: nat post_pc)" by (simp add: is_at_def queue_init_def)
  from reachable.step [OF reachable.start qstep.post_call [OF this]]
  have "reachable 1 (goes 0 (PEntered (5 :: nat)) (queue_init 1))" .
  from queue_fifo [OF this] show ?thesis by (simp add: queue_init_def)
qed

text \<open>a thread that is about to store its message finds a free slot: no message is overwritten, and
  only one thread at a time is between taking and releasing the lock.\<close>

theorem queue_no_overwrite:
  assumes "reachable n q" "is_at q i (PLocked m)"
  shows "post_pos q < MSG_MAX \<and> slots q ! post_pos q = None
       \<and> [j \<leftarrow> [0..<length (posters q)]. in_section (posters q ! j)] = [i]"
proof -
  have inv: "queue_inv q" using reachable_inv [OF assms(1)] .
  have "PWritten \<notin> set (posters q)" using inv locked_no_writer [OF _ assms(2)] by (simp add: queue_inv_def)
  with inv have pos: "post_pos q = length (written q) mod MSG_MAX" by (simp add: queue_inv_def pos_ok_def)
  have room: "length (written q) - length (taken q) < MSG_MAX"
    using inv token_room [OF _ assms(2)] by (simp add: queue_inv_def)
  have le: "length (taken q) \<le> length (written q)" using inv by (simp add: queue_inv_def ring_ok_def)
  have "slots q ! post_pos q = None"
    using inv room le unfolding pos by (simp add: queue_inv_def ring_ok_def)
  moreover have sec: "in_section (posters q ! j) \<longleftrightarrow> j = i" if "j < length (posters q)" for j
  proof (cases "j = i")
    case True
    with assms(2) show ?thesis by (simp add: is_at_def)
  next
    case False
    with section_alone [OF _ assms(2) _ that] inv show ?thesis by (simp add: queue_inv_def)
  qed
  have "[j \<leftarrow> [0..<length (posters q)]. in_section (posters q ! j)] = [j \<leftarrow> [0..<length (posters q)]. j = i]"
    by (rule filter_cong) (use sec in simp_all)
  moreover have "[j \<leftarrow> [0..<k]. j = i] = (if i < k then [i] else [])" for k by (induction k) auto
  ultimately show ?thesis using assms(2) pos by (simp add: is_at_def MSG_MAX_def)
qed

theorem queue_no_overwrite_witness:
  "post_pos (goes 0 (PLocked (5 :: nat)) (goes 0 (PToken 5) (goes 0 (PEntered 5) (queue_init 1)
       \<lparr>sem_empty := 15\<rparr>)\<lparr>post_lock := Some 0\<rparr>)) < MSG_MAX"
proof -
  let ?a = "goes 0 (PEntered (5 :: nat)) (queue_init 1)"
  have a: "reachable 1 ?a"
    by (intro reachable.step [OF reachable.start] qstep.post_call) (simp add: is_at_def queue_init_def)
  have "is_at ?a 0 (PEntered 5)" "0 < sem_empty ?a" by (simp_all add: is_at_def queue_init_def MSG_MAX_def)
  from reachable.step [OF a qstep.post_wait [OF this]]
  have b: "reachable 1 (goes 0 (PToken (5 :: nat)) (?a\<lparr>sem_empty := sem_empty ?a - 1\<rparr>))" (is "reachable 1 ?b") .
  have "is_at ?b 0 (PToken 5)" "post_lock ?b = None" by (simp_all add: is_at_def queue_init_def)
  from reachable.step [OF b qstep.post_acquire [OF this]]
  have c: "reachable 1 (goes 0 (PLocked (5 :: nat)) (?b\<lparr>post_lock := Some 0\<rparr>))" (is "reachable 1 ?c") .
  have "is_at ?c 0 (PLocked 5)" by (simp add: is_at_def queue_init_def)
  from queue_no_overwrite [OF c this] show ?thesis by (simp add: queue_init_def)
qed

lemma written_poster_steps:
  assumes "count has_written (posters q) \<noteq> 0"
  shows "\<exists>i pc q'. qstep q q' \<and> is_at q i pc \<and> pc \<noteq> PIdle \<and> posters q' ! i \<noteq> pc"
proof -
  from assms obtain pc where "pc \<in> set (posters q)" "has_written pc" by (auto simp: count_def filter_empty_conv)
  then obtain i where i: "is_at q i pc" "has_written pc" by (auto simp: is_at_def in_set_conv_nth)
  then have l: "i < length (posters q)" by (simp add: is_at_def)
  consider "pc = PWritten" | "pc = PMoved" | "pc = PUnlocked" using i(2) by (cases pc) auto
  then show ?thesis
  proof cases
    case 1
    with qstep.post_move [of q i] i l show ?thesis by (intro exI [of _ i] exI [of _ pc]) auto
  next
    case 2
    with qstep.post_release [of q i] i l show ?thesis by (intro exI [of _ i] exI [of _ pc]) auto
  next
    case 3
    with qstep.post_signal [of q i] i l show ?thesis by (intro exI [of _ i] exI [of _ pc]) auto
  qed
qed

lemma token_poster_steps:
  assumes "section_ok q" "count has_token (posters q) \<noteq> 0"
  shows "\<exists>i pc q'. qstep q q' \<and> is_at q i pc \<and> pc \<noteq> PIdle \<and> posters q' ! i \<noteq> pc"
proof (cases "post_lock q")
  case None
  from assms(2) obtain pc where "pc \<in> set (posters q)" "has_token pc" by (auto simp: count_def filter_empty_conv)
  then obtain i where i: "i < length (posters q)" "posters q ! i = pc" "has_token pc" by (auto simp: in_set_conv_nth)
  then have "\<not> in_section pc" using assms(1) None by (auto simp: section_ok_def)
  with i(3) obtain m where "pc = PToken m" by (cases pc) auto
  with qstep.post_acquire [of q i m] None i show ?thesis
    by (intro exI [of _ i] exI [of _ pc]) (auto simp: is_at_def)
next
  case (Some i)
  with assms(1) have i: "i < length (posters q)" "in_section (posters q ! i)" by (auto simp: section_ok_def)
  show ?thesis
  proof (cases "posters q ! i")
    case (PLocked m)
    with qstep.post_write [of q i m] i show ?thesis
      by (intro exI [of _ i] exI [of _ "PLocked m"]) (auto simp: is_at_def)
  next
    case PWritten
    with qstep.post_move [of q i] i show ?thesis
      by (intro exI [of _ i] exI [of _ PWritten]) (auto simp: is_at_def)
  next
    case PMoved
    with qstep.post_release [of q i] i show ?thesis
      by (intro exI [of _ i] exI [of _ PMoved]) (auto simp: is_at_def)
  qed (use i in auto)
qed

text \<open>C31: the two semaphores cannot deadlock: while a thread waits to post and another waits to take,
  some step other than the start of a further call is possible.\<close>

theorem queue_no_deadlock:
  assumes "reachable n q" "is_at q i (PEntered m)" "getter q \<noteq> GIdle"
  shows "\<exists>q'. qstep q q' \<and> (getter q' \<noteq> getter q \<or> (\<exists>j pc. is_at q j pc \<and> pc \<noteq> PIdle \<and> posters q' ! j \<noteq> pc))"
proof -
  have inv: "section_ok q" "tokens_ok q" using reachable_inv [OF assms(1)] by (auto simp: queue_inv_def)
  have l: "i < length (posters q)" using assms(2) by (simp add: is_at_def)
  show ?thesis
  proof (cases "0 < sem_empty q")
    case True
    from qstep.post_wait [OF assms(2) this] l assms(2) show ?thesis
      by (intro exI conjI disjI2) auto
  next
    case False
    consider (token) "count has_token (posters q) \<noteq> 0" | (after) "getter_after (getter q) \<noteq> 0"
      | (full) "count has_token (posters q) = 0" "getter_after (getter q) = 0" by blast
    then show ?thesis
    proof cases
      case token
      from token_poster_steps [OF inv(1) this] show ?thesis by blast
    next
      case after
      then show ?thesis
        by (auto simp: getter_after_def split: get_pc.splits intro!: exI dest: qstep.get_move qstep.get_release qstep.get_signal)
    next
      case full
      then have "length (written q) - length (taken q) = MSG_MAX" using inv(2) False full unfolding tokens_ok_def by linarith
      then have t: "sem_full q + count has_written (posters q) + getter_before (getter q) \<noteq> 0"
        using inv(2) by (auto simp: tokens_ok_def MSG_MAX_def)
      show ?thesis
      proof (cases "count has_written (posters q) \<noteq> 0")
        case True
        from written_poster_steps [OF this] show ?thesis by blast
      next
        case False
        with t have "0 < sem_full q \<or> getter_before (getter q) \<noteq> 0" by auto
        then show ?thesis using assms(3) qstep.get_wait [of q] qstep.get_acquire [of q] qstep.get_read [of q]
            qstep.get_move [of q] qstep.get_release [of q] qstep.get_signal [of q]
          by (cases "getter q") (auto simp: getter_before_def intro!: exI)
      qed
    qed
  qed
qed

theorem queue_no_deadlock_witness:
  "\<exists>q'. qstep ((goes 0 (PEntered (5 :: nat)) (queue_init 1))\<lparr>getter := GEntered\<rparr>) q'"
proof -
  have "is_at (queue_init 1) 0 (PIdle :: nat post_pc)" by (simp add: is_at_def queue_init_def)
  from reachable.step [OF reachable.start qstep.post_call [OF this]]
  have a: "reachable 1 (goes 0 (PEntered (5 :: nat)) (queue_init 1))" .
  have "getter (goes 0 (PEntered (5 :: nat)) (queue_init 1)) = GIdle" by (simp add: queue_init_def)
  from reachable.step [OF a qstep.get_call [OF this]]
  have r: "reachable 1 ((goes 0 (PEntered (5 :: nat)) (queue_init 1))\<lparr>getter := GEntered\<rparr>)" .
  have "is_at ((goes 0 (PEntered (5 :: nat)) (queue_init 1))\<lparr>getter := GEntered\<rparr>) 0 (PEntered 5)"
    by (simp add: is_at_def queue_init_def)
  from queue_no_deadlock [OF r this] show ?thesis by auto
qed

end
