(* ===== verification/WbList.thy ===== *)
theory WbList
  imports Prelude
begin

text \<open>
  \<open>src/tools/list.c\<close>: the singly linked list with head and tail pointers that holds friends,
  clan mates, rooms, missions, pending invitations and threads.

  The nodes are cells of an explicit store (a partial map from addresses), \<open>calloc\<close> returns the
  next unused address and \<open>free\<close> removes the cell, so a dangling pointer is a lookup that
  fails, i.e. a crash (\<open>None\<close>).  A comparison function is the predicate ``\<open>cmp\<close> returned
  0''.  The \<open>while (h != NULL)\<close> loops take fuel; \<open>loop_fuel\<close>, one more than the number
  of cells ever allocated, is always enough on a well-formed list, which is part of every
  refinement lemma below (their results are \<open>Some\<close>).

  The abstract view of a list is the HOL list of its values, head first; \<open>lrep\<close> relates the
  two and also says that no cell leaks.  The locale \<open>list_provider\<close> states what the clients
  rely on, and the clients' theories work on the abstract lists.
\<close>

type_synonym addr = nat

record 'v node =
  nd_value :: 'v
  nd_next :: "addr option"

record 'v clist =
  cells :: "addr \<Rightarrow> 'v node option"
  brk :: addr
  head :: "addr option"
  tail :: "addr option"
  length_field :: u64
  rl_curr :: "addr option"
  rl_len :: nat

definition loop_fuel :: "'v clist \<Rightarrow> nat" where
  "loop_fuel l = Suc (brk l)"

subsection \<open>Operations\<close>

definition list_new :: "'v clist" where
  "list_new = \<lparr>cells = (\<lambda>_. None), brk = 0, head = None, tail = None, length_field = 0,
     rl_curr = None, rl_len = 0\<rparr>"

definition list_add :: "'v clist \<Rightarrow> 'v \<Rightarrow> 'v clist" where
  "list_add l v =
     (let n = brk l in
      l\<lparr>cells := (cells l)(n \<mapsto> \<lparr>nd_value = v, nd_next = head l\<rparr>),
        brk := Suc n,
        head := Some n,
        length_field := length_field l + 1,
        tail := (if tail l = None then Some n else tail l)\<rparr>)"

text \<open>Unlinking node \<open>h\<close> (whose contents are \<open>n\<close>) with predecessor \<open>p\<close>.\<close>

definition unlink :: "'v clist \<Rightarrow> addr \<Rightarrow> 'v node \<Rightarrow> addr option \<Rightarrow> 'v clist crash" where
  "unlink l h n p =
     (case p of
        None \<Rightarrow> Some (l\<lparr>head := nd_next n, tail := None, cells := (cells l)(h := None),
                        length_field := length_field l - 1\<rparr>)
      | Some pa \<Rightarrow>
          (case cells l pa of
             None \<Rightarrow> None
           | Some pn \<Rightarrow>
               Some (l\<lparr>cells := (cells l)(pa \<mapsto> pn\<lparr>nd_next := nd_next n\<rparr>, h := None),
                       tail := (if nd_next n = None then p else tail l),
                       length_field := length_field l - 1\<rparr>)))"

text \<open>The loop of \<open>list_remove\<close>; the result carries the value handed to \<open>l->free\<close>.\<close>

fun remove_loop ::
  "nat \<Rightarrow> ('v \<Rightarrow> bool) \<Rightarrow> 'v clist \<Rightarrow> addr option \<Rightarrow> addr option \<Rightarrow> ('v clist \<times> 'v option) crash" where
  "remove_loop 0 m l h p = None"
| "remove_loop (Suc f) m l None p = Some (l, None)"
| "remove_loop (Suc f) m l (Some h) p =
     (case cells l h of
        None \<Rightarrow> None
      | Some n \<Rightarrow>
          if m (nd_value n)
          then (case unlink l h n p of None \<Rightarrow> None | Some l' \<Rightarrow> Some (l', Some (nd_value n)))
          else remove_loop f m l (nd_next n) (Some h))"

definition list_remove :: "('v \<Rightarrow> bool) \<Rightarrow> 'v clist \<Rightarrow> ('v clist \<times> 'v option) crash" where
  "list_remove m l = remove_loop (loop_fuel l) m l (head l) None"

text \<open>The loop of \<open>list_empty\<close> frees node after node and collects the freed values.\<close>

fun empty_loop ::
  "nat \<Rightarrow> (addr \<Rightarrow> 'v node option) \<Rightarrow> addr option \<Rightarrow> ((addr \<Rightarrow> 'v node option) \<times> 'v list) crash" where
  "empty_loop 0 c h = None"
| "empty_loop (Suc f) c None = Some (c, [])"
| "empty_loop (Suc f) c (Some h) =
     (case c h of
        None \<Rightarrow> None
      | Some n \<Rightarrow>
          (case empty_loop f (c(h := None)) (nd_next n) of
             None \<Rightarrow> None
           | Some (c', vs) \<Rightarrow> Some (c', nd_value n # vs)))"

definition list_empty :: "'v clist \<Rightarrow> ('v clist \<times> 'v list) crash" where
  "list_empty l =
     (case empty_loop (loop_fuel l) (cells l) (head l) of
        None \<Rightarrow> None
      | Some (c, vs) \<Rightarrow>
          Some (l\<lparr>cells := c, length_field := 0, head := None, tail := None\<rparr>, vs))"

text \<open>\<open>list_free\<close> empties the list and frees the descriptor: only the freed values remain.\<close>

definition list_free :: "'v clist \<Rightarrow> 'v list crash" where
  "list_free l = map_option snd (list_empty l)"

fun foreach_loop ::
  "nat \<Rightarrow> (addr \<Rightarrow> 'v node option) \<Rightarrow> ('v \<Rightarrow> 's \<Rightarrow> 's) \<Rightarrow> addr option \<Rightarrow> 's \<Rightarrow> 's crash" where
  "foreach_loop 0 c f h s = None"
| "foreach_loop (Suc k) c f None s = Some s"
| "foreach_loop (Suc k) c f (Some h) s =
     (case c h of None \<Rightarrow> None | Some n \<Rightarrow> foreach_loop k c f (nd_next n) (f (nd_value n) s))"

definition list_foreach :: "'v clist \<Rightarrow> ('v \<Rightarrow> 's \<Rightarrow> 's) \<Rightarrow> 's \<Rightarrow> 's crash" where
  "list_foreach l f s = foreach_loop (loop_fuel l) (cells l) f (head l) s"

fun get_loop ::
  "nat \<Rightarrow> (addr \<Rightarrow> 'v node option) \<Rightarrow> ('v \<Rightarrow> bool) \<Rightarrow> addr option \<Rightarrow> (addr \<times> 'v) option crash" where
  "get_loop 0 c m h = None"
| "get_loop (Suc k) c m None = Some None"
| "get_loop (Suc k) c m (Some h) =
     (case c h of
        None \<Rightarrow> None
      | Some n \<Rightarrow> if m (nd_value n) then Some (Some (h, nd_value n)) else get_loop k c m (nd_next n))"

definition list_get_by :: "'v clist \<Rightarrow> ('v \<Rightarrow> bool) \<Rightarrow> 'v option crash" where
  "list_get_by l cmp = map_option (map_option snd) (get_loop (loop_fuel l) (cells l) cmp (head l))"

definition list_get :: "('v \<Rightarrow> bool) \<Rightarrow> 'v clist \<Rightarrow> 'v option crash" where
  "list_get m l = list_get_by l m"

text \<open>A client's write to the structure that \<open>list_get_by\<close> returned a pointer to.\<close>

definition list_modify :: "('v \<Rightarrow> bool) \<Rightarrow> ('v \<Rightarrow> 'v) \<Rightarrow> 'v clist \<Rightarrow> 'v clist crash" where
  "list_modify m f l =
     (case get_loop (loop_fuel l) (cells l) m (head l) of
        None \<Rightarrow> None
      | Some None \<Rightarrow> Some l
      | Some (Some (a, v)) \<Rightarrow>
          (case cells l a of
             None \<Rightarrow> None
           | Some n \<Rightarrow> Some (l\<lparr>cells := (cells l)(a \<mapsto> n\<lparr>nd_value := f v\<rparr>)\<rparr>)))"

definition list_first :: "'v clist \<Rightarrow> 'v option crash" where
  "list_first l =
     (case head l of None \<Rightarrow> Some None | Some h \<Rightarrow> map_option (\<lambda>n. Some (nd_value n)) (cells l h))"

definition list_last :: "'v clist \<Rightarrow> 'v option crash" where
  "list_last l =
     (case tail l of None \<Rightarrow> Some None | Some t \<Rightarrow> map_option (\<lambda>n. Some (nd_value n)) (cells l t))"

definition list_contains :: "('v \<Rightarrow> bool) \<Rightarrow> 'v clist \<Rightarrow> bool crash" where
  "list_contains m l = map_option (\<lambda>r. r \<noteq> None) (list_get m l)"

text \<open>
  The readline completion generator: state 0 restarts at the head and stores the length of the
  text; every call moves the cursor past the next match and returns a copy of it.
\<close>

fun rl_loop ::
  "nat \<Rightarrow> ('v \<Rightarrow> nat \<Rightarrow> bool) \<Rightarrow> 'v clist \<Rightarrow> ('v clist \<times> 'v option) crash" where
  "rl_loop 0 m l = None"
| "rl_loop (Suc k) m l =
     (case rl_curr l of
        None \<Rightarrow> Some (l, None)
      | Some c \<Rightarrow>
          (case cells l c of
             None \<Rightarrow> None
           | Some n \<Rightarrow>
               (let l' = l\<lparr>rl_curr := nd_next n\<rparr> in
                if m (nd_value n) (rl_len l') then Some (l', Some (nd_value n)) else rl_loop k m l')))"

definition list_rl_generator ::
  "('v \<Rightarrow> string \<Rightarrow> nat \<Rightarrow> bool) \<Rightarrow> ('v \<Rightarrow> string) \<Rightarrow> string \<Rightarrow> bool \<Rightarrow> 'v clist \<Rightarrow>
     ('v clist \<times> string option) crash" where
  "list_rl_generator rl_match rl_copy txt state l =
     (let l0 = (if \<not> state then l\<lparr>rl_curr := head l, rl_len := length txt\<rparr> else l) in
      map_option (\<lambda>(l', r). (l', map_option rl_copy r))
        (rl_loop (loop_fuel l) (\<lambda>v. rl_match v txt) l0))"

subsection \<open>Abstract lists\<close>

fun remove_first :: "('v \<Rightarrow> bool) \<Rightarrow> 'v list \<Rightarrow> 'v list" where
  "remove_first m [] = []"
| "remove_first m (x # xs) = (if m x then xs else x # remove_first m xs)"

fun modify_first :: "('v \<Rightarrow> bool) \<Rightarrow> ('v \<Rightarrow> 'v) \<Rightarrow> 'v list \<Rightarrow> 'v list" where
  "modify_first m f [] = []"
| "modify_first m f (x # xs) = (if m x then f x # xs else x # modify_first m f xs)"

lemma remove_first_none: "find m xs = None \<Longrightarrow> remove_first m xs = xs"
  by (induction xs) (auto split: if_splits)

lemma modify_first_none: "find m xs = None \<Longrightarrow> modify_first m f xs = xs"
  by (induction xs) (auto split: if_splits)

lemma set_remove_first: "set (remove_first m xs) \<subseteq> set xs"
  by (induction xs) auto

lemma length_remove_first:
  "length (remove_first m xs) = (if find m xs = None then length xs else length xs - 1)"
proof (induction xs)
  case Nil
  then show ?case by simp
next
  case (Cons x xs)
  then show ?case by (cases xs) auto
qed

lemma remove_first_split:
  "\<forall>y\<in>set ys. \<not> m y \<Longrightarrow> m x \<Longrightarrow> remove_first m (ys @ x # zs) = ys @ zs"
  by (induction ys) auto

lemma modify_first_split:
  "\<forall>y\<in>set ys. \<not> m y \<Longrightarrow> m x \<Longrightarrow> modify_first m f (ys @ x # zs) = ys @ f x # zs"
  by (induction ys) auto

lemma length_modify_first [simp]: "length (modify_first m f xs) = length xs"
  by (induction xs) auto

lemma map_modify_first: "(\<And>x. g (f x) = g x) \<Longrightarrow> map g (modify_first m f xs) = map g xs"
  by (induction xs) auto

lemma set_modify_first: "set (modify_first m f xs) \<subseteq> set xs \<union> f ` {x \<in> set xs. m x}"
  by (induction xs) auto

text \<open>
  Searching with a comparison that dereferences: it crashes when it reaches an element whose key is
  NULL before it finds a match.
\<close>

definition strcmp_eq :: "cptr \<Rightarrow> cptr \<Rightarrow> bool crash" where
  "strcmp_eq p q = do { a \<leftarrow> deref p; b \<leftarrow> deref q; Some (a = b) }"

fun find_crash :: "('v \<Rightarrow> bool crash) \<Rightarrow> 'v list \<Rightarrow> 'v option crash" where
  "find_crash m [] = Some None"
| "find_crash m (x # xs) = do { b \<leftarrow> m x; if b then Some (Some x) else find_crash m xs }"

fun remove_crash :: "('v \<Rightarrow> bool crash) \<Rightarrow> 'v list \<Rightarrow> 'v list crash" where
  "remove_crash m [] = Some []"
| "remove_crash m (x # xs) =
     do { b \<leftarrow> m x; if b then Some xs else map_option ((#) x) (remove_crash m xs) }"

fun modify_crash :: "('v \<Rightarrow> bool crash) \<Rightarrow> ('v \<Rightarrow> 'v) \<Rightarrow> 'v list \<Rightarrow> 'v list crash" where
  "modify_crash m f [] = Some []"
| "modify_crash m f (x # xs) =
     do { b \<leftarrow> m x; if b then Some (f x # xs) else map_option ((#) x) (modify_crash m f xs) }"

lemma strcmp_eq_simps [simp]:
  "strcmp_eq None q = None" "strcmp_eq p None = None" "strcmp_eq (Some a) (Some b) = Some (a = b)"
  by (auto simp: strcmp_eq_def deref_def bind_eq_None_conv)

lemma find_crash_total: "(\<And>x. x \<in> set xs \<Longrightarrow> m x = Some (P x)) \<Longrightarrow> find_crash m xs = Some (find P xs)"
  by (induction xs) auto

lemma remove_crash_total: "(\<And>x. x \<in> set xs \<Longrightarrow> m x = Some (P x)) \<Longrightarrow> remove_crash m xs = Some (remove_first P xs)"
  by (induction xs) auto

lemma modify_crash_total: "(\<And>x. x \<in> set xs \<Longrightarrow> m x = Some (P x)) \<Longrightarrow> modify_crash m f xs = Some (modify_first P f xs)"
  by (induction xs) auto

lemma crash_free [simp]:
  "find_crash (\<lambda>x. Some (P x)) xs = Some (find P xs)"
  "remove_crash (\<lambda>x. Some (P x)) xs = Some (remove_first P xs)"
  "modify_crash (\<lambda>x. Some (P x)) f xs = Some (modify_first P f xs)"
  by (simp_all add: find_crash_total remove_crash_total modify_crash_total)

lemma find_crash_in_set: "find_crash m xs = Some (Some x) \<Longrightarrow> x \<in> set xs \<and> m x = Some True"
  by (induction xs) (auto simp: bind_eq_Some_conv split: if_splits)

subsection \<open>Representation\<close>

fun lpath :: "(addr \<Rightarrow> 'v node option) \<Rightarrow> addr option \<Rightarrow> addr list \<Rightarrow> 'v list \<Rightarrow> bool" where
  "lpath c p [] [] \<longleftrightarrow> p = None"
| "lpath c p (a # as) (x # xs) \<longleftrightarrow>
     p = Some a \<and> (\<exists>nx. c a = Some \<lparr>nd_value = x, nd_next = nx\<rparr> \<and> lpath c nx as xs)"
| "lpath c p _ _ \<longleftrightarrow> False"

definition lrep :: "'v clist \<Rightarrow> addr list \<Rightarrow> 'v list \<Rightarrow> bool" where
  "lrep l as xs \<longleftrightarrow>
     lpath (cells l) (head l) as xs \<and> distinct as \<and> dom (cells l) = set as \<and>
     (\<forall>a\<in>set as. a < brk l) \<and> length_field l = of_nat (length xs)"

definition lrel :: "'v clist \<Rightarrow> 'v list \<Rightarrow> bool" where
  "lrel l xs \<longleftrightarrow> (\<exists>as. lrep l as xs)"

definition tail_ok :: "'v clist \<Rightarrow> addr list \<Rightarrow> bool" where
  "tail_ok l as \<longleftrightarrow> tail l = (if as = [] then None else Some (last as))"

lemma lpath_length: "lpath c p as xs \<Longrightarrow> length as = length xs"
  by (induction c p as xs rule: lpath.induct) auto

lemma lpath_frame: "\<forall>a\<in>set as. c' a = c a \<Longrightarrow> lpath c' p as xs = lpath c p as xs"
  by (induction c p as xs rule: lpath.induct) auto

lemma lpath_upd [simp]: "a \<notin> set as \<Longrightarrow> lpath (c(a := v)) p as xs = lpath c p as xs"
  by (rule lpath_frame) auto

lemma lpath_dom: "lpath c p as xs \<Longrightarrow> a \<in> set as \<Longrightarrow> \<exists>n. c a = Some n"
  by (induction c p as xs rule: lpath.induct) auto

lemma lpath_Cons_left:
  "lpath c p (a # as) xs \<longleftrightarrow>
     (\<exists>x ys nx. xs = x # ys \<and> p = Some a \<and> c a = Some \<lparr>nd_value = x, nd_next = nx\<rparr> \<and> lpath c nx as ys)"
  by (cases xs) auto

lemma lpath_Cons_right:
  "lpath c p as (x # xs) \<longleftrightarrow>
     (\<exists>a bs nx. as = a # bs \<and> p = Some a \<and> c a = Some \<lparr>nd_value = x, nd_next = nx\<rparr> \<and> lpath c nx bs xs)"
  by (cases as) auto

lemma lpath_Nil_right [simp]: "lpath c p as [] \<longleftrightarrow> as = [] \<and> p = None"
  by (cases as) auto

lemma distinct_below_length: "distinct as \<Longrightarrow> \<forall>a\<in>set as. a < (n::nat) \<Longrightarrow> length as \<le> n"
  using card_mono [of "{..<n}" "set as"] by (auto simp: distinct_card subset_iff)

lemma lrep_fuel: "lrep l as xs \<Longrightarrow> length as < loop_fuel l"
  using distinct_below_length [of as "brk l"] by (simp add: lrep_def loop_fuel_def)

subsection \<open>The operations implement the abstract lists\<close>

lemma lpath_split:
  assumes "lpath c p as (ys @ v # zs)"
  shows "\<exists>bs a cs nx. as = bs @ a # cs \<and> length bs = length ys
           \<and> c a = Some \<lparr>nd_value = v, nd_next = nx\<rparr> \<and> lpath c nx cs zs
           \<and> (bs = [] \<longrightarrow> p = Some a)"
  using assms
proof (induction ys arbitrary: p as)
  case Nil
  then show ?case by (auto simp: lpath_Cons_right)
next
  case (Cons y ys)
  then obtain a as' nx where a: "as = a # as'" "c a = Some \<lparr>nd_value = y, nd_next = nx\<rparr>"
    "lpath c nx as' (ys @ v # zs)" by (auto simp: lpath_Cons_right)
  from Cons.IH [OF a(3)] obtain bs b cs nx' where
    "as' = bs @ b # cs" "length bs = length ys" "c b = Some \<lparr>nd_value = v, nd_next = nx'\<rparr>"
    "lpath c nx' cs zs" by blast
  then show ?case using a by (intro exI [of _ "a # bs"]) auto
qed

lemma lpath_cut:
  assumes "lpath c p (bs @ a # cs) (ys @ v # zs)" "length bs = length ys"
    "distinct (bs @ a # cs)" "c a = Some \<lparr>nd_value = v, nd_next = nx\<rparr>" "bs \<noteq> []"
  shows "\<exists>pn. c (last bs) = Some pn \<and>
     lpath (c(last bs \<mapsto> pn\<lparr>nd_next := nx\<rparr>, a := None)) p (bs @ cs) (ys @ zs)"
  using assms
proof (induction bs arbitrary: p ys)
  case Nil
  then show ?case by simp
next
  case (Cons b bs)
  then obtain y ys' nb where y: "ys = y # ys'" "p = Some b" "c b = Some \<lparr>nd_value = y, nd_next = nb\<rparr>"
    "lpath c nb (bs @ a # cs) (ys' @ v # zs)" "length bs = length ys'"
    by (cases ys) auto
  show ?case
  proof (cases "bs = []")
    case True
    with y have "ys' = []" "nb = Some a" by auto
    moreover have "lpath (c(b \<mapsto> \<lparr>nd_value = y, nd_next = Some a\<rparr>\<lparr>nd_next := nx\<rparr>, a := None)) nx cs zs"
      using True y Cons.prems(3,4) by simp
    ultimately show ?thesis using True y Cons.prems(3,4) by (simp del: fun_upd_apply) simp
  next
    case False
    have d: "distinct (bs @ a # cs)" using Cons.prems(3) by simp
    from Cons.IH [OF y(4,5) d Cons.prems(4) False] obtain pn where
      pn: "c (last bs) = Some pn"
      "lpath (c(last bs \<mapsto> pn\<lparr>nd_next := nx\<rparr>, a := None)) nb (bs @ cs) (ys' @ zs)" by blast
    have ne: "b \<noteq> last bs" "b \<noteq> a" using Cons.prems(3) False by auto
    let ?c = "c(last bs \<mapsto> pn\<lparr>nd_next := nx\<rparr>, a := None)"
    have "?c b = c b" using ne by simp
    then have "lpath ?c p ((b # bs) @ cs) (ys @ zs)" using y pn(2) by (simp del: fun_upd_apply)
    moreover have "last (b # bs) = last bs" using False by simp
    ultimately show ?thesis using pn(1) by metis
  qed
qed

lemma remove_loop_miss:
  "lpath (cells l) h as xs \<Longrightarrow> length as < f \<Longrightarrow> find m xs = None \<Longrightarrow>
     remove_loop f m l h p = Some (l, None)"
proof (induction xs arbitrary: f h p as)
  case Nil
  then show ?case by (cases f) auto
next
  case (Cons x xs)
  then show ?case by (cases f) (auto simp: lpath_Cons_right split: if_splits)
qed

lemma remove_loop_hit:
  "lpath (cells l) h (bs @ a # cs) (ys @ v # zs) \<Longrightarrow> length bs = length ys \<Longrightarrow>
   cells l a = Some n \<Longrightarrow>
   length (bs @ a # cs) < f \<Longrightarrow> \<forall>y\<in>set ys. \<not> m y \<Longrightarrow> m v \<Longrightarrow>
     remove_loop f m l h p =
       (case unlink l a n (if bs = [] then p else Some (last bs)) of
          None \<Rightarrow> None | Some l' \<Rightarrow> Some (l', Some v))"
proof (induction bs arbitrary: f h p ys)
  case Nil
  then show ?case by (cases f) (auto split: option.split)
next
  case (Cons b bs)
  then obtain y ys' where "ys = y # ys'" by (cases ys) auto
  with Cons show ?case by (cases f) auto
qed

text \<open>Removing the first of several elements loses the tail.\<close>

definition keeps_tail :: "('v \<Rightarrow> bool) \<Rightarrow> 'v list \<Rightarrow> bool" where
  "keeps_tail m xs \<longleftrightarrow> (case xs of x # y # ys \<Rightarrow> \<not> m x | _ \<Rightarrow> True)"

lemma list_remove_rep:
  assumes rep: "lrep l as xs"
  shows "\<exists>l' as'. list_remove m l = Some (l', find m xs) \<and> lrep l' as' (remove_first m xs)
     \<and> brk l' = brk l \<and> (tail_ok l as \<and> keeps_tail m xs \<longrightarrow> tail_ok l' as')"
proof (cases "find m xs")
  case None
  from rep have "list_remove m l = Some (l, None)"
    using remove_loop_miss [OF _ lrep_fuel [OF rep] None] by (simp add: list_remove_def lrep_def)
  with None rep show ?thesis by (simp add: remove_first_none) blast
next
  case (Some v)
  then obtain ys zs where s: "xs = ys @ v # zs" "m v" "\<forall>y\<in>set ys. \<not> m y"
    by (blast dest: find_Some_split)
  from rep have path: "lpath (cells l) (head l) as (ys @ v # zs)" and dist: "distinct as"
    and dm: "dom (cells l) = set as" by (simp_all add: lrep_def s)
  from lpath_split [OF path] obtain bs a cs nx where
    sp: "as = bs @ a # cs" "length bs = length ys" "cells l a = Some \<lparr>nd_value = v, nd_next = nx\<rparr>"
        "lpath (cells l) nx cs zs" "bs = [] \<longrightarrow> head l = Some a" by blast
  have rm: "remove_first m xs = ys @ zs" using s by (simp add: remove_first_split)
  have "list_remove m l = (case unlink l a \<lparr>nd_value = v, nd_next = nx\<rparr>
          (if bs = [] then None else Some (last bs)) of None \<Rightarrow> None | Some l' \<Rightarrow> Some (l', Some v))"
    unfolding list_remove_def
    by (rule remove_loop_hit) (use path sp s lrep_fuel [OF rep] in simp_all)
  moreover have "\<exists>l'. unlink l a \<lparr>nd_value = v, nd_next = nx\<rparr>
          (if bs = [] then None else Some (last bs)) = Some l' \<and> lrep l' (bs @ cs) (ys @ zs)
           \<and> brk l' = brk l \<and> (tail_ok l as \<and> keeps_tail m xs \<longrightarrow> tail_ok l' (bs @ cs))"
  proof (cases "bs = []")
    case True
    with sp dist rep s have "\<exists>l'. unlink l a \<lparr>nd_value = v, nd_next = nx\<rparr> None = Some l' \<and> lrep l' cs zs \<and> brk l' = brk l \<and> tail l' = None"
      by (auto simp: unlink_def lrep_def)
    moreover have "keeps_tail m xs \<longrightarrow> cs = []"
      using True sp(2,4) s by (cases cs; cases zs) (auto simp: keeps_tail_def)
    ultimately show ?thesis using True sp(2) by (auto simp: tail_ok_def)
  next
    case False
    have "lpath (cells l) (head l) (bs @ a # cs) (ys @ v # zs)" using path sp by simp
    from lpath_cut [OF this sp(2) _ sp(3) False] dist sp(1) obtain pn where
      pn: "cells l (last bs) = Some pn"
      "lpath ((cells l)(last bs \<mapsto> pn\<lparr>nd_next := nx\<rparr>, a := None)) (head l) (bs @ cs) (ys @ zs)" by auto
    have "dom ((cells l)(last bs \<mapsto> pn\<lparr>nd_next := nx\<rparr>, a := None)) = set (bs @ cs)"
      using dm dist sp(1) False pn(1) by auto
    moreover have "nx = None \<longleftrightarrow> cs = []" using sp(4) by (cases cs; cases zs) auto
    ultimately show ?thesis using False pn rep sp s by (auto simp: unlink_def lrep_def tail_ok_def)
  qed
  ultimately show ?thesis using Some rm by auto
qed

lemma list_new_rep: "lrep list_new [] []"
  by (simp add: lrep_def list_new_def)

lemma list_add_rep:
  assumes "lrep l as xs"
  shows "lrep (list_add l v) (brk l # as) (v # xs)"
proof -
  have fresh: "brk l \<notin> set as" using assms by (auto simp: lrep_def)
  then have "lpath ((cells l)(brk l \<mapsto> \<lparr>nd_value = v, nd_next = head l\<rparr>)) (head l) as xs"
    using assms by (simp add: lrep_def)
  with fresh assms show ?thesis
    by (auto simp: lrep_def list_add_def Let_def less_Suc_eq)
qed

lemma get_loop_find:
  "lpath c h as xs \<Longrightarrow> length as < k \<Longrightarrow>
     map_option (map_option snd) (get_loop k c m h) = Some (find m xs)"
proof (induction xs arbitrary: k h as)
  case Nil
  then show ?case by (cases k) auto
next
  case (Cons x xs)
  then show ?case by (cases k) (auto simp: lpath_Cons_right split: if_splits)
qed

lemma lrep_path: "lrep l as xs \<Longrightarrow> lpath (cells l) (head l) as xs"
  by (simp add: lrep_def)

lemma list_get_rep: "lrep l as xs \<Longrightarrow> list_get m l = Some (find m xs)"
  unfolding list_get_def list_get_by_def by (rule get_loop_find [OF lrep_path lrep_fuel])

lemma list_contains_rep: "lrep l as xs \<Longrightarrow> list_contains m l = Some (\<exists>x\<in>set xs. m x)"
  by (cases "find m xs")
     (auto simp: list_contains_def list_get_rep find_None_iff dest: find_in_set find_holds)

lemma get_loop_hit:
  "lpath c h (bs @ a # cs) (ys @ v # zs) \<Longrightarrow> length bs = length ys \<Longrightarrow>
   length (bs @ a # cs) < k \<Longrightarrow> \<forall>y\<in>set ys. \<not> m y \<Longrightarrow> m v \<Longrightarrow>
     get_loop k c m h = Some (Some (a, v))"
proof (induction bs arbitrary: k h ys)
  case Nil
  then show ?case by (cases k) auto
next
  case (Cons b bs)
  then obtain y ys' where "ys = y # ys'" by (cases ys) auto
  with Cons show ?case by (cases k) auto
qed

lemma lpath_write:
  "lpath c p (bs @ a # cs) (ys @ v # zs) \<Longrightarrow> length bs = length ys \<Longrightarrow>
   distinct (bs @ a # cs) \<Longrightarrow> c a = Some n \<Longrightarrow>
     lpath (c(a \<mapsto> n\<lparr>nd_value := w\<rparr>)) p (bs @ a # cs) (ys @ w # zs)"
proof (induction bs arbitrary: p ys)
  case Nil
  then have n: "ys = []" "p = Some a" "a \<notin> set cs" "nd_value n = v" "lpath c (nd_next n) cs zs" by auto
  then have "lpath (c(a \<mapsto> n\<lparr>nd_value := w\<rparr>)) (nd_next n) cs zs" by simp
  with n show ?case by (cases n) (simp del: fun_upd_apply, simp)
next
  case (Cons b bs)
  then obtain y ys' where "ys = y # ys'" by (cases ys) auto
  with Cons show ?case by auto
qed

lemma list_modify_rep:
  assumes rep: "lrep l as xs"
  shows "\<exists>l'. list_modify m f l = Some l' \<and> lrep l' as (modify_first m f xs) \<and> brk l' = brk l \<and> tail l' = tail l"
proof (cases "find m xs")
  case None
  have "map_option (map_option snd) (get_loop (loop_fuel l) (cells l) m (head l)) = Some None"
    using get_loop_find [OF _ lrep_fuel [OF rep], of "cells l" "head l" xs m] rep None by (simp add: lrep_def)
  then have "get_loop (loop_fuel l) (cells l) m (head l) = Some None" by auto
  with None rep show ?thesis by (simp add: list_modify_def modify_first_none)
next
  case (Some v)
  then obtain ys zs where s: "xs = ys @ v # zs" "m v" "\<forall>y\<in>set ys. \<not> m y"
    by (blast dest: find_Some_split)
  from rep have path: "lpath (cells l) (head l) as (ys @ v # zs)" and dist: "distinct as"
    by (simp_all add: lrep_def s)
  from lpath_split [OF path] obtain bs a cs nx where
    sp: "as = bs @ a # cs" "length bs = length ys" "cells l a = Some \<lparr>nd_value = v, nd_next = nx\<rparr>" by blast
  have g: "get_loop (loop_fuel l) (cells l) m (head l) = Some (Some (a, v))"
    by (rule get_loop_hit [of _ _ bs a cs ys v zs]) (use path sp s lrep_fuel [OF rep] in simp_all)
  have "lpath ((cells l)(a \<mapsto> \<lparr>nd_value = v, nd_next = nx\<rparr>\<lparr>nd_value := f v\<rparr>)) (head l)
          (bs @ a # cs) (ys @ f v # zs)"
    by (rule lpath_write) (use path sp dist in simp_all)
  moreover have "modify_first m f xs = ys @ f v # zs" using s by (simp add: modify_first_split)
  moreover have "dom ((cells l)(a \<mapsto> \<lparr>nd_value = v, nd_next = nx\<rparr>\<lparr>nd_value := f v\<rparr>)) = set as"
    using rep sp by (auto simp: lrep_def)
  ultimately show ?thesis using rep sp g s
    by (simp add: list_modify_def lrep_def)
qed

lemma foreach_loop_fold:
  "lpath c h as xs \<Longrightarrow> length as < k \<Longrightarrow> foreach_loop k c f h s = Some (fold f xs s)"
proof (induction xs arbitrary: k h as s)
  case Nil
  then show ?case by (cases k) auto
next
  case (Cons x xs)
  then show ?case by (cases k) (auto simp: lpath_Cons_right)
qed

lemma list_foreach_rep: "lrep l as xs \<Longrightarrow> list_foreach l f s = Some (fold f xs s)"
  unfolding list_foreach_def by (rule foreach_loop_fold [OF lrep_path lrep_fuel])

lemma empty_loop_all:
  "lpath c h as xs \<Longrightarrow> length as < k \<Longrightarrow> distinct as \<Longrightarrow>
     empty_loop k c h = Some ((\<lambda>a. if a \<in> set as then None else c a), xs)"
proof (induction xs arbitrary: k c h as)
  case Nil
  then show ?case by (cases k) auto
next
  case (Cons x xs)
  then obtain a bs nx where a: "as = a # bs" "h = Some a" "c a = Some \<lparr>nd_value = x, nd_next = nx\<rparr>"
    "lpath c nx bs xs" by (auto simp: lpath_Cons_right)
  obtain k' where k: "k = Suc k'" using Cons.prems(2) by (cases k) auto
  have "lpath (c(a := None)) nx bs xs" using a Cons.prems(3) by simp
  moreover have "length bs < k'" "distinct bs" using Cons.prems a k by simp_all
  ultimately have
    "empty_loop k' (c(a := None)) nx = Some ((\<lambda>b. if b \<in> set bs then None else (c(a := None)) b), xs)"
    by (rule Cons.IH)
  with a k show ?case by (auto simp: fun_eq_iff)
qed

lemma list_empty_rep:
  assumes "lrep l as xs"
  shows "\<exists>l'. list_empty l = Some (l', xs) \<and> lrep l' [] [] \<and> tail_ok l' []"
proof -
  have "empty_loop (loop_fuel l) (cells l) (head l)
          = Some ((\<lambda>a. if a \<in> set as then None else cells l a), xs)"
    by (rule empty_loop_all [OF lrep_path [OF assms] lrep_fuel [OF assms]])
       (use assms in \<open>simp add: lrep_def\<close>)
  moreover have "(\<lambda>a. if a \<in> set as then None else cells l a) = (\<lambda>_. None)"
    using assms by (force simp: lrep_def fun_eq_iff)
  ultimately show ?thesis by (simp add: list_empty_def lrep_def tail_ok_def)
qed

lemma list_first_rep:
  "lrep l as xs \<Longrightarrow> list_first l = Some (case xs of [] \<Rightarrow> None | x # _ \<Rightarrow> Some x)"
  by (cases xs) (auto simp: lrep_def list_first_def lpath_Cons_right)

lemma list_add_tail_ok: "lrep l as xs \<Longrightarrow> tail_ok l as \<Longrightarrow> tail_ok (list_add l v) (brk l # as)"
  by (auto simp: tail_ok_def list_add_def Let_def)

lemma lpath_last: "lpath c p as xs \<Longrightarrow> as \<noteq> [] \<Longrightarrow> \<exists>n. c (last as) = Some n \<and> nd_value n = last xs"
proof (induction c p as xs rule: lpath.induct)
  case (2 c p a as x xs)
  then show ?case by (cases "as = []"; cases "xs = []") (auto dest: lpath_length)
qed auto

lemma list_last_ok:
  assumes "lrep l as xs" "tail_ok l as"
  shows "list_last l = Some (if xs = [] then None else Some (last xs))"
proof (cases "as = []")
  case True
  with assms show ?thesis by (cases xs) (auto simp: tail_ok_def list_last_def lrep_def)
next
  case False
  with assms lpath_last [OF lrep_path [OF assms(1)]] lpath_length [OF lrep_path [OF assms(1)]]
  show ?thesis by (auto simp: tail_ok_def list_last_def)
qed

subsection \<open>The interface the clients rely on\<close>

text \<open>
  A client program over a list is a sequence of these operations; \<open>LModify\<close> is its write to the structure
  that \<open>list_get\<close> returned a pointer to.  It observes the values that lookups and iterations return
  pointers to, and those handed to the \<open>free\<close> callback.

  The abstract list comes with whether the tail pointer is known to be right: removing the first of
  several elements loses it, and then \<open>list_last\<close> must not be called.
\<close>

datatype 'v list_op =
    LAdd 'v
  | LRemove "'v \<Rightarrow> bool"
  | LGet "'v \<Rightarrow> bool"
  | LContains "'v \<Rightarrow> bool"
  | LFirst
  | LLast
  | LForeach
  | LModify "'v \<Rightarrow> bool" "'v \<Rightarrow> 'v"
  | LEmpty

definition seen :: "'v option \<Rightarrow> 'v list" where
  "seen r = (case r of None \<Rightarrow> [] | Some v \<Rightarrow> [v])"

fun abs_step :: "'v list_op \<Rightarrow> 'v list \<times> bool \<Rightarrow> (('v list \<times> bool) \<times> ('v list \<times> bool)) option" where
  "abs_step (LAdd v) (xs, t) = Some ((v # xs, t), ([], False))"
| "abs_step (LRemove m) (xs, t) = Some ((remove_first m xs, t \<and> keeps_tail m xs), (seen (find m xs), False))"
| "abs_step (LGet m) (xs, t) = Some ((xs, t), (seen (find m xs), False))"
| "abs_step (LContains m) (xs, t) = Some ((xs, t), ([], \<exists>x \<in> set xs. m x))"
| "abs_step LFirst (xs, t) = Some ((xs, t), (take 1 xs, False))"
| "abs_step LLast (xs, t) = (if t then Some ((xs, t), (if xs = [] then [] else [last xs], False)) else None)"
| "abs_step LForeach (xs, t) = Some ((xs, t), (xs, False))"
| "abs_step (LModify m f) (xs, t) = Some ((modify_first m f xs, t), ([], False))"
| "abs_step LEmpty (xs, t) = Some (([], True), (xs, False))"

text \<open>A program on a list, abstract or not; the second half of an observation is the answer of \<open>list_contains\<close>.\<close>

fun run_ops ::
  "('v list_op \<Rightarrow> 'l \<Rightarrow> ('l \<times> ('v list \<times> bool)) option) \<Rightarrow> 'v list_op list \<Rightarrow> 'l \<Rightarrow> ('l \<times> ('v list \<times> bool) list) option" where
  "run_ops step [] l = Some (l, [])"
| "run_ops step (q # qs) l =
     (case step q l of
        None \<Rightarrow> None
      | Some (l', out) \<Rightarrow>
          (case run_ops step qs l' of None \<Rightarrow> None | Some (l'', outs) \<Rightarrow> Some (l'', out # outs)))"

definition clist_step :: "'v list_op \<Rightarrow> 'v clist \<Rightarrow> ('v clist \<times> ('v list \<times> bool)) crash" where
  "clist_step q l =
     (case q of
        LAdd v \<Rightarrow> Some (list_add l v, ([], False))
      | LRemove m \<Rightarrow> map_option (\<lambda>(l', r). (l', (seen r, False))) (list_remove m l)
      | LGet m \<Rightarrow> map_option (\<lambda>r. (l, (seen r, False))) (list_get m l)
      | LContains m \<Rightarrow> map_option (\<lambda>r. (l, ([], r))) (list_contains m l)
      | LFirst \<Rightarrow> map_option (\<lambda>r. (l, (seen r, False))) (list_first l)
      | LLast \<Rightarrow> map_option (\<lambda>r. (l, (seen r, False))) (list_last l)
      | LForeach \<Rightarrow> map_option (\<lambda>vs. (l, (rev vs, False))) (list_foreach l (#) [])
      | LModify m f \<Rightarrow> map_option (\<lambda>l'. (l', ([], False))) (list_modify m f l)
      | LEmpty \<Rightarrow> map_option (\<lambda>(l', vs). (l', (vs, False))) (list_empty l))"

locale list_provider =
  fixes rel :: "'l \<Rightarrow> 'v list \<times> bool \<Rightarrow> bool"
    and new :: 'l
    and step :: "'v list_op \<Rightarrow> 'l \<Rightarrow> ('l \<times> ('v list \<times> bool)) crash"
  assumes rel_new: "rel new ([], True)"
    and rel_step: "rel l a \<Longrightarrow> abs_step q a = Some (a', out) \<Longrightarrow> \<exists>l'. step q l = Some (l', out) \<and> rel l' a'"
begin

lemma run_refines:
  "rel l a \<Longrightarrow> run_ops abs_step qs a = Some (a', outs) \<Longrightarrow> \<exists>l'. run_ops step qs l = Some (l', outs) \<and> rel l' a'"
proof (induction qs arbitrary: l a outs)
  case Nil
  then show ?case by simp
next
  case (Cons q qs)
  then obtain a1 out outs' where a1: "abs_step q a = Some (a1, out)" "run_ops abs_step qs a1 = Some (a', outs')" "outs = out # outs'"
    by (auto split: option.splits)
  from rel_step [OF Cons.prems(1) a1(1)] obtain l1 where l1: "step q l = Some (l1, out)" "rel l1 a1" by blast
  from Cons.IH [OF l1(2) a1(2)] obtain l2 where "run_ops step qs l1 = Some (l2, outs')" "rel l2 a'" by blast
  with l1(1) a1(3) show ?case by auto
qed

lemma run_from_new: "run_ops abs_step qs ([], True) = Some (a', outs) \<Longrightarrow> \<exists>l'. run_ops step qs new = Some (l', outs) \<and> rel l' a'"
  by (rule run_refines [OF rel_new])

end

definition ltail :: "'v clist \<Rightarrow> 'v list \<times> bool \<Rightarrow> bool" where
  "ltail l = (\<lambda>(xs, t). \<exists>as. lrep l as xs \<and> (t \<longrightarrow> tail_ok l as))"

interpretation wl: list_provider ltail list_new clist_step
proof unfold_locales
  have "tail_ok (list_new :: 'a clist) []" by (simp add: tail_ok_def list_new_def)
  then show "ltail (list_new :: 'a clist) ([], True)" using list_new_rep by (auto simp: ltail_def)
next
  fix l :: "'a clist" and a q a' out
  assume "ltail l a" and step: "abs_step q a = Some (a', out)"
  then obtain xs t as where a: "a = (xs, t)" and rep: "lrep l as xs" and t: "t \<longrightarrow> tail_ok l as" by (auto simp: ltail_def)
  show "\<exists>l'. clist_step q l = Some (l', out) \<and> ltail l' a'"
  proof (cases q)
    case (LAdd v)
    then show ?thesis using step list_add_rep [OF rep] list_add_tail_ok [OF rep] t by (auto simp: a clist_step_def ltail_def)
  next
    case (LRemove m)
    then show ?thesis using step list_remove_rep [OF rep, of m] t by (auto simp: a clist_step_def ltail_def)
  next
    case (LGet m)
    then show ?thesis using step list_get_rep [OF rep, of m] rep t by (auto simp: a clist_step_def ltail_def)
  next
    case (LContains m)
    then show ?thesis using step list_contains_rep [OF rep, of m] rep t by (auto simp: a clist_step_def ltail_def)
  next
    case LFirst
    then show ?thesis using step list_first_rep [OF rep] rep t by (cases xs) (auto simp: a clist_step_def ltail_def seen_def)
  next
    case LLast
    then have "t" using step by (auto simp: a split: if_splits)
    then show ?thesis using step list_last_ok [OF rep] rep t LLast by (auto simp: a clist_step_def ltail_def seen_def)
  next
    case LForeach
    then show ?thesis using step list_foreach_rep [OF rep, of "(#)" "[]"] rep t
      by (auto simp: a clist_step_def ltail_def fold_Cons_rev)
  next
    case (LModify m f)
    obtain l' where "list_modify m f l = Some l'" "lrep l' as (modify_first m f xs)" "tail_ok l' as = tail_ok l as"
      using list_modify_rep [OF rep, of m f] by (auto simp: tail_ok_def)
    then show ?thesis using LModify step t by (auto simp: a clist_step_def ltail_def)
  next
    case LEmpty
    then show ?thesis using step list_empty_rep [OF rep] by (auto simp: a clist_step_def ltail_def)
  qed
qed

text \<open>C39: every program of list operations on the pointer structure, from a fresh list, runs to
  the end without touching a freed node, and observes what it would on a HOL list, as long as \<open>list_last\<close> is not
  called between the removal of the first of several elements and the next \<open>list_empty\<close>.\<close>

theorem list_refines_abstract:
  assumes "run_ops abs_step qs ([], True) = Some (a, outs)"
  shows "\<exists>l'. run_ops clist_step qs list_new = Some (l', outs) \<and> ltail l' a"
  using assms by (rule wl.run_from_new)

theorem list_refines_abstract_witness:
  "\<exists>l'. run_ops clist_step [LAdd (1::nat), LAdd 2, LLast, LRemove (\<lambda>v. v = 2), LAdd 3, LForeach, LContains ((=) 1), LFirst] list_new
     = Some (l', [([], False), ([], False), ([1], False), ([2], False), ([], False), ([3, 1], False), ([], True), ([3], False)])"
proof -
  have "run_ops abs_step [LAdd (1::nat), LAdd 2, LLast, LRemove (\<lambda>v. v = 2), LAdd 3, LForeach, LContains ((=) 1), LFirst] ([], True)
     = Some (([3, 1], False), [([], False), ([], False), ([1], False), ([2], False), ([], False), ([3, 1], False), ([], True), ([3], False)])"
    by (simp add: keeps_tail_def seen_def)
  from list_refines_abstract [OF this] show ?thesis by blast
qed

subsection \<open>Losing the tail\<close>

text \<open>removing the first of several elements clears the tail pointer, so that \<open>list_last\<close>
  reports an empty list although elements remain.\<close>

theorem list_remove_head_loses_tail:
  assumes "lrep l as (x # y # ys)" "m x"
  shows "\<exists>l'. list_remove m l = Some (l', Some x) \<and> lrel l' (y # ys) \<and> list_last l' = Some None"
proof -
  from list_remove_rep [OF assms(1), of m] assms(2) obtain l' as' where
    l': "list_remove m l = Some (l', Some x)" "lrep l' as' (y # ys)" by auto
  have h: "head l = Some (hd as)" "\<exists>n. cells l (hd as) = Some n \<and> nd_value n = x"
    using lrep_path [OF assms(1)] by (auto simp: lpath_Cons_right)
  have "loop_fuel l = Suc (brk l)" by (simp add: loop_fuel_def)
  with h l'(1) assms(2) have "tail l' = None"
    by (auto simp: list_remove_def unlink_def)
  with l' show ?thesis by (auto simp: lrel_def list_last_def)
qed

theorem list_remove_head_loses_tail_witness:
  "\<exists>l'. list_remove (\<lambda>v. v = 2) (list_add (list_add list_new (1::nat)) 2) = Some (l', Some 2)
      \<and> lrel l' [1] \<and> list_last l' = Some None"
proof -
  have "lrep (list_add (list_add list_new (1::nat)) 2)
          [brk (list_add list_new (1::nat)), brk (list_new :: nat clist)] [2, 1]"
    by (intro list_add_rep list_new_rep)
  then show ?thesis by (rule list_remove_head_loses_tail) simp
qed

text \<open>after such a removal the tail pointer can be left on a freed node: with two further
  insertions and one removal, \<open>list_last\<close> reads freed memory.\<close>

theorem list_last_use_after_free:
  "\<exists>l outs. run_ops clist_step
         [LAdd (1::nat), LAdd 2, LRemove (\<lambda>v. v = 2), LAdd 3, LAdd 4, LRemove (\<lambda>v. v = 3)]
         list_new = Some (l, outs)
     \<and> lrel l [4, 1] \<and> list_last l = None"
proof -
  let ?qs = "[LAdd (1::nat), LAdd 2, LRemove (\<lambda>v. v = 2), LAdd 3, LAdd 4, LRemove (\<lambda>v. v = 3)]"
  have "run_ops abs_step ?qs ([], True) = Some (([4, 1], False), [([], False), ([], False), ([2], False), ([], False), ([], False), ([3], False)])"
    by (simp add: keeps_tail_def seen_def)
  from wl.run_from_new [OF this] obtain l outs where l: "run_ops clist_step ?qs list_new = Some (l, outs)" "lrel l [4, 1]"
    by (auto simp: ltail_def lrel_def)
  moreover have "\<exists>l outs. run_ops clist_step ?qs list_new = Some (l, outs) \<and> list_last l = None"
    by (simp add: clist_step_def list_add_def list_new_def list_remove_def loop_fuel_def
          unlink_def list_last_def Let_def numeral_eq_Suc)
  ultimately show ?thesis by auto
qed

subsection \<open>The completion generator\<close>

lemma rl_loop_find:
  "lpath (cells l) (rl_curr l) as xs \<Longrightarrow> length as < k \<Longrightarrow>
     (case dropWhile (\<lambda>v. \<not> m v (rl_len l)) xs of
        [] \<Rightarrow> rl_loop k m l = Some (l\<lparr>rl_curr := None\<rparr>, None)
      | v # rest \<Rightarrow> \<exists>cur bs. rl_loop k m l = Some (l\<lparr>rl_curr := cur\<rparr>, Some v)
                    \<and> lpath (cells l) cur bs rest \<and> length bs < k)"
proof (induction xs arbitrary: k l as)
  case Nil
  then show ?case by (cases k) auto
next
  case (Cons x xs)
  then obtain a bs nx k' where a: "as = a # bs" "rl_curr l = Some a"
    "cells l a = Some \<lparr>nd_value = x, nd_next = nx\<rparr>" "lpath (cells l) nx bs xs" "k = Suc k'"
    by (cases k) (auto simp: lpath_Cons_right)
  show ?case
  proof (cases "m x (rl_len l)")
    case True
    with a have "rl_loop k m l = Some (l\<lparr>rl_curr := nx\<rparr>, Some x)" by (simp add: Let_def)
    moreover have "length bs < k" using a Cons.prems(2) by simp
    ultimately show ?thesis using True a(4) by auto
  next
    case False
    have step: "rl_loop k m l = rl_loop k' m (l\<lparr>rl_curr := nx\<rparr>)" using a False by (simp add: Let_def)
    have lt: "length bs < k'" using a Cons.prems(2) by simp
    have "case dropWhile (\<lambda>v. \<not> m v (rl_len l)) xs of
        [] \<Rightarrow> rl_loop k' m (l\<lparr>rl_curr := nx\<rparr>) = Some (l\<lparr>rl_curr := None\<rparr>, None)
      | v # rest \<Rightarrow> \<exists>cur bs. rl_loop k' m (l\<lparr>rl_curr := nx\<rparr>) = Some (l\<lparr>rl_curr := cur\<rparr>, Some v)
                    \<and> lpath (cells l) cur bs rest \<and> length bs < k'"
      using Cons.IH [of "l\<lparr>rl_curr := nx\<rparr>" bs k'] a(4) lt
      by (cases "dropWhile (\<lambda>v. \<not> m v (rl_len l)) xs") (simp_all del: dropWhile_eq_Nil_conv)
    then show ?thesis
      using False a(5) step
      by (cases "dropWhile (\<lambda>v. \<not> m v (rl_len l)) xs")
         (simp_all del: dropWhile_eq_Nil_conv rl_loop.simps, auto intro: less_SucI)
  qed
qed

text \<open>Asking the generator for completions until it answers NULL, as readline does.\<close>

fun rl_collect ::
  "nat \<Rightarrow> ('v \<Rightarrow> string \<Rightarrow> nat \<Rightarrow> bool) \<Rightarrow> ('v \<Rightarrow> string) \<Rightarrow> string \<Rightarrow> bool \<Rightarrow> 'v clist \<Rightarrow> string list crash" where
  "rl_collect 0 mt cp txt st l = None"
| "rl_collect (Suc n) mt cp txt st l =
     (case list_rl_generator mt cp txt st l of
        None \<Rightarrow> None
      | Some (l', None) \<Rightarrow> Some []
      | Some (l', Some s) \<Rightarrow> map_option ((#) s) (rl_collect n mt cp txt True l'))"

lemma filter_dropWhile: "filter P xs = (case dropWhile (\<lambda>v. \<not> P v) xs of [] \<Rightarrow> [] | v # r \<Rightarrow> v # filter P r)"
  by (induction xs) auto

lemma rl_collect_cursor:
  "lpath (cells l) (rl_curr l) as xs \<Longrightarrow> length as < loop_fuel l \<Longrightarrow> length xs < n \<Longrightarrow> rl_len l = length txt \<Longrightarrow>
     rl_collect n mt cp txt True l = Some (map cp (filter (\<lambda>v. mt v txt (length txt)) xs))"
proof (induction n arbitrary: l as xs)
  case 0
  then show ?case by simp
next
  case (Suc n)
  note r = rl_loop_find [OF Suc.prems(1,2), of "\<lambda>v. mt v txt"]
  let ?P = "\<lambda>v. mt v txt (length txt)"
  show ?case
  proof (cases "dropWhile (\<lambda>v. \<not> ?P v) xs")
    case Nil
    then have "filter ?P xs = []" using filter_dropWhile [of ?P xs] by simp
    moreover have "rl_loop (loop_fuel l) (\<lambda>v. mt v txt) l = Some (l\<lparr>rl_curr := None\<rparr>, None)"
      using r unfolding Suc.prems(4) Nil by simp
    ultimately show ?thesis by (simp add: list_rl_generator_def Let_def)
  next
    case (Cons v rest)
    with r Suc.prems(4) obtain cur bs where g:
      "rl_loop (loop_fuel l) (\<lambda>v. mt v txt) l = Some (l\<lparr>rl_curr := cur\<rparr>, Some v)"
      "lpath (cells l) cur bs rest" "length bs < loop_fuel l" by auto
    have "length rest < n" using Cons Suc.prems(3) length_dropWhile_le [of "\<lambda>v. \<not> ?P v" xs] by simp
    with Suc.IH [of "l\<lparr>rl_curr := cur\<rparr>" bs rest] g Suc.prems(4)
    have "rl_collect n mt cp txt True (l\<lparr>rl_curr := cur\<rparr>) = Some (map cp (filter ?P rest))"
      by (simp add: loop_fuel_def)
    moreover have "filter ?P xs = v # filter ?P rest"
      using Cons filter_dropWhile [of ?P xs] by simp
    ultimately show ?thesis using g(1) by (simp add: list_rl_generator_def Let_def)
  qed
qed

text \<open>the completion generator yields a copy of every matching element, in list order, and
  then NULL.\<close>

theorem rl_generator_complete:
  assumes "lrep l as xs"
  shows "rl_collect (Suc (length xs)) mt cp txt False l
           = Some (map cp (filter (\<lambda>v. mt v txt (length txt)) xs))"
proof -
  let ?l = "l\<lparr>rl_curr := head l, rl_len := length txt\<rparr>"
  have same: "list_rl_generator mt cp txt False l = list_rl_generator mt cp txt True ?l"
    by (simp add: list_rl_generator_def Let_def loop_fuel_def)
  have "rl_collect (Suc (length xs)) mt cp txt True ?l
          = Some (map cp (filter (\<lambda>v. mt v txt (length txt)) xs))"
    by (rule rl_collect_cursor [of _ as])
       (use lrep_path [OF assms] lrep_fuel [OF assms] in \<open>simp_all add: loop_fuel_def\<close>)
  then show ?thesis using same by simp
qed

theorem rl_generator_complete_witness:
  "rl_collect (Suc (length [''ab'', ''b'', ''aa''])) (\<lambda>v t n. take n v = t) id ''a'' False
     (list_add (list_add (list_add list_new ''aa'') ''b'') ''ab'')
   = Some (map id (filter (\<lambda>v. take (length ''a'') v = ''a'') [''ab'', ''b'', ''aa'']))"
  by (rule rl_generator_complete [OF list_add_rep [OF list_add_rep [OF list_add_rep [OF list_new_rep]]]])

end
