(* ===== verification/Attributes.thy ===== *)
theory Attributes
  imports GetInfo
begin

text \<open>
  How the scanners of \<open>src/tools/get_info.c\<close> read the attributes of an element.  The handlers
  never parse XML: they search for a name followed by an opening quote, so that an attribute is found
  by any name that ends with the one asked for, in document order.  \<open>render_attrs\<close> is the text
  the server writes; the lemmas compute every lookup in it.
\<close>

subsection \<open>Attribute lists\<close>

definition render_attr :: "cstring \<times> cstring \<Rightarrow> cstring" where
  "render_attr kv = '' '' @ fst kv @ ''='' @ [apos] @ snd kv @ [apos]"

definition render_attrs :: "(cstring \<times> cstring) list \<Rightarrow> cstring" where
  "render_attrs kvs = concat (map render_attr kvs)"

lemma render_attrs_simps [simp]:
  "render_attrs [] = []" "render_attrs (kv # kvs) = render_attr kv @ render_attrs kvs"
  by (simp_all add: render_attrs_def)

definition attr_ok :: "cstring \<times> cstring \<Rightarrow> bool" where
  "attr_ok kv \<longleftrightarrow> apos \<notin> set (fst kv) \<and> CHR ''='' \<notin> set (fst kv) \<and> apos \<notin> set (snd kv)
     \<and> (snd kv = [] \<or> last (snd kv) \<noteq> CHR ''='')"

definition name_ok :: "cstring \<Rightarrow> bool" where
  "name_ok n \<longleftrightarrow> apos \<notin> set n \<and> CHR ''='' \<notin> set n"

text \<open>The name asked for is a suffix of the attribute's name (with the blank before it).\<close>

definition attr_hit :: "cstring \<Rightarrow> cstring \<times> cstring \<Rightarrow> bool" where
  "attr_hit n kv \<longleftrightarrow> starts_with (rev (fst kv) @ '' '') (rev n)"

lemma attr_hit_iff: "attr_hit n kv \<longleftrightarrow> (\<exists>y. '' '' @ fst kv = y @ n)"
proof -
  have "(\<exists>r. rev (fst kv) @ '' '' = rev n @ r) \<longleftrightarrow> (\<exists>r. rev (rev (fst kv) @ '' '') = rev (rev n @ rev r))"
    by (metis rev_rev_ident)
  also have "\<dots> \<longleftrightarrow> (\<exists>y. '' '' @ fst kv = y @ n)" by simp
  finally show ?thesis by (simp add: attr_hit_def starts_with_iff)
qed

lemma match_nth: "starts_with (drop k s) p \<Longrightarrow> i < length p \<Longrightarrow> k \<le> length s \<Longrightarrow> s ! (k + i) = p ! i"
  by (auto simp: starts_with_iff nth_append nth_drop [symmetric] simp del: nth_drop)

lemma strstr_attr_hit:
  assumes "attr_ok kv" "name_ok n" "attr_hit n kv"
  shows "strstr (render_attr kv @ r) (n @ ''='' @ [apos]) = Some ((n @ ''='' @ [apos]) @ snd kv @ apos # r)"
proof -
  obtain y where y: "'' '' @ fst kv = y @ n" using assms(3) by (auto simp: attr_hit_iff)
  let ?p = "n @ CHR ''='' # [apos]"
  have eqs: "CHR ''='' \<notin> set (y @ n)" using assms(1) unfolding y [symmetric] by (auto simp: attr_ok_def)
  have "\<forall>k < length y. \<not> starts_with (drop k (y @ ?p @ snd kv @ apos # r)) ?p"
  proof (intro allI impI notI)
    fix k
    assume k: "k < length y" and "starts_with (drop k (y @ ?p @ snd kv @ apos # r)) ?p"
    then have "starts_with (drop k ((y @ n) @ CHR ''='' # apos # snd kv @ apos # r)) ?p" by simp
    from match_reaches [OF this eqs] k show False by simp
  qed
  from strstr_first [OF this]
  have "strstr (y @ ?p @ snd kv @ apos # r) ?p = Some (?p @ snd kv @ apos # r)" .
  moreover have "render_attr kv @ r = y @ ?p @ snd kv @ apos # r"
    using y by (simp add: render_attr_def)
  ultimately show ?thesis by simp
qed

lemma strstr_attr_miss:
  assumes "attr_ok kv" "name_ok n" "\<not> attr_hit n kv"
  shows "strstr (render_attr kv @ r) (n @ ''='' @ [apos]) = strstr r (n @ ''='' @ [apos])"
proof (rule strstr_skip, intro allI impI notI)
  fix k
  define X where "X = CHR '' '' # fst kv"
  define v where "v = snd kv"
  define s where "s = X @ CHR ''='' # apos # v @ apos # r"
  let ?p = "n @ ''='' @ [apos]"
  assume k: "k < length (render_attr kv)" and m: "starts_with (drop k (render_attr kv @ r)) ?p"
  have s: "render_attr kv @ r = s" by (simp add: render_attr_def s_def X_def v_def)
  have k': "k < length X + length v + 3" using k by (simp add: render_attr_def X_def v_def)
  have ks: "k \<le> length s" using k' by (simp add: s_def)
  have at: "s ! (k + i) = ?p ! i" if "i < length ?p" for i using match_nth [OF m [unfolded s] that ks] .
  have x: "apos \<notin> set X" "CHR ''='' \<notin> set X" "apos \<notin> set v" "v = [] \<or> last v \<noteq> CHR ''=''"
    using assms(1) by (auto simp: attr_ok_def X_def v_def)
  have inX: "s ! i \<noteq> CHR ''='' \<and> s ! i \<noteq> apos" if "i < length X" for i
  proof -
    have "s ! i = X ! i" using that by (simp add: s_def nth_append)
    with x(1,2) nth_mem [OF that] show ?thesis by (cases "X ! i = apos") auto
  qed
  have eqpos: "s ! length X = CHR ''=''" by (simp add: s_def)
  have inv: "s ! i \<noteq> apos" if "length X + 2 \<le> i" "i < length X + 2 + length v" for i
  proof -
    have "s ! i = v ! (i - length X - 2)" using that by (auto simp: s_def nth_append nth_Cons')
    moreover have "v ! (i - length X - 2) \<in> set v" using that by (intro nth_mem) auto
    ultimately show ?thesis using x(3) by auto
  qed
  have closing: "s ! (length X + 2 + length v) = apos" by (simp add: s_def nth_append nth_Cons')
  have before: "s ! (length X + 1 + length v) \<noteq> CHR ''=''"
  proof (cases "v = []")
    case True
    then show ?thesis by (simp add: s_def nth_append)
  next
    case False
    then have "s ! (length X + 1 + length v) = last v" by (auto simp: s_def nth_append nth_Cons' last_conv_nth)
    with x(4) False show ?thesis by simp
  qed
  have pn: "?p ! i \<noteq> CHR ''='' \<and> ?p ! i \<noteq> apos" if "i < length n" for i
  proof -
    have "?p ! i = n ! i" using that by (simp add: nth_append)
    with assms(2) nth_mem [OF that] show ?thesis by (cases "n ! i = apos") (auto simp: name_ok_def)
  qed
  define e where "e = k + length n"
  have se: "s ! e = CHR ''=''" "s ! (e + 1) = apos"
    using at [of "length n"] at [of "Suc (length n)"] by (simp_all add: e_def nth_append)
  consider "e + 1 < length X" | "e + 1 = length X" | "e = length X" | "length X + 2 \<le> e + 1" "e + 1 < length X + 2 + length v"
    | "e + 1 = length X + 2 + length v" | "e = length X + 2 + length v" | "length X + 2 + length v < e" by linarith
  then show False
  proof cases
    case 3
    have kx: "k \<le> length X" using 3 by (simp add: e_def)
    have "drop k X = n"
    proof (rule nth_equalityI)
      show "length (drop k X) = length n" using 3 kx by (simp add: e_def)
      fix i
      assume "i < length (drop k X)"
      then have i: "k + i < length X" "i < length n" using 3 kx by (auto simp: e_def)
      have "s ! (k + i) = n ! i" using at [of i] i(2) by (simp add: nth_append)
      then show "drop k X ! i = n ! i" using i(1) kx by (simp add: s_def nth_append)
    qed
    then have "X = take k X @ n" by (metis append_take_drop_id)
    then have "attr_hit n kv" unfolding attr_hit_iff X_def by (metis append_Cons append_Nil)
    with assms(3) show False by simp
  next
    case 7
    define i where "i = length X + 2 + length v - k"
    have "i < length n" "k + i = length X + 2 + length v" using 7 k' by (auto simp: i_def e_def)
    with at [of i] pn [of i] closing show False by simp
  qed (use se inX [of e] inX [of "e + 1"] inv [of "e + 1"] before closing eqpos in auto)
qed

subsection \<open>Lookups\<close>

definition lookup_attr :: "cstring \<Rightarrow> (cstring \<times> cstring) list \<Rightarrow> cptr" where
  "lookup_attr n kvs = map_option snd (find (attr_hit n) kvs)"

lemma lookup_attr_simps [simp]:
  "lookup_attr n [] = None"
  "lookup_attr n (kv # kvs) = (if attr_hit n kv then Some (snd kv) else lookup_attr n kvs)"
  by (simp_all add: lookup_attr_def)

lemma strstr_attrs:
  assumes "list_all attr_ok kvs" "name_ok n"
  shows "strstr (render_attrs kvs @ r) (n @ ''='' @ [apos])
    = (case lookup_attr n kvs of
         None \<Rightarrow> strstr r (n @ ''='' @ [apos])
       | Some v \<Rightarrow> Some ((n @ ''='' @ [apos]) @ v @ apos #
            render_attrs (tl (dropWhile (\<lambda>kv. \<not> attr_hit n kv) kvs)) @ r))"
  using assms(1)
proof (induction kvs)
  case Nil
  then show ?case by simp
next
  case (Cons kv kvs)
  show ?case
  proof (cases "attr_hit n kv")
    case True
    with strstr_attr_hit [OF _ assms(2) True, of "render_attrs kvs @ r"] Cons.prems show ?thesis by simp
  next
    case False
    with strstr_attr_miss [OF _ assms(2) False, of "render_attrs kvs @ r"] Cons show ?thesis
      by (simp split: option.split)
  qed
qed

lemma lookup_value_ok: "list_all attr_ok kvs \<Longrightarrow> lookup_attr n kvs = Some v \<Longrightarrow> apos \<notin> set v"
  by (induction kvs) (auto simp: attr_ok_def split: if_splits)

lemma get_attr:
  assumes "list_all attr_ok kvs" "name_ok n" "lookup_attr n kvs = Some v"
  shows "get_info (render_attrs kvs @ r) (n @ ''='' @ [apos]) [apos] = Some v"
  using strstr_attrs [OF assms(1,2), of r] assms(3) lookup_value_ok [OF assms(1,3)]
  by (intro get_info_quoted) simp_all

lemma get_attr_absent:
  assumes "list_all attr_ok kvs" "name_ok n" "lookup_attr n kvs = None"
  shows "get_info (render_attrs kvs @ r) (n @ ''='' @ [apos]) e = get_info r (n @ ''='' @ [apos]) e"
  using strstr_attrs [OF assms(1,2), of r] assms(3) by (simp add: get_info_def)

lemma get_attr_int:
  assumes "list_all attr_ok kvs" "name_ok n" "lookup_attr n kvs = Some (int_dec i)"
    "- (2 ^ 63) \<le> i" "i < 2 ^ 63"
  shows "get_info_int (render_attrs kvs @ r) (n @ ''='' @ [apos]) [apos] = i"
  using strstr_attrs [OF assms(1,2), of r] assms(3-5)
  by (intro get_info_int_printed) simp_all

lemma attr_ok_int: "apos \<notin> set k \<Longrightarrow> CHR ''='' \<notin> set k \<Longrightarrow> attr_ok (k, int_dec i)"
proof -
  assume k: "apos \<notin> set k" "CHR ''='' \<notin> set k"
  have "c \<noteq> CHR ''='' \<and> c \<noteq> apos" if "c \<in> set (int_dec i)" for c
    using int_dec_chars [OF that] by (auto simp: isdigit_def)
  with k show ?thesis by (cases "int_dec i = []") (auto simp: attr_ok_def)
qed

text \<open>in a list of attributes the scanner finds the first one whose name ends with the name asked for,
  and nothing when there is none.\<close>

theorem get_info_attribute:
  assumes "list_all attr_ok kvs" "name_ok n" "apos \<notin> set r"
  shows "get_info (render_attrs kvs @ r) (n @ ''='' @ [apos]) [apos] = lookup_attr n kvs"
proof (cases "lookup_attr n kvs")
  case None
  have "strstr r (n @ ''='' @ [apos]) = None" using assms(3) by (auto simp: strstr_none_iff)
  with get_attr_absent [OF assms(1,2) None, of r "[apos]"] None show ?thesis by (simp add: get_info_def)
next
  case (Some v)
  with get_attr [OF assms(1,2) Some] show ?thesis by simp
qed

theorem get_info_attribute_witness:
  "get_info ('' mode_name='' @ [apos] @ ''pve'' @ [apos] @ '' name='' @ [apos] @ ''m1'' @ [apos] @ ''/>'') (''name='' @ [apos]) [apos]
     = Some ''pve''"
proof -
  have "lookup_attr ''name'' [(''mode_name'', ''pve''), (''name'', ''m1'')] = Some ''pve''" by (simp add: attr_hit_def)
  moreover have "get_info (render_attrs [(''mode_name'', ''pve''), (''name'', ''m1'')] @ ''/>'') (''name'' @ ''='' @ [apos]) [apos]
      = lookup_attr ''name'' [(''mode_name'', ''pve''), (''name'', ''m1'')]"
    by (rule get_info_attribute) (simp_all add: attr_ok_def name_ok_def)
  ultimately show ?thesis by (simp add: render_attr_def)
qed

end
