(* ===== verification/XmlSerializer.thy ===== *)
theory XmlSerializer
  imports CString
begin

text \<open>
  \<open>src/xml/serializer.c\<close>: escaping and unescaping of the five XML special characters.

  The buffers are character lists with an explicit terminating NUL, written by index: the
  serializer computes the exact output size first and then fills the buffer from the back, in
  place (source and destination are the same memory after \<open>realloc\<close>) or into a fresh one; the
  deserializer runs forward, again possibly in place.  An access outside a buffer is a crash
  (\<open>None\<close>).  The contents of fresh memory are a parameter \<open>junk\<close>.

  \<open>escape\<close> and \<open>unescape\<close> are the specifications: character-wise replacement.  The
  refinement theorems say that both buffer algorithms compute them in either mode without leaving
  the buffer, and the round trip that unescaping undoes escaping.
\<close>

subsection \<open>Serializing\<close>

definition count_char :: "char \<Rightarrow> cstring \<Rightarrow> nat" where
  "count_char c s = length (filter (\<lambda>x. x = c) s)"

definition out_size :: "cstring \<Rightarrow> nat" where
  "out_size s = length s + 4 * count_char CHR ''&'' s + 3 * count_char CHR ''<'' s
     + 3 * count_char CHR ''>'' s + 5 * count_char CHR 0x27 s + 5 * count_char CHR 0x22 s"

text \<open>The characters of one \<open>switch\<close> branch, in the order of the writes (last one first).\<close>

definition switch_writes :: "char \<Rightarrow> char list" where
  "switch_writes c =
     (if c = CHR ''&'' then '';pma&''
      else if c = CHR ''<'' then '';tl&''
      else if c = CHR ''>'' then '';tg&''
      else if c = CHR 0x27 then '';sopa&''
      else if c = CHR 0x22 then '';touq&''
      else [c])"

text \<open>\<open>*(o--) = c\<close> for each character; \<open>o\<close> is the number of slots at and below the pointer.\<close>

fun write_back :: "char list \<Rightarrow> nat \<Rightarrow> char list \<Rightarrow> (char list \<times> nat) crash" where
  "write_back out p [] = Some (out, p)"
| "write_back out p (c # cs) =
     (if p = 0 \<or> length out < p then None else write_back (out[p - 1 := c]) (p - 1) cs)"

fun fill_loop :: "bool \<Rightarrow> char list \<Rightarrow> char list \<Rightarrow> nat \<Rightarrow> nat \<Rightarrow> char list crash" where
  "fill_loop ip src out 0 p = Some out"
| "fill_loop ip src out (Suc i) p =
     (let b = (if ip then out else src) in
      if length b \<le> i then None
      else (case write_back out p (switch_writes (b ! i)) of
              None \<Rightarrow> None
            | Some (out', p') \<Rightarrow> fill_loop ip src out' i p'))"

definition fresh_buffer :: "(nat \<Rightarrow> char) \<Rightarrow> nat \<Rightarrow> char list" where
  "fresh_buffer junk n = map junk [0..<n]"

definition realloc :: "(nat \<Rightarrow> char) \<Rightarrow> char list \<Rightarrow> nat \<Rightarrow> char list" where
  "realloc junk b n = take n b @ map junk [length b..<n]"

definition xml_serialize_buf :: "(nat \<Rightarrow> char) \<Rightarrow> cstring \<Rightarrow> bool \<Rightarrow> char list crash" where
  "xml_serialize_buf junk str ip =
     (let in_size = length str;
          os = out_size str;
          out = (if ip then realloc junk (str @ [NUL]) (os + 1) else fresh_buffer junk (os + 1));
          out' = out[os := NUL]
      in fill_loop ip (str @ [NUL]) out' in_size os)"

definition xml_serialize :: "(nat \<Rightarrow> char) \<Rightarrow> cstring \<Rightarrow> cstring crash" where
  "xml_serialize junk str = map_option c_str (xml_serialize_buf junk str False)"

definition xml_serialize_inplace :: "(nat \<Rightarrow> char) \<Rightarrow> cstring \<Rightarrow> cstring crash" where
  "xml_serialize_inplace junk str = map_option c_str (xml_serialize_buf junk str True)"

subsection \<open>Deserializing\<close>

text \<open>One round of the loop at pointer \<open>s\<close>: the character written and the advance of \<open>s\<close>.\<close>

definition switch_read :: "cstring \<Rightarrow> char \<times> nat" where
  "switch_read s =
     (if hd s = CHR ''&'' then
        if starts_with s ''&amp;'' then (CHR ''&'', 5)
        else if starts_with s ''&lt;'' then (CHR ''<'', 4)
        else if starts_with s ''&gt;'' then (CHR ''>'', 4)
        else if starts_with s ''&apos;'' then (CHR 0x27, 6)
        else if starts_with s ''&quot;'' then (CHR 0x22, 6)
        else (hd s, 1)
      else (hd s, 1))"

lemma switch_read_advance: "0 < snd (switch_read s)"
  by (simp add: switch_read_def)

function deser_loop ::
  "bool \<Rightarrow> char list \<Rightarrow> char list \<Rightarrow> nat \<Rightarrow> nat \<Rightarrow> (char list \<times> nat) crash" where
  "deser_loop ip src out s p =
     (let b = (if ip then out else src) in
      if length b \<le> s then None
      else if b ! s = NUL then Some (out, p)
      else if length out \<le> p then None
      else deser_loop ip src (out[p := fst (switch_read (drop s b))])
             (s + snd (switch_read (drop s b))) (p + 1))"
  by pat_completeness auto
termination
proof (relation "measure (\<lambda>(ip, src, out, s, p). (if ip then length out else length src) - s)", goal_cases)
  case 1
  then show ?case by simp
next
  case (2 ip src out s p b)
  then show ?case using switch_read_advance [of "drop s b"] by (cases ip) auto
qed

declare deser_loop.simps [simp del]

definition xml_deserialize_buf :: "(nat \<Rightarrow> char) \<Rightarrow> cstring \<Rightarrow> bool \<Rightarrow> char list crash" where
  "xml_deserialize_buf junk str ip =
     (let b = str @ [NUL];
          out = (if ip then b else fresh_buffer junk (length str + 1))
      in case deser_loop ip b out 0 0 of
           None \<Rightarrow> None
         | Some (out', p) \<Rightarrow>
             if length out' \<le> p then None
             else let out'' = out'[p := NUL] in
                  Some (if ip then realloc junk out'' (p + 1) else out''))"

definition xml_deserialize :: "(nat \<Rightarrow> char) \<Rightarrow> cstring \<Rightarrow> cstring crash" where
  "xml_deserialize junk str = map_option c_str (xml_deserialize_buf junk str False)"

definition xml_deserialize_inplace :: "(nat \<Rightarrow> char) \<Rightarrow> cstring \<Rightarrow> cstring crash" where
  "xml_deserialize_inplace junk str = map_option c_str (xml_deserialize_buf junk str True)"

subsection \<open>Specification\<close>

definition escape_char :: "char \<Rightarrow> cstring" where
  "escape_char c =
     (if c = CHR ''&'' then ''&amp;''
      else if c = CHR ''<'' then ''&lt;''
      else if c = CHR ''>'' then ''&gt;''
      else if c = CHR 0x27 then ''&apos;''
      else if c = CHR 0x22 then ''&quot;''
      else [c])"

definition escape :: "cstring \<Rightarrow> cstring" where
  "escape s = concat (map escape_char s)"

function unescape :: "cstring \<Rightarrow> cstring" where
  "unescape s = (if s = [] then [] else fst (switch_read s) # unescape (drop (snd (switch_read s)) s))"
  by pat_completeness auto
termination
  by (relation "measure length") (use switch_read_advance in auto)

declare unescape.simps [simp del]

lemma unescape_Nil [simp]: "unescape [] = []"
  by (simp add: unescape.simps)

lemma escape_simps [simp]: "escape [] = []" "escape (c # s) = escape_char c @ escape s"
  by (simp_all add: escape_def)

lemma escape_append: "escape (s @ t) = escape s @ escape t"
  by (simp add: escape_def)

lemma switch_writes_rev: "switch_writes c = rev (escape_char c)"
  by (simp add: switch_writes_def escape_char_def)

lemma count_char_simps [simp]:
  "count_char x [] = 0" "count_char x (c # s) = (if c = x then 1 else 0) + count_char x s"
  by (simp_all add: count_char_def)

lemma out_size_escape: "out_size s = length (escape s)"
  by (induction s) (auto simp: out_size_def escape_char_def)

lemma escape_no_special:
  "c \<in> set (escape s) \<Longrightarrow> c \<noteq> CHR ''<'' \<and> c \<noteq> CHR ''>'' \<and> c \<noteq> CHR 0x27 \<and> c \<noteq> CHR 0x22"
  by (induction s) (auto simp: escape_char_def split: if_splits)

lemma escape_no_NUL: "NUL \<notin> set s \<Longrightarrow> NUL \<notin> set (escape s)"
  by (induction s) (auto simp: escape_char_def split: if_splits)

lemma unescape_escape_char: "unescape (escape_char c @ s) = c # unescape s"
  by (subst unescape.simps) (simp add: escape_char_def switch_read_def)

lemma unescape_escape: "unescape (escape s) = s"
  by (induction s) (simp_all add: unescape_escape_char)

subsection \<open>The serializer computes the specification\<close>

lemma write_back_ok:
  "length ws \<le> p \<Longrightarrow> p \<le> length out \<Longrightarrow>
     write_back out p ws = Some (take (p - length ws) out @ rev ws @ drop p out, p - length ws)"
proof (induction out p ws rule: write_back.induct)
  case (1 out p)
  then show ?case by simp
next
  case (2 out p c cs)
  then have "p - 1 < length out" "0 < p" by auto
  moreover have "drop (p - 1) (out[p - 1 := c]) = c # drop p out"
    using calculation by (simp add: drop_update_swap Cons_nth_drop_Suc [symmetric])
  ultimately show ?case using 2 by simp
qed

lemma fill_loop_ok:
  assumes "i \<le> length str" "length (escape (take i str)) = p" "p \<le> length out"
    "ip \<Longrightarrow> take i out = take i str" "\<not> ip \<Longrightarrow> src = str @ [NUL]"
  shows "fill_loop ip src out i p = Some (escape (take i str) @ drop p out)"
  using assms
proof (induction i arbitrary: out p)
  case 0
  then show ?case by simp
next
  case (Suc i)
  let ?c = "str ! i" and ?b = "if ip then out else src"
  have tk: "take (Suc i) str = take i str @ [?c]" using Suc.prems(1) by (simp add: take_Suc_conv_app_nth)
  let ?n = "length (escape_char ?c)"
  have p: "p = length (escape (take i str)) + ?n" using Suc.prems(2) tk by (simp add: escape_append)
  have il: "i \<le> length (escape (take i str))" using out_size_escape [of "take i str"] Suc.prems(1)
    by (simp add: out_size_def)
  have n1: "1 \<le> ?n" by (simp add: escape_char_def)
  have "i < p" using p il n1 by simp
  then have lb: "i < length ?b" using Suc.prems by (cases ip) auto
  have bi: "?b ! i = ?c"
  proof (cases ip)
    case True
    then have "take (Suc i) out ! i = take (Suc i) str ! i" using Suc.prems(4) by simp
    then show ?thesis using True by simp
  next
    case False
    then show ?thesis using Suc.prems(1,5) by (simp add: nth_append)
  qed
  let ?out = "take (p - ?n) out @ escape_char ?c @ drop p out"
  have wb: "write_back out p (switch_writes ?c) = Some (?out, p - ?n)"
    using write_back_ok [of "switch_writes ?c" p out] p Suc.prems(3) by (simp add: switch_writes_rev)
  have step: "fill_loop ip src out (Suc i) p = fill_loop ip src ?out i (p - ?n)"
    using lb bi wb by (simp add: Let_def)
  have pn: "p - ?n = length (escape (take i str))" using p by simp
  have "fill_loop ip src ?out i (p - ?n) = Some (escape (take i str) @ drop (p - ?n) ?out)"
  proof (rule Suc.IH)
    show "i \<le> length str" using Suc.prems(1) by simp
    show "length (escape (take i str)) = p - ?n" using pn by simp
    show "p - ?n \<le> length ?out" using Suc.prems(3) by simp
    show "take i ?out = take i str" if ip
    proof -
      have "take i (take (Suc i) out) = take i (take (Suc i) str)" using Suc.prems(4) that by simp
      then have "take i out = take i str" by simp
      moreover have "take i ?out = take i out" using il pn Suc.prems(3) by simp
      ultimately show ?thesis by simp
    qed
    show "src = str @ [NUL]" if "\<not> ip" using Suc.prems(5) that by simp
  qed
  moreover have "drop (p - ?n) ?out = escape_char ?c @ drop p out" using Suc.prems(3) by simp
  ultimately show ?case using step tk by (simp add: escape_append)
qed

lemma xml_serialize_buf_eq: "xml_serialize_buf junk str ip = Some (escape str @ [NUL])"
proof -
  let ?os = "out_size str"
  let ?out = "if ip then realloc junk (str @ [NUL]) (?os + 1) else fresh_buffer junk (?os + 1)"
  have le: "length str \<le> ?os" by (simp add: out_size_def)
  then have len: "length ?out = ?os + 1" by (simp add: realloc_def fresh_buffer_def)
  have "fill_loop ip (str @ [NUL]) (?out[?os := NUL]) (length str) ?os
          = Some (escape (take (length str) str) @ drop ?os (?out[?os := NUL]))"
  proof (rule fill_loop_ok)
    show "length (escape (take (length str) str)) = ?os" by (simp add: out_size_escape)
    show "?os \<le> length (?out[?os := NUL])" using len by simp
    show "take (length str) (?out[?os := NUL]) = take (length str) str" if ip
      using that le by (simp add: realloc_def)
  qed simp_all
  moreover have "drop ?os (?out[?os := NUL]) = [NUL]"
  proof -
    have "drop ?os (?out[?os := NUL]) = (drop ?os ?out)[0 := NUL]" by (simp add: drop_update_swap)
    moreover have "length (drop ?os ?out) = 1" using len by simp
    ultimately show ?thesis by (cases "drop ?os ?out") auto
  qed
  ultimately show ?thesis by (simp add: xml_serialize_buf_def Let_def)
qed

subsection \<open>The deserializer computes the specification\<close>

text \<open>The pattern tests do not see past the end of the string.\<close>

lemma starts_with_snoc_NUL: "NUL \<notin> set p \<Longrightarrow> starts_with (s @ NUL # r) p = starts_with s p"
proof (induction s p rule: starts_with.induct)
  case (2 p ps)
  then show ?case by auto
qed auto

lemma switch_read_NUL: "s \<noteq> [] \<Longrightarrow> switch_read (s @ NUL # r) = switch_read s"
  by (simp add: switch_read_def starts_with_snoc_NUL)

lemma switch_read_le: "s \<noteq> [] \<Longrightarrow> snd (switch_read s) \<le> length s"
  by (auto simp: switch_read_def starts_with_iff Suc_leI)

lemma unescape_length: "length (unescape s) \<le> length s"
proof (induction s rule: unescape.induct)
  case (1 s)
  show ?case
  proof (cases "s = []")
    case False
    then show ?thesis using 1 switch_read_advance [of s] switch_read_le [of s]
      by (subst unescape.simps) auto
  qed simp
qed

text \<open>
  The loop invariant: the unread rest \<open>t\<close> of the source is still intact at \<open>s\<close>, and the write
  position has not overtaken the read position.
\<close>

lemma deser_loop_ok:
  assumes "NUL \<notin> set t" "drop s (if ip then out else src) = t @ [NUL]" "p \<le> s" "p + length t < length out"
  shows "\<exists>rest. deser_loop ip src out s p = Some (take p out @ unescape t @ rest, p + length (unescape t))
           \<and> length rest = length out - (p + length (unescape t))"
  using assms
proof (induction ip src out s p arbitrary: t rule: deser_loop.induct)
  case (1 ip src out s p)
  let ?b = "if ip then out else src"
  have sl: "s < length ?b" using "1.prems"(2) by (metis append_is_Nil_conv drop_all not_Cons_self2 not_le)
  have bs: "?b ! s = hd (t @ [NUL])" using "1.prems"(2) sl hd_drop_conv_nth by metis
  show ?case
  proof (cases "t = []")
    case True
    then have "deser_loop ip src out s p = Some (out, p)"
      using sl bs by (subst deser_loop.simps) (simp add: Let_def)
    moreover have "out = take p out @ drop p out" by simp
    ultimately show ?thesis using True by (intro exI [of _ "drop p out"]) simp
  next
    case False
    let ?c = "fst (switch_read t)" and ?k = "snd (switch_read t)"
    have nz: "?b ! s \<noteq> NUL" using bs False "1.prems"(1) by (cases t) auto
    have sr: "switch_read (drop s ?b) = switch_read t"
      using "1.prems"(2) switch_read_NUL [OF False, of "[]"] by simp
    have pl: "p < length out" using "1.prems"(4) by simp
    let ?out = "out[p := ?c]"
    have step: "deser_loop ip src out s p = deser_loop ip src ?out (s + ?k) (p + 1)"
      using sl nz sr pl by (subst deser_loop.simps) (simp add: Let_def)
    have k: "0 < ?k" "?k \<le> length t" using switch_read_advance switch_read_le [OF False] by auto
    have "drop (s + ?k) (if ip then ?out else src) = drop ?k (drop s ?b)"
      using "1.prems"(3) k by (simp add: add.commute)
    then have d: "drop (s + ?k) (if ip then ?out else src) = drop ?k t @ [NUL]"
      using "1.prems"(2) k by simp
    have IH: "\<exists>rest. deser_loop ip src (out[p := fst (switch_read (drop s ?b))])
           (s + snd (switch_read (drop s ?b))) (p + 1)
         = Some (take (p + 1) (out[p := fst (switch_read (drop s ?b))]) @ unescape (drop ?k t) @ rest,
                 (p + 1) + length (unescape (drop ?k t)))
       \<and> length rest = length (out[p := fst (switch_read (drop s ?b))]) - ((p + 1) + length (unescape (drop ?k t)))"
    proof (rule "1.IH" [OF refl])
      show "NUL \<notin> set (drop ?k t)" using "1.prems"(1) by (auto dest: in_set_dropD)
      show "drop (s + snd (switch_read (drop s ?b)))
              (if ip then out[p := fst (switch_read (drop s ?b))] else src) = drop ?k t @ [NUL]"
        unfolding sr by (rule d)
      show "p + 1 + length (drop ?k t) < length (out[p := fst (switch_read (drop s ?b))])"
        using "1.prems"(4) k by simp
    qed (use sl nz pl sr k "1.prems"(3) in auto)
    have un: "unescape t = ?c # unescape (drop ?k t)" using False by (subst unescape.simps) simp
    have "take (p + 1) ?out = take p out @ [?c]" using pl by (simp add: take_Suc_conv_app_nth)
    then show ?thesis using IH step un sr by auto
  qed
qed

lemma unescape_no_NUL: "NUL \<notin> set s \<Longrightarrow> NUL \<notin> set (unescape s)"
proof (induction s rule: unescape.induct)
  case (1 s)
  show ?case
  proof (cases "s = []")
    case False
    have "fst (switch_read s) \<noteq> NUL"
      using "1.prems" False by (cases s) (auto simp: switch_read_def)
    moreover have "NUL \<notin> set (unescape (drop (snd (switch_read s)) s))"
      using 1 False by (auto dest: in_set_dropD)
    ultimately show ?thesis using False by (subst unescape.simps) simp
  qed simp
qed

lemma xml_deserialize_buf_eq:
  assumes "NUL \<notin> set str"
  shows "\<exists>rest. xml_deserialize_buf junk str ip = Some (unescape str @ NUL # rest) \<and> (ip \<longrightarrow> rest = [])"
proof -
  let ?out = "if ip then str @ [NUL] else fresh_buffer junk (length str + 1)"
  have len: "length ?out = length str + 1" by (simp add: fresh_buffer_def)
  have d: "drop 0 (if ip then ?out else str @ [NUL]) = str @ [NUL]" by simp
  have "0 + length str < length ?out" using len by simp
  from deser_loop_ok [OF assms d le_refl this] len obtain rest where
    r: "deser_loop ip (str @ [NUL]) ?out 0 0 = Some (unescape str @ rest, length (unescape str))"
    "length rest = length str + 1 - length (unescape str)" by fastforce
  with unescape_length [of str] obtain x xs where x: "rest = x # xs" by (cases rest) auto
  have "(unescape str @ rest)[length (unescape str) := NUL] = unescape str @ NUL # xs"
    using x by (simp add: list_update_append)
  with r x show ?thesis by (auto simp: xml_deserialize_buf_def Let_def realloc_def)
qed

subsection \<open>Properties\<close>

text \<open>C37: the serializer, in place or not, stays inside the buffer it computed the size of and
  produces the character-wise escaping of its argument.\<close>

theorem xml_serialize_correct:
  assumes "NUL \<notin> set str"
  shows "xml_serialize junk str = Some (escape str) \<and> xml_serialize_inplace junk str = Some (escape str)"
  using escape_no_NUL [OF assms]
  by (simp add: xml_serialize_def xml_serialize_inplace_def xml_serialize_buf_eq)

theorem xml_serialize_correct_witness:
  "xml_serialize (\<lambda>_. CHR ''?'') ''a<b&c'' = Some (escape ''a<b&c'')
   \<and> xml_serialize_inplace (\<lambda>_. CHR ''?'') ''a<b&c'' = Some (escape ''a<b&c'')"
  by (rule xml_serialize_correct) simp

text \<open>deserializing a serialized string, in place or not, gives the string back.\<close>

theorem xml_roundtrip:
  assumes "NUL \<notin> set str"
  shows "(do { e \<leftarrow> xml_serialize junk str; xml_deserialize junk' e }) = Some str
       \<and> (do { e \<leftarrow> xml_serialize_inplace junk str; xml_deserialize_inplace junk' e }) = Some str"
proof -
  from escape_no_NUL [OF assms] have e: "NUL \<notin> set (escape str)" .
  have "xml_deserialize_buf junk' (escape str) ip \<noteq> None
      \<and> map_option c_str (xml_deserialize_buf junk' (escape str) ip) = Some str" for ip
    using xml_deserialize_buf_eq [OF e, of junk' ip] assms by (auto simp: unescape_escape)
  with xml_serialize_buf_eq [of junk str] e show ?thesis
    by (simp add: xml_serialize_def xml_serialize_inplace_def xml_deserialize_def xml_deserialize_inplace_def)
qed

theorem xml_roundtrip_witness:
  "(do { e \<leftarrow> xml_serialize (\<lambda>_. NUL) ''<a x=&1/>''; xml_deserialize (\<lambda>_. NUL) e }) = Some ''<a x=&1/>''
   \<and> (do { e \<leftarrow> xml_serialize_inplace (\<lambda>_. NUL) ''<a x=&1/>''; xml_deserialize_inplace (\<lambda>_. NUL) e })
       = Some ''<a x=&1/>''"
  by (rule xml_roundtrip) simp

end
