(* ===== verification/Gameroom.thy ===== *)
theory Gameroom
  imports WbList Attributes XmlSerializer
begin

text \<open>
  \<open>src/gameroom.c\<close> and \<open>include/wb_gameroom.h\<close>: the state of a game room, made of nine parts
  that the server updates independently, each with a revision.  A part is a record that extends
  \<open>s_gr_sync\<close>, as the C structures start with their \<open>base\<close>; the lists of players are the
  abstract lists of \<open>WbList\<close>, NULL being \<open>None\<close>.

  \<open>strtof\<close> is the conversion of the C library, yielding the bit pattern of the result.
\<close>

unbundle bit_operations_syntax

subsection \<open>Data\<close>

definition GAMEROOM_UNREADY :: u32 where "GAMEROOM_UNREADY = 0"
definition GAMEROOM_READY :: u32 where "GAMEROOM_READY = 1"
definition GAMEROOM_RESTRICTED :: u32 where "GAMEROOM_RESTRICTED = 2"

definition GR_SYNC_CORE :: u32 where "GR_SYNC_CORE = 1"
definition GR_SYNC_CUSTOM_PARAMS :: u32 where "GR_SYNC_CUSTOM_PARAMS = 2"
definition GR_SYNC_MISSION :: u32 where "GR_SYNC_MISSION = 4"
definition GR_SYNC_SESSION :: u32 where "GR_SYNC_SESSION = 8"
definition GR_SYNC_ROOM_MASTER :: u32 where "GR_SYNC_ROOM_MASTER = 16"
definition GR_SYNC_REGIONS :: u32 where "GR_SYNC_REGIONS = 32"
definition GR_SYNC_AUTO_START :: u32 where "GR_SYNC_AUTO_START = 64"
definition GR_SYNC_CLAN_WAR :: u32 where "GR_SYNC_CLAN_WAR = 128"
definition GR_SYNC_INGAME_CHAT :: u32 where "GR_SYNC_INGAME_CHAT = 256"

lemmas gr_sync_types =
  GR_SYNC_CORE_def GR_SYNC_CUSTOM_PARAMS_def GR_SYNC_MISSION_def GR_SYNC_SESSION_def GR_SYNC_ROOM_MASTER_def
  GR_SYNC_REGIONS_def GR_SYNC_AUTO_START_def GR_SYNC_CLAN_WAR_def GR_SYNC_INGAME_CHAT_def

record s_gr_sync =
  revision :: u32
  sync_type :: u32

record gr_core_player =
  pl_nickname :: cptr
  pl_clan_name :: cptr
  pl_profile_id :: cptr
  pl_online_id :: cptr
  pl_group_id :: cptr
  pl_region_id :: cptr
  pl_class_id :: u32
  pl_team_id :: u32
  pl_status :: u32
  pl_presence :: u32
  pl_observer :: int
  pl_skill :: u32
  pl_experience :: u32
  pl_rank :: u32
  pl_badge :: u32
  pl_mark :: u32
  pl_stripe :: u32

record s_gr_core = s_gr_sync +
  co_room_name :: cptr
  co_teams_switched :: int
  co_private :: int
  co_can_start :: int
  co_team_balanced :: int
  co_min_ready_players :: u32
  co_num_players :: u32
  co_players :: "gr_core_player list option"

record s_gr_custom_params = s_gr_sync +
  cp_friendly_fire :: int
  cp_enemy_outlines :: int
  cp_auto_team_balance :: int
  cp_dead_can_chat :: int
  cp_join_in_the_process :: int
  cp_locked_spectator_camera :: int
  cp_preround_time :: int
  cp_max_players :: u32
  cp_round_limit :: u32
  cp_class_restriction :: u32
  cp_inventory_slot :: u64

record s_gr_room_master = s_gr_sync +
  rm_master :: cptr

record s_gr_session = s_gr_sync +
  se_id :: cptr
  se_status :: int
  se_game_progress :: int
  se_start_time :: u32
  se_team1_start_score :: u32
  se_team2_start_score :: u32

record s_gr_mission = s_gr_sync +
  mi_mission_key :: cptr
  mi_name :: cptr
  mi_setting :: cptr
  mi_mode :: cptr
  mi_mode_name :: cptr
  mi_mode_icon :: cptr
  mi_description :: cptr
  mi_image :: cptr
  mi_difficulty :: cptr
  mi_type :: cptr
  mi_time_of_day :: cptr
  mi_no_teams :: int

record s_gr_regions = s_gr_sync +
  re_region_id :: cptr

record s_gr_auto_start = s_gr_sync +
  as_has_timeout :: int
  as_timeout_left :: int
  as_can_manual_start :: int
  as_joined_intermission_timeout :: int

record s_gr_clan_war = s_gr_sync +
  cw_clan_1 :: cptr
  cw_clan_2 :: cptr

type_synonym s_gr_ingame_chat = s_gr_sync

record gameroom =
  gm_room_id :: cptr
  gm_room_type :: u32
  gm_core :: s_gr_core
  gm_custom_params :: s_gr_custom_params
  gm_mission :: s_gr_mission
  gm_session :: s_gr_session
  gm_room_master :: s_gr_room_master
  gm_regions :: s_gr_regions
  gm_auto_start :: s_gr_auto_start
  gm_clan_war :: s_gr_clan_war
  gm_ingame_chat :: s_gr_ingame_chat

subsection \<open>Synchronising one part\<close>

text \<open>The macros \<open>SYNC_INT\<close> and \<open>SYNC_STR\<close>: the conversion is that of the target's type.\<close>

definition sync_long :: "cstring \<Rightarrow> cstring \<Rightarrow> int" where
  "sync_long node name = get_info_int node (name @ ''='' @ [apos]) [apos]"

definition sync_int :: "cstring \<Rightarrow> cstring \<Rightarrow> int" where
  "sync_int node name = c_int (sync_long node name)"

definition sync_char :: "cstring \<Rightarrow> cstring \<Rightarrow> int" where
  "sync_char node name = c_char (sync_long node name)"

definition sync_uint :: "cstring \<Rightarrow> cstring \<Rightarrow> u32" where
  "sync_uint node name = c_uint (sync_long node name)"

definition sync_str :: "cstring \<Rightarrow> cstring \<Rightarrow> cptr" where
  "sync_str node name = get_info node (name @ ''='' @ [apos]) [apos]"

definition gameroom_sync_node ::
  "('a s_gr_sync_scheme \<Rightarrow> cstring \<Rightarrow> 'a s_gr_sync_scheme crash) \<Rightarrow> cptr \<Rightarrow> 'a s_gr_sync_scheme
     \<Rightarrow> ('a s_gr_sync_scheme \<times> u32) crash" where
  "gameroom_sync_node sync node local =
     (case node of
        None \<Rightarrow> Some (local, 0)
      | Some n \<Rightarrow>
          (let rev = sync_uint n ''revision'' in
           if revision local < rev
           then do { local' \<leftarrow> sync (local\<lparr>revision := rev\<rparr>) n; Some (local', sync_type local') }
           else Some (local, 0)))"

text \<open>One player element.\<close>

definition sync_player :: "(cstring \<Rightarrow> u32) \<Rightarrow> cstring \<Rightarrow> gr_core_player" where
  "sync_player strtof player =
     \<lparr>pl_nickname = sync_str player ''nickname'',
      pl_clan_name = sync_str player ''clanName'',
      pl_profile_id = sync_str player ''profile_id'',
      pl_online_id = sync_str player ''online_id'',
      pl_group_id = sync_str player ''group_id'',
      pl_region_id = sync_str player ''region_id'',
      pl_class_id = sync_uint player ''class_id'',
      pl_team_id = sync_uint player ''team_id'',
      pl_status = sync_uint player ''status'',
      pl_presence = sync_uint player ''presence'',
      pl_observer = sync_char player ''observer'',
      pl_skill = get_info_float strtof player (''skill='' @ [apos]) [apos],
      pl_experience = sync_uint player ''experience'',
      pl_rank = sync_uint player ''rank'',
      pl_badge = sync_uint player ''banner_badge'',
      pl_mark = sync_uint player ''banner_mark'',
      pl_stripe = sync_uint player ''banner_stripe''\<rparr>"

text \<open>The loop over the elements; an element without end makes the scanners read through NULL.\<close>

function sync_players :: "(cstring \<Rightarrow> u32) \<Rightarrow> cstring \<Rightarrow> gr_core_player list \<Rightarrow> gr_core_player list crash" where
  "sync_players strtof m players =
     (case strstr m ''<player'' of
        None \<Rightarrow> Some players
      | Some q \<Rightarrow>
          (case get_info q ''<player'' ''/>'' of
             None \<Rightarrow> None
           | Some player \<Rightarrow> sync_players strtof (tl q) (sync_player strtof player # players)))"
  by pat_completeness auto
termination
proof (relation "measure (\<lambda>(_, m, _). length m)", goal_cases)
  case 1
  then show ?case by simp
next
  case (2 strtof m players q player)
  then have "q \<noteq> []" using strstr_result_starts [of m "''<player''" q] by auto
  with 2 show ?case using strstr_length [of m "''<player''" q] by (cases q) auto
qed

declare sync_players.simps [simp del]

text \<open>
  The name is unescaped when the pointer changed: always, except that the allocator may hand out
  the block that was just freed (\<open>same\<close>), which only exists if there was a name before.
\<close>

definition sync_room_name :: "bool \<Rightarrow> cptr \<Rightarrow> cptr \<Rightarrow> cptr crash" where
  "sync_room_name same r new =
     (if r = None \<and> new = None \<or> r \<noteq> None \<and> new \<noteq> None \<and> same then Some new
      else do { s \<leftarrow> deref new; map_option Some (xml_deserialize_inplace (\<lambda>_. NUL) s) })"

definition sync_core :: "(cstring \<Rightarrow> u32) \<Rightarrow> bool \<Rightarrow> s_gr_core \<Rightarrow> cstring \<Rightarrow> s_gr_core crash" where
  "sync_core strtof same local node =
     do {
       room_name \<leftarrow> sync_room_name same (co_room_name local) (sync_str node ''room_name'');
       players \<leftarrow> (case get_info node ''<players>'' ''</players>'' of
                     None \<Rightarrow> Some (co_players local)
                   | Some text \<Rightarrow>
                       do { old \<leftarrow> deref (co_players local); map_option Some (sync_players strtof text []) });
       Some (local\<lparr>co_teams_switched := sync_char node ''teams_switched'',
                   co_private := sync_char node ''private'',
                   co_can_start := sync_char node ''can_start'',
                   co_team_balanced := sync_char node ''team_balanced'',
                   co_min_ready_players := sync_uint node ''min_ready_players'',
                   co_num_players := sync_uint node ''players'',
                   co_room_name := room_name,
                   co_players := players\<rparr>)
     }"

definition sync_custom_params :: "s_gr_custom_params \<Rightarrow> cstring \<Rightarrow> s_gr_custom_params crash" where
  "sync_custom_params local node =
     Some (local\<lparr>cp_friendly_fire := sync_char node ''friendly_fire'',
                 cp_enemy_outlines := sync_char node ''enemy_outlines'',
                 cp_auto_team_balance := sync_char node ''auto_team_balance'',
                 cp_dead_can_chat := sync_char node ''dead_can_chat'',
                 cp_join_in_the_process := sync_char node ''join_in_the_process'',
                 cp_max_players := sync_uint node ''max_players'',
                 cp_round_limit := sync_uint node ''round_limit'',
                 cp_preround_time := sync_int node ''preround_time'',
                 cp_class_restriction := sync_uint node ''class_restriction'',
                 cp_inventory_slot := word_of_int (sync_long node ''inventory_slot''),
                 cp_locked_spectator_camera := sync_char node ''locked_spectator_camera''\<rparr>)"

definition sync_regions :: "s_gr_regions \<Rightarrow> cstring \<Rightarrow> s_gr_regions crash" where
  "sync_regions local node = Some (local\<lparr>re_region_id := sync_str node ''region_id''\<rparr>)"

definition sync_auto_start :: "s_gr_auto_start \<Rightarrow> cstring \<Rightarrow> s_gr_auto_start crash" where
  "sync_auto_start local node =
     Some (local\<lparr>as_has_timeout := sync_int node ''auto_start_timeout'',
                 as_timeout_left := sync_int node ''auto_start_timeout_left'',
                 as_can_manual_start := sync_int node ''can_manual_start'',
                 as_joined_intermission_timeout := sync_int node ''joined_intermission_timeout''\<rparr>)"

definition sync_clan_war :: "s_gr_clan_war \<Rightarrow> cstring \<Rightarrow> s_gr_clan_war crash" where
  "sync_clan_war local node =
     Some (local\<lparr>cw_clan_1 := sync_str node ''clan_1'', cw_clan_2 := sync_str node ''clan_2''\<rparr>)"

definition sync_ingame_chat :: "s_gr_ingame_chat \<Rightarrow> cstring \<Rightarrow> s_gr_ingame_chat crash" where
  "sync_ingame_chat local node = Some local"

definition sync_mission :: "s_gr_mission \<Rightarrow> cstring \<Rightarrow> s_gr_mission crash" where
  "sync_mission local node =
     Some (local\<lparr>mi_mission_key := sync_str node ''mission_key'',
                 mi_name := sync_str node ''name'',
                 mi_setting := sync_str node ''setting'',
                 mi_mode := sync_str node ''mode'',
                 mi_mode_name := sync_str node ''mode_name'',
                 mi_mode_icon := sync_str node ''mode_icon'',
                 mi_description := sync_str node ''description'',
                 mi_image := sync_str node ''image'',
                 mi_difficulty := sync_str node ''difficulty'',
                 mi_type := sync_str node ''type'',
                 mi_time_of_day := sync_str node ''time_of_day'',
                 mi_no_teams := sync_char node ''no_teams''\<rparr>)"

definition sync_session :: "s_gr_session \<Rightarrow> cstring \<Rightarrow> s_gr_session crash" where
  "sync_session local node =
     Some (local\<lparr>se_id := sync_str node ''id'',
                 se_status := sync_int node ''status'',
                 se_game_progress := sync_int node ''game_progress'',
                 se_start_time := sync_uint node ''start_time''\<rparr>)"

definition sync_room_master :: "s_gr_room_master \<Rightarrow> cstring \<Rightarrow> s_gr_room_master crash" where
  "sync_room_master local node = Some (local\<lparr>rm_master := sync_str node ''master''\<rparr>)"

subsection \<open>The whole room\<close>

definition gameroom_init :: gameroom where
  "gameroom_init =
     \<lparr>gm_room_id = None, gm_room_type = 0,
      gm_core = \<lparr>revision = 0, sync_type = GR_SYNC_CORE, co_room_name = None, co_teams_switched = 0, co_private = 0,
        co_can_start = 0, co_team_balanced = 0, co_min_ready_players = 0, co_num_players = 0, co_players = Some []\<rparr>,
      gm_custom_params = \<lparr>revision = 0, sync_type = GR_SYNC_CUSTOM_PARAMS, cp_friendly_fire = 0, cp_enemy_outlines = 0,
        cp_auto_team_balance = 0, cp_dead_can_chat = 0, cp_join_in_the_process = 0, cp_locked_spectator_camera = 0,
        cp_preround_time = 0, cp_max_players = 0, cp_round_limit = 0, cp_class_restriction = 0, cp_inventory_slot = 0\<rparr>,
      gm_mission = \<lparr>revision = 0, sync_type = GR_SYNC_MISSION, mi_mission_key = None, mi_name = None, mi_setting = None,
        mi_mode = None, mi_mode_name = None, mi_mode_icon = None, mi_description = None, mi_image = None,
        mi_difficulty = None, mi_type = None, mi_time_of_day = None, mi_no_teams = 0\<rparr>,
      gm_session = \<lparr>revision = 0, sync_type = GR_SYNC_SESSION, se_id = None, se_status = 0, se_game_progress = 0,
        se_start_time = 0, se_team1_start_score = 0, se_team2_start_score = 0\<rparr>,
      gm_room_master = \<lparr>revision = 0, sync_type = GR_SYNC_ROOM_MASTER, rm_master = None\<rparr>,
      gm_regions = \<lparr>revision = 0, sync_type = GR_SYNC_REGIONS, re_region_id = None\<rparr>,
      gm_auto_start = \<lparr>revision = 0, sync_type = GR_SYNC_AUTO_START, as_has_timeout = 0, as_timeout_left = 0,
        as_can_manual_start = 0, as_joined_intermission_timeout = 0\<rparr>,
      gm_clan_war = \<lparr>revision = 0, sync_type = GR_SYNC_CLAN_WAR, cw_clan_1 = None, cw_clan_2 = None\<rparr>,
      gm_ingame_chat = \<lparr>revision = 0, sync_type = GR_SYNC_INGAME_CHAT\<rparr>\<rparr>"

text \<open>The text of a part: up to its closing tag, or up to the end of its empty-element tag.\<close>

definition field_node :: "cstring \<Rightarrow> cstring \<Rightarrow> cptr" where
  "field_node data field =
     (case get_info data (''<'' @ field) (''</'' @ field) of
        Some n \<Rightarrow> Some n
      | None \<Rightarrow> get_info data (''<'' @ field @ '' '') ''/>'')"

definition gameroom_parse :: "(cstring \<Rightarrow> u32) \<Rightarrow> bool \<Rightarrow> gameroom \<Rightarrow> cstring \<Rightarrow> (gameroom \<times> u32) crash" where
  "gameroom_parse strtof same gr data =
     do {
       let room_type = c_uint (get_info_int data (''room_type='' @ [apos]) [apos]);
       let room_id = get_info data (''room_id='' @ [apos]) [apos];
       (co, r0) \<leftarrow> gameroom_sync_node (sync_core strtof same) (field_node data ''core'') (gm_core gr);
       (cp, r1) \<leftarrow> gameroom_sync_node sync_custom_params (field_node data ''custom_params'') (gm_custom_params gr);
       (mi, r2) \<leftarrow> gameroom_sync_node sync_mission (field_node data ''mission'') (gm_mission gr);
       (se, r3) \<leftarrow> gameroom_sync_node sync_session (field_node data ''session'') (gm_session gr);
       (rm, r4) \<leftarrow> gameroom_sync_node sync_room_master (field_node data ''room_master'') (gm_room_master gr);
       (re, r5) \<leftarrow> gameroom_sync_node sync_regions (field_node data ''regions'') (gm_regions gr);
       (au, r6) \<leftarrow> gameroom_sync_node sync_auto_start (field_node data ''auto_start'') (gm_auto_start gr);
       (cw, r7) \<leftarrow> gameroom_sync_node sync_clan_war (field_node data ''clan_war'') (gm_clan_war gr);
       (ic, r8) \<leftarrow> gameroom_sync_node sync_ingame_chat (field_node data ''ingame_chat'') (gm_ingame_chat gr);
       Some (\<lparr>gm_room_id = room_id, gm_room_type = room_type, gm_core = co, gm_custom_params = cp, gm_mission = mi,
              gm_session = se, gm_room_master = rm, gm_regions = re, gm_auto_start = au, gm_clan_war = cw,
              gm_ingame_chat = ic\<rparr>,
             r0 OR r1 OR r2 OR r3 OR r4 OR r5 OR r6 OR r7 OR r8)
     }"

text \<open>
  The parts that changed move from \<open>src\<close> to \<open>dst\<close>, after the old ones are freed; \<open>src\<close>
  is a local variable that is not used again.
\<close>

definition changed :: "u32 \<Rightarrow> u32 \<Rightarrow> bool" where
  "changed changes flag \<longleftrightarrow> changes AND flag \<noteq> 0"

definition gameroom_update :: "gameroom \<Rightarrow> gameroom \<Rightarrow> u32 \<Rightarrow> gameroom" where
  "gameroom_update dst src changes =
     \<lparr>gm_room_id = gm_room_id src,
      gm_room_type = gm_room_type src,
      gm_core = (if changed changes GR_SYNC_CORE then gm_core src else gm_core dst),
      gm_custom_params = (if changed changes GR_SYNC_CUSTOM_PARAMS then gm_custom_params src else gm_custom_params dst),
      gm_mission = (if changed changes GR_SYNC_MISSION then gm_mission src else gm_mission dst),
      gm_session = (if changed changes GR_SYNC_SESSION then gm_session src else gm_session dst),
      gm_room_master = (if changed changes GR_SYNC_ROOM_MASTER then gm_room_master src else gm_room_master dst),
      gm_regions = (if changed changes GR_SYNC_REGIONS then gm_regions src else gm_regions dst),
      gm_auto_start = (if changed changes GR_SYNC_AUTO_START then gm_auto_start src else gm_auto_start dst),
      gm_clan_war = (if changed changes GR_SYNC_CLAN_WAR then gm_clan_war src else gm_clan_war dst),
      gm_ingame_chat = (if changed changes GR_SYNC_INGAME_CHAT then gm_ingame_chat src else gm_ingame_chat dst)\<rparr>"

definition gameroom_free :: "gameroom \<Rightarrow> gameroom" where
  "gameroom_free gr =
     gr\<lparr>gm_room_id := None,
        gm_core := (gm_core gr)\<lparr>co_players := None, co_room_name := None, revision := 0\<rparr>,
        gm_custom_params := (gm_custom_params gr)\<lparr>revision := 0\<rparr>,
        gm_mission := (gm_mission gr)\<lparr>mi_mission_key := None, mi_name := None, mi_setting := None, mi_mode := None,
          mi_mode_name := None, mi_mode_icon := None, mi_description := None, mi_image := None, mi_difficulty := None,
          mi_type := None, mi_time_of_day := None, revision := 0\<rparr>,
        gm_session := (gm_session gr)\<lparr>se_id := None, revision := 0\<rparr>,
        gm_room_master := (gm_room_master gr)\<lparr>rm_master := None, revision := 0\<rparr>,
        gm_regions := (gm_regions gr)\<lparr>re_region_id := None, revision := 0\<rparr>,
        gm_auto_start := (gm_auto_start gr)\<lparr>revision := 0\<rparr>,
        gm_clan_war := (gm_clan_war gr)\<lparr>cw_clan_1 := None, cw_clan_2 := None, revision := 0\<rparr>,
        gm_ingame_chat := (gm_ingame_chat gr)\<lparr>revision := 0\<rparr>\<rparr>"

subsection \<open>Which parts a message changes\<close>

definition newer :: "'a s_gr_sync_scheme \<Rightarrow> cptr \<Rightarrow> bool" where
  "newer local node = (case node of None \<Rightarrow> False | Some n \<Rightarrow> revision local < sync_uint n ''revision'')"

definition types_ok :: "gameroom \<Rightarrow> bool" where
  "types_ok gr \<longleftrightarrow> sync_type (gm_core gr) = GR_SYNC_CORE \<and> sync_type (gm_custom_params gr) = GR_SYNC_CUSTOM_PARAMS
     \<and> sync_type (gm_mission gr) = GR_SYNC_MISSION \<and> sync_type (gm_session gr) = GR_SYNC_SESSION
     \<and> sync_type (gm_room_master gr) = GR_SYNC_ROOM_MASTER \<and> sync_type (gm_regions gr) = GR_SYNC_REGIONS
     \<and> sync_type (gm_auto_start gr) = GR_SYNC_AUTO_START \<and> sync_type (gm_clan_war gr) = GR_SYNC_CLAN_WAR
     \<and> sync_type (gm_ingame_chat gr) = GR_SYNC_INGAME_CHAT"

lemma types_ok_init: "types_ok gameroom_init"
  by (simp add: types_ok_def gameroom_init_def)

lemma sync_node_spec:
  assumes "gameroom_sync_node sync node local = Some (l', r)"
    "\<And>l n l'. sync l n = Some l' \<Longrightarrow> sync_type l' = sync_type l \<and> revision l' = revision l"
  shows "r = (if newer local node then sync_type local else 0) \<and> sync_type l' = sync_type local
       \<and> (if newer local node then revision l' = sync_uint (the node) ''revision'' else l' = local)"
proof (cases node)
  case None
  with assms(1) show ?thesis by (simp add: gameroom_sync_node_def newer_def)
next
  case (Some n)
  show ?thesis
  proof (cases "revision local < sync_uint n ''revision''")
    case True
    with assms(1) Some have "sync (local\<lparr>revision := sync_uint n ''revision''\<rparr>) n = Some l'" "r = sync_type l'"
      by (auto simp: gameroom_sync_node_def Let_def bind_eq_Some_conv)
    with assms(2) [OF this(1)] True Some show ?thesis by (simp add: newer_def)
  next
    case False
    with assms(1) Some show ?thesis by (simp add: gameroom_sync_node_def newer_def Let_def)
  qed
qed

lemma sync_keeps_base:
  "sync_core strtof same l n = Some l' \<Longrightarrow> sync_type l' = sync_type l \<and> revision l' = revision l"
  "sync_custom_params lc n = Some lc' \<Longrightarrow> sync_type lc' = sync_type lc \<and> revision lc' = revision lc"
  "sync_mission lm n = Some lm' \<Longrightarrow> sync_type lm' = sync_type lm \<and> revision lm' = revision lm"
  "sync_session ls n = Some ls' \<Longrightarrow> sync_type ls' = sync_type ls \<and> revision ls' = revision ls"
  "sync_room_master lr n = Some lr' \<Longrightarrow> sync_type lr' = sync_type lr \<and> revision lr' = revision lr"
  "sync_regions lg n = Some lg' \<Longrightarrow> sync_type lg' = sync_type lg \<and> revision lg' = revision lg"
  "sync_auto_start la n = Some la' \<Longrightarrow> sync_type la' = sync_type la \<and> revision la' = revision la"
  "sync_clan_war lw n = Some lw' \<Longrightarrow> sync_type lw' = sync_type lw \<and> revision lw' = revision lw"
  "sync_ingame_chat li n = Some li' \<Longrightarrow> sync_type li' = sync_type li \<and> revision li' = revision li"
  by (auto simp: sync_core_def sync_custom_params_def sync_mission_def sync_session_def sync_room_master_def
      sync_regions_def sync_auto_start_def sync_clan_war_def sync_ingame_chat_def bind_eq_Some_conv Let_def)

lemma changed_or [simp]: "changed (a OR b) f \<longleftrightarrow> changed a f \<or> changed b f"
  by (auto simp: changed_def bit.conj_disj_distrib2 or_eq_0_iff)

lemma changed_0 [simp]: "\<not> changed 0 f"
  by (simp add: changed_def)

lemma changed_flags:
  "f \<in> {GR_SYNC_CORE, GR_SYNC_CUSTOM_PARAMS, GR_SYNC_MISSION, GR_SYNC_SESSION, GR_SYNC_ROOM_MASTER, GR_SYNC_REGIONS,
     GR_SYNC_AUTO_START, GR_SYNC_CLAN_WAR, GR_SYNC_INGAME_CHAT} \<Longrightarrow>
   g \<in> {GR_SYNC_CORE, GR_SYNC_CUSTOM_PARAMS, GR_SYNC_MISSION, GR_SYNC_SESSION, GR_SYNC_ROOM_MASTER, GR_SYNC_REGIONS,
     GR_SYNC_AUTO_START, GR_SYNC_CLAN_WAR, GR_SYNC_INGAME_CHAT} \<Longrightarrow>
   changed f g \<longleftrightarrow> f = g"
  by (auto simp: changed_def gr_sync_types)

lemma changed_if [simp]: "changed (if c then t else 0) f \<longleftrightarrow> c \<and> changed t f"
  by simp

text \<open>The parts of a parsed room: which are new, with which revision, and the mask of changes.\<close>

lemma parse_parts:
  assumes "gameroom_parse strtof same gr data = Some (g, ret)" "types_ok gr"
  shows "changed ret GR_SYNC_CORE \<longleftrightarrow> newer (gm_core gr) (field_node data ''core'')"
    and "changed ret GR_SYNC_CUSTOM_PARAMS \<longleftrightarrow> newer (gm_custom_params gr) (field_node data ''custom_params'')"
    and "changed ret GR_SYNC_MISSION \<longleftrightarrow> newer (gm_mission gr) (field_node data ''mission'')"
    and "changed ret GR_SYNC_SESSION \<longleftrightarrow> newer (gm_session gr) (field_node data ''session'')"
    and "changed ret GR_SYNC_ROOM_MASTER \<longleftrightarrow> newer (gm_room_master gr) (field_node data ''room_master'')"
    and "changed ret GR_SYNC_REGIONS \<longleftrightarrow> newer (gm_regions gr) (field_node data ''regions'')"
    and "changed ret GR_SYNC_AUTO_START \<longleftrightarrow> newer (gm_auto_start gr) (field_node data ''auto_start'')"
    and "changed ret GR_SYNC_CLAN_WAR \<longleftrightarrow> newer (gm_clan_war gr) (field_node data ''clan_war'')"
    and "changed ret GR_SYNC_INGAME_CHAT \<longleftrightarrow> newer (gm_ingame_chat gr) (field_node data ''ingame_chat'')"
    and "types_ok g"
proof -
  from assms(1) obtain r0 r1 r2 r3 r4 r5 r6 r7 r8 where
    p: "gameroom_sync_node (sync_core strtof same) (field_node data ''core'') (gm_core gr) = Some (gm_core g, r0)"
    "gameroom_sync_node sync_custom_params (field_node data ''custom_params'') (gm_custom_params gr) = Some (gm_custom_params g, r1)"
    "gameroom_sync_node sync_mission (field_node data ''mission'') (gm_mission gr) = Some (gm_mission g, r2)"
    "gameroom_sync_node sync_session (field_node data ''session'') (gm_session gr) = Some (gm_session g, r3)"
    "gameroom_sync_node sync_room_master (field_node data ''room_master'') (gm_room_master gr) = Some (gm_room_master g, r4)"
    "gameroom_sync_node sync_regions (field_node data ''regions'') (gm_regions gr) = Some (gm_regions g, r5)"
    "gameroom_sync_node sync_auto_start (field_node data ''auto_start'') (gm_auto_start gr) = Some (gm_auto_start g, r6)"
    "gameroom_sync_node sync_clan_war (field_node data ''clan_war'') (gm_clan_war gr) = Some (gm_clan_war g, r7)"
    "gameroom_sync_node sync_ingame_chat (field_node data ''ingame_chat'') (gm_ingame_chat gr) = Some (gm_ingame_chat g, r8)"
    and ret: "ret = r0 OR r1 OR r2 OR r3 OR r4 OR r5 OR r6 OR r7 OR r8"
    by (auto simp: gameroom_parse_def Let_def bind_eq_Some_conv)
  note n = sync_node_spec [OF p(1) sync_keeps_base(1), simplified] sync_node_spec [OF p(2) sync_keeps_base(2), simplified]
    sync_node_spec [OF p(3) sync_keeps_base(3), simplified] sync_node_spec [OF p(4) sync_keeps_base(4), simplified]
    sync_node_spec [OF p(5) sync_keeps_base(5), simplified] sync_node_spec [OF p(6) sync_keeps_base(6), simplified]
    sync_node_spec [OF p(7) sync_keeps_base(7), simplified] sync_node_spec [OF p(8) sync_keeps_base(8), simplified]
    sync_node_spec [OF p(9) sync_keeps_base(9), simplified]
  from assms(2) have t: "sync_type (gm_core gr) = GR_SYNC_CORE" "sync_type (gm_custom_params gr) = GR_SYNC_CUSTOM_PARAMS"
    "sync_type (gm_mission gr) = GR_SYNC_MISSION" "sync_type (gm_session gr) = GR_SYNC_SESSION"
    "sync_type (gm_room_master gr) = GR_SYNC_ROOM_MASTER" "sync_type (gm_regions gr) = GR_SYNC_REGIONS"
    "sync_type (gm_auto_start gr) = GR_SYNC_AUTO_START" "sync_type (gm_clan_war gr) = GR_SYNC_CLAN_WAR"
    "sync_type (gm_ingame_chat gr) = GR_SYNC_INGAME_CHAT"
    by (simp_all add: types_ok_def)
  have r: "r0 = (if newer (gm_core gr) (field_node data ''core'') then GR_SYNC_CORE else 0)"
    "r1 = (if newer (gm_custom_params gr) (field_node data ''custom_params'') then GR_SYNC_CUSTOM_PARAMS else 0)"
    "r2 = (if newer (gm_mission gr) (field_node data ''mission'') then GR_SYNC_MISSION else 0)"
    "r3 = (if newer (gm_session gr) (field_node data ''session'') then GR_SYNC_SESSION else 0)"
    "r4 = (if newer (gm_room_master gr) (field_node data ''room_master'') then GR_SYNC_ROOM_MASTER else 0)"
    "r5 = (if newer (gm_regions gr) (field_node data ''regions'') then GR_SYNC_REGIONS else 0)"
    "r6 = (if newer (gm_auto_start gr) (field_node data ''auto_start'') then GR_SYNC_AUTO_START else 0)"
    "r7 = (if newer (gm_clan_war gr) (field_node data ''clan_war'') then GR_SYNC_CLAN_WAR else 0)"
    "r8 = (if newer (gm_ingame_chat gr) (field_node data ''ingame_chat'') then GR_SYNC_INGAME_CHAT else 0)"
    using n t by simp_all
  show "changed ret GR_SYNC_CORE \<longleftrightarrow> newer (gm_core gr) (field_node data ''core'')"
    "changed ret GR_SYNC_CUSTOM_PARAMS \<longleftrightarrow> newer (gm_custom_params gr) (field_node data ''custom_params'')"
    "changed ret GR_SYNC_MISSION \<longleftrightarrow> newer (gm_mission gr) (field_node data ''mission'')"
    "changed ret GR_SYNC_SESSION \<longleftrightarrow> newer (gm_session gr) (field_node data ''session'')"
    "changed ret GR_SYNC_ROOM_MASTER \<longleftrightarrow> newer (gm_room_master gr) (field_node data ''room_master'')"
    "changed ret GR_SYNC_REGIONS \<longleftrightarrow> newer (gm_regions gr) (field_node data ''regions'')"
    "changed ret GR_SYNC_AUTO_START \<longleftrightarrow> newer (gm_auto_start gr) (field_node data ''auto_start'')"
    "changed ret GR_SYNC_CLAN_WAR \<longleftrightarrow> newer (gm_clan_war gr) (field_node data ''clan_war'')"
    "changed ret GR_SYNC_INGAME_CHAT \<longleftrightarrow> newer (gm_ingame_chat gr) (field_node data ''ingame_chat'')"
    unfolding ret r by (simp_all only: changed_or changed_if changed_0 changed_flags insert_iff simp_thms)
      (simp_all add: gr_sync_types)
  show "types_ok g" unfolding types_ok_def using n t by (simp del: not_less split: if_splits)
qed

text \<open>a message that is parsed into a fresh room and merged replaces exactly the parts it carries with a
  revision other than 0, whatever the revision of the part it replaces, and keeps every other part.\<close>

theorem gameroom_sync_merge:
  assumes "gameroom_parse strtof same gameroom_init data = Some (src, ret)"
  shows "gm_core (gameroom_update dst src ret)
           = (case field_node data ''core'' of Some n \<Rightarrow> if sync_uint n ''revision'' = 0 then gm_core dst else gm_core src | None \<Rightarrow> gm_core dst)
       \<and> gm_custom_params (gameroom_update dst src ret)
           = (case field_node data ''custom_params'' of Some n \<Rightarrow> if sync_uint n ''revision'' = 0 then gm_custom_params dst else gm_custom_params src | None \<Rightarrow> gm_custom_params dst)
       \<and> gm_mission (gameroom_update dst src ret)
           = (case field_node data ''mission'' of Some n \<Rightarrow> if sync_uint n ''revision'' = 0 then gm_mission dst else gm_mission src | None \<Rightarrow> gm_mission dst)
       \<and> gm_session (gameroom_update dst src ret)
           = (case field_node data ''session'' of Some n \<Rightarrow> if sync_uint n ''revision'' = 0 then gm_session dst else gm_session src | None \<Rightarrow> gm_session dst)
       \<and> gm_room_master (gameroom_update dst src ret)
           = (case field_node data ''room_master'' of Some n \<Rightarrow> if sync_uint n ''revision'' = 0 then gm_room_master dst else gm_room_master src | None \<Rightarrow> gm_room_master dst)
       \<and> gm_regions (gameroom_update dst src ret)
           = (case field_node data ''regions'' of Some n \<Rightarrow> if sync_uint n ''revision'' = 0 then gm_regions dst else gm_regions src | None \<Rightarrow> gm_regions dst)
       \<and> gm_auto_start (gameroom_update dst src ret)
           = (case field_node data ''auto_start'' of Some n \<Rightarrow> if sync_uint n ''revision'' = 0 then gm_auto_start dst else gm_auto_start src | None \<Rightarrow> gm_auto_start dst)
       \<and> gm_clan_war (gameroom_update dst src ret)
           = (case field_node data ''clan_war'' of Some n \<Rightarrow> if sync_uint n ''revision'' = 0 then gm_clan_war dst else gm_clan_war src | None \<Rightarrow> gm_clan_war dst)"
proof -
  have init: "revision (gm_core gameroom_init) = 0" "revision (gm_custom_params gameroom_init) = 0"
    "revision (gm_mission gameroom_init) = 0" "revision (gm_session gameroom_init) = 0"
    "revision (gm_room_master gameroom_init) = 0" "revision (gm_regions gameroom_init) = 0"
    "revision (gm_auto_start gameroom_init) = 0" "revision (gm_clan_war gameroom_init) = 0"
    by (simp_all add: gameroom_init_def)
  show ?thesis
    using parse_parts(1-8) [OF assms types_ok_init]
    by (simp add: gameroom_update_def newer_def init word_gt_0 split: option.split)
qed

subsection \<open>Reading the players back\<close>

definition plain_value :: "cstring \<Rightarrow> bool" where
  "plain_value v \<longleftrightarrow> set v \<inter> {apos, CHR ''<'', CHR ''>''} = {} \<and> (v = [] \<or> last v \<noteq> CHR ''='')"

definition opt_at :: "cstring \<Rightarrow> cptr \<Rightarrow> (cstring \<times> cstring) list" where
  "opt_at k v = (case v of None \<Rightarrow> [] | Some s \<Rightarrow> [(k, s)])"

lemma lookup_append: "lookup_attr n (xs @ ys) = (case lookup_attr n xs of None \<Rightarrow> lookup_attr n ys | Some v \<Rightarrow> Some v)"
  by (simp add: lookup_attr_def find_append split: option.split)

lemma lookup_opt_at [simp]: "lookup_attr n (opt_at k v) = (if attr_hit n (k, []) then v else None)"
  by (simp add: opt_at_def attr_hit_def split: option.split)

text \<open>The attributes in the order in which the server writes them.\<close>

definition player_attrs :: "(u32 \<Rightarrow> cstring) \<Rightarrow> gr_core_player \<Rightarrow> (cstring \<times> cstring) list" where
  "player_attrs ftos p =
     opt_at ''profile_id'' (pl_profile_id p)
     @ [(''team_id'', int_dec (uint (pl_team_id p))), (''status'', int_dec (uint (pl_status p))),
        (''observer'', int_dec (pl_observer p)), (''skill'', ftos (pl_skill p))]
     @ opt_at ''nickname'' (pl_nickname p) @ opt_at ''clanName'' (pl_clan_name p)
     @ [(''class_id'', int_dec (uint (pl_class_id p)))]
     @ opt_at ''online_id'' (pl_online_id p) @ opt_at ''group_id'' (pl_group_id p)
     @ [(''presence'', int_dec (uint (pl_presence p))), (''experience'', int_dec (uint (pl_experience p))),
        (''rank'', int_dec (uint (pl_rank p))), (''banner_badge'', int_dec (uint (pl_badge p))),
        (''banner_mark'', int_dec (uint (pl_mark p))), (''banner_stripe'', int_dec (uint (pl_stripe p)))]
     @ opt_at ''region_id'' (pl_region_id p)"

definition player_elem :: "(u32 \<Rightarrow> cstring) \<Rightarrow> gr_core_player \<Rightarrow> cstring" where
  "player_elem ftos p = ''<player'' @ render_attrs (player_attrs ftos p) @ ''/>''"

definition plain_player :: "gr_core_player \<Rightarrow> bool" where
  "plain_player p \<longleftrightarrow> list_all (pred_option plain_value)
       [pl_profile_id p, pl_nickname p, pl_clan_name p, pl_online_id p, pl_group_id p, pl_region_id p]
     \<and> - 128 \<le> pl_observer p \<and> pl_observer p < 128"

text \<open>What the model relies on of the printing and scanning of floats.\<close>

definition float_text :: "(cstring \<Rightarrow> u32) \<Rightarrow> (u32 \<Rightarrow> cstring) \<Rightarrow> bool" where
  "float_text strtof ftos \<longleftrightarrow> (\<forall>f r. plain_value (ftos f) \<and> strtof (ftos f @ apos # r) = f)"

lemma plain_value_int: "plain_value (int_dec i)"
proof -
  have "c \<notin> {apos, CHR ''<'', CHR ''>'', CHR ''=''}" if "c \<in> set (int_dec i)" for c
    using int_dec_chars [OF that] by (auto simp: isdigit_def)
  then show ?thesis by (cases "int_dec i = []") (auto simp: plain_value_def)
qed

lemma plain_attr_ok: "name_ok (fst kv) \<Longrightarrow> plain_value (snd kv) \<Longrightarrow> attr_ok kv"
  by (auto simp: name_ok_def plain_value_def attr_ok_def)

lemma player_attrs_values:
  assumes "plain_player p" "float_text strtof ftos"
  shows "list_all (\<lambda>kv. name_ok (fst kv) \<and> set (fst kv) \<inter> {CHR ''<'', CHR ''>''} = {} \<and> plain_value (snd kv)) (player_attrs ftos p)"
  using assms plain_value_int
  by (auto simp: player_attrs_def opt_at_def plain_player_def float_text_def name_ok_def split: option.split)

lemma player_attrs_ok:
  assumes "plain_player p" "float_text strtof ftos"
  shows "list_all attr_ok (player_attrs ftos p)"
  using player_attrs_values [OF assms] by (auto simp: list_all_iff intro: plain_attr_ok)

lemma render_plain:
  assumes "list_all (\<lambda>kv. set (fst kv) \<inter> {CHR ''<'', CHR ''>''} = {} \<and> plain_value (snd kv)) kvs"
  shows "CHR ''<'' \<notin> set (render_attrs kvs)" "CHR ''>'' \<notin> set (render_attrs kvs)"
  using assms by (induction kvs) (auto simp: render_attr_def plain_value_def)

lemma sync_attr:
  assumes "list_all attr_ok kvs" "name_ok n"
  shows "sync_str (render_attrs kvs) n = lookup_attr n kvs"
    and "lookup_attr n kvs = Some (int_dec (uint w)) \<Longrightarrow> sync_uint (render_attrs kvs) n = w"
    and "lookup_attr n kvs = Some (int_dec i) \<Longrightarrow> - 128 \<le> i \<Longrightarrow> i < 128 \<Longrightarrow> sync_char (render_attrs kvs) n = i"
proof -
  show "sync_str (render_attrs kvs) n = lookup_attr n kvs"
  proof (cases "lookup_attr n kvs")
    case None
    then show ?thesis using get_attr_absent [OF assms None, of "[]" "[apos]"] by (simp add: sync_str_def get_info_def)
  next
    case (Some v)
    then show ?thesis using get_attr [OF assms Some, of "[]"] by (simp add: sync_str_def)
  qed
  show "sync_uint (render_attrs kvs) n = w" if "lookup_attr n kvs = Some (int_dec (uint w))"
  proof -
    have "- (2 ^ 63) \<le> uint w" "uint w < 2 ^ 63"
      using uint_lt2p [of w] order_trans [OF _ uint_ge_0 [of w], of "- (2 ^ 63)"] by simp_all
    with get_attr_int [OF assms that, of "[]"] show ?thesis by (simp add: sync_uint_def sync_long_def c_uint_def)
  qed
  show "sync_char (render_attrs kvs) n = i" if "lookup_attr n kvs = Some (int_dec i)" "- 128 \<le> i" "i < 128"
    using get_attr_int [OF assms that(1), of "[]"] that(2,3) by (simp add: sync_char_def sync_long_def c_char_id)
qed

lemma player_lookups:
  "lookup_attr ''nickname'' (player_attrs ftos p) = pl_nickname p"
  "lookup_attr ''clanName'' (player_attrs ftos p) = pl_clan_name p"
  "lookup_attr ''profile_id'' (player_attrs ftos p) = pl_profile_id p"
  "lookup_attr ''online_id'' (player_attrs ftos p) = pl_online_id p"
  "lookup_attr ''group_id'' (player_attrs ftos p) = pl_group_id p"
  "lookup_attr ''region_id'' (player_attrs ftos p) = pl_region_id p"
  "lookup_attr ''class_id'' (player_attrs ftos p) = Some (int_dec (uint (pl_class_id p)))"
  "lookup_attr ''team_id'' (player_attrs ftos p) = Some (int_dec (uint (pl_team_id p)))"
  "lookup_attr ''status'' (player_attrs ftos p) = Some (int_dec (uint (pl_status p)))"
  "lookup_attr ''presence'' (player_attrs ftos p) = Some (int_dec (uint (pl_presence p)))"
  "lookup_attr ''observer'' (player_attrs ftos p) = Some (int_dec (pl_observer p))"
  "lookup_attr ''experience'' (player_attrs ftos p) = Some (int_dec (uint (pl_experience p)))"
  "lookup_attr ''rank'' (player_attrs ftos p) = Some (int_dec (uint (pl_rank p)))"
  "lookup_attr ''banner_badge'' (player_attrs ftos p) = Some (int_dec (uint (pl_badge p)))"
  "lookup_attr ''banner_mark'' (player_attrs ftos p) = Some (int_dec (uint (pl_mark p)))"
  "lookup_attr ''banner_stripe'' (player_attrs ftos p) = Some (int_dec (uint (pl_stripe p)))"
  "lookup_attr ''skill'' (player_attrs ftos p) = Some (ftos (pl_skill p))"
  by (simp_all add: player_attrs_def lookup_append attr_hit_def split: option.split)

lemma player_skill:
  assumes "plain_player p" "float_text strtof ftos"
  shows "get_info_float strtof (render_attrs (player_attrs ftos p)) (''skill'' @ ''='' @ [apos]) [apos] = pl_skill p"
proof -
  have "name_ok ''skill''" by (simp add: name_ok_def)
  from strstr_attrs [OF player_attrs_ok [OF assms] this, of "[]"]
  obtain w where "strstr (render_attrs (player_attrs ftos p)) (''skill'' @ ''='' @ [apos])
      = Some ((''skill'' @ ''='' @ [apos]) @ ftos (pl_skill p) @ apos # w)"
    by (simp add: player_lookups)
  moreover have "strstr (ftos (pl_skill p) @ apos # w) [apos] = Some (apos # w)"
    using assms(2) by (intro strstr_char) (auto simp: float_text_def plain_value_def)
  ultimately show ?thesis using assms(2) by (simp add: get_info_float_def float_text_def)
qed

lemma sync_player_elem:
  assumes "plain_player p" "float_text strtof ftos"
  shows "sync_player strtof (render_attrs (player_attrs ftos p)) = p"
proof -
  note ok = player_attrs_ok [OF assms]
  have n: "name_ok ''nickname''" "name_ok ''clanName''" "name_ok ''profile_id''" "name_ok ''online_id''" "name_ok ''group_id''"
    "name_ok ''region_id''" "name_ok ''class_id''" "name_ok ''team_id''" "name_ok ''status''" "name_ok ''presence''"
    "name_ok ''observer''" "name_ok ''experience''" "name_ok ''rank''" "name_ok ''banner_badge''" "name_ok ''banner_mark''"
    "name_ok ''banner_stripe''"
    by (simp_all add: name_ok_def)
  have obs: "- 128 \<le> pl_observer p" "pl_observer p < 128" using assms(1) by (simp_all add: plain_player_def)
  show ?thesis
    using player_skill [OF assms]
    by (simp add: sync_player_def sync_attr(1) [OF ok n(1)] sync_attr(1) [OF ok n(2)] sync_attr(1) [OF ok n(3)]
        sync_attr(1) [OF ok n(4)] sync_attr(1) [OF ok n(5)] sync_attr(1) [OF ok n(6)]
        sync_attr(2) [OF ok n(7) player_lookups(7)] sync_attr(2) [OF ok n(8) player_lookups(8)]
        sync_attr(2) [OF ok n(9) player_lookups(9)] sync_attr(2) [OF ok n(10) player_lookups(10)]
        sync_attr(3) [OF ok n(11) player_lookups(11) obs] sync_attr(2) [OF ok n(12) player_lookups(12)]
        sync_attr(2) [OF ok n(13) player_lookups(13)] sync_attr(2) [OF ok n(14) player_lookups(14)]
        sync_attr(2) [OF ok n(15) player_lookups(15)] sync_attr(2) [OF ok n(16) player_lookups(16)] player_lookups(1-6))
qed

text \<open>An element without children: its text is cut out, and the loop goes on behind its first character.\<close>

lemma elem_cut:
  assumes "CHR ''>'' \<notin> set t"
  shows "get_info (e @ t @ ''/>'' @ r) e ''/>'' = Some t"
proof -
  have "\<forall>k < length t. \<not> starts_with (drop k (t @ ''/>'' @ r)) ''/>''"
  proof (intro allI impI notI)
    fix k
    assume k: "k < length t" and "starts_with (drop k (t @ ''/>'' @ r)) ''/>''"
    then have "starts_with (drop k ((t @ ''/'') @ CHR ''>'' # r)) (''/'' @ CHR ''>'' # [])" by simp
    from match_reaches [OF this] assms k show False by simp
  qed
  then show ?thesis by (intro get_info_decomp) simp_all
qed

lemma sync_players_elems:
  assumes "list_all plain_player ps" "float_text strtof ftos" "CHR ''<'' \<notin> set w"
  shows "sync_players strtof (w @ concat (map (player_elem ftos) ps)) acc = Some (rev ps @ acc)"
  using assms(1,3)
proof (induction ps arbitrary: w acc)
  case Nil
  then have "strstr w ''<player'' = None" by (auto simp: strstr_none_iff)
  then show ?case by (subst sync_players.simps) simp
next
  case (Cons p ps)
  let ?t = "render_attrs (player_attrs ftos p)"
  let ?r = "concat (map (player_elem ftos) ps)"
  have pl: "plain_player p" "list_all plain_player ps" using Cons.prems by simp_all
  have "list_all (\<lambda>kv. set (fst kv) \<inter> {CHR ''<'', CHR ''>''} = {} \<and> plain_value (snd kv)) (player_attrs ftos p)"
    using player_attrs_values [OF pl(1) assms(2)] by (auto simp: list_all_iff)
  note nolt = render_plain [OF this]
  have "strstr (w @ concat (map (player_elem ftos) (p # ps))) ''<player'' = Some (''<player'' @ ?t @ ''/>'' @ ?r)"
    using strstr_skip_head [OF Cons.prems(2), of "''<player'' @ ?t @ ''/>'' @ ?r" "''player''"]
    by (simp add: player_elem_def)
  moreover have "get_info (''<player'' @ ?t @ ''/>'' @ ?r) ''<player'' ''/>'' = Some ?t"
    using nolt(2) by (rule elem_cut)
  moreover have "sync_players strtof ((''player'' @ ?t @ ''/>'') @ ?r) (p # acc) = Some (rev ps @ p # acc)"
    using pl(2) nolt(1) by (intro Cons.IH) auto
  ultimately show ?case
    using sync_player_elem [OF pl(1) assms(2)] by (subst sync_players.simps) simp
qed

text \<open>A message about the core of a room, as the server writes it.\<close>

definition core_attrs :: "s_gr_core \<Rightarrow> cstring \<Rightarrow> (cstring \<times> cstring) list" where
  "core_attrs c nm =
     [(''teams_switched'', int_dec (co_teams_switched c)), (''room_name'', escape nm),
      (''private'', int_dec (co_private c)), (''players'', int_dec (uint (co_num_players c))),
      (''can_start'', int_dec (co_can_start c)), (''team_balanced'', int_dec (co_team_balanced c)),
      (''min_ready_players'', int_dec (uint (co_min_ready_players c))), (''revision'', int_dec (uint (revision c)))]"

definition core_node :: "(u32 \<Rightarrow> cstring) \<Rightarrow> s_gr_core \<Rightarrow> cstring \<Rightarrow> gr_core_player list \<Rightarrow> cstring" where
  "core_node ftos c nm ps =
     render_attrs (core_attrs c nm) @ ''><players>'' @ concat (map (player_elem ftos) ps) @ ''</players>''"

definition core_message :: "(u32 \<Rightarrow> cstring) \<Rightarrow> cstring \<Rightarrow> u32 \<Rightarrow> s_gr_core \<Rightarrow> cstring \<Rightarrow> gr_core_player list \<Rightarrow> cstring" where
  "core_message ftos rid type c nm ps =
     ''<game_room'' @ render_attrs [(''room_id'', rid), (''room_type'', int_dec (uint type))]
     @ ''><core'' @ core_node ftos c nm ps @ ''</core></game_room>''"

definition byte_range :: "int \<Rightarrow> bool" where
  "byte_range i \<longleftrightarrow> - 128 \<le> i \<and> i < 128"

lemma elem_skip:
  assumes "plain_player p" "float_text strtof ftos" "c \<noteq> CHR ''p''"
  shows "strstr (player_elem ftos p @ r) (CHR ''<'' # c # q) = strstr r (CHR ''<'' # c # q)"
proof -
  have "list_all (\<lambda>kv. set (fst kv) \<inter> {CHR ''<'', CHR ''>''} = {} \<and> plain_value (snd kv)) (player_attrs ftos p)"
    using player_attrs_values [OF assms(1,2)] by (auto simp: list_all_iff)
  from render_plain(1) [OF this]
  have "strstr ((''player'' @ render_attrs (player_attrs ftos p) @ ''/>'') @ r) (CHR ''<'' # c # q) = strstr r (CHR ''<'' # c # q)"
    by (intro strstr_skip_head) auto
  with assms(3) show ?thesis by (simp add: player_elem_def)
qed

lemma elems_skip:
  assumes "list_all plain_player ps" "float_text strtof ftos" "c \<noteq> CHR ''p''"
  shows "strstr (concat (map (player_elem ftos) ps) @ r) (CHR ''<'' # c # q) = strstr r (CHR ''<'' # c # q)"
  using assms(1)
proof (induction ps)
  case Nil
  then show ?case by simp
next
  case (Cons p ps)
  then have "strstr (player_elem ftos p @ concat (map (player_elem ftos) ps) @ r) (CHR ''<'' # c # q) = strstr r (CHR ''<'' # c # q)"
    using elem_skip [of p strtof ftos c "concat (map (player_elem ftos) ps) @ r" q] assms(2,3) by simp
  then show ?case by simp
qed

lemma plain_room:
  assumes "plain_value rid" "plain_value (escape nm)"
  shows "list_all attr_ok (core_attrs c nm)" "list_all attr_ok [(''room_id'', rid), (''room_type'', int_dec (uint type))]"
    and "CHR ''<'' \<notin> set (render_attrs (core_attrs c nm))"
    and "CHR ''<'' \<notin> set (render_attrs [(''room_id'', rid), (''room_type'', int_dec (uint (type :: u32)))])"
proof -
  have c: "list_all (\<lambda>kv. name_ok (fst kv) \<and> set (fst kv) \<inter> {CHR ''<'', CHR ''>''} = {} \<and> plain_value (snd kv)) (core_attrs c nm)"
    using assms(2) plain_value_int by (simp add: core_attrs_def name_ok_def)
  have r: "list_all (\<lambda>kv. name_ok (fst kv) \<and> set (fst kv) \<inter> {CHR ''<'', CHR ''>''} = {} \<and> plain_value (snd kv))
      [(''room_id'', rid), (''room_type'', int_dec (uint type))]"
    using assms(1) plain_value_int by (simp add: name_ok_def)
  show "list_all attr_ok (core_attrs c nm)" "list_all attr_ok [(''room_id'', rid), (''room_type'', int_dec (uint type))]"
    using c r by (auto simp: list_all_iff intro!: plain_attr_ok)
  show "CHR ''<'' \<notin> set (render_attrs (core_attrs c nm))"
    by (rule render_plain(1)) (use c in \<open>auto simp: list_all_iff\<close>)
  show "CHR ''<'' \<notin> set (render_attrs [(''room_id'', rid), (''room_type'', int_dec (uint type))])"
    by (rule render_plain(1)) (use r in simp)
qed

lemma message_fields:
  assumes "list_all plain_player ps" "float_text strtof ftos" "plain_value rid" "plain_value (escape nm)"
  shows "field_node (core_message ftos rid type c nm ps) ''core'' = Some (core_node ftos c nm ps)"
    and "field_node (core_message ftos rid type c nm ps) ''custom_params'' = None"
    and "field_node (core_message ftos rid type c nm ps) ''mission'' = None"
    and "field_node (core_message ftos rid type c nm ps) ''session'' = None"
    and "field_node (core_message ftos rid type c nm ps) ''room_master'' = None"
    and "field_node (core_message ftos rid type c nm ps) ''regions'' = None"
    and "field_node (core_message ftos rid type c nm ps) ''auto_start'' = None"
    and "field_node (core_message ftos rid type c nm ps) ''clan_war'' = None"
    and "field_node (core_message ftos rid type c nm ps) ''ingame_chat'' = None"
    and "get_info (core_node ftos c nm ps) ''<players>'' ''</players>'' = Some (concat (map (player_elem ftos) ps))"
proof -
  let ?a = "render_attrs (core_attrs c nm)" and ?e = "concat (map (player_elem ftos) ps)"
  let ?g = "render_attrs [(''room_id'', rid), (''room_type'', int_dec (uint type))]"
  note sk = strstr_skip_head [OF plain_room(3) [OF assms(3,4), of c]] strstr_skip_head [OF plain_room(4) [OF assms(3,4), of type]]
    elems_skip [OF assms(1,2)]
  note d = core_message_def core_node_def
  let ?n = "core_node ftos c nm ps"
  have 1: "strstr (core_message ftos rid type c nm ps) ''<core'' = Some (''<core'' @ ?n @ ''</core></game_room>'')"
    using sk unfolding d by (simp del: render_attrs_simps)
  have 2: "strstr (?n @ ''</core></game_room>'') ''</core'' = Some ''</core></game_room>''"
    using sk unfolding d by (simp del: render_attrs_simps)
  from 1 2 show "field_node (core_message ftos rid type c nm ps) ''core'' = Some ?n"
    by (simp add: field_node_def get_info_def)
  have n1: "strstr (core_message ftos rid type c nm ps) (CHR ''<'' # x # q) = None"
    if x: "CHR ''g'' \<noteq> x" "CHR ''c'' \<noteq> x" "CHR ''p'' \<noteq> x" "CHR ''/'' \<noteq> x" for x q
    using x x(3) [symmetric] sk unfolding d by (simp del: render_attrs_simps)
  have n2: "strstr (core_message ftos rid type c nm ps) (CHR ''<'' # CHR ''c'' # x # q) = None" if "CHR ''o'' \<noteq> x" for x q
    using that sk unfolding d by (simp del: render_attrs_simps)
  show "field_node (core_message ftos rid type c nm ps) ''custom_params'' = None"
    "field_node (core_message ftos rid type c nm ps) ''mission'' = None"
    "field_node (core_message ftos rid type c nm ps) ''session'' = None"
    "field_node (core_message ftos rid type c nm ps) ''room_master'' = None"
    "field_node (core_message ftos rid type c nm ps) ''regions'' = None"
    "field_node (core_message ftos rid type c nm ps) ''auto_start'' = None"
    "field_node (core_message ftos rid type c nm ps) ''clan_war'' = None"
    "field_node (core_message ftos rid type c nm ps) ''ingame_chat'' = None"
    by (simp_all add: field_node_def get_info_def n1 n2)
  have "strstr ?n ''<players>'' = Some (''<players>'' @ ?e @ ''</players>'')"
    using sk unfolding d by simp
  moreover have "strstr (?e @ ''</players>'') ''</players>'' = Some ''</players>''"
    using sk(3) [of "CHR ''/''" "''</players>''" "''players>''"] by simp
  ultimately show "get_info ?n ''<players>'' ''</players>'' = Some ?e"
    by (simp add: get_info_def)
qed

lemma sync_attr_more:
  assumes "list_all attr_ok kvs" "name_ok n"
  shows "lookup_attr n kvs = Some v \<Longrightarrow> sync_str (render_attrs kvs @ r) n = Some v"
    and "lookup_attr n kvs = Some (int_dec (uint w)) \<Longrightarrow> sync_uint (render_attrs kvs @ r) n = w"
    and "lookup_attr n kvs = Some (int_dec i) \<Longrightarrow> byte_range i \<Longrightarrow> sync_char (render_attrs kvs @ r) n = i"
proof -
  show "lookup_attr n kvs = Some v \<Longrightarrow> sync_str (render_attrs kvs @ r) n = Some v"
    using get_attr [OF assms, of v r] by (simp add: sync_str_def)
  show "sync_uint (render_attrs kvs @ r) n = w" if "lookup_attr n kvs = Some (int_dec (uint w))"
  proof -
    have "- (2 ^ 63) \<le> uint w" "uint w < 2 ^ 63"
      using uint_lt2p [of w] order_trans [OF _ uint_ge_0 [of w], of "- (2 ^ 63)"] by simp_all
    with get_attr_int [OF assms that, of r] show ?thesis by (simp add: sync_uint_def sync_long_def c_uint_def)
  qed
  show "sync_char (render_attrs kvs @ r) n = i" if "lookup_attr n kvs = Some (int_dec i)" "byte_range i"
    using get_attr_int [OF assms that(1), of r] that(2)
    by (simp add: sync_char_def sync_long_def c_char_id byte_range_def)
qed

lemma core_lookups:
  "lookup_attr ''teams_switched'' (core_attrs c nm) = Some (int_dec (co_teams_switched c))"
  "lookup_attr ''private'' (core_attrs c nm) = Some (int_dec (co_private c))"
  "lookup_attr ''can_start'' (core_attrs c nm) = Some (int_dec (co_can_start c))"
  "lookup_attr ''team_balanced'' (core_attrs c nm) = Some (int_dec (co_team_balanced c))"
  "lookup_attr ''min_ready_players'' (core_attrs c nm) = Some (int_dec (uint (co_min_ready_players c)))"
  "lookup_attr ''players'' (core_attrs c nm) = Some (int_dec (uint (co_num_players c)))"
  "lookup_attr ''room_name'' (core_attrs c nm) = Some (escape nm)"
  "lookup_attr ''revision'' (core_attrs c nm) = Some (int_dec (uint (revision c)))"
  by (simp_all add: core_attrs_def attr_hit_def)

definition core_bytes :: "s_gr_core \<Rightarrow> bool" where
  "core_bytes c \<longleftrightarrow> byte_range (co_teams_switched c) \<and> byte_range (co_private c) \<and> byte_range (co_can_start c)
     \<and> byte_range (co_team_balanced c)"

lemma room_name_read:
  assumes "NUL \<notin> set nm"
  shows "sync_room_name same None (Some (escape nm)) = Some (Some nm)"
proof -
  obtain rest where "xml_deserialize_buf (\<lambda>_. NUL) (escape nm) True = Some (unescape (escape nm) @ NUL # rest)"
    using xml_deserialize_buf_eq [OF escape_no_NUL [OF assms]] by blast
  with assms show ?thesis by (simp add: sync_room_name_def xml_deserialize_inplace_def unescape_escape)
qed

lemma sync_core_read:
  assumes "list_all plain_player ps" "float_text strtof ftos" "plain_value rid" "plain_value (escape nm)"
    "NUL \<notin> set nm" "core_bytes c"
  shows "sync_core strtof same ((gm_core gameroom_init)\<lparr>revision := revision c\<rparr>) (core_node ftos c nm ps)
       = Some (c\<lparr>sync_type := GR_SYNC_CORE, co_room_name := Some nm, co_players := Some (rev ps)\<rparr>)"
    and "sync_uint (core_node ftos c nm ps) ''revision'' = revision c"
proof -
  note ok = plain_room(1) [OF assms(3,4), of c]
  have n: "name_ok ''teams_switched''" "name_ok ''private''" "name_ok ''can_start''" "name_ok ''team_balanced''"
    "name_ok ''min_ready_players''" "name_ok ''players''" "name_ok ''room_name''" "name_ok ''revision''"
    by (simp_all add: name_ok_def)
  let ?r = "''><players>'' @ concat (map (player_elem ftos) ps) @ ''</players>''"
  have node: "core_node ftos c nm ps = render_attrs (core_attrs c nm) @ ?r" by (simp add: core_node_def)
  have b: "byte_range (co_teams_switched c)" "byte_range (co_private c)" "byte_range (co_can_start c)" "byte_range (co_team_balanced c)"
    using assms(6) by (simp_all add: core_bytes_def)
  show "sync_uint (core_node ftos c nm ps) ''revision'' = revision c"
    unfolding node by (rule sync_attr_more(2) [OF ok n(8) core_lookups(8)])
  have "sync_players strtof (concat (map (player_elem ftos) ps)) [] = Some (rev ps)"
    using sync_players_elems [OF assms(1,2), of "[]" "[]"] by simp
  moreover have "get_info (render_attrs (core_attrs c nm) @ ?r) ''<players>'' ''</players>'' = Some (concat (map (player_elem ftos) ps))"
    using message_fields(10) [OF assms(1-4), of c] by (simp add: node)
  ultimately show "sync_core strtof same ((gm_core gameroom_init)\<lparr>revision := revision c\<rparr>) (core_node ftos c nm ps)
       = Some (c\<lparr>sync_type := GR_SYNC_CORE, co_room_name := Some nm, co_players := Some (rev ps)\<rparr>)"
    unfolding node sync_core_def sync_attr_more(1) [OF ok n(7) core_lookups(7)]
      sync_attr_more(2) [OF ok n(5) core_lookups(5)] sync_attr_more(2) [OF ok n(6) core_lookups(6)]
      sync_attr_more(3) [OF ok n(1) core_lookups(1) b(1)] sync_attr_more(3) [OF ok n(2) core_lookups(2) b(2)]
      sync_attr_more(3) [OF ok n(3) core_lookups(3) b(3)] sync_attr_more(3) [OF ok n(4) core_lookups(4) b(4)]
    using room_name_read [OF assms(5), of same] by (simp add: gameroom_init_def)
qed

text \<open>what the server writes about the core of a room (its settings, its escaped name and its players) is
  what a fresh room holds after parsing it; the players are listed last first.\<close>

theorem gameroom_core_roundtrip:
  assumes "list_all plain_player ps" "float_text strtof ftos" "plain_value rid" "plain_value (escape nm)"
    "NUL \<notin> set nm" "core_bytes c" "revision c \<noteq> 0"
  shows "gameroom_parse strtof same gameroom_init (core_message ftos rid type c nm ps)
       = Some (gameroom_init\<lparr>gm_room_id := Some rid, gm_room_type := type,
                 gm_core := c\<lparr>sync_type := GR_SYNC_CORE, co_room_name := Some nm, co_players := Some (rev ps)\<rparr>\<rparr>, GR_SYNC_CORE)"
proof -
  let ?m = "core_message ftos rid type c nm ps"
  let ?kvs = "[(''room_id'', rid), (''room_type'', int_dec (uint type))]"
  let ?r = "''><core'' @ core_node ftos c nm ps @ ''</core></game_room>''"
  note ok = plain_room(2) [OF assms(3,4), where type = type]
  have nd: "name_ok ''room_id''" "name_ok ''room_type''" by (simp_all add: name_ok_def)
  have l: "lookup_attr ''room_id'' ?kvs = Some rid" "lookup_attr ''room_type'' ?kvs = Some (int_dec (uint type))"
    by (simp_all add: attr_hit_def)
  obtain R where R: "render_attrs ?kvs @ ?r = CHR '' '' # R" by (simp add: render_attr_def)
  have m: "?m = ''<game_room'' @ CHR '' '' # R" unfolding R [symmetric] by (simp add: core_message_def del: render_attrs_simps)
  have id: "get_info ?m (''room_id='' @ [apos]) [apos] = Some rid"
    using get_attr [OF ok nd(1) l(1), of ?r] unfolding m R by (simp add: get_info_def)
  have "get_info_int ?m (''room_type='' @ [apos]) [apos] = uint type"
  proof -
    have "- (2 ^ 63) \<le> uint type" "uint type < 2 ^ 63"
      using uint_lt2p [of type] order_trans [OF _ uint_ge_0 [of type], of "- (2 ^ 63)"] by simp_all
    with get_attr_int [OF ok nd(2) l(2), of ?r] show ?thesis unfolding m R by (simp add: get_info_int_def)
  qed
  then have ty: "c_uint (get_info_int ?m (''room_type='' @ [apos]) [apos]) = type" by (simp add: c_uint_def)
  note f = message_fields(1-9) [OF assms(1-4), where type = type and c = c]
  have pos: "0 < revision c" using assms(7) by (simp add: word_gt_0)
  have core: "gameroom_sync_node (sync_core strtof same) (Some (core_node ftos c nm ps)) (gm_core gameroom_init)
      = Some (c\<lparr>sync_type := GR_SYNC_CORE, co_room_name := Some nm, co_players := Some (rev ps)\<rparr>, GR_SYNC_CORE)"
  proof -
    have "revision (gm_core gameroom_init) = 0" by (simp add: gameroom_init_def)
    with sync_core_read(1) [OF assms(1-6), of same] sync_core_read(2) [OF assms(1-6)] pos show ?thesis
      by (simp add: gameroom_sync_node_def Let_def)
  qed
  have none: "gameroom_sync_node sy None lo = Some (lo, 0)" for sy :: "'a s_gr_sync_scheme \<Rightarrow> cstring \<Rightarrow> 'a s_gr_sync_scheme crash" and lo
    by (simp add: gameroom_sync_node_def)
  show ?thesis
    unfolding gameroom_parse_def f id ty core
    by (simp add: gameroom_sync_node_def)
qed

definition sample_player :: gr_core_player where
  "sample_player =
     \<lparr>pl_nickname = Some ''Ann'', pl_clan_name = Some [], pl_profile_id = Some ''42'', pl_online_id = None,
      pl_group_id = None, pl_region_id = Some ''global'', pl_class_id = 0, pl_team_id = 1, pl_status = 1,
      pl_presence = 17, pl_observer = 0, pl_skill = 80, pl_experience = 5, pl_rank = 2, pl_badge = 1,
      pl_mark = 2, pl_stripe = 3\<rparr>"

definition sample_core :: s_gr_core where
  "sample_core = (gm_core gameroom_init)\<lparr>revision := 7, co_can_start := 1, co_num_players := 1\<rparr>"

definition int_strtof :: "cstring \<Rightarrow> u32" where
  "int_strtof s = word_of_int (strtoll s)"

lemma int_float_text: "float_text int_strtof (\<lambda>f. int_dec (uint f))"
proof -
  have "strtoll (int_dec (uint f) @ apos # r) = uint f" for f :: u32 and r
    using uint_lt2p [of f] order_trans [OF _ uint_ge_0 [of f], of "- (2 ^ 63)"]
    by (intro strtoll_int_dec) (auto simp: isdigit_def)
  then show ?thesis by (simp add: float_text_def int_strtof_def plain_value_int)
qed

theorem gameroom_core_roundtrip_witness:
  "gameroom_parse int_strtof False gameroom_init
       (core_message (\<lambda>f. int_dec (uint f)) ''99'' 2 sample_core ''Ann & co'' [sample_player])
     = Some (gameroom_init\<lparr>gm_room_id := Some ''99'', gm_room_type := 2,
         gm_core := sample_core\<lparr>sync_type := GR_SYNC_CORE, co_room_name := Some ''Ann & co'', co_players := Some [sample_player]\<rparr>\<rparr>,
         GR_SYNC_CORE)"
proof -
  have "list_all plain_player [sample_player]"
    by (simp add: plain_player_def sample_player_def plain_value_def)
  moreover have "plain_value ''99''" "plain_value (escape ''Ann & co'')"
    by (simp_all add: plain_value_def escape_def escape_char_def)
  moreover have "core_bytes sample_core" "revision sample_core \<noteq> 0"
    by (simp_all add: core_bytes_def byte_range_def sample_core_def gameroom_init_def)
  ultimately show ?thesis
    using gameroom_core_roundtrip [OF _ int_float_text, of "[sample_player]" "''99''" "''Ann & co''" sample_core False 2] by simp
qed

theorem gameroom_sync_merge_witness:
  "\<exists>src ret. gameroom_parse int_strtof False gameroom_init
       (core_message (\<lambda>f. int_dec (uint f)) ''99'' 2 sample_core ''Ann'' [sample_player]) = Some (src, ret)
     \<and> gm_core (gameroom_update gameroom_init src ret) = gm_core src
     \<and> gm_mission (gameroom_update gameroom_init src ret) = gm_mission gameroom_init"
proof -
  have h: "list_all plain_player [sample_player]" "plain_value ''99''" "plain_value (escape ''Ann'')" "NUL \<notin> set ''Ann''"
    "core_bytes sample_core"
    by (simp_all add: plain_player_def sample_player_def plain_value_def escape_def escape_char_def core_bytes_def byte_range_def
        sample_core_def gameroom_init_def)
  let ?m = "core_message (\<lambda>f. int_dec (uint f)) ''99'' 2 sample_core ''Ann'' [sample_player]"
  note f = message_fields(1-9) [OF h(1) int_float_text h(2,3), where type = 2 and c = sample_core]
  note sc = sync_core_read [OF h(1) int_float_text h(2-5)]
  have "revision (gm_core gameroom_init) < revision sample_core" by (simp add: gameroom_init_def sample_core_def)
  then obtain src ret where p: "gameroom_parse int_strtof False gameroom_init ?m = Some (src, ret)"
    unfolding gameroom_parse_def f using sc by (auto simp: gameroom_sync_node_def Let_def)
  from gameroom_sync_merge [OF p, of gameroom_init] p sc(2) show ?thesis
    unfolding f by (simp add: sample_core_def)
qed

subsection \<open>Old revisions, freed rooms\<close>

lemma regions_message:
  assumes "plain_value v" "rv \<noteq> 0"
  shows "gameroom_parse strtof same gameroom_init (''<regions'' @ render_attrs [(''region_id'', v), (''revision'', int_dec (uint rv))] @ ''/>'')
       = Some (gameroom_init\<lparr>gm_regions := \<lparr>revision = rv, sync_type = GR_SYNC_REGIONS, re_region_id = Some v\<rparr>\<rparr>, GR_SYNC_REGIONS)"
proof -
  let ?kvs = "[(''region_id'', v), (''revision'', int_dec (uint rv))]"
  let ?m = "''<regions'' @ render_attrs ?kvs @ ''/>''"
  have ok: "list_all attr_ok ?kvs"
    using assms(1) plain_value_int by (auto simp: name_ok_def intro!: plain_attr_ok)
  have plain: "list_all (\<lambda>kv. set (fst kv) \<inter> {CHR ''<'', CHR ''>''} = {} \<and> plain_value (snd kv)) ?kvs"
    using assms(1) plain_value_int by simp
  note np = render_plain [OF plain]
  obtain R where R: "render_attrs ?kvs = CHR '' '' # R" by (simp add: render_attr_def)
  have nR: "CHR ''<'' \<notin> set R" "CHR ''>'' \<notin> set R" using np unfolding R by simp_all
  have m: "?m = ''<regions'' @ CHR '' '' # R @ ''/>''" using R by (simp del: render_attrs_simps)
  have skip: "strstr (R @ ''/>'') (CHR ''<'' # p) = None" for p
    using strstr_skip_head [OF nR(1), of "''/>''" p] by simp
  have none: "field_node ?m f = None"
    if "f \<in> {''core'', ''custom_params'', ''mission'', ''session'', ''room_master'', ''auto_start'', ''clan_war'', ''ingame_chat''}" for f
    using that skip unfolding m by (auto simp: field_node_def get_info_def)
  have "get_info (''<regions'' @ CHR '' '' # R @ ''/>'') ''<regions'' ''</regions'' = None"
    using skip by (simp add: get_info_def)
  moreover have "get_info (''<regions '' @ R @ ''/>'' @ []) ''<regions '' ''/>'' = Some R"
    by (rule elem_cut [OF nR(2)])
  ultimately have node: "field_node ?m ''regions'' = Some R"
    unfolding m by (simp add: field_node_def)
  have n: "name_ok ''region_id''" "name_ok ''revision''" "name_ok ''room_type''" "name_ok ''room_id''" by (simp_all add: name_ok_def)
  have l: "lookup_attr ''region_id'' ?kvs = Some v" "lookup_attr ''revision'' ?kvs = Some (int_dec (uint rv))"
    "lookup_attr ''room_type'' ?kvs = None" "lookup_attr ''room_id'' ?kvs = None" by (simp_all add: attr_hit_def)
  have "sync_str (render_attrs ?kvs) ''region_id'' = Some v" "sync_uint (render_attrs ?kvs) ''revision'' = rv"
    using sync_attr(1) [OF ok n(1)] sync_attr(2) [OF ok n(2) l(2)] l(1) by simp_all
  then have vals: "sync_str R ''region_id'' = Some v" "sync_uint R ''revision'' = rv"
    unfolding R sync_str_def sync_uint_def sync_long_def get_info_def get_info_int_def by simp_all
  have room: "strstr ?m (''room_id='' @ [apos]) = None" "strstr ?m (''room_type='' @ [apos]) = None"
    using strstr_attrs [OF ok n(3), of "''/>''"] strstr_attrs [OF ok n(4), of "''/>''"] l(3,4) unfolding m R by simp_all
  have pos: "0 < rv" using assms(2) by (simp add: word_gt_0)
  have "revision (gm_regions gameroom_init) = 0" by (simp add: gameroom_init_def)
  then show ?thesis
    unfolding gameroom_parse_def node using none room vals pos
    by (simp add: gameroom_sync_node_def get_info_def get_info_int_def c_uint_def sync_regions_def Let_def)
      (simp add: gameroom_init_def)
qed

text \<open>the revisions do not order the updates: after an update of the regions with revision 9, one with
  revision 5 is applied all the same and takes the revision back.\<close>

theorem gameroom_stale_sync_applied:
  "\<exists>s1 c1 s2 c2.
     gameroom_parse strtof same gameroom_init (''<regions'' @ render_attrs [(''region_id'', ''eu''), (''revision'', ''9'')] @ ''/>'') = Some (s1, c1)
   \<and> gameroom_parse strtof same gameroom_init (''<regions'' @ render_attrs [(''region_id'', ''us''), (''revision'', ''5'')] @ ''/>'') = Some (s2, c2)
   \<and> gm_regions (gameroom_update gameroom_init s1 c1) = \<lparr>revision = 9, sync_type = GR_SYNC_REGIONS, re_region_id = Some ''eu''\<rparr>
   \<and> gm_regions (gameroom_update (gameroom_update gameroom_init s1 c1) s2 c2)
       = \<lparr>revision = 5, sync_type = GR_SYNC_REGIONS, re_region_id = Some ''us''\<rparr>"
proof -
  have i: "int_dec (uint (9 :: u32)) = ''9''" "int_dec (uint (5 :: u32)) = ''5''"
    by (simp_all add: int_dec_def nat_dec.simps digit_char_def char_of_def bit_iff_odd)
  have p: "plain_value ''eu''" "plain_value ''us''" by (simp_all add: plain_value_def)
  note m = regions_message [OF p(1), of 9 strtof same, unfolded i] regions_message [OF p(2), of 5 strtof same, unfolded i]
  have c: "changed GR_SYNC_REGIONS GR_SYNC_REGIONS" by (simp add: changed_def gr_sync_types)
  show ?thesis using m c by (simp add: gameroom_update_def)
qed

end
