(* ===== verification/Contacts.thy ===== *)
theory Contacts
  imports WbList CString
begin

text \<open>
  \<open>src/friend.c\<close>, \<open>src/clanmate.c\<close> and \<open>src/xmpp/room.c\<close>: the lists of friends, clan
  mates and chat rooms of the session.  A list that is not allocated is \<open>None\<close>; the lists
  themselves are the abstract lists that \<open>WbList\<close> proves the pointer lists to implement.

  Names and profile ids are copied with \<open>strdup\<close>, which crashes on NULL, so that the stored ones
  are never NULL; a Jabber id may be.  The locale \<open>keyed_list\<close> states what the session relies on
  when it uses such a list as a map from keys to entries.
\<close>

subsection \<open>Lists as maps\<close>

locale keyed_list =
  fixes inv :: "'l \<Rightarrow> bool"
    and entries :: "'l \<Rightarrow> cstring \<Rightarrow> 'v option"
    and ok :: "'a \<Rightarrow> bool"
    and val :: "'a \<Rightarrow> 'v"
    and key :: "'v \<Rightarrow> cstring"
    and get :: "cstring \<Rightarrow> 'l \<Rightarrow> 'v option crash"
    and add :: "'a \<Rightarrow> 'l \<Rightarrow> 'l crash"
    and del :: "cstring \<Rightarrow> 'l \<Rightarrow> 'l crash"
  assumes get_law: "inv l \<Longrightarrow> get k l = Some (entries l k)"
    and key_law: "inv l \<Longrightarrow> entries l k = Some v \<Longrightarrow> key v = k"
    and add_law: "inv l \<Longrightarrow> ok a \<Longrightarrow> entries l (key (val a)) = None \<Longrightarrow>
                    \<exists>l'. add a l = Some l' \<and> inv l' \<and> entries l' = (entries l)(key (val a) \<mapsto> val a)"
    and del_law: "inv l \<Longrightarrow> \<exists>l'. del k l = Some l' \<and> inv l' \<and> entries l' = (entries l)(k := None)"
begin

lemma get_added:
  assumes "inv l" "ok a" "entries l (key (val a)) = None"
  shows "\<exists>l'. add a l = Some l' \<and> inv l' \<and> get k l' = (if k = key (val a) then Some (Some (val a)) else get k l)"
  using add_law [OF assms] assms(1) by (auto simp: get_law)

lemma get_deleted:
  assumes "inv l"
  shows "\<exists>l'. del k l = Some l' \<and> inv l' \<and> get k' l' = (if k' = k then Some None else get k' l)"
  using del_law [OF assms, of k] assms by (auto simp: get_law)

text \<open>A removed key can be added again, whatever was stored under it.\<close>

lemma replace:
  assumes "inv l" "ok a"
  shows "\<exists>l1 l2. del (key (val a)) l = Some l1 \<and> add a l1 = Some l2 \<and> inv l2
           \<and> entries l2 = (entries l)(key (val a) \<mapsto> val a)"
proof -
  obtain l1 where l1: "del (key (val a)) l = Some l1" "inv l1" "entries l1 = (entries l)(key (val a) := None)"
    using del_law [OF assms(1)] by blast
  then have "entries l1 (key (val a)) = None" by simp
  from add_law [OF l1(2) assms(2) this] l1 show ?thesis by auto
qed

end

locale keyed_list_update = keyed_list +
  fixes upd :: "'a \<Rightarrow> 'l \<Rightarrow> 'l crash"
  assumes upd_law: "inv l \<Longrightarrow> ok a \<Longrightarrow> \<exists>l'. upd a l = Some l' \<and> inv l'
                      \<and> entries l' = (if entries l (key (val a)) = None then entries l else (entries l)(key (val a) \<mapsto> val a))"
begin

text \<open>An update never creates an entry, and replaces the one it finds.\<close>

lemma get_updated:
  assumes "inv l" "ok a"
  shows "\<exists>l'. upd a l = Some l' \<and> inv l'
           \<and> get k l' = (if k = key (val a) \<and> get k l \<noteq> Some None then Some (Some (val a)) else get k l)"
proof -
  obtain l' where l': "upd a l = Some l'" "inv l'"
    "entries l' = (if entries l (key (val a)) = None then entries l else (entries l)(key (val a) \<mapsto> val a))"
    using upd_law [OF assms] by blast
  then show ?thesis using assms(1) by (auto simp: get_law)
qed

text \<open>After adding, an update and a removal act on the same entry.\<close>

lemma add_update_delete:
  assumes "inv l" "ok a" "ok b" "entries l (key (val a)) = None" "key (val b) = key (val a)"
  shows "\<exists>l1 l2 l3. add a l = Some l1 \<and> upd b l1 = Some l2 \<and> del (key (val a)) l2 = Some l3 \<and> inv l3
           \<and> get (key (val a)) l1 = Some (Some (val a)) \<and> get (key (val a)) l2 = Some (Some (val b)) \<and> entries l3 = entries l"
proof -
  obtain l1 where l1: "add a l = Some l1" "inv l1" "entries l1 = (entries l)(key (val a) \<mapsto> val a)"
    using add_law [OF assms(1,2,4)] by blast
  obtain l2 where l2: "upd b l1 = Some l2" "inv l2" "entries l2 = (entries l1)(key (val a) \<mapsto> val b)"
    using upd_law [OF l1(2) assms(3)] l1(3) assms(5) by auto
  obtain l3 where "del (key (val a)) l2 = Some l3" "inv l3" "entries l3 = (entries l2)(key (val a) := None)"
    using del_law [OF l2(2)] by blast
  with l1 l2 assms(4) show ?thesis by (auto simp: get_law fun_upd_idem)
qed

end

text \<open>Association by a key that is never NULL.\<close>

definition keyed :: "('v \<Rightarrow> cstring) \<Rightarrow> 'v list \<Rightarrow> cstring \<Rightarrow> 'v option" where
  "keyed key l k = find (\<lambda>v. key v = k) l"

lemma keyed_simps [simp]:
  "keyed key [] k = None" "keyed key (v # l) k = (if key v = k then Some v else keyed key l k)"
  by (simp_all add: keyed_def)

lemma keyed_key: "keyed key l k = Some v \<Longrightarrow> key v = k \<and> v \<in> set l"
  by (induction l) (auto split: if_splits)

lemma keyed_None: "keyed key l k = None \<longleftrightarrow> k \<notin> key ` set l"
  by (induction l) auto

lemma keyed_remove:
  "distinct (map key l) \<Longrightarrow> keyed key (remove_first (\<lambda>v. key v = k) l) = (keyed key l)(k := None)"
proof (induction l)
  case Nil
  then show ?case by (auto simp: fun_eq_iff)
next
  case (Cons v l)
  show ?case
  proof (cases "key v = k")
    case True
    with Cons.prems have "keyed key l k = None" by (auto simp: keyed_None)
    with True show ?thesis by (auto simp: fun_eq_iff)
  next
    case False
    with Cons show ?thesis by (auto simp: fun_eq_iff)
  qed
qed

lemma distinct_remove_first: "distinct (map key l) \<Longrightarrow> distinct (map key (remove_first m l))"
  by (induction l) (use set_remove_first in fastforce)+

lemma keyed_modify:
  assumes "\<And>x. key x = k \<Longrightarrow> f x = w" "key w = k"
  shows "keyed key (modify_first (\<lambda>v. key v = k) f l) = (if keyed key l k = None then keyed key l else (keyed key l)(k \<mapsto> w))"
proof (induction l)
  case Nil
  then show ?case by (auto simp: fun_eq_iff)
next
  case (Cons v l)
  then show ?case using assms by (auto simp: fun_eq_iff split: if_splits)
qed

lemma modify_keys:
  "(\<And>x. key x = k \<Longrightarrow> key (f x) = k) \<Longrightarrow> map key (modify_first (\<lambda>v. key v = k) f l) = map key l"
  by (induction l) auto

subsection \<open>Friends\<close>

record friend =
  fr_jid :: cptr
  fr_nickname :: cstring
  fr_profile_id :: cstring
  fr_status :: u32
  fr_experience :: u32

definition nonempty_ptr :: "cptr \<Rightarrow> cptr" where
  "nonempty_ptr p = (case p of None \<Rightarrow> None | Some s \<Rightarrow> if s = [] then None else Some s)"

definition friend_new :: "cptr \<Rightarrow> cptr \<Rightarrow> cptr \<Rightarrow> int \<Rightarrow> int \<Rightarrow> friend crash" where
  "friend_new jid nickname profile_id status experience =
     do {
       n \<leftarrow> deref nickname;
       p \<leftarrow> deref profile_id;
       Some \<lparr>fr_jid = nonempty_ptr jid, fr_nickname = n, fr_profile_id = p,
             fr_status = c_uint status, fr_experience = c_uint experience\<rparr>
     }"

type_synonym friends = "friend list option"

definition friend_list_get :: "friends \<Rightarrow> cptr \<Rightarrow> friend option" where
  "friend_list_get friends nick =
     (case (friends, nick) of
        (Some l, Some n) \<Rightarrow> find (\<lambda>f. fr_nickname f = n) l
      | _ \<Rightarrow> None)"

definition friend_list_get_by_pid :: "friends \<Rightarrow> cptr \<Rightarrow> friend option" where
  "friend_list_get_by_pid friends pid =
     (case (friends, pid) of
        (Some l, Some p) \<Rightarrow> find (\<lambda>f. fr_profile_id f = p) l
      | _ \<Rightarrow> None)"

definition friend_list_add :: "cptr \<Rightarrow> cptr \<Rightarrow> cptr \<Rightarrow> int \<Rightarrow> int \<Rightarrow> friends \<Rightarrow> (friends \<times> friend) crash" where
  "friend_list_add jid nickname profile_id status experience friends =
     do {
       f \<leftarrow> friend_new jid nickname profile_id status experience;
       l \<leftarrow> deref friends;
       Some (Some (f # l), f)
     }"

definition friend_list_update :: "cptr \<Rightarrow> cptr \<Rightarrow> cptr \<Rightarrow> int \<Rightarrow> int \<Rightarrow> friends \<Rightarrow> friends crash" where
  "friend_list_update jid nickname profile_id status experience friends =
     do {
       l \<leftarrow> deref friends;
       found \<leftarrow> find_crash (\<lambda>f. strcmp_eq (Some (fr_nickname f)) nickname) l;
       (case found of
          None \<Rightarrow> Some (Some l)
        | Some _ \<Rightarrow>
            do {
              f' \<leftarrow> friend_new jid nickname profile_id status experience;
              map_option Some (modify_crash (\<lambda>f. strcmp_eq (Some (fr_nickname f)) nickname) (\<lambda>_. f') l)
            })
     }"

definition friend_list_remove :: "cptr \<Rightarrow> friends \<Rightarrow> friends crash" where
  "friend_list_remove nickname friends =
     do {
       l \<leftarrow> deref friends;
       map_option Some (remove_crash (\<lambda>f. strcmp_eq (Some (fr_nickname f)) nickname) l)
     }"

definition friend_list_empty :: "friends \<Rightarrow> friends crash" where
  "friend_list_empty friends = map_option (\<lambda>_. Some []) (deref friends)"

definition friend_list_init :: friends where
  "friend_list_init = Some []"

definition friend_list_free :: "friends \<Rightarrow> friends crash" where
  "friend_list_free friends = map_option (\<lambda>_. None) (deref friends)"

subsection \<open>Clan mates\<close>

record clanmate =
  cm_jid :: cptr
  cm_nickname :: cstring
  cm_profile_id :: cstring
  cm_status :: u32
  cm_experience :: u32
  cm_clan_points :: u32
  cm_clan_role :: u32

datatype clan_update = CLAN_UPDATE_CHANGED | CLAN_UPDATE_JOINED | CLAN_UPDATE_LEFT

record clan_info =
  cl_mates :: "clanmate list option"
  cl_points :: u32
  cl_own_position :: u32

definition clanmate_new :: "cptr \<Rightarrow> cptr \<Rightarrow> cptr \<Rightarrow> int \<Rightarrow> int \<Rightarrow> int \<Rightarrow> int \<Rightarrow> clanmate crash" where
  "clanmate_new jid nickname profile_id status experience clan_points clan_role =
     do {
       n \<leftarrow> deref nickname;
       p \<leftarrow> deref profile_id;
       Some \<lparr>cm_jid = nonempty_ptr jid, cm_nickname = n, cm_profile_id = p, cm_status = c_uint status,
             cm_experience = c_uint experience, cm_clan_points = c_uint clan_points, cm_clan_role = c_uint clan_role\<rparr>
     }"

definition clanmate_list_get :: "('x clan_info_scheme) \<Rightarrow> cptr \<Rightarrow> clanmate option" where
  "clanmate_list_get c nick =
     (case (cl_mates c, nick) of
        (Some l, Some n) \<Rightarrow> find (\<lambda>m. cm_nickname m = n) l
      | _ \<Rightarrow> None)"

definition clanmate_list_get_by_pid :: "('x clan_info_scheme) \<Rightarrow> cptr \<Rightarrow> clanmate option" where
  "clanmate_list_get_by_pid c pid =
     (case (cl_mates c, pid) of
        (Some l, Some p) \<Rightarrow> find (\<lambda>m. cm_profile_id m = p) l
      | _ \<Rightarrow> None)"

text \<open>One step of the traversal: the position counts down in 32 bits.\<close>

definition compute_own_position :: "u32 \<Rightarrow> clanmate \<Rightarrow> u32 \<Rightarrow> u32" where
  "compute_own_position points m pos = (if cm_clan_points m < points then pos - 1 else pos)"

definition clanmate_list_add ::
  "cptr \<Rightarrow> cptr \<Rightarrow> cptr \<Rightarrow> int \<Rightarrow> int \<Rightarrow> int \<Rightarrow> int \<Rightarrow> ('x clan_info_scheme) \<Rightarrow> ('x clan_info_scheme) crash" where
  "clanmate_list_add jid nickname profile_id status experience clan_points clan_role c =
     do {
       m \<leftarrow> clanmate_new jid nickname profile_id status experience clan_points clan_role;
       l \<leftarrow> deref (cl_mates c);
       Some (c\<lparr>cl_mates := Some (m # l)\<rparr>)
     }"

text \<open>The comparison function of the list compares nicknames.\<close>

definition clanmate_list_remove :: "cptr \<Rightarrow> ('x clan_info_scheme) \<Rightarrow> ('x clan_info_scheme) crash" where
  "clanmate_list_remove profile_id c =
     do {
       l \<leftarrow> deref (cl_mates c);
       l' \<leftarrow> remove_crash (\<lambda>m. strcmp_eq (Some (cm_nickname m)) profile_id) l;
       Some (c\<lparr>cl_mates := Some l'\<rparr>)
     }"

definition update_own_position :: "('x clan_info_scheme) \<Rightarrow> ('x clan_info_scheme) crash" where
  "update_own_position c =
     do {
       l \<leftarrow> deref (cl_mates c);
       Some (c\<lparr>cl_own_position := fold (compute_own_position (cl_points c)) l (word_of_nat (length l + 1))\<rparr>)
     }"

definition clanmate_list_update ::
  "cptr \<Rightarrow> cptr \<Rightarrow> cptr \<Rightarrow> int \<Rightarrow> int \<Rightarrow> int \<Rightarrow> int \<Rightarrow> ('x clan_info_scheme)
     \<Rightarrow> (('x clan_info_scheme) \<times> clan_update) crash" where
  "clanmate_list_update jid nickname profile_id status experience clan_points clan_role c =
     do {
       (c1, ret) \<leftarrow>
         (case clanmate_list_get_by_pid c profile_id of
            None \<Rightarrow>
              do {
                c' \<leftarrow> clanmate_list_add jid nickname profile_id status experience clan_points clan_role c;
                Some (c', CLAN_UPDATE_JOINED)
              }
          | Some f \<Rightarrow>
              if nickname = None
              then do { c' \<leftarrow> clanmate_list_remove profile_id c; Some (c', CLAN_UPDATE_LEFT) }
              else do {
                     m \<leftarrow> clanmate_new jid nickname profile_id status experience clan_points clan_role;
                     l \<leftarrow> deref (cl_mates c);
                     Some (c\<lparr>cl_mates := Some (modify_first (\<lambda>x. Some (cm_profile_id x) = profile_id) (\<lambda>_. m) l)\<rparr>,
                           CLAN_UPDATE_CHANGED)
                   });
       c2 \<leftarrow> update_own_position c1;
       Some (c2, ret)
     }"

definition clanmate_list_empty :: "('x clan_info_scheme) \<Rightarrow> ('x clan_info_scheme) crash" where
  "clanmate_list_empty c = map_option (\<lambda>_. c\<lparr>cl_mates := Some []\<rparr>) (deref (cl_mates c))"

definition clanmate_list_init :: "('x clan_info_scheme) \<Rightarrow> ('x clan_info_scheme)" where
  "clanmate_list_init c = c\<lparr>cl_mates := Some []\<rparr>"

definition clanmate_list_free :: "('x clan_info_scheme) \<Rightarrow> ('x clan_info_scheme) crash" where
  "clanmate_list_free c = map_option (\<lambda>_. c\<lparr>cl_mates := None\<rparr>) (deref (cl_mates c))"

subsection \<open>Chat rooms\<close>

datatype e_chat_room_type = CHAT_ROOM_OTHER | CHAT_ROOM_GLOBAL | CHAT_ROOM_CLAN | CHAT_ROOM_PVE | CHAT_ROOM_PVP

record room =
  ro_jid :: cptr
  ro_type :: e_chat_room_type

definition room_new :: "cptr \<Rightarrow> room" where
  "room_new jid =
     \<lparr>ro_jid = nonempty_ptr jid,
      ro_type = (case nonempty_ptr jid of
                   None \<Rightarrow> CHAT_ROOM_OTHER
                 | Some s \<Rightarrow>
                     if strstr s ''pve'' \<noteq> None then CHAT_ROOM_PVE
                     else if strstr s ''pvp'' \<noteq> None then CHAT_ROOM_PVP
                     else if strstr s ''clan'' \<noteq> None then CHAT_ROOM_CLAN
                     else if strstr s ''global'' \<noteq> None then CHAT_ROOM_GLOBAL
                     else CHAT_ROOM_OTHER)\<rparr>"

type_synonym rooms = "room list option"

definition room_list_find :: "cptr \<Rightarrow> rooms \<Rightarrow> room option crash" where
  "room_list_find jid rooms = do { l \<leftarrow> deref rooms; find_crash (\<lambda>r. strcmp_eq (ro_jid r) jid) l }"

definition room_list_add :: "cptr \<Rightarrow> rooms \<Rightarrow> rooms crash" where
  "room_list_add jid rooms =
     do {
       found \<leftarrow> room_list_find jid rooms;
       (case found of
          Some _ \<Rightarrow> Some rooms
        | None \<Rightarrow> do { l \<leftarrow> deref rooms; Some (Some (room_new jid # l)) })
     }"

definition room_list_remove :: "cptr \<Rightarrow> rooms \<Rightarrow> rooms crash" where
  "room_list_remove jid rooms =
     do {
       l \<leftarrow> deref rooms;
       map_option Some (remove_crash (\<lambda>r. strcmp_eq (ro_jid r) jid) l)
     }"

definition room_list_init :: rooms where
  "room_list_init = Some []"

definition room_list_free :: "rooms \<Rightarrow> rooms crash" where
  "room_list_free rooms = map_option (\<lambda>_. None) (deref rooms)"

subsection \<open>The lists keep their keys unique\<close>

definition friends_ok :: "friends \<Rightarrow> bool" where
  "friends_ok fs \<longleftrightarrow> (case fs of None \<Rightarrow> False | Some l \<Rightarrow> distinct (map fr_nickname l))"

definition friend_entries :: "friends \<Rightarrow> cstring \<Rightarrow> friend option" where
  "friend_entries fs k = (case fs of None \<Rightarrow> None | Some l \<Rightarrow> keyed fr_nickname l k)"

definition stored_friend :: "friend \<Rightarrow> friend" where
  "stored_friend f = f\<lparr>fr_jid := nonempty_ptr (fr_jid f)\<rparr>"

text \<open>The operations with their five arguments in one value.\<close>

definition add_friend :: "friend \<Rightarrow> friends \<Rightarrow> friends crash" where
  "add_friend f fs = map_option fst
     (friend_list_add (fr_jid f) (Some (fr_nickname f)) (Some (fr_profile_id f)) (uint (fr_status f)) (uint (fr_experience f)) fs)"

definition update_friend :: "friend \<Rightarrow> friends \<Rightarrow> friends crash" where
  "update_friend f fs =
     friend_list_update (fr_jid f) (Some (fr_nickname f)) (Some (fr_profile_id f)) (uint (fr_status f)) (uint (fr_experience f)) fs"

definition find_friend :: "cstring \<Rightarrow> friends \<Rightarrow> friend option crash" where
  "find_friend k fs = Some (friend_list_get fs (Some k))"

lemma friend_new_value:
  "friend_new (fr_jid f) (Some (fr_nickname f)) (Some (fr_profile_id f)) (uint (fr_status f)) (uint (fr_experience f))
     = Some (stored_friend f)"
  by (simp add: friend_new_def stored_friend_def c_uint_def)

lemma stored_friend_simps [simp]: "fr_nickname (stored_friend f) = fr_nickname f"
  by (simp add: stored_friend_def)

lemma find_keyed: "find (\<lambda>v. key v = k) l = keyed key l k"
  by (simp add: keyed_def)

lemma update_friend_eq:
  "update_friend f (Some l) = Some (Some (if keyed fr_nickname l (fr_nickname f) = None then l
      else modify_first (\<lambda>x. fr_nickname x = fr_nickname f) (\<lambda>_. stored_friend f) l))"
  by (simp add: update_friend_def friend_list_update_def friend_new_value find_keyed split: option.split)

interpretation friend_map: keyed_list_update friends_ok friend_entries "\<lambda>_. True" stored_friend fr_nickname
  find_friend add_friend "\<lambda>k. friend_list_remove (Some k)" update_friend
proof (unfold_locales, goal_cases)
  case (1 l k)
  then show ?case
    by (auto simp: find_friend_def friend_list_get_def friend_entries_def friends_ok_def keyed_def split: option.splits)
next
  case (2 l k v)
  then show ?case by (auto simp: friend_entries_def friends_ok_def dest: keyed_key split: option.splits)
next
  case (3 l a)
  then obtain xs where l: "l = Some xs" "distinct (map fr_nickname xs)" by (auto simp: friends_ok_def split: option.splits)
  have "add_friend a l = Some (Some (stored_friend a # xs))"
    by (simp add: add_friend_def friend_list_add_def friend_new_value l)
  then show ?case
    using 3 l by (auto simp: friends_ok_def friend_entries_def keyed_None fun_eq_iff)
next
  case (4 l k)
  then obtain xs where l: "l = Some xs" "distinct (map fr_nickname xs)" by (auto simp: friends_ok_def split: option.splits)
  then show ?case
    using distinct_remove_first [OF l(2)] keyed_remove [OF l(2), of k]
    by (auto simp: friend_list_remove_def friends_ok_def friend_entries_def)
next
  case (5 l a)
  then obtain xs where l: "l = Some xs" "distinct (map fr_nickname xs)" by (auto simp: friends_ok_def split: option.splits)
  have "keyed fr_nickname (modify_first (\<lambda>x. fr_nickname x = fr_nickname a) (\<lambda>_. stored_friend a) xs)
      = (if keyed fr_nickname xs (fr_nickname a) = None then keyed fr_nickname xs
         else (keyed fr_nickname xs)(fr_nickname a \<mapsto> stored_friend a))"
    by (rule keyed_modify) simp_all
  moreover have "map fr_nickname (modify_first (\<lambda>x. fr_nickname x = fr_nickname a) (\<lambda>_. stored_friend a) xs) = map fr_nickname xs"
    by (rule modify_keys) simp
  ultimately show ?case
    using l by (auto simp: update_friend_eq friends_ok_def friend_entries_def)
qed

text \<open>Rooms: the stored Jabber ids are not NULL as long as no room with an empty id is added.\<close>

definition room_key :: "room \<Rightarrow> cstring" where
  "room_key r = (case ro_jid r of None \<Rightarrow> [] | Some j \<Rightarrow> j)"

definition rooms_ok :: "rooms \<Rightarrow> bool" where
  "rooms_ok rs \<longleftrightarrow> (case rs of None \<Rightarrow> False | Some l \<Rightarrow> list_all (\<lambda>r. ro_jid r \<noteq> None) l \<and> distinct (map room_key l))"

definition room_entries :: "rooms \<Rightarrow> cstring \<Rightarrow> room option" where
  "room_entries rs k = (case rs of None \<Rightarrow> None | Some l \<Rightarrow> keyed room_key l k)"

lemma room_cmp: "ro_jid r \<noteq> None \<Longrightarrow> strcmp_eq (ro_jid r) (Some k) = Some (room_key r = k)"
  by (auto simp: room_key_def)

lemma room_find:
  assumes "list_all (\<lambda>r. ro_jid r \<noteq> None) l"
  shows "find_crash (\<lambda>r. strcmp_eq (ro_jid r) (Some k)) l = Some (keyed room_key l k)"
    and "remove_crash (\<lambda>r. strcmp_eq (ro_jid r) (Some k)) l = Some (remove_first (\<lambda>r. room_key r = k) l)"
  using assms
  by (auto simp: keyed_def list_all_iff intro!: find_crash_total remove_crash_total room_cmp)

interpretation room_map: keyed_list rooms_ok room_entries "\<lambda>j. j \<noteq> []" "\<lambda>j. room_new (Some j)" room_key
  "\<lambda>k. room_list_find (Some k)" "\<lambda>k. room_list_add (Some k)" "\<lambda>k. room_list_remove (Some k)"
proof (unfold_locales, goal_cases)
  case (1 l k)
  then show ?case by (auto simp: rooms_ok_def room_list_find_def room_entries_def room_find split: option.splits)
next
  case (2 l k v)
  then show ?case by (auto simp: room_entries_def rooms_ok_def dest: keyed_key split: option.splits)
next
  case (3 l a)
  have k: "room_key (room_new (Some a)) = a" "ro_jid (room_new (Some a)) = Some a"
    using 3(2) by (simp_all add: room_key_def room_new_def nonempty_ptr_def)
  from 3 obtain xs where l: "l = Some xs" "list_all (\<lambda>r. ro_jid r \<noteq> None) xs" "distinct (map room_key xs)"
    by (auto simp: rooms_ok_def split: option.splits)
  with 3(3) k have n: "keyed room_key xs a = None" by (simp add: room_entries_def)
  then have "a \<notin> room_key ` set xs" by (simp add: keyed_None)
  moreover have "room_list_add (Some a) l = Some (Some (room_new (Some a) # xs))"
    using l n by (simp add: room_list_add_def room_list_find_def room_find)
  ultimately show ?case using l k by (auto simp: rooms_ok_def room_entries_def fun_eq_iff)
next
  case (4 l k)
  then obtain xs where l: "l = Some xs" "list_all (\<lambda>r. ro_jid r \<noteq> None) xs" "distinct (map room_key xs)"
    by (auto simp: rooms_ok_def split: option.splits)
  then show ?case
    using distinct_remove_first [OF l(3)] keyed_remove [OF l(3), of k] set_remove_first [of "\<lambda>r. room_key r = k" xs]
    by (auto simp: room_list_remove_def rooms_ok_def room_entries_def room_find list_all_iff)
qed

text \<open>the friend list behaves as a map from nicknames: removing a friend removes exactly that one, an
  update replaces exactly the friend of that nickname and adds nobody, and both keep nicknames unique.\<close>

theorem friend_list_is_map:
  assumes "friends_ok fs"
  shows "(\<exists>fs'. friend_list_remove (Some k) fs = Some fs' \<and> friends_ok fs'
            \<and> friend_list_get fs' (Some n) = (if n = k then None else friend_list_get fs (Some n)))
       \<and> (\<exists>fs'. friend_list_update jid (Some k) (Some pid) status experience fs = Some fs' \<and> friends_ok fs'
            \<and> friend_list_get fs' (Some n) =
                (if n = k \<and> friend_list_get fs (Some n) \<noteq> None
                 then Some \<lparr>fr_jid = nonempty_ptr jid, fr_nickname = k, fr_profile_id = pid,
                            fr_status = c_uint status, fr_experience = c_uint experience\<rparr>
                 else friend_list_get fs (Some n)))"
proof
  show "\<exists>fs'. friend_list_remove (Some k) fs = Some fs' \<and> friends_ok fs'
            \<and> friend_list_get fs' (Some n) = (if n = k then None else friend_list_get fs (Some n))"
    using friend_map.get_deleted [OF assms, of k n] by (auto simp: find_friend_def)
  let ?f = "\<lparr>fr_jid = jid, fr_nickname = k, fr_profile_id = pid, fr_status = c_uint status, fr_experience = c_uint experience\<rparr>"
  have "friend_new jid (Some k) (Some pid) (uint (c_uint status)) (uint (c_uint experience))
      = friend_new jid (Some k) (Some pid) status experience"
    by (simp add: friend_new_def c_uint_def)
  then have "update_friend ?f fs = friend_list_update jid (Some k) (Some pid) status experience fs"
    by (simp add: update_friend_def friend_list_update_def cong: option.case_cong)
  then show "\<exists>fs'. friend_list_update jid (Some k) (Some pid) status experience fs = Some fs' \<and> friends_ok fs'
            \<and> friend_list_get fs' (Some n) =
                (if n = k \<and> friend_list_get fs (Some n) \<noteq> None
                 then Some \<lparr>fr_jid = nonempty_ptr jid, fr_nickname = k, fr_profile_id = pid,
                            fr_status = c_uint status, fr_experience = c_uint experience\<rparr>
                 else friend_list_get fs (Some n))"
    using friend_map.get_updated [OF assms, of ?f n] by (auto simp: find_friend_def stored_friend_def split: if_splits)
qed

definition sample_friends :: friends where
  "sample_friends = Some [\<lparr>fr_jid = None, fr_nickname = ''bob'', fr_profile_id = ''2'', fr_status = 0, fr_experience = 3\<rparr>,
     \<lparr>fr_jid = Some ''j'', fr_nickname = ''ann'', fr_profile_id = ''1'', fr_status = 9, fr_experience = 5\<rparr>]"

theorem friend_list_is_map_witness:
  "(\<exists>fs'. friend_list_remove (Some ''bob'') sample_friends = Some fs' \<and> friend_list_get fs' (Some ''bob'') = None)
   \<and> (\<exists>fs'. friend_list_update (Some []) (Some ''bob'') (Some ''2'') 1 4 sample_friends = Some fs'
        \<and> friend_list_get fs' (Some ''bob'') = Some \<lparr>fr_jid = None, fr_nickname = ''bob'', fr_profile_id = ''2'',
             fr_status = 1, fr_experience = 4\<rparr>)"
proof -
  have "friends_ok sample_friends" by (simp add: friends_ok_def sample_friends_def)
  from friend_list_is_map [OF this, of "''bob''" "''bob''" "Some []" "''2''" 1 4]
  show ?thesis by (auto simp: friend_list_get_def sample_friends_def nonempty_ptr_def c_uint_def)
qed

subsection \<open>Clan mates\<close>

definition clan_ok :: "'x clan_info_scheme \<Rightarrow> bool" where
  "clan_ok c \<longleftrightarrow> (case cl_mates c of None \<Rightarrow> False | Some l \<Rightarrow> distinct (map cm_profile_id l))"

lemma own_position_fold:
  "fold (compute_own_position p) l pos = pos - word_of_nat (length (filter (\<lambda>m. cm_clan_points m < p) l))"
  by (induction l arbitrary: pos) (simp_all add: compute_own_position_def)

text \<open>The position is one more than the number of clan mates that have at least our points.\<close>

lemma own_position_value:
  "fold (compute_own_position p) l (word_of_nat (length l + 1))
     = word_of_nat (length (filter (\<lambda>m. p \<le> cm_clan_points m) l) + 1)"
proof -
  have "length l = length (filter (\<lambda>m. p \<le> cm_clan_points m) l) + length (filter (\<lambda>m. cm_clan_points m < p) l)"
    using sum_length_filter_compl [of "\<lambda>m. p \<le> cm_clan_points m" l] by (simp add: not_le)
  then have "(word_of_nat (length l) :: u32) = word_of_nat (length (filter (\<lambda>m. p \<le> cm_clan_points m) l))
      + word_of_nat (length (filter (\<lambda>m. cm_clan_points m < p) l))"
    by (metis of_nat_add)
  then show ?thesis by (simp add: own_position_fold)
qed

definition clan_rank :: "u32 \<Rightarrow> clanmate list \<Rightarrow> u32" where
  "clan_rank p l = word_of_nat (length (filter (\<lambda>m. p \<le> cm_clan_points m) l) + 1)"

lemma update_own_position_rank:
  "cl_mates c = Some l \<Longrightarrow> update_own_position c = Some (c\<lparr>cl_own_position := clan_rank (cl_points c) l\<rparr>)"
  using own_position_value [of "cl_points c" l] by (simp add: update_own_position_def clan_rank_def)

text \<open>an update with a nickname changes the clan mate of that profile id or adds one: afterwards the id is
  found with the new values, every other id as before, ids stay unique, and our position in the clan is
  one more than the number of mates with at least our points.\<close>

theorem clanmate_update_correct:
  assumes "clan_ok c"
  shows "\<exists>c' r l'. clanmate_list_update jid (Some nick) (Some pid) status experience points role c = Some (c', r)
     \<and> clan_ok c'
     \<and> (r = CLAN_UPDATE_JOINED \<longleftrightarrow> clanmate_list_get_by_pid c (Some pid) = None) \<and> r \<noteq> CLAN_UPDATE_LEFT
     \<and> clanmate_list_get_by_pid c' (Some q) =
         (if q = pid
          then Some \<lparr>cm_jid = nonempty_ptr jid, cm_nickname = nick, cm_profile_id = pid, cm_status = c_uint status,
                     cm_experience = c_uint experience, cm_clan_points = c_uint points, cm_clan_role = c_uint role\<rparr>
          else clanmate_list_get_by_pid c (Some q))
     \<and> cl_mates c' = Some l'
     \<and> cl_own_position c' = clan_rank (cl_points c) l'"
proof -
  obtain l where l: "cl_mates c = Some l" "distinct (map cm_profile_id l)"
    using assms by (auto simp: clan_ok_def split: option.splits)
  let ?m = "\<lparr>cm_jid = nonempty_ptr jid, cm_nickname = nick, cm_profile_id = pid, cm_status = c_uint status,
      cm_experience = c_uint experience, cm_clan_points = c_uint points, cm_clan_role = c_uint role\<rparr>"
  have new: "clanmate_new jid (Some nick) (Some pid) status experience points role = Some ?m"
    by (simp add: clanmate_new_def)
  have get: "clanmate_list_get_by_pid d (Some k) = keyed cm_profile_id xs k" if "cl_mates d = Some xs" for d :: "'x clan_info_scheme" and k xs
    using that by (simp add: clanmate_list_get_by_pid_def keyed_def)
  show ?thesis
  proof (cases "keyed cm_profile_id l pid")
    case None
    have "clanmate_list_update jid (Some nick) (Some pid) status experience points role c
        = Some (c\<lparr>cl_mates := Some (?m # l), cl_own_position := clan_rank (cl_points c) (?m # l)\<rparr>,
            CLAN_UPDATE_JOINED)"
      using l(1) None by (simp add: clanmate_list_update_def get [OF l(1)] clanmate_list_add_def new update_own_position_rank)
    moreover have "pid \<notin> cm_profile_id ` set l" using None by (simp add: keyed_None)
    ultimately show ?thesis
      using l None by (simp add: clan_ok_def get [OF l(1)] get)
  next
    case (Some f)
    let ?l = "modify_first (\<lambda>x. cm_profile_id x = pid) (\<lambda>_. ?m) l"
    have "clanmate_list_update jid (Some nick) (Some pid) status experience points role c
        = Some (c\<lparr>cl_mates := Some ?l, cl_own_position := clan_rank (cl_points c) ?l\<rparr>,
            CLAN_UPDATE_CHANGED)"
      using l(1) Some by (simp add: clanmate_list_update_def get [OF l(1)] new update_own_position_rank)
    moreover have "keyed cm_profile_id ?l = (keyed cm_profile_id l)(pid \<mapsto> ?m)"
      using keyed_modify [of cm_profile_id pid "\<lambda>_. ?m" ?m l] Some by simp
    moreover have "map cm_profile_id ?l = map cm_profile_id l" by (rule modify_keys) simp
    ultimately show ?thesis
      using l Some by (simp add: clan_ok_def get [OF l(1)] get)
  qed
qed

definition sample_clan :: clan_info where
  "sample_clan = \<lparr>cl_mates = Some [\<lparr>cm_jid = None, cm_nickname = ''bob'', cm_profile_id = ''2'', cm_status = 0,
     cm_experience = 0, cm_clan_points = 10, cm_clan_role = 3\<rparr>], cl_points = 7, cl_own_position = 0\<rparr>"

theorem clanmate_update_correct_witness:
  "\<exists>c'. clanmate_list_update None (Some ''ann'') (Some ''1'') 0 0 5 3 sample_clan = Some (c', CLAN_UPDATE_JOINED)
     \<and> map_option cm_nickname (clanmate_list_get_by_pid c' (Some ''1'')) = Some ''ann''"
proof -
  have "clan_ok sample_clan" by (simp add: clan_ok_def sample_clan_def)
  from clanmate_update_correct [OF this, of None "''ann''" "''1''" 0 0 5 3 "''1''"]
  show ?thesis by (auto simp: clanmate_list_get_by_pid_def sample_clan_def)
qed

text \<open>an update without a nickname, which announces that a member left, compares the profile id with the
  nicknames: unless somebody's nickname is that id, it reports that the member left and leaves the list
  unchanged.\<close>

theorem clanmate_left_stays:
  assumes "clan_ok c" "cl_mates c = Some l" "\<exists>m\<in>set l. cm_profile_id m = pid" "\<not> (\<exists>m\<in>set l. cm_nickname m = pid)"
  shows "\<exists>c'. clanmate_list_update jid None (Some pid) status experience points role c = Some (c', CLAN_UPDATE_LEFT)
     \<and> cl_mates c' = Some l"
proof -
  obtain m where m: "find (\<lambda>m. cm_profile_id m = pid) l = Some m"
    using assms(3) by (cases "find (\<lambda>m. cm_profile_id m = pid) l") (auto simp: find_eq_None)
  have "remove_first (\<lambda>m. cm_nickname m = pid) l = l"
    using assms(4) by (intro remove_first_none) (auto simp: find_eq_None)
  with assms(2) m show ?thesis
    by (simp add: clanmate_list_update_def clanmate_list_get_by_pid_def clanmate_list_remove_def update_own_position_def)
qed

theorem clanmate_left_stays_witness:
  "\<exists>c'. clanmate_list_update None None (Some ''2'') 0 0 0 0 sample_clan = Some (c', CLAN_UPDATE_LEFT)
     \<and> cl_mates c' = cl_mates sample_clan"
proof -
  have "clan_ok sample_clan" by (simp add: clan_ok_def sample_clan_def)
  moreover have "cl_mates sample_clan = Some [\<lparr>cm_jid = None, cm_nickname = ''bob'', cm_profile_id = ''2'', cm_status = 0,
     cm_experience = 0, cm_clan_points = 10, cm_clan_role = 3\<rparr>]" by (simp add: sample_clan_def)
  ultimately show ?thesis using clanmate_left_stays [of sample_clan _ "''2''" None 0 0 0 0] by (simp add: sample_clan_def)
qed

end
