(* ===== verification/Handlers.thy ===== *)
theory Handlers
  imports CString
begin

text \<open>
  \<open>src/xmpp/id_handler.c\<close> and \<open>src/xmpp/query_handler.c\<close>: the tables of callbacks that wait
  for the answer to a request (keyed by its id) and for queries of a given name.

  A callback together with its \<open>args\<close> is an element of the type \<open>'cb\<close>; what it does is the
  parameter \<open>run\<close>, which may change the whole program state, the tables included, and may
  crash.  The states are extensible records, so that the rest of the program can be added.  The
  loop of \<open>idh_handle\<close> reads the table size anew in each round, because a callback may have
  grown it; it takes fuel.  The mutex of the tables is left out: one message is
  dispatched at a time.  The counter of the identifiers is used by every thread that sends; its steps are \<open>run_ids\<close>.

  The abstract view of a table is the map from keys to waiting callbacks; the locale
  \<open>handler_table\<close> states what both tables promise about it.
\<close>

subsection \<open>Messages types\<close>

datatype xmpp_msg_type = XMPP_TYPE_ERROR | XMPP_TYPE_SET | XMPP_TYPE_GET | XMPP_TYPE_RESULT

subsection \<open>Answers, by id\<close>

definition UID_SIZE :: nat where
  "UID_SIZE = 12"

record 'cb id_handler =
  ih_callback :: "'cb option"
  ih_permanent :: bool
  ih_timestamp :: int
  ih_id :: cstring

record 'cb idh_state =
  id_handlers :: "'cb id_handler list"
  uid_counter :: u32
  clock :: int

definition free_id_slot :: "'cb id_handler" where
  "free_id_slot = \<lparr>ih_callback = None, ih_permanent = False, ih_timestamp = 0, ih_id = []\<rparr>"

definition idh_init :: "('cb, 'x) idh_state_scheme \<Rightarrow> ('cb, 'x) idh_state_scheme" where
  "idh_init st = st\<lparr>id_handlers := replicate 64 free_id_slot\<rparr>"

text \<open>The first index that satisfies \<open>P\<close>, or the size.\<close>

fun first_index :: "('a \<Rightarrow> bool) \<Rightarrow> 'a list \<Rightarrow> nat" where
  "first_index P [] = 0"
| "first_index P (x # xs) = (if P x then 0 else Suc (first_index P xs))"

definition idh_register ::
  "cstring \<Rightarrow> bool \<Rightarrow> 'cb option \<Rightarrow> ('cb, 'x) idh_state_scheme \<Rightarrow> ('cb, 'x) idh_state_scheme" where
  "idh_register uid permanent callback st =
     (if callback = None then st
      else
        (let hs = id_handlers st;
             i = first_index (\<lambda>h. ih_id h = []) hs;
             hs' = (if length hs \<le> i then hs @ replicate (length hs * 2 - i) free_id_slot else hs)
         in st\<lparr>id_handlers :=
                 hs'[i := \<lparr>ih_callback = callback, ih_permanent = permanent,
                          ih_timestamp = clock st, ih_id = uid\<rparr>]\<rparr>))"

definition clear_id :: "nat \<Rightarrow> ('cb, 'x) idh_state_scheme \<Rightarrow> ('cb, 'x) idh_state_scheme" where
  "clear_id i st = st\<lparr>id_handlers := (id_handlers st)[i := (id_handlers st ! i)\<lparr>ih_id := []\<rparr>]\<rparr>"

definition id_expired :: "int \<Rightarrow> 'cb id_handler \<Rightarrow> bool" where
  "id_expired t h \<longleftrightarrow> ih_id h \<noteq> [] \<and> ih_timestamp h + 120 < t \<and> \<not> ih_permanent h"

definition id_matches :: "cstring \<Rightarrow> 'cb id_handler \<Rightarrow> bool" where
  "id_matches msg_id h \<longleftrightarrow> msg_id \<noteq> [] \<and> strncmp_eq (ih_id h) msg_id UID_SIZE"

fun idh_loop ::
  "nat \<Rightarrow> ('cb \<Rightarrow> cptr \<Rightarrow> xmpp_msg_type \<Rightarrow> ('cb, 'x) idh_state_scheme \<Rightarrow> ('cb, 'x) idh_state_scheme crash) \<Rightarrow>
     int \<Rightarrow> cstring \<Rightarrow> cptr \<Rightarrow> xmpp_msg_type \<Rightarrow> nat \<Rightarrow> ('cb, 'x) idh_state_scheme \<Rightarrow>
     (bool \<times> ('cb, 'x) idh_state_scheme) crash" where
  "idh_loop 0 run t msg_id msg type i st = None"
| "idh_loop (Suc f) run t msg_id msg type i st =
     (if length (id_handlers st) \<le> i then Some (False, st)
      else
        (let h = id_handlers st ! i in
         if id_matches msg_id h
         then do {
                callback \<leftarrow> deref (ih_callback h);
                st' \<leftarrow> run callback msg type (if \<not> ih_permanent h then clear_id i st else st);
                Some (True, st')
              }
         else if id_expired t h
         then do {
                callback \<leftarrow> deref (ih_callback h);
                st' \<leftarrow> run callback None XMPP_TYPE_ERROR (clear_id i st);
                idh_loop f run t msg_id msg type (Suc i) st'
              }
         else idh_loop f run t msg_id msg type (Suc i) st))"

definition idh_handle ::
  "nat \<Rightarrow> ('cb \<Rightarrow> cptr \<Rightarrow> xmpp_msg_type \<Rightarrow> ('cb, 'x) idh_state_scheme \<Rightarrow> ('cb, 'x) idh_state_scheme crash) \<Rightarrow>
     cptr \<Rightarrow> cptr \<Rightarrow> xmpp_msg_type \<Rightarrow> ('cb, 'x) idh_state_scheme \<Rightarrow>
     (bool \<times> ('cb, 'x) idh_state_scheme) crash" where
  "idh_handle fuel run msg_id msg type st =
     (case msg_id of
        None \<Rightarrow> Some (False, st)
      | Some m \<Rightarrow> idh_loop fuel run (clock st) m msg type 0 st)"

text \<open>
  \<open>sprintf (id->uid, "uid%08d", _id)\<close>: at least eight characters, sign included, of the counter
  read as an \<open>int\<close>.  More than 11 characters do not fit the 12 bytes of a \<open>t_uid\<close>.
\<close>

definition pad_zeros :: "nat \<Rightarrow> cstring \<Rightarrow> cstring" where
  "pad_zeros n s = replicate (n - length s) CHR ''0'' @ s"

definition dec08 :: "int \<Rightarrow> cstring" where
  "dec08 i = (if i < 0 then CHR ''-'' # pad_zeros 7 (nat_dec (nat (- i))) else pad_zeros 8 (nat_dec (nat i)))"

text \<open>The counter is incremented under its mutex, but read again for \<open>sprintf\<close> after the mutex was released: these
  are two steps, between which other threads may take theirs.\<close>

definition bump_id :: "('cb, 'x) idh_state_scheme \<Rightarrow> ('cb, 'x) idh_state_scheme" where
  "bump_id st = st\<lparr>uid_counter := uid_counter st + 1\<rparr>"

definition format_id :: "('cb, 'x) idh_state_scheme \<Rightarrow> cstring crash" where
  "format_id st = (let uid = ''uid'' @ dec08 (sint (uid_counter st)) in if length uid < UID_SIZE then Some uid else None)"

text \<open>The function when no other thread comes in between.\<close>

definition idh_generate_unique_id ::
  "('cb, 'x) idh_state_scheme \<Rightarrow> (cstring \<times> ('cb, 'x) idh_state_scheme) crash" where
  "idh_generate_unique_id st = do { let st' = bump_id st; uid \<leftarrow> format_id st'; Some (uid, st') }"

text \<open>Several threads: every call of a thread is a \<open>Bump\<close> and later a \<open>Format\<close>; the ids are logged as they are
  written.\<close>

datatype id_event = Bump nat | Format nat

fun run_ids :: "id_event list \<Rightarrow> ('cb, 'x) idh_state_scheme \<Rightarrow> (nat \<times> cstring) list crash" where
  "run_ids [] st = Some []"
| "run_ids (Bump t # es) st = run_ids es (bump_id st)"
| "run_ids (Format t # es) st = do { uid \<leftarrow> format_id st; us \<leftarrow> run_ids es st; Some ((t, uid) # us) }"

subsection \<open>Queries, by name\<close>

definition QUERY_HDLR_MAX :: nat where
  "QUERY_HDLR_MAX = 64"

definition QUERY_SIZE :: nat where
  "QUERY_SIZE = 32"

record 'cb query_handler =
  qh_callback :: "'cb option"
  qh_permanent :: bool
  qh_timestamp :: int
  qh_query :: cstring

record ('icb, 'cb) qh_state = "'icb idh_state" +
  query_handlers :: "'cb query_handler list"

definition free_query_slot :: "'cb query_handler" where
  "free_query_slot = \<lparr>qh_callback = None, qh_permanent = False, qh_timestamp = 0, qh_query = []\<rparr>"

text \<open>\<open>strncpy\<close> keeps 32 characters; the assertion fails when all 64 slots are taken.\<close>

definition qh_register ::
  "cstring \<Rightarrow> bool \<Rightarrow> 'cb option \<Rightarrow> ('icb, 'cb, 'x) qh_state_scheme \<Rightarrow> ('icb, 'cb, 'x) qh_state_scheme crash" where
  "qh_register query permanent callback st =
     (if callback = None then Some st
      else
        (let i = first_index (\<lambda>h. qh_query h = []) (query_handlers st) in
         if length (query_handlers st) \<le> i then None
         else Some (st\<lparr>query_handlers := (query_handlers st)
                [i := \<lparr>qh_callback = callback, qh_permanent = permanent,
                      qh_timestamp = clock st, qh_query = take QUERY_SIZE query\<rparr>]\<rparr>)))"

definition query_matches :: "cstring \<Rightarrow> 'cb query_handler \<Rightarrow> bool" where
  "query_matches query h \<longleftrightarrow> strncmp_eq (qh_query h) query QUERY_SIZE"

definition qh_remove :: "cptr \<Rightarrow> ('icb, 'cb, 'x) qh_state_scheme \<Rightarrow> ('icb, 'cb, 'x) qh_state_scheme" where
  "qh_remove query st =
     (case query of
        None \<Rightarrow> st
      | Some q \<Rightarrow>
          if q = [] then st
          else st\<lparr>query_handlers :=
                 map (\<lambda>h. if query_matches q h then h\<lparr>qh_query := []\<rparr> else h) (query_handlers st)\<rparr>)"

definition clear_query :: "nat \<Rightarrow> ('icb, 'cb, 'x) qh_state_scheme \<Rightarrow> ('icb, 'cb, 'x) qh_state_scheme" where
  "clear_query i st =
     st\<lparr>query_handlers := (query_handlers st)[i := (query_handlers st ! i)\<lparr>qh_query := []\<rparr>]\<rparr>"

definition query_expired :: "int \<Rightarrow> 'cb query_handler \<Rightarrow> bool" where
  "query_expired t h \<longleftrightarrow> qh_query h \<noteq> [] \<and> qh_timestamp h + 120 < t \<and> \<not> qh_permanent h"

text \<open>The table has a fixed size, so the loop counts the slots that are left.\<close>

fun qh_loop ::
  "('cb \<Rightarrow> cptr \<Rightarrow> cptr \<Rightarrow> ('icb, 'cb, 'x) qh_state_scheme \<Rightarrow> ('icb, 'cb, 'x) qh_state_scheme crash) \<Rightarrow>
     int \<Rightarrow> cstring \<Rightarrow> cptr \<Rightarrow> cptr \<Rightarrow> nat \<Rightarrow> ('icb, 'cb, 'x) qh_state_scheme \<Rightarrow>
     (bool \<times> ('icb, 'cb, 'x) qh_state_scheme) crash" where
  "qh_loop run t query msg_id msg 0 st = Some (False, st)"
| "qh_loop run t query msg_id msg (Suc left) st =
     (let i = QUERY_HDLR_MAX - Suc left;
          h = query_handlers st ! i
      in if query_matches query h
         then do {
                callback \<leftarrow> deref (qh_callback h);
                st' \<leftarrow> run callback msg_id msg (if \<not> qh_permanent h then clear_query i st else st);
                Some (True, st')
              }
         else if query_expired t h
         then do {
                callback \<leftarrow> deref (qh_callback h);
                st' \<leftarrow> run callback None None (clear_query i st);
                qh_loop run t query msg_id msg left st'
              }
         else qh_loop run t query msg_id msg left st)"

definition qh_handle ::
  "('cb \<Rightarrow> cptr \<Rightarrow> cptr \<Rightarrow> ('icb, 'cb, 'x) qh_state_scheme \<Rightarrow> ('icb, 'cb, 'x) qh_state_scheme crash) \<Rightarrow>
     cptr \<Rightarrow> cptr \<Rightarrow> cptr \<Rightarrow> ('icb, 'cb, 'x) qh_state_scheme \<Rightarrow>
     (bool \<times> ('icb, 'cb, 'x) qh_state_scheme) crash" where
  "qh_handle run query msg_id msg st =
     (case query of
        None \<Rightarrow> Some (False, st)
      | Some q \<Rightarrow>
          if q = [] then Some (False, st) else qh_loop run (clock st) q msg_id msg QUERY_HDLR_MAX st)"

subsection \<open>Slots\<close>

lemma first_index_le: "first_index P xs \<le> length xs"
  by (induction xs) auto

lemma first_index_holds: "first_index P xs < length xs \<Longrightarrow> P (xs ! first_index P xs)"
  by (induction xs) auto

lemma first_index_none: "first_index P xs = length xs \<longleftrightarrow> (\<forall>x\<in>set xs. \<not> P x)"
  by (induction xs) auto

text \<open>Tables as lists of slots with a key; a slot with the empty key is free.\<close>

definition keyed :: "('s \<Rightarrow> cstring) \<Rightarrow> 's list \<Rightarrow> bool" where
  "keyed key hs \<longleftrightarrow> distinct (filter (\<lambda>k. k \<noteq> []) (map key hs))"

definition slot_of :: "('s \<Rightarrow> cstring) \<Rightarrow> 's list \<Rightarrow> cstring \<Rightarrow> 's option" where
  "slot_of key hs k = (if k = [] then None else find (\<lambda>h. key h = k) hs)"

lemma keyed_split:
  "keyed key (xs @ h # ys) \<longleftrightarrow>
     keyed key (xs @ ys) \<and> (key h \<noteq> [] \<longrightarrow> (\<forall>x\<in>set (xs @ ys). key x \<noteq> key h))"
proof -
  have "(\<forall>x\<in>set (xs @ ys). key x \<noteq> key h) \<longleftrightarrow> key h \<notin> key ` set (xs @ ys)" by (metis image_iff)
  then show ?thesis by (simp only:) (auto simp: keyed_def)
qed

lemma slot_of_split:
  "slot_of key (xs @ h # ys) k =
     (case slot_of key xs k of Some x \<Rightarrow> Some x
      | None \<Rightarrow> if k \<noteq> [] \<and> key h = k then Some h else slot_of key ys k)"
  unfolding slot_of_def by (auto simp: find_append split: option.splits)

lemma slot_of_append:
  "slot_of key (xs @ ys) k = (case slot_of key xs k of Some x \<Rightarrow> Some x | None \<Rightarrow> slot_of key ys k)"
  unfolding slot_of_def by (auto simp: find_append split: option.splits)

lemma slot_of_None: "slot_of key xs k = None \<longleftrightarrow> k = [] \<or> (\<forall>x\<in>set xs. key x \<noteq> k)"
  by (auto simp: slot_of_def find_eq_None)

lemma list_split_at: "i < length xs \<Longrightarrow> xs = take i xs @ xs ! i # drop (Suc i) xs"
  by (rule id_take_nth_drop)

text \<open>Filling a free slot and freeing a slot.\<close>

lemma slot_of_fill:
  assumes "i < length hs" "key (hs ! i) = []" "key h \<noteq> []" "slot_of key hs (key h) = None" "keyed key hs"
  shows "keyed key (hs[i := h]) \<and> slot_of key (hs[i := h]) = (slot_of key hs)(key h \<mapsto> h)"
proof -
  obtain xs ys where hs: "hs = xs @ hs ! i # ys" "hs[i := h] = xs @ h # ys" "\<forall>x\<in>set (xs @ ys). key x \<noteq> key h"
    using list_split_at [OF assms(1)] upd_conv_take_nth_drop [OF assms(1)] assms(3,4)
    by (metis slot_of_None Un_iff list.set_intros(2) set_append)
  have "keyed key (xs @ ys)" using assms(5) keyed_split [of key xs "hs ! i" ys] hs(1) by simp
  then have "keyed key (hs[i := h])" using hs(2,3) by (simp add: keyed_split)
  moreover have "slot_of key (hs[i := h]) k = ((slot_of key hs)(key h \<mapsto> h)) k" for k
  proof (cases "k = key h")
    case True
    have "slot_of key xs k = None" using hs(3) True by (auto simp: slot_of_None)
    with True assms(3) show ?thesis unfolding hs(2) by (simp add: slot_of_split)
  next
    case False
    have "slot_of key hs k = slot_of key (xs @ hs ! i # ys) k" using hs(1) by simp
    with False assms(2) show ?thesis unfolding hs(2) by (auto simp: slot_of_split split: option.splits)
  qed
  ultimately show ?thesis by auto
qed

lemma slot_of_clear:
  assumes "i < length hs" "key (hs ! i) = k" "k \<noteq> []" "key h = []" "keyed key hs"
  shows "keyed key (hs[i := h]) \<and> slot_of key (hs[i := h]) = (slot_of key hs)(k := None)
       \<and> slot_of key hs k = Some (hs ! i)"
proof -
  obtain xs ys where hs: "hs = xs @ hs ! i # ys" "hs[i := h] = xs @ h # ys"
    using list_split_at [OF assms(1)] upd_conv_take_nth_drop [OF assms(1)] by metis
  have k: "keyed key (xs @ ys)" "\<forall>x\<in>set (xs @ ys). key x \<noteq> k"
    using assms(2,3,5) keyed_split [of key xs "hs ! i" ys] hs(1) by auto
  then have "keyed key (hs[i := h])" using hs(2) assms(4) by (simp add: keyed_split)
  moreover have "slot_of key (hs[i := h]) k' = ((slot_of key hs)(k := None)) k'" for k'
  proof (cases "k' = k")
    case True
    with k(2) assms(4) show ?thesis unfolding hs(2) by (auto simp: slot_of_None)
  next
    case False
    have "slot_of key hs k' = slot_of key (xs @ hs ! i # ys) k'" using hs(1) by simp
    with False assms(2,4) show ?thesis unfolding hs(2) by (auto simp: slot_of_split split: option.splits)
  qed
  moreover have "slot_of key xs k = None" using k(2) by (auto simp: slot_of_None)
  then have "slot_of key hs k = Some (hs ! i)" using assms(2,3) hs(1) slot_of_split [of key xs "hs ! i" ys k] by simp
  ultimately show ?thesis by auto
qed

lemma slot_of_index:
  assumes "slot_of key hs k = Some h"
  shows "\<exists>i<length hs. hs ! i = h \<and> key h = k \<and> k \<noteq> [] \<and> (\<forall>j<i. key (hs ! j) \<noteq> k)"
proof -
  from assms obtain ys zs where "hs = ys @ h # zs" "key h = k" "\<forall>y\<in>set ys. key y \<noteq> k" "k \<noteq> []"
    by (auto simp: slot_of_def dest: find_Some_split split: if_splits)
  then show ?thesis by (intro exI [of _ "length ys"]) (auto simp: nth_append)
qed

subsection \<open>The contract of a callback table\<close>

text \<open>
  \<open>pending s k\<close> is the callback that waits under the key \<open>k\<close>, and whether it stays after
  use; \<open>calm s\<close> says that no callback has expired.  \<open>dispatch run k m s\<close> hands the message
  \<open>m\<close> to it.
\<close>

locale handler_table =
  fixes inv :: "'s \<Rightarrow> bool"
    and calm :: "'s \<Rightarrow> bool"
    and valid :: "cstring \<Rightarrow> bool"
    and pending :: "'s \<Rightarrow> cstring \<Rightarrow> ('cb \<times> bool) option"
    and add :: "cstring \<Rightarrow> bool \<Rightarrow> 'cb \<Rightarrow> 's \<Rightarrow> 's crash"
    and dispatch :: "('cb \<Rightarrow> 'm \<Rightarrow> 's \<Rightarrow> 's crash) \<Rightarrow> cstring \<Rightarrow> 'm \<Rightarrow> 's \<Rightarrow> (bool \<times> 's) crash"
  assumes add_pending:
    "inv s \<Longrightarrow> valid k \<Longrightarrow> pending s k = None \<Longrightarrow> add k p c s = Some s' \<Longrightarrow>
       inv s' \<and> pending s' = (pending s)(k \<mapsto> (c, p))"
  and add_calm: "calm s \<Longrightarrow> add k p c s = Some s' \<Longrightarrow> calm s'"
  and dispatch_hit:
    "inv s \<Longrightarrow> calm s \<Longrightarrow> pending s k = Some (c, p) \<Longrightarrow>
       \<exists>s'. inv s' \<and> calm s' \<and> pending s' = (if p then pending s else (pending s)(k := None))
          \<and> dispatch run k m s = (run c m s' \<bind> (\<lambda>r. Some (True, r)))"
  and dispatch_miss:
    "inv s \<Longrightarrow> calm s \<Longrightarrow> valid k \<Longrightarrow> pending s k = None \<Longrightarrow> dispatch run k m s = Some (False, s)"
begin

text \<open>A callback that leaves the invariant and the waiting callbacks alone.\<close>

definition tame :: "('cb \<Rightarrow> 'm \<Rightarrow> 's \<Rightarrow> 's crash) \<Rightarrow> bool" where
  "tame run \<longleftrightarrow> (\<forall>c m s s'. run c m s = Some s' \<longrightarrow> inv s \<longrightarrow> calm s \<longrightarrow> inv s' \<and> calm s' \<and> pending s' = pending s)"

lemma hit_then:
  assumes "inv s" "calm s" "pending s k = Some (c, p)" "dispatch run k m s = Some (b, s2)" "tame run"
  shows "b \<and> inv s2 \<and> calm s2 \<and> pending s2 = (if p then pending s else (pending s)(k := None))"
proof -
  obtain s' where s': "inv s'" "calm s'" "pending s' = (if p then pending s else (pending s)(k := None))"
    "dispatch run k m s = (run c m s' \<bind> (\<lambda>r. Some (True, r)))"
    using dispatch_hit [OF assms(1-3), of run m] by blast
  with assms(4) have "b" "run c m s' = Some s2" by (auto simp: bind_eq_Some_conv)
  with assms(5) s' show ?thesis by (metis tame_def)
qed

lemma one_shot:
  assumes "inv s" "calm s" "valid k" "pending s k = None" "add k False c s = Some s1"
    "dispatch run k m s1 = Some (b, s2)" "tame run"
  shows "b \<and> pending s2 = pending s \<and> dispatch run k m' s2 = Some (False, s2)"
proof -
  have s1: "inv s1" "calm s1" "pending s1 = (pending s)(k \<mapsto> (c, False))"
    using add_pending [OF assms(1,3,4,5)] add_calm [OF assms(2,5)] by auto
  then have "pending s1 k = Some (c, False)" by simp
  from hit_then [OF s1(1,2) this assms(6,7)] s1(3) assms(4)
  have h: "b" "inv s2" "calm s2" "pending s2 = pending s" by auto
  with dispatch_miss [OF h(2,3) assms(3)] assms(4) show ?thesis by simp
qed

lemma permanent_stays:
  assumes "inv s" "calm s" "pending s k = Some (c, True)" "dispatch run k m s = Some (b, s2)" "tame run"
  shows "b \<and> pending s2 k = Some (c, True)"
  using hit_then [OF assms] assms(3) by simp

end

subsection \<open>The table of ids\<close>

definition id_inv :: "('cb, 'x) idh_state_scheme \<Rightarrow> bool" where
  "id_inv st \<longleftrightarrow>
     id_handlers st \<noteq> [] \<and> keyed ih_id (id_handlers st) \<and>
     (\<forall>h\<in>set (id_handlers st). length (ih_id h) < UID_SIZE \<and> (ih_id h \<noteq> [] \<longrightarrow> ih_callback h \<noteq> None))"

definition id_calm :: "('cb, 'x) idh_state_scheme \<Rightarrow> bool" where
  "id_calm st \<longleftrightarrow> (\<forall>h\<in>set (id_handlers st). \<not> id_expired (clock st) h)"

definition id_pending :: "('cb, 'x) idh_state_scheme \<Rightarrow> cstring \<Rightarrow> ('cb \<times> bool) option" where
  "id_pending st k = map_option (\<lambda>h. (the (ih_callback h), ih_permanent h)) (slot_of ih_id (id_handlers st) k)"

definition id_valid :: "cstring \<Rightarrow> bool" where
  "id_valid k \<longleftrightarrow> k \<noteq> [] \<and> length k < UID_SIZE"

lemma idh_init_inv: "id_inv (idh_init st) \<and> id_calm (idh_init st) \<and> id_pending (idh_init st) = (\<lambda>_. None)"
  by (auto simp: idh_init_def id_inv_def id_calm_def id_pending_def keyed_def free_id_slot_def
      id_expired_def UID_SIZE_def fun_eq_iff slot_of_None)

lemma id_matches_iff:
  "length (ih_id h) < UID_SIZE \<Longrightarrow> id_matches m h \<longleftrightarrow> ih_id h = m \<and> m \<noteq> []"
  by (auto simp: id_matches_def strncmp_eq_def)

text \<open>Registering: after the table has grown if needed, a free slot is filled.\<close>

lemma slot_of_grow: "slot_of ih_id (hs @ replicate n free_id_slot) = slot_of ih_id hs"
proof
  fix k
  have "slot_of ih_id (replicate n free_id_slot) k = None" by (auto simp: slot_of_None free_id_slot_def)
  then show "slot_of ih_id (hs @ replicate n free_id_slot) k = slot_of ih_id hs k"
    by (cases "slot_of ih_id hs k") (simp_all add: slot_of_append)
qed

lemma idh_register_slots:
  assumes "id_handlers st \<noteq> []"
  shows "\<exists>i n. i < length (id_handlers st @ replicate n free_id_slot)
     \<and> ih_id ((id_handlers st @ replicate n free_id_slot) ! i) = []
     \<and> idh_register u p (Some c) st = st\<lparr>id_handlers := (id_handlers st @ replicate n free_id_slot)
          [i := \<lparr>ih_callback = Some c, ih_permanent = p, ih_timestamp = clock st, ih_id = u\<rparr>]\<rparr>"
proof -
  let ?hs = "id_handlers st" and ?i = "first_index (\<lambda>h. ih_id h = []) (id_handlers st)"
  show ?thesis
  proof (cases "length ?hs \<le> ?i")
    case True
    then have i: "?i = length ?hs" using first_index_le [of "\<lambda>h. ih_id h = []" ?hs] by simp
    let ?n = "length ?hs * 2 - ?i"
    have n: "0 < ?n" using i assms by simp
    show ?thesis
    proof (intro exI conjI)
      show "?i < length (?hs @ replicate ?n free_id_slot)" using i n by simp
      show "ih_id ((?hs @ replicate ?n free_id_slot) ! ?i) = []" using i n by (simp add: nth_append free_id_slot_def)
    qed (use True in \<open>simp add: idh_register_def Let_def\<close>)
  next
    case False
    then have "?i < length ?hs" "ih_id (?hs ! ?i) = []" using first_index_holds [of "\<lambda>h. ih_id h = []" ?hs] by auto
    with False show ?thesis
      by (intro exI [of _ ?i] exI [of _ 0]) (simp add: idh_register_def Let_def)
  qed
qed

lemma id_add_pending:
  assumes "id_inv st" "id_valid u" "id_pending st u = None"
  shows "id_inv (idh_register u p (Some c) st)
       \<and> id_pending (idh_register u p (Some c) st) = (id_pending st)(u \<mapsto> (c, p))"
proof -
  let ?h = "\<lparr>ih_callback = Some c, ih_permanent = p, ih_timestamp = clock st, ih_id = u\<rparr>"
  have "id_handlers st \<noteq> []" using assms(1) by (simp add: id_inv_def)
  from idh_register_slots [OF this, of u p c]
  obtain hs i n where hs: "i < length hs" "ih_id (hs ! i) = []" "hs = id_handlers st @ replicate n free_id_slot"
    "idh_register u p (Some c) st = st\<lparr>id_handlers := hs[i := ?h]\<rparr>" by blast
  have "keyed ih_id hs" using assms(1) hs(3) by (simp add: id_inv_def keyed_def free_id_slot_def)
  moreover have "slot_of ih_id hs u = None" using assms(3) hs(3) by (simp add: id_pending_def slot_of_grow)
  ultimately have f: "keyed ih_id (hs[i := ?h])" "slot_of ih_id (hs[i := ?h]) = (slot_of ih_id hs)(u \<mapsto> ?h)"
    using slot_of_fill [of i hs ih_id ?h] hs(1,2) assms(2) by (auto simp: id_valid_def)
  have "length (ih_id h) < UID_SIZE \<and> (ih_id h \<noteq> [] \<longrightarrow> ih_callback h \<noteq> None)" if "h \<in> set (hs[i := ?h])" for h
    using that set_update_subset_insert [of hs i ?h] assms(1,2) hs(3)
    by (auto simp: id_inv_def id_valid_def free_id_slot_def UID_SIZE_def)
  then have "id_inv (idh_register u p (Some c) st)"
    using f(1) hs(1,4) by (auto simp: id_inv_def)
  moreover have "id_pending (idh_register u p (Some c) st) = (id_pending st)(u \<mapsto> (c, p))"
    using f(2) hs(3,4) by (auto simp: id_pending_def slot_of_grow fun_eq_iff)
  ultimately show ?thesis by simp
qed

lemma id_add_calm: "id_calm st \<Longrightarrow> id_calm (idh_register u p (Some c) st)"
proof -
  assume c: "id_calm st"
  have "id_calm (st\<lparr>id_handlers := (id_handlers st @ replicate n free_id_slot)
      [i := \<lparr>ih_callback = Some c, ih_permanent = p, ih_timestamp = clock st, ih_id = u\<rparr>]\<rparr>)" for n i
    using c set_update_subset_insert [of "id_handlers st @ replicate n free_id_slot" i]
    by (fastforce simp: id_calm_def id_expired_def free_id_slot_def)
  from this [of 0] this show ?thesis by (auto simp: idh_register_def Let_def)
qed

lemma id_clear_pending:
  assumes "id_inv st" "i < length (id_handlers st)" "ih_id (id_handlers st ! i) = k" "k \<noteq> []"
  shows "id_inv (clear_id i st) \<and> id_pending (clear_id i st) = (id_pending st)(k := None)"
proof -
  let ?h = "(id_handlers st ! i)\<lparr>ih_id := []\<rparr>"
  from assms(1) have "keyed ih_id (id_handlers st)" by (simp add: id_inv_def)
  with slot_of_clear [of i "id_handlers st" ih_id k ?h] assms(2,3,4)
  have c: "keyed ih_id ((id_handlers st)[i := ?h])"
    "slot_of ih_id ((id_handlers st)[i := ?h]) = (slot_of ih_id (id_handlers st))(k := None)" by auto
  have "id_inv (clear_id i st)"
    using c(1) assms(1,2) set_update_subset_insert [of "id_handlers st" i ?h]
    by (fastforce simp: id_inv_def clear_id_def UID_SIZE_def)
  with c(2) show ?thesis by (auto simp: id_pending_def clear_id_def fun_eq_iff)
qed

lemma id_clear_calm: "id_calm st \<Longrightarrow> id_calm (clear_id i st)"
  using set_update_subset_insert [of "id_handlers st" i "(id_handlers st ! i)\<lparr>ih_id := []\<rparr>"]
  by (fastforce simp: id_calm_def clear_id_def id_expired_def)

text \<open>Slots that neither match nor have expired are passed over.\<close>

lemma idh_loop_skip:
  assumes "\<forall>j. i \<le> j \<longrightarrow> j < i + n \<longrightarrow> \<not> id_matches m (id_handlers st ! j) \<and> \<not> id_expired t (id_handlers st ! j)"
    "i + n \<le> length (id_handlers st)"
  shows "idh_loop (f + n) run t m msg ty i st = idh_loop f run t m msg ty (i + n) st"
  using assms
proof (induction n arbitrary: i)
  case 0
  then show ?case by simp
next
  case (Suc n)
  have "idh_loop (f + n) run t m msg ty (Suc i) st = idh_loop f run t m msg ty (Suc i + n) st"
    using Suc.prems by (intro Suc.IH) auto
  moreover have "\<not> id_matches m (id_handlers st ! i)" "\<not> id_expired t (id_handlers st ! i)" "i < length (id_handlers st)"
    using Suc.prems by auto
  ultimately show ?case by (simp add: Let_def)
qed

lemma id_dispatch_hit:
  assumes "id_inv st" "id_calm st" "id_pending st k = Some (c, p)" "length (id_handlers st) < fuel"
  shows "\<exists>st'. id_inv st' \<and> id_calm st' \<and> id_pending st' = (if p then id_pending st else (id_pending st)(k := None))
     \<and> idh_handle fuel run (Some k) msg ty st = (run c msg ty st' \<bind> (\<lambda>r. Some (True, r)))"
proof -
  from assms(3) obtain h where h: "slot_of ih_id (id_handlers st) k = Some h" "c = the (ih_callback h)" "p = ih_permanent h"
    by (auto simp: id_pending_def)
  from slot_of_index [OF h(1)] obtain i where i: "i < length (id_handlers st)" "id_handlers st ! i = h" "ih_id h = k"
    "k \<noteq> []" "\<forall>j<i. ih_id (id_handlers st ! j) \<noteq> k" by blast
  have hin: "h \<in> set (id_handlers st)" using i by auto
  have cb: "ih_callback h = Some c" using assms(1) hin i(3,4) h(2) by (auto simp: id_inv_def)
  have lt: "length (ih_id (id_handlers st ! j)) < UID_SIZE" if "j < length (id_handlers st)" for j
    using assms(1) that by (simp add: id_inv_def)
  have skip: "\<forall>j. 0 \<le> j \<longrightarrow> j < 0 + i \<longrightarrow> \<not> id_matches k (id_handlers st ! j) \<and> \<not> id_expired (clock st) (id_handlers st ! j)"
    using i(1,5) lt assms(2) by (auto simp: id_matches_iff id_calm_def)
  obtain f where f: "fuel = Suc f + i" using assms(4) i(1) by (metis add.commute add_Suc_right less_imp_Suc_add less_trans)
  have m: "id_matches k h" using i lt [OF i(1)] by (simp add: id_matches_iff)
  let ?st' = "if \<not> ih_permanent h then clear_id i st else st"
  have "idh_handle fuel run (Some k) msg ty st = (run c msg ty ?st' \<bind> (\<lambda>r. Some (True, r)))"
    using idh_loop_skip [OF skip, of "Suc f" run msg ty] i(1,2) f m cb
    by (simp add: idh_handle_def Let_def)
  moreover have "id_inv ?st' \<and> id_calm ?st' \<and> id_pending ?st' = (if p then id_pending st else (id_pending st)(k := None))"
    using id_clear_pending [OF assms(1) i(1)] id_clear_calm [OF assms(2)] assms(1,2) h(3) i by auto
  ultimately show ?thesis by blast
qed

lemma id_dispatch_miss:
  assumes "id_inv st" "id_calm st" "id_pending st k = None" "length (id_handlers st) < fuel"
  shows "idh_handle fuel run (Some k) msg ty st = Some (False, st)"
proof -
  let ?n = "length (id_handlers st)"
  have "\<forall>j. 0 \<le> j \<longrightarrow> j < 0 + ?n \<longrightarrow> \<not> id_matches k (id_handlers st ! j) \<and> \<not> id_expired (clock st) (id_handlers st ! j)"
    using assms(1-3) by (auto simp: id_matches_iff id_calm_def id_inv_def id_pending_def slot_of_None)
  note skip = idh_loop_skip [OF this]
  obtain f where f: "fuel = Suc f + ?n" using assms(4) by (metis add.commute add_Suc_right less_imp_Suc_add)
  show ?thesis unfolding f idh_handle_def using skip [of "Suc f" run msg ty] by simp
qed

interpretation idt: handler_table id_inv id_calm id_valid id_pending
  "\<lambda>k p c s. Some (idh_register k p (Some c) s)"
  "\<lambda>run k m s. idh_handle (Suc (length (id_handlers s))) (\<lambda>c msg ty. run c (msg, ty)) (Some k) (fst m) (snd m) s"
proof (unfold_locales, goal_cases)
  case (1 s k p c s')
  then show ?case using id_add_pending [of s k] by auto
next
  case (2 s k p c s')
  then show ?case using id_add_calm by auto
next
  case (3 s k c p run m)
  then show ?case using id_dispatch_hit [of s k c p "Suc (length (id_handlers s))" "\<lambda>c msg ty. run c (msg, ty)" "fst m" "snd m"] by simp
next
  case (4 s k run m)
  then show ?case by (intro id_dispatch_miss) auto
qed

subsection \<open>The table of query names\<close>

definition qh_inv :: "('icb, 'cb, 'x) qh_state_scheme \<Rightarrow> bool" where
  "qh_inv st \<longleftrightarrow>
     length (query_handlers st) = QUERY_HDLR_MAX \<and> keyed qh_query (query_handlers st) \<and>
     (\<forall>h\<in>set (query_handlers st). length (qh_query h) \<le> QUERY_SIZE \<and> (qh_query h \<noteq> [] \<longrightarrow> qh_callback h \<noteq> None))"

definition qh_calm :: "('icb, 'cb, 'x) qh_state_scheme \<Rightarrow> bool" where
  "qh_calm st \<longleftrightarrow> (\<forall>h\<in>set (query_handlers st). \<not> query_expired (clock st) h)"

definition qh_pending :: "('icb, 'cb, 'x) qh_state_scheme \<Rightarrow> cstring \<Rightarrow> ('cb \<times> bool) option" where
  "qh_pending st k = map_option (\<lambda>h. (the (qh_callback h), qh_permanent h)) (slot_of qh_query (query_handlers st) k)"

definition qh_valid :: "cstring \<Rightarrow> bool" where
  "qh_valid k \<longleftrightarrow> k \<noteq> [] \<and> length k \<le> QUERY_SIZE"

lemma query_matches_iff:
  "length (qh_query h) \<le> QUERY_SIZE \<Longrightarrow> length q \<le> QUERY_SIZE \<Longrightarrow> query_matches q h \<longleftrightarrow> qh_query h = q"
  by (simp add: query_matches_def strncmp_eq_def)

lemma qh_add_pending:
  assumes "qh_inv st" "qh_valid u" "qh_pending st u = None" "qh_register u p (Some c) st = Some st'"
  shows "qh_inv st' \<and> qh_pending st' = (qh_pending st)(u \<mapsto> (c, p))"
proof -
  let ?hs = "query_handlers st" and ?i = "first_index (\<lambda>h. qh_query h = []) (query_handlers st)"
  let ?h = "\<lparr>qh_callback = Some c, qh_permanent = p, qh_timestamp = clock st, qh_query = u\<rparr>"
  have tk: "take QUERY_SIZE u = u" using assms(2) by (simp add: qh_valid_def)
  from assms(4) have i: "?i < length ?hs" and st': "st' = st\<lparr>query_handlers := ?hs[?i := ?h]\<rparr>"
    by (auto simp: qh_register_def Let_def tk split: if_splits)
  have free: "qh_query (?hs ! ?i) = []" using first_index_holds [of "\<lambda>h. qh_query h = []" ?hs] i by simp
  have f: "keyed qh_query (?hs[?i := ?h])" "slot_of qh_query (?hs[?i := ?h]) = (slot_of qh_query ?hs)(u \<mapsto> ?h)"
    using slot_of_fill [of ?i ?hs qh_query ?h] i free assms(1,2,3)
    by (auto simp: qh_valid_def qh_inv_def qh_pending_def)
  have "length (qh_query h) \<le> QUERY_SIZE \<and> (qh_query h \<noteq> [] \<longrightarrow> qh_callback h \<noteq> None)"
    if "h \<in> set (?hs[?i := ?h])" for h
    using that set_update_subset_insert [of ?hs ?i ?h] assms(1,2) by (auto simp: qh_inv_def qh_valid_def)
  then have "qh_inv st'" using f(1) assms(1) by (auto simp: qh_inv_def st')
  moreover have "qh_pending st' = (qh_pending st)(u \<mapsto> (c, p))"
    using f(2) by (auto simp: qh_pending_def st' fun_eq_iff)
  ultimately show ?thesis by simp
qed

lemma qh_add_calm: "qh_calm st \<Longrightarrow> qh_register u p (Some c) st = Some st' \<Longrightarrow> qh_calm st'"
  using set_update_subset_insert [of "query_handlers st" "first_index (\<lambda>h. qh_query h = []) (query_handlers st)"]
  by (fastforce simp: qh_calm_def qh_register_def Let_def query_expired_def split: if_splits)

lemma qh_clear_pending:
  assumes "qh_inv st" "i < length (query_handlers st)" "qh_query (query_handlers st ! i) = k" "k \<noteq> []"
  shows "qh_inv (clear_query i st) \<and> qh_pending (clear_query i st) = (qh_pending st)(k := None)"
proof -
  let ?h = "(query_handlers st ! i)\<lparr>qh_query := []\<rparr>"
  from assms(1) have "keyed qh_query (query_handlers st)" by (simp add: qh_inv_def)
  with slot_of_clear [of i "query_handlers st" qh_query k ?h] assms(2,3,4)
  have c: "keyed qh_query ((query_handlers st)[i := ?h])"
    "slot_of qh_query ((query_handlers st)[i := ?h]) = (slot_of qh_query (query_handlers st))(k := None)" by auto
  have "qh_inv (clear_query i st)"
    using c(1) assms(1,2) set_update_subset_insert [of "query_handlers st" i ?h]
    by (fastforce simp: qh_inv_def clear_query_def)
  with c(2) show ?thesis by (auto simp: qh_pending_def clear_query_def fun_eq_iff)
qed

lemma qh_clear_calm: "qh_calm st \<Longrightarrow> qh_calm (clear_query i st)"
  using set_update_subset_insert [of "query_handlers st" i "(query_handlers st ! i)\<lparr>qh_query := []\<rparr>"]
  by (fastforce simp: qh_calm_def clear_query_def query_expired_def)

lemma qh_loop_skip:
  assumes "\<forall>j. QUERY_HDLR_MAX - (n + left) \<le> j \<longrightarrow> j < QUERY_HDLR_MAX - left \<longrightarrow>
      \<not> query_matches q (query_handlers st ! j) \<and> \<not> query_expired t (query_handlers st ! j)"
    "n + left \<le> QUERY_HDLR_MAX"
  shows "qh_loop run t q i m (n + left) st = qh_loop run t q i m left st"
  using assms
proof (induction n)
  case 0
  then show ?case by simp
next
  case (Suc n)
  have "qh_loop run t q i m (n + left) st = qh_loop run t q i m left st"
    using Suc.prems by (intro Suc.IH) auto
  moreover have "\<not> query_matches q (query_handlers st ! (QUERY_HDLR_MAX - Suc (n + left)))"
    "\<not> query_expired t (query_handlers st ! (QUERY_HDLR_MAX - Suc (n + left)))"
    using Suc.prems by auto
  ultimately show ?case by (simp add: Let_def)
qed

lemma qh_dispatch_hit:
  assumes "qh_inv st" "qh_calm st" "qh_pending st k = Some (c, p)"
  shows "\<exists>st'. qh_inv st' \<and> qh_calm st' \<and> qh_pending st' = (if p then qh_pending st else (qh_pending st)(k := None))
     \<and> qh_handle run (Some k) mi m st = (run c mi m st' \<bind> (\<lambda>r. Some (True, r)))"
proof -
  let ?hs = "query_handlers st"
  from assms(3) obtain h where h: "slot_of qh_query ?hs k = Some h" "c = the (qh_callback h)" "p = qh_permanent h"
    by (auto simp: qh_pending_def)
  from slot_of_index [OF h(1)] obtain i where i: "i < length ?hs" "?hs ! i = h" "qh_query h = k"
    "k \<noteq> []" "\<forall>j<i. qh_query (?hs ! j) \<noteq> k" by blast
  have len: "length ?hs = QUERY_HDLR_MAX" using assms(1) by (simp add: qh_inv_def)
  have hin: "h \<in> set ?hs" using i by auto
  have cb: "qh_callback h = Some c" using assms(1) hin i(3,4) h(2) by (auto simp: qh_inv_def)
  have lt: "length (qh_query (?hs ! j)) \<le> QUERY_SIZE" if "j < length ?hs" for j
    using assms(1) that by (simp add: qh_inv_def)
  have klen: "length k \<le> QUERY_SIZE" using lt [OF i(1)] i(2,3) by simp
  let ?left = "QUERY_HDLR_MAX - i"
  have e: "QUERY_HDLR_MAX = i + ?left" "QUERY_HDLR_MAX - ?left = i" using i(1) len by auto
  have "\<forall>j. QUERY_HDLR_MAX - (i + ?left) \<le> j \<longrightarrow> j < QUERY_HDLR_MAX - ?left \<longrightarrow>
      \<not> query_matches k (?hs ! j) \<and> \<not> query_expired (clock st) (?hs ! j)"
    using i(1,5) lt klen assms(2) e by (auto simp: query_matches_iff qh_calm_def)
  from qh_loop_skip [OF this, of run mi m] e(1)
  have "qh_loop run (clock st) k mi m QUERY_HDLR_MAX st = qh_loop run (clock st) k mi m ?left st" by simp
  moreover obtain l where l: "?left = Suc l" using i(1) len by (cases ?left) auto
  moreover have "QUERY_HDLR_MAX - Suc l = i" using l e by simp
  moreover have "query_matches k h" using i(2,3) lt [OF i(1)] klen by (simp add: query_matches_iff)
  ultimately have "qh_handle run (Some k) mi m st
      = (run c mi m (if \<not> qh_permanent h then clear_query i st else st) \<bind> (\<lambda>r. Some (True, r)))"
    using i cb by (simp add: qh_handle_def Let_def)
  moreover have "qh_inv (if \<not> qh_permanent h then clear_query i st else st)
      \<and> qh_calm (if \<not> qh_permanent h then clear_query i st else st)
      \<and> qh_pending (if \<not> qh_permanent h then clear_query i st else st)
          = (if p then qh_pending st else (qh_pending st)(k := None))"
    using qh_clear_pending [OF assms(1) i(1)] qh_clear_calm [OF assms(2)] assms(1,2) h(3) i by auto
  ultimately show ?thesis by blast
qed

lemma qh_dispatch_miss:
  assumes "qh_inv st" "qh_calm st" "qh_valid k" "qh_pending st k = None"
  shows "qh_handle run (Some k) mi m st = Some (False, st)"
proof -
  have "\<forall>j. QUERY_HDLR_MAX - (QUERY_HDLR_MAX + 0) \<le> j \<longrightarrow> j < QUERY_HDLR_MAX - 0 \<longrightarrow>
      \<not> query_matches k (query_handlers st ! j) \<and> \<not> query_expired (clock st) (query_handlers st ! j)"
    using assms by (auto simp: query_matches_iff qh_calm_def qh_inv_def qh_valid_def qh_pending_def slot_of_None)
  from qh_loop_skip [OF this, of run mi m] assms(3) show ?thesis by (simp add: qh_handle_def qh_valid_def)
qed

interpretation qht: handler_table qh_inv qh_calm qh_valid qh_pending
  "\<lambda>k p c s. qh_register k p (Some c) s"
  "\<lambda>run k m s. qh_handle (\<lambda>c mi msg. run c (mi, msg)) (Some k) (fst m) (snd m) s"
proof (unfold_locales, goal_cases)
  case (1 s k p c s')
  then show ?case by (rule qh_add_pending)
next
  case (2 s k p c s')
  then show ?case by (rule qh_add_calm)
next
  case (3 s k c p run m)
  then show ?case using qh_dispatch_hit [of s k c p "\<lambda>c mi msg. run c (mi, msg)" "fst m" "snd m"] by simp
next
  case (4 s k run m)
  then show ?case by (intro qh_dispatch_miss)
qed

subsection \<open>Unique ids\<close>

lemma nat_dec_length: "n < 10 ^ Suc k \<Longrightarrow> length (nat_dec n) \<le> Suc k"
proof (induction k arbitrary: n)
  case 0
  then show ?case by (subst nat_dec.simps) simp
next
  case (Suc k)
  show ?case
  proof (cases "n < 10")
    case True
    then show ?thesis by (subst nat_dec.simps) simp
  next
    case False
    have "n div 10 < 10 ^ Suc k" using Suc.prems by (simp add: less_mult_imp_div_less mult.commute)
    from Suc.IH [OF this] False show ?thesis by (subst nat_dec.simps) simp
  qed
qed

lemma digits_val_zeros: "digits_val 0 (replicate m CHR ''0'' @ s) = digits_val 0 s"
  by (induction m) (simp_all add: digit_val_def)

lemma dec08_length: "0 \<le> i \<Longrightarrow> i < 10 ^ 8 \<Longrightarrow> length (dec08 i) = 8"
  using nat_dec_length [of "nat i" 7] by (simp add: dec08_def pad_zeros_def nat_less_iff)

lemma dec08_value: "0 \<le> i \<Longrightarrow> digits_val 0 (dec08 i) = nat i"
  by (simp add: dec08_def pad_zeros_def digits_val_zeros digits_val_nat_dec)

lemma generate_step:
  assumes "unat (uid_counter st) + 1 < 10 ^ 8"
  shows "idh_generate_unique_id st
       = Some (''uid'' @ dec08 (int (unat (uid_counter st) + 1)), st\<lparr>uid_counter := uid_counter st + 1\<rparr>)"
    and "unat (uid_counter st + 1) = unat (uid_counter st) + 1"
proof -
  show u: "unat (uid_counter st + 1) = unat (uid_counter st) + 1"
    using assms by (simp add: unat_word_ariths(1))
  have "sint (uid_counter st + 1) = int (unat (uid_counter st + 1))"
  proof -
    have "unat (uid_counter st + 1) < 2 ^ 31" using assms u by simp
    then have "int (unat (uid_counter st + 1)) < int (2 ^ 31)" by (simp only: of_nat_less_iff)
    then have "uint (uid_counter st + 1) < 2 ^ 31" by simp
    then have "signed_take_bit 31 (uint (uid_counter st + 1)) = uint (uid_counter st + 1)"
      by (intro signed_take_bit_int_eq_self) (auto intro: order_trans [OF _ uint_ge_0])
    then show ?thesis unfolding sint_uint by simp
  qed
  then show "idh_generate_unique_id st
       = Some (''uid'' @ dec08 (int (unat (uid_counter st) + 1)), st\<lparr>uid_counter := uid_counter st + 1\<rparr>)"
  proof -
    have "int (unat (uid_counter st) + 1) < int (10 ^ 8)" using assms by (simp only: of_nat_less_iff)
    then have "length (dec08 (int (unat (uid_counter st) + 1))) = 8" by (intro dec08_length) simp_all
    then show ?thesis using \<open>sint (uid_counter st + 1) = int (unat (uid_counter st + 1))\<close> u
      by (simp add: idh_generate_unique_id_def bump_id_def format_id_def Let_def UID_SIZE_def)
  qed
qed

text \<open>The ids of the next \<open>k\<close> requests.\<close>

fun generate_ids :: "nat \<Rightarrow> ('cb, 'x) idh_state_scheme \<Rightarrow> cstring list crash" where
  "generate_ids 0 st = Some []"
| "generate_ids (Suc k) st =
     do {
       (u, st') \<leftarrow> idh_generate_unique_id st;
       us \<leftarrow> generate_ids k st';
       Some (u # us)
     }"

lemma generate_ids_eq:
  "unat (uid_counter st) + k < 10 ^ 8 \<Longrightarrow>
     generate_ids k st = Some (map (\<lambda>n. ''uid'' @ dec08 (int n)) [unat (uid_counter st) + 1..<unat (uid_counter st) + 1 + k])"
proof (induction k arbitrary: st)
  case 0
  then show ?case by simp
next
  case (Suc k)
  have s: "unat (uid_counter st) + 1 < 10 ^ 8" using Suc.prems by simp
  have "unat (uid_counter (st\<lparr>uid_counter := uid_counter st + 1\<rparr>)) + k < 10 ^ 8"
    using Suc.prems generate_step(2) [OF s] by simp
  from Suc.IH [OF this] generate_step(2) [OF s]
  have "generate_ids k (st\<lparr>uid_counter := uid_counter st + 1\<rparr>)
      = Some (map (\<lambda>n. ''uid'' @ dec08 (int n)) [unat (uid_counter st) + 2..<unat (uid_counter st) + 2 + k])"
    by simp
  moreover have "[unat (uid_counter st) + 1..<unat (uid_counter st) + 1 + Suc k]
      = (unat (uid_counter st) + 1) # [unat (uid_counter st) + 2..<unat (uid_counter st) + 2 + k]"
    by (subst upt_conv_Cons) simp_all
  ultimately show ?case using generate_step(1) [OF s] by simp
qed

subsection \<open>Properties\<close>

text \<open>The ids of the first hundred million requests of one thread alone are pairwise distinct and fit a \<open>t_uid\<close>.\<close>

theorem unique_ids_alone:
  assumes "unat (uid_counter st) + k < 10 ^ 8"
  shows "\<exists>us. generate_ids k st = Some us \<and> length us = k \<and> distinct us \<and> list_all id_valid us"
proof -
  let ?is = "[unat (uid_counter st) + 1..<unat (uid_counter st) + 1 + k]"
  have "inj_on (\<lambda>n. ''uid'' @ dec08 (int n)) (set ?is)"
    by (rule inj_onI) (metis dec08_value nat_int of_nat_0_le_iff same_append_eq)
  then have "distinct (map (\<lambda>n. ''uid'' @ dec08 (int n)) ?is)" by (simp add: distinct_map del: upt_Suc)
  moreover have "list_all id_valid (map (\<lambda>n. ''uid'' @ dec08 (int n)) ?is)"
  proof -
    have "length (dec08 (int n)) = 8" if "n \<in> set ?is" for n
      using that assms by (intro dec08_length) auto
    then show ?thesis by (auto simp: list_all_iff id_valid_def UID_SIZE_def)
  qed
  ultimately show ?thesis using generate_ids_eq [OF assms] by simp
qed

definition empty_tables :: "(unit, unit) qh_state" where
  "empty_tables = \<lparr>id_handlers = replicate 64 free_id_slot, uid_counter = 0, clock = 1000,
     query_handlers = replicate 64 free_query_slot\<rparr>"

theorem unique_ids_alone_witness:
  "\<exists>us. generate_ids 3 empty_tables = Some us \<and> length us = 3 \<and> distinct us \<and> list_all id_valid us"
  by (rule unique_ids_alone) (simp add: empty_tables_def)

text \<open>Several threads: the log shows the counter as it is when the id is written.\<close>

definition is_bump :: "id_event \<Rightarrow> bool" where
  "is_bump e \<longleftrightarrow> (case e of Bump t \<Rightarrow> True | Format t \<Rightarrow> False)"

abbreviation bumps :: "id_event list \<Rightarrow> nat" where
  "bumps es \<equiv> length (filter is_bump es)"

abbreviation formats :: "id_event list \<Rightarrow> nat" where
  "formats es \<equiv> length (filter (\<lambda>e. \<not> is_bump e) es)"

fun counted :: "id_event list \<Rightarrow> nat \<Rightarrow> (nat \<times> nat) list" where
  "counted [] n = []"
| "counted (Bump t # es) n = counted es (n + 1)"
| "counted (Format t # es) n = (t, n) # counted es n"

lemma counted_append: "counted (as @ bs) n = counted as n @ counted bs (n + bumps as)"
  by (induction as n rule: counted.induct) (simp_all add: is_bump_def)

lemma counted_length: "length (counted es n) = formats es"
  by (induction es n rule: counted.induct) (simp_all add: is_bump_def)

lemma counted_bound: "(t, i) \<in> set (counted es n) \<Longrightarrow> i \<le> n + bumps es"
  by (induction es n rule: counted.induct) (auto simp: is_bump_def)

lemma format_small:
  assumes "unat (uid_counter st) < 10 ^ 8"
  shows "format_id st = Some (''uid'' @ dec08 (int (unat (uid_counter st))))"
proof -
  have "unat (uid_counter st) < 2 ^ 31" using assms by simp
  then have "int (unat (uid_counter st)) < int (2 ^ 31)" by (simp only: of_nat_less_iff)
  then have "signed_take_bit 31 (uint (uid_counter st)) = uint (uid_counter st)"
    by (intro signed_take_bit_int_eq_self) (auto intro: order_trans [OF _ uint_ge_0])
  then have "sint (uid_counter st) = int (unat (uid_counter st))" unfolding sint_uint by simp
  moreover have "int (unat (uid_counter st)) < int (10 ^ 8)" using assms by (simp only: of_nat_less_iff)
  then have "length (dec08 (int (unat (uid_counter st)))) = 8" by (intro dec08_length) simp_all
  ultimately show ?thesis by (simp add: format_id_def Let_def UID_SIZE_def)
qed

lemma run_ids_counted:
  "unat (uid_counter st) + bumps es < 10 ^ 8 \<Longrightarrow>
     run_ids es st = Some (map (\<lambda>(t, n). (t, ''uid'' @ dec08 (int n))) (counted es (unat (uid_counter st))))"
proof (induction es st rule: run_ids.induct)
  case (2 t es st)
  have u: "unat (uid_counter (bump_id st)) = unat (uid_counter st) + 1"
    using 2(2) generate_step(2) [of st] by (simp add: is_bump_def bump_id_def)
  with 2 show ?case by (simp add: is_bump_def)
next
  case (3 t es st)
  then show ?case by (simp add: is_bump_def format_small)
qed simp

lemma dec08_eq: "dec08 (int m) = dec08 (int n) \<longleftrightarrow> m = n"
  by (metis dec08_value nat_int of_nat_0_le_iff)

text \<open>C32: however threads that make identifiers interleave, up to a hundred millionth call every identifier fits a
  \<open>t_uid\<close>, and two identifiers are the same exactly if nobody incremented the counter between the two calls of
  \<open>sprintf\<close>: calls that do not overlap, and so all calls of one thread, get different ones.\<close>

theorem unique_ids:
  assumes "unat (uid_counter st) + bumps es < 10 ^ 8"
  shows "\<exists>us. run_ids es st = Some us \<and> length us = formats es \<and> list_all (\<lambda>u. id_valid (snd u)) us
     \<and> (\<forall>as t bs t' cs. es = as @ Format t # bs @ Format t' # cs \<longrightarrow>
          fst (us ! formats as) = t \<and> fst (us ! (formats as + 1 + formats bs)) = t'
          \<and> (snd (us ! formats as) = snd (us ! (formats as + 1 + formats bs)) \<longleftrightarrow> bumps bs = 0))"
proof -
  let ?n = "unat (uid_counter st)"
  let ?us = "map (\<lambda>(t, n). (t, ''uid'' @ dec08 (int n))) (counted es ?n)"
  have "list_all (\<lambda>u. id_valid (snd u)) ?us"
  proof -
    have "length (dec08 (int i)) = 8" if "(t, i) \<in> set (counted es ?n)" for t i
      using counted_bound [OF that] assms by (intro dec08_length) auto
    then show ?thesis by (auto simp: list_all_iff id_valid_def UID_SIZE_def)
  qed
  moreover have "fst (?us ! formats as) = t \<and> fst (?us ! (formats as + 1 + formats bs)) = t'
      \<and> (snd (?us ! formats as) = snd (?us ! (formats as + 1 + formats bs)) \<longleftrightarrow> bumps bs = 0)"
    if es: "es = as @ Format t # bs @ Format t' # cs" for as t bs t' cs
  proof -
    define m where "m = ?n + bumps as"
    have c: "counted es ?n = counted as ?n @ (t, m) # counted bs m @ (t', m + bumps bs) # counted cs (m + bumps bs)"
      by (simp add: es counted_append m_def)
    have "?us ! formats as = (t, ''uid'' @ dec08 (int m))" unfolding c by (simp add: nth_append counted_length)
    moreover have "?us ! (formats as + 1 + formats bs) = (t', ''uid'' @ dec08 (int (m + bumps bs)))"
      unfolding c by (simp add: nth_append counted_length del: of_nat_add)
    ultimately show ?thesis using dec08_eq [of m "m + bumps bs"] by (simp del: of_nat_add)
  qed
  ultimately show ?thesis using run_ids_counted [OF assms] by (intro exI [of _ ?us]) (simp add: counted_length)
qed

theorem unique_ids_witness:
  "\<exists>us. run_ids [Bump 1, Format 1, Bump 2, Bump 1, Format 1, Format 2] empty_tables = Some us \<and> length us = 3
     \<and> snd (us ! 0) \<noteq> snd (us ! 1)"
proof -
  let ?es = "[Bump 1, Format 1, Bump 2, Bump 1, Format 1, Format 2]"
  have "unat (uid_counter empty_tables) + bumps ?es < 10 ^ 8" by (simp add: empty_tables_def is_bump_def)
  from unique_ids [OF this] obtain us where us: "run_ids ?es empty_tables = Some us" "length us = formats ?es"
    "\<And>as t bs t' cs. ?es = as @ Format t # bs @ Format t' # cs \<Longrightarrow>
       snd (us ! formats as) = snd (us ! (formats as + 1 + formats bs)) \<longleftrightarrow> bumps bs = 0" by blast
  from us(1,2) us(3) [of "[Bump 1]" 1 "[Bump 2, Bump 1]" 1 "[Format 2]"] show ?thesis by (auto simp: is_bump_def)
qed

text \<open>Two threads that both increment before either writes get the same identifier, and with it each the answer of the
  other.\<close>

theorem same_id_twice: "\<exists>u. run_ids [Bump 1, Bump 2, Format 1, Format 2] empty_tables = Some [(1, u), (2, u)]"
proof -
  have "unat (uid_counter empty_tables) + bumps [Bump 1, Bump 2, Format 1, Format 2] < 10 ^ 8"
    by (simp add: empty_tables_def is_bump_def)
  from run_ids_counted [OF this] show ?thesis by simp
qed

lemma digit_char_01: "digit_char 0 = CHR ''0''" "digit_char (Suc 0) = CHR ''1''"
  by (simp_all add: digit_char_def char_of_def bit_iff_odd)

text \<open>the hundred millionth id has nine digits and overflows the twelve bytes of a \<open>t_uid\<close>.\<close>

theorem unique_id_overflow: "uid_counter st = 99999999 \<Longrightarrow> idh_generate_unique_id st = None"
proof -
  have "dec08 100000000 = ''100000000''"
    by (simp add: dec08_def pad_zeros_def nat_dec.simps digit_char_01)
  then show "uid_counter st = 99999999 \<Longrightarrow> idh_generate_unique_id st = None"
    by (simp add: idh_generate_unique_id_def bump_id_def format_id_def UID_SIZE_def Let_def)
qed

theorem unique_id_overflow_witness: "idh_generate_unique_id (empty_tables\<lparr>uid_counter := 99999999\<rparr>) = None"
  by (rule unique_id_overflow) simp

text \<open>a request handler is called for the answer that carries its id, exactly once: afterwards the
  table is as before the request and a second answer with the same id is not handled.\<close>

theorem idh_answered_once:
  assumes "id_inv st" "id_calm st" "id_valid u" "id_pending st u = None"
    and "\<And>c' msg' ty' s s'. run c' msg' ty' s = Some s' \<Longrightarrow> id_inv s \<Longrightarrow> id_calm s \<Longrightarrow>
           id_inv s' \<and> id_calm s' \<and> id_pending s' = id_pending s"
    and "st1 = idh_register u False (Some c) st"
    and "idh_handle (Suc (length (id_handlers st1))) run (Some u) msg ty st1 = Some (b, st2)"
  shows "b \<and> id_pending st2 = id_pending st
       \<and> idh_handle (Suc (length (id_handlers st2))) run (Some u) msg2 ty2 st2 = Some (False, st2)"
proof -
  have "idt.tame (\<lambda>c m. run c (fst m) (snd m))" using assms(5) by (auto simp: idt.tame_def)
  from idt.one_shot [OF assms(1-4) _ _ this, of c st1 "(msg, ty)" b st2 "(msg2, ty2)"] assms(6,7)
  show ?thesis by simp
qed

lemma empty_tables_ok: "id_inv empty_tables \<and> id_calm empty_tables \<and> id_pending empty_tables = (\<lambda>_. None)
    \<and> qh_inv empty_tables \<and> qh_calm empty_tables \<and> qh_pending empty_tables = (\<lambda>_. None)"
  by (auto simp: empty_tables_def id_inv_def id_calm_def id_pending_def keyed_def free_id_slot_def
      id_expired_def UID_SIZE_def fun_eq_iff slot_of_None qh_inv_def qh_calm_def qh_pending_def
      free_query_slot_def query_expired_def QUERY_SIZE_def QUERY_HDLR_MAX_def)

text \<open>The request and its answer, on the empty table.\<close>

definition request_one :: "(unit, unit) qh_state" where
  "request_one = idh_register ''uid1'' False (Some ()) empty_tables"

lemma request_one_slots:
  "id_handlers request_one = \<lparr>ih_callback = Some (), ih_permanent = False, ih_timestamp = 1000, ih_id = ''uid1''\<rparr>
     # replicate 63 free_id_slot"
proof -
  have "replicate 64 (free_id_slot :: unit id_handler) = free_id_slot # replicate 63 free_id_slot"
    by (simp add: numeral_eq_Suc)
  then show ?thesis
    by (simp add: request_one_def idh_register_def empty_tables_def Let_def free_id_slot_def)
qed

theorem idh_answered_once_witness:
  "id_pending (clear_id 0 request_one) = id_pending empty_tables
   \<and> idh_handle (Suc (length (id_handlers (clear_id 0 request_one)))) (\<lambda>_ _ _ s. Some s) (Some ''uid1'') None
       XMPP_TYPE_RESULT (clear_id 0 request_one) = Some (False, clear_id 0 request_one)"
proof -
  have "idh_handle (Suc (length (id_handlers request_one))) (\<lambda>_ _ _ s. Some s) (Some ''uid1'') None XMPP_TYPE_RESULT request_one
      = Some (True, clear_id 0 request_one)"
    by (simp add: idh_handle_def request_one_slots id_matches_def strncmp_eq_def Let_def del: Suc_numeral)
  from idh_answered_once [OF _ _ _ _ _ request_one_def this, of None XMPP_TYPE_RESULT] show ?thesis
    using empty_tables_ok by (simp add: id_valid_def UID_SIZE_def)
qed

definition log_run ::
  "'cb \<Rightarrow> cptr \<Rightarrow> xmpp_msg_type \<Rightarrow> ('cb, ('cb \<times> cptr \<times> xmpp_msg_type) list) idh_state_scheme
     \<Rightarrow> ('cb, ('cb \<times> cptr \<times> xmpp_msg_type) list) idh_state_scheme crash" where
  "log_run c msg ty st = Some (idh_state.more_update (\<lambda>l. l @ [(c, msg, ty)]) st)"

definition expire :: "int \<Rightarrow> 'cb id_handler \<Rightarrow> 'cb id_handler" where
  "expire t h = (if id_expired t h then h\<lparr>ih_id := []\<rparr> else h)"

lemma idh_loop_log:
  assumes "hs = id_handlers st" "i + n = length hs" "n < fuel"
    "\<forall>h\<in>set (drop i hs). \<not> id_matches m h \<and> (ih_id h \<noteq> [] \<longrightarrow> ih_callback h \<noteq> None)"
  shows "idh_loop fuel log_run t m msg ty i st
       = Some (False, idh_state.more_update
           (\<lambda>l. l @ map (\<lambda>h. (the (ih_callback h), None, XMPP_TYPE_ERROR)) (filter (id_expired t) (drop i hs)))
           (st\<lparr>id_handlers := take i hs @ map (expire t) (drop i hs)\<rparr>))"
  using assms
proof (induction n arbitrary: i st fuel hs)
  case 0
  then obtain f where "fuel = Suc f" by (cases fuel) auto
  with 0 show ?case by simp
next
  case (Suc n)
  then obtain f where f: "fuel = Suc f" "n < f" by (cases fuel) auto
  have i: "i < length hs" using Suc.prems(2) by simp
  then have d: "drop i hs = hs ! i # drop (Suc i) hs" by (simp add: Cons_nth_drop_Suc)
  have t: "take (Suc i) hs = take i hs @ [hs ! i]" using i by (simp add: take_Suc_conv_app_nth)
  have nm: "\<not> id_matches m (hs ! i)" "ih_id (hs ! i) \<noteq> [] \<longrightarrow> ih_callback (hs ! i) \<noteq> None"
    "\<forall>h\<in>set (drop (Suc i) hs). \<not> id_matches m h \<and> (ih_id h \<noteq> [] \<longrightarrow> ih_callback h \<noteq> None)"
    using Suc.prems(4) d by auto
  show ?case
  proof (cases "id_expired t (hs ! i)")
    case True
    then obtain c where c: "ih_callback (hs ! i) = Some c" using nm(2) by (auto simp: id_expired_def)
    let ?hs = "hs[i := (hs ! i)\<lparr>ih_id := []\<rparr>]"
    let ?st = "idh_state.more_update (\<lambda>l. l @ [(c, None, XMPP_TYPE_ERROR)]) (st\<lparr>id_handlers := ?hs\<rparr>)"
    have "idh_loop fuel log_run t m msg ty i st = idh_loop f log_run t m msg ty (Suc i) ?st"
      using f i nm(1) True c Suc.prems(1) by (simp add: Let_def log_run_def clear_id_def)
    moreover have "?hs = id_handlers ?st" "Suc i + n = length ?hs" using Suc.prems(2) by simp_all
    moreover have "drop (Suc i) ?hs = drop (Suc i) hs" "take (Suc i) ?hs = take i hs @ [(hs ! i)\<lparr>ih_id := []\<rparr>]"
      using i by (simp_all add: take_Suc_conv_app_nth)
    ultimately show ?thesis
      using Suc.IH [of ?hs ?st "Suc i" f] f(2) nm(3) True c d by (simp add: expire_def comp_def)
  next
    case False
    have "idh_loop fuel log_run t m msg ty i st = idh_loop f log_run t m msg ty (Suc i) st"
      using f i nm(1) False Suc.prems(1) by (simp add: Let_def)
    then show ?thesis
      using Suc.IH [of hs st "Suc i" f] Suc.prems(1,2) f(2) nm(3) False d t by (simp add: expire_def)
  qed
qed

text \<open>without a matching handler, a dispatch tells every handler that has waited for more than 120
  seconds, in table order and once, that no answer came (a NULL message of type error), and frees
  exactly their slots; the size of the table is fuel enough.\<close>

theorem idh_timeouts:
  assumes "id_inv st" "id_pending st m = None"
  shows "idh_handle (Suc (length (id_handlers st))) log_run (Some m) msg ty st
       = Some (False, idh_state.more_update
           (\<lambda>l. l @ map (\<lambda>h. (the (ih_callback h), None, XMPP_TYPE_ERROR))
                   (filter (id_expired (clock st)) (id_handlers st)))
           (st\<lparr>id_handlers := map (expire (clock st)) (id_handlers st)\<rparr>))"
proof -
  have "\<forall>h\<in>set (drop 0 (id_handlers st)). \<not> id_matches m h \<and> (ih_id h \<noteq> [] \<longrightarrow> ih_callback h \<noteq> None)"
    using assms by (auto simp: id_matches_iff id_inv_def id_pending_def slot_of_None)
  from idh_loop_log [OF refl _ _ this, of "length (id_handlers st)" "Suc (length (id_handlers st))"]
  show ?thesis by (simp add: idh_handle_def)
qed

definition waiting_table :: "(nat, (nat \<times> cptr \<times> xmpp_msg_type) list) idh_state_scheme" where
  "waiting_table = \<lparr>id_handlers = [\<lparr>ih_callback = Some 1, ih_permanent = False, ih_timestamp = 0, ih_id = ''a''\<rparr>,
       \<lparr>ih_callback = Some 2, ih_permanent = False, ih_timestamp = 900, ih_id = ''b''\<rparr>],
     uid_counter = 0, clock = 1000, \<dots> = []\<rparr>"

theorem idh_timeouts_witness:
  "idh_handle 3 log_run (Some ''c'') None XMPP_TYPE_RESULT waiting_table
   = Some (False, waiting_table\<lparr>id_handlers :=
       [\<lparr>ih_callback = Some 1, ih_permanent = False, ih_timestamp = 0, ih_id = []\<rparr>,
        \<lparr>ih_callback = Some 2, ih_permanent = False, ih_timestamp = 900, ih_id = ''b''\<rparr>],
       idh_state.more := [(1, None, XMPP_TYPE_ERROR)]\<rparr>)"
proof -
  have "id_inv waiting_table" "id_pending waiting_table ''c'' = None"
    by (simp_all add: waiting_table_def id_inv_def keyed_def UID_SIZE_def id_pending_def slot_of_def)
  from idh_timeouts [OF this, of None XMPP_TYPE_RESULT] show ?thesis
    by (simp add: waiting_table_def expire_def id_expired_def numeral_eq_Suc)
qed

text \<open>a permanent query handler is called for each query of its name and stays in the table.\<close>

theorem qh_permanent_dispatched:
  assumes "qh_inv st" "qh_calm st" "qh_valid q" "qh_pending st q = None"
    and "\<And>c' i' msg' s s'. run c' i' msg' s = Some s' \<Longrightarrow> qh_inv s \<Longrightarrow> qh_calm s \<Longrightarrow>
           qh_inv s' \<and> qh_calm s' \<and> qh_pending s' = qh_pending s"
    and "qh_register q True (Some c) st = Some st1"
    and "qh_handle run (Some q) i1 m1 st1 = Some (b1, st2)" "qh_handle run (Some q) i2 m2 st2 = Some (b2, st3)"
  shows "b1 \<and> b2 \<and> qh_pending st3 = (qh_pending st)(q \<mapsto> (c, True))"
proof -
  have t: "qht.tame (\<lambda>c m. run c (fst m) (snd m))" using assms(5) by (auto simp: qht.tame_def)
  have s1: "qh_inv st1" "qh_calm st1" "qh_pending st1 = (qh_pending st)(q \<mapsto> (c, True))"
    using qht.add_pending [OF assms(1,3,4,6)] qht.add_calm [OF assms(2,6)] by auto
  then have p: "qh_pending st1 q = Some (c, True)" by simp
  from qht.hit_then [OF s1(1,2) p _ t, of "(i1, m1)" b1 st2] assms(7)
  have s2: "b1" "qh_inv st2" "qh_calm st2" "qh_pending st2 = qh_pending st1" by simp_all
  with p have "qh_pending st2 q = Some (c, True)" by simp
  from qht.hit_then [OF s2(2,3) this _ t, of "(i2, m2)" b2 st3] assms(8) s1(3) s2(1,4) show ?thesis by simp
qed

theorem qh_permanent_dispatched_witness:
  "\<exists>st1. qh_register ''presence'' True (Some ()) empty_tables = Some st1
     \<and> qh_pending st1 = (qh_pending empty_tables)(''presence'' \<mapsto> ((), True))"
proof -
  let ?h = "\<lparr>qh_callback = Some (), qh_permanent = True, qh_timestamp = 1000, qh_query = ''presence''\<rparr>"
  let ?st1 = "empty_tables\<lparr>query_handlers := ?h # replicate 63 free_query_slot\<rparr>"
  have r: "replicate 64 (free_query_slot :: unit query_handler) = free_query_slot # replicate 63 free_query_slot"
    by (simp add: numeral_eq_Suc)
  then have reg: "qh_register ''presence'' True (Some ()) empty_tables = Some ?st1"
    by (simp add: qh_register_def empty_tables_def Let_def free_query_slot_def QUERY_SIZE_def)
  have h: "qh_handle (\<lambda>_ _ _ s. Some s) (Some ''presence'') None None ?st1 = Some (True, ?st1)"
    by (simp add: qh_handle_def QUERY_HDLR_MAX_def Let_def query_matches_def strncmp_eq_def numeral_eq_Suc)
  have "qh_pending ?st1 = (qh_pending empty_tables)(''presence'' \<mapsto> ((), True))"
    using qh_permanent_dispatched [OF _ _ _ _ _ reg h h] empty_tables_ok
    by (simp add: qh_valid_def QUERY_SIZE_def)
  with reg show ?thesis by blast
qed

end
