(* ===== verification/XmppMsg.thy ===== *)
theory XmppMsg
  imports GetInfo Handlers
begin

text \<open>
  \<open>src/xmpp/tools.c\<close>, \<open>src/xmpp/send.c\<close> and the loop of
  \<open>src/threads/thread_dispatch.c\<close>: taking a stanza apart, building an \<open>iq\<close>, sending a
  request and dispatching what arrives.

  Variadic formatting is left to the callers: a query is the string that the format gives.  Posting
  to the send queue appends to \<open>outbox\<close> (the queue itself is in the theory \<open>ThreadQueue\<close>).
\<close>

subsection \<open>Taking a stanza apart\<close>

abbreviation quot :: char where
  "quot \<equiv> CHR 0x27"

definition get_msg_id :: "cstring \<Rightarrow> cptr" where
  "get_msg_id msg =
     (case get_info msg ''<'' ''>'' of
        None \<Rightarrow> None
      | Some first \<Rightarrow> get_info first (''id='' @ [quot]) [quot])"

definition get_msg_type :: "cstring \<Rightarrow> xmpp_msg_type" where
  "get_msg_type msg =
     (let type = (case get_info msg ''<'' ''>'' of
                    None \<Rightarrow> None
                  | Some first \<Rightarrow> get_info first (''type='' @ [quot]) [quot])
      in case type of
           None \<Rightarrow> XMPP_TYPE_GET
         | Some t \<Rightarrow>
             if t = ''result''
             then (if strstr msg ''<error'' = None then XMPP_TYPE_RESULT else XMPP_TYPE_ERROR)
             else if t = ''error'' then XMPP_TYPE_ERROR
             else XMPP_TYPE_GET)"

definition get_query_tag_name :: "cstring \<Rightarrow> cptr" where
  "get_query_tag_name msg =
     (let stanza =
        (case strstr msg ''<iq'' of
           Some p \<Rightarrow>
             (let iq_pos = drop (length ''<iq'') p in
              case strstr iq_pos ''<query'' of
                Some q \<Rightarrow>
                  (let query_pos = drop (length ''<query'') q in
                   case strstr query_pos ''<data'' of
                     Some d \<Rightarrow>
                       (let data_pos = drop (length ''<data'') d in
                        get_info data_pos (''query_name='' @ [quot]) [quot])
                   | None \<Rightarrow> get_info_first query_pos ''<'' ''/> '')
              | None \<Rightarrow> get_info_first iq_pos ''<'' ''/> '')
         | None \<Rightarrow> get_info_first msg ''<'' ''/> '')
      in if stanza = Some [] then None else stanza)"

subsection \<open>Building and sending\<close>

record jid =
  jid_node :: cptr
  jid_domain :: cptr
  jid_resource :: cptr

text \<open>A missing domain fails the assertion.\<close>

definition jid_to_str :: "jid \<Rightarrow> cstring crash" where
  "jid_to_str j =
     do {
       s \<leftarrow> deref (jid_domain j);
       let s1 = (case jid_node j of None \<Rightarrow> s | Some n \<Rightarrow> n @ ''@'' @ s);
       let s2 = (case jid_resource j of None \<Rightarrow> s1 | Some r \<Rightarrow> s1 @ ''/'' @ r);
       Some s2
     }"

definition opt_attr :: "cstring \<Rightarrow> cptr \<Rightarrow> cstring" where
  "opt_attr name v = (case v of None \<Rightarrow> [] | Some s \<Rightarrow> name @ ''='' @ [quot] @ s @ [quot])"

definition type_str :: "xmpp_msg_type \<Rightarrow> cstring" where
  "type_str t =
     (case t of
        XMPP_TYPE_RESULT \<Rightarrow> ''result''
      | XMPP_TYPE_ERROR \<Rightarrow> ''error''
      | XMPP_TYPE_SET \<Rightarrow> ''set''
      | XMPP_TYPE_GET \<Rightarrow> ''get'')"

definition iq_create :: "cptr \<Rightarrow> cptr \<Rightarrow> jid option \<Rightarrow> xmpp_msg_type \<Rightarrow> cptr \<Rightarrow> cstring crash" where
  "iq_create from_s uid target type query =
     do {
       target_s \<leftarrow> (case target of None \<Rightarrow> Some None | Some j \<Rightarrow> map_option Some (jid_to_str j));
       Some (''<iq xmlns='' @ [quot] @ ''jabber:client'' @ [quot]
             @ '' '' @ opt_attr ''to'' target_s @ '' '' @ opt_attr ''from'' from_s @ '' '' @ opt_attr ''id'' uid
             @ '' type='' @ [quot] @ type_str type @ [quot] @ '' ''
             @ (case query of None \<Rightarrow> ''/>'' | Some q \<Rightarrow> ''>'' @ q @ ''</iq>''))
     }"

record ('icb, 'cb) xmpp_state = "('icb, 'cb) qh_state" +
  outbox :: "cstring list"
  xmpp_jid :: cptr

definition xmpp_send :: "cstring \<Rightarrow> ('icb, 'cb, 'x) xmpp_state_scheme \<Rightarrow> ('icb, 'cb, 'x) xmpp_state_scheme" where
  "xmpp_send query st = st\<lparr>outbox := outbox st @ [query]\<rparr>"

text \<open>Without a callback, or for a result or error, \<open>args\<close> is the id of the answered request.\<close>

definition xmpp_send_iq ::
  "jid option \<Rightarrow> xmpp_msg_type \<Rightarrow> 'icb option \<Rightarrow> cptr \<Rightarrow> cptr \<Rightarrow> ('icb, 'cb, 'x) xmpp_state_scheme
     \<Rightarrow> ('icb, 'cb, 'x) xmpp_state_scheme crash" where
  "xmpp_send_iq target type cb args query st =
     do {
       (uid, st1) \<leftarrow>
         (if cb \<noteq> None \<and> (type = XMPP_TYPE_GET \<or> type = XMPP_TYPE_SET)
          then do {
                 (u, st') \<leftarrow> idh_generate_unique_id st;
                 Some (Some u, idh_register u False cb st')
               }
          else Some (args, st));
       iq \<leftarrow> iq_create (xmpp_jid st1) uid target type query;
       Some (st1\<lparr>outbox := outbox st1 @ [iq]\<rparr>)
     }"

subsection \<open>Dispatching\<close>

text \<open>One round of the dispatch loop, on a message that is not NULL.\<close>

definition dispatch_msg ::
  "nat \<Rightarrow> ('icb \<Rightarrow> cptr \<Rightarrow> xmpp_msg_type \<Rightarrow> ('icb, 'cb, 'x) qh_state_scheme \<Rightarrow> ('icb, 'cb, 'x) qh_state_scheme crash) \<Rightarrow>
     ('cb \<Rightarrow> cptr \<Rightarrow> cptr \<Rightarrow> ('icb, 'cb, 'x) qh_state_scheme \<Rightarrow> ('icb, 'cb, 'x) qh_state_scheme crash) \<Rightarrow>
     cstring \<Rightarrow> ('icb, 'cb, 'x) qh_state_scheme \<Rightarrow> ('icb, 'cb, 'x) qh_state_scheme crash" where
  "dispatch_msg fuel run_id run_q msg st =
     do {
       let msg_id = get_msg_id msg;
       let type = get_msg_type msg;
       (handled, st1) \<leftarrow> (case msg_id of
                            None \<Rightarrow> Some (False, st)
                          | Some m \<Rightarrow> idh_handle fuel run_id (Some m) (Some msg) type st);
       if handled then Some st1
       else if type = XMPP_TYPE_ERROR \<or> type = XMPP_TYPE_RESULT then Some st1
       else (case get_query_tag_name msg of
               None \<Rightarrow> Some st1
             | Some stanza \<Rightarrow> map_option snd (qh_handle run_q (Some stanza) msg_id (Some msg) st1))
     }"

text \<open>
  The loop over what the read queue delivers: a message or NULL, and whether another thread ended
  the session while the loop waited for it.  NULL in a live session fails the assertion.
\<close>

fun thread_dispatch ::
  "nat \<Rightarrow> ('icb \<Rightarrow> cptr \<Rightarrow> xmpp_msg_type \<Rightarrow> ('icb, 'cb, 'x) qh_state_scheme \<Rightarrow> ('icb, 'cb, 'x) qh_state_scheme crash) \<Rightarrow>
     ('cb \<Rightarrow> cptr \<Rightarrow> cptr \<Rightarrow> ('icb, 'cb, 'x) qh_state_scheme \<Rightarrow> ('icb, 'cb, 'x) qh_state_scheme crash) \<Rightarrow>
     (('icb, 'cb, 'x) qh_state_scheme \<Rightarrow> bool) \<Rightarrow> (cptr \<times> bool) list \<Rightarrow> ('icb, 'cb, 'x) qh_state_scheme
     \<Rightarrow> ('icb, 'cb, 'x) qh_state_scheme crash" where
  "thread_dispatch fuel run_id run_q dead [] st = Some st"
| "thread_dispatch fuel run_id run_q dead ((m, died) # ms) st =
     (if dead st then Some st
      else (case m of
              None \<Rightarrow> if died then Some st else None
            | Some msg \<Rightarrow>
                do {
                  st' \<leftarrow> dispatch_msg fuel run_id run_q msg st;
                  if died then Some st' else thread_dispatch fuel run_id run_q dead ms st'
                }))"

subsection \<open>The attributes of a built stanza\<close>

text \<open>Values that do not disturb the scanners.\<close>

definition plain :: "cstring \<Rightarrow> bool" where
  "plain s \<longleftrightarrow> set s \<inter> {quot, CHR ''='', CHR ''<'', CHR ''>''} = {}"

definition plain_opt :: "cptr \<Rightarrow> bool" where
  "plain_opt v \<longleftrightarrow> (case v of None \<Rightarrow> True | Some s \<Rightarrow> plain s)"

definition plain_jid :: "jid \<Rightarrow> bool" where
  "plain_jid j \<longleftrightarrow> plain_opt (jid_node j) \<and> plain_opt (jid_domain j) \<and> plain_opt (jid_resource j)"

lemma plain_append: "plain (s @ t) \<longleftrightarrow> plain s \<and> plain t"
  by (auto simp: plain_def)

lemma jid_to_str_plain: "jid_to_str j = Some s \<Longrightarrow> plain_jid j \<Longrightarrow> plain s"
  by (auto simp: jid_to_str_def plain_jid_def plain_opt_def plain_append bind_eq_Some_conv Let_def split: option.splits)
     (auto simp: plain_def)

lemma skip_attr:
  assumes "plain_opt v" "n \<in> {''to'', ''from''}" "a \<in> {''id'', ''type''}"
  shows "strstr (opt_attr n v @ CHR '' '' # r) (a @ CHR ''='' # [quot]) = strstr r (a @ CHR ''='' # [quot])"
proof (cases v)
  case None
  with assms(3) show ?thesis by (auto simp: opt_attr_def)
next
  case (Some s)
  have "strstr ((s @ [quot]) @ CHR '' '' # r) (a @ CHR ''='' # [quot]) = strstr r (a @ CHR ''='' # [quot])"
    using assms Some by (intro strstr_skip_field) (auto simp: plain_opt_def plain_def)
  with Some assms(2,3) show ?thesis by (auto simp: opt_attr_def)
qed

text \<open>The text between the angle brackets of the start tag.\<close>

definition iq_head :: "cptr \<Rightarrow> cstring \<Rightarrow> cptr \<Rightarrow> xmpp_msg_type \<Rightarrow> cstring" where
  "iq_head from_s u to_s type =
     ''iq xmlns='' @ [quot] @ ''jabber:client'' @ [quot] @ '' '' @ opt_attr ''to'' to_s @ '' ''
     @ opt_attr ''from'' from_s @ '' '' @ ''id='' @ [quot] @ u @ [quot] @ '' '' @ ''type='' @ [quot] @ type_str type @ [quot] @ '' ''"

lemma iq_create_head:
  assumes "iq_create from_s (Some u) target type query = Some iq" "\<And>j. target = Some j \<Longrightarrow> plain_jid j"
  shows "\<exists>to_s. plain_opt to_s
    \<and> iq = ''<'' @ iq_head from_s u to_s type @ (case query of None \<Rightarrow> ''/>'' | Some q \<Rightarrow> ''>'' @ q @ ''</iq>'')"
proof -
  from assms(1) obtain to_s where t: "(case target of None \<Rightarrow> Some None | Some j \<Rightarrow> map_option Some (jid_to_str j)) = Some to_s"
    "iq = ''<'' @ iq_head from_s u to_s type @ (case query of None \<Rightarrow> ''/>'' | Some q \<Rightarrow> ''>'' @ q @ ''</iq>'')"
    by (auto simp: iq_create_def iq_head_def opt_attr_def bind_eq_Some_conv)
  moreover have "plain_opt to_s"
    using t(1) assms(2) jid_to_str_plain by (auto simp: plain_opt_def split: option.splits)
  ultimately show ?thesis by blast
qed

lemma iq_head_no_gt:
  assumes "plain_opt from_s" "plain_opt to_s" "plain u"
  shows "CHR ''>'' \<notin> set (iq_head from_s u to_s type)"
  using assms
  by (auto simp: iq_head_def opt_attr_def plain_opt_def plain_def type_str_def split: option.splits xmpp_msg_type.splits)

lemma iq_head_id:
  assumes "plain_opt from_s" "plain_opt to_s" "plain u"
  shows "get_info (iq_head from_s u to_s type @ r) (''id='' @ [quot]) [quot] = Some u"
proof -
  let ?r = "''id='' @ [quot] @ u @ quot # '' type='' @ [quot] @ type_str type @ [quot] @ '' '' @ r"
  have "strstr (iq_head from_s u to_s type @ r) (''id'' @ CHR ''='' # [quot])
      = strstr (opt_attr ''to'' to_s @ CHR '' '' # opt_attr ''from'' from_s @ CHR '' '' # ?r) (''id'' @ CHR ''='' # [quot])"
    by (simp add: iq_head_def)
  also have "\<dots> = strstr ?r (''id'' @ CHR ''='' # [quot])"
    using skip_attr [OF assms(2), of "''to''" "''id''"] skip_attr [OF assms(1), of "''from''" "''id''"] by simp
  finally have "strstr (iq_head from_s u to_s type @ r) (''id='' @ [quot])
      = Some ((''id='' @ [quot]) @ u @ quot # '' type='' @ [quot] @ type_str type @ [quot] @ '' '' @ r)" by simp
  with assms(3) show ?thesis by (intro get_info_quoted) (auto simp: plain_def)
qed

lemma iq_head_type:
  assumes "plain_opt from_s" "plain_opt to_s" "plain u"
  shows "get_info (iq_head from_s u to_s type @ r) (''type='' @ [quot]) [quot] = Some (type_str type)"
proof -
  let ?t = "''type='' @ [quot] @ type_str type @ quot # '' '' @ r"
  let ?r = "''id='' @ [quot] @ (u @ [quot]) @ CHR '' '' # ?t"
  have "strstr (iq_head from_s u to_s type @ r) (''type'' @ CHR ''='' # [quot])
      = strstr (opt_attr ''to'' to_s @ CHR '' '' # opt_attr ''from'' from_s @ CHR '' '' # ?r) (''type'' @ CHR ''='' # [quot])"
    by (simp add: iq_head_def)
  also have "\<dots> = strstr ?r (''type'' @ CHR ''='' # [quot])"
    using skip_attr [OF assms(2), of "''to''" "''type''"] skip_attr [OF assms(1), of "''from''" "''type''"] by simp
  also have "\<dots> = strstr ((u @ [quot]) @ CHR '' '' # ?t) (''type'' @ CHR ''='' # [quot])" by simp
  also have "\<dots> = strstr ?t (''type'' @ CHR ''='' # [quot])"
    using assms(3) by (intro strstr_skip_field) (auto simp: plain_def)
  finally have "strstr (iq_head from_s u to_s type @ r) (''type='' @ [quot])
      = Some ((''type='' @ [quot]) @ type_str type @ quot # '' '' @ r)" by simp
  then show ?thesis by (intro get_info_quoted) (auto simp: type_str_def split: xmpp_msg_type.splits)
qed

lemma first_tag:
  assumes "CHR ''>'' \<notin> set t"
  shows "get_info (''<'' @ t @ CHR ''>'' # r) ''<'' ''>'' = Some t"
  using strstr_char [OF assms, of r] by (simp add: get_info_def)

text \<open>the id and the type that a stanza was built with are read back from it, if the addresses
  hold no quotes, equal signs or angle brackets (a result whose body has an error element reads as an
  error, a set as a get).\<close>

theorem iq_roundtrip:
  assumes "iq_create from_s (Some u) target type query = Some iq"
    and "plain_opt from_s" "\<And>j. target = Some j \<Longrightarrow> plain_jid j" "plain u"
  shows "get_msg_id iq = Some u
       \<and> get_msg_type iq = (case type of
           XMPP_TYPE_RESULT \<Rightarrow> if strstr iq ''<error'' = None then XMPP_TYPE_RESULT else XMPP_TYPE_ERROR
         | XMPP_TYPE_ERROR \<Rightarrow> XMPP_TYPE_ERROR | _ \<Rightarrow> XMPP_TYPE_GET)"
proof -
  from iq_create_head [OF assms(1,3)] obtain to_s where t: "plain_opt to_s"
    "iq = ''<'' @ iq_head from_s u to_s type @ (case query of None \<Rightarrow> ''/>'' | Some q \<Rightarrow> ''>'' @ q @ ''</iq>'')" by blast
  define tl' where "tl' = (case query of None \<Rightarrow> ''/'' | Some q \<Rightarrow> [])"
  have ng: "CHR ''>'' \<notin> set (iq_head from_s u to_s type @ tl')"
    using iq_head_no_gt [OF assms(2) t(1) assms(4)] by (auto simp: tl'_def split: option.splits)
  obtain r where "iq = ''<'' @ (iq_head from_s u to_s type @ tl') @ CHR ''>'' # r"
    using t(2) by (cases query) (auto simp: tl'_def)
  with first_tag [OF ng] have f: "get_info iq ''<'' ''>'' = Some (iq_head from_s u to_s type @ tl')" by simp
  show ?thesis
    using iq_head_id [OF assms(2) t(1) assms(4), of type tl'] iq_head_type [OF assms(2) t(1) assms(4), of type tl'] f
    by (cases type) (simp_all add: get_msg_id_def get_msg_type_def type_str_def)
qed

theorem iq_roundtrip_witness:
  "\<exists>iq. iq_create (Some ''a@warface/G'') (Some ''uid00000001'')
          (Some \<lparr>jid_node = Some ''ms'', jid_domain = Some ''warface'', jid_resource = None\<rparr>) XMPP_TYPE_SET (Some ''<q/>'') = Some iq
      \<and> get_msg_id iq = Some ''uid00000001'' \<and> get_msg_type iq = XMPP_TYPE_GET"
proof -
  obtain iq where iq: "iq_create (Some ''a@warface/G'') (Some ''uid00000001'')
      (Some \<lparr>jid_node = Some ''ms'', jid_domain = Some ''warface'', jid_resource = None\<rparr>) XMPP_TYPE_SET (Some ''<q/>'') = Some iq"
    by (simp add: iq_create_def jid_to_str_def)
  from iq_roundtrip [OF this] iq show ?thesis by (simp add: plain_opt_def plain_def plain_jid_def)
qed

subsection \<open>Requests and answers\<close>

definition fresh_ids :: "('icb, 'x) idh_state_scheme \<Rightarrow> bool" where
  "fresh_ids st \<longleftrightarrow>
     (\<forall>n. unat (uid_counter st) < n \<and> n < 10 ^ 8 \<longrightarrow> id_pending st (''uid'' @ dec08 (int n)) = None)"

lemma dec08_digits: "0 \<le> i \<Longrightarrow> c \<in> set (dec08 i) \<Longrightarrow> isdigit c"
  by (auto simp: dec08_def pad_zeros_def isdigit_def dest: nat_dec_digits)

lemma plain_uid: "0 \<le> i \<Longrightarrow> plain (''uid'' @ dec08 i)"
  using dec08_digits [of i] by (force simp: plain_def isdigit_def)

lemma uid_valid: "n < 10 ^ 8 \<Longrightarrow> id_valid (''uid'' @ dec08 (int n))"
  by (simp add: id_valid_def UID_SIZE_def dec08_length)

text \<open>C1: a request that was sent with a callback is answered by it: whatever message carries the id
  found in the posted stanza is handed to that callback, whose registration is gone by then; later
  requests stay fresh.\<close>

theorem request_answered:
  assumes "id_inv st" "id_calm st" "fresh_ids st" "unat (uid_counter st) + 1 < 10 ^ 8"
    and "plain_opt (xmpp_jid st)" "\<And>j. target = Some j \<Longrightarrow> plain_jid j"
    and "type = XMPP_TYPE_GET \<or> type = XMPP_TYPE_SET"
    and "xmpp_send_iq target type (Some c) args query st = Some st1"
    and "get_msg_id msg = get_msg_id (last (outbox st1))" "length (id_handlers st1) < fuel"
  shows "\<exists>st2. dispatch_msg fuel run_id run_q msg st1 = run_id c (Some msg) (get_msg_type msg) st2
           \<and> id_pending st2 = id_pending st \<and> fresh_ids st1"
proof -
  let ?n = "unat (uid_counter st) + 1"
  let ?u = "''uid'' @ dec08 (int ?n)"
  let ?st' = "st\<lparr>uid_counter := uid_counter st + 1\<rparr>"
  note g = generate_step [OF assms(4)]
  obtain iq where iq: "iq_create (xmpp_jid st) (Some ?u) target type query = Some iq"
    "st1 = (idh_register ?u False (Some c) ?st')\<lparr>outbox := outbox (idh_register ?u False (Some c) ?st') @ [iq]\<rparr>"
    using assms(7,8) g(1) by (auto simp: xmpp_send_iq_def bind_eq_Some_conv idh_register_def Let_def)
  have pend: "id_pending ?st' = id_pending st" by (simp add: id_pending_def fun_eq_iff)
  have inv': "id_inv ?st'" "id_calm ?st'" using assms(1,2) by (simp_all add: id_inv_def id_calm_def)
  have fresh: "id_pending ?st' ?u = None" 
  proof -
    have "unat (uid_counter st) < ?n \<and> ?n < 10 ^ 8" using assms(4) by simp
    with assms(3) show ?thesis unfolding pend fresh_ids_def by blast
  qed
  have valid: "id_valid ?u" using assms(4) by (rule uid_valid)
  have r: "id_inv (idh_register ?u False (Some c) ?st')" "id_calm (idh_register ?u False (Some c) ?st')"
    "id_pending (idh_register ?u False (Some c) ?st') = (id_pending st)(?u \<mapsto> (c, False))"
    using id_add_pending [OF inv'(1) valid fresh] id_add_calm [OF inv'(2)] pend by auto
  have st1: "id_inv st1" "id_calm st1" "id_pending st1 = (id_pending st)(?u \<mapsto> (c, False))"
    using r iq(2) by (simp_all add: id_inv_def id_calm_def id_pending_def fun_eq_iff)
  have "plain ?u" by (rule plain_uid) simp
  with iq_roundtrip [OF iq(1) assms(5,6)] have "get_msg_id iq = Some ?u" by simp
  with assms(9) iq(2) have mid: "get_msg_id msg = Some ?u" by simp
  have "id_pending st1 ?u = Some (c, False)" using st1(3) by simp
  from id_dispatch_hit [OF st1(1,2) this assms(10), of run_id "Some msg" "get_msg_type msg"] obtain st2 where
    st2: "id_pending st2 = (id_pending st1)(?u := None)"
    "idh_handle fuel run_id (Some ?u) (Some msg) (get_msg_type msg) st1
       = (run_id c (Some msg) (get_msg_type msg) st2 \<bind> (\<lambda>r. Some (True, r)))" by auto
  have "dispatch_msg fuel run_id run_q msg st1 = run_id c (Some msg) (get_msg_type msg) st2"
    using st2(2) mid by (cases "run_id c (Some msg) (get_msg_type msg) st2") (simp_all add: dispatch_msg_def)
  moreover have "id_pending st2 = id_pending st" using st2(1) st1(3) fresh pend by (auto simp: fun_eq_iff)
  moreover have "fresh_ids st1"
  proof -
    have "uid_counter st1 = uid_counter st + 1" using iq(2) by (simp add: idh_register_def Let_def)
    then have "unat (uid_counter st1) = ?n" using g(2) by simp
    moreover have "''uid'' @ dec08 (int m) \<noteq> ?u" if "?n < m" for m
      using that by (metis dec08_value nat_int nat_neq_iff of_nat_0_le_iff same_append_eq)
    ultimately show ?thesis using assms(3) st1(3) by (auto simp: fresh_ids_def)
  qed
  ultimately show ?thesis by blast
qed

definition live_state :: "(nat, nat) xmpp_state" where
  "live_state = \<lparr>id_handlers = replicate 64 free_id_slot, uid_counter = 41, clock = 1000,
     query_handlers = replicate 64 free_query_slot, outbox = [], xmpp_jid = Some ''a@warface/G''\<rparr>"

lemma live_state_ok: "id_inv live_state \<and> id_calm live_state \<and> id_pending live_state = (\<lambda>_. None)"
  by (auto simp: live_state_def id_inv_def id_calm_def id_pending_def keyed_def free_id_slot_def
      id_expired_def UID_SIZE_def fun_eq_iff slot_of_None)

theorem request_answered_witness:
  "\<exists>st1 st2. xmpp_send_iq None XMPP_TYPE_GET (Some 7) None (Some ''<query/>'') live_state = Some st1
     \<and> dispatch_msg (Suc (length (id_handlers st1))) (\<lambda>c m t s. Some (s\<lparr>clock := int c\<rparr>)) (\<lambda>_ _ _ s. Some s) (last (outbox st1)) st1
         = Some (st2\<lparr>clock := 7\<rparr>)
     \<and> id_pending st2 = id_pending live_state"
proof -
  have "unat (uid_counter live_state) + 1 < 10 ^ 8" by (simp add: live_state_def)
  note g = generate_step [OF this]
  obtain st1 where st1: "xmpp_send_iq None XMPP_TYPE_GET (Some 7) None (Some ''<query/>'') live_state = Some st1"
    by (simp add: xmpp_send_iq_def g(1) iq_create_def)
  have "fresh_ids live_state" using live_state_ok by (simp add: fresh_ids_def)
  from request_answered [OF _ _ this _ _ _ _ st1 refl lessI,
      of "\<lambda>c m t s. Some (s\<lparr>clock := int c\<rparr>)" "\<lambda>_ _ _ s. Some s"] live_state_ok
  show ?thesis using st1 by (auto simp: live_state_def plain_opt_def plain_def)
qed

end
