(* ===== verification/Session.thy ===== *)
theory Session
  imports Gameroom Contacts XmppMsg WfQuery
begin

text \<open>
  The session (\<open>include/wb_session.h\<close>) as far as the modelled handlers use it, what they send, and
  \<open>src/status.c\<close>, \<open>src/xmpp/get/xmpp_presence.c\<close> and the requests that \<open>status_set\<close> sends.

  The nested structures of \<open>struct session\<close> are records; \<open>trace\<close> lists the calls that
  leave the modelled part in their order: stanzas (with the callback that waits for the answer and
  its arguments) and calls of user callbacks, of type \<open>'u\<close>.  \<open>now\<close> is the value of
  \<open>time(NULL)\<close> during the handler.  A stanza to a NULL Jabber id fails the assertion of
  \<open>jid_to_str\<close>.  Notifications on D-Bus (\<open>DBUS_API\<close>) are left out.
\<close>

subsection \<open>State\<close>

definition STATUS_OFFLINE :: u32 where "STATUS_OFFLINE = 0"
definition STATUS_ONLINE :: u32 where "STATUS_ONLINE = 1"
definition STATUS_LEFT :: u32 where "STATUS_LEFT = 2"
definition STATUS_AFK :: u32 where "STATUS_AFK = 4"
definition STATUS_LOBBY :: u32 where "STATUS_LOBBY = 8"
definition STATUS_ROOM :: u32 where "STATUS_ROOM = 16"
definition STATUS_PLAYING :: u32 where "STATUS_PLAYING = 32"

lemmas status_flags = STATUS_OFFLINE_def STATUS_ONLINE_def STATUS_LEFT_def STATUS_AFK_def STATUS_LOBBY_def STATUS_ROOM_def
  STATUS_PLAYING_def

record game_item =
  it_id :: u32
  it_name :: cptr
  it_locked :: u32
  it_equipped :: int
  it_slot :: int
  it_config :: cptr
  it_attached_to :: int
  it_is_default :: int
  it_permanent :: int
  it_expired_confirmed :: int
  it_buy_time_utc :: u32
  it_expiration_time_utc :: u32
  it_seconds_left :: u32
  it_quantity :: u32

text \<open>An offer of the shop (\<open>include/wb_shop.h\<close>); prices are the original and the current one.\<close>

datatype offer_status = OFFER_NORMAL | OFFER_SALE | OFFER_NEW | OFFER_HOT

record repair_cost_item =
  rc_name :: cptr
  rc_repair_cost :: u32
  rc_durability :: u32

record shop_offer =
  of_id :: u32
  of_name :: cptr
  of_supplier_id :: u32
  of_offer_status :: offer_status
  of_repairs :: "repair_cost_item list option"
  of_quantity :: u32
  of_expiration_time :: cptr
  of_durability_points :: u32
  of_discount_percent :: u32
  of_rank :: u32
  of_key_item_name :: cptr
  of_cry :: "u32 \<times> u32"
  of_crown :: "u32 \<times> u32"
  of_game :: "u32 \<times> u32"
  of_key :: u32

text \<open>Three thresholds: bronze, silver, gold.\<close>

record mission =
  ms_mission_key :: cptr
  ms_no_team :: int
  ms_original_name :: cptr
  ms_name :: cptr
  ms_setting :: cptr
  ms_mode :: cptr
  ms_mode_name :: cptr
  ms_mode_icon :: cptr
  ms_description :: cptr
  ms_image :: cptr
  ms_difficulty :: cptr
  ms_type :: cptr
  ms_time_of_day :: cptr
  ms_crown_reward :: "u32 \<times> u32 \<times> u32"
  ms_crown_time :: "u32 \<times> u32 \<times> u32"
  ms_crown_perf :: "u32 \<times> u32 \<times> u32"

record masterserver =
  sv_server_id :: u32
  sv_online :: u32
  sv_min_rank :: u32
  sv_max_rank :: u32
  sv_resource :: cptr
  sv_channel :: cptr
  sv_rank_group :: cptr
  sv_bootstrap :: cptr
  sv_load :: u32

record qp_player =
  qp_online_id :: cstring
  qp_profile_id :: cstring
  qp_nickname :: cstring
  qp_accepted :: bool

datatype xmpp_presence_type = XMPP_PRESENCE_JOIN | XMPP_PRESENCE_LEAVE

text \<open>The arguments that the callbacks of some requests keep.\<close>

record 'u quickplay_args =
  qa_cb :: "'u option"
  qa_mission_key :: cptr
  qa_mission_name :: cptr
  qa_type :: u32
  qa_game_mode :: cptr
  qa_uid :: cptr
  qa_channel_switches :: int
  qa_tries :: int

record 'u open_args =
  oa_fun :: "'u option"
  oa_mission_key :: cptr
  oa_mission_name :: cptr
  oa_type :: u32
  oa_tries :: int

text \<open>What a continuation of a longer exchange (a change of channel, a new list of missions or masterservers) does.\<close>

datatype 'u continuation =
    Cont_user 'u
  | Cont_gameroom_join cstring cptr int
  | Cont_gameroom_open "'u open_args"
  | Cont_quickplay "'u quickplay_args"
  | Cont_autorotate

text \<open>What the name of a master server is asked for.\<close>

datatype 'u resource_use = For_login | For_autorotate | For_user 'u

text \<open>The callbacks of the requests, with the arguments they keep; \<open>CB_caller\<close> is a function that the caller
  registers itself.\<close>

datatype 'u id_callback =
    CB_session_join
  | CB_gameroom_leave
  | CB_gameroom_join (cb_room_id: cstring) (cb_group_id: cptr) (cb_reason: int)
  | CB_gameroom_setplayer "'u option"
  | CB_gameroom_open "'u open_args"
  | CB_gameroom_askserver "'u option"
  | CB_gameroom_promote_to_host "'u option"
  | CB_gameroom_setinfo "'u option"
  | CB_gameroom_setname "'u option"
  | CB_gameroom_update_pvp "'u option"
  | CB_gameroom_quickplay "'u quickplay_args"
  | CB_quickplay_cancel
  | CB_preinvite_invite "'u option"
  | CB_preinvite_cancel "'u option"
  | CB_peer_status friend
  | CB_peer_clan clanmate
  | CB_presence xmpp_presence_type cstring
  | CB_remove_friend
  | CB_clan_leave "'u option"
  | CB_invitation_send
  | CB_follow_send cstring
  | CB_send_invitation "'u option"
  | CB_join_channel cstring "'u continuation option"
  | CB_missions_get_list "'u continuation option"
  | CB_get_master_servers "'u continuation option"
  | CB_resync_profile "'u option"
  | CB_player_stats "'u option"
  | CB_achievements "'u option"
  | CB_reward_multipliers "'u option"
  | CB_get_master_server "'u resource_use"
  | CB_account
  | CB_create_profile
  | CB_account_profiles
  | CB_ping
  | CB_clan_create "'u option"
  | CB_gameroom_get (cb_rooms: "gameroom list") (cb_type: u32) (cb_channel: cstring) "'u option"
  | CB_profile_status "'u option"
  | CB_last_seen "'u option"
  | CB_peer_player_info "'u option"
  | CB_caller 'u

datatype 'u effect =
    Send_iq jid xmpp_msg_type "'u id_callback option" cptr cstring
  | Send_presence "'u id_callback" cstring cptr
  | Send_text cstring
  | Register_only "'u id_callback option"
  | Handle_query cstring
  | Refresh_cache cstring
  | Call_user 'u
  | Call_opened 'u cptr
  | Call_invitation 'u cptr int
  | Call_result 'u int

record online_info =
  ol_id :: cptr
  ol_channel :: cptr
  ol_channel_type :: cptr
  ol_status :: u32
  ol_last_status_update :: int
  ol_last_status_change :: int
  ol_place_token :: cptr
  ol_place_info_token :: cptr
  ol_mode_info_token :: cptr
  ol_mission_info_token :: cptr
  ol_masterservers :: "masterserver list option"
  ol_jid_k01 :: cptr
  ol_jid_ms :: cptr
  ol_jid_muc :: cptr
  ol_jid_wfc :: cptr
  ol_jid_host :: cptr
  ol_global_chat :: cptr
  ol_active_token :: cptr

record missions_info =
  mi_list :: "mission list option"
  mi_hash :: int
  mi_content_hash :: int

text \<open>The items of the game (\<open>session.wf.items\<close>), the number of locked ones, the offers of the shop and the hash
  of their cache.\<close>

record wf_info =
  wf_items :: "game_item list option"
  wf_locked :: u32
  wf_offers :: "shop_offer list option"
  wf_shop_hash :: cptr

record 'u quickplay_info =
  qp_pre_uid :: cptr
  qp_uid :: cptr
  qp_try_again :: int
  qp_group :: "qp_player list option"
  qp_master :: cptr
  qp_mission_id :: cptr
  qp_game_mode :: cptr
  qp_type :: u32
  qp_channel_switches :: int
  qp_start_cb :: "'u option"
  qp_maps :: "cptr list option"

record groom_info =
  gi_jid :: cptr
  gi_leaving :: bool
  gi_joined :: bool
  gi_group_id :: cptr
  gi_curr_team :: int
  gi_curr_status :: int
  gi_desired_status :: int
  gi_leave_timeout :: int
  gi_sync :: gameroom

text \<open>The percentage of left matches is a float; the ratio it is computed from is kept.\<close>

record stats_info =
  st_items_unlocked :: u32
  st_challenges_completed :: u32
  st_playtime_seconds :: u32
  st_leavings :: "u32 \<times> u32"
  st_coop_climbs :: u32
  st_coop_assists :: u32
  st_rating_points :: u32
  st_pvp_wins :: u32
  st_pvp_loses :: u32
  st_pvp_kills :: u32
  st_pvp_deaths :: u32
  st_missions_completed :: u32
  st_pvp_favorite :: u32
  st_pve_favorite :: u32

text \<open>\<open>pg_mission_freed\<close>: the string was freed and the pointer still points to it; freeing it again is an error.\<close>

record progress_info =
  pg_tutorial_passed :: int
  pg_tutorial_unlocked :: int
  pg_class_unlocked :: int
  pg_mission_unlocked :: cptr
  pg_mission_freed :: bool

record profile_info = clan_info +
  pr_id :: cptr
  pr_nickname :: cptr
  pr_experience :: u32
  pr_curr_class :: u32
  pr_items :: "game_item list option"
  pr_friends :: friends
  pr_money_game :: u32
  pr_money_crown :: u32
  pr_money_cry :: u32
  pr_primary_weapon :: cptr
  pr_banner_badge :: u32
  pr_banner_mark :: u32
  pr_banner_stripe :: u32
  cl_id :: u32
  cl_joined :: u32
  cl_name :: cptr
  cl_role :: u32
  cl_master_badge :: u32
  cl_master_mark :: u32
  cl_master_stripe :: u32
  pr_stats :: stats_info
  pr_progress :: progress_info

record cvars =
  wb_qp_search_started :: bool
  wb_qp_search_non_started :: bool
  wb_safemaster :: bool
  wb_leave_on_start :: bool
  wb_accept_room_invitations :: bool
  wb_postpone_room_invitations :: bool
  wb_accept_room_follows :: bool
  wb_accept_friend_requests :: bool
  wb_postpone_friend_requests :: bool
  wb_accept_clan_invites :: bool
  wb_postpone_clan_invites :: bool
  wb_join_global_rooms :: bool
  game_version :: cptr
  game_hwid :: int
  online_region_id :: cptr
  game_manual_profile_creation :: bool
  online_pvp_rank :: int
  online_channel_type :: cptr
  wb_enable_whisper_commands :: bool
  wb_enable_invite :: bool
  wb_auto_start :: bool
  wb_auto_afk :: bool
  wb_ping_unit :: int
  wb_ping_count_is_afk :: int
  wb_ping_count_is_stall :: int
  wb_ping_count_is_over :: int
  wb_ping_count_is_outdated :: int
  query_disable_items :: bool
  query_disable_shop_get_offers :: bool
  query_disable_quickplay_maplist :: bool
  query_disable_get_configs :: bool
  wb_safemaster_room_name :: cptr
  wb_safemaster_channel :: cptr

text \<open>An entry of the list of pending invitations (\<open>xmpp_iq_invitation_result.c\<close>).\<close>

record 'u invitation =
  iv_nickname :: cstring
  iv_is_follow :: int
  iv_cb :: "'u option"

record 'u session =
  rooms :: rooms
  online :: online_info
  missions :: missions_info
  wf :: wf_info
  quickplay :: "'u quickplay_info"
  groom :: groom_info
  profile :: profile_info
  cvar :: cvars
  pending_invitations :: "'u invitation list option"
  created_profile :: bool
  own_jid :: cptr
  player_count :: u32
  last_query :: int
  now :: int
  trace :: "'u effect list"

subsection \<open>Sending\<close>

definition JID :: "cptr \<Rightarrow> jid" where
  "JID s = \<lparr>jid_node = None, jid_domain = s, jid_resource = None\<rparr>"

definition JID_K01 :: "'u session \<Rightarrow> jid" where
  "JID_K01 s = JID (ol_jid_k01 (online s))"

definition JID_MS :: "cptr \<Rightarrow> 'u session \<Rightarrow> jid" where
  "JID_MS res s = \<lparr>jid_node = Some ''masterserver'', jid_domain = ol_jid_host (online s), jid_resource = res\<rparr>"

definition emit :: "'u effect \<Rightarrow> 'u session \<Rightarrow> 'u session" where
  "emit e s = s\<lparr>trace := trace s @ [e]\<rparr>"

definition send_iq_get :: "jid \<Rightarrow> 'u id_callback option \<Rightarrow> cstring \<Rightarrow> 'u session \<Rightarrow> 'u session crash" where
  "send_iq_get target cb query s =
     do { d \<leftarrow> jid_to_str target; Some (emit (Send_iq target XMPP_TYPE_GET cb None query) s) }"

definition send_iq_result :: "jid \<Rightarrow> cptr \<Rightarrow> cstring \<Rightarrow> 'u session \<Rightarrow> 'u session crash" where
  "send_iq_result target msg_id query s =
     do { d \<leftarrow> jid_to_str target; Some (emit (Send_iq target XMPP_TYPE_RESULT None msg_id query) s) }"

definition k01_query :: "cstring \<Rightarrow> cstring" where
  "k01_query body = ''<query xmlns='' @ [apos] @ k01_open @ body @ ''</query>''"

text \<open>\<open>name='value'\<close>, and the number formats.\<close>

definition q :: "cstring \<Rightarrow> cstring \<Rightarrow> cstring" where
  "q name v = name @ ''='' @ [apos] @ v @ [apos]"

definition fmt_u :: "u32 \<Rightarrow> cstring" where
  "fmt_u w = int_dec (uint w)"

definition fmt_d :: "u32 \<Rightarrow> cstring" where
  "fmt_d w = int_dec (sint w)"

lemma send_iq_get_Some:
  "send_iq_get target cb query s = Some s' \<longleftrightarrow>
     jid_domain target \<noteq> None \<and> s' = emit (Send_iq target XMPP_TYPE_GET cb None query) s"
  by (auto simp: send_iq_get_def jid_to_str_def bind_eq_Some_conv Let_def)

lemma send_iq_result_Some:
  "send_iq_result target msg_id query s = Some s' \<longleftrightarrow>
     jid_domain target \<noteq> None \<and> s' = emit (Send_iq target XMPP_TYPE_RESULT None msg_id query) s"
  by (auto simp: send_iq_result_def jid_to_str_def bind_eq_Some_conv Let_def)

lemma jid_domains [simp]:
  "jid_domain (JID d) = d" "jid_domain (JID_MS r s) = ol_jid_host (online s)" "jid_domain (JID_K01 s) = ol_jid_k01 (online s)"
  by (simp_all add: JID_def JID_MS_def JID_K01_def)

lemma emit_simps [simp]:
  "rooms (emit e s) = rooms s" "online (emit e s) = online s" "missions (emit e s) = missions s"
  "quickplay (emit e s) = quickplay s" "groom (emit e s) = groom s" "profile (emit e s) = profile s"
  "cvar (emit e s) = cvar s" "wf (emit e s) = wf s" "pending_invitations (emit e s) = pending_invitations s" "now (emit e s) = now s" "created_profile (emit e s) = created_profile s" "own_jid (emit e s) = own_jid s" "player_count (emit e s) = player_count s"
  "last_query (emit e s) = last_query s"
    "trace (emit e s) = trace s @ [e]"
  by (simp_all add: emit_def)

subsection \<open>Presence in chat rooms\<close>

definition xmpp_presence :: "cptr \<Rightarrow> xmpp_presence_type \<Rightarrow> 'u session \<Rightarrow> 'u session crash" where
  "xmpp_presence room_jid type s =
     (case room_jid of
        None \<Rightarrow> Some s
      | Some jid \<Rightarrow>
          do {
            found \<leftarrow> room_list_find (Some jid) (rooms s);
            let leave = (type = XMPP_PRESENCE_LEAVE);
            let r = (found \<noteq> None);
            if (leave \<and> \<not> r) \<or> (\<not> leave \<and> r) then Some s
            else Some (emit (Send_presence (CB_presence type jid) jid
                              (if leave then None else pr_nickname (profile s))) s)
          })"

definition xmpp_presence_cb :: "xmpp_presence_type \<Rightarrow> cstring \<Rightarrow> xmpp_msg_type \<Rightarrow> 'u session \<Rightarrow> 'u session crash" where
  "xmpp_presence_cb ptype room_jid type s =
     (if type \<noteq> XMPP_TYPE_ERROR
      then do {
             rs \<leftarrow> (if ptype = XMPP_PRESENCE_LEAVE then room_list_remove (Some room_jid) (rooms s)
                    else room_list_add (Some room_jid) (rooms s));
             Some (s\<lparr>rooms := rs\<rparr>)
           }
      else Some s)"

text \<open>Leaving all rooms before emptying the list asks for the wrong kind of presence.\<close>

fun presence_all :: "room list \<Rightarrow> 'u session \<Rightarrow> 'u session crash" where
  "presence_all [] s = Some s"
| "presence_all (r # rs) s = do { s' \<leftarrow> xmpp_presence (ro_jid r) XMPP_PRESENCE_JOIN s; presence_all rs s' }"

definition room_list_empty :: "'u session \<Rightarrow> 'u session crash" where
  "room_list_empty s =
     do { l \<leftarrow> deref (rooms s); s' \<leftarrow> presence_all l s; Some (s'\<lparr>rooms := Some []\<rparr>) }"

subsection \<open>Telling buddies the status\<close>

definition xmpp_iq_player_status :: "u32 \<Rightarrow> 'u session \<Rightarrow> 'u session crash" where
  "xmpp_iq_player_status status s =
     send_iq_get (JID_K01 s) None
       (k01_query (''<player_status '' @ q ''prev_status'' (fmt_u (ol_status (online s))) @ '' '' @ q ''new_status'' (fmt_u status)
         @ '' '' @ q ''to'' (if gi_jid (groom s) \<noteq> None then show_ptr (ol_channel (online s)) else []) @ ''/>'')) s"

definition NULL_CHECK :: "cptr \<Rightarrow> cstring" where
  "NULL_CHECK p = (case p of None \<Rightarrow> [] | Some s \<Rightarrow> s)"

definition peer_status_query :: "'u session \<Rightarrow> cstring" where
  "peer_status_query s =
     k01_query ('' <peer_status_update '' @ q ''nickname'' (show_ptr (pr_nickname (profile s))) @ '' '' @ q ''profile_id'' (show_ptr (pr_id (profile s)))
       @ ''    '' @ q ''status'' (fmt_u (ol_status (online s))) @ '' '' @ q ''experience'' (fmt_u (pr_experience (profile s)))
       @ ''    '' @ q ''place_token'' (NULL_CHECK (ol_place_token (online s))) @ '' '' @ q ''place_info_token'' (NULL_CHECK (ol_place_info_token (online s)))
       @ ''    '' @ q ''mode_info_token'' (NULL_CHECK (ol_mode_info_token (online s))) @ '' '' @ q ''mission_info_token'' (NULL_CHECK (ol_mission_info_token (online s)))
       @ ''/>'')"

definition peer_clan_query :: "'u session \<Rightarrow> cstring" where
  "peer_clan_query s =
     k01_query ('' <peer_clan_member_update '' @ q ''nickname'' (show_ptr (pr_nickname (profile s)))
       @ ''    '' @ q ''profile_id'' (show_ptr (pr_id (profile s))) @ '' '' @ q ''status'' (fmt_u (ol_status (online s)))
       @ '' '' @ q ''experience'' (fmt_u (pr_experience (profile s)))
       @ ''    '' @ q ''place_token'' (NULL_CHECK (ol_place_token (online s))) @ '' '' @ q ''place_info_token'' (NULL_CHECK (ol_place_info_token (online s)))
       @ ''    '' @ q ''mode_info_token'' (NULL_CHECK (ol_mode_info_token (online s))) @ '' '' @ q ''mission_info_token'' (NULL_CHECK (ol_mission_info_token (online s)))
       @ ''    '' @ q ''clan_points'' (fmt_u (cl_points (profile s))) @ '' '' @ q ''clan_role'' (fmt_u (cl_role (profile s))) @ ''/>'')"

text \<open>The callback gets a copy of the buddy.\<close>

definition xmpp_iq_peer_status_update_friend :: "friend \<Rightarrow> 'u session \<Rightarrow> 'u session crash" where
  "xmpp_iq_peer_status_update_friend f s =
     (if fr_jid f = None then Some s
      else send_iq_get (JID (fr_jid f)) (Some (CB_peer_status f)) (peer_status_query s) s)"

definition xmpp_iq_peer_clan_member_update_clanmate :: "clanmate \<Rightarrow> 'u session \<Rightarrow> 'u session crash" where
  "xmpp_iq_peer_clan_member_update_clanmate c s =
     (if cm_jid c = None then Some s
      else send_iq_get (JID (cm_jid c)) (Some (CB_peer_clan c)) (peer_clan_query s) s)"

fun each :: "('a \<Rightarrow> 's \<Rightarrow> 's crash) \<Rightarrow> 'a list \<Rightarrow> 's \<Rightarrow> 's crash" where
  "each f [] s = Some s"
| "each f (x # xs) s = do { s' \<leftarrow> f x s; each f xs s' }"

subsection \<open>Changing the channel, updating lists\<close>

text \<open>The first channel is joined through the server, a later one is switched to.\<close>

definition xmpp_iq_join_channel :: "cptr \<Rightarrow> 'u continuation option \<Rightarrow> 'u session \<Rightarrow> 'u session crash" where
  "xmpp_iq_join_channel channel cont s =
     (case channel of
        None \<Rightarrow> Some s
      | Some ch \<Rightarrow>
          (let ids = q ''version'' (show_ptr (game_version (cvar s))) @ '' '' @ q ''token'' (show_ptr (ol_active_token (online s)))
                 @ '' '' @ q ''region_id'' (show_ptr (online_region_id (cvar s)));
               own = q ''profile_id'' (show_ptr (pr_id (profile s))) @ '' '' @ q ''user_id'' (show_ptr (ol_id (online s)))
                 @ '' '' @ q ''resource'' ch
           in if STATUS_LOBBY \<le> ol_status (online s)
              then send_iq_get (JID_MS (Some ch) s) (Some (CB_join_channel ch cont))
                     (k01_query (''<switch_channel '' @ ids @ ''     '' @ own @ ''     '' @ q ''build_type'' ''--release'' @ ''/>'')) s
              else send_iq_get (JID_K01 s) (Some (CB_join_channel ch cont))
                     (k01_query (''<join_channel '' @ ids @ '' '' @ own @ '' '' @ q ''build_type'' ''--release''
                       @ '' '' @ q ''hw_id'' (int_dec (game_hwid (cvar s))) @ '' '' @ q ''os_ver'' ''0'' @ '' '' @ q ''os_64'' ''0''
                       @ '' '' @ q ''cpu_vendor'' ''0'' @ '' '' @ q ''cpu_family'' ''0'' @ '' '' @ q ''cpu_model'' ''0''
                       @ '' '' @ q ''cpu_stepping'' ''0'' @ '' '' @ q ''cpu_speed'' ''0'' @ '' '' @ q ''cpu_num_cores'' ''0''
                       @ '' '' @ q ''gpu_vendor_id'' ''0'' @ '' '' @ q ''gpu_device_id'' ''0'' @ '' '' @ q ''physical_memory'' ''0''
                       @ ''/>'')) s))"

definition mission_list_update :: "'u continuation option \<Rightarrow> 'u session \<Rightarrow> 'u session crash" where
  "mission_list_update cont s =
     send_iq_get (JID_MS (ol_channel (online s)) s) (Some (CB_missions_get_list cont)) (k01_query '' <missions_get_list/>'') s"

subsection \<open>The own status\<close>

definition mission_list_get :: "'u session \<Rightarrow> cptr \<Rightarrow> mission option crash" where
  "mission_list_get s name =
     (case (mi_list (missions s), name) of
        (Some l, Some n) \<Rightarrow> find_crash (\<lambda>m. strcmp_eq (ms_name m) (Some n)) l
      | _ \<Rightarrow> Some None)"

definition mission_list_get_by_key :: "'u session \<Rightarrow> cptr \<Rightarrow> mission option crash" where
  "mission_list_get_by_key s key =
     (case (mi_list (missions s), key) of
        (Some l, Some k) \<Rightarrow> find_crash (\<lambda>m. strcmp_eq (ms_mission_key m) (Some k)) l
      | _ \<Rightarrow> Some None)"

definition set_tokens :: "cptr \<Rightarrow> cptr \<Rightarrow> cptr \<Rightarrow> cptr \<Rightarrow> 'u session \<Rightarrow> 'u session" where
  "set_tokens place place_info mode_info mission_info s =
     s\<lparr>online := (online s)\<lparr>ol_place_token := place, ol_place_info_token := place_info,
                             ol_mode_info_token := mode_info, ol_mission_info_token := mission_info\<rparr>\<rparr>"

definition status_update_location :: "'u session \<Rightarrow> 'u session crash" where
  "status_update_location s =
     (let mission = gm_mission (gi_sync (groom s)) in
      if ol_status (online s) AND STATUS_LOBBY \<noteq> 0
      then Some (set_tokens (Some ''@ui_playerinfo_inlobby'') None None None s)
      else if gi_jid (groom s) \<noteq> None
      then (case mi_mode mission of
              None \<Rightarrow> Some (set_tokens None None None None s)
            | Some mode \<Rightarrow>
                if mode = ''pve''
                then do {
                       info \<leftarrow> (if mi_mission_key mission = None then Some None
                                else do {
                                       m \<leftarrow> mission_list_get_by_key s (mi_mission_key mission);
                                       Some (case m of None \<Rightarrow> None | Some x \<Rightarrow> map_option (\<lambda>t. ''@'' @ t) (ms_type x))
                                     });
                       Some (set_tokens (Some ''@ui_playerinfo_pveroom'') info None None s)
                     }
                else Some (set_tokens (Some ''@ui_playerinfo_pvproom'') (Some ''@ui_playerinfo_location'')
                             (mi_mode_name mission) (mi_name mission) s))
      else Some (set_tokens None None None None s))"

text \<open>
  The first item that is equipped as the primary weapon of a class: six bits of \<open>slot\<close> per class.
  The shift of the signed slot is arithmetic; shifting by 32 or more is undefined.
\<close>

definition weapon_of_class :: "u32 \<Rightarrow> game_item \<Rightarrow> bool crash" where
  "weapon_of_class cl i =
     (if it_equipped i = 0 then Some False
      else if 32 \<le> uint (6 * cl) then None
      else Some ((it_slot i div 2 ^ unat (6 * cl)) mod 64 = 1))"

definition status_update_class :: "u32 \<Rightarrow> 'u session \<Rightarrow> 'u session crash" where
  "status_update_class cl s =
     do {
       items \<leftarrow> deref (pr_items (profile s));
       i \<leftarrow> find_crash (weapon_of_class cl) items;
       let p = profile s;
       let p1 = (case i of None \<Rightarrow> p | Some it \<Rightarrow> p\<lparr>pr_primary_weapon := it_name it\<rparr>);
       Some (s\<lparr>profile := p1\<lparr>pr_curr_class := cl\<rparr>\<rparr>)
     }"

definition status_set :: "u32 \<Rightarrow> 'u session \<Rightarrow> 'u session crash" where
  "status_set status s =
     do {
       let old_status = ol_status (online s);
       let s1 = (if old_status XOR STATUS_AFK \<noteq> status XOR STATUS_AFK
                 then s\<lparr>online := (online s)\<lparr>ol_last_status_change := now s\<rparr>\<rparr> else s);
       s2 \<leftarrow> xmpp_iq_player_status status s1;
       let s3 = s2\<lparr>online := (online s2)\<lparr>ol_status := status, ol_last_status_update := now s2\<rparr>\<rparr>;
       s4 \<leftarrow> status_update_location s3;
       friends \<leftarrow> deref (pr_friends (profile s4));
       s5 \<leftarrow> each xmpp_iq_peer_status_update_friend friends s4;
       mates \<leftarrow> deref (cl_mates (profile s5));
       each xmpp_iq_peer_clan_member_update_clanmate mates s5
     }"

subsection \<open>Beginning and end of a session\<close>

text \<open>
  \<open>memset(&session, 0, ...)\<close>: the settings (\<open>cvar\<close>), the clock, the sent stanzas, the
  list of pending invitations and the static flag of \<open>xmpp_iq_create_profile.c\<close> are not part of \<open>struct session\<close>.
\<close>

definition zero_gameroom :: gameroom where
  "zero_gameroom =
     \<lparr>gm_room_id = None, gm_room_type = 0,
      gm_core = (gm_core gameroom_init)\<lparr>sync_type := 0, co_players := None\<rparr>,
      gm_custom_params = (gm_custom_params gameroom_init)\<lparr>sync_type := 0\<rparr>,
      gm_mission = (gm_mission gameroom_init)\<lparr>sync_type := 0\<rparr>,
      gm_session = (gm_session gameroom_init)\<lparr>sync_type := 0\<rparr>,
      gm_room_master = (gm_room_master gameroom_init)\<lparr>sync_type := 0\<rparr>,
      gm_regions = (gm_regions gameroom_init)\<lparr>sync_type := 0\<rparr>,
      gm_auto_start = (gm_auto_start gameroom_init)\<lparr>sync_type := 0\<rparr>,
      gm_clan_war = (gm_clan_war gameroom_init)\<lparr>sync_type := 0\<rparr>,
      gm_ingame_chat = (gm_ingame_chat gameroom_init)\<lparr>sync_type := 0\<rparr>\<rparr>"

definition zero_session :: "'u session \<Rightarrow> 'u session" where
  "zero_session s =
     s\<lparr>rooms := None,
       online := \<lparr>ol_id = None, ol_channel = None, ol_channel_type = None, ol_status = 0, ol_last_status_update = 0,
         ol_last_status_change = 0, ol_place_token = None, ol_place_info_token = None, ol_mode_info_token = None,
         ol_mission_info_token = None, ol_masterservers = None, ol_jid_k01 = None, ol_jid_ms = None, ol_jid_muc = None,
         ol_jid_wfc = None, ol_jid_host = None, ol_global_chat = None, ol_active_token = None\<rparr>,
       missions := \<lparr>mi_list = None, mi_hash = 0, mi_content_hash = 0\<rparr>,
       last_query := 0,
       own_jid := None,
       wf := \<lparr>wf_items = None, wf_locked = 0, wf_offers = None, wf_shop_hash = None\<rparr>,
       quickplay := \<lparr>qp_pre_uid = None, qp_uid = None, qp_try_again = 0, qp_group = None, qp_master = None,
         qp_mission_id = None, qp_game_mode = None, qp_type = 0, qp_channel_switches = 0, qp_start_cb = None, qp_maps = None\<rparr>,
       groom := \<lparr>gi_jid = None, gi_leaving = False, gi_joined = False, gi_group_id = None, gi_curr_team = 0,
         gi_curr_status = 0, gi_desired_status = 0, gi_leave_timeout = 0, gi_sync = zero_gameroom\<rparr>,
       profile := \<lparr>cl_mates = None, cl_points = 0, cl_own_position = 0, pr_id = None, pr_nickname = None,
         pr_experience = 0, pr_curr_class = 0, pr_items = None, pr_friends = None, pr_money_game = 0, pr_money_crown = 0, pr_money_cry = 0,
         pr_primary_weapon = None, pr_banner_badge = 0, pr_banner_mark = 0, pr_banner_stripe = 0, cl_id = 0,
         cl_joined = 0, cl_name = None, cl_role = 0, cl_master_badge = 0, cl_master_mark = 0, cl_master_stripe = 0,
         pr_stats = \<lparr>st_items_unlocked = 0, st_challenges_completed = 0, st_playtime_seconds = 0, st_leavings = (0, 1),
           st_coop_climbs = 0, st_coop_assists = 0, st_rating_points = 0, st_pvp_wins = 0, st_pvp_loses = 0, st_pvp_kills = 0,
           st_pvp_deaths = 0, st_missions_completed = 0, st_pvp_favorite = 0, st_pve_favorite = 0\<rparr>,
         pr_progress = \<lparr>pg_tutorial_passed = 0, pg_tutorial_unlocked = 0, pg_class_unlocked = 0,
           pg_mission_unlocked = None, pg_mission_freed = False\<rparr>\<rparr>\<rparr>"

definition session_init :: "cptr \<Rightarrow> cptr \<Rightarrow> 'u session \<Rightarrow> 'u session" where
  "session_init online_bootstrap online_host s =
     (let z = zero_session s;
          h = show_ptr online_host;
          host = (case online_bootstrap of None \<Rightarrow> h | Some b \<Rightarrow> b @ ''.'' @ h)
      in z\<lparr>rooms := room_list_init,
           online := (online z)\<lparr>ol_jid_host := Some host, ol_jid_k01 := Some (''k01.'' @ host), ol_jid_ms := Some (''ms.'' @ host),
             ol_jid_wfc := Some (''wfc.'' @ host), ol_jid_muc := Some (''conference.'' @ h),
             ol_last_status_update := now s, ol_last_status_change := now s, ol_masterservers := None\<rparr>,
           groom := (groom z)\<lparr>gi_leave_timeout := now s\<rparr>,
           profile := clanmate_list_init ((profile z)\<lparr>pr_friends := friend_list_init\<rparr>),
           missions := (missions z)\<lparr>mi_list := None\<rparr>,
           last_query := now s\<rparr>)"

text \<open>Lists that were never allocated, or are gone already, crash, and a string that is freed twice.\<close>

definition session_free :: "'u session \<Rightarrow> 'u session crash" where
  "session_free s =
     do {
       fs \<leftarrow> friend_list_free (pr_friends (profile s));
       p \<leftarrow> clanmate_list_free (profile s);
       rs \<leftarrow> room_list_free (rooms s);
       if pg_mission_freed (pr_progress (profile s)) then None else Some (zero_session s)
     }"

subsection \<open>Broadcasting the status\<close>

lemma set_tokens_simps [simp]:
  "rooms (set_tokens a b c d s) = rooms s" "missions (set_tokens a b c d s) = missions s"
  "quickplay (set_tokens a b c d s) = quickplay s" "groom (set_tokens a b c d s) = groom s"
  "profile (set_tokens a b c d s) = profile s" "wf (set_tokens a b c d s) = wf s" "cvar (set_tokens a b c d s) = cvar s" "now (set_tokens a b c d s) = now s" "created_profile (set_tokens a b c d s) = created_profile s"
  "own_jid (set_tokens a b c d s) = own_jid s" "player_count (set_tokens a b c d s) = player_count s" "last_query (set_tokens a b c d s) = last_query s"
   
  "trace (set_tokens a b c d s) = trace s" "pending_invitations (set_tokens a b c d s) = pending_invitations s"
  "ol_status (online (set_tokens a b c d s)) = ol_status (online s)"
  "ol_last_status_change (online (set_tokens a b c d s)) = ol_last_status_change (online s)"
  "ol_last_status_update (online (set_tokens a b c d s)) = ol_last_status_update (online s)"
  by (simp_all add: set_tokens_def)

definition add_trace :: "'u effect list \<Rightarrow> 'u session \<Rightarrow> 'u session" where
  "add_trace es s = s\<lparr>trace := trace s @ es\<rparr>"

lemma add_trace_simps [simp]:
  "add_trace [] s = s" "add_trace es2 (add_trace es1 s) = add_trace (es1 @ es2) s" "emit e s = add_trace [e] s"
  "online (add_trace es s) = online s" "profile (add_trace es s) = profile s" "groom (add_trace es s) = groom s"
  "quickplay (add_trace es s) = quickplay s" "rooms (add_trace es s) = rooms s" "missions (add_trace es s) = missions s"
  "cvar (add_trace es s) = cvar s" "wf (add_trace es s) = wf s" "now (add_trace es s) = now s" "created_profile (add_trace es s) = created_profile s"
  "own_jid (add_trace es s) = own_jid s" "player_count (add_trace es s) = player_count s" "last_query (add_trace es s) = last_query s"
    "trace (add_trace es s) = trace s @ es"
  "pending_invitations (add_trace es s) = pending_invitations s"
  by (simp_all add: add_trace_def emit_def)

lemma trace_add_trace: "trace (add_trace es s) = trace s @ es"
  by simp

lemma mission_list_update_Some:
  "mission_list_update cont s = Some s' \<longleftrightarrow> ol_jid_host (online s) \<noteq> None
     \<and> s' = add_trace [Send_iq (JID_MS (ol_channel (online s)) s) XMPP_TYPE_GET (Some (CB_missions_get_list cont)) None
             (k01_query '' <missions_get_list/>'')] s"
  by (auto simp: mission_list_update_def send_iq_get_Some)

lemma join_channel_Some:
  assumes "xmpp_iq_join_channel channel cont s = Some s'"
  shows "channel = None \<and> s' = s
     \<or> (\<exists>ch t x. channel = Some ch \<and> s' = add_trace [Send_iq t XMPP_TYPE_GET (Some (CB_join_channel ch cont)) None x] s)"
  using assms by (auto simp: xmpp_iq_join_channel_def Let_def send_iq_get_Some split: option.splits if_splits)

lemma presence_Some:
  assumes "xmpp_presence j t s = Some s'"
  shows "s' = s \<or> (\<exists>x y z. s' = add_trace [Send_presence x y z] s)"
proof (cases j)
  case None
  with assms show ?thesis by (simp add: xmpp_presence_def)
next
  case (Some jid)
  with assms obtain found where "room_list_find (Some jid) (rooms s) = Some found"
    by (auto simp: xmpp_presence_def bind_eq_Some_conv)
  with assms Some show ?thesis
    by (cases "t = XMPP_PRESENCE_LEAVE \<and> found = None \<or> t \<noteq> XMPP_PRESENCE_LEAVE \<and> found \<noteq> None") (auto simp: xmpp_presence_def Let_def, blast+)
qed

text \<open>What the steps of \<open>status_set\<close> leave alone.\<close>

lemma location_frame:
  assumes "status_update_location s = Some s'"
  shows "\<exists>a b c d. s' = set_tokens a b c d s"
  using assms by (auto simp: status_update_location_def Let_def bind_eq_Some_conv split: if_splits option.splits) blast+

lemma friend_update_trace:
  "xmpp_iq_peer_status_update_friend f s =
     Some (if fr_jid f = None then s
           else emit (Send_iq (JID (fr_jid f)) XMPP_TYPE_GET (Some (CB_peer_status f)) None (peer_status_query s)) s)"
  by (auto simp: xmpp_iq_peer_status_update_friend_def send_iq_get_def jid_to_str_def JID_def Let_def)

lemma clanmate_update_trace:
  "xmpp_iq_peer_clan_member_update_clanmate c s =
     Some (if cm_jid c = None then s
           else emit (Send_iq (JID (cm_jid c)) XMPP_TYPE_GET (Some (CB_peer_clan c)) None (peer_clan_query s)) s)"
  by (auto simp: xmpp_iq_peer_clan_member_update_clanmate_def send_iq_get_def jid_to_str_def JID_def Let_def)

definition friend_message :: "'u session \<Rightarrow> friend \<Rightarrow> 'u effect" where
  "friend_message s f = Send_iq (JID (fr_jid f)) XMPP_TYPE_GET (Some (CB_peer_status f)) None (peer_status_query s)"

definition clanmate_message :: "'u session \<Rightarrow> clanmate \<Rightarrow> 'u effect" where
  "clanmate_message s c = Send_iq (JID (cm_jid c)) XMPP_TYPE_GET (Some (CB_peer_clan c)) None (peer_clan_query s)"

lemma queries_trace [simp]:
  "peer_status_query (add_trace es s) = peer_status_query s" "peer_clan_query (add_trace es s) = peer_clan_query s"
  by (simp_all add: peer_status_query_def peer_clan_query_def)

lemma each_friend:
  "each xmpp_iq_peer_status_update_friend fs s =
     Some (add_trace (map (friend_message s) (filter (\<lambda>f. fr_jid f \<noteq> None) fs)) s)"
  by (induction fs arbitrary: s) (simp_all add: friend_update_trace friend_message_def)

lemma each_clanmate:
  "each xmpp_iq_peer_clan_member_update_clanmate cs s =
     Some (add_trace (map (clanmate_message s) (filter (\<lambda>c. cm_jid c \<noteq> None) cs)) s)"
  by (induction cs arbitrary: s) (simp_all add: clanmate_update_trace clanmate_message_def)

lemma status_set_effect:
  assumes "status_set status s = Some s'"
  shows "\<exists>fs cs m. m = Send_iq (JID_K01 s) XMPP_TYPE_GET None None
         (k01_query (''<player_status '' @ q ''prev_status'' (fmt_u (ol_status (online s))) @ '' '' @ q ''new_status'' (fmt_u status)
            @ '' '' @ q ''to'' (if gi_jid (groom s) \<noteq> None then show_ptr (ol_channel (online s)) else []) @ ''/>''))
     \<and> pr_friends (profile s) = Some fs \<and> cl_mates (profile s) = Some cs
     \<and> trace s' = trace s @ m # map (friend_message s') (filter (\<lambda>f. fr_jid f \<noteq> None) fs)
                          @ map (clanmate_message s') (filter (\<lambda>c. cm_jid c \<noteq> None) cs)
     \<and> ol_status (online s') = status \<and> ol_last_status_update (online s') = now s
     \<and> ol_last_status_change (online s') = (if status = ol_status (online s) then ol_last_status_change (online s) else now s)
     \<and> profile s' = profile s \<and> groom s' = groom s \<and> quickplay s' = quickplay s \<and> rooms s' = rooms s"
proof -
  have "c = (c XOR STATUS_AFK) XOR STATUS_AFK" for c :: u32 by (simp add: xor.assoc)
  then have xor: "(a XOR STATUS_AFK \<noteq> b XOR STATUS_AFK) \<longleftrightarrow> a \<noteq> b" for a b :: u32 by metis
  define s1 where "s1 = (if ol_status (online s) \<noteq> status
      then s\<lparr>online := (online s)\<lparr>ol_last_status_change := now s\<rparr>\<rparr> else s)"
  obtain s2 s4 fs cs where
    2: "xmpp_iq_player_status status s1 = Some s2" and
    4: "status_update_location (s2\<lparr>online := (online s2)\<lparr>ol_status := status, ol_last_status_update := now s2\<rparr>\<rparr>) = Some s4" and
    fs: "pr_friends (profile s4) = Some fs" and cs: "cl_mates (profile s4) = Some cs" and
    s': "s' = add_trace (map (clanmate_message s4) (filter (\<lambda>c. cm_jid c \<noteq> None) cs))
            (add_trace (map (friend_message s4) (filter (\<lambda>f. fr_jid f \<noteq> None) fs)) s4)"
    using assms by (auto simp: status_set_def Let_def bind_eq_Some_conv xor s1_def each_friend each_clanmate
        clanmate_message_def simp del: add_trace_simps(2))
  obtain m where pin: "m = Send_iq (JID_K01 s) XMPP_TYPE_GET None None
         (k01_query (''<player_status '' @ q ''prev_status'' (fmt_u (ol_status (online s))) @ '' '' @ q ''new_status'' (fmt_u status)
            @ '' '' @ q ''to'' (if gi_jid (groom s) \<noteq> None then show_ptr (ol_channel (online s)) else []) @ ''/>''))"
    and m: "s2 = add_trace [m] s1"
    using 2 by (auto simp: xmpp_iq_player_status_def send_iq_get_Some s1_def JID_K01_def)
  obtain a b c d where t: "s4 = set_tokens a b c d (s2\<lparr>online := (online s2)\<lparr>ol_status := status, ol_last_status_update := now s2\<rparr>\<rparr>)"
    using location_frame [OF 4] by blast
  have msg: "friend_message s' = friend_message s4" "clanmate_message s' = clanmate_message s4"
    unfolding s' by (simp_all add: friend_message_def clanmate_message_def fun_eq_iff)
  have frame: "profile s4 = profile s" "trace s4 = trace s @ [m]" "groom s4 = groom s" "quickplay s4 = quickplay s" "rooms s4 = rooms s"
    "ol_status (online s4) = status" "ol_last_status_update (online s4) = now s"
    "ol_last_status_change (online s4) = (if status = ol_status (online s) then ol_last_status_change (online s) else now s)"
    unfolding t m by (simp_all add: s1_def)
  have "trace s' = trace s @ m # map (friend_message s') (filter (\<lambda>f. fr_jid f \<noteq> None) fs)
                          @ map (clanmate_message s') (filter (\<lambda>c. cm_jid c \<noteq> None) cs)"
    unfolding msg by (simp add: s' frame(2))
  with fs cs frame show ?thesis unfolding pin [symmetric] by (auto simp: s')
qed

text \<open>C40: changing the status tells the server once, with the old status, the new one and the channel when
  the player is in a room, and then every friend and every clan mate who is online once, in the order of the
  lists, with the new status; the time of the last change is set whenever the status differs from the old one.\<close>

theorem status_set_broadcast:
  assumes "status_set status s = Some s'"
  shows "\<exists>fs cs m. m = Send_iq (JID_K01 s) XMPP_TYPE_GET None None
         (k01_query (''<player_status '' @ q ''prev_status'' (fmt_u (ol_status (online s))) @ '' '' @ q ''new_status'' (fmt_u status)
            @ '' '' @ q ''to'' (if gi_jid (groom s) \<noteq> None then show_ptr (ol_channel (online s)) else []) @ ''/>''))
     \<and> pr_friends (profile s) = Some fs \<and> cl_mates (profile s) = Some cs
     \<and> trace s' = trace s @ m # map (friend_message s') (filter (\<lambda>f. fr_jid f \<noteq> None) fs)
                          @ map (clanmate_message s') (filter (\<lambda>c. cm_jid c \<noteq> None) cs)
     \<and> (\<exists>a b. friend_message s' = (\<lambda>f. Send_iq (JID (fr_jid f)) XMPP_TYPE_GET (Some (CB_peer_status f)) None
          (k01_query ('' <peer_status_update '' @ q ''nickname'' (show_ptr (pr_nickname (profile s))) @ '' ''
             @ q ''profile_id'' (show_ptr (pr_id (profile s))) @ ''    '' @ q ''status'' (fmt_u status) @ a)))
        \<and> clanmate_message s' = (\<lambda>c. Send_iq (JID (cm_jid c)) XMPP_TYPE_GET (Some (CB_peer_clan c)) None
          (k01_query ('' <peer_clan_member_update '' @ q ''nickname'' (show_ptr (pr_nickname (profile s))) @ ''    ''
             @ q ''profile_id'' (show_ptr (pr_id (profile s))) @ '' '' @ q ''status'' (fmt_u status) @ b))))
     \<and> ol_status (online s') = status \<and> ol_last_status_update (online s') = now s
     \<and> ol_last_status_change (online s') = (if status = ol_status (online s) then ol_last_status_change (online s) else now s)
     \<and> profile s' = profile s \<and> groom s' = groom s \<and> quickplay s' = quickplay s \<and> rooms s' = rooms s"
proof -
  have p: "profile s' = profile s" "ol_status (online s') = status"
    using status_set_effect [OF assms] by blast+
  have "\<exists>a. friend_message s' = (\<lambda>f. Send_iq (JID (fr_jid f)) XMPP_TYPE_GET (Some (CB_peer_status f)) None
          (k01_query ('' <peer_status_update '' @ q ''nickname'' (show_ptr (pr_nickname (profile s))) @ '' ''
             @ q ''profile_id'' (show_ptr (pr_id (profile s))) @ ''    '' @ q ''status'' (fmt_u status) @ a)))"
    unfolding friend_message_def peer_status_query_def p by blast
  moreover have "\<exists>b. clanmate_message s' = (\<lambda>c. Send_iq (JID (cm_jid c)) XMPP_TYPE_GET (Some (CB_peer_clan c)) None
          (k01_query ('' <peer_clan_member_update '' @ q ''nickname'' (show_ptr (pr_nickname (profile s))) @ ''    ''
             @ q ''profile_id'' (show_ptr (pr_id (profile s))) @ '' '' @ q ''status'' (fmt_u status) @ b)))"
    unfolding clanmate_message_def peer_clan_query_def p by blast
  ultimately show ?thesis using status_set_effect [OF assms] by blast
qed

definition demo_session :: "nat session" where
  "demo_session =
     (let s = session_init (Some ''eu'') (Some ''warface'')
            \<lparr>rooms = None, online = undefined, missions = undefined, wf = undefined, quickplay = undefined, groom = undefined, profile = undefined,
             cvar = \<lparr>wb_qp_search_started = True, wb_qp_search_non_started = True, wb_safemaster = False, wb_leave_on_start = True,
               wb_accept_room_invitations = True, wb_postpone_room_invitations = False, wb_accept_room_follows = True,
               wb_accept_friend_requests = True, wb_postpone_friend_requests = False, wb_accept_clan_invites = True,
               wb_postpone_clan_invites = False, wb_join_global_rooms = False, game_version = Some ''1.0'', game_hwid = 0,
               online_region_id = Some ''global'',
               game_manual_profile_creation = False, online_pvp_rank = 1, online_channel_type = Some ''pve'',
               wb_enable_whisper_commands = True, wb_enable_invite = True, wb_auto_start = True, wb_auto_afk = False,
               wb_ping_unit = 5, wb_ping_count_is_afk = 12, wb_ping_count_is_stall = 36, wb_ping_count_is_over = 48,
               wb_ping_count_is_outdated = 60, query_disable_items = False, query_disable_shop_get_offers = False,
               query_disable_quickplay_maplist = False, query_disable_get_configs = False,
               wb_safemaster_room_name = Some ''FairGame'', wb_safemaster_channel = Some ''pvp_pro_1''\<rparr>,
             pending_invitations = None, created_profile = False, own_jid = Some ''7@warface/GameClient'',
             player_count = 0, last_query = 0, now = 1000, trace = []\<rparr>
      in s\<lparr>online := (online s)\<lparr>ol_status := 9, ol_channel := Some ''pvp_pro_1'', ol_channel_type := Some ''pvp_pro''\<rparr>,
           profile := (profile s)\<lparr>pr_id := Some ''7'', pr_nickname := Some ''me'', pr_items := Some [],
             pr_friends := Some [\<lparr>fr_jid = Some ''ann@warface/GameClient'', fr_nickname = ''ann'', fr_profile_id = ''1'', fr_status = 9, fr_experience = 0\<rparr>,
               \<lparr>fr_jid = None, fr_nickname = ''bob'', fr_profile_id = ''2'', fr_status = 0, fr_experience = 0\<rparr>]\<rparr>\<rparr>)"

lemma demo_session_simps:
  "ol_jid_host (online demo_session) = Some ''eu.warface''" "ol_jid_k01 (online demo_session) = Some ''k01.eu.warface''"
  "pr_friends (profile demo_session) = Some [\<lparr>fr_jid = Some ''ann@warface/GameClient'', fr_nickname = ''ann'', fr_profile_id = ''1'', fr_status = 9, fr_experience = 0\<rparr>,
               \<lparr>fr_jid = None, fr_nickname = ''bob'', fr_profile_id = ''2'', fr_status = 0, fr_experience = 0\<rparr>]"
  "cl_mates (profile demo_session) = Some []" "gi_jid (groom demo_session) = None" "trace demo_session = []"
  "ol_status (online demo_session) = 9" "now demo_session = 1000" "rooms demo_session = Some []"
  "ol_channel (online demo_session) = Some ''pvp_pro_1''" "ol_global_chat (online demo_session) = None"
  "pending_invitations demo_session = None" "pr_nickname (profile demo_session) = Some ''me''" "pr_id (profile demo_session) = Some ''7''"
  "qp_pre_uid (quickplay demo_session) = None" "qp_uid (quickplay demo_session) = None" "qp_group (quickplay demo_session) = None"
  "qp_try_again (quickplay demo_session) = 0" "qp_start_cb (quickplay demo_session) = None" "qp_master (quickplay demo_session) = None"
  "wb_safemaster (cvar demo_session) = False" "wb_leave_on_start (cvar demo_session) = True" "pr_items (profile demo_session) = Some []"
  "gi_leaving (groom demo_session) = False" "gi_joined (groom demo_session) = False" "gi_leave_timeout (groom demo_session) = 1000"
  by (simp_all add: demo_session_def session_init_def zero_session_def Let_def friend_list_init_def clanmate_list_init_def
      room_list_init_def show_ptr_def)

lemma demo_status_set: "\<exists>s'. status_set status demo_session = Some s'"
  by (simp add: status_set_def xmpp_iq_player_status_def send_iq_get_def jid_to_str_def JID_K01_def JID_def demo_session_simps
      status_update_location_def Let_def each_friend each_clanmate del: add_trace_simps(3))

theorem status_set_broadcast_witness:
  "\<exists>s'. status_set 17 demo_session = Some s' \<and> ol_last_status_change (online s') = 1000
     \<and> trace s' = [Send_iq (JID (Some ''k01.eu.warface'')) XMPP_TYPE_GET None None
          (k01_query (''<player_status '' @ q ''prev_status'' ''9'' @ '' '' @ q ''new_status'' ''17'' @ '' '' @ q ''to'' [] @ ''/>'')),
        friend_message s' \<lparr>fr_jid = Some ''ann@warface/GameClient'', fr_nickname = ''ann'', fr_profile_id = ''1'',
          fr_status = 9, fr_experience = 0\<rparr>]"
proof -
  obtain s' where s': "status_set 17 demo_session = Some s'" using demo_status_set by blast
  have n: "fmt_u 9 = ''9''" "fmt_u 17 = ''17''" by code_simp+
  from status_set_broadcast [OF s'] s' show ?thesis by (auto simp: demo_session_simps JID_K01_def n)
qed

text \<open>\<open>room_list_empty\<close> is meant to leave every chat room, but asks to join them: since they are all in the
  list of joined rooms, no stanza at all is sent, and the rooms are forgotten.\<close>

theorem room_list_empty_silent:
  assumes "rooms_ok (rooms s)"
  shows "room_list_empty s = Some (s\<lparr>rooms := Some []\<rparr>)"
proof -
  obtain l where l: "rooms s = Some l" "list_all (\<lambda>r. ro_jid r \<noteq> None) l"
    using assms by (auto simp: rooms_ok_def split: option.splits)
  have "presence_all rs s = Some s" if "set rs \<subseteq> set l" for rs
    using that
  proof (induction rs)
    case Nil
    then show ?case by simp
  next
    case (Cons r rs)
    then obtain j where j: "ro_jid r = Some j" "r \<in> set l" using l(2) by (auto simp: list_all_iff)
    have "j = room_key r" using j(1) by (simp add: room_key_def)
    then have "Contacts.keyed room_key l j \<noteq> None" using j(2) by (auto simp: Contacts.keyed_None)
    then have "room_list_find (Some j) (rooms s) \<noteq> Some None"
      using l room_find(1) [OF l(2), of j] by (simp add: room_list_find_def)
    moreover have "room_list_find (Some j) (rooms s) \<noteq> None"
      using l room_find(1) [OF l(2), of j] by (simp add: room_list_find_def)
    ultimately have "xmpp_presence (ro_jid r) XMPP_PRESENCE_JOIN s = Some s"
      by (auto simp: xmpp_presence_def j(1) Let_def)
    with Cons show ?case by simp
  qed
  then show ?thesis using l(1) by (simp add: room_list_empty_def)
qed

theorem room_list_empty_silent_witness:
  "room_list_empty (demo_session\<lparr>rooms := Some [room_new (Some ''room.pvp'')]\<rparr>) = Some (demo_session\<lparr>rooms := Some []\<rparr>)"
proof -
  have "rooms_ok (rooms (demo_session\<lparr>rooms := Some [room_new (Some ''room.pvp'')]\<rparr>))"
    by (simp add: rooms_ok_def room_new_def nonempty_ptr_def)
  from room_list_empty_silent [OF this] show ?thesis by simp
qed

end
