(* ===== verification/Quickplay.thy ===== *)
theory Quickplay
  imports Session
begin

text \<open>
  \<open>src/quickplay.c\<close>: the search for a match with a group of invited players, and the messages about
  it under \<open>src/xmpp_wf\<close>.

  The session holds the identifier of a search that is being prepared (\<open>pre_uid\<close>) and of one that
  the server runs (\<open>uid\<close>).  A master prepares a search with \<open>quickplay_open\<close>, invites players
  and starts it; an invited player takes the identifier over from the invitation.  The handlers get
  the content that \<open>wf_get_query_content\<close> extracted (\<open>content\<close>); a fresh identifier and the
  name of a room (\<open>room_title\<close>, formatted from a language file) are arguments.
\<close>

subsection \<open>Helpers\<close>

definition PREINVITE_CANCELED_BY_CLIENT :: int where "PREINVITE_CANCELED_BY_CLIENT = 0"
definition PREINVITE_CANCELED_BY_MASTER :: int where "PREINVITE_CANCELED_BY_MASTER = 1"
definition PREINVITE_EXPIRED :: int where "PREINVITE_EXPIRED = 2"
definition PREINVITE_TIMEOUT :: int where "PREINVITE_TIMEOUT = 3"

definition ROOM_PVP_QUICKPLAY :: u32 where "ROOM_PVP_QUICKPLAY = 8"
definition ROOM_PVE_QUICKPLAY :: u32 where "ROOM_PVE_QUICKPLAY = 16"
definition ROOM_PVP_RATING :: u32 where "ROOM_PVP_RATING = 32"

definition upd_qp :: "('u quickplay_info \<Rightarrow> 'u quickplay_info) \<Rightarrow> 'u session \<Rightarrow> 'u session" where
  "upd_qp f s = s\<lparr>quickplay := f (quickplay s)\<rparr>"

lemma upd_qp_simps [simp]:
  "quickplay (upd_qp f s) = f (quickplay s)" "trace (upd_qp f s) = trace s" "online (upd_qp f s) = online s"
  "groom (upd_qp f s) = groom s" "profile (upd_qp f s) = profile s" "rooms (upd_qp f s) = rooms s" "cvar (upd_qp f s) = cvar s" "wf (upd_qp f s) = wf s"
  "missions (upd_qp f s) = missions s" "now (upd_qp f s) = now s" "created_profile (upd_qp f s) = created_profile s"
  "own_jid (upd_qp f s) = own_jid s" "player_count (upd_qp f s) = player_count s" "last_query (upd_qp f s) = last_query s"
    "pending_invitations (upd_qp f s) = pending_invitations s"
  by (simp_all add: upd_qp_def)

definition attr :: "cstring \<Rightarrow> cstring \<Rightarrow> cptr" where
  "attr text name = get_info text (name @ ''='' @ [apos]) [apos]"

definition attr_int :: "cstring \<Rightarrow> cstring \<Rightarrow> int" where
  "attr_int text name = c_int (get_info_int text (name @ ''='' @ [apos]) [apos])"

subsection \<open>Requests\<close>

definition xmpp_iq_preinvite_cancel :: "cptr \<Rightarrow> cptr \<Rightarrow> int \<Rightarrow> 'u option \<Rightarrow> 'u session \<Rightarrow> 'u session crash" where
  "xmpp_iq_preinvite_cancel online_id uid reason cb s =
     send_iq_get (JID online_id) (Some (CB_preinvite_cancel cb))
       (k01_query ('' <preinvite_cancel '' @ q ''uid'' (show_ptr uid) @ '' '' @ q ''reason'' (int_dec reason) @ ''/>'')) s"

definition xmpp_iq_gameroom_quickplay_cancel :: "'u session \<Rightarrow> 'u session crash" where
  "xmpp_iq_gameroom_quickplay_cancel s =
     send_iq_get (JID_MS (ol_channel (online s)) s) (Some CB_quickplay_cancel) (k01_query '' <gameroom_quickplay_cancel/>'') s"

text \<open>Hexadecimal digits of an unsigned value (\<open>%X\<close>).\<close>

definition hex_digit :: "nat \<Rightarrow> char" where
  "hex_digit d = (if d < 10 then char_of (48 + d) else char_of (55 + d))"

fun nat_hex :: "nat \<Rightarrow> cstring" where
  "nat_hex n = (if n < 16 then [hex_digit n] else nat_hex (n div 16) @ [hex_digit (n mod 16)])"

declare nat_hex.simps [simp del]

text \<open>The profile id is a \<open>long long\<close> that is printed as an \<open>unsigned int\<close>.\<close>

definition xmpp_iq_preinvite_invite :: "cptr \<Rightarrow> cptr \<Rightarrow> 'u option \<Rightarrow> 'u session \<Rightarrow> 'u session crash" where
  "xmpp_iq_preinvite_invite online_id uid cb s =
     do {
       id_text \<leftarrow> deref (pr_id (profile s));
       let profile_id = c_uint (strtoll id_text);
       send_iq_get (JID online_id) (Some (CB_preinvite_invite cb))
         (k01_query ('' <preinvite_invite '' @ q ''from'' (show_ptr (pr_nickname (profile s))) @ '' '' @ q ''uid'' (show_ptr uid)
           @ '' '' @ q ''ms_resource'' (show_ptr (ol_channel (online s))) @ '' '' @ q ''channel_type'' (show_ptr (ol_channel_type (online s)))
           @ '' '' @ q ''mission_id'' (NULL_CHECK (qp_mission_id (quickplay s))) @ '' '' @ q ''clan_name'' (NULL_CHECK (cl_name (profile s)))
           @ '' '' @ q ''experience'' (fmt_u (pr_experience (profile s)))
           @ '' '' @ q ''badge'' (fmt_u (pr_banner_badge (profile s))) @ '' '' @ q ''mark'' (fmt_u (pr_banner_mark (profile s)))
           @ '' '' @ q ''stripe'' (fmt_u (pr_banner_stripe (profile s)))
           @ '' '' @ q ''onlineId'' (show_ptr (ol_id (online s))) @ '' '' @ q ''profileId'' (nat_hex (unat profile_id))
           @ '' '' @ q ''is_online'' ''1'' @ ''/>'')) s
     }"

definition concat_players :: "qp_player list option \<Rightarrow> cstring" where
  "concat_players g =
     (case g of None \<Rightarrow> []
      | Some l \<Rightarrow> fold (\<lambda>p grp. if qp_accepted p then grp @ ''<player '' @ q ''profile_id'' (qp_profile_id p) @ ''/>'' else grp) l [])"

definition quickplay_mode :: "cptr \<Rightarrow> u32 \<Rightarrow> cptr \<Rightarrow> cptr" where
  "quickplay_mode mission_key type game_mode =
     (if type = ROOM_PVE_QUICKPLAY \<and> mission_key \<noteq> None then Some (q ''mission_id'' (the mission_key))
      else if type = ROOM_PVP_QUICKPLAY \<and> mission_key \<noteq> None
      then Some (q ''mission_id'' (the mission_key) @ '' '' @ q ''game_mode'' [])
      else if type = ROOM_PVP_QUICKPLAY \<and> game_mode \<noteq> None
      then Some (q ''mission_id'' [] @ '' '' @ q ''game_mode'' (the game_mode))
      else if type AND (ROOM_PVP_QUICKPLAY OR ROOM_PVP_RATING) \<noteq> 0
      then Some (q ''mission_id'' [] @ '' '' @ q ''game_mode'' [])
      else None)"

definition xmpp_iq_gameroom_quickplay ::
  "(cptr \<Rightarrow> cstring) \<Rightarrow> (nat \<Rightarrow> char) \<Rightarrow> cptr \<Rightarrow> cptr \<Rightarrow> u32 \<Rightarrow> cptr \<Rightarrow> int \<Rightarrow> int \<Rightarrow> 'u option \<Rightarrow> 'u session \<Rightarrow> 'u session crash" where
  "xmpp_iq_gameroom_quickplay room_title junk uid mission_key type game_mode channel_switches tries cb s =
     (case uid of
        None \<Rightarrow> Some s
      | Some u \<Rightarrow>
          (case quickplay_mode mission_key type game_mode of
             None \<Rightarrow> Some s
           | Some query_mode \<Rightarrow>
               do {
                 let a = \<lparr>qa_cb = cb, qa_mission_key = mission_key, qa_mission_name = None, qa_type = type,
                          qa_game_mode = game_mode, qa_uid = uid, qa_channel_switches = channel_switches, qa_tries = tries\<rparr>;
                 let player_group = concat_players (qp_group (quickplay s));
                 room_name \<leftarrow> xml_serialize_inplace junk (room_title (pr_nickname (profile s)));
                 send_iq_get (JID_MS (ol_channel (online s)) s) (Some (CB_gameroom_quickplay a))
                   (k01_query ('' <gameroom_quickplay     '' @ q ''team_id'' ''0'' @ '' '' @ q ''status'' (fmt_d GAMEROOM_READY)
                     @ '' '' @ q ''room_name'' room_name
                     @ ''     '' @ q ''class_id'' (fmt_d (pr_curr_class (profile s))) @ '' '' @ q ''room_type'' (fmt_d type)
                     @ ''     '' @ q ''channel_switches'' (int_dec channel_switches) @ '' '' @ q ''uid'' u @ '' '' @ q ''timestamp'' ''0''
                     @ ''     '' @ q ''missions_hash'' (int_dec (mi_hash (missions s))) @ '' '' @ q ''content_hash'' (int_dec (mi_content_hash (missions s)))
                     @ ''     '' @ query_mode @ ''>  <group>'' @ player_group @ ''</group> </gameroom_quickplay>'')) s
               }))"

text \<open>The answer; an error is scanned even when it stands for a time-out, which has no message.\<close>

definition xmpp_iq_gameroom_quickplay_cb :: "'u quickplay_args \<Rightarrow> cptr \<Rightarrow> xmpp_msg_type \<Rightarrow> 'u session \<Rightarrow> 'u session crash" where
  "xmpp_iq_gameroom_quickplay_cb a msg type s =
     (if type = XMPP_TYPE_ERROR
      then do {
             m \<leftarrow> deref msg;
             let code = attr_int m ''code'';
             let custom_code = attr_int m ''custom_code'';
             let a1 = a\<lparr>qa_tries := qa_tries a + 1\<rparr>;
             (if code = 8 \<and> custom_code = 1 \<and> qa_tries a1 < 2
              then do {
                     found \<leftarrow> mission_list_get_by_key s (qa_mission_key a1);
                     (case found of
                        None \<Rightarrow> Some s
                      | Some mi \<Rightarrow>
                          do {
                            name \<leftarrow> deref (ms_name mi);
                            mission_list_update (Some (Cont_quickplay (a1\<lparr>qa_mission_name := Some name\<rparr>))) s
                          })
                   }
              else Some s)
           }
      else Some (case qa_cb a of None \<Rightarrow> s | Some u \<Rightarrow> emit (Call_user u) s))"

definition quickplay_updated_list ::
  "(cptr \<Rightarrow> cstring) \<Rightarrow> (nat \<Rightarrow> char) \<Rightarrow> 'u quickplay_args \<Rightarrow> 'u session \<Rightarrow> 'u session crash" where
  "quickplay_updated_list room_title junk a s =
     do {
       m \<leftarrow> mission_list_get s (qa_mission_name a);
       (case m of
          None \<Rightarrow> Some s
        | Some mi \<Rightarrow> xmpp_iq_gameroom_quickplay room_title junk (qa_uid a) (ms_mission_key mi) (qa_type a) (qa_game_mode a)
                       (qa_channel_switches a) (qa_tries a) (qa_cb a) s)
     }"

subsection \<open>The search\<close>

definition quickplay_free :: "'u session \<Rightarrow> 'u session" where
  "quickplay_free = upd_qp (\<lambda>q. q\<lparr>qp_pre_uid := None, qp_uid := None, qp_mission_id := None, qp_game_mode := None,
                               qp_start_cb := None, qp_group := None, qp_master := None\<rparr>)"

definition quickplay_cancel :: "'u session \<Rightarrow> 'u session crash" where
  "quickplay_cancel s =
     do {
       s1 \<leftarrow> (case (qp_pre_uid (quickplay s), qp_group (quickplay s)) of
                (Some u, Some l) \<Rightarrow>
                  each (\<lambda>p s. xmpp_iq_preinvite_cancel (Some (qp_online_id p)) (qp_pre_uid (quickplay s)) PREINVITE_CANCELED_BY_MASTER None s) l s
              | _ \<Rightarrow> Some s);
       s2 \<leftarrow> (if qp_uid (quickplay s1) \<noteq> None then xmpp_iq_gameroom_quickplay_cancel s1 else Some s1);
       Some (quickplay_free s2)
     }"

definition quickplay_start :: "(cptr \<Rightarrow> cstring) \<Rightarrow> (nat \<Rightarrow> char) \<Rightarrow> 'u option \<Rightarrow> 'u session \<Rightarrow> 'u session crash" where
  "quickplay_start room_title junk cb s =
     (if qp_pre_uid (quickplay s) = None then Some s
      else (let s1 = upd_qp (\<lambda>q. q\<lparr>qp_start_cb := cb,
                        qp_group := (case qp_group q of None \<Rightarrow> Some [] | Some l \<Rightarrow> Some l)\<rparr>) s;
                q1 = quickplay s1
            in xmpp_iq_gameroom_quickplay room_title junk (qp_pre_uid q1) (qp_mission_id q1) (qp_type q1) (qp_game_mode q1)
                 (qp_channel_switches q1) 0 None s1))"

definition masterserver_list_get_by_type :: "'u session \<Rightarrow> cptr \<Rightarrow> masterserver option crash" where
  "masterserver_list_get_by_type s type =
     (case (ol_masterservers (online s), type) of
        (Some l, Some t) \<Rightarrow> find_crash (\<lambda>m. strcmp_eq (sv_channel m) (Some t)) l
      | _ \<Rightarrow> Some None)"

definition masterserver_list_get :: "'u session \<Rightarrow> cptr \<Rightarrow> masterserver option crash" where
  "masterserver_list_get s resource =
     (case (ol_masterservers (online s), resource) of
        (Some l, Some r) \<Rightarrow> find_crash (\<lambda>m. strcmp_eq (sv_resource m) (Some r)) l
      | _ \<Rightarrow> Some None)"

definition quickplay_open :: "cstring \<Rightarrow> cptr \<Rightarrow> u32 \<Rightarrow> cptr \<Rightarrow> 'u option \<Rightarrow> 'u session \<Rightarrow> 'u session crash" where
  "quickplay_open new_uuid mission_key type game_mode cb s =
     (if qp_uid (quickplay s) \<noteq> None then Some s
      else do {
        let s1 = upd_qp (\<lambda>q. q\<lparr>qp_pre_uid := Some new_uuid, qp_type := type, qp_channel_switches := 0,
                             qp_mission_id := (if mission_key = None then qp_mission_id q else mission_key),
                             qp_game_mode := (if game_mode = None then qp_game_mode q else game_mode)\<rparr>) s;
        let were_in_pve = (case ol_channel_type (online s) of None \<Rightarrow> False | Some c \<Rightarrow> strstr c ''pve'' \<noteq> None);
        let is_pve = (if ol_channel_type (online s) = None then were_in_pve else type AND ROOM_PVE_QUICKPLAY \<noteq> 0);
        if is_pve = were_in_pve
        then Some (case cb of None \<Rightarrow> s1 | Some u \<Rightarrow> emit (Call_user u) s1)
        else do {
               ms \<leftarrow> masterserver_list_get_by_type s1 (Some (if is_pve then ''pve'' else ''pvp_pro''));
               (case ms of None \<Rightarrow> Some s1
                | Some m \<Rightarrow> xmpp_iq_join_channel (sv_resource m) (map_option Cont_user cb) s1)
             }
      })"

definition quickplay_preinvite :: "cptr \<Rightarrow> cptr \<Rightarrow> cptr \<Rightarrow> 'u session \<Rightarrow> 'u session crash" where
  "quickplay_preinvite online_id profile_id nickname s =
     (case (online_id, profile_id, nickname) of
        (Some oid, Some pid, Some nick) \<Rightarrow>
          if qp_pre_uid (quickplay s) = None then Some s
          else (let p = \<lparr>qp_online_id = oid, qp_profile_id = pid, qp_nickname = nick, qp_accepted = False\<rparr>;
                    s1 = upd_qp (\<lambda>q. q\<lparr>qp_group := Some (p # (case qp_group q of None \<Rightarrow> [] | Some l \<Rightarrow> l))\<rparr>) s
                in xmpp_iq_preinvite_invite (Some oid) (qp_pre_uid (quickplay s1)) None s1)
      | _ \<Rightarrow> Some s)"

definition quickplay_preinvite_response :: "cptr \<Rightarrow> cptr \<Rightarrow> bool \<Rightarrow> 'u session \<Rightarrow> 'u session crash" where
  "quickplay_preinvite_response uid online_id accepted s =
     (case (online_id, qp_group (quickplay s)) of
        (Some oid, Some l) \<Rightarrow>
          if find (\<lambda>p. qp_online_id p = oid) l \<noteq> None \<and> uid \<noteq> None \<and> qp_pre_uid (quickplay s) = uid
          then Some (upd_qp (\<lambda>q. q\<lparr>qp_group := Some (if accepted
                       then modify_first (\<lambda>p. qp_online_id p = oid) (\<lambda>p. p\<lparr>qp_accepted := True\<rparr>) l
                       else remove_first (\<lambda>p. qp_online_id p = oid) l)\<rparr>) s)
          else xmpp_iq_preinvite_cancel online_id uid PREINVITE_EXPIRED None s
      | _ \<Rightarrow> Some s)"

definition quickplay_started :: "cptr \<Rightarrow> 'u session \<Rightarrow> 'u session" where
  "quickplay_started uid s =
     (if uid \<noteq> None \<and> qp_pre_uid (quickplay s) = uid
      then upd_qp (\<lambda>q. q\<lparr>qp_uid := uid, qp_pre_uid := None, qp_try_again := 0\<rparr>) s else s)"

definition quickplay_succeeded :: "cptr \<Rightarrow> 'u session \<Rightarrow> 'u session" where
  "quickplay_succeeded uid s =
     (if qp_try_again (quickplay s) \<noteq> 0 then upd_qp (\<lambda>q. q\<lparr>qp_try_again := 0\<rparr>) s
      else if uid \<noteq> None \<and> qp_uid (quickplay s) = uid
      then quickplay_free (case qp_start_cb (quickplay s) of None \<Rightarrow> s | Some u \<Rightarrow> emit (Call_user u) s)
      else s)"

definition quickplay_canceled :: "cptr \<Rightarrow> 'u session \<Rightarrow> 'u session" where
  "quickplay_canceled uid s = (if uid \<noteq> None \<and> qp_uid (quickplay s) = uid then quickplay_free s else s)"

subsection \<open>Messages\<close>

definition xmpp_iq_gameroom_quickplay_started_cb :: "cptr \<Rightarrow> cptr \<Rightarrow> 'u session \<Rightarrow> 'u session crash" where
  "xmpp_iq_gameroom_quickplay_started_cb msg_id content s =
     (case content of
        None \<Rightarrow> Some s
      | Some data \<Rightarrow>
          (case attr data ''uid'' of
             None \<Rightarrow> Some s
           | Some uid \<Rightarrow>
               (let s1 = quickplay_started (Some uid) s
                in send_iq_result (JID_K01 s1) msg_id (k01_query (''<gameroom_quickplay_started '' @ q ''uid'' uid @ ''/>'')) s1)))"

definition xmpp_iq_gameroom_quickplay_succeeded_cb :: "cptr \<Rightarrow> cptr \<Rightarrow> 'u session \<Rightarrow> 'u session crash" where
  "xmpp_iq_gameroom_quickplay_succeeded_cb msg_id content s =
     (case content of
        None \<Rightarrow> Some s
      | Some data \<Rightarrow>
          (case attr data ''uid'' of
             None \<Rightarrow> Some s
           | Some uid \<Rightarrow>
               (let s1 = quickplay_succeeded (Some uid) s
                in send_iq_result (JID_K01 s1) msg_id (k01_query (''<gameroom_quickplay_succeeded '' @ q ''uid'' uid @ ''/>'')) s1)))"

definition xmpp_iq_gameroom_quickplay_canceled_cb :: "cptr \<Rightarrow> cptr \<Rightarrow> 'u session \<Rightarrow> 'u session crash" where
  "xmpp_iq_gameroom_quickplay_canceled_cb msg_id content s =
     (case content of
        None \<Rightarrow> Some s
      | Some data \<Rightarrow>
          (case attr data ''uid'' of
             None \<Rightarrow> Some s
           | Some uid \<Rightarrow>
               (let s1 = quickplay_canceled (Some uid) s
                in send_iq_result (JID_K01 s1) msg_id (k01_query (''<gameroom_quickplay_canceled '' @ q ''uid'' uid @ ''/>'')) s1)))"

definition xmpp_iq_preinvite_response_cb :: "cptr \<Rightarrow> cstring \<Rightarrow> cptr \<Rightarrow> 'u session \<Rightarrow> 'u session crash" where
  "xmpp_iq_preinvite_response_cb msg_id msg content s =
     (case content of
        None \<Rightarrow> Some s
      | Some data \<Rightarrow>
          (let accepted = attr_int data ''status'' in
           case (attr data ''uid'', attr msg ''from'', attr data ''pid'', attr data ''invitee'') of
             (Some uid, Some jid, Some pid, Some invitee) \<Rightarrow>
               do {
                 s1 \<leftarrow> quickplay_preinvite_response (Some uid) (Some jid) (accepted \<noteq> 0) s;
                 send_iq_result (JID (Some jid)) msg_id
                   (k01_query ('' <preinvite_response '' @ q ''uid'' uid @ '' '' @ q ''accepted'' (int_dec accepted)
                     @ '' '' @ q ''from'' invitee @ '' '' @ q ''pid'' pid @ ''/>'')) s1
               }
           | _ \<Rightarrow> Some s))"

definition xmpp_iq_preinvite_cancel_handler :: "cstring \<Rightarrow> cptr \<Rightarrow> 'u session \<Rightarrow> 'u session crash" where
  "xmpp_iq_preinvite_cancel_handler msg content s =
     (case content of
        None \<Rightarrow> Some s
      | Some data \<Rightarrow>
          do {
            let jid = attr msg ''from'';
            let uid = attr data ''uid'';
            let reason = attr_int data ''reason'';
            s1 \<leftarrow> (if jid \<noteq> None \<and> uid \<noteq> None \<and> qp_pre_uid (quickplay s) = uid
                   then (if reason = PREINVITE_EXPIRED \<or> reason = PREINVITE_TIMEOUT \<or> reason = PREINVITE_CANCELED_BY_MASTER
                         then Some (upd_qp (\<lambda>q. q\<lparr>qp_pre_uid := None\<rparr>) s)
                         else if reason = PREINVITE_CANCELED_BY_CLIENT then quickplay_preinvite_response uid jid False s
                         else Some s)
                   else Some s);
            Some (upd_qp (\<lambda>q. q\<lparr>qp_master := None, qp_pre_uid := None\<rparr>) s1)
          })"

end
