(* ===== verification/Elements.thy ===== *)
theory Elements
  imports Quickplay
begin

text \<open>
  The loop with which the handlers read the elements of a list: find the next opening tag, scan the
  element, go on behind its first character.  \<open>element_reader\<close> states what the body of such a
  loop has to satisfy so that a list written by the server is read element by element.
\<close>

subsection \<open>The loop\<close>

text \<open>Stepping behind the end of the text would leave the buffer; a tag is never empty.\<close>

function each_elem :: "cstring \<Rightarrow> (cstring \<Rightarrow> 's \<Rightarrow> 's crash) \<Rightarrow> cstring \<Rightarrow> 's \<Rightarrow> 's crash" where
  "each_elem tag f m s =
     (case strstr m tag of
        None \<Rightarrow> Some s
      | Some el \<Rightarrow> if el = [] then None else do { s' \<leftarrow> f el s; each_elem tag f (tl el) s' })"
  by pat_completeness auto
termination
proof (relation "measure (\<lambda>(_, _, m, _). length m)", goal_cases)
  case 1
  then show ?case by simp
next
  case (2 tag f m s el s')
  then show ?case using strstr_length [of m tag el] by (cases el) auto
qed

declare each_elem.simps [simp del]

lemma each_elem_stop: "strstr m tag = None \<Longrightarrow> each_elem tag f m s = Some s"
  by (subst each_elem.simps) simp

lemma each_elem_next:
  "strstr m tag = Some e \<Longrightarrow> e \<noteq> [] \<Longrightarrow> each_elem tag f m s = do { s' \<leftarrow> f e s; each_elem tag f (tl e) s' }"
  by (subst each_elem.simps) simp

text \<open>What every pass keeps, the loop keeps.\<close>

lemma each_elem_invariant:
  assumes "each_elem tag f m s = Some s'" "I s" "\<And>el s s'. f el s = Some s' \<Longrightarrow> I s \<Longrightarrow> I s'"
  shows "I s'"
  using assms(1,2)
proof (induction "length m" arbitrary: m s rule: less_induct)
  case less
  show ?case
  proof (cases "strstr m tag")
    case None
    with less.prems show ?thesis by (simp add: each_elem_stop)
  next
    case (Some el)
    with less.prems(1) obtain s1 where el: "el \<noteq> []" "f el s = Some s1" "each_elem tag f (tl el) s1 = Some s'"
      by (subst (asm) each_elem.simps) (auto simp: bind_eq_Some_conv split: if_splits)
    have "length (tl el) < length m" using strstr_length [OF Some] el(1) by (cases el) auto
    from less.hyps [OF this el(3) assms(3) [OF el(2) less.prems(2)]] show ?thesis .
  qed
qed

subsection \<open>Reading a list that the server wrote\<close>

definition render_elem :: "cstring \<Rightarrow> (cstring \<times> cstring) list \<Rightarrow> cstring" where
  "render_elem tag kvs = tag @ render_attrs kvs @ ''/>''"

definition plain_attrs :: "(cstring \<times> cstring) list \<Rightarrow> bool" where
  "plain_attrs kvs \<longleftrightarrow> list_all (\<lambda>kv. name_ok (fst kv) \<and> set (fst kv) \<inter> {CHR ''<'', CHR ''>''} = {} \<and> plain_value (snd kv)) kvs"

lemma plain_attrs_simps [simp]:
  "plain_attrs []"
  "plain_attrs (kv # kvs) \<longleftrightarrow> name_ok (fst kv) \<and> set (fst kv) \<inter> {CHR ''<'', CHR ''>''} = {} \<and> plain_value (snd kv) \<and> plain_attrs kvs"
  by (auto simp: plain_attrs_def)

lemma plain_attrs_ok: "plain_attrs kvs \<Longrightarrow> list_all attr_ok kvs"
  by (auto simp: plain_attrs_def list_all_iff intro: plain_attr_ok)

lemma plain_attrs_text: "plain_attrs kvs \<Longrightarrow> CHR ''<'' \<notin> set (render_attrs kvs) \<and> CHR ''>'' \<notin> set (render_attrs kvs)"
  using render_plain [of kvs] by (auto simp: plain_attrs_def list_all_iff)

text \<open>The lookups of a handler in an element, wherever the text goes on.\<close>

lemma attr_elem:
  assumes "plain_attrs kvs" "name_ok n" "lookup_attr n kvs = Some v"
  shows "attr (render_attrs kvs @ r) n = Some v"
  using get_attr [OF plain_attrs_ok [OF assms(1)] assms(2,3)] by (simp add: attr_def)

lemma attr_int_elem:
  assumes "plain_attrs kvs" "name_ok n" "lookup_attr n kvs = Some (int_dec i)" "- (2 ^ 63) \<le> i" "i < 2 ^ 63"
  shows "attr_int (render_attrs kvs @ r) n = c_int i"
  using get_attr_int [OF plain_attrs_ok [OF assms(1)] assms(2-5)] by (simp add: attr_int_def)

text \<open>A tag without quotes in front of the attributes does not disturb the lookups.\<close>

lemma strstr_tag:
  assumes "apos \<notin> set t" "CHR '' '' \<notin> set n"
  shows "strstr (t @ CHR '' '' # r) (n @ ''='' @ [apos]) = strstr (CHR '' '' # r) (n @ ''='' @ [apos])"
proof (rule strstr_skip, intro allI impI notI)
  fix k
  assume k: "k < length t" and "starts_with (drop k (t @ CHR '' '' # r)) (n @ ''='' @ [apos])"
  then have "starts_with (drop k t @ CHR '' '' # r) (n @ ''='' @ [apos])" by simp
  moreover have "CHR '' '' \<notin> set (n @ ''='' @ [apos])" using assms(2) by simp
  ultimately have "starts_with (drop k t) (n @ ''='' @ [apos])" using starts_with_cut by metis
  then have "apos \<in> set (drop k t)" by (auto simp: starts_with_iff)
  with assms(1) show False using set_drop_subset [of k t] by blast
qed

lemma render_attrs_blank: "kvs \<noteq> [] \<Longrightarrow> \<exists>R. \<forall>r. render_attrs kvs @ r = CHR '' '' # R @ r"
  by (cases kvs) (auto simp: render_attr_def)

lemma tagged:
  assumes "kvs \<noteq> []" "apos \<notin> set t" "CHR '' '' \<notin> set n"
  shows "attr (t @ render_attrs kvs @ r) n = attr (render_attrs kvs @ r) n"
    and "attr_int (t @ render_attrs kvs @ r) n = attr_int (render_attrs kvs @ r) n"
    and "sync_uint (t @ render_attrs kvs @ r) n = sync_uint (render_attrs kvs @ r) n"
proof -
  obtain R where R: "\<And>r. render_attrs kvs @ r = CHR '' '' # R @ r" using render_attrs_blank [OF assms(1)] by blast
  note e = strstr_tag [OF assms(2,3), of "R @ r"]
  show "attr (t @ render_attrs kvs @ r) n = attr (render_attrs kvs @ r) n"
    "attr_int (t @ render_attrs kvs @ r) n = attr_int (render_attrs kvs @ r) n"
    "sync_uint (t @ render_attrs kvs @ r) n = sync_uint (render_attrs kvs @ r) n"
    unfolding R attr_def attr_int_def sync_uint_def sync_long_def get_info_def get_info_int_def e by (rule refl)+
qed

text \<open>
  The contract of a loop body: on an element that the server wrote for \<open>x\<close> it does \<open>step x\<close>,
  whatever follows.
\<close>

locale element_reader =
  fixes tag :: cstring
    and attrs :: "'a \<Rightarrow> (cstring \<times> cstring) list"
    and plain :: "'a \<Rightarrow> bool"
    and body :: "cstring \<Rightarrow> 's \<Rightarrow> 's crash"
    and step :: "'a \<Rightarrow> 's \<Rightarrow> 's crash"
  assumes tag_head: "hd tag = CHR ''<''" "tl tag \<noteq> []" "CHR ''<'' \<notin> set (tl tag)"
    and attrs_plain: "plain x \<Longrightarrow> plain_attrs (attrs x)"
    and body_step: "plain x \<Longrightarrow> body (tag @ render_attrs (attrs x) @ ''/>'' @ r) s = step x s"
begin

lemma reads_elements:
  assumes "list_all plain xs" "CHR ''<'' \<notin> set w" "strstr r tag = None"
  shows "each_elem tag body (w @ concat (map (\<lambda>x. render_elem tag (attrs x)) xs) @ r) s = each step xs s"
  using assms(1,2)
proof (induction xs arbitrary: w s)
  case Nil
  have "strstr (w @ r) tag = None"
    using strstr_skip_head [OF Nil(2), of r "tl tag"] tag_head assms(3) by (cases tag) auto
  then show ?case by (simp add: each_elem_stop)
next
  case (Cons x xs)
  let ?t = "render_attrs (attrs x)"
  let ?r = "concat (map (\<lambda>x. render_elem tag (attrs x)) xs) @ r"
  have t: "tag = CHR ''<'' # tl tag" using tag_head by (cases tag) auto
  have m: "w @ concat (map (\<lambda>x. render_elem tag (attrs x)) (x # xs)) @ r = w @ tag @ ?t @ ''/>'' @ ?r"
    by (simp add: render_elem_def)
  have "strstr (w @ tag @ ?t @ ''/>'' @ ?r) tag = Some (tag @ ?t @ ''/>'' @ ?r)"
    using strstr_skip_head [OF Cons.prems(2), of "tag @ ?t @ ''/>'' @ ?r" "tl tag"] t
    by (metis strstr_here)
  moreover have "body (tag @ ?t @ ''/>'' @ ?r) s = step x s" using body_step Cons.prems(1) by simp
  moreover have "each_elem tag body (tl (tag @ ?t @ ''/>'' @ ?r)) = each step xs"
  proof (rule ext)
    fix s'
    have "tl (tag @ ?t @ ''/>'' @ ?r) = (tl tag @ ?t @ ''/>'') @ ?r" by (subst t) simp
    moreover have "CHR ''<'' \<notin> set (tl tag @ ?t @ ''/>'')"
      using tag_head plain_attrs_text [OF attrs_plain [of x]] Cons.prems(1) by auto
    ultimately show "each_elem tag body (tl (tag @ ?t @ ''/>'' @ ?r)) s' = each step xs s'"
      using Cons.IH [of "tl tag @ ?t @ ''/>''" s'] Cons.prems(1) by simp
  qed
  moreover have "tag @ ?t @ ''/>'' @ ?r \<noteq> []" by simp
  ultimately show ?case unfolding m by (subst each_elem.simps) (simp del: append_assoc)
qed

end

end
