(* ===== verification/Profile.thy ===== *)
theory Profile
  imports Elements
begin

text \<open>
  What the server tells about the own profile: experience, money, items and unlocked items
  (\<open>xmpp_iq_resync_profile.c\<close> and the part it shares with \<open>xmpp_iq_join_channel.c\<close>), the statistics
  (\<open>xmpp_iq_get_player_stats.c\<close>), the achievements, and the list of items of the game (\<open>src/item.c\<close>,
  \<open>xmpp_iq_items.c\<close>).
\<close>

definition upd_profile :: "(profile_info \<Rightarrow> profile_info) \<Rightarrow> 'u session \<Rightarrow> 'u session" where
  "upd_profile f s = s\<lparr>profile := f (profile s)\<rparr>"

lemma upd_profile_simps [simp]:
  "profile (upd_profile f s) = f (profile s)" "trace (upd_profile f s) = trace s" "online (upd_profile f s) = online s"
  "quickplay (upd_profile f s) = quickplay s" "groom (upd_profile f s) = groom s" "rooms (upd_profile f s) = rooms s"
  "cvar (upd_profile f s) = cvar s" "wf (upd_profile f s) = wf s" "missions (upd_profile f s) = missions s"
  "now (upd_profile f s) = now s" "created_profile (upd_profile f s) = created_profile s"
  "own_jid (upd_profile f s) = own_jid s" "player_count (upd_profile f s) = player_count s" "last_query (upd_profile f s) = last_query s"
  "pending_invitations (upd_profile f s) = pending_invitations s"
  by (simp_all add: upd_profile_def)

definition upd_stats :: "(stats_info \<Rightarrow> stats_info) \<Rightarrow> profile_info \<Rightarrow> profile_info" where
  "upd_stats f p = p\<lparr>pr_stats := f (pr_stats p)\<rparr>"

text \<open>\<open>call_opt\<close>: the callback of the user, if there is one.\<close>

definition call_opt :: "'u option \<Rightarrow> 'u session \<Rightarrow> 'u session" where
  "call_opt cb s = (case cb of None \<Rightarrow> s | Some u \<Rightarrow> emit (Call_user u) s)"

subsection \<open>Items\<close>

definition item_list_get :: "game_item list option \<Rightarrow> cptr \<Rightarrow> game_item option crash" where
  "item_list_get l name =
     (case (l, name) of
        (Some is, Some n) \<Rightarrow> find_crash (\<lambda>i. strcmp_eq (it_name i) (Some n)) is
      | _ \<Rightarrow> Some None)"

definition item_list_get_by_id :: "game_item list option \<Rightarrow> u32 \<Rightarrow> game_item option" where
  "item_list_get_by_id l i = (case l of None \<Rightarrow> None | Some is \<Rightarrow> find (\<lambda>x. it_id x = i) is)"

text \<open>The fields of an owned item; \<open>locked\<close> stays 0.\<close>

definition read_item :: "cstring \<Rightarrow> game_item" where
  "read_item item =
     \<lparr>it_id = sync_uint item ''id'', it_name = attr item ''name'', it_locked = 0, it_equipped = attr_int item ''equipped'',
      it_slot = attr_int item ''slot'', it_config = attr item ''config'', it_attached_to = sync_char item ''attached_to'',
      it_is_default = sync_char item ''default'', it_permanent = sync_char item ''permanent'',
      it_expired_confirmed = sync_char item ''expired_confirmed'', it_buy_time_utc = sync_uint item ''buy_time_utc'',
      it_expiration_time_utc = sync_uint item ''expiration_time_utc'', it_seconds_left = sync_uint item ''seconds_left'',
      it_quantity = sync_uint item ''quantity''\<rparr>"

definition item_elem :: "cstring \<Rightarrow> game_item list \<Rightarrow> game_item list crash" where
  "item_elem m items = do { item \<leftarrow> deref (get_info m ''<item'' ''/>''); Some (read_item item # items) }"

text \<open>On joining a channel, items without a name (the variables) are skipped.\<close>

definition named_item_elem :: "cstring \<Rightarrow> game_item list \<Rightarrow> game_item list crash" where
  "named_item_elem m items =
     do {
       item \<leftarrow> deref (get_info m ''<item'' ''/>'');
       Some (case attr item ''name'' of None \<Rightarrow> items | Some _ \<Rightarrow> read_item item # items)
     }"

definition unlocked_elem :: "game_item list option \<Rightarrow> cstring \<Rightarrow> int \<Rightarrow> int crash" where
  "unlocked_elem known m n =
     do {
       uitem \<leftarrow> deref (get_info m ''<unlocked_item'' ''/>'');
       Some (case item_list_get_by_id known (sync_uint uitem ''id'') of
               None \<Rightarrow> n
             | Some i \<Rightarrow> if it_locked i \<noteq> 0 then n + 1 else n)
     }"

definition update_unlocked :: "cstring \<Rightarrow> 'u session \<Rightarrow> 'u session crash" where
  "update_unlocked data s =
     do {
       n \<leftarrow> each_elem ''<unlocked_item'' (unlocked_elem (wf_items (wf s))) data 0;
       Some (if 0 < n then upd_profile (upd_stats (\<lambda>t. t\<lparr>st_items_unlocked := c_uint n\<rparr>)) s else s)
     }"

subsection \<open>Experience, banner, money\<close>

text \<open>Absent attributes read as 0 and leave the old value.\<close>

definition positive_or :: "u32 \<Rightarrow> u32 \<Rightarrow> u32" where
  "positive_or new old = (if 0 < new then new else old)"

definition update_character :: "cstring \<Rightarrow> profile_info \<Rightarrow> profile_info" where
  "update_character data p =
     upd_stats (\<lambda>t. t\<lparr>st_rating_points := positive_or (sync_uint data ''pvp_rating_rank'') (st_rating_points t)\<rparr>)
       (p\<lparr>pr_experience := positive_or (sync_uint data ''experience'') (pr_experience p),
          pr_banner_badge := positive_or (sync_uint data ''banner_badge'') (pr_banner_badge p),
          pr_banner_mark := positive_or (sync_uint data ''banner_mark'') (pr_banner_mark p),
          pr_banner_stripe := positive_or (sync_uint data ''banner_stripe'') (pr_banner_stripe p)\<rparr>)"

definition update_money :: "cstring \<Rightarrow> profile_info \<Rightarrow> profile_info" where
  "update_money data p =
     p\<lparr>pr_money_game := positive_or (sync_uint data ''game_money'') (pr_money_game p),
       pr_money_crown := positive_or (sync_uint data ''crown_money'') (pr_money_crown p),
       pr_money_cry := positive_or (sync_uint data ''cry_money'') (pr_money_cry p)\<rparr>"

subsection \<open>Asking for the profile again\<close>

definition xmpp_iq_resync_profile :: "'u option \<Rightarrow> 'u session \<Rightarrow> 'u session crash" where
  "xmpp_iq_resync_profile cb s =
     send_iq_get (JID_MS (ol_channel (online s)) s) (Some (CB_resync_profile cb)) (k01_query ''<resync_profile/>'') s"

definition xmpp_iq_resync_profile_cb :: "'u option \<Rightarrow> cptr \<Rightarrow> cptr \<Rightarrow> xmpp_msg_type \<Rightarrow> 'u session \<Rightarrow> 'u session crash" where
  "xmpp_iq_resync_profile_cb cb msg content type s =
     (if msg = None \<or> type = XMPP_TYPE_ERROR then Some s
      else do {
             s1 \<leftarrow> (case content of
                      None \<Rightarrow> Some s
                    | Some data \<Rightarrow>
                        do {
                          items \<leftarrow> each_elem ''<item'' item_elem data [];
                          let s1 = upd_profile (\<lambda>p. (update_money data (update_character data p))\<lparr>pr_items := Some items\<rparr>) s;
                          s2 \<leftarrow> status_update_class (sync_uint data ''current_class'') s1;
                          update_unlocked data s2
                        });
             Some (call_opt cb s1)
           })"

subsection \<open>Statistics\<close>

record stat_sums =
  ss_play_time :: int
  ss_missions_completed :: u32
  ss_sessions_left :: u32
  ss_sessions_count :: u32
  ss_pvp_wins :: u32
  ss_pvp_loses :: u32
  ss_pvp_kills :: u32
  ss_pvp_deaths :: u32
  ss_climbs :: "u32 option"
  ss_assists :: "u32 option"

definition stat_sums_0 :: stat_sums where
  "stat_sums_0 = \<lparr>ss_play_time = 0, ss_missions_completed = 0, ss_sessions_left = 0, ss_sessions_count = 0, ss_pvp_wins = 0,
     ss_pvp_loses = 0, ss_pvp_kills = 0, ss_pvp_deaths = 0, ss_climbs = None, ss_assists = None\<rparr>"

definition quoted :: "cstring \<Rightarrow> cstring" where
  "quoted name = apos # name @ [apos]"

text \<open>C division rounds towards 0; an overflow of the signed sum is undefined.  The two coop counters are
  stored directly into the session, the last one wins.\<close>

definition div10 :: "int \<Rightarrow> int" where
  "div10 v = (if v < 0 then - (- v div 10) else v div 10)"

definition stat_elem :: "cstring \<Rightarrow> stat_sums \<Rightarrow> stat_sums crash" where
  "stat_elem m t =
     do {
       stat \<leftarrow> deref (get_info m ''<stat '' ''/>'');
       let v = sync_long stat ''Value'';
       let w = c_uint v;
       let has = (\<lambda>name. strstr stat name \<noteq> None);
       (if has (quoted ''player_playtime'')
        then (let p = ss_play_time t + div10 v
              in if - (2 ^ 63) \<le> p \<and> p < 2 ^ 63 then Some (t\<lparr>ss_play_time := p\<rparr>) else None)
        else Some
          (if has (quoted ''player_sessions_won'')
           then (let t1 = (if has ''PVE'' then t\<lparr>ss_missions_completed := ss_missions_completed t + w\<rparr>
                           else if has ''PVP'' then t\<lparr>ss_pvp_wins := ss_pvp_wins t + w\<rparr> else t)
                 in t1\<lparr>ss_sessions_count := ss_sessions_count t + w\<rparr>)
           else if has (quoted ''player_sessions_left'')
           then t\<lparr>ss_sessions_left := ss_sessions_left t + w, ss_sessions_count := ss_sessions_count t + w\<rparr>
           else if has (quoted ''player_sessions_lost'')
           then (let t1 = (if has ''PVP'' then t\<lparr>ss_pvp_loses := ss_pvp_loses t + w\<rparr> else t)
                 in t1\<lparr>ss_sessions_count := ss_sessions_count t + w\<rparr>)
           else if has (quoted ''player_kills_player'')
           then (if has ''PVP'' then t\<lparr>ss_pvp_kills := ss_pvp_kills t + w\<rparr> else t)
           else if has (quoted ''player_deaths'')
           then (if has ''PVP'' then t\<lparr>ss_pvp_deaths := ss_pvp_deaths t + w\<rparr> else t)
           else if has (quoted ''player_climb_coops'') then t\<lparr>ss_climbs := Some w\<rparr>
           else if has (quoted ''player_climb_assists'') then t\<lparr>ss_assists := Some w\<rparr>
           else t))
     }"

definition store_sums :: "stat_sums \<Rightarrow> stats_info \<Rightarrow> stats_info" where
  "store_sums t st =
     st\<lparr>st_playtime_seconds := (if 0 < ss_play_time t then c_uint (ss_play_time t) else st_playtime_seconds st),
        st_missions_completed := positive_or (ss_missions_completed t) (st_missions_completed st),
        st_leavings := (if 0 < ss_sessions_count t then (ss_sessions_left t, ss_sessions_count t) else st_leavings st),
        st_pvp_wins := positive_or (ss_pvp_wins t) (st_pvp_wins st),
        st_pvp_loses := positive_or (ss_pvp_loses t) (st_pvp_loses st),
        st_pvp_kills := positive_or (ss_pvp_kills t) (st_pvp_kills st),
        st_pvp_deaths := positive_or (ss_pvp_deaths t) (st_pvp_deaths st),
        st_coop_climbs := (case ss_climbs t of None \<Rightarrow> st_coop_climbs st | Some v \<Rightarrow> v),
        st_coop_assists := (case ss_assists t of None \<Rightarrow> st_coop_assists st | Some v \<Rightarrow> v)\<rparr>"

definition xmpp_iq_get_player_stats :: "'u option \<Rightarrow> 'u session \<Rightarrow> 'u session crash" where
  "xmpp_iq_get_player_stats cb s =
     send_iq_get (JID_MS (ol_channel (online s)) s) (Some (CB_player_stats cb)) (k01_query ''<get_player_stats/>'') s"

definition xmpp_iq_get_player_stats_cb :: "'u option \<Rightarrow> cptr \<Rightarrow> xmpp_msg_type \<Rightarrow> 'u session \<Rightarrow> 'u session crash" where
  "xmpp_iq_get_player_stats_cb cb content type s =
     do {
       s1 \<leftarrow> (case (type, content) of
                (XMPP_TYPE_ERROR, _) \<Rightarrow> Some s
              | (_, None) \<Rightarrow> Some s
              | (_, Some data) \<Rightarrow>
                  do { t \<leftarrow> each_elem ''<stat '' stat_elem data stat_sums_0; Some (upd_profile (upd_stats (store_sums t)) s) });
       Some (call_opt cb s1)
     }"

definition chunk_elem :: "cstring \<Rightarrow> u32 \<Rightarrow> u32 crash" where
  "chunk_elem m n =
     do {
       chunk \<leftarrow> deref (get_info m ''<chunk '' ''/>'');
       Some (if 0 < sync_uint chunk ''completion_time'' then n + 1 else n)
     }"

definition xmpp_iq_get_achievements :: "cptr \<Rightarrow> 'u option \<Rightarrow> 'u session \<Rightarrow> 'u session crash" where
  "xmpp_iq_get_achievements profile_id cb s =
     send_iq_get (JID_MS (ol_channel (online s)) s) (Some (CB_achievements cb))
       (k01_query (''<get_achievements><achievement '' @ q ''profile_id'' (show_ptr profile_id) @ ''/></get_achievements>'')) s"

definition xmpp_iq_get_achievements_cb :: "'u option \<Rightarrow> cptr \<Rightarrow> xmpp_msg_type \<Rightarrow> 'u session \<Rightarrow> 'u session crash" where
  "xmpp_iq_get_achievements_cb cb content type s =
     do {
       s1 \<leftarrow> (case (type, content) of
                (XMPP_TYPE_ERROR, _) \<Rightarrow> Some s
              | (_, None) \<Rightarrow> Some s
              | (_, Some data) \<Rightarrow>
                  do {
                    n \<leftarrow> each_elem ''<chunk '' chunk_elem data 0;
                    Some (if 0 < n then upd_profile (upd_stats (\<lambda>t. t\<lparr>st_challenges_completed := n\<rparr>)) s else s)
                  });
       Some (call_opt cb s1)
     }"

text \<open>The multipliers are only printed.\<close>

definition xmpp_iq_get_reward_multipliers :: "'u option \<Rightarrow> 'u session \<Rightarrow> 'u session crash" where
  "xmpp_iq_get_reward_multipliers cb s =
     send_iq_get (JID_MS (ol_channel (online s)) s) (Some (CB_reward_multipliers cb)) (k01_query ''<get_reward_multipliers/>'') s"

definition xmpp_iq_get_reward_multipliers_cb :: "'u option \<Rightarrow> 'u session \<Rightarrow> 'u session" where
  "xmpp_iq_get_reward_multipliers_cb cb s = call_opt cb s"

end
