(* ===== verification/Rooms.thy ===== *)
theory Rooms
  imports Quickplay Profile
begin

text \<open>
  The life of the session in game rooms: the handlers of \<open>src/xmpp_wf\<close> that open, join, change,
  synchronise and leave a room, the offers and invitations that lead into one, and the decision to
  stay in a room or leave it when its match starts.

  As in \<open>Quickplay\<close>, a handler gets the message (None for a time-out) and the content that
  \<open>wf_get_query_content\<close> extracted from it; \<open>strtof\<close> is the float conversion.
\<close>

subsection \<open>Helpers\<close>

definition JOIN_MATCH_MAKING :: int where "JOIN_MATCH_MAKING = 1"
definition JOIN_INVITE :: int where "JOIN_INVITE = 2"
definition JOIN_FOLLOW :: int where "JOIN_FOLLOW = 3"

definition upd_gr :: "(groom_info \<Rightarrow> groom_info) \<Rightarrow> 'u session \<Rightarrow> 'u session" where
  "upd_gr f s = s\<lparr>groom := f (groom s)\<rparr>"

lemma upd_gr_simps [simp]:
  "groom (upd_gr f s) = f (groom s)" "trace (upd_gr f s) = trace s" "online (upd_gr f s) = online s"
  "quickplay (upd_gr f s) = quickplay s" "profile (upd_gr f s) = profile s" "rooms (upd_gr f s) = rooms s" "cvar (upd_gr f s) = cvar s" "wf (upd_gr f s) = wf s"
  "missions (upd_gr f s) = missions s" "now (upd_gr f s) = now s" "created_profile (upd_gr f s) = created_profile s"
  "own_jid (upd_gr f s) = own_jid s" "player_count (upd_gr f s) = player_count s" "last_query (upd_gr f s) = last_query s"
    "pending_invitations (upd_gr f s) = pending_invitations s"
  by (simp_all add: upd_gr_def)

subsection \<open>Requests\<close>

definition xmpp_iq_gameroom_setplayer :: "int \<Rightarrow> int \<Rightarrow> u32 \<Rightarrow> 'u option \<Rightarrow> 'u session \<Rightarrow> 'u session crash" where
  "xmpp_iq_gameroom_setplayer team_id room_status class_id cb s =
     (let s1 = upd_gr (\<lambda>g. g\<lparr>gi_desired_status := room_status\<rparr>) s
      in send_iq_get (JID_MS (ol_channel (online s1)) s1) (Some (CB_gameroom_setplayer cb))
           (k01_query ('' <gameroom_setplayer '' @ q ''team_id'' (int_dec team_id) @ '' '' @ q ''status'' (int_dec room_status)
             @ '' '' @ q ''class_id'' (fmt_d class_id) @ ''/>'')) s1)"

definition xmpp_iq_gameroom_leave :: "'u session \<Rightarrow> 'u session crash" where
  "xmpp_iq_gameroom_leave s =
     (if gi_leaving (groom s) \<or> gi_jid (groom s) = None then Some s
      else (let s1 = upd_gr (\<lambda>g. g\<lparr>gi_leaving := True\<rparr>) s
            in send_iq_get (JID_MS (ol_channel (online s1)) s1) (Some CB_gameroom_leave) (k01_query '' <gameroom_leave/>'') s1))"

definition xmpp_iq_gameroom_askserver :: "'u option \<Rightarrow> 'u session \<Rightarrow> 'u session crash" where
  "xmpp_iq_gameroom_askserver cb s =
     send_iq_get (JID_MS (ol_channel (online s)) s) (Some (CB_gameroom_askserver cb)) (k01_query '' <gameroom_askserver/>'') s"

definition xmpp_iq_gameroom_promote_to_host :: "cptr \<Rightarrow> 'u option \<Rightarrow> 'u session \<Rightarrow> 'u session crash" where
  "xmpp_iq_gameroom_promote_to_host profile_id cb s =
     (case profile_id of
        None \<Rightarrow> Some s
      | Some pid \<Rightarrow>
          send_iq_get (JID_MS (ol_channel (online s)) s) (Some (CB_gameroom_promote_to_host cb))
            (k01_query ('' <gameroom_promote_to_host '' @ q ''new_host_profile_id'' pid @ ''/>'')) s)"

definition xmpp_iq_gameroom_setinfo :: "cptr \<Rightarrow> 'u option \<Rightarrow> 'u session \<Rightarrow> 'u session crash" where
  "xmpp_iq_gameroom_setinfo mission_key cb s =
     (case mission_key of
        None \<Rightarrow> Some s
      | Some mk \<Rightarrow>
          send_iq_get (JID_MS (ol_channel (online s)) s) (Some (CB_gameroom_setinfo cb))
            (k01_query ('' <gameroom_setinfo '' @ q ''by_mission_key'' ''1'' @ '' '' @ q ''mission_key'' mk @ ''/>'')) s)"

definition xmpp_iq_gameroom_setname :: "(nat \<Rightarrow> char) \<Rightarrow> cptr \<Rightarrow> 'u option \<Rightarrow> 'u session \<Rightarrow> 'u session crash" where
  "xmpp_iq_gameroom_setname junk room_name cb s =
     (case room_name of
        None \<Rightarrow> Some s
      | Some rn \<Rightarrow>
          do {
            serialized \<leftarrow> xml_serialize junk rn;
            send_iq_get (JID_MS (ol_channel (online s)) s) (Some (CB_gameroom_setname cb))
              (k01_query ('' <gameroom_setname '' @ q ''room_name'' serialized @ ''/>'')) s
          })"

definition gameroom_join_request :: "cstring \<Rightarrow> cptr \<Rightarrow> int \<Rightarrow> 'u session \<Rightarrow> 'u session crash" where
  "gameroom_join_request room_id group_id reason s =
     send_iq_get (JID_MS (ol_channel (online s)) s) (Some (CB_gameroom_join room_id group_id reason))
       (k01_query ('' <gameroom_join '' @ q ''room_id'' room_id @ '' '' @ q ''team_id'' ''0''
         @ ''    '' @ q ''group_id'' (NULL_CHECK group_id)
         @ ''    '' @ q ''status'' (fmt_d GAMEROOM_UNREADY) @ '' '' @ q ''class_id'' (fmt_d (pr_curr_class (profile s)))
         @ '' '' @ q ''join_reason'' (int_dec reason)
         @ ''    '' @ q ''wait_time_to_join'' ''0'' @ ''/>'')) s"

definition xmpp_iq_gameroom_join :: "cptr \<Rightarrow> cptr \<Rightarrow> cptr \<Rightarrow> int \<Rightarrow> 'u session \<Rightarrow> 'u session crash" where
  "xmpp_iq_gameroom_join channel room_id group_id reason s =
     (case (room_id, channel) of
        (Some rid, Some ch) \<Rightarrow>
          do {
            same \<leftarrow> strcmp_eq (ol_channel (online s)) (Some ch);
            if same then gameroom_join_request rid group_id reason s
            else xmpp_iq_join_channel (Some ch) (Some (Cont_gameroom_join rid group_id reason)) s
          }
      | _ \<Rightarrow> Some s)"

definition xmpp_iq_gameroom_open ::
  "(cptr \<Rightarrow> cstring) \<Rightarrow> (nat \<Rightarrow> char) \<Rightarrow> cptr \<Rightarrow> u32 \<Rightarrow> int \<Rightarrow> 'u option \<Rightarrow> 'u session \<Rightarrow> 'u session crash" where
  "xmpp_iq_gameroom_open room_title junk mission_key type tries fun s =
     do {
       let a = \<lparr>oa_fun = fun, oa_mission_key = mission_key, oa_mission_name = None, oa_type = type, oa_tries = tries\<rparr>;
       room_name \<leftarrow> xml_serialize_inplace junk (room_title (pr_nickname (profile s)));
       send_iq_get (JID_MS (ol_channel (online s)) s) (Some (CB_gameroom_open a))
         (k01_query ('' <gameroom_open     '' @ q ''room_name'' room_name @ '' '' @ q ''team_id'' ''0'' @ '' '' @ q ''status'' (fmt_d GAMEROOM_UNREADY)
           @ ''     '' @ q ''class_id'' (fmt_d (pr_curr_class (profile s))) @ '' '' @ q ''room_type'' (fmt_d type) @ '' '' @ q ''private'' ''0''
           @ ''     '' @ q ''mission'' (show_ptr mission_key) @ '' '' @ q ''inventory_slot'' ''0''
           @ ''     '' @ q ''high_latency_autokick'' ''0'' @ '' '' @ q ''locked_spectator_camera'' ''0'' @ ''> </gameroom_open>'')) s
     }"

subsection \<open>Synchronising the room\<close>

text \<open>A new session has started, or the session is over.\<close>

definition sync_session_part :: "gameroom \<Rightarrow> 'u session \<Rightarrow> 'u session crash" where
  "sync_session_part sync s =
     (if se_status (gm_session sync) = 2
      then do {
             s1 \<leftarrow> (if gi_joined (groom s) then Some s
                    else do {
                           s' \<leftarrow> send_iq_get (JID_MS (ol_channel (online s)) s) None
                                  (k01_query ('' <setcurrentclass '' @ q ''current_class'' (fmt_d (pr_curr_class (profile s))) @ ''/>'')) s;
                           send_iq_get (JID_MS (ol_channel (online s')) s') (Some CB_session_join) (k01_query '' <session_join/>'') s'
                         });
             Some (upd_gr (\<lambda>g. g\<lparr>gi_joined := True\<rparr>) s1)
           }
      else if gi_joined (groom s)
      then Some (upd_gr (\<lambda>g. g\<lparr>gi_joined := False, gi_desired_status := sint GAMEROOM_READY\<rparr>) s)
      else Some s)"

text \<open>The new master is looked up for display only, but in a list that may be gone.\<close>

definition sync_master_part :: "gameroom \<Rightarrow> 'u session \<Rightarrow> 'u session crash" where
  "sync_master_part sync s =
     (let master = rm_master (gm_room_master sync);
          old_master = rm_master (gm_room_master (gi_sync (groom s)))
      in if master \<noteq> None \<and> old_master \<noteq> master
         then do {
                players \<leftarrow> deref (co_players (gm_core (gi_sync (groom s))));
                p \<leftarrow> find_crash (\<lambda>p. strcmp_eq (pl_profile_id p) master) players;
                Some s
              }
         else Some s)"

text \<open>The own player, the automatic change to ready, and the player counts for display.\<close>

definition sync_player_part :: "gameroom \<Rightarrow> 'u session \<Rightarrow> 'u session crash" where
  "sync_player_part sync s =
     do {
       players \<leftarrow> deref (co_players (gm_core sync));
       found \<leftarrow> find_crash (\<lambda>p. strcmp_eq (pl_profile_id p) (pr_id (profile s))) players;
       s1 \<leftarrow> (case found of
                None \<Rightarrow> Some s
              | Some p \<Rightarrow> status_update_class (pl_class_id p)
                            (upd_gr (\<lambda>g. g\<lparr>gi_curr_team := sint (pl_team_id p), gi_curr_status := sint (pl_status p)\<rparr>) s));
       s2 \<leftarrow> (if revision (gm_auto_start sync) = 0 \<and> \<not> gi_leaving (groom s1) \<and> \<not> wb_safemaster (cvar s1)
                  \<and> gi_curr_status (groom s1) \<noteq> gi_desired_status (groom s1)
                  \<and> gi_curr_status (groom s1) \<noteq> sint GAMEROOM_RESTRICTED
              then xmpp_iq_gameroom_setplayer (gi_curr_team (groom s1)) (gi_desired_status (groom s1)) (pr_curr_class (profile s1)) None s1
              else Some s1);
       old_players \<leftarrow> deref (co_players (gm_core (gi_sync (groom s2))));
       Some s2
     }"

definition gameroom_sync :: "(cstring \<Rightarrow> u32) \<Rightarrow> cstring \<Rightarrow> 'u session \<Rightarrow> 'u session crash" where
  "gameroom_sync strtof data s =
     do {
       (sync, ret) \<leftarrow> gameroom_parse strtof False gameroom_init data;
       s1 \<leftarrow> (if changed ret GR_SYNC_SESSION then sync_session_part sync s else Some s);
       s2 \<leftarrow> (if changed ret GR_SYNC_ROOM_MASTER then sync_master_part sync s1 else Some s1);
       s3 \<leftarrow> (if changed ret (GR_SYNC_CORE OR GR_SYNC_CUSTOM_PARAMS) then sync_player_part sync s2 else Some s2);
       Some (upd_gr (\<lambda>g. g\<lparr>gi_sync := gameroom_update (gi_sync g) sync ret\<rparr>) s3)
     }"

definition gameroom_sync_init :: "'u session \<Rightarrow> 'u session" where
  "gameroom_sync_init = upd_gr (\<lambda>g. g\<lparr>gi_sync := gameroom_init\<rparr>)"

definition gameroom_sync_free :: "'u session \<Rightarrow> 'u session" where
  "gameroom_sync_free = upd_gr (\<lambda>g. g\<lparr>gi_sync := gameroom_free (gi_sync g)\<rparr>)"

text \<open>A synchronisation outside of a room is dropped.\<close>

definition xmpp_iq_gameroom_sync_cb :: "(cstring \<Rightarrow> u32) \<Rightarrow> cptr \<Rightarrow> 'u session \<Rightarrow> 'u session crash" where
  "xmpp_iq_gameroom_sync_cb strtof content s =
     (if gi_jid (groom s) = None then Some s
      else (case content of None \<Rightarrow> Some s | Some data \<Rightarrow> gameroom_sync strtof data s))"

definition xmpp_iq_session_join_cb :: "cptr \<Rightarrow> cptr \<Rightarrow> 'u session \<Rightarrow> 'u session crash" where
  "xmpp_iq_session_join_cb msg content s =
     (case (msg, content) of
        (Some m, Some data) \<Rightarrow>
          if attr data ''session_id'' = None then Some s
          else if now s < gi_leave_timeout (groom s) \<or> \<not> wb_leave_on_start (cvar s) \<or> wb_safemaster (cvar s)
          then do {
                 s1 \<leftarrow> (if revision (gm_auto_start (gi_sync (groom s))) \<noteq> 0
                        then xmpp_iq_gameroom_setplayer (gi_curr_team (groom s)) (sint GAMEROOM_UNREADY) (pr_curr_class (profile s)) None s
                        else Some s);
                 status_set (STATUS_ONLINE OR STATUS_PLAYING) s1
               }
          else xmpp_iq_gameroom_leave s
      | _ \<Rightarrow> Some s)"

subsection \<open>Answers that carry a synchronisation\<close>

definition xmpp_iq_gameroom_setplayer_cb ::
  "(cstring \<Rightarrow> u32) \<Rightarrow> 'u option \<Rightarrow> cptr \<Rightarrow> xmpp_msg_type \<Rightarrow> 'u session \<Rightarrow> 'u session crash" where
  "xmpp_iq_gameroom_setplayer_cb strtof cb content type s =
     (if type = XMPP_TYPE_ERROR then Some s
      else (case content of
              None \<Rightarrow> Some s
            | Some data \<Rightarrow>
                do {
                  s1 \<leftarrow> gameroom_sync strtof data (upd_gr (\<lambda>g. g\<lparr>gi_joined := False\<rparr>) s);
                  Some (call_opt cb s1)
                }))"

text \<open>\<open>gameroom_setname\<close> and \<open>gameroom_promote_to_host\<close> have the same callback.\<close>

definition xmpp_iq_gameroom_setname_cb ::
  "(cstring \<Rightarrow> u32) \<Rightarrow> 'u option \<Rightarrow> cptr \<Rightarrow> xmpp_msg_type \<Rightarrow> 'u session \<Rightarrow> 'u session crash" where
  "xmpp_iq_gameroom_setname_cb strtof cb content type s =
     (if type = XMPP_TYPE_ERROR then Some s
      else (case content of
              None \<Rightarrow> Some s
            | Some data \<Rightarrow> do { s1 \<leftarrow> gameroom_sync strtof data s; Some (call_opt cb s1) }))"

definition xmpp_iq_gameroom_promote_to_host_cb ::
  "(cstring \<Rightarrow> u32) \<Rightarrow> 'u option \<Rightarrow> cptr \<Rightarrow> xmpp_msg_type \<Rightarrow> 'u session \<Rightarrow> 'u session crash" where
  "xmpp_iq_gameroom_promote_to_host_cb strtof cb content type s =
     (if type = XMPP_TYPE_ERROR then Some s
      else (case content of
              None \<Rightarrow> Some s
            | Some data \<Rightarrow> do { s1 \<leftarrow> gameroom_sync strtof data s; Some (call_opt cb s1) }))"

text \<open>These scan the message of an error for its code, also when there is none.\<close>

definition xmpp_iq_gameroom_setinfo_cb ::
  "(cstring \<Rightarrow> u32) \<Rightarrow> 'u option \<Rightarrow> cptr \<Rightarrow> cptr \<Rightarrow> xmpp_msg_type \<Rightarrow> 'u session \<Rightarrow> 'u session crash" where
  "xmpp_iq_gameroom_setinfo_cb strtof cb msg content type s =
     (if type = XMPP_TYPE_ERROR then do { m \<leftarrow> deref msg; Some s }
      else (case content of
              None \<Rightarrow> Some s
            | Some data \<Rightarrow>
                do {
                  s1 \<leftarrow> gameroom_sync strtof data s;
                  s2 \<leftarrow> status_set (ol_status (online s1)) s1;
                  Some (call_opt cb s2)
                }))"

definition xmpp_iq_gameroom_update_pvp_cb ::
  "(cstring \<Rightarrow> u32) \<Rightarrow> 'u option \<Rightarrow> cptr \<Rightarrow> cptr \<Rightarrow> xmpp_msg_type \<Rightarrow> 'u session \<Rightarrow> 'u session crash" where
  "xmpp_iq_gameroom_update_pvp_cb strtof cb msg content type s =
     (if type = XMPP_TYPE_ERROR then do { m \<leftarrow> deref msg; Some s }
      else (case content of
              None \<Rightarrow> Some s
            | Some data \<Rightarrow>
                do {
                  s1 \<leftarrow> gameroom_sync strtof data s;
                  s2 \<leftarrow> status_set (ol_status (online s1)) s1;
                  Some (call_opt cb s2)
                }))"

definition xmpp_iq_gameroom_askserver_cb ::
  "'u option \<Rightarrow> cptr \<Rightarrow> cptr \<Rightarrow> xmpp_msg_type \<Rightarrow> 'u session \<Rightarrow> 'u session crash" where
  "xmpp_iq_gameroom_askserver_cb cb msg content type s =
     (if type = XMPP_TYPE_ERROR then do { m \<leftarrow> deref msg; Some s }
      else Some (case content of None \<Rightarrow> s | Some data \<Rightarrow> call_opt cb s))"

subsection \<open>Entering and leaving\<close>

definition leave_previous_room :: "'u session \<Rightarrow> 'u session crash" where
  "leave_previous_room s =
     do {
       s1 \<leftarrow> (if gi_jid (groom s) = None then Some s
              else do {
                     s' \<leftarrow> xmpp_presence (gi_jid (groom s)) XMPP_PRESENCE_LEAVE s;
                     Some (gameroom_sync_free (upd_gr (\<lambda>g. g\<lparr>gi_group_id := None, gi_jid := None\<rparr>) s'))
                   });
       (if ol_global_chat (online s1) = None then Some s1
        else xmpp_presence (ol_global_chat (online s1)) XMPP_PRESENCE_LEAVE s1)
     }"

text \<open>\<open>room.<channel>.<id>@<muc>\<close>.\<close>

definition room_jid :: "cstring \<Rightarrow> 'u session \<Rightarrow> cstring" where
  "room_jid rid s = ''room.'' @ show_ptr (ol_channel (online s)) @ ''.'' @ rid @ ''@'' @ show_ptr (ol_jid_muc (online s))"

text \<open>Joining the chat room of the game room, and a fresh synchronisation state.\<close>

definition enter_room :: "(cstring \<Rightarrow> u32) \<Rightarrow> cstring \<Rightarrow> cptr \<Rightarrow> cstring \<Rightarrow> 'u session \<Rightarrow> 'u session crash" where
  "enter_room strtof rid group_id data s =
     do {
       let jid = room_jid rid s;
       s1 \<leftarrow> xmpp_presence (Some jid) XMPP_PRESENCE_JOIN s;
       let s2 = upd_gr (\<lambda>g. g\<lparr>gi_jid := Some jid,
                   gi_group_id := (case group_id of None \<Rightarrow> gi_group_id g | Some _ \<Rightarrow> group_id),
                   gi_desired_status := sint GAMEROOM_READY\<rparr>) s1;
       s3 \<leftarrow> gameroom_sync strtof data (gameroom_sync_init s2);
       status_set (STATUS_ONLINE OR STATUS_ROOM) s3
     }"

definition xmpp_iq_gameroom_join_cb ::
  "(cstring \<Rightarrow> u32) \<Rightarrow> cstring \<Rightarrow> cptr \<Rightarrow> cptr \<Rightarrow> xmpp_msg_type \<Rightarrow> 'u session \<Rightarrow> 'u session crash" where
  "xmpp_iq_gameroom_join_cb strtof room_id group_id content type s =
     (if type = XMPP_TYPE_ERROR then Some s
      else (case content of
              None \<Rightarrow> Some s
            | Some data \<Rightarrow>
                do {
                  s1 \<leftarrow> leave_previous_room s;
                  s2 \<leftarrow> enter_room strtof room_id group_id data (quickplay_free s1);
                  Some (upd_gr (\<lambda>g. g\<lparr>gi_leave_timeout := now s2\<rparr>) s2)
                }))"

definition xmpp_iq_gameroom_open_cb ::
  "(cstring \<Rightarrow> u32) \<Rightarrow> 'u open_args \<Rightarrow> cptr \<Rightarrow> cptr \<Rightarrow> xmpp_msg_type \<Rightarrow> 'u session \<Rightarrow> 'u session crash" where
  "xmpp_iq_gameroom_open_cb strtof a msg content type s =
     (if type = XMPP_TYPE_ERROR
      then do {
             m \<leftarrow> deref msg;
             let code = attr_int m ''code'';
             let custom_code = attr_int m ''custom_code'';
             let a1 = a\<lparr>oa_tries := oa_tries a + 1\<rparr>;
             (if code = 8 \<and> (custom_code = 0 \<or> custom_code = 1) \<and> oa_tries a1 < 2
              then do {
                     found \<leftarrow> mission_list_get_by_key s (oa_mission_key a1);
                     (case found of
                        None \<Rightarrow> Some s
                      | Some mi \<Rightarrow>
                          do {
                            name \<leftarrow> deref (ms_name mi);
                            mission_list_update (Some (Cont_gameroom_open (a1\<lparr>oa_mission_name := Some name\<rparr>))) s
                          })
                   }
              else Some s)
           }
      else (case content of
              None \<Rightarrow> Some s
            | Some data \<Rightarrow>
                do {
                  s1 \<leftarrow> leave_previous_room s;
                  let room = attr data ''room_id'';
                  s2 \<leftarrow> (case room of None \<Rightarrow> Some s1 | Some rid \<Rightarrow> enter_room strtof rid None data s1);
                  Some (case oa_fun a of None \<Rightarrow> s2 | Some u \<Rightarrow> emit (Call_opened u room) s2)
                }))"

definition open_updated_list ::
  "(cptr \<Rightarrow> cstring) \<Rightarrow> (nat \<Rightarrow> char) \<Rightarrow> 'u open_args \<Rightarrow> 'u session \<Rightarrow> 'u session crash" where
  "open_updated_list room_title junk a s =
     do {
       m \<leftarrow> mission_list_get s (oa_mission_name a);
       (case m of
          None \<Rightarrow> Some s
        | Some mi \<Rightarrow> xmpp_iq_gameroom_open room_title junk (ms_mission_key mi) (oa_type a) (oa_tries a) (oa_fun a) s)
     }"

text \<open>What leaving, being kicked and an expired room have in common.\<close>

definition back_to_lobby :: "'u session \<Rightarrow> 'u session crash" where
  "back_to_lobby s =
     do {
       s1 \<leftarrow> xmpp_presence (gi_jid (groom s)) XMPP_PRESENCE_LEAVE s;
       let s2 = upd_gr (\<lambda>g. g\<lparr>gi_group_id := None, gi_jid := None\<rparr>) s1;
       s3 \<leftarrow> (if ol_global_chat (online s2) = None then Some s2
              else xmpp_presence (ol_global_chat (online s2)) XMPP_PRESENCE_JOIN s2);
       Some (gameroom_sync_free s3)
     }"

text \<open>A running \<open>safemaster\<close> is ended by calling the handlers of \<open>presence\<close> without a message.\<close>

definition xmpp_iq_gameroom_leave_cb :: "xmpp_msg_type \<Rightarrow> 'u session \<Rightarrow> 'u session crash" where
  "xmpp_iq_gameroom_leave_cb type s =
     (let s1 = upd_gr (\<lambda>g. g\<lparr>gi_leaving := False, gi_leave_timeout := now s\<rparr>) s in
      if type = XMPP_TYPE_ERROR then Some s1
      else do {
             let s2 = (if wb_safemaster (cvar s1)
                       then emit (Handle_query ''presence'') (s1\<lparr>cvar := (cvar s1)\<lparr>wb_safemaster := False\<rparr>\<rparr>) else s1);
             s3 \<leftarrow> back_to_lobby s2;
             status_set (STATUS_ONLINE OR STATUS_LOBBY) s3
           })"

definition xmpp_iq_gameroom_on_kicked_cb :: "cstring \<Rightarrow> cptr \<Rightarrow> 'u session \<Rightarrow> 'u session crash" where
  "xmpp_iq_gameroom_on_kicked_cb msg content s =
     (if strstr msg (''from='' @ [apos] @ ''masterserver@warface'') = None then Some s
      else (case content of
              None \<Rightarrow> Some s
            | Some data \<Rightarrow>
                do {
                  s1 \<leftarrow> status_set (STATUS_ONLINE OR STATUS_LOBBY) s;
                  s2 \<leftarrow> back_to_lobby s1;
                  Some (quickplay_free s2)
                }))"

definition xmpp_iq_gameroom_on_expired_cb :: "cstring \<Rightarrow> cptr \<Rightarrow> 'u session \<Rightarrow> 'u session crash" where
  "xmpp_iq_gameroom_on_expired_cb msg content s =
     (if strstr msg (''from='' @ [apos] @ ''masterserver@warface'') = None then Some s
      else (case content of
              None \<Rightarrow> Some s
            | Some data \<Rightarrow>
                do {
                  s0 \<leftarrow> mission_list_update None s;
                  s1 \<leftarrow> status_set (STATUS_ONLINE OR STATUS_LOBBY) s0;
                  s2 \<leftarrow> back_to_lobby s1;
                  Some (quickplay_free s2)
                }))"

subsection \<open>Offers and invitations\<close>

definition xmpp_iq_gameroom_offer_cb :: "cptr \<Rightarrow> 'u session \<Rightarrow> 'u session crash" where
  "xmpp_iq_gameroom_offer_cb content s =
     (case content of
        None \<Rightarrow> Some s
      | Some data \<Rightarrow>
          do {
            let resource = attr data ''ms_resource'';
            let room_id = attr data ''room_id'';
            let offer_id = attr data '' id'';
            let token = attr data ''token'';
            let result = (qp_uid (quickplay s) \<noteq> None \<or> token = Some []);
            let refused = (case get_info data ''<session '' ''/>'' of
                             None \<Rightarrow> False
                           | Some node \<Rightarrow>
                               (let started = (2 \<le> attr_int node ''status'')
                                in \<not> started \<and> \<not> wb_qp_search_non_started (cvar s) \<or> started \<and> \<not> wb_qp_search_started (cvar s)));
            let result' = (result \<and> \<not> refused);
            let s1 = (if refused then upd_qp (\<lambda>x. x\<lparr>qp_try_again := 1\<rparr>) s else s);
            s2 \<leftarrow> send_iq_get (JID_MS resource s1) None
                   (k01_query ('' <gameroom_offer_response '' @ q ''id'' (show_ptr offer_id)
                     @ '' '' @ q ''result'' (if result' then ''1'' else ''0'') @ ''/>'')) s1;
            if result' then xmpp_iq_gameroom_join resource room_id token JOIN_MATCH_MAKING s2 else Some s2
          })"

definition xmpp_iq_preinvite_invite_handler :: "cptr \<Rightarrow> cstring \<Rightarrow> cptr \<Rightarrow> 'u session \<Rightarrow> 'u session crash" where
  "xmpp_iq_preinvite_invite_handler msg_id msg content s =
     (case content of
        None \<Rightarrow> Some s
      | Some data \<Rightarrow>
          (case (attr msg ''from'', attr data ''uid'', attr data ''ms_resource'', attr data ''channel_type'', attr data ''mission_id'') of
             (Some jid, Some uid, Some ms_resource, Some channel_type, Some mission_id) \<Rightarrow>
               (let accepted = (\<not> wb_safemaster (cvar s) \<and> wb_accept_room_invitations (cvar s)
                      \<and> qp_pre_uid (quickplay s) = None \<and> qp_uid (quickplay s) = None);
                    sender = attr data ''from''
                in if wb_postpone_room_invitations (cvar s) then Some s
                   else do {
                     s1 \<leftarrow> (if accepted
                            then xmpp_iq_gameroom_leave (upd_qp (\<lambda>x. x\<lparr>qp_pre_uid := Some uid, qp_master := Some jid\<rparr>) s)
                            else Some s);
                     s2 \<leftarrow> send_iq_result (JID (Some jid)) msg_id
                            (k01_query ('' <preinvite_invite '' @ q ''uid'' uid @ '' '' @ q ''accepted'' (if accepted then ''1'' else ''0'')
                              @ '' '' @ q ''from'' (show_ptr sender)
                              @ ''    '' @ q ''mission_id'' mission_id @ '' '' @ q ''channel_type'' channel_type
                              @ '' '' @ q ''ms_resource'' ms_resource @ ''/>'')) s1;
                     send_iq_get (JID (Some jid)) None
                       (k01_query ('' <preinvite_response '' @ q ''uid'' uid @ '' '' @ q ''status'' (if accepted then ''1'' else ''0'')
                         @ ''    '' @ q ''pid'' (show_ptr (pr_id (profile s2))) @ '' '' @ q ''invitee'' (show_ptr (pr_nickname (profile s2)))
                         @ ''/>'')) s2
                   })
           | _ \<Rightarrow> Some s))"

definition xmpp_iq_gameroom_loosemaster_cb :: "bool \<Rightarrow> 'u session \<Rightarrow> 'u session crash" where
  "xmpp_iq_gameroom_loosemaster_cb auto_start s =
     (if auto_start then xmpp_iq_gameroom_askserver None s else Some s)"

end
