(* ===== verification/Invitations.thy ===== *)
theory Invitations
  imports Rooms
begin

text \<open>
  Invitations into game rooms: the list of the invitations and follow requests that this client sent
  and that wait for their outcome (\<open>xmpp_iq_invitation_result.c\<close>), the requests that fill it
  (\<open>xmpp_iq_invitation_send.c\<close>, \<open>xmpp_iq_follow_send.c\<close>), and the invitations received.

  An entry is found by nickname; a follow request is also found by its flag, and by the own nickname
  (the server's answers to it name the follower).
\<close>

definition INVIT_ACCEPTED :: int where "INVIT_ACCEPTED = 0"
definition INVIT_PENDING :: int where "INVIT_PENDING = 3"
definition INVIT_USER_OFFLINE :: int where "INVIT_USER_OFFLINE = 5"
definition INVIT_EXPIRED :: int where "INVIT_EXPIRED = 9"

subsection \<open>Pending invitations\<close>

definition invitation_cmp_follow :: "'u invitation \<Rightarrow> bool" where
  "invitation_cmp_follow i \<longleftrightarrow> iv_is_follow i = 1"

definition invitation_cmp :: "cptr \<Rightarrow> cptr \<Rightarrow> 'u invitation \<Rightarrow> bool crash" where
  "invitation_cmp own nickname i =
     do {
       self \<leftarrow> (if iv_is_follow i = 1 then strcmp_eq nickname own else Some False);
       if self then Some True else strcmp_eq (Some (iv_nickname i)) nickname
     }"

definition own_nickname :: "'u session \<Rightarrow> cptr" where
  "own_nickname s = pr_nickname (profile s)"

text \<open>The entry that a lookup finds, for an invitation or a follow request.\<close>

definition invitation_find :: "'u session \<Rightarrow> cptr \<Rightarrow> bool \<Rightarrow> 'u invitation list \<Rightarrow> 'u invitation option crash" where
  "invitation_find s nickname is_follow l =
     (if is_follow then Some (find invitation_cmp_follow l)
      else find_crash (invitation_cmp (own_nickname s) nickname) l)"

text \<open>\<open>is_follow\<close> is a \<open>char\<close>.\<close>

definition invitation_register :: "cptr \<Rightarrow> int \<Rightarrow> 'u option \<Rightarrow> 'u session \<Rightarrow> 'u session crash" where
  "invitation_register nickname is_follow cb s =
     (case nickname of
        None \<Rightarrow> Some s
      | Some n \<Rightarrow>
          do {
            let l = (case pending_invitations s of None \<Rightarrow> [] | Some l \<Rightarrow> l);
            old \<leftarrow> invitation_find s nickname (is_follow \<noteq> 0) l;
            Some (s\<lparr>pending_invitations := Some (case old of
                      Some _ \<Rightarrow> l
                    | None \<Rightarrow> \<lparr>iv_nickname = n, iv_is_follow = is_follow, iv_cb = cb\<rparr> # l)\<rparr>)
          })"

definition call_invitation :: "'u option \<Rightarrow> cptr \<Rightarrow> int \<Rightarrow> 'u session \<Rightarrow> 'u session" where
  "call_invitation cb channel r s = (case cb of None \<Rightarrow> s | Some u \<Rightarrow> emit (Call_invitation u channel r) s)"

lemma call_invitation_simps [simp]:
  "groom (call_invitation cb ch r s) = groom s" "quickplay (call_invitation cb ch r s) = quickplay s"
  "profile (call_invitation cb ch r s) = profile s" "pending_invitations (call_invitation cb ch r s) = pending_invitations s"
  "call_invitation None ch r s = s" "call_invitation (Some u) ch r s = emit (Call_invitation u ch r) s"
  by (simp_all add: call_invitation_def split: option.split)

text \<open>Freeing an entry whose callback is still set tells it that the invitation expired.\<close>

definition invitation_free :: "'u invitation \<Rightarrow> 'u session \<Rightarrow> 'u session" where
  "invitation_free i s = call_invitation (iv_cb i) None INVIT_EXPIRED s"

definition clear_cb :: "'u invitation \<Rightarrow> 'u invitation" where
  "clear_cb i = i\<lparr>iv_cb := None\<rparr>"

definition invitation_complete :: "cptr \<Rightarrow> cptr \<Rightarrow> int \<Rightarrow> bool \<Rightarrow> 'u session \<Rightarrow> ('u session \<times> bool) crash" where
  "invitation_complete nickname channel r is_follow s =
     (case pending_invitations s of
        None \<Rightarrow> Some (s, False)
      | Some l \<Rightarrow>
          do {
            i \<leftarrow> invitation_find s nickname is_follow l;
            (case i of
               None \<Rightarrow> Some (s, False)
             | Some entry \<Rightarrow>
                 do {
                   let s1 = call_invitation (iv_cb entry) channel r s;
                   l1 \<leftarrow> (if is_follow then Some (modify_first invitation_cmp_follow clear_cb l)
                          else modify_crash (invitation_cmp (own_nickname s1) nickname) clear_cb l);
                   removed \<leftarrow> find_crash (invitation_cmp (own_nickname s1) nickname) l1;
                   l2 \<leftarrow> remove_crash (invitation_cmp (own_nickname s1) nickname) l1;
                   let s2 = (case removed of None \<Rightarrow> s1 | Some x \<Rightarrow> invitation_free x s1);
                   Some (s2\<lparr>pending_invitations := Some l2\<rparr>, True)
                 })
          })"

subsection \<open>Messages and requests\<close>

definition xmpp_iq_invitation_result_cb :: "cstring \<Rightarrow> cptr \<Rightarrow> 'u session \<Rightarrow> 'u session crash" where
  "xmpp_iq_invitation_result_cb msg content s =
     (case content of
        None \<Rightarrow> Some s
      | Some data \<Rightarrow>
          map_option fst
            (invitation_complete (attr data ''user'')
               (get_info msg (''from='' @ [apos] @ ''masterserver@warface/'') [apos])
               (attr_int data ''result'') (attr_int data ''is_follow'' \<noteq> 0) s))"

definition xmpp_iq_invitation_send_cb :: "cptr \<Rightarrow> cptr \<Rightarrow> xmpp_msg_type \<Rightarrow> 'u session \<Rightarrow> 'u session crash" where
  "xmpp_iq_invitation_send_cb msg content type s =
     (case (msg, content) of
        (Some m, Some data) \<Rightarrow>
          if type = XMPP_TYPE_ERROR
          then (let custom_code = attr_int m ''custom_code''
                in map_option fst
                     (invitation_complete (attr data ''nickname'')
                        (get_info m (''from='' @ [apos] @ ''masterserver@warface/'') [apos])
                        (if custom_code \<noteq> 0 then custom_code else INVIT_PENDING) False s))
          else Some s
      | _ \<Rightarrow> Some s)"

text \<open>A NULL nickname crashes in \<open>xml_serialize\<close>.\<close>

definition xmpp_iq_invitation_send ::
  "(nat \<Rightarrow> char) \<Rightarrow> cstring \<Rightarrow> cptr \<Rightarrow> int \<Rightarrow> 'u option \<Rightarrow> 'u session \<Rightarrow> 'u session crash" where
  "xmpp_iq_invitation_send junk new_uuid nickname is_follow cb s =
     (if gi_jid (groom s) = None then Some s
      else do {
             n \<leftarrow> deref nickname;
             nick \<leftarrow> xml_serialize junk n;
             s1 \<leftarrow> invitation_register nickname 0 cb s;
             let s2 = upd_gr (\<lambda>g. g\<lparr>gi_group_id := (case gi_group_id g of None \<Rightarrow> Some new_uuid | Some x \<Rightarrow> Some x)\<rparr>) s1;
             send_iq_get (JID_MS (ol_channel (online s2)) s2) (Some CB_invitation_send)
               ('' '' @ ''<query xmlns='' @ [apos] @ k01_open @ ''  <invitation_send '' @ q ''nickname'' nick @ '' ''
                 @ q ''is_follow'' (int_dec is_follow)
                 @ ''                   '' @ q ''group_id'' (show_ptr (gi_group_id (groom s2))) @ ''/> </query>'') s2
           })"

definition xmpp_iq_follow_send :: "cptr \<Rightarrow> cptr \<Rightarrow> 'u option \<Rightarrow> 'u session \<Rightarrow> 'u session crash" where
  "xmpp_iq_follow_send nickname online_id cb s =
     (case (nickname, online_id) of
        (Some n, Some oid) \<Rightarrow>
          do {
            s1 \<leftarrow> invitation_register nickname 1 cb s;
            send_iq_get (JID online_id) (Some (CB_follow_send n))
              (k01_query ('' <follow_send '' @ q ''nickname'' (show_ptr (pr_nickname (profile s1))) @ '' ''
                @ q ''profile_id'' (show_ptr (pr_id (profile s1))) @ ''/>'')) s1
          }
      | _ \<Rightarrow> Some s)"

definition xmpp_iq_follow_send_cb :: "cstring \<Rightarrow> xmpp_msg_type \<Rightarrow> 'u session \<Rightarrow> 'u session crash" where
  "xmpp_iq_follow_send_cb nickname type s =
     (if type = XMPP_TYPE_ERROR
      then map_option fst (invitation_complete (Some nickname) None INVIT_USER_OFFLINE True s)
      else Some s)"

definition xmpp_iq_follow_send_handler ::
  "(nat \<Rightarrow> char) \<Rightarrow> cstring \<Rightarrow> cptr \<Rightarrow> cstring \<Rightarrow> cptr \<Rightarrow> 'u session \<Rightarrow> 'u session crash" where
  "xmpp_iq_follow_send_handler junk new_uuid msg_id msg content s =
     (case content of
        None \<Rightarrow> Some s
      | Some data \<Rightarrow>
          (case (attr msg ''from'', attr data ''nickname'') of
             (Some from_jid, Some nickname) \<Rightarrow>
               do {
                 s1 \<leftarrow> (if wb_accept_room_follows (cvar s) then xmpp_iq_invitation_send junk new_uuid (Some nickname) 1 None s else Some s);
                 send_iq_result (JID (Some from_jid)) msg_id
                   (k01_query ('' <follow_send '' @ q ''can_follow'' (if wb_accept_room_follows (cvar s1) then ''1'' else ''0'') @ ''/>'')) s1
               }
           | _ \<Rightarrow> Some s))"

text \<open>\<open>is_follow\<close> is an \<open>unsigned int\<close> here; a follow request is granted when we asked for it.\<close>

definition xmpp_iq_invitation_request_cb :: "cstring \<Rightarrow> cptr \<Rightarrow> 'u session \<Rightarrow> 'u session crash" where
  "xmpp_iq_invitation_request_cb msg content s =
     (case content of
        None \<Rightarrow> Some s
      | Some data \<Rightarrow>
          (let nick_from = attr data '' from'';
               is_follow = c_uint (get_info_int data (''is_follow='' @ [apos]) [apos]);
               group_id = attr data ''group_id''
           in case (attr msg ''from'', attr data ''ms_resource'', attr data ''ticket'', attr data ''room_id'') of
                (Some server, Some resource, Some ticket, Some room) \<Rightarrow>
                  do {
                    (s1, accepted) \<leftarrow>
                      (if is_follow = 0
                       then Some (s, \<not> wb_safemaster (cvar s) \<and> wb_accept_room_invitations (cvar s)
                                      \<and> qp_pre_uid (quickplay s) = None \<and> qp_uid (quickplay s) = None)
                       else invitation_complete nick_from None INVIT_ACCEPTED True s);
                    if wb_postpone_room_invitations (cvar s) \<and> is_follow = 0 then Some s1
                    else do {
                           s2 \<leftarrow> send_iq_get (JID (Some server)) None
                                  (k01_query ('' <invitation_accept '' @ q ''ticket'' ticket @ '' ''
                                    @ q ''result'' (if accepted then ''0'' else ''1'') @ ''/>'')) s1;
                           if accepted
                           then xmpp_iq_gameroom_join (Some resource) (Some room) group_id
                                  (if is_follow \<noteq> 0 then JOIN_FOLLOW else JOIN_INVITE) s2
                           else Some s2
                         }
                  }
              | _ \<Rightarrow> Some s))"

text \<open>Friend and clan invitations; the error codes are read without looking whether there is a message.\<close>

definition xmpp_iq_send_invitation :: "cptr \<Rightarrow> int \<Rightarrow> 'u option \<Rightarrow> 'u session \<Rightarrow> 'u session crash" where
  "xmpp_iq_send_invitation nickname type cb s =
     send_iq_get (JID_MS (ol_channel (online s)) s) (Some (CB_send_invitation cb))
       (k01_query (''<send_invitation '' @ q ''target'' (show_ptr nickname) @ '' '' @ q ''type'' (int_dec type) @ ''/>'')) s"

definition xmpp_iq_send_invitation_cb :: "'u option \<Rightarrow> cptr \<Rightarrow> xmpp_msg_type \<Rightarrow> 'u session \<Rightarrow> 'u session crash" where
  "xmpp_iq_send_invitation_cb cb msg type s =
     do {
       error_code \<leftarrow>
         (if type = XMPP_TYPE_ERROR
          then do {
                 m \<leftarrow> deref msg;
                 let code = attr_int m ''code'';
                 let custom_code = attr_int m ''custom_code'';
                 Some (if custom_code = 0 then code else custom_code)
               }
          else Some 0);
       Some (case cb of None \<Rightarrow> s | Some u \<Rightarrow> emit (Call_result u error_code) s)
     }"

end
