(* ===== verification/Lifecycle.thy ===== *)
theory Lifecycle
  imports Invitations
begin

text \<open>
  All the handlers together: what they leave alone, and what every session keeps however the answers
  and messages of the server, the requests of the user and time are interleaved.
\<close>

subsection \<open>What the building blocks leave alone\<close>

text \<open>The parts of a session that the invariants speak about.\<close>

definition keeps :: "'u session \<Rightarrow> 'u session \<Rightarrow> bool" where
  "keeps s s' \<longleftrightarrow> quickplay s' = quickplay s \<and> pending_invitations s' = pending_invitations s
     \<and> gi_jid (groom s') = gi_jid (groom s) \<and> gi_sync (groom s') = gi_sync (groom s)"

lemma keeps_refl [simp]: "keeps s s"
  by (simp add: keeps_def)

lemma keeps_trans: "keeps s s' \<Longrightarrow> keeps s' s'' \<Longrightarrow> keeps s s''"
  by (simp add: keeps_def)

lemma keeps_add_trace [simp]: "keeps s (add_trace es s') \<longleftrightarrow> keeps s s'" "keeps (add_trace es s) s' \<longleftrightarrow> keeps s s'"
  by (simp_all add: keeps_def)

lemma keeps_send:
  "send_iq_get t cb x s = Some s' \<Longrightarrow> keeps s s'" "send_iq_result t i x s = Some s' \<Longrightarrow> keeps s s'"
  by (simp_all add: send_iq_get_Some send_iq_result_Some)

lemma keeps_presence: "xmpp_presence j t s = Some s' \<Longrightarrow> keeps s s'"
  by (auto dest!: presence_Some)

lemma keeps_each:
  assumes "\<And>x s s'. f x s = Some s' \<Longrightarrow> keeps s s'"
  shows "each f xs s = Some s' \<Longrightarrow> keeps s s'"
  by (induction xs arbitrary: s) (auto simp: bind_eq_Some_conv dest!: assms intro: keeps_trans)

lemma keeps_set_tokens [simp]: "keeps s (set_tokens a b c d s') \<longleftrightarrow> keeps s s'"
  by (simp add: keeps_def)

lemma keeps_status_set:
  assumes "status_set status s = Some s'"
  shows "keeps s s'"
proof -
  obtain s2 s4 where
    2: "xmpp_iq_player_status status (if ol_status (online s) XOR STATUS_AFK \<noteq> status XOR STATUS_AFK
          then s\<lparr>online := (online s)\<lparr>ol_last_status_change := now s\<rparr>\<rparr> else s) = Some s2" and
    4: "status_update_location (s2\<lparr>online := (online s2)\<lparr>ol_status := status, ol_last_status_update := now s2\<rparr>\<rparr>) = Some s4" and
    s': "keeps s4 s'"
    using assms by (auto simp: status_set_def Let_def bind_eq_Some_conv each_friend each_clanmate)
  have "keeps s s2" using 2 by (auto simp: xmpp_iq_player_status_def send_iq_get_Some keeps_def split: if_splits)
  moreover have "keeps s2 s4" using location_frame [OF 4] by (auto simp: keeps_def)
  ultimately show ?thesis using s' keeps_trans by blast
qed

lemma keeps_update_class: "status_update_class c s = Some s' \<Longrightarrow> keeps s s'"
  by (auto simp: status_update_class_def Let_def bind_eq_Some_conv keeps_def)

lemma keeps_setplayer: "xmpp_iq_gameroom_setplayer t r c cb s = Some s' \<Longrightarrow> keeps s s'"
  by (auto simp: xmpp_iq_gameroom_setplayer_def Let_def send_iq_get_Some keeps_def)

lemma keeps_leave: "xmpp_iq_gameroom_leave s = Some s' \<Longrightarrow> keeps s s'"
  by (auto simp: xmpp_iq_gameroom_leave_def Let_def send_iq_get_Some keeps_def split: if_splits)

lemma keeps_call_opt [simp]: "keeps s (call_opt cb s') \<longleftrightarrow> keeps s s'"
  by (auto simp: call_opt_def split: option.splits)

lemma keeps_room_update:
  "gi_jid (f (groom s)) = gi_jid (groom s) \<Longrightarrow> gi_sync (f (groom s)) = gi_sync (groom s) \<Longrightarrow> keeps s (upd_gr f s)"
  by (simp add: keeps_def)

lemma keeps_sync_session: "sync_session_part sync s = Some s' \<Longrightarrow> keeps s s'"
  by (auto simp: sync_session_part_def bind_eq_Some_conv send_iq_get_Some keeps_def split: if_splits)

lemma keeps_sync_master: "sync_master_part sync s = Some s' \<Longrightarrow> keeps s s'"
  by (auto simp: sync_master_part_def Let_def bind_eq_Some_conv split: if_splits)

lemma keeps_sync_player: "sync_player_part sync s = Some s' \<Longrightarrow> keeps s s'"
  by (auto simp: sync_player_part_def bind_eq_Some_conv keeps_def split: option.splits if_splits
      dest!: keeps_update_class keeps_setplayer)

lemma keeps_updates:
  "xmpp_iq_join_channel ch cont s = Some s' \<Longrightarrow> keeps s s'" "mission_list_update cont s = Some s' \<Longrightarrow> keeps s s'"
  by (auto simp: mission_list_update_Some dest!: join_channel_Some)

lemmas keeps = keeps_updates keeps_send keeps_presence keeps_status_set keeps_update_class keeps_setplayer keeps_leave
  keeps_sync_session keeps_sync_master keeps_sync_player

text \<open>Requests and plain answers.\<close>

lemma keeps_requests:
  "xmpp_iq_gameroom_askserver cb s = Some s' \<Longrightarrow> keeps s s'"
  "xmpp_iq_gameroom_promote_to_host pid cb s = Some s' \<Longrightarrow> keeps s s'"
  "xmpp_iq_gameroom_setinfo mk cb s = Some s' \<Longrightarrow> keeps s s'"
  "xmpp_iq_gameroom_setname junk rn cb s = Some s' \<Longrightarrow> keeps s s'"
  "gameroom_join_request rid gid reason s = Some s' \<Longrightarrow> keeps s s'"
  "xmpp_iq_gameroom_join ch rm gid reason s = Some s' \<Longrightarrow> keeps s s'"
  "xmpp_iq_gameroom_open title junk mk type tries fun s = Some s' \<Longrightarrow> keeps s s'"
  "xmpp_iq_preinvite_cancel oid uid r cb s = Some s' \<Longrightarrow> keeps s s'"
  "xmpp_iq_preinvite_invite oid uid cb s = Some s' \<Longrightarrow> keeps s s'"
  "xmpp_iq_gameroom_quickplay_cancel s = Some s' \<Longrightarrow> keeps s s'"
  "xmpp_iq_gameroom_quickplay title junk uid mk type gm sw tries cb s = Some s' \<Longrightarrow> keeps s s'"
  "xmpp_iq_gameroom_quickplay_cb a msg t s = Some s' \<Longrightarrow> keeps s s'"
  "xmpp_iq_session_join_cb msg content s = Some s' \<Longrightarrow> keeps s s'"
  "xmpp_iq_send_invitation nick k cb s = Some s' \<Longrightarrow> keeps s s'"
  "xmpp_iq_send_invitation_cb cb msg t s = Some s' \<Longrightarrow> keeps s s'"
  by (auto simp: xmpp_iq_gameroom_askserver_def xmpp_iq_gameroom_promote_to_host_def xmpp_iq_gameroom_setinfo_def
      xmpp_iq_gameroom_setname_def gameroom_join_request_def xmpp_iq_gameroom_join_def xmpp_iq_gameroom_open_def
      xmpp_iq_preinvite_cancel_def xmpp_iq_preinvite_invite_def xmpp_iq_gameroom_quickplay_cancel_def
      xmpp_iq_gameroom_quickplay_def xmpp_iq_gameroom_quickplay_cb_def xmpp_iq_session_join_cb_def xmpp_iq_send_invitation_def
      xmpp_iq_send_invitation_cb_def Let_def bind_eq_Some_conv send_iq_get_Some
      split: option.splits if_splits dest!: keeps intro: keeps_trans)

subsection \<open>The invariants\<close>

text \<open>
  At most one search is prepared or running; a session in a room has a list of players; no invitation
  and at most one follow request is pending twice.
\<close>

definition search_ok :: "'u session \<Rightarrow> bool" where
  "search_ok s \<longleftrightarrow> qp_pre_uid (quickplay s) = None \<or> qp_uid (quickplay s) = None"

definition players :: "'u session \<Rightarrow> gr_core_player list option" where
  "players s = co_players (gm_core (gi_sync (groom s)))"

definition in_room_ok :: "'u session \<Rightarrow> bool" where
  "in_room_ok s \<longleftrightarrow> gi_jid (groom s) = None \<or> players s \<noteq> None"

definition pending_key :: "'u invitation \<Rightarrow> cstring \<times> int" where
  "pending_key i = (iv_nickname i, iv_is_follow i)"

definition pending_list_ok :: "'u invitation list \<Rightarrow> bool" where
  "pending_list_ok l \<longleftrightarrow> (let ks = map pending_key l
     in distinct ks \<and> length (filter (\<lambda>k. snd k = 1) ks) \<le> 1 \<and> list_all (\<lambda>k. snd k \<in> {0, 1}) ks)"

definition pending_ok :: "'u session \<Rightarrow> bool" where
  "pending_ok s \<longleftrightarrow> (case pending_invitations s of None \<Rightarrow> True | Some l \<Rightarrow> pending_list_ok l)"

definition session_ok :: "'u session \<Rightarrow> bool" where
  "session_ok s \<longleftrightarrow> search_ok s \<and> in_room_ok s \<and> pending_ok s"

lemma players_keeps: "keeps s s' \<Longrightarrow> players s' = players s"
  by (simp add: keeps_def players_def)

lemma keeps_ok: "keeps s s' \<Longrightarrow> session_ok s \<Longrightarrow> session_ok s'"
  by (simp add: keeps_def session_ok_def search_ok_def in_room_ok_def pending_ok_def players_def)

text \<open>A synchronisation keeps the room, and the list of players once there is one.\<close>

definition advances :: "'u session \<Rightarrow> 'u session \<Rightarrow> bool" where
  "advances s s' \<longleftrightarrow> quickplay s' = quickplay s \<and> pending_invitations s' = pending_invitations s
     \<and> gi_jid (groom s') = gi_jid (groom s) \<and> (players s \<noteq> None \<longrightarrow> players s' \<noteq> None)"

lemma advances_ok: "advances s s' \<Longrightarrow> session_ok s \<Longrightarrow> session_ok s'"
  by (auto simp: advances_def session_ok_def search_ok_def in_room_ok_def pending_ok_def)

lemma keeps_advances: "keeps s s' \<Longrightarrow> advances s s'"
  by (simp add: keeps_def advances_def players_def)

lemma advances_trans: "advances s s' \<Longrightarrow> advances s' s'' \<Longrightarrow> advances s s''"
  by (auto simp: advances_def)

lemma sync_core_players: "sync_core strtof same l n = Some l' \<Longrightarrow> co_players l \<noteq> None \<Longrightarrow> co_players l' \<noteq> None"
  by (auto simp: sync_core_def bind_eq_Some_conv split: option.splits)

lemma parse_players:
  assumes "gameroom_parse strtof same gr data = Some (g, ret)" "co_players (gm_core gr) \<noteq> None"
  shows "co_players (gm_core g) \<noteq> None"
proof -
  obtain r0 where "gameroom_sync_node (sync_core strtof same) (field_node data ''core'') (gm_core gr) = Some (gm_core g, r0)"
    using assms(1) by (auto simp: gameroom_parse_def Let_def bind_eq_Some_conv)
  then show ?thesis using assms(2)
    by (auto simp: gameroom_sync_node_def Let_def bind_eq_Some_conv split: option.splits if_splits dest!: sync_core_players)
qed

lemma gameroom_sync_parts:
  assumes "gameroom_sync strtof data s = Some s'"
  obtains sync ret s2 s3 where "gameroom_parse strtof False gameroom_init data = Some (sync, ret)" "keeps s s2"
    "(if changed ret (GR_SYNC_CORE OR GR_SYNC_CUSTOM_PARAMS) then sync_player_part sync s2 else Some s2) = Some s3"
    "s' = upd_gr (\<lambda>g. g\<lparr>gi_sync := gameroom_update (gi_sync g) sync ret\<rparr>) s3"
proof -
  obtain sync ret s1 s2 s3 where
    p: "gameroom_parse strtof False gameroom_init data = Some (sync, ret)" and
    1: "(if changed ret GR_SYNC_SESSION then sync_session_part sync s else Some s) = Some s1" and
    2: "(if changed ret GR_SYNC_ROOM_MASTER then sync_master_part sync s1 else Some s1) = Some s2" and
    3: "(if changed ret (GR_SYNC_CORE OR GR_SYNC_CUSTOM_PARAMS) then sync_player_part sync s2 else Some s2) = Some s3" and
    s': "s' = upd_gr (\<lambda>g. g\<lparr>gi_sync := gameroom_update (gi_sync g) sync ret\<rparr>) s3"
    using assms by (auto simp: gameroom_sync_def bind_eq_Some_conv)
  have "keeps s s1" "keeps s1 s2" using 1 2 keeps_sync_session keeps_sync_master by (auto split: if_splits)
  then have "keeps s s2" using keeps_trans by blast
  then show ?thesis using that p 3 s' by blast
qed

lemma gameroom_sync_advances:
  assumes "gameroom_sync strtof data s = Some s'"
  shows "advances s s'"
  using assms
proof (rule gameroom_sync_parts)
  fix sync ret s2 s3
  assume p: "gameroom_parse strtof False gameroom_init data = Some (sync, ret)" and "keeps s s2" and
    3: "(if changed ret (GR_SYNC_CORE OR GR_SYNC_CUSTOM_PARAMS) then sync_player_part sync s2 else Some s2) = Some s3" and
    s': "s' = upd_gr (\<lambda>g. g\<lparr>gi_sync := gameroom_update (gi_sync g) sync ret\<rparr>) s3"
  then have "keeps s s3" by (auto split: if_splits intro: keeps_trans dest!: keeps_sync_player)
  moreover have "co_players (gm_core sync) \<noteq> None" by (rule parse_players [OF p]) (simp add: gameroom_init_def)
  ultimately show ?thesis by (simp add: s' keeps_def advances_def players_def gameroom_update_def)
qed

lemma advances_answers:
  "xmpp_iq_gameroom_sync_cb strtof content s = Some s' \<Longrightarrow> advances s s'"
  "xmpp_iq_gameroom_setplayer_cb strtof cb content t s = Some s' \<Longrightarrow> advances s s'"
  "xmpp_iq_gameroom_setname_cb strtof cb content t s = Some s' \<Longrightarrow> advances s s'"
  "xmpp_iq_gameroom_promote_to_host_cb strtof cb content t s = Some s' \<Longrightarrow> advances s s'"
  "xmpp_iq_gameroom_setinfo_cb strtof cb msg content t s = Some s' \<Longrightarrow> advances s s'"
  "xmpp_iq_gameroom_update_pvp_cb strtof cb msg content t s = Some s' \<Longrightarrow> advances s s'"
  "xmpp_iq_gameroom_askserver_cb cb msg content t s = Some s' \<Longrightarrow> advances s s'"
  "xmpp_iq_gameroom_loosemaster_cb auto s = Some s' \<Longrightarrow> advances s s'"
proof -
  have call: "advances s (call_opt cb s') \<longleftrightarrow> advances s s'" for s s' :: "'u session" and cb
    by (auto simp: call_opt_def advances_def players_def split: option.splits)
  have joined: "advances (upd_gr (\<lambda>g. g\<lparr>gi_joined := False\<rparr>) s) s' \<longleftrightarrow> advances s s'" for s s' :: "'u session"
    by (simp add: advances_def players_def)
  have status: "status_set st s = Some s' \<Longrightarrow> advances s s'" for st and s s' :: "'u session"
    by (rule keeps_advances [OF keeps_status_set])
  have refl: "advances s s" for s :: "'u session" by (simp add: advances_def)
  note defs = Let_def bind_eq_Some_conv call joined refl
  show "xmpp_iq_gameroom_sync_cb strtof content s = Some s' \<Longrightarrow> advances s s'"
    "xmpp_iq_gameroom_setplayer_cb strtof cb content t s = Some s' \<Longrightarrow> advances s s'"
    "xmpp_iq_gameroom_setname_cb strtof cb content t s = Some s' \<Longrightarrow> advances s s'"
    "xmpp_iq_gameroom_promote_to_host_cb strtof cb content t s = Some s' \<Longrightarrow> advances s s'"
    "xmpp_iq_gameroom_setinfo_cb strtof cb msg content t s = Some s' \<Longrightarrow> advances s s'"
    "xmpp_iq_gameroom_update_pvp_cb strtof cb msg content t s = Some s' \<Longrightarrow> advances s s'"
    "xmpp_iq_gameroom_askserver_cb cb msg content t s = Some s' \<Longrightarrow> advances s s'"
    "xmpp_iq_gameroom_loosemaster_cb auto s = Some s' \<Longrightarrow> advances s s'"
    by (auto simp: defs xmpp_iq_gameroom_sync_cb_def xmpp_iq_gameroom_setplayer_cb_def xmpp_iq_gameroom_setname_cb_def
        xmpp_iq_gameroom_promote_to_host_cb_def xmpp_iq_gameroom_setinfo_cb_def xmpp_iq_gameroom_update_pvp_cb_def
        xmpp_iq_gameroom_askserver_cb_def xmpp_iq_gameroom_loosemaster_cb_def
        dest!: gameroom_sync_advances status keeps_requests(1) keeps_advances split: option.splits if_splits
        intro: advances_trans)
qed

subsection \<open>Every handler keeps the invariants\<close>

lemma session_ok_upd_qp:
  "session_ok s \<Longrightarrow> qp_pre_uid (f (quickplay s)) = None \<or> qp_uid (f (quickplay s)) = None \<Longrightarrow> session_ok (upd_qp f s)"
  by (simp add: session_ok_def search_ok_def in_room_ok_def pending_ok_def players_def)

lemma quickplay_free_ok: "session_ok s \<Longrightarrow> session_ok (quickplay_free s)"
  by (simp add: quickplay_free_def session_ok_upd_qp)

lemma session_ok_emit [simp]: "session_ok (add_trace es s) \<longleftrightarrow> session_ok s"
  by (simp add: session_ok_def search_ok_def in_room_ok_def pending_ok_def players_def)

lemma session_ok_lobby: "session_ok s \<Longrightarrow> gi_jid (f (groom s)) = None \<Longrightarrow> session_ok (upd_gr f s)"
  by (simp add: session_ok_def search_ok_def in_room_ok_def pending_ok_def)

lemma back_to_lobby_ok:
  assumes "back_to_lobby s = Some s'" "session_ok s"
  shows "session_ok s' \<and> gi_jid (groom s') = None"
  using assms
  by (auto simp: back_to_lobby_def gameroom_sync_free_def Let_def bind_eq_Some_conv keeps_def session_ok_def search_ok_def in_room_ok_def
      pending_ok_def split: if_splits dest!: keeps_presence)

lemma leave_previous_room_ok:
  assumes "leave_previous_room s = Some s'" "session_ok s"
  shows "session_ok s' \<and> gi_jid (groom s') = None"
  using assms
  by (auto simp: leave_previous_room_def gameroom_sync_free_def Let_def bind_eq_Some_conv keeps_def session_ok_def search_ok_def in_room_ok_def
      pending_ok_def split: if_splits dest!: keeps_presence)

lemma enter_room_ok:
  assumes "enter_room strtof rid gid data s = Some s'" "session_ok s"
  shows "session_ok s'"
proof -
  obtain s1 s3 where
    1: "xmpp_presence (Some (room_jid rid s)) XMPP_PRESENCE_JOIN s = Some s1" and
    3: "gameroom_sync strtof data (gameroom_sync_init (upd_gr (\<lambda>g. g\<lparr>gi_jid := Some (room_jid rid s),
           gi_group_id := (case gid of None \<Rightarrow> gi_group_id g | Some _ \<Rightarrow> gid), gi_desired_status := sint GAMEROOM_READY\<rparr>) s1)) = Some s3" and
    s': "status_set (STATUS_ONLINE OR STATUS_ROOM) s3 = Some s'"
    using assms(1) by (auto simp: enter_room_def Let_def bind_eq_Some_conv)
  have "session_ok s1" using keeps_ok [OF keeps_presence [OF 1] assms(2)] .
  then have "session_ok (gameroom_sync_init (upd_gr (\<lambda>g. g\<lparr>gi_jid := Some (room_jid rid s),
           gi_group_id := (case gid of None \<Rightarrow> gi_group_id g | Some _ \<Rightarrow> gid), gi_desired_status := sint GAMEROOM_READY\<rparr>) s1))"
    by (simp add: session_ok_def search_ok_def in_room_ok_def pending_ok_def gameroom_sync_init_def players_def gameroom_init_def)
  from keeps_ok [OF keeps_status_set [OF s'] advances_ok [OF gameroom_sync_advances [OF 3] this]] show ?thesis .
qed

lemma room_handlers_ok:
  assumes "session_ok s"
  shows "xmpp_iq_gameroom_join_cb strtof rid gid content t s = Some s' \<Longrightarrow> session_ok s'"
    and "xmpp_iq_gameroom_open_cb strtof a msg content t s = Some s' \<Longrightarrow> session_ok s'"
    and "xmpp_iq_gameroom_leave_cb t s = Some s' \<Longrightarrow> session_ok s'"
    and "xmpp_iq_gameroom_on_kicked_cb m content s = Some s' \<Longrightarrow> session_ok s'"
    and "xmpp_iq_gameroom_on_expired_cb m content s = Some s' \<Longrightarrow> session_ok s'"
proof -
  have upd: "session_ok (upd_gr f s) \<longleftrightarrow> session_ok s"
    if "gi_jid (f (groom s)) = gi_jid (groom s)" "gi_sync (f (groom s)) = gi_sync (groom s)" for f and s :: "'u session"
    using that by (simp add: session_ok_def search_ok_def in_room_ok_def pending_ok_def players_def)
  show "xmpp_iq_gameroom_join_cb strtof rid gid content t s = Some s' \<Longrightarrow> session_ok s'"
    using assms by (auto simp: xmpp_iq_gameroom_join_cb_def bind_eq_Some_conv upd split: option.splits if_splits
        dest: leave_previous_room_ok intro!: quickplay_free_ok elim!: enter_room_ok)
  show "xmpp_iq_gameroom_open_cb strtof a msg content t s = Some s' \<Longrightarrow> session_ok s'"
    using assms by (auto simp: xmpp_iq_gameroom_open_cb_def Let_def bind_eq_Some_conv split: option.splits if_splits
        dest!: leave_previous_room_ok keeps_ok [OF keeps_updates(2)] elim!: enter_room_ok)
  show "xmpp_iq_gameroom_leave_cb t s = Some s' \<Longrightarrow> session_ok s'"
  proof -
    have c: "session_ok (s\<lparr>cvar := c\<rparr>) \<longleftrightarrow> session_ok s" for c and s :: "'u session"
      by (simp add: session_ok_def search_ok_def in_room_ok_def pending_ok_def players_def)
    assume "xmpp_iq_gameroom_leave_cb t s = Some s'"
    with assms show ?thesis
      by (auto simp: xmpp_iq_gameroom_leave_cb_def Let_def bind_eq_Some_conv upd c split: if_splits
          dest!: back_to_lobby_ok intro: keeps_ok [OF keeps_status_set])
  qed
  show "xmpp_iq_gameroom_on_kicked_cb m content s = Some s' \<Longrightarrow> session_ok s'"
    "xmpp_iq_gameroom_on_expired_cb m content s = Some s' \<Longrightarrow> session_ok s'"
    using assms
    by (auto simp: xmpp_iq_gameroom_on_kicked_cb_def xmpp_iq_gameroom_on_expired_cb_def bind_eq_Some_conv split: option.splits if_splits
        dest!: keeps_updates(2) keeps_status_set back_to_lobby_ok intro!: quickplay_free_ok elim: keeps_ok intro: keeps_trans)
qed

lemma search_update:
  "quickplay_preinvite_response uid oid acc s = Some s' \<Longrightarrow> session_ok s \<Longrightarrow> session_ok s'"
  "quickplay_preinvite oid pid nick s = Some s' \<Longrightarrow> session_ok s \<Longrightarrow> session_ok s'"
  by (auto simp: quickplay_preinvite_response_def quickplay_preinvite_def Let_def session_ok_def search_ok_def
      split: option.splits if_splits intro!: session_ok_upd_qp dest!: keeps_requests(8,9) keeps_ok
      simp: keeps_def in_room_ok_def pending_ok_def players_def)

lemma search_handlers_ok:
  assumes "session_ok s"
  shows "quickplay_open uuid mk type gm cb s = Some s' \<Longrightarrow> session_ok s'"
    and "quickplay_start title junk cb s = Some s' \<Longrightarrow> session_ok s'"
    and "quickplay_cancel s = Some s' \<Longrightarrow> session_ok s'"
    and "quickplay_updated_list title junk a s = Some s' \<Longrightarrow> session_ok s'"
    and "xmpp_iq_gameroom_quickplay_started_cb i content s = Some s' \<Longrightarrow> session_ok s'"
    and "xmpp_iq_gameroom_quickplay_succeeded_cb i content s = Some s' \<Longrightarrow> session_ok s'"
    and "xmpp_iq_gameroom_quickplay_canceled_cb i content s = Some s' \<Longrightarrow> session_ok s'"
    and "xmpp_iq_preinvite_response_cb i m content s = Some s' \<Longrightarrow> session_ok s'"
    and "xmpp_iq_preinvite_cancel_handler m content s = Some s' \<Longrightarrow> session_ok s'"
    and "xmpp_iq_preinvite_invite_handler i m content s = Some s' \<Longrightarrow> session_ok s'"
    and "xmpp_iq_gameroom_offer_cb content s = Some s' \<Longrightarrow> session_ok s'"
proof -
  have qp: "session_ok (upd_qp f s) \<longleftrightarrow> session_ok s"
    if "qp_pre_uid (f (quickplay s)) = qp_pre_uid (quickplay s)" "qp_uid (f (quickplay s)) = qp_uid (quickplay s)"
    for f and s :: "'u session"
    using that by (simp add: session_ok_def search_ok_def in_room_ok_def pending_ok_def players_def)
  have clear: "session_ok (upd_qp f s)" if "session_ok s" "qp_pre_uid (f (quickplay s)) = None" for f and s :: "'u session"
    using that by (simp add: session_ok_upd_qp)
  show "quickplay_open uuid mk type gm cb s = Some s' \<Longrightarrow> session_ok s'"
    using assms by (auto simp: quickplay_open_def Let_def bind_eq_Some_conv split: if_splits option.splits intro!: session_ok_upd_qp
        dest!: keeps_ok [OF keeps_updates(1)])
  show "quickplay_start title junk cb s = Some s' \<Longrightarrow> session_ok s'"
    using assms by (auto simp: quickplay_start_def Let_def qp split: if_splits dest!: keeps_requests(11) keeps_ok)
  show "quickplay_cancel s = Some s' \<Longrightarrow> session_ok s'"
  proof -
    have each: "keeps s s'" if "each (\<lambda>p s. xmpp_iq_preinvite_cancel (Some (qp_online_id p)) (qp_pre_uid (quickplay s))
        PREINVITE_CANCELED_BY_MASTER None s) l s = Some s'" for l and s s' :: "'u session"
      by (rule keeps_each [OF _ that]) (rule keeps_requests(8))
    assume "quickplay_cancel s = Some s'"
    with assms show ?thesis
      by (auto simp: quickplay_cancel_def bind_eq_Some_conv split: option.splits if_splits dest!: each keeps_requests(10)
          intro!: quickplay_free_ok elim: keeps_ok dest: keeps_trans)
  qed
  show "quickplay_updated_list title junk a s = Some s' \<Longrightarrow> session_ok s'"
    using assms by (auto simp: quickplay_updated_list_def bind_eq_Some_conv split: option.splits dest!: keeps_requests(11) keeps_ok)
  have search: "session_ok (quickplay_started u s)" "session_ok (quickplay_succeeded u s)" "session_ok (quickplay_canceled u s)" for u
    using assms by (auto simp: quickplay_started_def quickplay_succeeded_def quickplay_canceled_def qp
        intro!: quickplay_free_ok session_ok_upd_qp split: option.splits)
  then show "xmpp_iq_gameroom_quickplay_started_cb i content s = Some s' \<Longrightarrow> session_ok s'"
    "xmpp_iq_gameroom_quickplay_succeeded_cb i content s = Some s' \<Longrightarrow> session_ok s'"
    "xmpp_iq_gameroom_quickplay_canceled_cb i content s = Some s' \<Longrightarrow> session_ok s'"
    using assms by (auto simp: xmpp_iq_gameroom_quickplay_started_cb_def xmpp_iq_gameroom_quickplay_succeeded_cb_def
        xmpp_iq_gameroom_quickplay_canceled_cb_def Let_def send_iq_result_Some split: option.splits)
  show "xmpp_iq_preinvite_response_cb i m content s = Some s' \<Longrightarrow> session_ok s'"
    using assms by (auto simp: xmpp_iq_preinvite_response_cb_def Let_def send_iq_result_Some bind_eq_Some_conv
        split: option.splits elim!: search_update)
  show "xmpp_iq_preinvite_cancel_handler m content s = Some s' \<Longrightarrow> session_ok s'"
    using assms by (auto simp: xmpp_iq_preinvite_cancel_handler_def Let_def bind_eq_Some_conv split: option.splits if_splits
        intro!: clear elim: search_update)
  show "xmpp_iq_preinvite_invite_handler i m content s = Some s' \<Longrightarrow> session_ok s'"
    using assms by (auto simp: xmpp_iq_preinvite_invite_handler_def Let_def bind_eq_Some_conv send_iq_result_Some send_iq_get_Some
        split: option.splits if_splits intro!: session_ok_upd_qp elim!: keeps_ok dest!: keeps_leave)
  show "xmpp_iq_gameroom_offer_cb content s = Some s' \<Longrightarrow> session_ok s'"
    using assms by (auto simp: xmpp_iq_gameroom_offer_cb_def Let_def bind_eq_Some_conv send_iq_get_Some qp
        split: option.splits if_splits dest!: keeps_requests(6) keeps_ok)
qed

lemma remove_crash_split:
  assumes "remove_crash m xs = Some ys"
  shows "ys = xs \<or> (\<exists>a x b. xs = a @ x # b \<and> ys = a @ b)"
  using assms
proof (induction xs arbitrary: ys)
  case Nil
  then show ?case by simp
next
  case (Cons x xs)
  then obtain b where b: "m x = Some b" by (auto simp: bind_eq_Some_conv)
  show ?case
  proof (cases b)
    case True
    with Cons.prems b show ?thesis by (auto intro: exI [of _ "[]"])
  next
    case False
    with Cons.prems b obtain zs where z: "remove_crash m xs = Some zs" "ys = x # zs" by auto
    from Cons.IH [OF z(1)] show ?thesis
    proof
      assume "\<exists>a y b. xs = a @ y # b \<and> zs = a @ b"
      then obtain a y b where "xs = a @ y # b" "zs = a @ b" by blast
      then have "x # xs = (x # a) @ y # b \<and> ys = (x # a) @ b" by (simp add: z)
      then show ?thesis by blast
    qed (simp add: z)
  qed
qed

lemma pending_list_remove:
  assumes "remove_crash m l = Some l'" "pending_list_ok l"
  shows "pending_list_ok l'"
  using remove_crash_split [OF assms(1)] assms(2) by (auto simp: pending_list_ok_def Let_def split: if_splits)

lemma modify_crash_clear:
  assumes "modify_crash m clear_cb l = Some l'"
  shows "map pending_key l' = map pending_key l"
  using assms by (induction l arbitrary: l') (auto simp: bind_eq_Some_conv clear_cb_def pending_key_def split: if_splits)

lemma pending_list_keys: "map pending_key l' = map pending_key l \<Longrightarrow> pending_list_ok l' = pending_list_ok l"
  by (simp add: pending_list_ok_def)

lemma find_crash_none: "find_crash m l = Some None \<Longrightarrow> x \<in> set l \<Longrightarrow> m x = Some False"
  by (induction l) (auto simp: bind_eq_Some_conv split: if_splits)

lemma register_ok:
  assumes "invitation_register nick f cb s = Some s'" "session_ok s" "f \<in> {0, 1}"
  shows "session_ok s'"
proof (cases nick)
  case None
  with assms show ?thesis by (simp add: invitation_register_def)
next
  case (Some n)
  define l where "l = (case pending_invitations s of None \<Rightarrow> [] | Some l \<Rightarrow> l)"
  have l: "pending_list_ok l"
    using assms(2) by (auto simp: l_def session_ok_def pending_ok_def pending_list_ok_def split: option.splits)
  obtain old where old: "invitation_find s nick (f \<noteq> 0) l = Some old" and
    s': "s' = s\<lparr>pending_invitations := Some (case old of Some _ \<Rightarrow> l | None \<Rightarrow> \<lparr>iv_nickname = n, iv_is_follow = f, iv_cb = cb\<rparr> # l)\<rparr>"
    using assms(1) Some by (auto simp: invitation_register_def l_def [symmetric] Let_def bind_eq_Some_conv)
  have "pending_list_ok (\<lparr>iv_nickname = n, iv_is_follow = f, iv_cb = cb\<rparr> # l)" if "old = None"
  proof (cases "f = 0")
    case True
    have "iv_nickname i \<noteq> n" if "i \<in> set l" for i
      using find_crash_none [OF _ that, of "invitation_cmp (own_nickname s) nick"] old \<open>old = None\<close> True Some
      by (auto simp: invitation_find_def invitation_cmp_def bind_eq_Some_conv split: if_splits)
    with True l show ?thesis by (auto simp: pending_list_ok_def Let_def pending_key_def)
  next
    case False
    with old \<open>old = None\<close> have "\<forall>i\<in>set l. \<not> invitation_cmp_follow i"
      by (auto simp: invitation_find_def find_None_iff)
    with False assms(3) l show ?thesis
      by (auto simp: pending_list_ok_def Let_def pending_key_def invitation_cmp_follow_def filter_empty_conv)
  qed
  with l have "pending_ok s'" by (simp add: s' pending_ok_def split: option.split)
  with assms(2) show ?thesis by (simp add: s' session_ok_def search_ok_def in_room_ok_def players_def)
qed

lemma invitation_free_simps [simp]:
  "pending_invitations (invitation_free i s) = pending_invitations s" "quickplay (invitation_free i s) = quickplay s"
  "groom (invitation_free i s) = groom s"
  by (simp_all add: invitation_free_def)

text \<open>What a completion does to the list.\<close>

lemma complete_cases:
  fixes s :: "'u session"
  assumes "invitation_complete nick ch r f s = Some (s', b)"
  shows "s' = s \<or> (\<exists>l l1 l2 m. pending_invitations s = Some l \<and> map pending_key l1 = map pending_key l \<and> remove_crash m l1 = Some l2
           \<and> pending_invitations s' = Some l2 \<and> quickplay s' = quickplay s \<and> groom s' = groom s)"
proof (cases "pending_invitations s")
  case None
  with assms show ?thesis by (simp add: invitation_complete_def)
next
  case (Some l)
  obtain e where e: "invitation_find s nick f l = Some e"
    using assms Some by (auto simp: invitation_complete_def bind_eq_Some_conv)
  show ?thesis
  proof (cases e)
    case None
    with assms Some e show ?thesis by (simp add: invitation_complete_def)
  next
    case entry: (Some i)
    define s1 where "s1 = call_invitation (iv_cb i) ch r s"
    define m :: "'u invitation \<Rightarrow> bool crash" where "m = invitation_cmp (own_nickname s1) nick"
    obtain l1 rem l2 where
      1: "(if f then Some (modify_first invitation_cmp_follow clear_cb l) else modify_crash m clear_cb l) = Some l1" and
      2: "remove_crash m l1 = Some l2" and
      s': "s' = (case rem of None \<Rightarrow> s1 | Some x \<Rightarrow> invitation_free x s1)\<lparr>pending_invitations := Some l2\<rparr>"
      using assms Some e entry unfolding m_def s1_def by (auto simp: invitation_complete_def Let_def bind_eq_Some_conv)
    have "map pending_key l1 = map pending_key l"
      using 1 by (auto simp: modify_crash_clear clear_cb_def pending_key_def intro!: map_modify_first split: if_splits)
    moreover have "quickplay s' = quickplay s" "groom s' = groom s"
      by (auto simp: s' s1_def split: option.splits)
    ultimately show ?thesis using Some 2 s' by auto
  qed
qed

lemma complete_ok:
  assumes "invitation_complete nick ch r f s = Some (s', b)" "session_ok s"
  shows "session_ok s'"
  using complete_cases [OF assms(1)]
proof
  assume "\<exists>l l1 l2 m. pending_invitations s = Some l \<and> map pending_key l1 = map pending_key l \<and> remove_crash m l1 = Some l2
           \<and> pending_invitations s' = Some l2 \<and> quickplay s' = quickplay s \<and> groom s' = groom s"
  then obtain l l1 l2 m where h: "pending_invitations s = Some l" "map pending_key l1 = map pending_key l" "remove_crash m l1 = Some l2"
    "pending_invitations s' = Some l2" "quickplay s' = quickplay s" "groom s' = groom s" by blast
  have "pending_list_ok l1" using assms(2) h(1) pending_list_keys [OF h(2)] by (simp add: session_ok_def pending_ok_def)
  then have "pending_list_ok l2" using pending_list_remove [OF h(3)] by simp
  with assms(2) show ?thesis by (simp add: h(4-) session_ok_def search_ok_def in_room_ok_def players_def pending_ok_def)
qed (use assms in simp)

lemma invitation_send_ok:
  assumes "xmpp_iq_invitation_send junk uuid nick f cb s = Some s'" "session_ok s"
  shows "session_ok s'"
proof -
  have gid: "session_ok (upd_gr (\<lambda>g. g\<lparr>gi_group_id := x g\<rparr>) s) \<longleftrightarrow> session_ok s" for x and s :: "'u session"
    by (simp add: session_ok_def search_ok_def in_room_ok_def pending_ok_def players_def)
  show ?thesis
    using assms by (auto simp: xmpp_iq_invitation_send_def Let_def bind_eq_Some_conv send_iq_get_Some gid split: if_splits
        elim!: register_ok)
qed

lemma invitation_result_ok:
  assumes "session_ok s" "xmpp_iq_invitation_result_cb m content s = Some s'"
  shows "session_ok s'"
  using assms by (auto simp: xmpp_iq_invitation_result_cb_def split: option.splits elim!: complete_ok)

lemma invitation_send_cb_ok:
  assumes "session_ok s" "xmpp_iq_invitation_send_cb msg content t s = Some s'"
  shows "session_ok s'"
  using assms by (auto simp: xmpp_iq_invitation_send_cb_def Let_def split: option.splits if_splits elim!: complete_ok)

lemma follow_send_ok:
  assumes "session_ok s" "xmpp_iq_follow_send nick oid cb s = Some s'"
  shows "session_ok s'"
proof (cases "nick = None \<or> oid = None")
  case True
  with assms show ?thesis by (auto simp: xmpp_iq_follow_send_def split: option.splits)
next
  case False
  then obtain n d where "nick = Some n" "oid = Some d" by auto
  with assms(2) obtain s1 where "invitation_register (Some n) 1 cb s = Some s1" "\<exists>e. s' = add_trace [e] s1"
    by (auto simp: xmpp_iq_follow_send_def bind_eq_Some_conv send_iq_get_Some)
  with register_ok assms(1) show ?thesis by fastforce
qed

lemma follow_send_cb_ok:
  assumes "session_ok s" "xmpp_iq_follow_send_cb n t s = Some s'"
  shows "session_ok s'"
  using assms by (auto simp: xmpp_iq_follow_send_cb_def split: if_splits elim!: complete_ok)

lemma follow_handler_ok:
  assumes "session_ok s" "xmpp_iq_follow_send_handler junk uuid i m content s = Some s'"
  shows "session_ok s'"
proof (cases "\<exists>d f n. content = Some d \<and> attr m ''from'' = Some f \<and> attr d ''nickname'' = Some n")
  case False
  with assms show ?thesis by (auto simp: xmpp_iq_follow_send_handler_def split: option.splits)
next
  case True
  then obtain d f n where c: "content = Some d" "attr m ''from'' = Some f" "attr d ''nickname'' = Some n" by blast
  with assms(2) obtain s1 e where "(if wb_accept_room_follows (cvar s) then xmpp_iq_invitation_send junk uuid (Some n) 1 None s else Some s) = Some s1"
    "s' = add_trace [e] s1"
    by (auto simp: xmpp_iq_follow_send_handler_def bind_eq_Some_conv send_iq_result_Some)
  with invitation_send_ok assms(1) show ?thesis by (cases "wb_accept_room_follows (cvar s)") fastforce+
qed

lemma invitation_request_ok:
  assumes "session_ok s" "xmpp_iq_invitation_request_cb m content s = Some s'"
  shows "session_ok s'"
proof (cases "\<exists>d a b t r. content = Some d \<and> attr m ''from'' = Some a \<and> attr d ''ms_resource'' = Some b \<and> attr d ''ticket'' = Some t \<and> attr d ''room_id'' = Some r")
  case False
  with assms show ?thesis by (auto simp: xmpp_iq_invitation_request_cb_def Let_def split: option.splits)
next
  case True
  then obtain d a b t r where c: "content = Some d" "attr m ''from'' = Some a" "attr d ''ms_resource'' = Some b" "attr d ''ticket'' = Some t"
    "attr d ''room_id'' = Some r" by blast
  have join: "session_ok s'" if "xmpp_iq_gameroom_join x y z k (add_trace [e] s1) = Some s'" "session_ok s1" for x y z k e s1
    using keeps_ok [OF keeps_requests(6) [OF that(1)]] that(2) by simp
  have completed: "session_ok s1" if "invitation_complete x None INVIT_ACCEPTED True s = Some (s1, b)" for x s1 b
    using complete_ok [OF that assms(1)] .
  show ?thesis using assms c
    by (auto simp: xmpp_iq_invitation_request_cb_def Let_def bind_eq_Some_conv send_iq_get_Some simp del: add_trace_simps(2)
        split: if_splits elim!: join dest!: completed)
qed

lemmas invitation_handlers_ok =
  invitation_result_ok invitation_send_cb_ok follow_send_ok follow_send_cb_ok follow_handler_ok invitation_request_ok

subsection \<open>A running session\<close>

text \<open>
  One step: a request of the user, a message, the answer to a request, or a change of the parts that
  other handlers keep (\<open>step_other\<close>).  A handler that crashes ends the program and has no step.
  Answers may come in any order and number, also to requests that were never sent.
\<close>

inductive session_step :: "(cstring \<Rightarrow> u32) \<Rightarrow> (cptr \<Rightarrow> cstring) \<Rightarrow> (nat \<Rightarrow> char) \<Rightarrow> 'u session \<Rightarrow> 'u session \<Rightarrow> bool"
  for strtof title junk where
  step_quickplay_open: "quickplay_open uuid mk type gm cb s = Some s' \<Longrightarrow> session_step strtof title junk s s'"
| step_quickplay_start: "quickplay_start title junk cb s = Some s' \<Longrightarrow> session_step strtof title junk s s'"
| step_quickplay_preinvite: "quickplay_preinvite oid pid nick s = Some s' \<Longrightarrow> session_step strtof title junk s s'"
| step_quickplay_cancel: "quickplay_cancel s = Some s' \<Longrightarrow> session_step strtof title junk s s'"
| step_quickplay_cb: "xmpp_iq_gameroom_quickplay_cb a msg t s = Some s' \<Longrightarrow> session_step strtof title junk s s'"
| step_quickplay_updated_list: "quickplay_updated_list title junk a s = Some s' \<Longrightarrow> session_step strtof title junk s s'"
| step_quickplay_started: "xmpp_iq_gameroom_quickplay_started_cb i content s = Some s' \<Longrightarrow> session_step strtof title junk s s'"
| step_quickplay_succeeded: "xmpp_iq_gameroom_quickplay_succeeded_cb i content s = Some s' \<Longrightarrow> session_step strtof title junk s s'"
| step_quickplay_canceled: "xmpp_iq_gameroom_quickplay_canceled_cb i content s = Some s' \<Longrightarrow> session_step strtof title junk s s'"
| step_preinvite_response: "xmpp_iq_preinvite_response_cb i m content s = Some s' \<Longrightarrow> session_step strtof title junk s s'"
| step_preinvite_cancel: "xmpp_iq_preinvite_cancel_handler m content s = Some s' \<Longrightarrow> session_step strtof title junk s s'"
| step_preinvite_invite: "xmpp_iq_preinvite_invite_handler i m content s = Some s' \<Longrightarrow> session_step strtof title junk s s'"
| step_offer: "xmpp_iq_gameroom_offer_cb content s = Some s' \<Longrightarrow> session_step strtof title junk s s'"
| step_open: "xmpp_iq_gameroom_open title junk mk type tries fun s = Some s' \<Longrightarrow> session_step strtof title junk s s'"
| step_open_cb: "xmpp_iq_gameroom_open_cb strtof oa msg content t s = Some s' \<Longrightarrow> session_step strtof title junk s s'"
| step_join: "xmpp_iq_gameroom_join ch rm gid reason s = Some s' \<Longrightarrow> session_step strtof title junk s s'"
| step_join_request: "gameroom_join_request rid gid reason s = Some s' \<Longrightarrow> session_step strtof title junk s s'"
| step_join_cb: "xmpp_iq_gameroom_join_cb strtof rid gid content t s = Some s' \<Longrightarrow> session_step strtof title junk s s'"
| step_leave: "xmpp_iq_gameroom_leave s = Some s' \<Longrightarrow> session_step strtof title junk s s'"
| step_leave_cb: "xmpp_iq_gameroom_leave_cb t s = Some s' \<Longrightarrow> session_step strtof title junk s s'"
| step_on_kicked: "xmpp_iq_gameroom_on_kicked_cb m content s = Some s' \<Longrightarrow> session_step strtof title junk s s'"
| step_on_expired: "xmpp_iq_gameroom_on_expired_cb m content s = Some s' \<Longrightarrow> session_step strtof title junk s s'"
| step_setplayer: "xmpp_iq_gameroom_setplayer team st cl cb s = Some s' \<Longrightarrow> session_step strtof title junk s s'"
| step_sync: "xmpp_iq_gameroom_sync_cb strtof content s = Some s' \<Longrightarrow> session_step strtof title junk s s'"
| step_setplayer_cb: "xmpp_iq_gameroom_setplayer_cb strtof cb content t s = Some s' \<Longrightarrow> session_step strtof title junk s s'"
| step_setname_cb: "xmpp_iq_gameroom_setname_cb strtof cb content t s = Some s' \<Longrightarrow> session_step strtof title junk s s'"
| step_promote_cb: "xmpp_iq_gameroom_promote_to_host_cb strtof cb content t s = Some s' \<Longrightarrow> session_step strtof title junk s s'"
| step_setinfo_cb: "xmpp_iq_gameroom_setinfo_cb strtof cb msg content t s = Some s' \<Longrightarrow> session_step strtof title junk s s'"
| step_update_pvp_cb: "xmpp_iq_gameroom_update_pvp_cb strtof cb msg content t s = Some s' \<Longrightarrow> session_step strtof title junk s s'"
| step_askserver_cb: "xmpp_iq_gameroom_askserver_cb cb msg content t s = Some s' \<Longrightarrow> session_step strtof title junk s s'"
| step_loosemaster: "xmpp_iq_gameroom_loosemaster_cb auto s = Some s' \<Longrightarrow> session_step strtof title junk s s'"
| step_session_join_cb: "xmpp_iq_session_join_cb msg content s = Some s' \<Longrightarrow> session_step strtof title junk s s'"
| step_invitation_send: "xmpp_iq_invitation_send junk uuid nick f cb s = Some s' \<Longrightarrow> session_step strtof title junk s s'"
| step_invitation_send_cb: "xmpp_iq_invitation_send_cb msg content t s = Some s' \<Longrightarrow> session_step strtof title junk s s'"
| step_invitation_result: "xmpp_iq_invitation_result_cb m content s = Some s' \<Longrightarrow> session_step strtof title junk s s'"
| step_invitation_request: "xmpp_iq_invitation_request_cb m content s = Some s' \<Longrightarrow> session_step strtof title junk s s'"
| step_follow_send: "xmpp_iq_follow_send nick oid cb s = Some s' \<Longrightarrow> session_step strtof title junk s s'"
| step_follow_send_cb: "xmpp_iq_follow_send_cb n t s = Some s' \<Longrightarrow> session_step strtof title junk s s'"
| step_follow_send_handler: "xmpp_iq_follow_send_handler junk uuid i m content s = Some s' \<Longrightarrow> session_step strtof title junk s s'"
| step_status: "status_set status s = Some s' \<Longrightarrow> session_step strtof title junk s s'"
| step_other: "keeps s s' \<Longrightarrow> session_step strtof title junk s s'"

inductive session_reachable :: "(cstring \<Rightarrow> u32) \<Rightarrow> (cptr \<Rightarrow> cstring) \<Rightarrow> (nat \<Rightarrow> char) \<Rightarrow> 'u session \<Rightarrow> bool"
  for strtof title junk where
  reach_init: "pending_invitations s = None \<Longrightarrow> session_reachable strtof title junk (session_init bootstrap host s)"
| reach_step: "session_reachable strtof title junk s \<Longrightarrow> session_step strtof title junk s s' \<Longrightarrow> session_reachable strtof title junk s'"

lemma session_step_ok: "session_step strtof title junk s s' \<Longrightarrow> session_ok s \<Longrightarrow> session_ok s'"
proof (induction rule: session_step.induct)
  case step_quickplay_cb
  then show ?case using keeps_ok [OF keeps_requests(12)] by blast
next
  case step_open
  then show ?case using keeps_ok [OF keeps_requests(7)] by blast
next
  case step_join
  then show ?case using keeps_ok [OF keeps_requests(6)] by blast
next
  case step_join_request
  then show ?case using keeps_ok [OF keeps_requests(5)] by blast
next
  case step_session_join_cb
  then show ?case using keeps_ok [OF keeps_requests(13)] by blast
qed (blast intro: search_handlers_ok search_update room_handlers_ok invitation_handlers_ok invitation_send_ok
       advances_ok [OF advances_answers(1)] advances_ok [OF advances_answers(2)] advances_ok [OF advances_answers(3)]
       advances_ok [OF advances_answers(4)] advances_ok [OF advances_answers(5)] advances_ok [OF advances_answers(6)]
       advances_ok [OF advances_answers(7)] advances_ok [OF advances_answers(8)] keeps_ok keeps_ok [OF keeps_leave]
       keeps_ok [OF keeps_setplayer] keeps_ok [OF keeps_status_set])+

lemma session_init_ok: "pending_invitations s = None \<Longrightarrow> session_ok (session_init b h s)"
  by (simp add: session_init_def zero_session_def Let_def session_ok_def search_ok_def in_room_ok_def pending_ok_def)

lemma session_reachable_ok: "session_reachable strtof title junk s \<Longrightarrow> session_ok s"
  by (induction rule: session_reachable.induct) (auto intro: session_init_ok session_step_ok)

text \<open>C3: in every session that the handlers can reach, whatever the user asks, the server sends and however answers
  are delayed or lost: at most one match search is prepared or running (never both an identifier that waits to be
  started and one that runs), a session in a room has a list of players to synchronise, and no invitation is pending
  twice and no second follow request next to another.\<close>

theorem session_invariants:
  assumes "session_reachable strtof title junk s"
  shows "(qp_pre_uid (quickplay s) = None \<or> qp_uid (quickplay s) = None)
    \<and> (gi_jid (groom s) \<noteq> None \<longrightarrow> co_players (gm_core (gi_sync (groom s))) \<noteq> None)
    \<and> (\<forall>l. pending_invitations s = Some l \<longrightarrow> distinct (map pending_key l) \<and> length (filter (\<lambda>i. iv_is_follow i = 1) l) \<le> 1)"
proof -
  have "filter (\<lambda>k. snd k = 1) (map pending_key l) = map pending_key (filter (\<lambda>i. iv_is_follow i = 1) l)" for l :: "'a invitation list"
    by (induction l) (auto simp: pending_key_def)
  with session_reachable_ok [OF assms] show ?thesis
    by (auto simp: session_ok_def search_ok_def in_room_ok_def pending_ok_def players_def pending_list_ok_def Let_def)
qed

definition searching_session :: "nat session" where
  "searching_session = upd_qp (\<lambda>q. q\<lparr>qp_pre_uid := Some ''u1'', qp_type := 8, qp_channel_switches := 0\<rparr>)
     (session_init None (Some ''warface'') (zero_session (demo_session\<lparr>pending_invitations := None\<rparr>)))"

theorem session_invariants_witness:
  "session_reachable (\<lambda>_. 0) show_ptr (\<lambda>_. NUL) searching_session \<and> qp_uid (quickplay searching_session) = None"
proof -
  let ?s = "session_init None (Some ''warface'') (zero_session (demo_session\<lparr>pending_invitations := None\<rparr>))"
  have r: "session_reachable (\<lambda>_. 0) show_ptr (\<lambda>_. NUL) ?s"
    by (rule reach_init) (simp add: zero_session_def)
  have o: "quickplay_open ''u1'' None 8 None None ?s = Some searching_session"
    by (simp add: quickplay_open_def searching_session_def session_init_def zero_session_def Let_def upd_qp_def)
  have "session_reachable (\<lambda>_. 0) show_ptr (\<lambda>_. NUL) searching_session"
    by (rule reach_step [OF r step_quickplay_open [OF o]])
  with session_invariants [OF this] show ?thesis by (auto simp: searching_session_def)
qed

subsection \<open>From a search to a match\<close>

lemma quickplay_request:
  assumes "xmpp_iq_gameroom_quickplay title junk uid mk type gm n tries cb s = Some s'"
  shows "quickplay s' = quickplay s" "filter (\<lambda>e. e = Call_user u) (trace s') = filter (\<lambda>e. e = Call_user u) (trace s)"
  using assms by (auto simp: xmpp_iq_gameroom_quickplay_def Let_def bind_eq_Some_conv send_iq_get_Some split: option.splits)

text \<open>C4: a search that the user opened (without a change of channel), started and that the server accepted and
  completed calls the user's callback exactly once, when it succeeds, and leaves nothing of the search behind (of \<open>session.quickplay\<close>
  only its type and the list of maps are kept); the same message a second time does nothing.\<close>

theorem quickplay_lifecycle:
  assumes "quickplay_open uuid mk type gm None s = Some s1"
    "qp_uid (quickplay s) = None"
    "quickplay_start title junk (Some u) s1 = Some s2"
    "s3 = quickplay_started (Some uuid) s2" "s4 = quickplay_succeeded (Some uuid) s3"
  shows "qp_uid (quickplay s3) = Some uuid \<and> qp_pre_uid (quickplay s3) = None
     \<and> filter (\<lambda>e. e = Call_user u) (trace s4) = filter (\<lambda>e. e = Call_user u) (trace s) @ [Call_user u]
     \<and> trace s4 = trace s2 @ [Call_user u]
     \<and> qp_uid (quickplay s4) = None \<and> qp_pre_uid (quickplay s4) = None \<and> qp_group (quickplay s4) = None
     \<and> quickplay s4 = (quickplay s)\<lparr>qp_pre_uid := None, qp_uid := None, qp_try_again := 0, qp_group := None, qp_master := None,
          qp_mission_id := None, qp_game_mode := None, qp_type := type, qp_channel_switches := 0, qp_start_cb := None\<rparr>
     \<and> quickplay_succeeded (Some uuid) s4 = s4"
proof -
  have 1: "quickplay s1 = (quickplay s)\<lparr>qp_pre_uid := Some uuid, qp_type := type, qp_channel_switches := 0,
             qp_mission_id := (if mk = None then qp_mission_id (quickplay s) else mk),
             qp_game_mode := (if gm = None then qp_game_mode (quickplay s) else gm)\<rparr>"
    "filter (\<lambda>e. e = Call_user u) (trace s1) = filter (\<lambda>e. e = Call_user u) (trace s)"
    using assms(1,2) by (auto simp: quickplay_open_def Let_def bind_eq_Some_conv dest!: join_channel_Some split: if_splits option.splits)
  have 2: "quickplay s2 = (quickplay s1)\<lparr>qp_start_cb := Some u,
             qp_group := (case qp_group (quickplay s1) of None \<Rightarrow> Some [] | Some l \<Rightarrow> Some l)\<rparr>"
    "filter (\<lambda>e. e = Call_user u) (trace s2) = filter (\<lambda>e. e = Call_user u) (trace s1)"
    using assms(3) 1(1) by (auto simp: quickplay_start_def Let_def dest: quickplay_request)
  have 3: "quickplay s3 = (quickplay s2)\<lparr>qp_uid := Some uuid, qp_pre_uid := None, qp_try_again := 0\<rparr>" "trace s3 = trace s2"
    using 2(1) 1(1) by (simp_all add: assms(4) quickplay_started_def)
  have 4: "s4 = quickplay_free (add_trace [Call_user u] s3)"
    using 3(1) 2(1) by (simp add: assms(5) quickplay_succeeded_def)
  show ?thesis using 1 2 3 by (simp add: 4 quickplay_free_def quickplay_succeeded_def)
qed

theorem quickplay_lifecycle_witness:
  "\<exists>s1 s2. quickplay_open ''u1'' None 8 None None demo_session = Some s1
     \<and> quickplay_start show_ptr (\<lambda>_. NUL) (Some 5) s1 = Some s2
     \<and> trace (quickplay_succeeded (Some ''u1'') (quickplay_started (Some ''u1'') s2)) = trace s2 @ [Call_user 5]"
proof -
  have nopve: "strstr ''pvp_pro'' ''pve'' = None" by code_simp
  obtain s1 where 1: "quickplay_open ''u1'' None 8 None None demo_session = Some s1"
    by (simp add: quickplay_open_def demo_session_simps Let_def demo_session_def session_init_def zero_session_def nopve ROOM_PVE_QUICKPLAY_def)
  obtain s2 where 2: "quickplay_start show_ptr (\<lambda>_. NUL) (Some 5) s1 = Some s2"
    using 1 by (auto simp: quickplay_open_def quickplay_start_def xmpp_iq_gameroom_quickplay_def quickplay_mode_def Let_def demo_session_simps
        nopve ROOM_PVE_QUICKPLAY_def ROOM_PVP_QUICKPLAY_def ROOM_PVP_RATING_def xml_serialize_inplace_def xml_serialize_buf_eq
        send_iq_get_def jid_to_str_def JID_MS_def demo_session_def session_init_def zero_session_def)
  show ?thesis using quickplay_lifecycle [OF 1 _ 2 refl refl] 1 2 by (auto simp: demo_session_simps)
qed

text \<open>C38: any message \<open>preinvite_cancel\<close> with content ends the preparation of a search, whoever sends it and
  whatever identifier it names; the group of invited players is not told.\<close>

theorem preinvite_cancel_by_stranger:
  assumes "xmpp_iq_preinvite_cancel_handler msg (Some data) s = Some s'"
    "attr data ''uid'' \<noteq> qp_pre_uid (quickplay s)"
  shows "qp_pre_uid (quickplay s') = None \<and> qp_master (quickplay s') = None \<and> trace s' = trace s
    \<and> qp_group (quickplay s') = qp_group (quickplay s)"
  using assms by (auto simp: xmpp_iq_preinvite_cancel_handler_def Let_def)

theorem preinvite_cancel_by_stranger_witness:
  "\<exists>s'. xmpp_iq_preinvite_cancel_handler ''<iq/>'' (Some ''<preinvite_cancel/>'') searching_session = Some s'
     \<and> qp_pre_uid (quickplay searching_session) = Some ''u1'' \<and> qp_pre_uid (quickplay s') = None"
proof -
  have a: "attr ''<preinvite_cancel/>'' ''uid'' = None" by code_simp
  have p: "qp_pre_uid (quickplay searching_session) = Some ''u1''" by (simp add: searching_session_def)
  obtain s' where s': "xmpp_iq_preinvite_cancel_handler ''<iq/>'' (Some ''<preinvite_cancel/>'') searching_session = Some s'"
    by (simp add: xmpp_iq_preinvite_cancel_handler_def a)
  from preinvite_cancel_by_stranger [OF s'] a p s' show ?thesis by simp
qed

text \<open>these requests read the error message of the answer; when the answer never comes, their callback gets no
  message after 120 seconds and the program crashes.\<close>

theorem timeouts_crash:
  "xmpp_iq_gameroom_open_cb strtof oa None None XMPP_TYPE_ERROR s = None
   \<and> xmpp_iq_gameroom_quickplay_cb qa None XMPP_TYPE_ERROR s = None
   \<and> xmpp_iq_gameroom_askserver_cb cb None None XMPP_TYPE_ERROR s = None
   \<and> xmpp_iq_gameroom_setinfo_cb strtof cb None None XMPP_TYPE_ERROR s = None
   \<and> xmpp_iq_gameroom_update_pvp_cb strtof cb None None XMPP_TYPE_ERROR s = None
   \<and> xmpp_iq_send_invitation_cb cb None XMPP_TYPE_ERROR s = None"
  by (simp add: xmpp_iq_gameroom_open_cb_def xmpp_iq_gameroom_quickplay_cb_def xmpp_iq_gameroom_askserver_cb_def
      xmpp_iq_gameroom_setinfo_cb_def xmpp_iq_gameroom_update_pvp_cb_def xmpp_iq_send_invitation_cb_def)

lemma changed_mask: "changed r (a OR b) \<longleftrightarrow> changed r a \<or> changed r b"
  by (auto simp: changed_def bit.conj_disj_distrib or_eq_0_iff)

text \<open>C36: when the answer to \<open>gameroom_setplayer\<close> arrives after the room was left, and it carries the players,
  the program crashes: the callback, unlike the handler of \<open>gameroom_sync\<close>, does not look whether there still is a
  room, and the list of players is gone.\<close>

theorem late_answer_crashes:
  assumes "xmpp_iq_gameroom_leave_cb t s = Some s1" "t \<noteq> XMPP_TYPE_ERROR"
    "gameroom_parse strtof False gameroom_init data = Some (sync, ret)" "changed ret GR_SYNC_CORE"
  shows "xmpp_iq_gameroom_setplayer_cb strtof cb (Some data) XMPP_TYPE_RESULT s1 = None"
proof -
  obtain s2 s3 where b: "back_to_lobby s2 = Some s3" "status_set (STATUS_ONLINE OR STATUS_LOBBY) s3 = Some s1"
    using assms(1,2) by (auto simp: xmpp_iq_gameroom_leave_cb_def Let_def bind_eq_Some_conv)
  have gone: "players s1 = None"
    using keeps_status_set [OF b(2)] b(1)
    by (auto simp: players_def keeps_def back_to_lobby_def Let_def bind_eq_Some_conv gameroom_sync_free_def gameroom_free_def)
  show ?thesis
  proof (rule ccontr)
    assume "\<not> ?thesis"
    then obtain s' where "gameroom_sync strtof data (upd_gr (\<lambda>g. g\<lparr>gi_joined := False\<rparr>) s1) = Some s'"
      by (auto simp: xmpp_iq_gameroom_setplayer_cb_def bind_eq_None_conv)
    then obtain x2 x3 where x2: "keeps (upd_gr (\<lambda>g. g\<lparr>gi_joined := False\<rparr>) s1) x2" and 3: "sync_player_part sync x2 = Some x3"
      using assms(3,4) by (elim gameroom_sync_parts) (simp add: changed_mask)
    have 2: "keeps s1 x2" using x2 by (simp add: keeps_def)
    have "players x3 = players s1" using players_keeps [OF 2] players_keeps [OF keeps_sync_player [OF 3]] by simp
    moreover have "players x3 \<noteq> None" using 3 by (auto simp: sync_player_part_def bind_eq_Some_conv players_def)
    ultimately show False using gone by simp
  qed
qed

subsection \<open>Joining the match of a room\<close>

definition is_session_join :: "'u effect \<Rightarrow> bool" where
  "is_session_join e \<longleftrightarrow>
     (case e of
        Send_iq t type (Some CB_session_join) msg_id x \<Rightarrow> type = XMPP_TYPE_GET \<and> msg_id = None \<and> x = k01_query '' <session_join/>''
      | _ \<Rightarrow> False)"

text \<open>What tells the state of the room: a \<open>gameroom_sync\<close>, or the answer to \<open>gameroom_setplayer\<close>.\<close>

datatype 'u room_news = News cstring | Answered "'u option" cstring

fun hear_news :: "(cstring \<Rightarrow> u32) \<Rightarrow> 'u room_news list \<Rightarrow> 'u session \<Rightarrow> 'u session crash" where
  "hear_news strtof [] s = Some s"
| "hear_news strtof (News data # ns) s = do { s1 \<leftarrow> xmpp_iq_gameroom_sync_cb strtof (Some data) s; hear_news strtof ns s1 }"
| "hear_news strtof (Answered cb data # ns) s =
     do { s1 \<leftarrow> xmpp_iq_gameroom_setplayer_cb strtof cb (Some data) XMPP_TYPE_RESULT s; hear_news strtof ns s1 }"

text \<open>The status of the session that a message reports, if it does.\<close>

definition reported :: "(cstring \<Rightarrow> u32) \<Rightarrow> cstring \<Rightarrow> int option" where
  "reported strtof data =
     (case gameroom_parse strtof False gameroom_init data of
        None \<Rightarrow> None
      | Some (sync, ret) \<Rightarrow> if changed ret GR_SYNC_SESSION then Some (se_status (gm_session sync)) else None)"

text \<open>What is joined when: a match is running (2) and was not joined yet.  The answer to \<open>gameroom_setplayer\<close>
  forgets that it was.\<close>

fun joins :: "(cstring \<Rightarrow> u32) \<Rightarrow> bool \<Rightarrow> 'u room_news list \<Rightarrow> nat" where
  "joins strtof joined [] = 0"
| "joins strtof joined (News data # ns) =
     (case reported strtof data of
        None \<Rightarrow> joins strtof joined ns
      | Some st \<Rightarrow> (if st = 2 \<and> \<not> joined then 1 else 0) + joins strtof (st = 2) ns)"
| "joins strtof joined (Answered cb data # ns) =
     (case reported strtof data of
        None \<Rightarrow> joins strtof False ns
      | Some st \<Rightarrow> (if st = 2 then 1 else 0) + joins strtof (st = 2) ns)"

definition joins_sent :: "'u session \<Rightarrow> nat" where
  "joins_sent s = length (filter is_session_join (trace s))"

definition same_joins :: "'u session \<Rightarrow> 'u session \<Rightarrow> bool" where
  "same_joins s t \<longleftrightarrow> joins_sent t = joins_sent s \<and> gi_joined (groom t) = gi_joined (groom s) \<and> gi_jid (groom t) = gi_jid (groom s)"

lemma same_joins_trans: "same_joins s t \<Longrightarrow> same_joins t u \<Longrightarrow> same_joins s u"
  by (simp add: same_joins_def)

lemma same_joins_class: "status_update_class c s = Some t \<Longrightarrow> same_joins s t"
  by (auto simp: status_update_class_def bind_eq_Some_conv Let_def same_joins_def joins_sent_def)

lemma same_joins_setplayer: "xmpp_iq_gameroom_setplayer a b c cb s = Some t \<Longrightarrow> same_joins s t"
  by (auto simp: xmpp_iq_gameroom_setplayer_def Let_def send_iq_get_Some same_joins_def joins_sent_def is_session_join_def)

lemma joins_sent_upd [simp]: "joins_sent (upd_gr f s) = joins_sent s"
  by (simp add: joins_sent_def)

lemma same_joins_player: "sync_player_part sync s = Some t \<Longrightarrow> same_joins s t"
  by (auto simp: sync_player_part_def bind_eq_Some_conv same_joins_def split: option.splits if_splits
      dest!: same_joins_class same_joins_setplayer)

lemma joins_session_part:
  "sync_session_part sync s = Some t \<Longrightarrow>
     joins_sent t = joins_sent s + (if se_status (gm_session sync) = 2 \<and> \<not> gi_joined (groom s) then 1 else 0)
     \<and> gi_joined (groom t) = (se_status (gm_session sync) = 2) \<and> gi_jid (groom t) = gi_jid (groom s)"
  by (auto simp: sync_session_part_def bind_eq_Some_conv send_iq_get_Some joins_sent_def is_session_join_def split: if_splits)

lemma joins_sync:
  assumes "gameroom_sync strtof data s = Some t"
  shows "joins_sent t = joins_sent s + (if reported strtof data = Some 2 \<and> \<not> gi_joined (groom s) then 1 else 0)
    \<and> gi_joined (groom t) = (case reported strtof data of None \<Rightarrow> gi_joined (groom s) | Some st \<Rightarrow> st = 2)
    \<and> gi_jid (groom t) = gi_jid (groom s)"
proof -
  obtain sync ret s1 s2 s3 where
    p: "gameroom_parse strtof False gameroom_init data = Some (sync, ret)" and
    1: "(if changed ret GR_SYNC_SESSION then sync_session_part sync s else Some s) = Some s1" and
    2: "(if changed ret GR_SYNC_ROOM_MASTER then sync_master_part sync s1 else Some s1) = Some s2" and
    3: "(if changed ret (GR_SYNC_CORE OR GR_SYNC_CUSTOM_PARAMS) then sync_player_part sync s2 else Some s2) = Some s3" and
    t: "t = upd_gr (\<lambda>g. g\<lparr>gi_sync := gameroom_update (gi_sync g) sync ret\<rparr>) s3"
    using assms by (auto simp: gameroom_sync_def bind_eq_Some_conv)
  have "s2 = s1" using 2 by (auto simp: sync_master_part_def Let_def bind_eq_Some_conv split: if_splits)
  then have "same_joins s1 s3" using 3 same_joins_player by (auto simp: same_joins_def split: if_splits)
  then have "same_joins s1 t" by (simp add: t same_joins_def joins_sent_def)
  then show ?thesis using 1 p joins_session_part [of sync s s1]
    by (cases "changed ret GR_SYNC_SESSION") (auto simp: reported_def same_joins_def)
qed

lemma joins_callback: "joins_sent (call_opt cb s) = joins_sent s \<and> groom (call_opt cb s) = groom s"
  by (cases cb) (simp_all add: call_opt_def joins_sent_def is_session_join_def)

lemma joins_counted:
  assumes "hear_news strtof ns s = Some t" "gi_jid (groom s) \<noteq> None"
  shows "joins_sent t = joins_sent s + joins strtof (gi_joined (groom s)) ns"
  using assms
proof (induction ns arbitrary: s)
  case Nil
  then show ?case by simp
next
  case (Cons n ns)
  show ?case
  proof (cases n)
    case (News data)
    with Cons.prems obtain s1 where 1: "gameroom_sync strtof data s = Some s1" "hear_news strtof ns s1 = Some t"
      by (auto simp: xmpp_iq_gameroom_sync_cb_def bind_eq_Some_conv)
    note j = joins_sync [OF 1(1)]
    with Cons.IH [OF 1(2)] Cons.prems(2) show ?thesis by (auto simp: News split: option.splits)
  next
    case (Answered cb data)
    let ?s = "upd_gr (\<lambda>g. g\<lparr>gi_joined := False\<rparr>) s"
    from Cons.prems Answered obtain s1 where 1: "gameroom_sync strtof data ?s = Some s1" "hear_news strtof ns (call_opt cb s1) = Some t"
      by (auto simp: xmpp_iq_gameroom_setplayer_cb_def bind_eq_Some_conv)
    note j = joins_sync [OF 1(1)]
    have s: "joins_sent ?s = joins_sent s" "gi_joined (groom ?s) = False" "gi_jid (groom ?s) = gi_jid (groom s)"
      by (simp_all add: joins_sent_def)
    with Cons.IH [OF 1(2)] Cons.prems(2) j joins_callback [of cb s1] show ?thesis by (auto simp: Answered split: option.splits)
  qed
qed

definition one_match :: "(cstring \<Rightarrow> u32) \<Rightarrow> 'u room_news list \<Rightarrow> bool" where
  "one_match strtof ns \<longleftrightarrow> list_all (\<lambda>n. case n of News data \<Rightarrow> reported strtof data = None \<or> reported strtof data = Some 2 | _ \<Rightarrow> False) ns"

definition runs_match :: "(cstring \<Rightarrow> u32) \<Rightarrow> 'u room_news list \<Rightarrow> bool" where
  "runs_match strtof ns \<longleftrightarrow> list_ex (\<lambda>n. case n of News data \<Rightarrow> reported strtof data = Some 2 | _ \<Rightarrow> False) ns"

lemma joined_no_more: "one_match strtof ns \<Longrightarrow> joins strtof True ns = 0"
  by (induction ns) (auto simp: one_match_def split: room_news.splits)

lemma joined_once: "one_match strtof ns \<Longrightarrow> joins strtof False ns = (if runs_match strtof ns then 1 else 0)"
proof (induction ns)
  case (Cons n ns)
  then have "one_match strtof ns" by (simp add: one_match_def)
  with Cons joined_no_more [of strtof ns] show ?case
    by (auto simp: one_match_def runs_match_def split: room_news.splits)
qed (simp add: runs_match_def)

text \<open>C22: in a room, \<open>session_join\<close> is sent exactly when a message reports a running match (status 2) that was not
  joined: the number of requests is that of the automaton \<open>joins\<close>.  In particular any number of \<open>gameroom_sync\<close> messages
  of the same match make one request, and only the answer to an own \<open>gameroom_setplayer\<close> can repeat it.\<close>

theorem session_join_once:
  assumes "hear_news strtof ns s = Some t" "gi_jid (groom s) \<noteq> None"
  shows "joins_sent t = joins_sent s + joins strtof (gi_joined (groom s)) ns
    \<and> (\<not> gi_joined (groom s) \<and> one_match strtof ns \<longrightarrow> joins_sent t = joins_sent s + (if runs_match strtof ns then 1 else 0))"
  using joins_counted [OF assms] joined_once [of strtof ns] by simp

subsection \<open>The outcome of an invitation\<close>

lemma invitation_cmp_plain:
  "iv_is_follow i \<noteq> 1 \<Longrightarrow> invitation_cmp own (Some n) i = Some (iv_nickname i = n)"
  "invitation_cmp (Some o') (Some n) i = Some (iv_is_follow i = 1 \<and> n = o' \<or> iv_nickname i = n)"
  by (auto simp: invitation_cmp_def)

lemma register_fresh:
  assumes "invitation_register (Some n) 0 (Some u) s = Some s1"
    "\<forall>i \<in> set (case pending_invitations s of None \<Rightarrow> [] | Some l \<Rightarrow> l). invitation_cmp (own_nickname s) (Some n) i = Some False"
  shows "s1 = s\<lparr>pending_invitations := Some (\<lparr>iv_nickname = n, iv_is_follow = 0, iv_cb = Some u\<rparr>
               # (case pending_invitations s of None \<Rightarrow> [] | Some l \<Rightarrow> l))\<rparr>"
proof -
  have "find_crash (invitation_cmp (own_nickname s) (Some n)) l = Some None"
    if "\<forall>i \<in> set l. invitation_cmp (own_nickname s) (Some n) i = Some False" for l :: "'a invitation list"
    using that by (induction l) auto
  with assms show ?thesis by (simp add: invitation_register_def invitation_find_def Let_def split: option.splits)
qed

text \<open>C23: an invitation that was sent to a player who has no pending entry yet is told its outcome exactly once, with
  the channel and the result of the message, and is forgotten; the list of the other invitations is as before, and
  the same message again finds nothing.\<close>

theorem invitation_told_once:
  assumes "invitation_register (Some n) 0 (Some u) s = Some s1"
    "pending_invitations s = Some l" "\<forall>i \<in> set l. invitation_cmp (own_nickname s) (Some n) i = Some False"
  shows "\<exists>s2. invitation_complete (Some n) ch r False s1 = Some (s2, True)
     \<and> trace s2 = trace s @ [Call_invitation u ch r] \<and> pending_invitations s2 = Some l
     \<and> invitation_complete (Some n) ch' r' False s2 = Some (s2, False)"
proof -
  have s1: "s1 = s\<lparr>pending_invitations := Some (\<lparr>iv_nickname = n, iv_is_follow = 0, iv_cb = Some u\<rparr> # l)\<rparr>"
    using register_fresh [OF assms(1)] assms(2,3) by simp
  have none: "find_crash (invitation_cmp (own_nickname s) (Some n)) l = Some None"
    using assms(3) by (induction l) auto
  have own: "own_nickname (s\<lparr>pending_invitations := p\<rparr>) = own_nickname s" "own_nickname (add_trace es s) = own_nickname s"
    "own_nickname (s\<lparr>trace := t\<rparr>) = own_nickname s" for p es t and s :: "'a session"
    by (simp_all add: own_nickname_def)
  show ?thesis
    by (simp add: s1 invitation_complete_def invitation_find_def Let_def invitation_cmp_plain own clear_cb_def invitation_free_def
        call_invitation_def add_trace_def none)
qed

text \<open>completing a follow request removes an entry by nickname, not the follow request: when an invitation to
  the same player is in front of it, that one is told it expired and is removed, while the follow request stays in
  the list with no callback left.\<close>

theorem follow_completion_removes_wrong_entry:
  fixes s :: "'u session"
  assumes "pending_invitations s = Some (\<lparr>iv_nickname = n, iv_is_follow = 0, iv_cb = Some u2\<rparr>
      # \<lparr>iv_nickname = n, iv_is_follow = 1, iv_cb = Some u1\<rparr> # l)"
  shows "invitation_complete (Some n) ch r True s =
     Some (s\<lparr>trace := trace s @ [Call_invitation u1 ch r, Call_invitation u2 None INVIT_EXPIRED],
             pending_invitations := Some (\<lparr>iv_nickname = n, iv_is_follow = 1, iv_cb = None\<rparr> # l)\<rparr>, True)"
  using assms by (simp add: invitation_complete_def invitation_find_def invitation_cmp_follow_def Let_def invitation_cmp_plain
      clear_cb_def invitation_free_def add_trace_def)

definition two_invitations :: "nat session" where
  "two_invitations = demo_session\<lparr>pending_invitations := Some [\<lparr>iv_nickname = ''ann'', iv_is_follow = 0, iv_cb = Some 2\<rparr>,
     \<lparr>iv_nickname = ''ann'', iv_is_follow = 1, iv_cb = Some 1\<rparr>]\<rparr>"

theorem follow_completion_removes_wrong_entry_witness:
  "map_option (\<lambda>(s, _). (trace s, pending_invitations s)) (invitation_complete (Some ''ann'') None INVIT_ACCEPTED True two_invitations)
     = Some ([Call_invitation 1 None INVIT_ACCEPTED, Call_invitation 2 None INVIT_EXPIRED],
             Some [\<lparr>iv_nickname = ''ann'', iv_is_follow = 1, iv_cb = None\<rparr>])"
proof -
  have p: "pending_invitations two_invitations = Some (\<lparr>iv_nickname = ''ann'', iv_is_follow = 0, iv_cb = Some 2\<rparr>
      # \<lparr>iv_nickname = ''ann'', iv_is_follow = 1, iv_cb = Some 1\<rparr> # [])"
    by (simp add: two_invitations_def)
  have t: "trace two_invitations = []" by (simp add: two_invitations_def demo_session_simps)
  show ?thesis by (simp add: follow_completion_removes_wrong_entry [OF p] t)
qed

theorem invitation_told_once_witness:
  "\<exists>s1 s2. invitation_register (Some ''bob'') 0 (Some 7) (demo_session\<lparr>pending_invitations := Some []\<rparr>) = Some s1
     \<and> invitation_complete (Some ''bob'') (Some ''pvp_1'') 0 False s1 = Some (s2, True)
     \<and> trace s2 = [Call_invitation 7 (Some ''pvp_1'') 0]"
proof -
  obtain s1 where 1: "invitation_register (Some ''bob'') 0 (Some 7) (demo_session\<lparr>pending_invitations := Some []\<rparr>) = Some s1"
    by (simp add: invitation_register_def invitation_find_def Let_def)
  from invitation_told_once [OF 1, of "[]" "Some ''pvp_1''" 0 None 0] 1 show ?thesis
    by (auto simp: demo_session_simps)
qed

text \<open>A message that reports a running match.\<close>

definition match_attrs :: "(cstring \<times> cstring) list" where
  "match_attrs = [(''id'', ''5''), (''status'', int_dec 2), (''revision'', int_dec (uint (3 :: u32)))]"

definition match_message :: cstring where
  "match_message = ''<game_room><session'' @ render_attrs match_attrs @ ''></session></game_room>''"

lemma match_reported:
  "\<exists>sync. gameroom_parse int_strtof False gameroom_init match_message = Some (sync, GR_SYNC_SESSION) \<and> se_status (gm_session sync) = 2"
proof -
  have f: "field_node match_message ''core'' = None" "field_node match_message ''custom_params'' = None" "field_node match_message ''mission'' = None"
    "field_node match_message ''room_master'' = None" "field_node match_message ''regions'' = None" "field_node match_message ''auto_start'' = None"
    "field_node match_message ''clan_war'' = None" "field_node match_message ''ingame_chat'' = None"
    "field_node match_message ''session'' = Some (render_attrs match_attrs @ ''>'')" by code_simp+
  have "list_all attr_ok match_attrs" by (simp add: match_attrs_def attr_ok_int) (simp add: attr_ok_def)
  note r = get_attr_int [OF this]
  have "get_info_int (render_attrs match_attrs @ ''>'') (''status'' @ ''='' @ [apos]) [apos] = 2"
    "get_info_int (render_attrs match_attrs @ ''>'') (''revision'' @ ''='' @ [apos]) [apos] = uint (3 :: u32)"
    by (rule r; simp add: match_attrs_def attr_hit_def name_ok_def)+
  then have n: "sync_int (render_attrs match_attrs @ ''>'') ''status'' = 2" "sync_uint (render_attrs match_attrs @ ''>'') ''revision'' = 3"
    by (simp_all add: sync_int_def sync_uint_def sync_long_def c_int_id c_uint_def del: render_attrs_simps)
  show ?thesis unfolding gameroom_parse_def f
    by (simp add: gameroom_sync_node_def sync_session_def n gameroom_init_def Let_def gr_sync_types del: render_attrs_simps)
qed

theorem session_join_once_witness:
  "\<exists>t. hear_news int_strtof [News match_message, News match_message] (demo_session\<lparr>groom := (groom demo_session)\<lparr>gi_jid := Some ''room''\<rparr>\<rparr>) = Some t
     \<and> joins_sent t = 1"
proof -
  let ?s = "demo_session\<lparr>groom := (groom demo_session)\<lparr>gi_jid := Some ''room''\<rparr>\<rparr>"
  obtain sync where p: "gameroom_parse int_strtof False gameroom_init match_message = Some (sync, GR_SYNC_SESSION)" "se_status (gm_session sync) = 2"
    using match_reported by blast
  have c: "changed GR_SYNC_SESSION GR_SYNC_SESSION" "\<not> changed GR_SYNC_SESSION GR_SYNC_ROOM_MASTER"
    "\<not> changed GR_SYNC_SESSION (GR_SYNC_CORE OR GR_SYNC_CUSTOM_PARAMS)" by (simp_all add: changed_def gr_sync_types)
  have m: "reported int_strtof match_message = Some 2" by (simp add: reported_def p c)
  have "hear_news int_strtof [News match_message, News match_message] ?s \<noteq> None"
    by (simp add: xmpp_iq_gameroom_sync_cb_def gameroom_sync_def p c sync_session_part_def send_iq_get_def jid_to_str_def JID_MS_def
        demo_session_simps Let_def bind_eq_None_conv)
  then obtain t where t: "hear_news int_strtof [News match_message, News match_message] ?s = Some t" by blast
  from session_join_once [OF t] t show ?thesis by (auto simp: m joins_sent_def demo_session_simps)
qed

lemma status_set_lobby:
  assumes "ol_jid_k01 (online s) \<noteq> None" "pr_friends (profile s) \<noteq> None" "cl_mates (profile s) \<noteq> None"
  shows "\<exists>s'. status_set (STATUS_ONLINE OR STATUS_LOBBY) s = Some s'"
proof -
  have "(STATUS_ONLINE OR STATUS_LOBBY) AND STATUS_LOBBY \<noteq> 0" by (simp add: status_flags)
  then show ?thesis using assms
    by (auto simp: status_set_def xmpp_iq_player_status_def send_iq_get_def jid_to_str_def JID_K01_def JID_def
        status_update_location_def Let_def each_friend each_clanmate simp del: add_trace_simps(3))
qed

lemma sample_message_parses:
  "\<exists>src ret. gameroom_parse int_strtof False gameroom_init
       (core_message (\<lambda>f. int_dec (uint f)) ''99'' 2 sample_core ''Ann'' [sample_player]) = Some (src, ret) \<and> changed ret GR_SYNC_CORE"
proof -
  have h: "list_all plain_player [sample_player]" "plain_value ''99''" "plain_value (escape ''Ann'')" "NUL \<notin> set ''Ann''"
    "core_bytes sample_core"
    by (simp_all add: plain_player_def sample_player_def plain_value_def escape_def escape_char_def core_bytes_def byte_range_def
        sample_core_def gameroom_init_def)
  note f = message_fields(1-9) [OF h(1) int_float_text h(2,3), where type = 2 and c = sample_core]
  note sc = sync_core_read [OF h(1) int_float_text h(2-5)]
  have "revision (gm_core gameroom_init) < revision sample_core" by (simp add: gameroom_init_def sample_core_def)
  then show ?thesis
    unfolding gameroom_parse_def f using sc by (simp add: gameroom_sync_node_def Let_def changed_def gr_sync_types)
qed

theorem late_answer_crashes_witness:
  "\<exists>s1 data. xmpp_iq_gameroom_leave_cb XMPP_TYPE_RESULT demo_session = Some s1
     \<and> xmpp_iq_gameroom_setplayer_cb int_strtof None (Some data) XMPP_TYPE_RESULT s1 = None"
proof -
  obtain s2 where 2: "back_to_lobby (upd_gr (\<lambda>g. g\<lparr>gi_leaving := False, gi_leave_timeout := 1000\<rparr>) demo_session) = Some s2"
    and k: "keeps demo_session demo_session" "ol_jid_k01 (online s2) \<noteq> None" "pr_friends (profile s2) \<noteq> None" "cl_mates (profile s2) \<noteq> None"
    by (simp add: back_to_lobby_def xmpp_presence_def demo_session_simps Let_def gameroom_sync_free_def)
  obtain s1 where "status_set (STATUS_ONLINE OR STATUS_LOBBY) s2 = Some s1" using status_set_lobby [OF k(2-4)] by blast
  then have 1: "xmpp_iq_gameroom_leave_cb XMPP_TYPE_RESULT demo_session = Some s1"
    using 2 by (simp add: xmpp_iq_gameroom_leave_cb_def Let_def demo_session_simps)
  obtain src ret where p: "gameroom_parse int_strtof False gameroom_init
       (core_message (\<lambda>f. int_dec (uint f)) ''99'' 2 sample_core ''Ann'' [sample_player]) = Some (src, ret)" "changed ret GR_SYNC_CORE"
    using sample_message_parses by blast
  have "XMPP_TYPE_RESULT \<noteq> XMPP_TYPE_ERROR" by simp
  from late_answer_crashes [OF 1 this p, of None] 1 show ?thesis by blast
qed

end
