(* ===== verification/Missions.thy ===== *)
theory Missions
  imports Elements
begin

text \<open>
  The list of missions (\<open>src/mission.c\<close>, \<open>src/pvp_maps.c\<close>,
  \<open>src/xmpp_wf/get/xmpp_iq_missions_get_list.c\<close>): how an answer of the server becomes a list in which
  every mission has a name of its own, and the fixed maps of player against player that are added.
\<close>

subsection \<open>The fixed maps\<close>

definition pvp_map :: "cstring \<Rightarrow> cstring \<Rightarrow> mission" where
  "pvp_map name uid =
     \<lparr>ms_mission_key = Some uid, ms_no_team = 0, ms_original_name = None, ms_name = Some name, ms_setting = None,
      ms_mode = Some ''pvp'', ms_mode_name = None, ms_mode_icon = None, ms_description = None, ms_image = None,
      ms_difficulty = None, ms_type = Some name, ms_time_of_day = None,
      ms_crown_reward = (0, 0, 0), ms_crown_time = (0, 0, 0), ms_crown_perf = (0, 0, 0)\<rparr>"

definition pvp_maps :: "(cstring \<times> cstring) list" where
  "pvp_maps =
  [(''ctf_breach'', ''45188feb-0017-46ec-bb57-189dbbd6be2d''),
   (''ctf_construction'', ''73904867-1107-4db2-a7eb-4593d580f835''),
   (''ctf_convoy'', ''f32bc4ca-6420-4034-82d6-c8041e3bd3fa''),
   (''ctf_deposit'', ''d5da06ce-a425-4013-abd8-6f9bfbe9f763''),
   (''ctf_longway'', ''7684fdcf-f6aa-431e-9616-608eccd3a847''),
   (''ctf_quarry'', ''f32bc8e2-06df-413a-935a-b039ee4e4467''),
   (''ctf_test'', ''6f7644a3-1a37-4cbb-ab01-128a1015b64f''),
   (''ctf_vault_fwc'', ''dfeebeda-783e-4fe2-98fa-a76bf35b31b9''),
   (''ctf_vault'', ''60c04653-a419-433f-a43b-63278d8bd339''),
   (''dmn_armageddon'', ''e1129d41-42fd-4451-b729-4b7ff5f4e3e7''),
   (''dmn_downtown'', ''0726fb42-1d41-7a43-97d1-4e0571124cd8''),
   (''dmn_sirius'', ''70e29d78-bb85-4014-8989-ffeb9074d2bc''),
   (''dmn_subzero'', ''d0af9f60-6402-11c4-8d37-8c89a553425b''),
   (''dst_afghan'', ''d1f15bf2-1db4-42f4-b335-097a57b83ed4''),
   (''dst_lighthouse'', ''ea0cbac2-5891-4d37-bb42-09e790730b34''),
   (''dst_mars'', ''0d4dff0c-4dbb-4970-9825-eadc97691cb4''),
   (''ffa_afghan_up'', ''79c67294-07ed-44d7-b4e2-780b7ef1890b''),
   (''ffa_bunker'', ''e6e96230-b938-11e5-b925-8c89a554425b''),
   (''ffa_downtown'', ''cccea92f-612d-2850-1111-3e02a3a54d6c''),
   (''ffa_district_up'', ''6fd32af8-c732-4085-8d1d-bacd5e1d83ad''),
   (''ffa_forest_dawn'', ''fb53bbbb-f555-45aa-9144-8442446b1c4f''),
   (''ffa_forest'', ''227123ef-b394-4321-b697-abed0fff9e38''),
   (''ffa_japan'', ''4eac367d-a583-4640-a56b-3e8d3d6d2cf1''),
   (''ffa_motel'', ''dda0b8ac-de2e-9474-84fc-5b4ec51bf7ef''),
   (''ffa_overpass'', ''52fa65a0-d182-4abb-97c2-54857c6b3bbc''),
   (''ffa_train'', ''c61ea94f-505d-4860-9199-3e02a1a54d9c''),
   (''ffa_widestreet'', ''45e182f3-d45c-4e5d-8054-fc4bbbfc2782''),
   (''ffa_widestreet_up'', ''f22283aa-47a8-40d1-bd06-2655156274fe''),
   (''hnt_africa'', ''2124463b-0612-4882-a5de-b222b21bf0e6''),
   (''hnt_night_motel'', ''959ddc2d-9bb4-4eab-9be8-8e04e76d94aa''),
   (''hnt_pripyat_hw'', ''371d3e9b-290a-4c79-9cad-207b6d4fd57b''),
   (''hnt_winter'', ''d34538bc-f603-4f39-afe5-db27000564cd''),
   (''hnt_winter_xmas'', ''bee96351-e973-4222-a145-5a68a6773bba''),
   (''ptb_afghan'', ''123bec5b-a1c2-4bab-b105-3b5b89bab014''),
   (''ptb_afghan_up'', ''8b7189c1-6c6e-413f-96b8-bb4b0abb2069''),
   (''ptb_bridges'', ''3c3c5677-02df-4b87-91b1-8a61bcb16bcf''),
   (''ptb_bridges_up'', ''2412db5e-c19a-4fe8-ba99-cd28cdcce388''),
   (''ptb_D17'', ''cdb2fe18-c99e-56b0-9e7f-ffc1d7733f53''),
   (''ptb_destination'', ''543df61d-f277-4953-9e0f-3eb8c998fa3b''),
   (''ptb_district'', ''8a0f1f90-c1b5-4235-baef-81318bb6e519''),
   (''ptb_district_up'', ''a83872cc-e79b-4d7a-800b-7162384ef4a0''),
   (''ptb_factory'', ''77e4f737-431c-4359-b27f-4800c5a5b780''),
   (''ptb_factory_up'', ''5de80781-f065-4454-bc23-84a334b2d8f6''),
   (''ptb_mine'', ''e00c96b8-8185-4cbf-9bd5-e70520021575''),
   (''ptb_overpass'', ''a2e98ff0-b602-44e5-b517-02518a7c19eb''),
   (''ptb_palace'', ''afcf6636-b5a8-4eec-ac24-fa0915695a15''),
   (''ptb_pyramid'', ''b1594650-15ad-43c0-850f-863f5ab85ef5''),
   (''ptb_trailerpark'', ''3f57cdb0-010a-11e5-a726-8c99a553325b''),
   (''stm_blackgold'', ''517d8a3f-91f8-4566-81a2-b48a70e44014''),
   (''stm_blackgold_up'', ''3655f238-9c7b-46cd-b927-f2665b3929b3''),
   (''stm_blackmamba'', ''ee01cd3a-d214-48fa-843b-788427a6161c''),
   (''stm_blackwood'', ''13357a80-1c3f-49f9-be88-3f95ef931246''),
   (''stm_highhill'', ''2a8cbd01-52ae-4783-bdd6-d2f858b4fd74''),
   (''stm_invasion'', ''18a2580c-5988-4890-96a9-b7b40c5487c4''),
   (''stm_wharf'', ''cd54d2eb-f00e-4ccc-bbd4-d4c0f2cc935e''),
   (''tdm_airbase'', ''e4f56e59-97fb-4451-a137-7b44026d96b0''),
   (''tdm_aul_pts'', ''24531004-8e3f-48e3-a760-59f914c02c0d''),
   (''tdm_aul'', ''bbb33b77-98db-463c-9a1a-d27655d90690''),
   (''tdm_codenameD18'', ''f405283f-42f9-4d5e-b02a-618cacd10cf4''),
   (''tdm_crossriver'', ''15144c77-4aaa-4d33-a88b-06eee80fd7f7''),
   (''tdm_dock'', ''51a9ebbc-8519-4f5e-b83e-0e9911c6995c''),
   (''tdm_downtown'', ''0726fb17-1d35-4a43-97d1-4e0563794cd8''),
   (''tdm_farm_hw'', ''400e7fee-3fda-11e4-baf7-d43d7e9be5ba''),
   (''tdm_farm_sunset'', ''90c7e3c1-6432-4745-8abc-40cbccaa4d25''),
   (''tdm_farm'', ''30afabfd-032f-4ff3-a22e-8b889349aaa5''),
   (''tdm_grand_bazaar'', ''3347d361-ef36-4c57-8bca-4f8051fc97e6''),
   (''tdm_ghost_town'', ''b4ac3d2f-1e97-4132-800e-7e1dbcd3512f''),
   (''tdm_ghost_town_xmas'', ''ad7e9b12-7c47-428a-860b-21c5260ce6bd''),
   (''tdm_hangar_up'', ''e5981b6a-325d-42eb-a3fe-e6eed0bc4bf2''),
   (''tdm_hangar_up_xmas'', ''7863a04a-5e3b-40c5-8a51-c12f6511d84e''),
   (''tdm_hangar_OG16'', ''bf506d56-21cd-49e3-b57a-4b1e6f66ba8d''),
   (''tdm_hangar_xmas'', ''953740a3-022e-4243-9044-eb1c07a2f680''),
   (''tdm_hangar'', ''d42df33c-bbaa-49d9-bed2-8db61ef5b233''),
   (''tdm_motel'', ''71e863e1-e28c-489d-b145-866987fbe031''),
   (''tdm_oildepot_e16'', ''0575ee9b-db2a-4a8d-a376-c2ec4b021587''),
   (''tdm_oildepot_wc18'', ''fd2ade6c-9b88-4e21-8fac-218c6a6031a4''),
   (''tdm_oildepotv3'', ''1d71c946-7ffc-4045-8035-14eea4072e02''),
   (''tdm_oildepot_circus'', ''836c6850-5976-4912-8e3e-81c4fe187ae1''),
   (''tdm_oildepot_xmas'', ''24578605-b482-4dcf-af0a-7a6968732602''),
   (''tdm_residential'', ''805b24e5-f5b6-447c-b7a5-c82c6b0134cb''),
   (''tdm_shuttle'', ''8702f1ee-bac1-4bea-a92b-d5b76c5cd5af''),
   (''tdm_sirius'', ''c090ccd6-dfd4-46aa-a5a6-929d974451e1''),
   (''tdm_streetwars'', ''d2cc9728-2a3f-4387-a0ea-ea1e0f967495''),
   (''tdm_swarm'', ''dda8254d-616f-412c-aeba-7ca0c20b7655''),
   (''tbs_hawkrock'', ''791f8fd3-41de-4a94-a5d0-945b461f691e''),
   (''tbs_deepwater'', ''a8ee23a0-da5a-4a25-823f-23dcf98198c2''),
   (''tbs_waterfalling'', ''da20dcc4-9672-4077-b877-1b04c6772b75''),
   (''tbs_waterfalling_xmas'', ''8fa3688a-75c9-44d8-ff92-90ac38c56b4c''),
   (''lms_mojave'', ''3889f29a-fe06-425b-9ff8-f94ffbd5307c''),
   (''lms_pripyat'', ''e246660c-52cb-4a56-8d25-c0f040d03793'')]"

definition pvp_maps_add_to_list :: "mission list \<Rightarrow> mission list" where
  "pvp_maps_add_to_list ml = fold (\<lambda>(name, uid) l. pvp_map name uid # l) pvp_maps ml"

subsection \<open>Unique names\<close>

text \<open>
  The candidates for the name of a mission: the name, then the name with a running number.  \<open>counter\<close>
  is the number of the candidate \<open>new_name\<close>; a candidate is taken when a mission of the list, whose
  names are never NULL, has it.
\<close>

definition numbered :: "cstring \<Rightarrow> nat \<Rightarrow> cstring" where
  "numbered name counter = name @ ''_'' @ int_dec (int counter)"

definition name_taken :: "mission list \<Rightarrow> cstring \<Rightarrow> bool" where
  "name_taken l name \<longleftrightarrow> list_ex (\<lambda>m. ms_name m = Some name) l"

lemma nat_dec_inj: "nat_dec m = nat_dec n \<Longrightarrow> m = n"
  by (metis digits_val_nat_dec)

lemma numbered_inj: "numbered name i = numbered name j \<Longrightarrow> i = j"
  by (auto simp: numbered_def int_dec_def dest: nat_dec_inj)

lemma taken_finite: "finite {k. name_taken l (numbered name k)}"
proof -
  have "numbered name ` {k. name_taken l (numbered name k)} \<subseteq> (the \<circ> ms_name) ` set l"
    by (force simp: name_taken_def list_ex_iff)
  then have "finite (numbered name ` {k. name_taken l (numbered name k)})" by (rule finite_subset) simp
  then show ?thesis by (rule finite_imageD) (auto intro: inj_onI numbered_inj)
qed

function unique_name :: "mission list \<Rightarrow> cstring \<Rightarrow> nat \<Rightarrow> cstring \<Rightarrow> cstring" where
  "unique_name l name counter new_name =
     (if name_taken l new_name then unique_name l name (counter + 1) (numbered name (counter + 1)) else new_name)"
  by pat_completeness auto
termination
proof (relation "measure (\<lambda>(l, name, c, new). card {k. c \<le> k \<and> name_taken l (if k = c then new else numbered name k)})", goal_cases)
  case 1
  then show ?case by simp
next
  case (2 l name c new)
  let ?A = "{k. c \<le> k \<and> name_taken l (if k = c then new else numbered name k)}"
  let ?B = "{k. c + 1 \<le> k \<and> name_taken l (if k = c + 1 then numbered name (c + 1) else numbered name k)}"
  have "finite ?A" by (rule finite_subset [of _ "insert c {k. name_taken l (numbered name k)}"]) (use taken_finite in auto)
  moreover have "?B \<subseteq> ?A" by (auto split: if_splits)
  moreover have "c \<in> ?A" "c \<notin> ?B" using 2 by auto
  ultimately have "?B \<subset> ?A" by blast
  with \<open>finite ?A\<close> have "card ?B < card ?A" by (rule psubset_card_mono)
  then show ?case by (simp only: in_measure prod.case)
qed

declare unique_name.simps [simp del]

subsection \<open>The answer of the server\<close>

text \<open>The loop steps over the tag and one more character.\<close>

function each_skip :: "nat \<Rightarrow> cstring \<Rightarrow> (cstring \<Rightarrow> 's \<Rightarrow> 's crash) \<Rightarrow> cstring \<Rightarrow> 's \<Rightarrow> 's crash" where
  "each_skip n tag f m s =
     (case strstr m tag of
        None \<Rightarrow> Some s
      | Some el \<Rightarrow> if length el < Suc n then None else do { s' \<leftarrow> f el s; each_skip n tag f (drop (Suc n) el) s' })"
  by pat_completeness auto
termination
proof (relation "measure (\<lambda>(_, _, _, m, _). length m)", goal_cases)
  case 1
  then show ?case by simp
next
  case (2 n tag f m s el s')
  then show ?case using strstr_length [of m tag el] by simp
qed

declare each_skip.simps [simp del]

definition thresholds :: "cstring \<Rightarrow> cstring \<Rightarrow> u32 \<times> u32 \<times> u32" where
  "thresholds ms tag =
     (case get_info ms tag ''>'' of
        None \<Rightarrow> (0, 0, 0)
      | Some c \<Rightarrow> (sync_uint c ''bronze'', sync_uint c ''silver'', sync_uint c ''gold''))"

definition time_thresholds :: "cstring \<Rightarrow> u32 \<times> u32 \<times> u32" where
  "time_thresholds ms =
     (case get_info ms ''<Time '' ''>'' of
        None \<Rightarrow> (0, 0, 0)
      | Some c \<Rightarrow> (2 ^ 22 - sync_uint c ''bronze'', 2 ^ 22 - sync_uint c ''silver'', 2 ^ 22 - sync_uint c ''gold''))"

definition base_name :: "cstring \<Rightarrow> cstring" where
  "base_name type = (case strstr type ''mission'' of None \<Rightarrow> type | Some p \<Rightarrow> upto_ptr type p)"

definition mission_elem :: "cstring \<Rightarrow> mission list \<Rightarrow> mission list crash" where
  "mission_elem m l =
     do {
       ms \<leftarrow> deref (get_info m ''<mission '' ''</mission>'');
       type \<leftarrow> deref (attr ms ''type'');
       let name = base_name type;
       Some (\<lparr>ms_mission_key = attr ms ''mission_key'', ms_no_team = attr_int ms ''no_team'',
              ms_original_name = attr ms ''name'', ms_name = Some (unique_name l name 1 name),
              ms_setting = attr ms ''setting'', ms_mode = attr ms ''mode'', ms_mode_name = attr ms ''mode_name'',
              ms_mode_icon = attr ms ''mode_icon'', ms_description = attr ms ''description'', ms_image = attr ms ''image'',
              ms_difficulty = attr ms ''difficulty'', ms_type = Some type, ms_time_of_day = attr ms ''time_of_day'',
              ms_crown_reward = thresholds ms ''<CrownRewards '', ms_crown_time = time_thresholds ms,
              ms_crown_perf = thresholds ms ''<TotalPerformance ''\<rparr> # l)
     }"

definition parse_missions :: "cstring \<Rightarrow> mission list crash" where
  "parse_missions data =
     (case strstr data ''<missions_get_list'' of
        None \<Rightarrow> Some []
      | Some m \<Rightarrow> if length m < 19 then None else each_skip 8 ''<mission'' mission_elem (drop 19 m) [])"

text \<open>\<open>run\<close> does what a continuation asks for; the callback of \<open>mission_list_update\<close> stores the list first.\<close>

definition xmpp_iq_missions_get_list_cb ::
  "('u continuation \<Rightarrow> 'u session \<Rightarrow> 'u session crash) \<Rightarrow> 'u continuation option \<Rightarrow> cptr \<Rightarrow> xmpp_msg_type
     \<Rightarrow> 'u session \<Rightarrow> 'u session crash" where
  "xmpp_iq_missions_get_list_cb run cont content type s =
     (if type = XMPP_TYPE_ERROR then Some s
      else (case content of
              None \<Rightarrow> Some s
            | Some data \<Rightarrow>
                do {
                  l \<leftarrow> parse_missions data;
                  let s1 = s\<lparr>missions := \<lparr>mi_list = Some (pvp_maps_add_to_list l), mi_hash = attr_int data '' hash'',
                                          mi_content_hash = attr_int data ''content_hash''\<rparr>\<rparr>;
                  (case cont of None \<Rightarrow> Some s1 | Some c \<Rightarrow> run c s1)
                }))"

subsection \<open>Every mission has a name of its own\<close>

definition candidate :: "cstring \<Rightarrow> nat \<Rightarrow> cstring" where
  "candidate name k = (if k = 1 then name else numbered name k)"

lemma unique_name_from:
  assumes "new = candidate name c" "1 \<le> c"
  shows "\<exists>k \<ge> c. unique_name l name c new = candidate name k \<and> \<not> name_taken l (candidate name k)
           \<and> (\<forall>j. c \<le> j \<and> j < k \<longrightarrow> name_taken l (candidate name j))"
  using assms
proof (induction l name c new rule: unique_name.induct)
  case (1 l name c new)
  show ?case
  proof (cases "name_taken l new")
    case False
    with 1(2) show ?thesis by (intro exI [of _ c]) (auto simp: unique_name.simps)
  next
    case True
    have "numbered name (c + 1) = candidate name (c + 1)" using 1(3) by (simp add: candidate_def)
    from 1(1) [OF True this] obtain k where k: "c + 1 \<le> k"
      "unique_name l name (c + 1) (numbered name (c + 1)) = candidate name k" "\<not> name_taken l (candidate name k)"
      "\<forall>j. c + 1 \<le> j \<and> j < k \<longrightarrow> name_taken l (candidate name j)" by auto
    moreover have "name_taken l (candidate name j)" if "c \<le> j" "j < k" for j
      using that True 1(2) k(4) by (cases "j = c") auto
    moreover have "unique_name l name c new = unique_name l name (c + 1) (numbered name (c + 1))"
      using True by (subst unique_name.simps) simp
    ultimately show ?thesis by (intro exI [of _ k]) simp
  qed
qed

definition named_apart :: "mission list \<Rightarrow> bool" where
  "named_apart l \<longleftrightarrow> list_all (\<lambda>m. ms_name m \<noteq> None) l \<and> distinct (map ms_name l)"

lemma mission_elem_named: "mission_elem m l = Some l' \<Longrightarrow> named_apart l \<Longrightarrow> named_apart l'"
proof -
  assume a: "mission_elem m l = Some l'" "named_apart l"
  then obtain ms type x where l': "l' = x # l" "ms_name x = Some (unique_name l (base_name type) 1 (base_name type))"
    by (auto simp: mission_elem_def Let_def bind_eq_Some_conv)
  have "\<not> name_taken l (unique_name l (base_name type) 1 (base_name type))"
    using unique_name_from [of "base_name type" "base_name type" 1 l] by (auto simp: candidate_def)
  with a(2) l' show ?thesis by (force simp: named_apart_def name_taken_def list_ex_iff)
qed

lemma each_skip_invariant:
  assumes "each_skip n tag f m s = Some s'" "I s" "\<And>el s s'. f el s = Some s' \<Longrightarrow> I s \<Longrightarrow> I s'"
  shows "I s'"
  using assms(1,2)
proof (induction "length m" arbitrary: m s rule: less_induct)
  case less
  show ?case
  proof (cases "strstr m tag")
    case None
    with less.prems show ?thesis by (subst (asm) each_skip.simps) simp
  next
    case (Some el)
    with less.prems(1) obtain s1 where el: "Suc n \<le> length el" "f el s = Some s1" "each_skip n tag f (drop (Suc n) el) s1 = Some s'"
      by (subst (asm) each_skip.simps) (auto simp: bind_eq_Some_conv split: if_splits)
    have "length (drop (Suc n) el) < length m" using strstr_length [OF Some] el(1) by simp
    from less.hyps [OF this el(3) assms(3) [OF el(2) less.prems(2)]] show ?thesis .
  qed
qed

lemma each_elem_skip: "each_elem tag f m s = each_skip 0 tag f m s"
proof (induction "length m" arbitrary: m s rule: less_induct)
  case less
  show ?case
  proof (cases "strstr m tag")
    case None
    then show ?thesis by (subst each_elem.simps, subst each_skip.simps) simp
  next
    case (Some el)
    show ?thesis
    proof (cases el)
      case Nil
      with Some show ?thesis by (subst each_elem.simps, subst each_skip.simps) simp
    next
      case (Cons c cs)
      have "each_elem tag f cs = each_skip 0 tag f cs"
      proof (rule ext, rule less)
        show "length cs < length m" using strstr_length [OF Some] Cons by simp
      qed
      with Some Cons show ?thesis by (subst each_elem.simps, subst each_skip.simps) simp
    qed
  qed
qed

lemma parse_missions_named: "parse_missions data = Some l \<Longrightarrow> named_apart l"
  by (auto simp: parse_missions_def named_apart_def [of "[]"] split: option.splits if_splits
      elim!: each_skip_invariant [where I = named_apart] mission_elem_named)

lemma find_by_name:
  assumes "named_apart l" "m \<in> set l"
  shows "find_crash (\<lambda>x. strcmp_eq (ms_name x) (ms_name m)) l = Some (Some m)"
  using assms
proof (induction l)
  case (Cons x l)
  show ?case
  proof (cases "x = m")
    case True
    with Cons.prems show ?thesis by (auto simp: named_apart_def)
  next
    case False
    with Cons.prems have "m \<in> set l" "ms_name x \<noteq> ms_name m" by (auto simp: named_apart_def)
    moreover obtain y z where "ms_name x = Some y" "ms_name m = Some z"
      using Cons.prems by (auto simp: named_apart_def list_all_iff)
    moreover have "named_apart l" using Cons.prems(1) by (simp add: named_apart_def)
    ultimately show ?thesis using Cons.IH by simp
  qed
qed simp

text \<open>C0: the search for a free name ends, whatever missions are in the list: it yields the first of the names
  \<open>name\<close>, \<open>name_2\<close>, \<open>name_3\<close>, ... that no mission of the list has.\<close>

theorem unique_name_first_free:
  "\<exists>k \<ge> 1. unique_name l name 1 name = candidate name k \<and> \<not> name_taken l (candidate name k)
     \<and> list_all (\<lambda>j. name_taken l (candidate name j)) [1..<k]"
proof -
  obtain k where "k \<ge> 1" "unique_name l name 1 name = candidate name k" "\<not> name_taken l (candidate name k)"
    "\<forall>j. 1 \<le> j \<and> j < k \<longrightarrow> name_taken l (candidate name j)"
    using unique_name_from [of name name 1 l] by (auto simp: candidate_def)
  then show ?thesis by (intro exI [of _ k]) (simp add: list_all_iff)
qed

text \<open>C18: after an answer to \<open>missions_get_list\<close> the server's missions all have names, no two the same, so that each
  of them is found under its name behind the fixed maps; an answer that reports an error changes nothing.\<close>

theorem missions_named_apart:
  assumes "xmpp_iq_missions_get_list_cb run None (Some data) XMPP_TYPE_RESULT s = Some s'"
  shows "\<exists>l. parse_missions data = Some l \<and> mi_list (missions s') = Some (pvp_maps_add_to_list l)
     \<and> list_all (\<lambda>m. find_crash (\<lambda>x. strcmp_eq (ms_name x) (ms_name m)) l = Some (Some m)) l
     \<and> xmpp_iq_missions_get_list_cb run cont content XMPP_TYPE_ERROR s = Some s"
proof -
  obtain l where l: "parse_missions data = Some l" "mi_list (missions s') = Some (pvp_maps_add_to_list l)"
    using assms by (auto simp: xmpp_iq_missions_get_list_cb_def bind_eq_Some_conv Let_def)
  with find_by_name [OF parse_missions_named [OF l(1)]] show ?thesis
    by (auto simp: list_all_iff xmpp_iq_missions_get_list_cb_def)
qed

definition sample_missions :: cstring where
  "sample_missions =
     ''<missions_get_list '' @ q ''hash'' ''7'' @ '' '' @ q ''content_hash'' ''-3'' @ ''><mission '' @ q ''mission_key'' ''k1'' @ '' ''
     @ q ''type'' ''hardmission'' @ ''><Time '' @ q ''gold'' ''4194300'' @ ''/></mission><mission '' @ q ''mission_key'' ''k2'' @ '' ''
     @ q ''type'' ''hardmission'' @ ''></mission></missions_get_list>''"

lemma sample_missions_parsed:
  "\<exists>l. parse_missions sample_missions = Some l \<and> map ms_name l = [Some ''hard_2'', Some ''hard'']"
proof -
  define e1 where "e1 = the (strstr (drop 19 sample_missions) ''<mission'')"
  define e2 where "e2 = the (strstr (drop 9 e1) ''<mission'')"
  define ms2 where "ms2 = the (get_info e2 ''<mission '' ''</mission>'')"
  define ms1 where "ms1 = the (get_info e1 ''<mission '' ''</mission>'')"
  note e = ms1_def e1_def e2_def ms2_def
  have s: "strstr sample_missions ''<missions_get_list'' = Some sample_missions" "\<not> length sample_missions < 19"
    "strstr (drop 19 sample_missions) ''<mission'' = Some e1" "\<not> length e1 < 9"
    "strstr (drop 9 e1) ''<mission'' = Some e2" "\<not> length e2 < 9" "strstr (drop 9 e2) ''<mission'' = None"
    unfolding e by code_simp+
  have ms1: "get_info e1 ''<mission '' ''</mission>'' = Some ms1" "attr ms1 ''type'' = Some ''hardmission''" unfolding e by code_simp+
  have "unique_name [] ''hard'' 1 ''hard'' = ''hard''" by (subst unique_name.simps) (simp add: name_taken_def)
  moreover have "base_name ''hardmission'' = ''hard''" by code_simp
  ultimately obtain m1 where m1: "mission_elem e1 [] = Some [m1]" "ms_name m1 = Some ''hard''" by (simp add: mission_elem_def ms1)
  have ms2: "get_info e2 ''<mission '' ''</mission>'' = Some ms2" "attr ms2 ''type'' = Some ''hardmission''"
    "base_name ''hardmission'' = ''hard''" unfolding e by code_simp+
  have "numbered ''hard'' 2 = ''hard_2''" by code_simp
  then have n: "unique_name [m1] ''hard'' 1 ''hard'' = ''hard_2''"
    by (simp add: unique_name.simps [of _ _ "Suc 0"] unique_name.simps [of _ _ "Suc (Suc 0)"] name_taken_def m1 eval_nat_numeral)
  obtain m2 where m2: "mission_elem e2 [m1] = Some [m2, m1]" "ms_name m2 = Some ''hard_2''"
    using n by (simp add: mission_elem_def ms2)
  have "parse_missions sample_missions = Some [m2, m1]"
    unfolding parse_missions_def
    by (simp add: s each_skip.simps [of 8 "''<mission''" _ "drop 19 sample_missions"] each_skip.simps [of 8 "''<mission''" _ "drop 9 e1"]
        each_skip.simps [of 8 "''<mission''" _ "drop 9 e2"] m1(1) m2(1))
  with m1 m2 show ?thesis by simp
qed

theorem missions_named_apart_witness:
  "\<exists>s' l. xmpp_iq_missions_get_list_cb (\<lambda>_. Some) None (Some sample_missions) XMPP_TYPE_RESULT demo_session = Some s'
     \<and> parse_missions sample_missions = Some l \<and> mi_list (missions s') = Some (pvp_maps_add_to_list l)
     \<and> map ms_name l = [Some ''hard_2'', Some ''hard'']"
proof -
  obtain l where l: "parse_missions sample_missions = Some l" "map ms_name l = [Some ''hard_2'', Some ''hard'']" 
    by (rule exE [OF sample_missions_parsed]) (elim conjE)
  have "\<exists>s'. xmpp_iq_missions_get_list_cb (\<lambda>_. Some) None (Some sample_missions) XMPP_TYPE_RESULT demo_session = Some s'"
    by (simp add: xmpp_iq_missions_get_list_cb_def l(1) Let_def)
  then obtain s' where s': "xmpp_iq_missions_get_list_cb (\<lambda>_. Some) None (Some sample_missions) XMPP_TYPE_RESULT demo_session = Some s'"
    by blast
  from missions_named_apart [OF s'] obtain l' where "parse_missions sample_missions = Some l'"
    "mi_list (missions s') = Some (pvp_maps_add_to_list l')" by blast
  with s' l show ?thesis by (intro exI [of _ s'] exI [of _ l]) simp
qed

end
