(* ===== verification/RoomLimits.thy ===== *)
theory RoomLimits
  imports Lifecycle Missions
begin

text \<open>
  Types and limits that span components: the C types of the fields of a room, and the retries of a
  request that the server refuses.
\<close>

subsection \<open>The fields of a room stay in the range of their C type\<close>

definition char_range :: "int \<Rightarrow> bool" where
  "char_range x \<longleftrightarrow> - 128 \<le> x \<and> x < 128"

definition int_range :: "int \<Rightarrow> bool" where
  "int_range x \<longleftrightarrow> - (2 ^ 31) \<le> x \<and> x < 2 ^ 31"

lemma conversion_ranges [simp]:
  "char_range (sync_char n k)" "int_range (sync_int n k)" "char_range 0" "int_range 0"
  using sint_range_size [of "word_of_int (sync_long n k) :: 8 word"] c_int_range [of "sync_long n k"]
  by (simp_all add: char_range_def int_range_def sync_char_def sync_int_def c_char_def word_size)

definition core_typed :: "s_gr_core \<Rightarrow> bool" where
  "core_typed c \<longleftrightarrow> list_all char_range [co_teams_switched c, co_private c, co_can_start c, co_team_balanced c]
     \<and> pred_option (list_all (\<lambda>p. char_range (pl_observer p))) (co_players c)"

definition params_typed :: "s_gr_custom_params \<Rightarrow> bool" where
  "params_typed c \<longleftrightarrow> list_all char_range [cp_friendly_fire c, cp_enemy_outlines c, cp_auto_team_balance c, cp_dead_can_chat c,
       cp_join_in_the_process c, cp_locked_spectator_camera c] \<and> int_range (cp_preround_time c)"

definition session_typed :: "s_gr_session \<Rightarrow> bool" where
  "session_typed c \<longleftrightarrow> int_range (se_status c) \<and> int_range (se_game_progress c)"

definition auto_start_typed :: "s_gr_auto_start \<Rightarrow> bool" where
  "auto_start_typed c \<longleftrightarrow> list_all int_range [as_has_timeout c, as_timeout_left c, as_can_manual_start c, as_joined_intermission_timeout c]"

definition well_typed :: "gameroom \<Rightarrow> bool" where
  "well_typed g \<longleftrightarrow> core_typed (gm_core g) \<and> params_typed (gm_custom_params g) \<and> session_typed (gm_session g)
     \<and> auto_start_typed (gm_auto_start g) \<and> char_range (mi_no_teams (gm_mission g))"

lemma sync_players_typed:
  "sync_players strtof m ps = Some ps' \<Longrightarrow> list_all (\<lambda>p. char_range (pl_observer p)) ps \<Longrightarrow> list_all (\<lambda>p. char_range (pl_observer p)) ps'"
proof (induction strtof m ps arbitrary: ps' rule: sync_players.induct)
  case (1 strtof m ps)
  show ?case
  proof (cases "strstr m ''<player''")
    case None
    with 1(2,3) show ?thesis by (simp add: sync_players.simps)
  next
    case (Some e)
    with 1(2) obtain pl where pl: "get_info e ''<player'' ''/>'' = Some pl"
      "sync_players strtof (tl e) (sync_player strtof pl # ps) = Some ps'"
      by (subst (asm) sync_players.simps) (auto split: option.splits)
    from 1(1) [OF Some pl] 1(3) show ?thesis by (simp add: sync_player_def)
  qed
qed

lemma sync_typed:
  "sync_core strtof same l n = Some l' \<Longrightarrow> core_typed l \<Longrightarrow> core_typed l'"
  "sync_custom_params lc n = Some lc' \<Longrightarrow> params_typed lc'"
  "sync_session ls n = Some ls' \<Longrightarrow> session_typed ls'"
  "sync_auto_start la n = Some la' \<Longrightarrow> auto_start_typed la'"
  "sync_mission lm n = Some lm' \<Longrightarrow> char_range (mi_no_teams lm')"
  by (auto simp: sync_core_def sync_custom_params_def sync_session_def sync_auto_start_def sync_mission_def core_typed_def params_typed_def
      session_typed_def auto_start_typed_def bind_eq_Some_conv Let_def split: option.splits dest!: sync_players_typed)

lemma parse_well_typed:
  assumes "gameroom_parse strtof same gr data = Some (g, ret)" "well_typed gr"
  shows "well_typed g"
proof -
  from assms(1) obtain r0 r1 r2 r3 r6 where
    p: "gameroom_sync_node (sync_core strtof same) (field_node data ''core'') (gm_core gr) = Some (gm_core g, r0)"
    "gameroom_sync_node sync_custom_params (field_node data ''custom_params'') (gm_custom_params gr) = Some (gm_custom_params g, r1)"
    "gameroom_sync_node sync_mission (field_node data ''mission'') (gm_mission gr) = Some (gm_mission g, r2)"
    "gameroom_sync_node sync_session (field_node data ''session'') (gm_session gr) = Some (gm_session g, r3)"
    "gameroom_sync_node sync_auto_start (field_node data ''auto_start'') (gm_auto_start gr) = Some (gm_auto_start g, r6)"
    by (auto simp: gameroom_parse_def Let_def bind_eq_Some_conv)
  have node: "Q l'" if "gameroom_sync_node sync nd lo = Some (l', r)" "Q lo" "\<And>v n l'. sync (lo\<lparr>revision := v\<rparr>) n = Some l' \<Longrightarrow> Q l'"
    for sync nd lo l' r and Q :: "'z s_gr_sync_scheme \<Rightarrow> bool"
    using that by (auto simp: gameroom_sync_node_def Let_def bind_eq_Some_conv split: option.splits if_splits)
  have w: "core_typed (gm_core gr)" "params_typed (gm_custom_params gr)" "session_typed (gm_session gr)"
    "auto_start_typed (gm_auto_start gr)" "char_range (mi_no_teams (gm_mission gr))"
    using assms(2) by (simp_all add: well_typed_def)
  have "core_typed ((gm_core gr)\<lparr>revision := v\<rparr>)" for v using w(1) by (simp add: core_typed_def)
  then show ?thesis unfolding well_typed_def
    using node [OF p(1), of core_typed] node [OF p(2), of params_typed] node [OF p(3), of "\<lambda>m. char_range (mi_no_teams m)"]
      node [OF p(4), of session_typed] node [OF p(5), of auto_start_typed] w sync_typed by blast
qed

text \<open>C30: whatever numbers a message holds, the room that is parsed from it and the room it is merged into keep
  every \<open>char\<close> field between -128 and 127 and every \<open>int\<close> field in 32 bits, and each part its type tag; so does
  a freed room.\<close>

theorem gameroom_well_typed:
  assumes "gameroom_parse strtof same gr data = Some (src, ret)" "well_typed gr" "types_ok gr" "well_typed dst" "types_ok dst"
  shows "well_typed src \<and> types_ok src \<and> well_typed (gameroom_update dst src ret) \<and> types_ok (gameroom_update dst src ret)
     \<and> well_typed (gameroom_free dst) \<and> types_ok (gameroom_free dst)"
  using parse_well_typed [OF assms(1,2)] parse_parts(10) [OF assms(1,3)] assms(4,5)
  by (simp add: well_typed_def types_ok_def gameroom_update_def gameroom_free_def core_typed_def params_typed_def session_typed_def
      auto_start_typed_def)

theorem gameroom_well_typed_witness:
  "\<exists>src ret. gameroom_parse int_strtof False gameroom_init
       (core_message (\<lambda>f. int_dec (uint f)) ''99'' 2 sample_core ''Ann'' [sample_player]) = Some (src, ret)
     \<and> well_typed src \<and> well_typed (gameroom_update gameroom_init src ret)"
proof -
  have i: "well_typed gameroom_init"
    by (simp add: well_typed_def gameroom_init_def core_typed_def params_typed_def session_typed_def auto_start_typed_def)
  obtain src ret where p: "gameroom_parse int_strtof False gameroom_init
       (core_message (\<lambda>f. int_dec (uint f)) ''99'' 2 sample_core ''Ann'' [sample_player]) = Some (src, ret)"
    using sample_message_parses by blast
  from gameroom_well_typed [OF p i types_ok_init i types_ok_init] p show ?thesis by blast
qed

subsection \<open>Refused requests are retried a bounded number of times\<close>

text \<open>
  A room (or a match) that is refused because the list of missions changed is asked for again after the
  list was updated: from the arguments of a request to those of its repetition.
\<close>

inductive reopens :: "'u open_args \<Rightarrow> 'u open_args \<Rightarrow> bool" where
  reopens: "xmpp_iq_gameroom_open_cb strtof a msg content XMPP_TYPE_ERROR s = Some s1 \<Longrightarrow>
     trace s1 = trace s @ [Send_iq t0 ty0 (Some (CB_missions_get_list (Some (Cont_gameroom_open b)))) i0 x0] \<Longrightarrow>
     open_updated_list title junk b s2 = Some s3 \<Longrightarrow>
     trace s3 = trace s2 @ [Send_iq t ty (Some (CB_gameroom_open c)) i x] \<Longrightarrow> reopens a c"

inductive requeues :: "'u quickplay_args \<Rightarrow> 'u quickplay_args \<Rightarrow> bool" where
  requeues: "xmpp_iq_gameroom_quickplay_cb a msg XMPP_TYPE_ERROR s = Some s1 \<Longrightarrow>
     trace s1 = trace s @ [Send_iq t0 ty0 (Some (CB_missions_get_list (Some (Cont_quickplay b)))) i0 x0] \<Longrightarrow>
     quickplay_updated_list title junk b s2 = Some s3 \<Longrightarrow>
     trace s3 = trace s2 @ [Send_iq t ty (Some (CB_gameroom_quickplay c)) i x] \<Longrightarrow> requeues a c"

inductive_cases reopensE: "reopens a c"
inductive_cases requeuesE: "requeues a c"

lemma reopens_tries: "reopens a c \<Longrightarrow> oa_tries a \<le> 0 \<and> oa_tries c = oa_tries a + 1"
  by (erule reopensE)
    (auto simp: xmpp_iq_gameroom_open_cb_def open_updated_list_def xmpp_iq_gameroom_open_def Let_def bind_eq_Some_conv mission_list_update_Some send_iq_get_Some
      split: if_splits option.splits)

lemma requeues_tries: "requeues a c \<Longrightarrow> qa_tries a \<le> 0 \<and> qa_tries c = qa_tries a + 1"
  by (erule requeuesE)
    (auto simp: xmpp_iq_gameroom_quickplay_cb_def quickplay_updated_list_def xmpp_iq_gameroom_quickplay_def Let_def bind_eq_Some_conv
      mission_list_update_Some send_iq_get_Some split: if_splits option.splits)

text \<open>C29: asking again ends: there is no endless chain of refused requests, neither for a room nor for a match, and
  a request of the user (which starts with no try) is repeated at most once.\<close>

theorem retries_terminate:
  "wfp (\<lambda>c a. reopens a c) \<and> wfp (\<lambda>c a. requeues a c)
   \<and> (oa_tries oa = 0 \<and> reopens oa ob \<longrightarrow> \<not> reopens ob oc) \<and> (qa_tries qa = 0 \<and> requeues qa qb \<longrightarrow> \<not> requeues qb qc)"
proof (intro conjI impI)
  show "wfp (\<lambda>c a. reopens a c)"
    by (rule wfp_if_convertible_to_nat [of _ "\<lambda>a. nat (1 - oa_tries a)"]) (use reopens_tries in fastforce)
  show "wfp (\<lambda>c a. requeues a c)"
    by (rule wfp_if_convertible_to_nat [of _ "\<lambda>a. nat (1 - qa_tries a)"]) (use requeues_tries in fastforce)
  show "\<not> reopens ob oc" if "oa_tries oa = 0 \<and> reopens oa ob"
    using that reopens_tries [of oa ob] reopens_tries [of ob oc] by auto
  show "\<not> requeues qb qc" if "qa_tries qa = 0 \<and> requeues qa qb"
    using that requeues_tries [of qa qb] requeues_tries [of qb qc] by auto
qed

definition missions_session :: "nat session" where
  "missions_session = demo_session\<lparr>missions := \<lparr>mi_list = Some [(pvp_map ''m1'' ''k1'')\<lparr>ms_type := None\<rparr>],
     mi_hash = 1, mi_content_hash = 2\<rparr>\<rparr>"

definition open_once :: "int \<Rightarrow> nat open_args" where
  "open_once tries = \<lparr>oa_fun = Some 3, oa_mission_key = Some ''k1'', oa_mission_name = None, oa_type = 2, oa_tries = tries\<rparr>"

definition refusal :: cstring where
  "refusal = ''<error code='' @ [apos] @ ''8'' @ [apos] @ ''/>''"

lemma refusal_codes: "attr_int refusal ''code'' = 8" "attr_int refusal ''custom_code'' = 0"
  by code_simp+

lemma open_once_reopens: "reopens (open_once 0) (open_once 1)"
proof -
  let ?b = "(open_once 1)\<lparr>oa_mission_name := Some ''m1''\<rparr>"
  have 1: "xmpp_iq_gameroom_open_cb (\<lambda>_. 0) (open_once 0) (Some refusal) None XMPP_TYPE_ERROR missions_session
      = Some (add_trace [Send_iq (JID_MS (ol_channel (online missions_session)) missions_session) XMPP_TYPE_GET
            (Some (CB_missions_get_list (Some (Cont_gameroom_open ?b)))) None (k01_query '' <missions_get_list/>'')] missions_session)"
    by (simp add: xmpp_iq_gameroom_open_cb_def refusal_codes Let_def)
      (simp add: open_once_def mission_list_get_by_key_def missions_session_def mission_list_update_def send_iq_get_def
        jid_to_str_def JID_MS_def demo_session_simps pvp_map_def Let_def)
  obtain s3 t ty i x where 2: "open_updated_list show_ptr (\<lambda>_. NUL) ?b missions_session = Some s3"
    "trace s3 = trace missions_session @ [Send_iq t ty (Some (CB_gameroom_open (open_once 1))) i x]"
    by (simp add: open_updated_list_def open_once_def mission_list_get_def missions_session_def pvp_map_def xmpp_iq_gameroom_open_def
        xml_serialize_inplace_def xml_serialize_buf_eq send_iq_get_def jid_to_str_def JID_MS_def demo_session_simps Let_def)
  show ?thesis by (rule reopens [OF 1 trace_add_trace 2])
qed

theorem retries_terminate_witness: "reopens (open_once 0) (open_once 1) \<and> (\<forall>c. \<not> reopens (open_once 1) c)"
proof (intro conjI allI)
  fix c
  have "oa_tries (open_once 0) = 0 \<and> reopens (open_once 0) (open_once 1) \<longrightarrow> \<not> reopens (open_once 1) c"
    by (rule conjunct1 [OF conjunct2 [OF conjunct2 [OF retries_terminate]]])
  then show "\<not> reopens (open_once 1) c" using open_once_reopens by (simp add: open_once_def)
qed (rule open_once_reopens)

end
