(* ===== verification/Buddies.thy ===== *)
theory Buddies
  imports Profile
begin

text \<open>
  Messages about friends and clan mates: the lists the server sends, what buddies tell about
  themselves, and the own clan (\<open>src/xmpp_wf/result\<close> and \<open>get\<close>).
\<close>

subsection \<open>The friend list\<close>

text \<open>The attributes are searched from the element on, not only in it.\<close>

definition friend_elem :: "cstring \<Rightarrow> 'u session \<Rightarrow> 'u session crash" where
  "friend_elem m s =
     do {
       (fs, f) \<leftarrow> friend_list_add (attr m ''jid'') (attr m ''nickname'') (attr m ''profile_id'')
                   (attr_int m ''status'') (attr_int m ''experience'') (pr_friends (profile s));
       Some (upd_profile (\<lambda>p. p\<lparr>pr_friends := fs\<rparr>) s)
     }"

text \<open>\<open>sizeof\<close> counts the terminating zero: the loop starts behind \<open>friend_list\<close> and one more character.\<close>

definition xmpp_iq_friend_list_cb :: "cptr \<Rightarrow> 'u session \<Rightarrow> 'u session crash" where
  "xmpp_iq_friend_list_cb content s =
     (case content of
        None \<Rightarrow> Some s
      | Some data \<Rightarrow>
          do {
            fs \<leftarrow> friend_list_empty (pr_friends (profile s));
            let s1 = upd_profile (\<lambda>p. p\<lparr>pr_friends := fs\<rparr>) s;
            s2 \<leftarrow> (case strstr data ''<friend_list'' of
                     None \<Rightarrow> Some s1
                   | Some m \<Rightarrow> if length m < 13 then None else each_elem ''<friend'' friend_elem (drop 13 m) s1);
            friends \<leftarrow> deref (pr_friends (profile s2));
            each xmpp_iq_peer_status_update_friend friends s2
          })"

definition xmpp_iq_remove_friend :: "cptr \<Rightarrow> 'u session \<Rightarrow> 'u session crash" where
  "xmpp_iq_remove_friend nickname s =
     send_iq_get (JID_MS (ol_channel (online s)) s) (Some CB_remove_friend)
       (k01_query ('' <remove_friend '' @ q ''target'' (show_ptr nickname) @ ''/>'')) s"

definition xmpp_iq_remove_friend_cb :: "cptr \<Rightarrow> xmpp_msg_type \<Rightarrow> 'u session \<Rightarrow> 'u session crash" where
  "xmpp_iq_remove_friend_cb msg type s =
     (if type = XMPP_TYPE_ERROR then Some s
      else do {
             m \<leftarrow> deref msg;
             fs \<leftarrow> friend_list_remove (attr m ''target'') (pr_friends (profile s));
             Some (upd_profile (\<lambda>p. p\<lparr>pr_friends := fs\<rparr>) s)
           })"

text \<open>A friend tells his status; a friend who does not answer is offline.\<close>

definition xmpp_iq_peer_status_update_handler :: "cptr \<Rightarrow> cstring \<Rightarrow> cptr \<Rightarrow> 'u session \<Rightarrow> 'u session crash" where
  "xmpp_iq_peer_status_update_handler msg_id msg content s =
     (case content of
        None \<Rightarrow> Some s
      | Some data \<Rightarrow>
          do {
            let jid = attr msg ''from'';
            let status = attr_int data ''status'';
            let gone = (status = 0 \<or> (word_of_int status :: u32) AND STATUS_LEFT \<noteq> 0);
            fs \<leftarrow> friend_list_update (if gone then None else jid) (attr data ''nickname'') (attr data ''profile_id'')
                    status (attr_int data ''experience'') (pr_friends (profile s));
            send_iq_result (JID jid) msg_id (k01_query '' <peer_status_update/>'')
              (upd_profile (\<lambda>p. p\<lparr>pr_friends := fs\<rparr>) s)
          })"

definition xmpp_iq_peer_status_update_cb :: "friend \<Rightarrow> xmpp_msg_type \<Rightarrow> 'u session \<Rightarrow> 'u session crash" where
  "xmpp_iq_peer_status_update_cb f type s =
     (if type = XMPP_TYPE_ERROR
      then do {
             fs \<leftarrow> friend_list_update None (Some (fr_nickname f)) (Some (fr_profile_id f)) 0 (sint (fr_experience f))
                     (pr_friends (profile s));
             Some (upd_profile (\<lambda>p. p\<lparr>pr_friends := fs\<rparr>) s)
           }
      else Some s)"

subsection \<open>The clan\<close>

definition clan_member_elem :: "cstring \<Rightarrow> 'u session \<Rightarrow> 'u session crash" where
  "clan_member_elem m s =
     do {
       info \<leftarrow> deref (get_info m ''<clan_member_info'' ''/>'');
       let jid = attr info ''jid'';
       let nick = attr info ''nickname'';
       let pid = attr info ''profile_id'';
       let status = attr_int info ''status'';
       let experience = attr_int info ''experience'';
       let cp = attr_int info ''clan_points'';
       let cr = attr_int info ''clan_role'';
       own \<leftarrow> strcmp_eq (pr_nickname (profile s)) nick;
       if \<not> own
       then do {
              (p, ret) \<leftarrow> clanmate_list_update jid nick pid status experience cp cr (profile s);
              Some (s\<lparr>profile := p\<rparr>)
            }
       else Some (upd_profile (\<lambda>p. p\<lparr>cl_points := c_uint cp, cl_role := c_uint cr, cl_joined := sync_uint m ''invite_date''\<rparr>) s)
     }"

text \<open>Six characters are skipped without looking whether there are that many.\<close>

definition clan_process_node :: "cptr \<Rightarrow> 'u session \<Rightarrow> 'u session crash" where
  "clan_process_node data s =
     do {
       p \<leftarrow> clanmate_list_empty (profile s);
       let s1 = s\<lparr>profile := p\<lparr>cl_id := 0, cl_name := None\<rparr>\<rparr>;
       (case data of
          None \<Rightarrow> Some s1
        | Some d \<Rightarrow>
            if length d < 6 then None
            else do {
                   let m = drop 6 d;
                   let s2 = upd_profile (\<lambda>p. p\<lparr>cl_id := sync_uint m ''clan_id'', cl_name := attr m ''name'',
                              cl_master_badge := sync_uint d ''master_badge'', cl_master_stripe := sync_uint d ''master_stripe'',
                              cl_master_mark := sync_uint d ''master_mark''\<rparr>) s1;
                   s3 \<leftarrow> each_elem ''<clan_member_info'' clan_member_elem m s2;
                   mates \<leftarrow> deref (cl_mates (profile s3));
                   each xmpp_iq_peer_clan_member_update_clanmate mates s3
                 })
     }"

text \<open>The element \<open>clan\<close> is cut out, but the whole content is processed.\<close>

definition xmpp_iq_clan_info_cb :: "cptr \<Rightarrow> 'u session \<Rightarrow> 'u session crash" where
  "xmpp_iq_clan_info_cb content s =
     (case content of None \<Rightarrow> Some s | Some data \<Rightarrow> clan_process_node (Some data) s)"

definition clan_update_elem :: "cstring \<Rightarrow> 'u session \<Rightarrow> 'u session crash" where
  "clan_update_elem m s =
     (case (case get_info m ''<update'' ''</update>'' of Some u \<Rightarrow> Some u | None \<Rightarrow> get_info m ''<update'' ''/>'') of
        None \<Rightarrow> Some s
      | Some update \<Rightarrow>
          (let jid = attr update ''jid'';
               nick = attr update ''nickname'';
               status = attr_int update ''status'';
               experience = attr_int update ''experience'';
               cp = attr_int update ''clan_points'';
               cr = attr_int update ''clan_role''
           in case attr update ''profile_id'' of
                None \<Rightarrow> Some s
              | Some pid \<Rightarrow>
                  do {
                    own \<leftarrow> strcmp_eq (Some pid) (pr_id (profile s));
                    if own then Some (upd_profile (\<lambda>p. p\<lparr>cl_points := c_uint cp, cl_role := c_uint cr\<rparr>) s)
                    else (case (case nick of Some n \<Rightarrow> Some n
                                | None \<Rightarrow> map_option cm_nickname (clanmate_list_get_by_pid (profile s) (Some pid))) of
                            None \<Rightarrow> Some s
                          | Some real_nick \<Rightarrow>
                              do {
                                (p, ret) \<leftarrow> clanmate_list_update jid (Some real_nick) (Some pid) status experience cp cr (profile s);
                                Some (s\<lparr>profile := p\<rparr>)
                              })
                  }))"

definition xmpp_iq_clan_members_updated_cb :: "cptr \<Rightarrow> 'u session \<Rightarrow> 'u session crash" where
  "xmpp_iq_clan_members_updated_cb content s =
     (case content of None \<Rightarrow> Some s | Some data \<Rightarrow> each_elem ''<update'' clan_update_elem data s)"

definition xmpp_iq_peer_clan_member_update_handler :: "cptr \<Rightarrow> cstring \<Rightarrow> cptr \<Rightarrow> 'u session \<Rightarrow> 'u session crash" where
  "xmpp_iq_peer_clan_member_update_handler msg_id msg content s =
     (case content of
        None \<Rightarrow> Some s
      | Some data \<Rightarrow>
          do {
            let jid = attr msg ''from'';
            let status = attr_int data ''status'';
            (p, ret) \<leftarrow> clanmate_list_update (if status \<le> 0 then None else jid) (attr data ''nickname'') (attr data ''profile_id'')
                          status (attr_int data ''experience'') (attr_int data ''clan_points'') (attr_int data ''clan_role'') (profile s);
            send_iq_result (JID jid) msg_id (k01_query '' <peer_clan_member_update/>'') (s\<lparr>profile := p\<rparr>)
          })"

definition xmpp_iq_peer_clan_member_update_cb :: "clanmate \<Rightarrow> xmpp_msg_type \<Rightarrow> 'u session \<Rightarrow> 'u session crash" where
  "xmpp_iq_peer_clan_member_update_cb c type s =
     (if type = XMPP_TYPE_ERROR
      then do {
             (p, ret) \<leftarrow> clanmate_list_update None (Some (cm_nickname c)) (Some (cm_profile_id c)) 0 (sint (cm_experience c))
                           (sint (cm_clan_points c)) (sint (cm_clan_role c)) (profile s);
             Some (s\<lparr>profile := p\<rparr>)
           }
      else Some s)"

definition xmpp_iq_clan_leave :: "'u option \<Rightarrow> 'u session \<Rightarrow> 'u session crash" where
  "xmpp_iq_clan_leave cb s =
     send_iq_get (JID_MS (ol_channel (online s)) s) (Some (CB_clan_leave cb)) (k01_query '' <clan_leave/>'') s"

definition xmpp_iq_clan_leave_cb :: "'u option \<Rightarrow> cptr \<Rightarrow> xmpp_msg_type \<Rightarrow> 'u session \<Rightarrow> 'u session crash" where
  "xmpp_iq_clan_leave_cb cb msg type s =
     (if msg = None \<or> type = XMPP_TYPE_ERROR then Some s
      else do {
             p \<leftarrow> clanmate_list_empty (profile s);
             let s1 = s\<lparr>profile := p\<rparr>;
             Some (case cb of None \<Rightarrow> s1 | Some u \<Rightarrow> emit (Call_user u) s1)
           })"

definition xmpp_iq_clan_create_cb :: "'u option \<Rightarrow> cptr \<Rightarrow> cptr \<Rightarrow> xmpp_msg_type \<Rightarrow> 'u session \<Rightarrow> 'u session crash" where
  "xmpp_iq_clan_create_cb cb msg content type s =
     (if msg = None \<or> type = XMPP_TYPE_ERROR then Some s
      else (case content of
              None \<Rightarrow> Some s
            | Some data \<Rightarrow>
                do {
                  s1 \<leftarrow> clan_process_node (Some data) s;
                  Some (case cb of None \<Rightarrow> s1 | Some u \<Rightarrow> emit (Call_user u) s1)
                }))"

definition xmpp_iq_clan_masterbanner_update_cb :: "cptr \<Rightarrow> 'u session \<Rightarrow> 'u session" where
  "xmpp_iq_clan_masterbanner_update_cb content s =
     (case content of
        None \<Rightarrow> s
      | Some data \<Rightarrow> upd_profile (\<lambda>p. p\<lparr>cl_master_badge := sync_uint data ''master_badge'',
          cl_master_stripe := sync_uint data ''master_stripe'', cl_master_mark := sync_uint data ''master_mark''\<rparr>) s)"

definition xmpp_iq_update_cry_money_cb :: "cptr \<Rightarrow> 'u session \<Rightarrow> 'u session" where
  "xmpp_iq_update_cry_money_cb content s =
     (case content of
        None \<Rightarrow> s
      | Some data \<Rightarrow>
          (let cry = sync_uint data ''cry_money'' in
           if 0 < cry then upd_profile (\<lambda>p. p\<lparr>pr_money_cry := cry\<rparr>) s else s))"

subsection \<open>The friend list that the server sends\<close>

definition friend_attrs :: "friend \<Rightarrow> (cstring \<times> cstring) list" where
  "friend_attrs f =
     [(''jid'', NULL_CHECK (fr_jid f)), (''profile_id'', fr_profile_id f), (''nickname'', fr_nickname f),
      (''status'', int_dec (uint (fr_status f))), (''experience'', int_dec (uint (fr_experience f))), (''location'', [])]"

definition plain_friend :: "friend \<Rightarrow> bool" where
  "plain_friend f \<longleftrightarrow> plain_value (NULL_CHECK (fr_jid f)) \<and> fr_jid f \<noteq> Some [] \<and> plain_value (fr_profile_id f) \<and> plain_value (fr_nickname f)"

definition add_friend_step :: "friend \<Rightarrow> 'u session \<Rightarrow> 'u session crash" where
  "add_friend_step f s =
     (case pr_friends (profile s) of None \<Rightarrow> None | Some l \<Rightarrow> Some (upd_profile (\<lambda>p. p\<lparr>pr_friends := Some (f # l)\<rparr>) s))"

lemma c_uint_c_int [simp]: "c_uint (c_int x) = c_uint x"
  by (simp add: c_uint_def c_int_def)

lemma c_uint_uint [simp]: "c_uint (uint w) = w"
  by (simp add: c_uint_def)

lemma u32_bounds: "- (2 ^ 63) \<le> uint (w :: u32)" "uint (w :: u32) < 2 ^ 63"
  using uint_lt2p [of w] order_trans [OF _ uint_ge_0 [of w], of "- (2 ^ 63)"] by simp_all

lemma friend_elem_step:
  assumes "plain_friend f"
  shows "friend_elem (''<friend'' @ render_attrs (friend_attrs f) @ ''/>'' @ r) s = add_friend_step f s"
proof -
  let ?kvs = "friend_attrs f"
  have pl: "plain_attrs ?kvs"
    using assms plain_value_int by (simp add: friend_attrs_def plain_friend_def name_ok_def plain_value_def)
  have ne: "?kvs \<noteq> []" by (simp add: friend_attrs_def)
  have n: "name_ok ''jid''" "name_ok ''nickname''" "name_ok ''profile_id''" "name_ok ''status''" "name_ok ''experience''"
    by (simp_all add: name_ok_def)
  have l: "lookup_attr ''jid'' ?kvs = Some (NULL_CHECK (fr_jid f))" "lookup_attr ''nickname'' ?kvs = Some (fr_nickname f)"
    "lookup_attr ''profile_id'' ?kvs = Some (fr_profile_id f)" "lookup_attr ''status'' ?kvs = Some (int_dec (uint (fr_status f)))"
    "lookup_attr ''experience'' ?kvs = Some (int_dec (uint (fr_experience f)))"
    by (simp_all add: friend_attrs_def attr_hit_def)
  have t: "apos \<notin> set ''<friend''" by simp
  have b: "CHR '' '' \<notin> set ''jid''" "CHR '' '' \<notin> set ''nickname''" "CHR '' '' \<notin> set ''profile_id''" "CHR '' '' \<notin> set ''status''"
    "CHR '' '' \<notin> set ''experience''" by simp_all
  have jid: "nonempty_ptr (Some (NULL_CHECK (fr_jid f))) = fr_jid f"
    using assms by (auto simp: nonempty_ptr_def NULL_CHECK_def plain_friend_def split: option.split)
  show ?thesis
    unfolding friend_elem_def tagged(1) [OF ne t b(1)] tagged(1) [OF ne t b(2)] tagged(1) [OF ne t b(3)]
      tagged(2) [OF ne t b(4)] tagged(2) [OF ne t b(5)]
      attr_elem [OF pl n(1) l(1)] attr_elem [OF pl n(2) l(2)] attr_elem [OF pl n(3) l(3)]
      attr_int_elem [OF pl n(4) l(4) u32_bounds] attr_int_elem [OF pl n(5) l(5) u32_bounds]
    by (simp add: friend_list_add_def friend_new_def jid add_friend_step_def split: option.split)
qed

interpretation friend_reader: element_reader "''<friend''" friend_attrs plain_friend friend_elem add_friend_step
proof
  fix f :: friend
  assume "plain_friend f"
  then show "plain_attrs (friend_attrs f)"
    using plain_value_int by (simp add: friend_attrs_def plain_friend_def name_ok_def plain_value_def)
qed (use friend_elem_step in simp_all)

lemma add_friends:
  "pr_friends (profile s) = Some l \<Longrightarrow> each add_friend_step fs s = Some (upd_profile (\<lambda>p. p\<lparr>pr_friends := Some (rev fs @ l)\<rparr>) s)"
proof (induction fs arbitrary: s l)
  case Nil
  then show ?case by (simp add: upd_profile_def)
next
  case (Cons f fs)
  then show ?case
    by (simp add: add_friend_step_def)
qed

definition friend_list_message :: "friend list \<Rightarrow> cstring" where
  "friend_list_message fs = ''<friend_list>'' @ concat (map (\<lambda>f. render_elem ''<friend'' (friend_attrs f)) fs) @ ''</friend_list>''"

text \<open>C6: the friend list that the server sends replaces the old one: the list holds exactly the friends of the
  message, with their fields as sent (last first), and every friend who is online is told the own status once.\<close>

theorem friend_list_received:
  assumes "list_all plain_friend fs" "pr_friends (profile s) \<noteq> None"
  shows "\<exists>s'. xmpp_iq_friend_list_cb (Some (friend_list_message fs)) s = Some s'
     \<and> pr_friends (profile s') = Some (rev fs)
     \<and> trace s' = trace s @ map (friend_message s') (filter (\<lambda>f. fr_jid f \<noteq> None) (rev fs))"
proof -
  let ?es = "concat (map (\<lambda>f. render_elem ''<friend'' (friend_attrs f)) fs)"
  let ?s1 = "upd_profile (\<lambda>p. p\<lparr>pr_friends := Some []\<rparr>) s"
  let ?s2 = "upd_profile (\<lambda>p. p\<lparr>pr_friends := Some (rev fs)\<rparr>) s"
  have "strstr ''</friend_list>'' ''<friend'' = None" by code_simp
  with friend_reader.reads_elements [OF assms(1), of "[]" "''</friend_list>''" ?s1]
  have "each_elem ''<friend'' friend_elem (?es @ ''</friend_list>'') ?s1 = each add_friend_step fs ?s1" by simp
  also have "\<dots> = Some ?s2" using add_friends [of ?s1 "[]" fs] by (simp add: upd_profile_def)
  finally have loop: "each_elem ''<friend'' friend_elem (?es @ ''</friend_list>'') ?s1 = Some ?s2" .
  have start: "strstr (friend_list_message fs) ''<friend_list'' = Some (friend_list_message fs)"
    using strstr_here [of "''<friend_list''" "''>'' @ ?es @ ''</friend_list>''"] by (simp add: friend_list_message_def)
  have d: "drop 13 (friend_list_message fs) = ?es @ ''</friend_list>''" "\<not> length (friend_list_message fs) < 13"
    by (simp_all add: friend_list_message_def)
  obtain l where l: "pr_friends (profile s) = Some l" using assms(2) by auto
  have "xmpp_iq_friend_list_cb (Some (friend_list_message fs)) s = each xmpp_iq_peer_status_update_friend (rev fs) ?s2"
    using loop by (simp add: xmpp_iq_friend_list_cb_def friend_list_empty_def l start d Let_def)
  also have "\<dots> = Some (add_trace (map (friend_message ?s2) (filter (\<lambda>f. fr_jid f \<noteq> None) (rev fs))) ?s2)"
    by (rule each_friend)
  finally show ?thesis by (simp add: friend_message_def [abs_def])
qed

definition ann :: friend where
  "ann = \<lparr>fr_jid = Some ''ann@warface/GameClient'', fr_nickname = ''ann'', fr_profile_id = ''1'', fr_status = 9, fr_experience = 5\<rparr>"

theorem friend_list_received_witness:
  "\<exists>s'. xmpp_iq_friend_list_cb (Some (friend_list_message [ann])) demo_session = Some s' \<and> pr_friends (profile s') = Some [ann]
     \<and> trace s' = [friend_message s' ann]"
proof -
  have a: "list_all plain_friend [ann]"
    by (simp add: plain_friend_def ann_def plain_value_def NULL_CHECK_def)
  have f: "pr_friends (profile demo_session) \<noteq> None" by (simp add: demo_session_simps)
  have "fr_jid ann \<noteq> None" by (simp add: ann_def)
  with friend_list_received [OF a f] show ?thesis by (auto simp: demo_session_simps)
qed

subsection \<open>Members never leave\<close>

definition mate_ids :: "'u session \<Rightarrow> cstring set" where
  "mate_ids s = (case cl_mates (profile s) of None \<Rightarrow> {} | Some l \<Rightarrow> cm_profile_id ` set l)"

lemma update_keeps_ids:
  assumes "clanmate_list_update jid (Some nick) (Some pid) st xp cp cr c = Some (c', ret)" "cl_mates c = Some l"
  shows "\<exists>l'. cl_mates c' = Some l' \<and> cm_profile_id ` set l \<subseteq> cm_profile_id ` set l'"
proof (cases "find (\<lambda>m. cm_profile_id m = pid) l")
  case None
  with assms show ?thesis
    by (auto simp: clanmate_list_update_def clanmate_list_get_by_pid_def clanmate_list_add_def clanmate_new_def update_own_position_def)
next
  case (Some m)
  define new where "new = \<lparr>cm_jid = nonempty_ptr jid, cm_nickname = nick, cm_profile_id = pid, cm_status = c_uint st,
      cm_experience = c_uint xp, cm_clan_points = c_uint cp, cm_clan_role = c_uint cr\<rparr>"
  have "map cm_profile_id (modify_first (\<lambda>x. cm_profile_id x = pid) (\<lambda>_. new) l) = map cm_profile_id l"
    by (rule modify_keys) (simp add: new_def)
  then have "cm_profile_id ` set (modify_first (\<lambda>x. cm_profile_id x = pid) (\<lambda>_. new) l) = cm_profile_id ` set l"
    by (metis list.set_map)
  with assms Some show ?thesis
    by (auto simp: clanmate_list_update_def clanmate_list_get_by_pid_def clanmate_new_def update_own_position_def new_def)
qed

lemma clan_update_keeps_ids: "clan_update_elem m s = Some s' \<Longrightarrow> mate_ids s \<subseteq> mate_ids s'"
proof -
  have upd: "mate_ids s \<subseteq> mate_ids (s\<lparr>profile := p\<rparr>)"
    if "clanmate_list_update jid (Some nick) (Some pid) st xp cp cr (profile s) = Some (p, ret)" for jid nick pid st xp cp cr p ret
    using update_keeps_ids [OF that] by (cases "cl_mates (profile s)") (auto simp: mate_ids_def)
  assume "clan_update_elem m s = Some s'"
  then show ?thesis
    by (auto simp: clan_update_elem_def Let_def bind_eq_Some_conv split: option.splits if_splits dest!: upd)
      (auto simp: mate_ids_def)
qed

text \<open>C38: no message \<open>clan_members_updated\<close> ever removes a clan mate from the list, also not the ones by which
  the server announces that a member left (an update without a nickname): the nickname that is missing is taken
  from the list before the update.\<close>

theorem clan_members_never_leave:
  assumes "xmpp_iq_clan_members_updated_cb content s = Some s'"
  shows "mate_ids s \<subseteq> mate_ids s'"
proof (cases content)
  case None
  with assms show ?thesis by (simp add: xmpp_iq_clan_members_updated_cb_def)
next
  case (Some data)
  then have "each_elem ''<update'' clan_update_elem data s = Some s'" using assms by (simp add: xmpp_iq_clan_members_updated_cb_def)
  then show ?thesis
    by (rule each_elem_invariant [where I = "\<lambda>x. mate_ids s \<subseteq> mate_ids x"]) (use clan_update_keeps_ids in blast)+
qed

definition clan_session :: "nat session" where
  "clan_session = upd_profile (\<lambda>p. p\<lparr>cl_mates := cl_mates sample_clan\<rparr>) demo_session"

theorem clan_members_never_leave_witness:
  "\<exists>s'. xmpp_iq_clan_members_updated_cb (Some (''<update'' @ render_attrs [(''profile_id'', ''2'')] @ ''/>'')) clan_session = Some s'
     \<and> ''2'' \<in> mate_ids s'"
proof -
  let ?d = "''<update'' @ render_attrs [(''profile_id'', ''2'')] @ ''/>''"
  have g: "get_info ?d ''<update'' ''</update>'' = None" "get_info ?d ''<update'' ''/>'' = Some (render_attrs [(''profile_id'', ''2'')])"
    "strstr ?d ''<update'' = Some ?d" "strstr (tl ?d) ''<update'' = None" by code_simp+
  have a: "attr (render_attrs [(''profile_id'', ''2'')]) ''profile_id'' = Some ''2''" "attr (render_attrs [(''profile_id'', ''2'')]) ''nickname'' = None"
    by code_simp+
  have m: "cl_mates (profile clan_session) = cl_mates sample_clan" "pr_id (profile clan_session) = Some ''7''"
    by (simp_all add: clan_session_def demo_session_simps)
  have "\<exists>s'. clan_update_elem ?d clan_session = Some s'"
    unfolding clan_update_elem_def g
    by (simp add: a m Let_def clanmate_list_update_def clanmate_list_get_by_pid_def clanmate_new_def update_own_position_def sample_clan_def
        del: render_attrs_simps)
  then obtain s' where u: "clan_update_elem ?d clan_session = Some s'" by blast
  have "each_elem ''<update'' clan_update_elem (tl ?d) s' = Some s'" using g(4) by (rule each_elem_stop)
  then have r: "xmpp_iq_clan_members_updated_cb (Some ?d) clan_session = Some s'"
    using each_elem_next [OF g(3), of clan_update_elem clan_session] u by (simp add: xmpp_iq_clan_members_updated_cb_def)
  have "''2'' \<in> mate_ids clan_session" by (simp add: mate_ids_def m sample_clan_def)
  with clan_members_never_leave [OF r] r show ?thesis by blast
qed

subsection \<open>The clan that the server sends\<close>

definition mate_attrs :: "clanmate \<times> u32 \<Rightarrow> (cstring \<times> cstring) list" where
  "mate_attrs ci =
     (case ci of (c, invited) \<Rightarrow>
       [(''nickname'', cm_nickname c), (''profile_id'', cm_profile_id c), (''experience'', int_dec (uint (cm_experience c))),
        (''clan_points'', int_dec (uint (cm_clan_points c))), (''invite_date'', int_dec (uint invited)),
        (''clan_role'', int_dec (uint (cm_clan_role c))), (''jid'', NULL_CHECK (cm_jid c)), (''status'', int_dec (uint (cm_status c)))])"

definition plain_mate :: "clanmate \<times> u32 \<Rightarrow> bool" where
  "plain_mate ci \<longleftrightarrow> (case ci of (c, invited) \<Rightarrow>
     plain_value (cm_nickname c) \<and> plain_value (cm_profile_id c) \<and> plain_value (NULL_CHECK (cm_jid c)) \<and> cm_jid c \<noteq> Some [])"

definition clan_step :: "clanmate \<times> u32 \<Rightarrow> 'u session \<Rightarrow> 'u session crash" where
  "clan_step ci s =
     (case pr_nickname (profile s) of
        None \<Rightarrow> None
      | Some own \<Rightarrow>
          if own \<noteq> cm_nickname (fst ci)
          then do {
                 (p, ret) \<leftarrow> clanmate_list_update (cm_jid (fst ci)) (Some (cm_nickname (fst ci))) (Some (cm_profile_id (fst ci)))
                    (uint (cm_status (fst ci))) (uint (cm_experience (fst ci))) (uint (cm_clan_points (fst ci)))
                    (uint (cm_clan_role (fst ci))) (profile s);
                 Some (s\<lparr>profile := p\<rparr>)
               }
          else Some (upd_profile (\<lambda>p. p\<lparr>cl_points := cm_clan_points (fst ci), cl_role := cm_clan_role (fst ci), cl_joined := snd ci\<rparr>) s))"

lemma sync_uint_elem:
  assumes "plain_attrs kvs" "name_ok n" "lookup_attr n kvs = Some (int_dec (uint w))"
  shows "sync_uint (render_attrs kvs @ r) n = w"
  using get_attr_int [OF plain_attrs_ok [OF assms(1)] assms(2,3) u32_bounds] by (simp add: sync_uint_def sync_long_def)

lemma update_wraps:
  "clanmate_list_update (Some (NULL_CHECK j)) nick pid (c_int a) (c_int b) (c_int c) (c_int d) x
     = clanmate_list_update j nick pid a b c d x" if "j \<noteq> Some []"
proof -
  have "nonempty_ptr (Some (NULL_CHECK j)) = nonempty_ptr j"
    using that by (auto simp: nonempty_ptr_def NULL_CHECK_def split: option.split)
  then have "clanmate_new (Some (NULL_CHECK j)) nick pid (c_int a) (c_int b) (c_int c) (c_int d) = clanmate_new j nick pid a b c d"
    by (simp add: clanmate_new_def)
  then show ?thesis
    unfolding clanmate_list_update_def clanmate_list_add_def by (rule arg_cong)
qed

lemma clan_member_step:
  assumes "plain_mate ci"
  shows "clan_member_elem (''<clan_member_info'' @ render_attrs (mate_attrs ci) @ ''/>'' @ r) s = clan_step ci s"
proof -
  obtain c i where ci: "ci = (c, i)" by (cases ci)
  let ?kvs = "mate_attrs (c, i)"
  have pl: "plain_attrs ?kvs"
    using assms plain_value_int by (simp add: mate_attrs_def plain_mate_def ci name_ok_def)
  have ne: "?kvs \<noteq> []" by (simp add: mate_attrs_def ci)
  have cut: "get_info (''<clan_member_info'' @ render_attrs ?kvs @ ''/>'' @ r) ''<clan_member_info'' ''/>'' = Some (render_attrs ?kvs)"
    using plain_attrs_text [OF pl] by (intro elem_cut) simp
  have n: "name_ok ''jid''" "name_ok ''nickname''" "name_ok ''profile_id''" "name_ok ''status''" "name_ok ''experience''"
    "name_ok ''clan_points''" "name_ok ''clan_role''" "name_ok ''invite_date''"
    by (simp_all add: name_ok_def)
  have l: "lookup_attr ''jid'' ?kvs = Some (NULL_CHECK (cm_jid c))" "lookup_attr ''nickname'' ?kvs = Some (cm_nickname c)"
    "lookup_attr ''profile_id'' ?kvs = Some (cm_profile_id c)" "lookup_attr ''status'' ?kvs = Some (int_dec (uint (cm_status c)))"
    "lookup_attr ''experience'' ?kvs = Some (int_dec (uint (cm_experience c)))"
    "lookup_attr ''clan_points'' ?kvs = Some (int_dec (uint (cm_clan_points c)))"
    "lookup_attr ''clan_role'' ?kvs = Some (int_dec (uint (cm_clan_role c)))"
    "lookup_attr ''invite_date'' ?kvs = Some (int_dec (uint i))"
    by (simp_all add: mate_attrs_def ci attr_hit_def)
  note a = attr_elem [OF pl n(1) l(1), of "[]", simplified] attr_elem [OF pl n(2) l(2), of "[]", simplified]
    attr_elem [OF pl n(3) l(3), of "[]", simplified] attr_int_elem [OF pl n(4) l(4) u32_bounds, of "[]", simplified]
    attr_int_elem [OF pl n(5) l(5) u32_bounds, of "[]", simplified] attr_int_elem [OF pl n(6) l(6) u32_bounds, of "[]", simplified]
    attr_int_elem [OF pl n(7) l(7) u32_bounds, of "[]", simplified]
  have inv: "sync_uint (''<clan_member_info'' @ render_attrs ?kvs @ ''/>'' @ r) ''invite_date'' = i"
    using tagged(3) [OF ne, of "''<clan_member_info''" "''invite_date''" "''/>'' @ r"] sync_uint_elem [OF pl n(8) l(8), of "''/>'' @ r"] by simp
  have j: "cm_jid c \<noteq> Some []" using assms by (simp add: plain_mate_def ci)
  show ?thesis
    unfolding ci
  proof (cases "pr_nickname (profile s)")
    case None
    then show "clan_member_elem (''<clan_member_info'' @ render_attrs ?kvs @ ''/>'' @ r) s = clan_step (c, i) s"
      unfolding clan_member_elem_def cut by (simp add: clan_step_def)
  next
    case (Some own)
    then show "clan_member_elem (''<clan_member_info'' @ render_attrs ?kvs @ ''/>'' @ r) s = clan_step (c, i) s"
      unfolding clan_member_elem_def cut inv by (simp add: a clan_step_def Let_def update_wraps [OF j])
  qed
qed

interpretation clan_reader: element_reader "''<clan_member_info''" mate_attrs plain_mate clan_member_elem clan_step
proof
  fix ci
  assume "plain_mate ci"
  then show "plain_attrs (mate_attrs ci)"
    using plain_value_int by (cases ci) (simp add: mate_attrs_def plain_mate_def name_ok_def)
qed (use clan_member_step in simp_all)

lemma update_joins:
  assumes "cl_mates c = Some l" "cm_profile_id m \<notin> cm_profile_id ` set l" "cm_jid m \<noteq> Some []"
  shows "clanmate_list_update (cm_jid m) (Some (cm_nickname m)) (Some (cm_profile_id m)) (uint (cm_status m)) (uint (cm_experience m))
           (uint (cm_clan_points m)) (uint (cm_clan_role m)) c
       = Some (c\<lparr>cl_mates := Some (m # l), cl_own_position := clan_rank (cl_points c) (m # l)\<rparr>, CLAN_UPDATE_JOINED)"
proof -
  have "find (\<lambda>x. cm_profile_id x = cm_profile_id m) l = None" using assms(2) by (simp add: find_None_iff image_iff) metis
  moreover have "nonempty_ptr (cm_jid m) = cm_jid m" using assms(3) by (auto simp: nonempty_ptr_def split: option.split)
  ultimately show ?thesis
    using assms(1)
    by (cases m) (simp add: clanmate_list_update_def clanmate_list_get_by_pid_def clanmate_list_add_def clanmate_new_def update_own_position_rank)
qed

lemma join_all:
  assumes "list_all plain_mate ms" "cl_mates (profile s) = Some l" "pr_nickname (profile s) = Some own"
    "\<forall>ci \<in> set ms. cm_nickname (fst ci) \<noteq> own" "distinct (map (cm_profile_id \<circ> fst) ms)"
    "(cm_profile_id \<circ> fst) ` set ms \<inter> cm_profile_id ` set l = {}"
  shows "each clan_step ms s = Some (upd_profile (\<lambda>p. p\<lparr>cl_mates := Some (rev (map fst ms) @ l),
           cl_own_position := (if ms = [] then cl_own_position p else clan_rank (cl_points p) (rev (map fst ms) @ l))\<rparr>) s)"
  using assms
proof (induction ms arbitrary: s l)
  case Nil
  then show ?case by (simp add: upd_profile_def)
next
  case (Cons ci ms)
  let ?c = "fst ci"
  have j: "cm_jid ?c \<noteq> Some []" using Cons.prems(1) by (simp add: plain_mate_def split: prod.splits)
  have new: "cm_profile_id ?c \<notin> cm_profile_id ` set l" using Cons.prems(6) by auto
  let ?s = "upd_profile (\<lambda>p. p\<lparr>cl_mates := Some (?c # l), cl_own_position := clan_rank (cl_points p) (?c # l)\<rparr>) s"
  have step: "clan_step ci s = Some ?s"
    using Cons.prems(3,4) update_joins [OF Cons.prems(2) new j] by (auto simp: clan_step_def upd_profile_def)
  have "each clan_step ms ?s = Some (upd_profile (\<lambda>p. p\<lparr>cl_mates := Some (rev (map fst ms) @ ?c # l),
           cl_own_position := (if ms = [] then cl_own_position p else clan_rank (cl_points p) (rev (map fst ms) @ ?c # l))\<rparr>) ?s)"
    by (rule Cons.IH) (use Cons.prems in auto)
  then show ?case by (simp add: step)
qed

record clan_header =
  ch_name :: cstring
  ch_id :: u32
  ch_badge :: u32
  ch_stripe :: u32
  ch_mark :: u32

definition clan_attrs :: "clan_header \<Rightarrow> (cstring \<times> cstring) list" where
  "clan_attrs h = [(''name'', ch_name h), (''clan_id'', int_dec (uint (ch_id h))), (''master_badge'', int_dec (uint (ch_badge h))),
     (''master_stripe'', int_dec (uint (ch_stripe h))), (''master_mark'', int_dec (uint (ch_mark h)))]"

definition clan_message :: "clan_header \<Rightarrow> (clanmate \<times> u32) list \<Rightarrow> cstring" where
  "clan_message h ms =
     ''<clan_info><clan'' @ render_attrs (clan_attrs h) @ ''>''
     @ concat (map (\<lambda>ci. render_elem ''<clan_member_info'' (mate_attrs ci)) ms) @ ''</clan></clan_info>''"

lemma clan_header_read:
  assumes "plain_value (ch_name h)" "apos \<notin> set t"
  shows "attr (t @ render_attrs (clan_attrs h) @ r) ''name'' = Some (ch_name h)"
    and "sync_uint (t @ render_attrs (clan_attrs h) @ r) ''clan_id'' = ch_id h"
    and "sync_uint (t @ render_attrs (clan_attrs h) @ r) ''master_badge'' = ch_badge h"
    and "sync_uint (t @ render_attrs (clan_attrs h) @ r) ''master_stripe'' = ch_stripe h"
    and "sync_uint (t @ render_attrs (clan_attrs h) @ r) ''master_mark'' = ch_mark h"
proof -
  have pl: "plain_attrs (clan_attrs h)" and ne: "clan_attrs h \<noteq> []"
    using assms(1) plain_value_int by (simp_all add: clan_attrs_def name_ok_def)
  have n: "name_ok ''name''" "name_ok ''clan_id''" "name_ok ''master_badge''" "name_ok ''master_stripe''" "name_ok ''master_mark''"
    by (simp_all add: name_ok_def)
  have l: "lookup_attr ''name'' (clan_attrs h) = Some (ch_name h)" "lookup_attr ''clan_id'' (clan_attrs h) = Some (int_dec (uint (ch_id h)))"
    "lookup_attr ''master_badge'' (clan_attrs h) = Some (int_dec (uint (ch_badge h)))"
    "lookup_attr ''master_stripe'' (clan_attrs h) = Some (int_dec (uint (ch_stripe h)))"
    "lookup_attr ''master_mark'' (clan_attrs h) = Some (int_dec (uint (ch_mark h)))"
    by (simp_all add: clan_attrs_def attr_hit_def)
  show "attr (t @ render_attrs (clan_attrs h) @ r) ''name'' = Some (ch_name h)"
    "sync_uint (t @ render_attrs (clan_attrs h) @ r) ''clan_id'' = ch_id h"
    "sync_uint (t @ render_attrs (clan_attrs h) @ r) ''master_badge'' = ch_badge h"
    "sync_uint (t @ render_attrs (clan_attrs h) @ r) ''master_stripe'' = ch_stripe h"
    "sync_uint (t @ render_attrs (clan_attrs h) @ r) ''master_mark'' = ch_mark h"
    using assms(2) attr_elem [OF pl n(1) l(1), of r] sync_uint_elem [OF pl n(2) l(2), of r] sync_uint_elem [OF pl n(3) l(3), of r]
      sync_uint_elem [OF pl n(4) l(4), of r] sync_uint_elem [OF pl n(5) l(5), of r]
    by (simp_all add: tagged [OF ne])
qed

text \<open>The loop over the members starts at the sixth character, before the header's own element.\<close>

lemma clan_members_loop:
  assumes "list_all plain_mate ms" "plain_value (ch_name h)"
  shows "each_elem ''<clan_member_info'' clan_member_elem (drop 6 (clan_message h ms)) s = each clan_step ms s"
proof -
  let ?es = "concat (map (\<lambda>ci. render_elem ''<clan_member_info'' (mate_attrs ci)) ms)"
  let ?closing = "''</clan></clan_info>''"
  obtain R where R: "\<And>r. render_attrs (clan_attrs h) @ r = CHR '' '' # R @ r"
    using render_attrs_blank [of "clan_attrs h"] by (auto simp: clan_attrs_def)
  have nR: "CHR ''<'' \<notin> set (R @ ''>'')"
  proof -
    have "plain_attrs (clan_attrs h)" using assms(2) plain_value_int by (simp add: clan_attrs_def name_ok_def)
    from plain_attrs_text [OF this] R [of "[]"] show ?thesis by auto
  qed
  have d: "drop 6 (clan_message h ms) = ''info><clan'' @ CHR '' '' # R @ ''>'' @ ?es @ ?closing"
    by (simp add: clan_message_def R)
  have "each_elem ''<clan_member_info'' clan_member_elem (drop 6 (clan_message h ms)) s
      = each_elem ''<clan_member_info'' clan_member_elem ((R @ ''>'') @ ?es @ ?closing) s"
    unfolding d by (subst (1 2) each_elem.simps) simp
  moreover have "strstr ?closing ''<clan_member_info'' = None" by code_simp
  ultimately show ?thesis using clan_reader.reads_elements [OF assms(1) nR, of ?closing s] by simp
qed

definition with_header :: "clan_header \<Rightarrow> profile_info \<Rightarrow> profile_info" where
  "with_header h p = p\<lparr>cl_mates := Some [], cl_id := ch_id h, cl_name := Some (ch_name h),
      cl_master_badge := ch_badge h, cl_master_stripe := ch_stripe h, cl_master_mark := ch_mark h\<rparr>"

lemma clan_info_start:
  assumes "list_all plain_mate ms" "plain_value (ch_name h)" "cl_mates (profile s) \<noteq> None"
  shows "xmpp_iq_clan_info_cb (Some (clan_message h ms)) s
      = do { s3 \<leftarrow> each clan_step ms (upd_profile (with_header h) s);
             mates \<leftarrow> deref (cl_mates (profile s3)); each xmpp_iq_peer_clan_member_update_clanmate mates s3 }"
proof -
  let ?r = "''>'' @ concat (map (\<lambda>ci. render_elem ''<clan_member_info'' (mate_attrs ci)) ms) @ ''</clan></clan_info>''"
  have m: "clan_message h ms = ''<clan_info><clan'' @ render_attrs (clan_attrs h) @ ?r" by (simp add: clan_message_def)
  have d: "drop 6 (clan_message h ms) = ''info><clan'' @ render_attrs (clan_attrs h) @ ?r" "\<not> length (clan_message h ms) < 6"
    by (simp_all add: m)
  note rd = clan_header_read [OF assms(2), of "''info><clan''" ?r, simplified]
    clan_header_read [OF assms(2), of "''<clan_info><clan''" ?r, simplified]
  obtain l where l: "cl_mates (profile s) = Some l" using assms(3) by auto
  show ?thesis
    unfolding xmpp_iq_clan_info_cb_def clan_process_node_def clan_members_loop [OF assms(1,2), symmetric] with_header_def
    using d rd by (simp add: clanmate_list_empty_def l m upd_profile_def Let_def)
qed

text \<open>C5: the clan that the server sends replaces the old one: its name, number and banner, and the members but
  oneself (last first, with their fields as sent); the own entry gives the own points, role and date.  The own
  rank counts the members with at least as many points, but with the points from before the message when the own
  entry is the last one.\<close>

theorem clan_info_received:
  fixes s :: "'u session"
  assumes "list_all plain_mate (bs @ own # as)" "plain_value (ch_name h)" "cl_mates (profile s) \<noteq> None"
    "pr_nickname (profile s) = Some (cm_nickname (fst own))"
    "\<forall>ci \<in> set (bs @ as). cm_nickname (fst ci) \<noteq> cm_nickname (fst own)" "distinct (map (cm_profile_id \<circ> fst) (bs @ as))"
  shows "\<exists>s' pos. xmpp_iq_clan_info_cb (Some (clan_message h (bs @ own # as))) s = Some s'
     \<and> profile s' = (profile s)\<lparr>cl_mates := Some (rev (map fst (bs @ as))), cl_id := ch_id h, cl_name := Some (ch_name h),
          cl_master_badge := ch_badge h, cl_master_stripe := ch_stripe h, cl_master_mark := ch_mark h,
          cl_points := cm_clan_points (fst own), cl_role := cm_clan_role (fst own), cl_joined := snd own, cl_own_position := pos\<rparr>
     \<and> pos = (if as \<noteq> [] then clan_rank (cm_clan_points (fst own)) (rev (map fst (bs @ as)))
              else if bs \<noteq> [] then clan_rank (cl_points (profile s)) (rev (map fst bs)) else cl_own_position (profile s))
     \<and> trace s' = trace s @ map (clanmate_message s') (filter (\<lambda>c. cm_jid c \<noteq> None) (rev (map fst (bs @ as))))"
proof -
  define s2 where "s2 = upd_profile (with_header h) s"
  let ?n = "cm_nickname (fst own)"
  define s3 where "s3 = upd_profile (\<lambda>p. p\<lparr>cl_mates := Some (rev (map fst bs)),
      cl_own_position := (if bs = [] then cl_own_position p else clan_rank (cl_points p) (rev (map fst bs)))\<rparr>) s2"
  define s4 where "s4 = upd_profile (\<lambda>p. p\<lparr>cl_points := cm_clan_points (fst own), cl_role := cm_clan_role (fst own), cl_joined := snd own\<rparr>) s3"
  define s5 where "s5 = upd_profile (\<lambda>p. p\<lparr>cl_mates := Some (rev (map fst as) @ rev (map fst bs)),
      cl_own_position := (if as = [] then cl_own_position p else clan_rank (cl_points p) (rev (map fst as) @ rev (map fst bs)))\<rparr>) s4"
  have nick: "pr_nickname (profile s2) = Some ?n" "pr_nickname (profile s3) = Some ?n" "pr_nickname (profile s4) = Some ?n"
    using assms(4) by (simp_all add: s2_def s3_def s4_def with_header_def)
  have 3: "each clan_step bs s2 = Some s3"
    using join_all [of bs s2 "[]", OF _ _ nick(1)] assms(1,5,6) by (simp add: s2_def s3_def with_header_def)
  have 4: "clan_step own s3 = Some s4" by (simp add: clan_step_def nick(2) s4_def)
  have 5: "each clan_step as s4 = Some s5"
    using join_all [of as s4 "rev (map fst bs)", OF _ _ nick(3)] assms(1,5,6) by (auto simp: s3_def s4_def s5_def)
  have app: "each f (xs @ ys) x = do { x' \<leftarrow> each f xs x; each f ys x' }" for f :: "clanmate \<times> u32 \<Rightarrow> 'u session \<Rightarrow> 'u session crash" and xs ys x
    by (induction xs arbitrary: x) (auto simp: bind_eq_None_conv split: bind_splits)
  have "each clan_step (bs @ own # as) s2 = Some s5" by (simp add: app 3 4 5)
  then have "xmpp_iq_clan_info_cb (Some (clan_message h (bs @ own # as))) s
      = each xmpp_iq_peer_clan_member_update_clanmate (rev (map fst as) @ rev (map fst bs)) s5"
    using clan_info_start [OF assms(1-3)] by (simp add: s5_def s2_def [symmetric])
  then have r: "xmpp_iq_clan_info_cb (Some (clan_message h (bs @ own # as))) s
      = Some (add_trace (map (clanmate_message s5) (filter (\<lambda>c. cm_jid c \<noteq> None) (rev (map fst (bs @ as))))) s5)"
    by (simp add: each_clanmate)
  have "profile s5 = (profile s)\<lparr>cl_mates := Some (rev (map fst (bs @ as))), cl_id := ch_id h, cl_name := Some (ch_name h),
          cl_master_badge := ch_badge h, cl_master_stripe := ch_stripe h, cl_master_mark := ch_mark h,
          cl_points := cm_clan_points (fst own), cl_role := cm_clan_role (fst own), cl_joined := snd own,
          cl_own_position := (if as \<noteq> [] then clan_rank (cm_clan_points (fst own)) (rev (map fst (bs @ as)))
              else if bs \<noteq> [] then clan_rank (cl_points (profile s)) (rev (map fst bs)) else cl_own_position (profile s))\<rparr>"
    by (simp add: s5_def s4_def s3_def s2_def with_header_def)
  moreover have "trace s5 = trace s" by (simp add: s5_def s4_def s3_def s2_def)
  ultimately show ?thesis using r by (simp add: clanmate_message_def [abs_def])
qed

definition sample_members :: "(clanmate \<times> u32) list" where
  "sample_members =
     [(\<lparr>cm_jid = None, cm_nickname = ''bob'', cm_profile_id = ''2'', cm_status = 0, cm_experience = 3, cm_clan_points = 10, cm_clan_role = 3\<rparr>, 100),
      (\<lparr>cm_jid = None, cm_nickname = ''me'', cm_profile_id = ''7'', cm_status = 0, cm_experience = 3, cm_clan_points = 50, cm_clan_role = 1\<rparr>, 90)]"

text \<open>With the own entry last, the best of two members is second.\<close>

theorem clan_info_received_witness:
  "\<exists>s'. xmpp_iq_clan_info_cb (Some (clan_message \<lparr>ch_name = ''kings'', ch_id = 5, ch_badge = 1, ch_stripe = 2, ch_mark = 3\<rparr> sample_members))
          demo_session = Some s'
     \<and> cl_name (profile s') = Some ''kings'' \<and> cl_points (profile s') = 50 \<and> cl_own_position (profile s') = 2"
proof -
  let ?h = "\<lparr>ch_name = ''kings'', ch_id = 5, ch_badge = 1, ch_stripe = 2, ch_mark = 3\<rparr>"
  let ?own = "sample_members ! 1" let ?bob = "sample_members ! 0"
  have e: "sample_members = [?bob] @ ?own # []" by (simp add: sample_members_def)
  have h: "list_all plain_mate ([?bob] @ ?own # [])" "plain_value (ch_name ?h)" "cl_mates (profile demo_session) \<noteq> None"
    "pr_nickname (profile demo_session) = Some (cm_nickname (fst ?own))"
    "\<forall>ci \<in> set ([?bob] @ []). cm_nickname (fst ci) \<noteq> cm_nickname (fst ?own)" "distinct (map (cm_profile_id \<circ> fst) ([?bob] @ []))"
    by (simp_all add: sample_members_def plain_mate_def plain_value_def NULL_CHECK_def demo_session_simps)
  have p: "cl_points (profile demo_session) = 0"
    by (simp add: demo_session_def session_init_def zero_session_def clanmate_list_init_def Let_def)
  have "clan_rank 0 [fst ?bob] = 2" by (simp add: clan_rank_def)
  with clan_info_received [OF h] p show ?thesis
    unfolding e [symmetric] by (fastforce simp: sample_members_def)
qed

end
