(* ===== verification/Notifications.thy ===== *)
theory Notifications
  imports Buddies
begin

text \<open>
  What the server reports and the client confirms (\<open>xmpp_iq_confirm_notification.c\<close>,
  \<open>xmpp_iq_sync_notifications.c\<close>): gifts, random boxes, contracts, requests of friends and clans.  The
  texts that are only printed are left out.
\<close>

definition NOTIF_ACHIEVEMENT :: u32 where "NOTIF_ACHIEVEMENT = 4"
definition NOTIF_CUSTOM_MESSAGE :: u32 where "NOTIF_CUSTOM_MESSAGE = 8"
definition NOTIF_CLAN_INVITE :: u32 where "NOTIF_CLAN_INVITE = 16"
definition NOTIF_CLAN_INVITE_RESULT :: u32 where "NOTIF_CLAN_INVITE_RESULT = 32"
definition NOTIF_FRIEND_REQUEST :: u32 where "NOTIF_FRIEND_REQUEST = 64"
definition NOTIF_FRIEND_REQUEST_RESULT :: u32 where "NOTIF_FRIEND_REQUEST_RESULT = 128"
definition NOTIF_GIVE_ITEM :: u32 where "NOTIF_GIVE_ITEM = 256"
definition NOTIF_ANNOUNCEMENT :: u32 where "NOTIF_ANNOUNCEMENT = 512"
definition NOTIF_CONTRACT :: u32 where "NOTIF_CONTRACT = 1024"
definition NOTIF_GIVE_MONEY :: u32 where "NOTIF_GIVE_MONEY = 2048"
definition NOTIF_GIVE_RANDOM_BOX :: u32 where "NOTIF_GIVE_RANDOM_BOX = 8192"
definition NOTIF_NEW_RANK :: u32 where "NOTIF_NEW_RANK = 131072"
definition NOTIF_MESSAGE :: u32 where "NOTIF_MESSAGE = 262144"
definition NOTIF_UNLOCK_MISSION :: u32 where "NOTIF_UNLOCK_MISSION = 1048576"

lemmas notif_types = NOTIF_ACHIEVEMENT_def NOTIF_CUSTOM_MESSAGE_def NOTIF_CLAN_INVITE_def NOTIF_CLAN_INVITE_RESULT_def
  NOTIF_FRIEND_REQUEST_def NOTIF_FRIEND_REQUEST_RESULT_def NOTIF_GIVE_ITEM_def NOTIF_ANNOUNCEMENT_def NOTIF_CONTRACT_def
  NOTIF_GIVE_MONEY_def NOTIF_GIVE_RANDOM_BOX_def NOTIF_NEW_RANK_def NOTIF_MESSAGE_def NOTIF_UNLOCK_MISSION_def

datatype notif_result = NOTIF_ACCEPT | NOTIF_REFUSE

definition result_code :: "notif_result \<Rightarrow> int" where
  "result_code r = (case r of NOTIF_ACCEPT \<Rightarrow> 0 | NOTIF_REFUSE \<Rightarrow> 1)"

definition confirmation :: "cptr \<Rightarrow> u32 \<Rightarrow> notif_result \<Rightarrow> 'u session \<Rightarrow> cstring" where
  "confirmation notif_id type result s =
     k01_query ('' <confirm_notification>  <notif '' @ q ''id'' (show_ptr notif_id) @ '' '' @ q ''type'' (fmt_d type)
       @ ''>   <confirmation '' @ q ''result'' (int_dec (result_code result)) @ '' '' @ q ''status'' (fmt_d (ol_status (online s)))
       @ ''                 '' @ q ''location'' [] @ ''/>  </notif> </confirm_notification>'')"

definition confirm :: "cptr \<Rightarrow> u32 \<Rightarrow> notif_result \<Rightarrow> 'u session \<Rightarrow> 'u session crash" where
  "confirm notif_id type result s =
     send_iq_get (JID_MS (ol_channel (online s)) s) None (confirmation notif_id type result s) s"

lemma confirm_Some:
  "confirm i t r s = Some s' \<longleftrightarrow> ol_jid_host (online s) \<noteq> None
     \<and> s' = add_trace [Send_iq (JID_MS (ol_channel (online s)) s) XMPP_TYPE_GET None None (confirmation i t r s)] s"
  by (auto simp: confirm_def send_iq_get_Some)

lemma confirm_sends:
  "ol_jid_host (online s) \<noteq> None \<Longrightarrow>
     confirm i t r s = Some (add_trace [Send_iq (JID_MS (ol_channel (online s)) s) XMPP_TYPE_GET None None (confirmation i t r s)] s)"
  by (simp add: confirm_Some)

lemma confirmation_profile [simp]:
  "confirmation i t r (s\<lparr>profile := p\<rparr>) = confirmation i t r s" "JID_MS c (s\<lparr>profile := p\<rparr>) = JID_MS c s"
  by (simp_all add: confirmation_def JID_MS_def)

subsection \<open>Gifts\<close>

definition give_money :: "cstring \<Rightarrow> u32 \<Rightarrow> profile_info \<Rightarrow> profile_info" where
  "give_money currency amount p =
     (if currency = ''game_money'' then p\<lparr>pr_money_game := pr_money_game p + amount\<rparr>
      else if currency = ''crown_money'' then p\<lparr>pr_money_crown := pr_money_crown p + amount\<rparr>
      else if currency = ''cry_money'' then p\<lparr>pr_money_cry := pr_money_cry p + amount\<rparr>
      else p)"

text \<open>A pointer into the text is before another one that may be NULL.\<close>

definition before :: "cstring \<Rightarrow> cptr \<Rightarrow> bool" where
  "before p r = (case r of None \<Rightarrow> True | Some r' \<Rightarrow> length r' < length p)"

definition comes_first :: "cptr \<Rightarrow> cptr \<Rightarrow> cptr \<Rightarrow> bool" where
  "comes_first p r1 r2 = (case p of None \<Rightarrow> False | Some p' \<Rightarrow> before p' r1 \<and> before p' r2)"

text \<open>The rewards of a random box: experience and crowns are summed up, items are printed.  Each step leaves
  the tag and one more character (\<open>sizeof\<close> counts the terminating zero).\<close>

function random_box :: "cstring \<Rightarrow> u32 \<Rightarrow> u32 \<Rightarrow> (u32 \<times> u32) crash" where
  "random_box m total_xp total_crown =
     (let exp_s = strstr m ''<exp''; crown_s = strstr m ''<crown_money''; profile_item_s = strstr m ''<profile_item'' in
      if comes_first exp_s profile_item_s crown_s
      then do {
             e \<leftarrow> exp_s;
             if length e < 5 then None
             else random_box (drop 5 e) (total_xp + sync_uint (drop 5 e) ''added'') total_crown
           }
      else if comes_first crown_s profile_item_s exp_s
      then do {
             c \<leftarrow> crown_s;
             if length c < 13 then None
             else random_box (drop 13 c) total_xp (total_crown + sync_uint (drop 13 c) ''added'')
           }
      else (case profile_item_s of
              None \<Rightarrow> Some (total_xp, total_crown)
            | Some i \<Rightarrow> if length i < 14 then None else random_box (drop 14 i) total_xp total_crown))"
  by pat_completeness auto
termination
  by (relation "measure (\<lambda>(m, _, _). length m)") (auto dest!: strstr_length [OF sym])

declare random_box.simps [simp del]

definition give_random_box :: "cstring \<Rightarrow> profile_info \<Rightarrow> profile_info crash" where
  "give_random_box notif p =
     (case strstr notif ''<purchased_item'' of
        None \<Rightarrow> Some p
      | Some m \<Rightarrow>
          if length m < 16 then None
          else do {
                 (xp, crown) \<leftarrow> random_box (drop 16 m) 0 0;
                 Some (p\<lparr>pr_experience := pr_experience p + xp, pr_money_crown := pr_money_crown p + crown\<rparr>)
               })"

subsection \<open>Requests\<close>

definition answer_request :: "bool \<Rightarrow> bool \<Rightarrow> cptr \<Rightarrow> u32 \<Rightarrow> 'u session \<Rightarrow> 'u session crash" where
  "answer_request postpone accept notif_id type s =
     (if postpone then Some s else confirm notif_id type (if accept then NOTIF_ACCEPT else NOTIF_REFUSE) s)"

definition friend_request_result :: "cstring \<Rightarrow> 'u session \<Rightarrow> 'u session crash" where
  "friend_request_result notif s =
     (let status = attr_int notif ''status'' in
      if attr_int notif ''result'' = result_code NOTIF_ACCEPT
      then do {
             (fs, f) \<leftarrow> friend_list_add (if status \<le> 0 then None else attr notif ''jid'') (attr notif ''nickname'')
                         (attr notif ''profile_id'') status (attr_int notif ''experience'') (pr_friends (profile s));
             xmpp_iq_peer_status_update_friend f (upd_profile (\<lambda>p. p\<lparr>pr_friends := fs\<rparr>) s)
           }
      else Some s)"

subsection \<open>The handler\<close>

definition xmpp_iq_confirm_notification :: "cptr \<Rightarrow> 'u session \<Rightarrow> 'u session crash" where
  "xmpp_iq_confirm_notification text s =
     do {
       notif \<leftarrow> deref text;
       let notif_id = attr notif ''id'';
       let notif_type = sync_uint notif ''type'';
       let accept = confirm notif_id notif_type NOTIF_ACCEPT;
       (if notif_type \<in> {NOTIF_MESSAGE, NOTIF_NEW_RANK, NOTIF_UNLOCK_MISSION, NOTIF_GIVE_ITEM, NOTIF_CUSTOM_MESSAGE,
                         NOTIF_CLAN_INVITE_RESULT, NOTIF_ANNOUNCEMENT, NOTIF_ACHIEVEMENT}
        then accept s
        else if notif_type = NOTIF_GIVE_MONEY
        then do {
               s1 \<leftarrow> accept s;
               currency \<leftarrow> deref (attr notif ''currency'');
               Some (upd_profile (give_money currency (sync_uint notif ''amount'')) s1)
             }
        else if notif_type = NOTIF_GIVE_RANDOM_BOX
        then do { p \<leftarrow> give_random_box notif (profile s); accept (s\<lparr>profile := p\<rparr>) }
        else if notif_type = NOTIF_FRIEND_REQUEST
        then answer_request (wb_postpone_friend_requests (cvar s)) (wb_accept_friend_requests (cvar s)) notif_id notif_type s
        else if notif_type = NOTIF_CLAN_INVITE
        then (if cl_id (profile s) = 0
              then answer_request (wb_postpone_clan_invites (cvar s)) (wb_accept_clan_invites (cvar s)) notif_id notif_type s
              else Some s)
        else if notif_type = NOTIF_FRIEND_REQUEST_RESULT then friend_request_result notif s
        else if notif_type = NOTIF_CONTRACT
        then Some (upd_profile (\<lambda>p. p\<lparr>pr_money_game := pr_money_game p + c_uint (attr_int notif ''game_money_reward''),
                      pr_money_crown := pr_money_crown p + c_uint (attr_int notif ''crown_money_reward'')\<rparr>) s)
        else Some s)
     }"

definition notif_elem :: "cstring \<Rightarrow> 'u session \<Rightarrow> 'u session crash" where
  "notif_elem m s = xmpp_iq_confirm_notification (get_info m ''<notif'' ''</notif>'') s"

definition xmpp_iq_sync_notifications_cb :: "cptr \<Rightarrow> 'u session \<Rightarrow> 'u session crash" where
  "xmpp_iq_sync_notifications_cb content s =
     (case content of None \<Rightarrow> Some s | Some data \<Rightarrow> each_elem ''<notif'' notif_elem data s)"


subsection \<open>Texts of elements\<close>

text \<open>A text cut at its opening brackets: a tag is searched piece by piece.\<close>

lemma strstr_piece:
  assumes "CHR ''<'' \<notin> set c" "CHR ''<'' \<notin> set t" "r = [] \<or> hd r = CHR ''<''"
  shows "strstr (CHR ''<'' # c @ r) (CHR ''<'' # t) =
    (if starts_with c t then Some (CHR ''<'' # c @ r) else strstr r (CHR ''<'' # t))"
proof -
  have "starts_with (c @ r) t \<longleftrightarrow> starts_with c t"
  proof
    assume *: "starts_with (c @ r) t"
    show "starts_with c t"
    proof (cases r)
      case Nil
      with * show ?thesis by simp
    next
      case (Cons a r')
      with * assms(3) have "starts_with (c @ CHR ''<'' # r') t" by simp
      from starts_with_cut [OF assms(2) this] show ?thesis .
    qed
  qed (auto simp: starts_with_iff)
  moreover have "strstr (c @ r) (CHR ''<'' # t) = strstr r (CHR ''<'' # t)" by (rule strstr_skip_head [OF assms(1)])
  ultimately show ?thesis by simp
qed

lemma sync_uint_tl:
  assumes "kvs \<noteq> []" "n \<noteq> []" "hd n \<noteq> CHR '' ''"
  shows "sync_uint (tl (render_attrs kvs) @ r) n = sync_uint (render_attrs kvs @ r) n"
proof -
  obtain R where R: "\<And>r. render_attrs kvs @ r = CHR '' '' # R @ r" using render_attrs_blank [OF assms(1)] by blast
  from R [of "[]"] have "tl (render_attrs kvs) = R" by simp
  moreover have "strstr (CHR '' '' # R @ r) (n @ ''='' @ [apos]) = strstr (R @ r) (n @ ''='' @ [apos])"
    using assms(2,3) by (cases n) auto
  ultimately show ?thesis unfolding R by (simp add: sync_uint_def sync_long_def get_info_int_def)
qed

subsection \<open>Random boxes\<close>

datatype reward =
    Reward_exp u32 u32
  | Reward_crown u32 u32
  | Reward_item cstring "(cstring \<times> cstring) list"

definition added_attrs :: "cstring \<Rightarrow> u32 \<Rightarrow> u32 \<Rightarrow> (cstring \<times> cstring) list" where
  "added_attrs name n t = [(''name'', name), (''added'', int_dec (uint n)), (''total'', int_dec (uint t))]"

fun render_reward :: "reward \<Rightarrow> cstring" where
  "render_reward (Reward_exp n t) = render_elem ''<exp'' (added_attrs ''exp_item_01'' n t)"
| "render_reward (Reward_crown n t) = render_elem ''<crown_money'' (added_attrs ''crown_money_item_01'' n t)"
| "render_reward (Reward_item name kvs) =
     ''<profile_item'' @ render_attrs [(''name'', name)] @ ''>'' @ render_elem ''<item'' kvs @ ''</profile_item>''"

fun plain_reward :: "reward \<Rightarrow> bool" where
  "plain_reward (Reward_item name kvs) \<longleftrightarrow> plain_value name \<and> plain_attrs kvs"
| "plain_reward _ \<longleftrightarrow> True"

fun exp_of :: "reward \<Rightarrow> u32" where
  "exp_of (Reward_exp n _) = n"
| "exp_of _ = 0"

fun crowns_of :: "reward \<Rightarrow> u32" where
  "crowns_of (Reward_crown n _) = n"
| "crowns_of _ = 0"

lemma random_box_skip: "CHR ''<'' \<notin> set w \<Longrightarrow> random_box (w @ r) xp crown = random_box r xp crown"
  by (subst (1 2) random_box.simps) (simp add: strstr_skip_head)

lemma added_attrs_plain: "plain_value name \<Longrightarrow> plain_attrs (added_attrs name n t)"
  by (simp add: added_attrs_def name_ok_def plain_value_int)

lemma added_found:
  assumes "plain_value name"
  shows "sync_uint (tl (render_attrs (added_attrs name n t)) @ r) ''added'' = n"
proof -
  have "lookup_attr ''added'' (added_attrs name n t) = Some (int_dec (uint n))"
    by (simp add: added_attrs_def attr_hit_def)
  moreover have "name_ok ''added''" by (simp add: name_ok_def)
  ultimately have "sync_uint (render_attrs (added_attrs name n t) @ r) ''added'' = n"
    using sync_uint_elem [OF added_attrs_plain [OF assms]] by blast
  then show ?thesis by (subst sync_uint_tl) (simp_all add: added_attrs_def)
qed

text \<open>A tag at the front comes before every tag that is found behind its element.\<close>

lemma front_first: "comes_first (Some (CHR ''<'' # w @ r)) (strstr r x) (strstr r y)"
  using strstr_length [of r x] strstr_length [of r y] by (auto simp: comes_first_def before_def split: option.splits)

lemma not_first: "\<not> comes_first (strstr r x) y (Some (CHR ''<'' # w @ r))" "\<not> comes_first (strstr r x) (Some (CHR ''<'' # w @ r)) y"
  using strstr_length [of r x] by (auto simp: comes_first_def before_def split: option.splits)

lemma added_elem:
  assumes "plain_value name"
  shows "CHR ''<'' \<notin> set (render_attrs (added_attrs name n t) @ ''/>'')"
    and "\<exists>a. render_attrs (added_attrs name n t) = CHR '' '' # a"
  using plain_attrs_text [OF added_attrs_plain [OF assms]] by (simp_all add: added_attrs_def render_attr_def)

lemma random_box_exp:
  assumes "R = [] \<or> hd R = CHR ''<''"
  shows "random_box (render_reward (Reward_exp n t) @ R) xp crown = random_box R (xp + n) crown"
proof -
  have v: "plain_value ''exp_item_01''" by (simp add: plain_value_def)
  obtain a where a: "render_attrs (added_attrs ''exp_item_01'' n t) = CHR '' '' # a" using added_elem(2) [OF v] by blast
  let ?c = "''exp '' @ a @ ''/>''"
  have w: "CHR ''<'' \<notin> set (a @ ''/>'')" using added_elem(1) [OF v, of n t] a by simp
  then have c: "CHR ''<'' \<notin> set ?c" by simp
  have tx: "render_reward (Reward_exp n t) @ R = CHR ''<'' # ?c @ R" by (simp add: render_elem_def a)
  have s: "strstr (CHR ''<'' # ?c @ R) ''<exp'' = Some (CHR ''<'' # ?c @ R)"
    "strstr (CHR ''<'' # ?c @ R) ''<crown_money'' = strstr R ''<crown_money''"
    "strstr (CHR ''<'' # ?c @ R) ''<profile_item'' = strstr R ''<profile_item''"
    using strstr_piece [OF c _ assms, of "''exp''"] strstr_piece [OF c _ assms, of "''crown_money''"]
      strstr_piece [OF c _ assms, of "''profile_item''"] by simp_all
  have d: "drop 5 (CHR ''<'' # ?c @ R) = (a @ ''/>'') @ R" "(length (CHR ''<'' # ?c @ R) < 5) = False" by simp_all
  have "sync_uint ((a @ ''/>'') @ R) ''added'' = n" using added_found [OF v, of n t "''/>'' @ R"] a by simp
  then show ?thesis
    unfolding tx by (subst random_box.simps) (simp only: s d front_first Let_def Option.bind.simps if_True if_False
        random_box_skip [OF w])
qed

lemma random_box_crown:
  assumes "R = [] \<or> hd R = CHR ''<''"
  shows "random_box (render_reward (Reward_crown n t) @ R) xp crown = random_box R xp (crown + n)"
proof -
  have v: "plain_value ''crown_money_item_01''" by (simp add: plain_value_def)
  obtain a where a: "render_attrs (added_attrs ''crown_money_item_01'' n t) = CHR '' '' # a" using added_elem(2) [OF v] by blast
  let ?c = "''crown_money '' @ a @ ''/>''"
  have w: "CHR ''<'' \<notin> set (a @ ''/>'')" using added_elem(1) [OF v, of n t] a by simp
  then have c: "CHR ''<'' \<notin> set ?c" by simp
  have tx: "render_reward (Reward_crown n t) @ R = CHR ''<'' # ?c @ R" by (simp add: render_elem_def a)
  have s: "strstr (CHR ''<'' # ?c @ R) ''<crown_money'' = Some (CHR ''<'' # ?c @ R)"
    "strstr (CHR ''<'' # ?c @ R) ''<exp'' = strstr R ''<exp''"
    "strstr (CHR ''<'' # ?c @ R) ''<profile_item'' = strstr R ''<profile_item''"
    using strstr_piece [OF c _ assms, of "''exp''"] strstr_piece [OF c _ assms, of "''crown_money''"]
      strstr_piece [OF c _ assms, of "''profile_item''"] by simp_all
  have d: "drop 13 (CHR ''<'' # ?c @ R) = (a @ ''/>'') @ R" "(length (CHR ''<'' # ?c @ R) < 13) = False" by simp_all
  have "sync_uint ((a @ ''/>'') @ R) ''added'' = n" using added_found [OF v, of n t "''/>'' @ R"] a by simp
  then show ?thesis
    unfolding tx by (subst random_box.simps) (simp only: s d front_first not_first Let_def Option.bind.simps if_True if_False
        random_box_skip [OF w])
qed

lemma random_box_item:
  assumes "R = [] \<or> hd R = CHR ''<''" "plain_value name" "plain_attrs kvs"
  shows "random_box (render_reward (Reward_item name kvs) @ R) xp crown = random_box R xp crown"
proof -
  let ?b = "''item'' @ render_attrs kvs @ ''/>''"
  let ?e = "''/profile_item>''"
  let ?R = "CHR ''<'' # ?b @ CHR ''<'' # ?e @ R"
  define a where "a = tl (render_attrs [(''name'', name)] @ ''>'')"
  have a: "render_attrs [(''name'', name)] @ ''>'' = CHR '' '' # a" by (simp add: a_def render_attr_def)
  have w: "CHR ''<'' \<notin> set a" using assms(2) by (simp add: a_def render_attr_def plain_value_def)
  let ?c = "''profile_item '' @ a"
  have b: "CHR ''<'' \<notin> set ?b" using plain_attrs_text [OF assms(3)] by simp
  have e: "CHR ''<'' \<notin> set ?e" by simp
  have c: "CHR ''<'' \<notin> set ?c" using w by simp
  have tx: "render_reward (Reward_item name kvs) @ R = CHR ''<'' # ?c @ ?R" using a by (simp add: render_elem_def)
  have r: "?R = [] \<or> hd ?R = CHR ''<''" "CHR ''<'' # ?e @ R = [] \<or> hd (CHR ''<'' # ?e @ R) = CHR ''<''" by simp_all
  have R: "strstr ?R ''<exp'' = strstr R ''<exp''" "strstr ?R ''<crown_money'' = strstr R ''<crown_money''"
    "strstr ?R ''<profile_item'' = strstr R ''<profile_item''"
    using strstr_piece [OF b _ r(2), of "''exp''"] strstr_piece [OF b _ r(2), of "''crown_money''"]
      strstr_piece [OF b _ r(2), of "''profile_item''"] strstr_piece [OF e _ assms(1), of "''exp''"]
      strstr_piece [OF e _ assms(1), of "''crown_money''"] strstr_piece [OF e _ assms(1), of "''profile_item''"] by simp_all
  have s: "strstr (CHR ''<'' # ?c @ ?R) ''<profile_item'' = Some (CHR ''<'' # ?c @ ?R)"
    "strstr (CHR ''<'' # ?c @ ?R) ''<crown_money'' = strstr ?R ''<crown_money''"
    "strstr (CHR ''<'' # ?c @ ?R) ''<exp'' = strstr ?R ''<exp''"
    using strstr_piece [OF c _ r(1), of "''exp''"] strstr_piece [OF c _ r(1), of "''crown_money''"]
      strstr_piece [OF c _ r(1), of "''profile_item''"] by simp_all
  have d: "drop 14 (CHR ''<'' # ?c @ ?R) = a @ ?R" "(length (CHR ''<'' # ?c @ ?R) < 14) = False" by simp_all
  have eq: "random_box ?R xp crown = random_box R xp crown"
    by (subst (1 2) random_box.simps) (simp only: R)
  show ?thesis
    unfolding tx by (subst random_box.simps) (simp only: s d not_first Let_def if_False option.case random_box_skip [OF w] eq)
qed

lemma random_box_rewards:
  assumes "list_all plain_reward rs" "R = [] \<or> hd R = CHR ''<''"
  shows "random_box (concat (map render_reward rs) @ R) xp crown =
    random_box R (xp + sum_list (map exp_of rs)) (crown + sum_list (map crowns_of rs))"
  using assms(1)
proof (induction rs arbitrary: xp crown)
  case Nil
  then show ?case by simp
next
  case (Cons r rs)
  let ?R = "concat (map render_reward rs) @ R"
  have hd: "?R = [] \<or> hd ?R = CHR ''<''"
  proof (cases rs)
    case Nil
    then show ?thesis using assms(2) by simp
  next
    case (Cons r' rs')
    then show ?thesis by (cases r') (simp_all add: render_elem_def)
  qed
  have "random_box (render_reward r @ ?R) xp crown = random_box ?R (xp + exp_of r) (crown + crowns_of r)"
    using Cons.prems random_box_exp [OF hd] random_box_crown [OF hd] random_box_item [OF hd]
    by (cases r) (simp_all del: render_reward.simps)
  then show ?case using Cons by (simp add: add.assoc del: render_reward.simps)
qed

subsection \<open>A random box as the server sends it\<close>

definition box_attrs :: "cstring \<Rightarrow> (cstring \<times> cstring) list" where
  "box_attrs i = [(''id'', i), (''type'', ''8192''), (''confirmation'', ''1'')]"

definition box_message :: "cstring \<Rightarrow> cstring \<Rightarrow> reward list \<Rightarrow> cstring" where
  "box_message i name rs =
     render_attrs (box_attrs i) @ ''>'' @ ''<give_random_box'' @ render_attrs [(''name'', name)] @ ''>'' @ ''<purchased_item>''
       @ concat (map render_reward rs) @ ''</purchased_item></give_random_box>''"

lemma box_random:
  assumes "plain_value i" "plain_value name" "list_all plain_reward rs"
  shows "give_random_box (box_message i name rs) p =
    Some (p\<lparr>pr_experience := pr_experience p + sum_list (map exp_of rs), pr_money_crown := pr_money_crown p + sum_list (map crowns_of rs)\<rparr>)"
proof -
  let ?R = "''</purchased_item></give_random_box>''"
  let ?w = "render_attrs (box_attrs i) @ ''>''"
  let ?c = "''give_random_box'' @ render_attrs [(''name'', name)] @ ''>''"
  let ?r = "''<purchased_item>'' @ concat (map render_reward rs) @ ?R"
  have w: "CHR ''<'' \<notin> set ?w" "CHR ''<'' \<notin> set ?c"
    using assms(1,2) by (simp_all add: box_attrs_def render_attr_def plain_value_def)
  have r: "?r = [] \<or> hd ?r = CHR ''<''" by simp
  have "strstr (box_message i name rs) ''<purchased_item'' = strstr (?w @ CHR ''<'' # ?c @ ?r) ''<purchased_item''"
    by (simp add: box_message_def)
  also have "\<dots> = strstr ?r ''<purchased_item''"
    using strstr_skip_head [OF w(1)] strstr_piece [OF w(2) _ r, of "''purchased_item''"] by simp
  also have "\<dots> = Some ?r" using strstr_here [of "''<purchased_item''" "CHR ''>'' # concat (map render_reward rs) @ ?R"] by simp
  finally have s: "strstr (box_message i name rs) ''<purchased_item'' = Some ?r" .
  have d: "drop 16 ?r = concat (map render_reward rs) @ ?R" "(length ?r < 16) = False" by simp_all
  have e: "random_box ?R xp crown = Some (xp, crown)" for xp crown
  proof -
    have "strstr ?R ''<exp'' = None" "strstr ?R ''<crown_money'' = None" "strstr ?R ''<profile_item'' = None"
      by simp_all
    then show ?thesis by (subst random_box.simps) (simp add: comes_first_def)
  qed
  have "random_box (drop 16 ?r) 0 0 = Some (sum_list (map exp_of rs), sum_list (map crowns_of rs))"
    unfolding d using random_box_rewards [OF assms(3), of ?R 0 0] by (simp only: e) simp
  then show ?thesis unfolding give_random_box_def s by (simp only: d option.case if_False) simp
qed

text \<open>the client books exactly the experience and the crowns of all rewards of a random box, in any order and
  number and modulo 2^32, whatever items come with them, and confirms the notification once.\<close>

theorem random_box_booked:
  assumes "plain_value i" "plain_value name" "list_all plain_reward rs" "ol_jid_host (online s) \<noteq> None"
  shows "\<exists>s'. xmpp_iq_confirm_notification (Some (box_message i name rs)) s = Some s'
     \<and> pr_experience (profile s') = pr_experience (profile s) + sum_list (map exp_of rs)
     \<and> pr_money_crown (profile s') = pr_money_crown (profile s) + sum_list (map crowns_of rs)
     \<and> trace s' = trace s @ [Send_iq (JID_MS (ol_channel (online s)) s) XMPP_TYPE_GET None None
                               (confirmation (Some i) NOTIF_GIVE_RANDOM_BOX NOTIF_ACCEPT s)]"
proof -
  have p: "plain_attrs (box_attrs i)" using assms(1) by (simp add: box_attrs_def name_ok_def plain_value_def)
  have n: "name_ok ''id''" "name_ok ''type''" by (simp_all add: name_ok_def)
  obtain r where m: "box_message i name rs = render_attrs (box_attrs i) @ r" by (simp add: box_message_def)
  have i: "attr (box_message i name rs) ''id'' = Some i"
    unfolding m by (rule attr_elem [OF p n(1)]) (simp add: box_attrs_def attr_hit_def)
  have "int_dec (uint NOTIF_GIVE_RANDOM_BOX) = ''8192''"
    by (simp add: int_dec_def nat_dec.simps NOTIF_GIVE_RANDOM_BOX_def digit_char_def) code_simp
  then have "lookup_attr ''type'' (box_attrs i) = Some (int_dec (uint NOTIF_GIVE_RANDOM_BOX))"
    by (simp add: box_attrs_def attr_hit_def)
  from sync_uint_elem [OF p n(2) this] have t: "sync_uint (box_message i name rs) ''type'' = NOTIF_GIVE_RANDOM_BOX"
    unfolding m .
  let ?p = "(profile s)\<lparr>pr_experience := pr_experience (profile s) + sum_list (map exp_of rs),
                       pr_money_crown := pr_money_crown (profile s) + sum_list (map crowns_of rs)\<rparr>"
  have "NOTIF_GIVE_RANDOM_BOX \<notin> {NOTIF_MESSAGE, NOTIF_NEW_RANK, NOTIF_UNLOCK_MISSION, NOTIF_GIVE_ITEM, NOTIF_CUSTOM_MESSAGE,
                         NOTIF_CLAN_INVITE_RESULT, NOTIF_ANNOUNCEMENT, NOTIF_ACHIEVEMENT}"
    "(NOTIF_GIVE_RANDOM_BOX = NOTIF_GIVE_MONEY) = False"
    by (simp_all add: notif_types)
  then have "xmpp_iq_confirm_notification (Some (box_message i name rs)) s
      = confirm (Some i) NOTIF_GIVE_RANDOM_BOX NOTIF_ACCEPT (s\<lparr>profile := ?p\<rparr>)"
    by (simp only: xmpp_iq_confirm_notification_def Let_def deref_simps i t box_random [OF assms(1-3)] if_False if_True
        Option.bind.simps simp_thms)
  also have "\<dots> = Some (add_trace [Send_iq (JID_MS (ol_channel (online s)) s) XMPP_TYPE_GET None None
                               (confirmation (Some i) NOTIF_GIVE_RANDOM_BOX NOTIF_ACCEPT s)] (s\<lparr>profile := ?p\<rparr>))"
    using assms(4) by (simp add: confirm_sends)
  finally show ?thesis by (rule ssubst) simp
qed

theorem random_box_booked_witness:
  "\<exists>s' :: nat session. xmpp_iq_confirm_notification (Some (box_message ''5'' ''box'' [Reward_exp 100 900, Reward_crown 7 8])) demo_session = Some s'
     \<and> pr_experience (profile s') = 100"
proof -
  have "plain_value ''5''" "plain_value ''box''" by (simp_all add: plain_value_def)
  moreover have "list_all plain_reward [Reward_exp 100 900, Reward_crown 7 8]" by simp
  moreover have "ol_jid_host (online demo_session) \<noteq> None" by (simp add: demo_session_simps)
  ultimately obtain s' where
    s': "xmpp_iq_confirm_notification (Some (box_message ''5'' ''box'' [Reward_exp 100 900, Reward_crown 7 8])) demo_session = Some s'"
    and e: "pr_experience (profile s') = pr_experience (profile demo_session)
      + sum_list (map exp_of [Reward_exp 100 900, Reward_crown 7 8])"
    using random_box_booked by blast
  have "pr_experience (profile demo_session) = 0"
    by (simp add: demo_session_def session_init_def zero_session_def Let_def clanmate_list_init_def)
  with e have "pr_experience (profile s') = 100" by simp
  with s' show ?thesis by (intro exI conjI)
qed

subsection \<open>What is confirmed, and what the session keeps\<close>

text \<open>The result of a notification: the confirmation it sends, if any, is the only message besides the status
  told to a new friend; the channel, the own status and the game room stay.\<close>

lemma add_trace_updates [simp]:
  "add_trace es (upd_profile f s) = upd_profile f (add_trace es s)"
  by (simp add: add_trace_def upd_profile_def)

text \<open>A message to a master server goes to the channel \<open>c\<close>.\<close>

fun sent_to :: "cptr \<Rightarrow> 'u effect \<Rightarrow> bool" where
  "sent_to c (Send_iq t _ _ _ _) = (jid_node t = Some ''masterserver'' \<longrightarrow> jid_resource t = c)"
| "sent_to c (Send_presence _ _ _) = True"
| "sent_to c (Handle_query _) = True"
| "sent_to c (Refresh_cache _) = True"
| "sent_to c (Call_user _) = True"
| "sent_to c (Call_opened _ _) = True"
| "sent_to c (Call_invitation _ _ _) = True"
| "sent_to c (Call_result _ _) = True"

lemma jid_parts [simp]:
  "jid_node (JID_MS r s) = Some ''masterserver''" "jid_resource (JID_MS r s) = r" "jid_node (JID j) = None" "jid_node (JID_K01 s) = None"
  by (simp_all add: JID_MS_def JID_def JID_K01_def)

definition notification_frame :: "'u session \<Rightarrow> 'u session \<Rightarrow> bool" where
  "notification_frame s s' \<longleftrightarrow> (\<exists>p es. s' = add_trace es (s\<lparr>profile := p\<rparr>) \<and> length es \<le> 1
     \<and> list_all (sent_to (ol_channel (online s))) es
     \<and> pr_id p = pr_id (profile s) \<and> pr_nickname p = pr_nickname (profile s) \<and> pr_items p = pr_items (profile s)
     \<and> cl_id p = cl_id (profile s) \<and> cl_mates p = cl_mates (profile s)
     \<and> (\<forall>fs. pr_friends (profile s) = Some fs \<longrightarrow> (\<exists>new. pr_friends p = Some (new @ fs) \<and> length new \<le> 1)))"

lemma give_money_keeps [simp]:
  "pr_id (give_money c n p) = pr_id p" "pr_nickname (give_money c n p) = pr_nickname p" "pr_items (give_money c n p) = pr_items p"
  "cl_id (give_money c n p) = cl_id p" "cl_mates (give_money c n p) = cl_mates p" "pr_friends (give_money c n p) = pr_friends p"
  by (simp_all add: give_money_def)

lemma frame_parts:
  assumes "length es \<le> 1" "list_all (sent_to (ol_channel (online s))) es" "pr_id p = pr_id (profile s)" "pr_nickname p = pr_nickname (profile s)" "pr_items p = pr_items (profile s)"
    "cl_id p = cl_id (profile s)" "cl_mates p = cl_mates (profile s)"
    "\<And>fs. pr_friends (profile s) = Some fs \<Longrightarrow> \<exists>new. pr_friends p = Some (new @ fs) \<and> length new \<le> 1"
  shows "notification_frame s (add_trace es (s\<lparr>profile := p\<rparr>))"
  using assms unfolding notification_frame_def by (intro exI [of _ p] exI [of _ es]) simp

lemma frame_update:
  assumes "length es \<le> 1" "list_all (sent_to (ol_channel (online s))) es" "\<And>p. pr_id (f p) = pr_id p" "\<And>p. pr_nickname (f p) = pr_nickname p" "\<And>p. pr_items (f p) = pr_items p"
    "\<And>p. cl_id (f p) = cl_id p" "\<And>p. cl_mates (f p) = cl_mates p" "\<And>p. pr_friends (f p) = pr_friends p"
  shows "notification_frame s (upd_profile f (add_trace es s))"
  unfolding add_trace_updates [symmetric] unfolding upd_profile_def using assms by (intro frame_parts) simp_all

lemma frame_trace: "length es \<le> 1 \<Longrightarrow> list_all (sent_to (ol_channel (online s))) es \<Longrightarrow> notification_frame s (add_trace es s)"
  using frame_parts [of es s "profile s"] by simp

lemma confirm_frame: "confirm i t r s = Some s' \<Longrightarrow> notification_frame s s'"
  by (auto simp: confirm_Some intro!: frame_trace)

lemma answer_frame: "answer_request b a i t s = Some s' \<Longrightarrow> notification_frame s s'"
  using frame_trace [of "[]" s] by (auto simp: answer_request_def confirm_frame split: if_splits)

lemma result_frame:
  assumes "friend_request_result n s = Some s'"
  shows "notification_frame s s'"
proof (cases "attr_int n ''result'' = result_code NOTIF_ACCEPT")
  case False
  with assms show ?thesis using frame_trace [of "[]" s] by (simp add: friend_request_result_def)
next
  case True
  with assms obtain fs f where a: "friend_list_add (if attr_int n ''status'' \<le> 0 then None else attr n ''jid'') (attr n ''nickname'')
        (attr n ''profile_id'') (attr_int n ''status'') (attr_int n ''experience'') (pr_friends (profile s)) = Some (fs, f)"
    and u: "xmpp_iq_peer_status_update_friend f (upd_profile (\<lambda>p. p\<lparr>pr_friends := fs\<rparr>) s) = Some s'"
    by (auto simp: friend_request_result_def Let_def bind_eq_Some_conv simp del: deref_simps)
  from a obtain l where l: "pr_friends (profile s) = Some l" "fs = Some (f # l)"
    by (auto simp: friend_list_add_def bind_eq_Some_conv)
  obtain es where "s' = add_trace es (upd_profile (\<lambda>p. p\<lparr>pr_friends := fs\<rparr>) s)" "length es \<le> 1"
    "list_all (sent_to (ol_channel (online s))) es"
    using u unfolding friend_update_trace emit_simps by (auto split: if_splits intro: that [of "[]"] that [of "[_]"])
  then show ?thesis unfolding upd_profile_def using l by (auto intro!: frame_parts exI [of _ "[f]"])
qed

lemma box_frame:
  assumes "give_random_box n (profile s) = Some p" "confirm i t r (s\<lparr>profile := p\<rparr>) = Some s'"
  shows "notification_frame s s'"
  using assms by (auto simp: give_random_box_def confirm_Some bind_eq_Some_conv split: option.splits if_splits intro!: frame_parts
      frame_trace)

lemma confirmation_keeps:
  assumes "xmpp_iq_confirm_notification n s = Some s'"
  shows "notification_frame s s'"
proof -
  have nil: "notification_frame s s" using frame_trace [of "[]" s] by simp
  have "n \<noteq> None"
  proof
    assume "n = None"
    with assms show False by (simp add: xmpp_iq_confirm_notification_def)
  qed
  then obtain n' where "n = Some n'" by blast
  with assms nil show ?thesis
    unfolding xmpp_iq_confirm_notification_def Let_def
    by (auto simp: bind_eq_Some_conv confirm_Some split: if_splits
        intro: confirm_frame answer_frame result_frame box_frame frame_trace intro!: frame_update [of "[_]"] frame_update [of "[]", simplified])
qed

subsection \<open>Invitations of friends and clans\<close>

text \<open>a request of a friend or a clan is accepted only if the settings say so and do not postpone the answer, and
  a clan is never joined while the client is in one; a postponed request leaves the session as it is.\<close>

theorem request_answered_by_settings:
  assumes "xmpp_iq_confirm_notification (Some notif) s = Some s'"
    and "sync_uint notif ''type'' = NOTIF_FRIEND_REQUEST \<and> p = wb_postpone_friend_requests (cvar s) \<and> a = wb_accept_friend_requests (cvar s)
      \<or> sync_uint notif ''type'' = NOTIF_CLAN_INVITE \<and> p = (wb_postpone_clan_invites (cvar s) \<or> cl_id (profile s) \<noteq> 0)
          \<and> a = wb_accept_clan_invites (cvar s)"
  shows "s' = (if p then s else add_trace [Send_iq (JID_MS (ol_channel (online s)) s) XMPP_TYPE_GET None None
      (confirmation (attr notif ''id'') (sync_uint notif ''type'') (if a then NOTIF_ACCEPT else NOTIF_REFUSE) s)] s)"
  using assms(2)
proof
  assume t: "sync_uint notif ''type'' = NOTIF_FRIEND_REQUEST \<and> p = wb_postpone_friend_requests (cvar s) \<and> a = wb_accept_friend_requests (cvar s)"
  with assms(1) show ?thesis
    by (simp add: xmpp_iq_confirm_notification_def answer_request_def notif_types confirm_Some split: if_splits)
next
  assume t: "sync_uint notif ''type'' = NOTIF_CLAN_INVITE \<and> p = (wb_postpone_clan_invites (cvar s) \<or> cl_id (profile s) \<noteq> 0)
      \<and> a = wb_accept_clan_invites (cvar s)"
  with assms(1) show ?thesis
    by (auto simp: xmpp_iq_confirm_notification_def answer_request_def notif_types confirm_Some split: if_splits)
qed

definition clan_invitation :: cstring where
  "clan_invitation = render_attrs [(''id'', ''5''), (''type'', ''16'')]"

theorem request_answered_by_settings_witness:
  "xmpp_iq_confirm_notification (Some clan_invitation) (upd_profile (\<lambda>p. p\<lparr>cl_id := 3\<rparr>) demo_session)
     = Some (upd_profile (\<lambda>p. p\<lparr>cl_id := 3\<rparr>) (demo_session :: nat session))"
proof -
  let ?s = "upd_profile (\<lambda>p. p\<lparr>cl_id := 3\<rparr>) (demo_session :: nat session)"
  have t: "sync_uint clan_invitation ''type'' = NOTIF_CLAN_INVITE" by code_simp
  obtain s' where s': "xmpp_iq_confirm_notification (Some clan_invitation) ?s = Some s'"
    unfolding xmpp_iq_confirm_notification_def Let_def deref_simps Option.bind.simps t by (simp add: notif_types)
  have "s' = ?s"
    using request_answered_by_settings [OF s', of True "wb_accept_clan_invites (cvar ?s)"] t by simp
  with s' show ?thesis by simp
qed

text \<open>A gift of money without a currency crashes the client: the missing attribute is compared with \<open>strcmp\<close>
  after the gift has been confirmed.\<close>

lemma money_without_currency_crashes:
  assumes "sync_uint notif ''type'' = NOTIF_GIVE_MONEY" "attr notif ''currency'' = None"
  shows "xmpp_iq_confirm_notification (Some notif) s = None"
  using assms by (cases "confirm (attr notif ''id'') NOTIF_GIVE_MONEY NOTIF_ACCEPT s")
    (simp_all add: xmpp_iq_confirm_notification_def notif_types)

text \<open>Notifications in one message are handled in the order of the text; each keeps what
  \<open>notification_frame\<close> lists.\<close>

definition notifications_frame :: "'u session \<Rightarrow> 'u session \<Rightarrow> bool" where
  "notifications_frame s s' \<longleftrightarrow> (\<exists>p es. s' = add_trace es (s\<lparr>profile := p\<rparr>)
     \<and> list_all (sent_to (ol_channel (online s))) es
     \<and> pr_id p = pr_id (profile s) \<and> pr_nickname p = pr_nickname (profile s) \<and> pr_items p = pr_items (profile s)
     \<and> cl_id p = cl_id (profile s) \<and> cl_mates p = cl_mates (profile s)
     \<and> (\<forall>fs. pr_friends (profile s) = Some fs \<longrightarrow> (\<exists>new. pr_friends p = Some (new @ fs))))"

lemma notifications_frame_refl: "notifications_frame s s"
  unfolding notifications_frame_def by (intro exI [of _ "profile s"] exI [of _ "[]"]) simp

lemma notifications_frame_step:
  assumes "notifications_frame s s1" "notification_frame s1 s2"
  shows "notifications_frame s s2"
proof -
  obtain p es where p: "s1 = add_trace es (s\<lparr>profile := p\<rparr>)"
    "list_all (sent_to (ol_channel (online s))) es"
    "pr_id p = pr_id (profile s) \<and> pr_nickname p = pr_nickname (profile s) \<and> pr_items p = pr_items (profile s)
     \<and> cl_id p = cl_id (profile s) \<and> cl_mates p = cl_mates (profile s)"
    "\<And>fs. pr_friends (profile s) = Some fs \<Longrightarrow> \<exists>new. pr_friends p = Some (new @ fs)"
    using assms(1) unfolding notifications_frame_def by blast
  obtain p' es' where p': "s2 = add_trace es' (s1\<lparr>profile := p'\<rparr>)"
    "list_all (sent_to (ol_channel (online s1))) es'"
    "pr_id p' = pr_id (profile s1) \<and> pr_nickname p' = pr_nickname (profile s1) \<and> pr_items p' = pr_items (profile s1)
     \<and> cl_id p' = cl_id (profile s1) \<and> cl_mates p' = cl_mates (profile s1)"
    "\<And>fs. pr_friends (profile s1) = Some fs \<Longrightarrow> \<exists>new. pr_friends p' = Some (new @ fs)"
    using assms(2) unfolding notification_frame_def by blast
  have "s2 = add_trace (es @ es') (s\<lparr>profile := p'\<rparr>)" unfolding p'(1) p(1) by (simp add: add_trace_def)
  moreover have "\<exists>new. pr_friends p' = Some (new @ fs)" if fs: "pr_friends (profile s) = Some fs" for fs
  proof -
    obtain new where "pr_friends p = Some (new @ fs)" using p(4) [OF fs] by blast
    then have "pr_friends (profile s1) = Some (new @ fs)" by (simp add: p(1))
    from p'(4) [OF this] show ?thesis by (metis append_assoc)
  qed
  ultimately show ?thesis
    using p(2,3) p'(2,3) unfolding notifications_frame_def by (intro exI [of _ p'] exI [of _ "es @ es'"]) (simp add: p(1))
qed

lemma notifications_loop:
  assumes "each_elem ''<notif'' notif_elem m s = Some s'"
  shows "notifications_frame s s'"
  using assms notifications_frame_refl
proof (rule each_elem_invariant)
  fix el t t'
  assume "notif_elem el t = Some t'" "notifications_frame s t"
  then show "notifications_frame s t'" using notifications_frame_step confirmation_keeps unfolding notif_elem_def by blast
qed

end
