(* ===== verification/Channels.thy ===== *)
theory Channels
  imports Rooms Missions Notifications
begin

text \<open>
  Logging in and changing the channel: the account, the list of master servers, the profile, and the
  answer to \<open>join_channel\<close> and \<open>switch_channel\<close> (\<open>xmpp_iq_account.c\<close>, \<open>xmpp_iq_get_master_server.c\<close>,
  \<open>xmpp_iq_get_master_servers.c\<close>, \<open>src/masterserver.c\<close>, \<open>xmpp_iq_get_account_profiles.c\<close>,
  \<open>xmpp_iq_create_profile.c\<close>, \<open>xmpp_iq_join_channel.c\<close>, \<open>xmpp_iq_autorotate.c\<close>).  The texts of errors
  are only printed.
\<close>

subsection \<open>Cached lists\<close>

text \<open>The requests of the cached lists, as far as the settings do not disable them; \<open>QueryCache\<close> models the transfer.\<close>

definition xmpp_iq_items :: "'u session \<Rightarrow> 'u session" where
  "xmpp_iq_items s = (if query_disable_items (cvar s) then s else emit (Refresh_cache ''items'') s)"

definition xmpp_iq_shop_get_offers :: "'u session \<Rightarrow> 'u session" where
  "xmpp_iq_shop_get_offers s =
     (if query_disable_shop_get_offers (cvar s) then s else emit (Refresh_cache ''shop_get_offers'') s)"

definition xmpp_iq_quickplay_maplist :: "'u session \<Rightarrow> 'u session" where
  "xmpp_iq_quickplay_maplist s =
     (if query_disable_quickplay_maplist (cvar s) then s else emit (Refresh_cache ''quickplay_maplist'') s)"

definition xmpp_iq_get_configs :: "'u session \<Rightarrow> 'u session" where
  "xmpp_iq_get_configs s = (if query_disable_get_configs (cvar s) then s else emit (Refresh_cache ''get_configs'') s)"

subsection \<open>Master servers\<close>

text \<open>The fields are searched from the element on, not only in it.\<close>

definition server_elem :: "(cstring \<Rightarrow> u32) \<Rightarrow> cstring \<Rightarrow> masterserver list \<Rightarrow> masterserver list crash" where
  "server_elem strtof m l =
     Some (\<lparr>sv_server_id = sync_uint m ''server_id'', sv_online = sync_uint m ''online'', sv_min_rank = sync_uint m ''min_rank'',
            sv_max_rank = sync_uint m ''max_rank'', sv_resource = attr m ''resource'', sv_channel = attr m ''channel'',
            sv_rank_group = attr m ''rank_group'', sv_bootstrap = attr m ''bootstrap'',
            sv_load = get_info_float strtof m (''load='' @ [apos]) [apos]\<rparr> # l)"

definition read_servers :: "(cstring \<Rightarrow> u32) \<Rightarrow> cstring \<Rightarrow> masterserver list crash" where
  "read_servers strtof m = each_elem ''<server '' (server_elem strtof) m []"

definition set_masterservers :: "masterserver list \<Rightarrow> 'u session \<Rightarrow> 'u session" where
  "set_masterservers l s = s\<lparr>online := (online s)\<lparr>ol_masterservers := Some l\<rparr>\<rparr>"

definition masterserver_list_update :: "'u continuation option \<Rightarrow> 'u session \<Rightarrow> 'u session crash" where
  "masterserver_list_update cont s =
     send_iq_get (JID_K01 s) (Some (CB_get_master_servers cont)) (k01_query ''<get_master_servers/>'') s"

definition xmpp_iq_get_master_servers_cb ::
  "(cstring \<Rightarrow> u32) \<Rightarrow> ('u continuation \<Rightarrow> 'u session \<Rightarrow> 'u session crash) \<Rightarrow> 'u continuation option \<Rightarrow> cptr \<Rightarrow> xmpp_msg_type
     \<Rightarrow> 'u session \<Rightarrow> 'u session crash" where
  "xmpp_iq_get_master_servers_cb strtof run cont content type s =
     (if type = XMPP_TYPE_ERROR then Some s
      else (case content of
              None \<Rightarrow> Some s
            | Some data \<Rightarrow>
                do {
                  l \<leftarrow> read_servers strtof data;
                  let s1 = set_masterservers l s;
                  (case cont of None \<Rightarrow> Some s1 | Some c \<Rightarrow> run c s1)
                }))"

definition xmpp_iq_get_master_server :: "u32 \<Rightarrow> cptr \<Rightarrow> 'u resource_use \<Rightarrow> 'u session \<Rightarrow> 'u session crash" where
  "xmpp_iq_get_master_server rank channel_type use s =
     send_iq_get (JID_K01 s) (Some (CB_get_master_server use))
       (k01_query (''<get_master_server '' @ q ''rank'' (fmt_u rank) @ '' '' @ q ''channel'' (NULL_CHECK channel_type) @ ''/>'')) s"

subsection \<open>The profile\<close>

definition xmpp_iq_get_account_profiles :: "'u session \<Rightarrow> 'u session crash" where
  "xmpp_iq_get_account_profiles s =
     send_iq_get (JID_MS (ol_channel (online s)) s) (Some CB_account_profiles)
       (k01_query ('' <get_account_profiles '' @ q ''version'' (show_ptr (game_version (cvar s))) @ ''   '' @ q ''user_id'' (show_ptr (ol_id (online s)))
         @ '' '' @ q ''token'' (show_ptr (ol_active_token (online s))) @ ''/>'')) s"

definition xmpp_iq_create_profile :: "(nat \<Rightarrow> char) \<Rightarrow> cptr \<Rightarrow> 'u session \<Rightarrow> 'u session crash" where
  "xmpp_iq_create_profile junk nickname s =
     (if pr_id (profile s) \<noteq> None then Some s
      else do {
             nick_safe \<leftarrow> (case nickname of None \<Rightarrow> Some [] | Some n \<Rightarrow> xml_serialize junk n);
             send_iq_get (JID_K01 s) (Some CB_create_profile)
               (k01_query (''<create_profile '' @ q ''build_type'' ''--release'' @ '' '' @ q ''head'' ''default_head_13''
                 @ '' '' @ q ''version'' (show_ptr (game_version (cvar s))) @ '' '' @ q ''token'' (show_ptr (ol_active_token (online s)))
                 @ '' '' @ q ''region_id'' (show_ptr (online_region_id (cvar s))) @ '' '' @ q ''user_id'' (show_ptr (ol_id (online s)))
                 @ '' '' @ q ''nickname'' nick_safe @ '' '' @ q ''resource'' (show_ptr (ol_channel (online s)))
                 @ '' '' @ q ''hw_id'' (int_dec (game_hwid (cvar s))) @ '' '' @ q ''os_ver'' ''10'' @ '' '' @ q ''os_64'' ''1''
                 @ '' '' @ q ''cpu_vendor'' ''10'' @ '' '' @ q ''cpu_family'' ''10'' @ '' '' @ q ''cpu_model'' ''10''
                 @ '' '' @ q ''cpu_stepping'' ''10'' @ '' '' @ q ''cpu_speed'' ''10'' @ '' '' @ q ''cpu_num_cores'' ''1''
                 @ '' '' @ q ''gpu_vendor_id'' ''10'' @ '' '' @ q ''gpu_device_id'' ''10'' @ '' '' @ q ''physical_memory'' ''10''
                 @ ''/>'')) s
           })"

text \<open>The login goes on after the first profile that was created while the program runs (a static variable).\<close>

definition xmpp_iq_create_profile_cb :: "cptr \<Rightarrow> xmpp_msg_type \<Rightarrow> 'u session \<Rightarrow> 'u session crash" where
  "xmpp_iq_create_profile_cb msg type s =
     (if msg = None \<or> type = XMPP_TYPE_ERROR then Some s
      else if \<not> created_profile s then xmpp_iq_get_account_profiles (s\<lparr>created_profile := True\<rparr>)
      else Some s)"

definition xmpp_iq_get_account_profiles_cb :: "(nat \<Rightarrow> char) \<Rightarrow> cptr \<Rightarrow> xmpp_msg_type \<Rightarrow> 'u session \<Rightarrow> 'u session crash" where
  "xmpp_iq_get_account_profiles_cb junk msg type s =
     (if type = XMPP_TYPE_ERROR then Some s
      else do {
             m \<leftarrow> deref msg;
             let s1 = upd_profile (\<lambda>p. p\<lparr>pr_id := attr m ''profile id'', pr_nickname := attr m ''nickname''\<rparr>) s;
             (if pr_id (profile s1) = None
              then if game_manual_profile_creation (cvar s1) then Some s1 else xmpp_iq_create_profile junk None s1
              else xmpp_iq_join_channel (ol_channel (online s1)) None s1)
           })"

subsection \<open>The account\<close>

definition set_channel :: "cstring \<Rightarrow> cptr \<Rightarrow> 'u session \<Rightarrow> 'u session" where
  "set_channel channel channel_type s = s\<lparr>online := (online s)\<lparr>ol_channel := Some channel, ol_channel_type := channel_type\<rparr>\<rparr>"

definition login_channel :: "cstring \<Rightarrow> 'u session \<Rightarrow> 'u session crash" where
  "login_channel resource s =
     do {
       found \<leftarrow> masterserver_list_get s (Some resource);
       channel_type \<leftarrow> (case found of None \<Rightarrow> Some None | Some ms \<Rightarrow> do { t \<leftarrow> deref (sv_channel ms); Some (Some t) });
       xmpp_iq_get_account_profiles (set_channel resource channel_type s)
     }"

text \<open>A user's callback gets the name.\<close>

definition use_resource :: "'u resource_use \<Rightarrow> cstring \<Rightarrow> 'u session \<Rightarrow> 'u session crash" where
  "use_resource use resource s =
     (case use of
        For_login \<Rightarrow> login_channel resource s
      | For_autorotate \<Rightarrow> xmpp_iq_join_channel (Some resource) None s
      | For_user u \<Rightarrow> Some (emit (Call_opened u (Some resource)) s))"

definition xmpp_iq_get_master_server_cb :: "'u resource_use \<Rightarrow> cptr \<Rightarrow> xmpp_msg_type \<Rightarrow> 'u session \<Rightarrow> 'u session crash" where
  "xmpp_iq_get_master_server_cb use msg type s =
     (case msg of
        None \<Rightarrow> Some s
      | Some m \<Rightarrow>
          if type = XMPP_TYPE_ERROR then Some s
          else (case attr m ''resource'' of None \<Rightarrow> Some s | Some resource \<Rightarrow> use_resource use resource s))"

definition xmpp_iq_account :: "cptr \<Rightarrow> cptr \<Rightarrow> 'u session \<Rightarrow> 'u session crash" where
  "xmpp_iq_account login password s =
     send_iq_get (JID_K01 s) (Some CB_account)
       (k01_query (''<account '' @ q ''login'' (show_ptr login) @ '' '' @ q ''password'' (show_ptr password) @ ''/>'')) s"

definition xmpp_iq_account_cb :: "(cstring \<Rightarrow> u32) \<Rightarrow> cptr \<Rightarrow> xmpp_msg_type \<Rightarrow> 'u session \<Rightarrow> 'u session crash" where
  "xmpp_iq_account_cb strtof msg type s =
     (if type = XMPP_TYPE_ERROR then Some s
      else do {
             m \<leftarrow> deref msg;
             let s1 = s\<lparr>online := (online s)\<lparr>ol_status := STATUS_ONLINE, ol_active_token := attr m ''active_token'', ol_id := attr m ''user''\<rparr>\<rparr>;
             l \<leftarrow> read_servers strtof m;
             let s2 = xmpp_iq_get_configs (xmpp_iq_items (set_masterservers l s1));
             xmpp_iq_get_master_server (c_uint (online_pvp_rank (cvar s2))) (online_channel_type (cvar s2)) For_login s2
           })"

definition autorotate_update_list :: "'u session \<Rightarrow> 'u session crash" where
  "autorotate_update_list s =
     (let s1 = xmpp_iq_get_configs (xmpp_iq_items s)
      in xmpp_iq_get_master_server (c_uint (online_pvp_rank (cvar s1))) (online_channel_type (cvar s1)) For_autorotate s1)"

definition xmpp_iq_autorotate_cb :: "'u session \<Rightarrow> 'u session crash" where
  "xmpp_iq_autorotate_cb s = masterserver_list_update (Some Cont_autorotate) s"

subsection \<open>Continuations\<close>

definition run_continuation ::
  "(cptr \<Rightarrow> cstring) \<Rightarrow> (nat \<Rightarrow> char) \<Rightarrow> 'u continuation \<Rightarrow> 'u session \<Rightarrow> 'u session crash" where
  "run_continuation room_title junk c s =
     (case c of
        Cont_user u \<Rightarrow> Some (emit (Call_user u) s)
      | Cont_gameroom_join room_id group_id reason \<Rightarrow> gameroom_join_request room_id group_id reason s
      | Cont_gameroom_open a \<Rightarrow> open_updated_list room_title junk a s
      | Cont_quickplay a \<Rightarrow> quickplay_updated_list room_title junk a s
      | Cont_autorotate \<Rightarrow> autorotate_update_list s)"

subsection \<open>The answer to joining a channel\<close>

text \<open>Unknown channels count as PvE channels.\<close>

definition enter_channel :: "cstring \<Rightarrow> 'u session \<Rightarrow> 'u session crash" where
  "enter_channel channel s =
     do {
       ms \<leftarrow> masterserver_list_get s (Some channel);
       channel_type \<leftarrow> (case ms of None \<Rightarrow> Some ''pve'' | Some m \<Rightarrow> deref (sv_channel m));
       Some (set_channel channel (Some channel_type) s)
     }"

definition fetch_items :: "cstring \<Rightarrow> 'u session \<Rightarrow> 'u session crash" where
  "fetch_items data s =
     do {
       items \<leftarrow> each_elem ''<item'' named_item_elem data [];
       Some (upd_profile (\<lambda>p. p\<lparr>pr_items := Some items\<rparr>) s)
     }"

text \<open>An element without \<open>id\<close> is met again and again: the loop does not move on.  Not returning is \<open>None\<close>
  here, like a crash.\<close>

partial_function (option) expired_items :: "cstring \<Rightarrow> cstring \<Rightarrow> u32 \<Rightarrow> (cstring \<times> u32) option" where
  "expired_items m query n =
     (case strstr m ''<expired_item'' of
        None \<Rightarrow> Some (query, n)
      | Some el \<Rightarrow>
          (case attr el ''id'' of
             None \<Rightarrow> expired_items el query n
           | Some item_id \<Rightarrow> expired_items (tl el) (query @ ''<item '' @ q ''item_id'' item_id @ ''/>'') (n + 1)))"

definition confirm_expired_items :: "cstring \<Rightarrow> 'u session \<Rightarrow> 'u session crash" where
  "confirm_expired_items data s =
     do {
       (query, n) \<leftarrow> expired_items data [] 0;
       if 0 < n
       then send_iq_get (JID_MS (ol_channel (online s)) s) None
              (k01_query (''<notify_expired_items>'' @ query @ ''</notify_expired_items>'')) s
       else Some s
     }"

definition update_progression :: "cstring \<Rightarrow> profile_info \<Rightarrow> profile_info crash" where
  "update_progression data p =
     (case get_info data ''<profile_progression_state'' ''/>'' of
        None \<Rightarrow> Some p
      | Some node \<Rightarrow>
          if pg_mission_freed (pr_progress p) then None
          else Some (p\<lparr>pr_progress := \<lparr>pg_tutorial_passed = attr_int node ''tutorial_passed'',
            pg_tutorial_unlocked = attr_int node ''tutorial_unlocked'', pg_class_unlocked = attr_int node ''class_unlocked'',
            pg_mission_unlocked = attr node ''mission_unlocked'', pg_mission_freed = False\<rparr>\<rparr>))"

text \<open>The first chat room with the number 0 (or without a number) is the global one.\<close>

function global_chat :: "cstring \<Rightarrow> 'u session \<Rightarrow> 'u session crash" where
  "global_chat m s =
     (case strstr m ''<chat '' of
        None \<Rightarrow> Some s
      | Some el \<Rightarrow>
          do {
            chat \<leftarrow> deref (get_info el ''<chat '' ''/>'');
            if attr_int chat ''channel'' = 0
            then do {
                   let new_global = show_ptr (attr chat ''channel_id'') @ ''@'' @ show_ptr (attr chat ''service_id'');
                   let old_global = ol_global_chat (online s);
                   s1 \<leftarrow> (if old_global = Some new_global then Some s
                          else do {
                                 s1 \<leftarrow> (if old_global \<noteq> None \<and> gi_jid (groom s) = None
                                        then xmpp_presence old_global XMPP_PRESENCE_LEAVE s else Some s);
                                 xmpp_presence (Some new_global) XMPP_PRESENCE_JOIN s1
                               });
                   Some (s1\<lparr>online := (online s1)\<lparr>ol_global_chat := Some new_global\<rparr>\<rparr>)
                 }
            else global_chat (tl el) s
          })"
  by pat_completeness auto
termination
proof (relation "measure (\<lambda>(m, _). length m)", goal_cases)
  case 1
  then show ?case by simp
next
  case (2 m s el chat)
  have "el \<noteq> []" using strstr_result_starts [OF 2(1)] by (cases el) auto
  then show ?case using strstr_length [OF 2(1)] by (cases el) auto
qed

declare global_chat.simps [simp del]

text \<open>What the client asks for in a new channel.\<close>

definition channel_requests :: "'u session \<Rightarrow> 'u session crash" where
  "channel_requests s =
     do {
       let pvp = (case ol_channel_type (online s) of None \<Rightarrow> False | Some t \<Rightarrow> strstr t ''pvp'' \<noteq> None);
       let s1 = xmpp_iq_shop_get_offers (if pvp then xmpp_iq_quickplay_maplist s else s);
       s2 \<leftarrow> xmpp_iq_get_reward_multipliers None s1;
       s3 \<leftarrow> xmpp_iq_get_player_stats None s2;
       s4 \<leftarrow> xmpp_iq_get_achievements (pr_id (profile s3)) None s3;
       mission_list_update None s4
     }"

definition channel_profile :: "cstring \<Rightarrow> 'u session \<Rightarrow> 'u session crash" where
  "channel_profile data s =
     do {
       let is_join_channel = (strstr data ''<join_channel'' \<noteq> None);
       let s1 = upd_profile (update_character data) s;
       s2 \<leftarrow> (if is_join_channel then fetch_items data (upd_profile (update_money data) s1) else Some s1);
       s3 \<leftarrow> status_update_class (sync_uint data ''current_class'') s2;
       s4 \<leftarrow> update_unlocked data s3;
       s5 \<leftarrow> confirm_expired_items data s4;
       s6 \<leftarrow> each_elem ''<notif'' notif_elem data s5;
       p \<leftarrow> update_progression data (profile s6);
       Some (upd_profile (\<lambda>_. p) s6)
     }"

definition channel_joined :: "cstring \<Rightarrow> cstring \<Rightarrow> 'u session \<Rightarrow> 'u session crash" where
  "channel_joined channel data s =
     do {
       s1 \<leftarrow> enter_channel channel s;
       s2 \<leftarrow> channel_profile data s1;
       s3 \<leftarrow> channel_requests s2;
       s4 \<leftarrow> status_set (STATUS_ONLINE OR STATUS_LOBBY) s3;
       if wb_join_global_rooms (cvar s4) then global_chat data s4 else Some s4
     }"

definition channel_logout :: "cptr \<Rightarrow> 'u session \<Rightarrow> 'u session crash" where
  "channel_logout logout s =
     (if logout \<noteq> None \<and> ol_channel (online s) \<noteq> None \<and> ol_channel (online s) \<noteq> logout
      then send_iq_get (JID_MS logout s) None (k01_query ''<channel_logout/>'') s
      else Some s)"

definition xmpp_iq_join_channel_cb ::
  "('u continuation \<Rightarrow> 'u session \<Rightarrow> 'u session crash) \<Rightarrow> cstring \<Rightarrow> 'u continuation option \<Rightarrow> cptr \<Rightarrow> cptr \<Rightarrow> xmpp_msg_type
     \<Rightarrow> 'u session \<Rightarrow> 'u session crash" where
  "xmpp_iq_join_channel_cb run channel cont msg content type s =
     (if msg = None then Some s
      else if type = XMPP_TYPE_ERROR then channel_logout (Some channel) s
      else do {
             let old = ol_channel (online s);
             s1 \<leftarrow> xmpp_iq_gameroom_leave s;
             s2 \<leftarrow> (case content of None \<Rightarrow> Some s1 | Some data \<Rightarrow> channel_joined channel data s1);
             s3 \<leftarrow> (case cont of None \<Rightarrow> Some s2 | Some c \<Rightarrow> run c s2);
             channel_logout old s3
           })"

subsection \<open>Expired items\<close>

lemma strstr_again: "strstr m t = Some el \<Longrightarrow> strstr el t = Some el"
  using strstr_result_starts [of m t el] strstr_here [of t] by (metis starts_with_iff)

text \<open>An expired item without an identifier stops the client: the loop meets it again and again.\<close>

lemma expired_item_without_id:
  assumes "strstr m ''<expired_item'' = Some el" "attr el ''id'' = None"
  shows "expired_items m query n = None"
proof (rule ccontr)
  assume "expired_items m query n \<noteq> None"
  then obtain y where "expired_items m query n = Some y" by blast
  then have "\<not> (\<exists>el. strstr m ''<expired_item'' = Some el \<and> attr el ''id'' = None)"
  proof (rule expired_items.raw_induct [rotated])
    fix f :: "cstring \<Rightarrow> cstring \<Rightarrow> u32 \<Rightarrow> (cstring \<times> u32) option" and m query n y
    assume IH: "\<And>m query n y. f m query n = Some y \<Longrightarrow> \<not> (\<exists>el. strstr m ''<expired_item'' = Some el \<and> attr el ''id'' = None)"
      and body: "(case strstr m ''<expired_item'' of None \<Rightarrow> Some (query, n)
        | Some el \<Rightarrow> (case attr el ''id'' of None \<Rightarrow> f el query n
           | Some item_id \<Rightarrow> f (tl el) (query @ ''<item '' @ q ''item_id'' item_id @ ''/>'') (n + 1))) = Some y"
    show "\<not> (\<exists>el. strstr m ''<expired_item'' = Some el \<and> attr el ''id'' = None)"
    proof
      assume "\<exists>el. strstr m ''<expired_item'' = Some el \<and> attr el ''id'' = None"
      then obtain el where el: "strstr m ''<expired_item'' = Some el" "attr el ''id'' = None" by (elim exE conjE)
      with body have "f el query n = Some y" by simp
      from IH [OF this] strstr_again [OF el(1)] el(2) show False by simp
    qed
  qed
  with assms show False by simp
qed

definition expired_attrs :: "cstring \<times> cstring \<Rightarrow> (cstring \<times> cstring) list" where
  "expired_attrs e = [(''id'', fst e), (''name'', snd e), (''slot_ids'', [])]"

definition expired_confirmation :: "cstring \<times> cstring \<Rightarrow> cstring" where
  "expired_confirmation e = ''<item '' @ q ''item_id'' (fst e) @ ''/>''"

lemma expired_items_read:
  assumes "list_all (\<lambda>e. plain_value (fst e) \<and> plain_value (snd e)) es" "CHR ''<'' \<notin> set w" "strstr r ''<expired_item'' = None"
  shows "expired_items (w @ concat (map (\<lambda>e. render_elem ''<expired_item'' (expired_attrs e)) es) @ r) query n
    = Some (query @ concat (map expired_confirmation es), n + of_nat (length es))"
  using assms(1,2)
proof (induction es arbitrary: w query n)
  case Nil
  have "strstr (w @ r) ''<expired_item'' = None"
    using strstr_skip_head [OF Nil(2), of r "''expired_item''"] assms(3) by simp
  then show ?case by (simp add: expired_items.simps)
next
  case (Cons e es)
  let ?R = "concat (map (\<lambda>e. render_elem ''<expired_item'' (expired_attrs e)) es) @ r"
  let ?c = "''expired_item'' @ render_attrs (expired_attrs e) @ ''/>''"
  have p: "plain_attrs (expired_attrs e)"
    using Cons.prems(1) by (simp add: expired_attrs_def name_ok_def plain_value_def)
  have c: "CHR ''<'' \<notin> set ?c" using plain_attrs_text [OF p] by simp
  have m: "w @ concat (map (\<lambda>e. render_elem ''<expired_item'' (expired_attrs e)) (e # es)) @ r = w @ CHR ''<'' # ?c @ ?R"
    by (simp add: render_elem_def)
  have s: "strstr (w @ CHR ''<'' # ?c @ ?R) ''<expired_item'' = Some (CHR ''<'' # ?c @ ?R)"
    using strstr_skip_head [OF Cons.prems(2), of "CHR ''<'' # ?c @ ?R" "''expired_item''"]
      strstr_here [of "''<expired_item''" "render_attrs (expired_attrs e) @ ''/>'' @ ?R"] by simp
  have "name_ok ''id''" by (simp add: name_ok_def)
  moreover have "lookup_attr ''id'' (expired_attrs e) = Some (fst e)" by (simp add: expired_attrs_def attr_hit_def)
  ultimately have "attr (render_attrs (expired_attrs e) @ ''/>'' @ ?R) ''id'' = Some (fst e)" by (rule attr_elem [OF p])
  moreover have "expired_attrs e \<noteq> []" "apos \<notin> set ''<expired_item''" "CHR '' '' \<notin> set ''id''"
    by (simp_all add: expired_attrs_def)
  ultimately have "attr (''<expired_item'' @ render_attrs (expired_attrs e) @ ''/>'' @ ?R) ''id'' = Some (fst e)"
    using tagged(1) by metis
  then have a: "attr (CHR ''<'' # ?c @ ?R) ''id'' = Some (fst e)" by simp
  have "expired_items (w @ CHR ''<'' # ?c @ ?R) query n = expired_items (?c @ ?R) (query @ expired_confirmation e) (n + 1)"
    by (subst expired_items.simps) (simp only: s a option.case list.sel expired_confirmation_def)
  also have "\<dots> = Some ((query @ expired_confirmation e) @ concat (map expired_confirmation es), (n + 1) + of_nat (length es))"
    using Cons.IH [OF _ c] Cons.prems(1) by (simp only: list.pred_inject append_assoc)
  finally show ?case unfolding m by (simp add: add.assoc)
qed

subsection \<open>Where requests go while the channel changes\<close>

text \<open>\<open>stays\<close>: the channel and the room of the session are the same, and whatever was sent to a master server was
  sent to that channel.\<close>

definition stays :: "'u session \<Rightarrow> 'u session \<Rightarrow> bool" where
  "stays s s' \<longleftrightarrow> ol_channel (online s') = ol_channel (online s) \<and> ol_channel_type (online s') = ol_channel_type (online s)
     \<and> groom s' = groom s \<and> cvar s' = cvar s \<and> ol_jid_host (online s') = ol_jid_host (online s)
     \<and> (\<exists>es. trace s' = trace s @ es \<and> list_all (sent_to (ol_channel (online s))) es)"

lemma stays_refl [simp]: "stays s s"
  by (simp add: stays_def)

lemma stays_trans: "stays s1 s2 \<Longrightarrow> stays s2 s3 \<Longrightarrow> stays s1 s3"
proof -
  assume a: "stays s1 s2" and b: "stays s2 s3"
  obtain es es' where "trace s2 = trace s1 @ es" "list_all (sent_to (ol_channel (online s1))) es"
    "trace s3 = trace s2 @ es'" "list_all (sent_to (ol_channel (online s2))) es'"
    using a b by (auto simp: stays_def)
  with a b show ?thesis unfolding stays_def by (intro conjI exI [of _ "es @ es'"]) auto
qed

lemma stays_trace: "list_all (sent_to (ol_channel (online s))) es \<Longrightarrow> stays s (add_trace es s)"
  by (simp add: stays_def)

lemma stays_profile [simp]: "stays s (s\<lparr>profile := p\<rparr>)" "stays s (upd_profile f s)"
  by (simp_all add: stays_def upd_profile_def)

lemma stays_request:
  assumes "send_iq_get t cb x s = Some s'" "jid_node t = Some ''masterserver'' \<Longrightarrow> jid_resource t = ol_channel (online s)"
  shows "stays s s'"
  using assms by (auto simp: send_iq_get_Some intro!: stays_trace)

lemma stays_cached: "stays s (xmpp_iq_shop_get_offers s)" "stays s (xmpp_iq_quickplay_maplist s)"
  "stays s (xmpp_iq_items s)" "stays s (xmpp_iq_get_configs s)"
  by (simp_all add: xmpp_iq_shop_get_offers_def xmpp_iq_quickplay_maplist_def xmpp_iq_items_def xmpp_iq_get_configs_def stays_trace)

lemma stays_class: "status_update_class c s = Some s' \<Longrightarrow> stays s s'"
  by (auto simp: status_update_class_def bind_eq_Some_conv Let_def)

lemma stays_unlocked: "update_unlocked data s = Some s' \<Longrightarrow> stays s s'"
  by (auto simp: update_unlocked_def bind_eq_Some_conv split: if_splits)

lemma stays_items: "fetch_items data s = Some s' \<Longrightarrow> stays s s'"
  by (auto simp: fetch_items_def bind_eq_Some_conv)

lemma stays_expired: "confirm_expired_items data s = Some s' \<Longrightarrow> stays s s'"
  by (auto simp: confirm_expired_items_def bind_eq_Some_conv split: if_splits intro: stays_request)

lemma stays_notifications:
  assumes "each_elem ''<notif'' notif_elem m s = Some s'"
  shows "stays s s'"
  using notifications_loop [OF assms] unfolding notifications_frame_def by (auto simp: stays_def)

lemma stays_channel_profile:
  assumes "channel_profile data s = Some s'"
  shows "stays s s'"
proof -
  let ?s1 = "upd_profile (update_character data) s"
  obtain s2 s3 s4 s5 s6 p where
    2: "(if strstr data ''<join_channel'' \<noteq> None then fetch_items data (upd_profile (update_money data) ?s1) else Some ?s1) = Some s2"
    and 3: "status_update_class (sync_uint data ''current_class'') s2 = Some s3" and 4: "update_unlocked data s3 = Some s4"
    and 5: "confirm_expired_items data s4 = Some s5" and 6: "each_elem ''<notif'' notif_elem data s5 = Some s6"
    and 7: "s' = upd_profile (\<lambda>_. p) s6"
    using assms unfolding channel_profile_def Let_def bind_eq_Some_conv by auto
  have 0: "stays s ?s1" by (rule stays_profile)
  have "stays ?s1 s2"
  proof (cases "strstr data ''<join_channel'' = None")
    case True
    with 2 show ?thesis by simp
  next
    case False
    with 2 have "fetch_items data (upd_profile (update_money data) ?s1) = Some s2" by simp
    from stays_trans [OF stays_profile(2) stays_items [OF this]] show ?thesis .
  qed
  from stays_trans [OF stays_trans [OF stays_trans [OF stays_trans [OF stays_trans [OF 0 this] stays_class [OF 3]]
        stays_unlocked [OF 4]] stays_expired [OF 5]] stays_notifications [OF 6]]
  have "stays s s6" .
  then show ?thesis unfolding 7 by (rule stays_trans) (rule stays_profile)
qed

lemma stays_requests:
  assumes "channel_requests s = Some s'"
  shows "stays s s'"
proof -
  obtain s1 s2 s3 s4 where
    1: "s1 = s \<or> s1 = xmpp_iq_quickplay_maplist s"
    and 2: "xmpp_iq_get_reward_multipliers None (xmpp_iq_shop_get_offers s1) = Some s2"
    and 3: "xmpp_iq_get_player_stats None s2 = Some s3" and 4: "xmpp_iq_get_achievements (pr_id (profile s3)) None s3 = Some s4"
    and 5: "mission_list_update None s4 = Some s'"
    using assms unfolding channel_requests_def Let_def bind_eq_Some_conv by (auto split: if_splits)
  have "stays s (xmpp_iq_shop_get_offers s1)" using 1 stays_cached stays_trans by blast
  moreover have "stays (xmpp_iq_shop_get_offers s1) s2"
    using 2 unfolding xmpp_iq_get_reward_multipliers_def by (rule stays_request) simp
  moreover have "stays s2 s3" using 3 unfolding xmpp_iq_get_player_stats_def by (rule stays_request) simp
  moreover have "stays s3 s4" using 4 unfolding xmpp_iq_get_achievements_def by (rule stays_request) simp
  moreover have "stays s4 s'" using 5 unfolding mission_list_update_def by (rule stays_request) simp
  ultimately show ?thesis by (meson stays_trans)
qed

lemma stays_status:
  assumes "status_set status s = Some s'"
  shows "stays s s'" "ol_status (online s') = status"
proof -
  define s1 where "s1 = (if ol_status (online s) XOR STATUS_AFK \<noteq> status XOR STATUS_AFK
      then s\<lparr>online := (online s)\<lparr>ol_last_status_change := now s\<rparr>\<rparr> else s)"
  obtain s2 s4 s5 fs cs where 2: "xmpp_iq_player_status status s1 = Some s2"
    and 4: "status_update_location (s2\<lparr>online := (online s2)\<lparr>ol_status := status, ol_last_status_update := now s2\<rparr>\<rparr>) = Some s4"
    and s': "s' = add_trace (map (clanmate_message s5) (filter (\<lambda>c. cm_jid c \<noteq> None) cs))
            (add_trace (map (friend_message s4) (filter (\<lambda>f. fr_jid f \<noteq> None) fs)) s4)"
    using assms by (auto simp: status_set_def Let_def bind_eq_Some_conv s1_def each_friend each_clanmate
        clanmate_message_def simp del: add_trace_simps(2))
  have "stays s1 s2" using 2 unfolding xmpp_iq_player_status_def by (rule stays_request) simp
  then have "stays s s2" by (simp add: s1_def stays_def split: if_splits)
  moreover obtain a b c d where t: "s4 = set_tokens a b c d (s2\<lparr>online := (online s2)\<lparr>ol_status := status, ol_last_status_update := now s2\<rparr>\<rparr>)"
    using location_frame [OF 4] by blast
  ultimately have "stays s s4" by (simp add: stays_def set_tokens_def)
  moreover have "list_all (sent_to x) (map (clanmate_message s5) l)" "list_all (sent_to x) (map (friend_message s4) l')" for x l l'
    by (simp_all add: list_all_iff clanmate_message_def friend_message_def)
  ultimately show "stays s s'" unfolding s' by (meson stays_trace stays_trans)
  show "ol_status (online s') = status" unfolding s' t by simp
qed

lemma stays_presence:
  assumes "xmpp_presence j t s = Some s'"
  shows "stays s s' \<and> ol_status (online s') = ol_status (online s)"
  using assms by (auto dest!: presence_Some simp: stays_trace)

lemma stays_chat:
  assumes "global_chat m s = Some s'"
  shows "stays s s' \<and> ol_status (online s') = ol_status (online s)"
  using assms
proof (induction m s rule: global_chat.induct)
  case (1 m s)
  show ?case
  proof (cases "strstr m ''<chat ''")
    case None
    with 1(2) show ?thesis by (simp add: global_chat.simps)
  next
    case (Some el)
    then obtain chat where chat: "get_info el ''<chat '' ''/>'' = Some chat"
      using 1(2) by (subst (asm) global_chat.simps) (auto simp: bind_eq_Some_conv)
    show ?thesis
    proof (cases "attr_int chat ''channel'' = 0")
      case False
      with Some chat 1(2) have "global_chat (tl el) s = Some s'" by (subst (asm) global_chat.simps) simp
      with 1(1) [OF Some _ False] chat show ?thesis by simp
    next
      case True
      let ?g = "show_ptr (attr chat ''channel_id'') @ ''@'' @ show_ptr (attr chat ''service_id'')"
      obtain s1 s2 where
        s1: "s1 = s \<or> xmpp_presence (ol_global_chat (online s)) XMPP_PRESENCE_LEAVE s = Some s1"
        and s2: "s2 = s1 \<or> xmpp_presence (Some ?g) XMPP_PRESENCE_JOIN s1 = Some s2"
        and s': "s' = s2\<lparr>online := (online s2)\<lparr>ol_global_chat := Some ?g\<rparr>\<rparr>"
        using 1(2) True Some chat
        by (subst (asm) global_chat.simps) (auto simp: bind_eq_Some_conv Let_def split: if_splits)
      have "stays s s1 \<and> ol_status (online s1) = ol_status (online s)" using s1 stays_presence by fastforce
      moreover have "stays s1 s2 \<and> ol_status (online s2) = ol_status (online s1)" using s2 stays_presence by fastforce
      moreover have "stays s2 s'" "ol_status (online s') = ol_status (online s2)" unfolding s' by (simp_all add: stays_def)
      ultimately show ?thesis by (metis stays_trans)
    qed
  qed
qed

lemma stays_quickplay: "xmpp_iq_gameroom_quickplay rt junk u mk ty gm cs tr cb s = Some s' \<Longrightarrow> stays s s' \<and> ol_status (online s') = ol_status (online s)"
  by (auto simp: xmpp_iq_gameroom_quickplay_def bind_eq_Some_conv Let_def send_iq_get_Some split: option.splits intro!: stays_trace)

lemma stays_open: "xmpp_iq_gameroom_open rt junk mk ty tr f s = Some s' \<Longrightarrow> stays s s' \<and> ol_status (online s') = ol_status (online s)"
  by (auto simp: xmpp_iq_gameroom_open_def bind_eq_Some_conv Let_def send_iq_get_Some intro!: stays_trace)

lemma stays_autorotate: "autorotate_update_list s = Some s' \<Longrightarrow> stays s s' \<and> ol_status (online s') = ol_status (online s)"
  by (auto simp: autorotate_update_list_def xmpp_iq_get_master_server_def Let_def send_iq_get_Some xmpp_iq_items_def xmpp_iq_get_configs_def
      intro!: stays_trace)

lemma stays_continuation:
  assumes "run_continuation rt junk c s = Some s'"
  shows "stays s s' \<and> ol_status (online s') = ol_status (online s)"
proof (cases c)
  case (Cont_user u)
  with assms show ?thesis by (auto simp: run_continuation_def intro: stays_trace)
next
  case (Cont_gameroom_join r g n)
  with assms show ?thesis by (auto simp: run_continuation_def gameroom_join_request_def send_iq_get_Some intro!: stays_trace)
next
  case (Cont_gameroom_open a)
  with assms show ?thesis
    by (auto simp: run_continuation_def open_updated_list_def bind_eq_Some_conv dest: stays_open split: option.splits)
next
  case (Cont_quickplay a)
  with assms show ?thesis
    by (auto simp: run_continuation_def quickplay_updated_list_def bind_eq_Some_conv dest: stays_quickplay split: option.splits)
next
  case Cont_autorotate
  with assms show ?thesis by (auto simp: run_continuation_def dest: stays_autorotate)
qed

lemma channel_joined_stays:
  assumes "channel_joined channel data s = Some s'"
  shows "\<exists>t. stays (set_channel channel (Some t) s) s' \<and> ol_status (online s') = STATUS_ONLINE OR STATUS_LOBBY
     \<and> (\<exists>ms. masterserver_list_get s (Some channel) = Some ms \<and> Some t = (case ms of None \<Rightarrow> Some ''pve'' | Some m \<Rightarrow> sv_channel m))"
proof -
  obtain s1 s2 s3 s4 where 1: "enter_channel channel s = Some s1" and 2: "channel_profile data s1 = Some s2"
    and 3: "channel_requests s2 = Some s3" and 4: "status_set (STATUS_ONLINE OR STATUS_LOBBY) s3 = Some s4"
    and 5: "(if wb_join_global_rooms (cvar s4) then global_chat data s4 else Some s4) = Some s'"
    using assms by (auto simp: channel_joined_def bind_eq_Some_conv)
  obtain ms where ms: "masterserver_list_get s (Some channel) = Some ms" using 1 by (auto simp: enter_channel_def bind_eq_Some_conv)
  obtain t where t: "s1 = set_channel channel (Some t) s" "Some t = (case ms of None \<Rightarrow> Some ''pve'' | Some m \<Rightarrow> sv_channel m)"
    using 1 ms by (cases ms) (auto simp: enter_channel_def bind_eq_Some_conv)
  have 6: "stays s4 s' \<and> ol_status (online s') = ol_status (online s4)" using 5 by (auto split: if_splits dest: stays_chat)
  then have "stays s4 s'" by (rule conjunct1)
  from stays_trans [OF stays_trans [OF stays_trans [OF stays_channel_profile [OF 2] stays_requests [OF 3]] stays_status(1) [OF 4]] this]
  have "stays (set_channel channel (Some t) s) s'" unfolding t(1) .
  moreover have "ol_status (online s') = STATUS_ONLINE OR STATUS_LOBBY" using 6 stays_status(2) [OF 4] by simp
  ultimately show ?thesis using ms t(2) by (intro exI [of _ t] exI [of _ ms] conjI)
qed

definition leave_effects :: "'u session \<Rightarrow> 'u effect list" where
  "leave_effects s =
     (if gi_leaving (groom s) \<or> gi_jid (groom s) = None then []
      else [Send_iq (JID_MS (ol_channel (online s)) s) XMPP_TYPE_GET (Some CB_gameroom_leave) None (k01_query '' <gameroom_leave/>'')])"

definition logout_effects :: "cptr \<Rightarrow> 'u session \<Rightarrow> 'u effect list" where
  "logout_effects c s =
     (if c \<noteq> None \<and> ol_channel (online s) \<noteq> None \<and> ol_channel (online s) \<noteq> c
      then [Send_iq (JID_MS c s) XMPP_TYPE_GET None None (k01_query ''<channel_logout/>'')] else [])"

lemma leave_adds:
  assumes "xmpp_iq_gameroom_leave s = Some s'"
  shows "trace s' = trace s @ leave_effects s \<and> online s' = online s"
  using assms by (auto simp: xmpp_iq_gameroom_leave_def leave_effects_def Let_def send_iq_get_Some JID_MS_def)

lemma logout_adds: "channel_logout c s = Some s' \<Longrightarrow> s' = add_trace (logout_effects c s) s"
  by (auto simp: channel_logout_def logout_effects_def send_iq_get_Some split: if_splits)

text \<open>C20: joining a channel is complete and in order: the room is left first, in the old channel; then the session is in
  the new channel, of the type that the list of master servers gives for it, and online in its lobby; every request
  to a master server after that, those of the waiting operation included, goes to the new channel; the last
  message, if the channel changed, logs out of the old one.\<close>

theorem channel_switched:
  assumes "xmpp_iq_join_channel_cb (run_continuation rt junk) channel cont (Some m) (Some data) type s = Some s'"
    and "type \<noteq> XMPP_TYPE_ERROR"
  shows "\<exists>mid. trace s' = trace s @ leave_effects s @ mid
            @ (if ol_channel (online s) \<noteq> None \<and> ol_channel (online s) \<noteq> Some channel
               then [Send_iq (JID_MS (ol_channel (online s)) s') XMPP_TYPE_GET None None (k01_query ''<channel_logout/>'')] else [])
        \<and> list_all (sent_to (Some channel)) mid
     \<and> ol_channel (online s') = Some channel \<and> ol_status (online s') = STATUS_ONLINE OR STATUS_LOBBY
     \<and> (\<exists>ms. masterserver_list_get s (Some channel) = Some ms
           \<and> ol_channel_type (online s') = (case ms of None \<Rightarrow> Some ''pve'' | Some m \<Rightarrow> sv_channel m))"
proof -
  obtain s1 s2 s3 where 1: "xmpp_iq_gameroom_leave s = Some s1" and 2: "channel_joined channel data s1 = Some s2"
    and 3: "(case cont of None \<Rightarrow> Some s2 | Some c \<Rightarrow> run_continuation rt junk c s2) = Some s3"
    and 4: "channel_logout (ol_channel (online s)) s3 = Some s'"
    using assms by (auto simp: xmpp_iq_join_channel_cb_def bind_eq_Some_conv Let_def)
  obtain t ms where t: "stays (set_channel channel (Some t) s1) s2" "ol_status (online s2) = STATUS_ONLINE OR STATUS_LOBBY"
    "masterserver_list_get s1 (Some channel) = Some ms" "Some t = (case ms of None \<Rightarrow> Some ''pve'' | Some m \<Rightarrow> sv_channel m)"
    using channel_joined_stays [OF 2] by blast
  have "stays s2 s3 \<and> ol_status (online s3) = ol_status (online s2)"
    using 3 by (auto split: option.splits dest: stays_continuation)
  then have s3: "stays (set_channel channel (Some t) s1) s3" "ol_status (online s3) = STATUS_ONLINE OR STATUS_LOBBY"
    using stays_trans t(1,2) by auto
  from s3(1) obtain mid where mid: "trace s3 = trace s1 @ mid" "list_all (sent_to (Some channel)) mid"
    and c: "ol_channel (online s3) = Some channel" "ol_channel_type (online s3) = Some t"
    unfolding stays_def by (auto simp: set_channel_def)
  have s': "s' = add_trace (logout_effects (ol_channel (online s)) s3) s3" using logout_adds [OF 4] .
  have o: "online s' = online s3" "trace s' = trace s3 @ logout_effects (ol_channel (online s)) s3" unfolding s' by simp_all
  have l: "masterserver_list_get s (Some channel) = Some ms"
    using t(3) leave_adds [OF 1] by (simp add: masterserver_list_get_def)
  have out: "logout_effects (ol_channel (online s)) s3 = (if ol_channel (online s) \<noteq> None \<and> ol_channel (online s) \<noteq> Some channel
     then [Send_iq (JID_MS (ol_channel (online s)) s') XMPP_TYPE_GET None None (k01_query ''<channel_logout/>'')] else [])"
    using c(1) o(1) by (auto simp: logout_effects_def JID_MS_def)
  have "trace s' = trace s @ leave_effects s @ mid @ logout_effects (ol_channel (online s)) s3"
    using o(2) mid(1) leave_adds [OF 1] by simp
  with out mid(2) c o(1) s3(2) t(4) l show ?thesis by (intro exI [of _ mid] conjI exI [of _ ms]) simp_all
qed

text \<open>a refused or unanswered change of channel leaves the session as it is, whatever was to be done in the new
  channel; only an error logs out of the refused channel, if it is not the own one.\<close>

theorem refused_channel_harmless:
  assumes "xmpp_iq_join_channel_cb run channel cont msg content type s = Some s'" "msg = None \<or> type = XMPP_TYPE_ERROR"
  shows "s' = s \<or> (msg \<noteq> None \<and> ol_channel (online s) \<noteq> Some channel
     \<and> s' = add_trace [Send_iq (JID_MS (Some channel) s) XMPP_TYPE_GET None None (k01_query ''<channel_logout/>'')] s)"
proof (cases "msg = None")
  case True
  then have "xmpp_iq_join_channel_cb run channel cont msg content type s = Some s"
    by (simp only: xmpp_iq_join_channel_cb_def simp_thms if_True)
  with assms(1) show ?thesis by simp
next
  case False
  with assms(2) have "xmpp_iq_join_channel_cb run channel cont msg content type s = channel_logout (Some channel) s"
    by (simp only: xmpp_iq_join_channel_cb_def simp_thms if_True if_False)
  with assms(1) have "channel_logout (Some channel) s = Some s'" by simp
  then have "s' = add_trace (logout_effects (Some channel) s) s" by (rule logout_adds)
  with False show ?thesis by (simp add: logout_effects_def split: if_splits)
qed

theorem refused_channel_harmless_witness:
  "xmpp_iq_join_channel_cb (\<lambda>c s. Some s) ''pve_1'' None (Some ''code='') None XMPP_TYPE_ERROR (demo_session :: nat session)
     = Some (add_trace [Send_iq (JID_MS (Some ''pve_1'') demo_session) XMPP_TYPE_GET None None (k01_query ''<channel_logout/>'')] demo_session)"
proof -
  let ?f = "xmpp_iq_join_channel_cb (\<lambda>c s. Some s) ''pve_1'' None (Some ''code='') None XMPP_TYPE_ERROR (demo_session :: nat session)"
  have t: "map_option (length \<circ> trace) ?f = Some 1"
    by (simp add: xmpp_iq_join_channel_cb_def channel_logout_def send_iq_get_def jid_to_str_def demo_session_simps Let_def)
  then have "?f \<noteq> Some demo_session" "?f \<noteq> None" by (auto simp: demo_session_simps)
  then obtain s' where s': "?f = Some s'" by blast
  with refused_channel_harmless [OF s'] \<open>?f \<noteq> Some demo_session\<close> show ?thesis by auto
qed

definition switch_answer :: cstring where
  "switch_answer = ''<switch_channel/>''"

lemma switch_answer_texts:
  "strstr switch_answer ''<join_channel'' = None" "strstr switch_answer ''<unlocked_item'' = None"
  "strstr switch_answer ''<expired_item'' = None" "strstr switch_answer ''<notif'' = None"
  "sync_uint switch_answer ''current_class'' = 0" "get_info switch_answer ''<profile_progression_state'' ''/>'' = None"
  by code_simp+

definition switched_demo :: "nat session" where
  "switched_demo =
     (let s = upd_profile (update_character switch_answer) (set_channel ''pve_1'' (Some ''pve'') demo_session)
      in upd_profile (\<lambda>p. p\<lparr>pr_curr_class := 0\<rparr>) s)"

lemma demo_profile_switched:
  "channel_profile switch_answer (set_channel ''pve_1'' (Some ''pve'') demo_session) = Some switched_demo"
  by (simp add: channel_profile_def switch_answer_texts status_update_class_def update_character_def upd_stats_def set_channel_def
      demo_session_simps update_unlocked_def each_elem_stop confirm_expired_items_def expired_items.simps Let_def switched_demo_def
      update_progression_def upd_profile_def)

lemma demo_cvars: "wb_join_global_rooms (cvar demo_session) = False" "query_disable_shop_get_offers (cvar demo_session) = False"
  by (simp_all add: demo_session_def session_init_def zero_session_def Let_def)

lemma switched_demo_simps:
  "ol_jid_host (online switched_demo) = Some ''eu.warface''" "ol_jid_k01 (online switched_demo) = Some ''k01.eu.warface''"
  "gi_jid (groom switched_demo) = None" "pr_friends (profile switched_demo) = pr_friends (profile demo_session)"
  "cl_mates (profile switched_demo) = Some []" "ol_channel_type (online switched_demo) = Some ''pve''"
  "ol_status (online switched_demo) = 9" "ol_channel (online switched_demo) = Some ''pve_1''"
  "cvar switched_demo = cvar demo_session"
  by (simp_all add: switched_demo_def set_channel_def demo_session_simps update_character_def upd_stats_def Let_def)

lemma request_sent:
  "jid_domain t \<noteq> None \<Longrightarrow> send_iq_get t cb x s = Some (add_trace [Send_iq t XMPP_TYPE_GET cb None x] s)"
  by (simp add: send_iq_get_Some)

lemma channel_requests_sent:
  assumes "ol_jid_host (online s) \<noteq> None"
  shows "\<exists>es. channel_requests s = Some (add_trace es s)"
proof -
  have cached: "\<exists>es. xmpp_iq_shop_get_offers t = add_trace es t" "\<exists>es. xmpp_iq_quickplay_maplist t = add_trace es t" for t :: "'a session"
    by (simp_all add: xmpp_iq_shop_get_offers_def xmpp_iq_quickplay_maplist_def) (metis add_trace_simps(1))+
  define s0 where "s0 = (if case ol_channel_type (online s) of None \<Rightarrow> False | Some t \<Rightarrow> strstr t ''pvp'' \<noteq> None
    then xmpp_iq_quickplay_maplist s else s)"
  obtain e1 where "s0 = add_trace e1 s" using cached(2) [of s] unfolding s0_def by (metis add_trace_simps(1))
  then obtain e2 where e2: "xmpp_iq_shop_get_offers s0 = add_trace e2 s" using cached(1) [of s0] by (metis add_trace_simps(2))
  have step: "\<exists>e'. send_iq_get (JID_MS c (add_trace e s)) cb x (add_trace e s) = Some (add_trace e' s)" for c cb x e
    using request_sent [of "JID_MS c (add_trace e s)" cb x "add_trace e s"] assms by (intro exI) simp
  obtain e3 where e3: "xmpp_iq_get_reward_multipliers None (add_trace e2 s) = Some (add_trace e3 s)"
    using step unfolding xmpp_iq_get_reward_multipliers_def by blast
  obtain e4 where e4: "xmpp_iq_get_player_stats None (add_trace e3 s) = Some (add_trace e4 s)"
    using step unfolding xmpp_iq_get_player_stats_def by blast
  obtain e5 where e5: "xmpp_iq_get_achievements (pr_id (profile (add_trace e4 s))) None (add_trace e4 s) = Some (add_trace e5 s)"
    using step unfolding xmpp_iq_get_achievements_def by blast
  obtain e6 where e6: "mission_list_update None (add_trace e5 s) = Some (add_trace e6 s)"
    using step unfolding mission_list_update_def by blast
  have "channel_requests s = Some (add_trace e6 s)"
    unfolding channel_requests_def Let_def s0_def [symmetric] e2 by (simp only: e3 e4 e5 e6 Option.bind.simps)
  then show ?thesis by blast
qed

lemma demo_switch:
  "\<exists>s'. xmpp_iq_join_channel_cb (run_continuation rt junk) ''pve_1'' None (Some m) (Some switch_answer) XMPP_TYPE_RESULT demo_session = Some s'"
proof -
  have e: "enter_channel ''pve_1'' demo_session = Some (set_channel ''pve_1'' (Some ''pve'') demo_session)"
    by (simp add: enter_channel_def masterserver_list_get_def demo_session_def session_init_def zero_session_def Let_def)
  obtain es where r: "channel_requests switched_demo = Some (add_trace es switched_demo)"
    using channel_requests_sent [of switched_demo] by (auto simp: switched_demo_simps)
  have "\<exists>s'. status_set (STATUS_ONLINE OR STATUS_LOBBY) (add_trace es switched_demo) = Some s'"
    by (simp add: status_set_def xmpp_iq_player_status_def send_iq_get_def jid_to_str_def JID_K01_def JID_def switched_demo_simps
      demo_session_simps status_update_location_def Let_def each_friend each_clanmate status_flags del: add_trace_simps(3))
  then obtain s4 where s4: "status_set (STATUS_ONLINE OR STATUS_LOBBY) (add_trace es switched_demo) = Some s4" by blast
  have c: "\<not> wb_join_global_rooms (cvar s4)" "ol_jid_host (online s4) \<noteq> None"
    using stays_status(1) [OF s4] by (simp_all add: stays_def switched_demo_simps demo_cvars)
  have j: "channel_joined ''pve_1'' switch_answer demo_session = Some s4"
    using c by (simp add: channel_joined_def e demo_profile_switched r s4)
  have "\<exists>s'. channel_logout (ol_channel (online demo_session)) s4 = Some s'"
    using c request_sent [of "JID_MS (ol_channel (online demo_session)) s4" None "k01_query ''<channel_logout/>''" s4]
    by (simp add: channel_logout_def)
  moreover have "xmpp_iq_gameroom_leave demo_session = Some demo_session"
    by (simp add: xmpp_iq_gameroom_leave_def demo_session_simps)
  ultimately show ?thesis by (simp add: xmpp_iq_join_channel_cb_def j Let_def)
qed

theorem channel_switched_witness:
  "\<exists>s' mid. xmpp_iq_join_channel_cb (run_continuation (\<lambda>_. []) (\<lambda>_. NUL)) ''pve_1'' None (Some []) (Some switch_answer) XMPP_TYPE_RESULT
       demo_session = Some s' \<and> ol_channel (online s') = Some ''pve_1'' \<and> list_all (sent_to (Some ''pve_1'')) mid
     \<and> trace s' = mid @ [Send_iq (JID_MS (Some ''pvp_pro_1'') s') XMPP_TYPE_GET None None (k01_query ''<channel_logout/>'')]"
proof -
  obtain s' where s': "xmpp_iq_join_channel_cb (run_continuation (\<lambda>_. []) (\<lambda>_. NUL)) ''pve_1'' None (Some []) (Some switch_answer) XMPP_TYPE_RESULT
       demo_session = Some s'" using demo_switch by blast
  have l: "leave_effects demo_session = []" by (simp add: leave_effects_def demo_session_simps)
  obtain mid where "trace s' = trace demo_session @ leave_effects demo_session @ mid
            @ (if ol_channel (online demo_session) \<noteq> None \<and> ol_channel (online demo_session) \<noteq> Some ''pve_1''
               then [Send_iq (JID_MS (ol_channel (online demo_session)) s') XMPP_TYPE_GET None None (k01_query ''<channel_logout/>'')] else [])"
    "list_all (sent_to (Some ''pve_1'')) mid" "ol_channel (online s') = Some ''pve_1''"
    using channel_switched [OF s'] by auto
  then have "trace s' = mid @ [Send_iq (JID_MS (Some ''pvp_pro_1'') s') XMPP_TYPE_GET None None (k01_query ''<channel_logout/>'')]"
    by (simp add: l demo_session_simps)
  with s' \<open>ol_channel (online s') = _\<close> \<open>list_all _ mid\<close> show ?thesis by blast
qed

subsection \<open>Logging in\<close>

definition login_answer ::
  "(cstring \<Rightarrow> u32) \<Rightarrow> (nat \<Rightarrow> char) \<Rightarrow> 'u id_callback \<Rightarrow> cptr \<Rightarrow> xmpp_msg_type \<Rightarrow> 'u session \<Rightarrow> 'u session crash" where
  "login_answer strtof junk cb msg type s =
     (case cb of
        CB_account \<Rightarrow> xmpp_iq_account_cb strtof msg type s
      | CB_get_master_server use \<Rightarrow> xmpp_iq_get_master_server_cb use msg type s
      | CB_account_profiles \<Rightarrow> xmpp_iq_get_account_profiles_cb junk msg type s
      | CB_create_profile \<Rightarrow> xmpp_iq_create_profile_cb msg type s
      | _ \<Rightarrow> None)"

text \<open>One request of the login is answered, in any way, and another one is sent in reply.\<close>

inductive login_step ::
  "(cstring \<Rightarrow> u32) \<Rightarrow> (nat \<Rightarrow> char) \<Rightarrow> 'u session \<times> 'u id_callback \<Rightarrow> 'u session \<times> 'u id_callback \<Rightarrow> bool"
  for strtof junk where
  login_step: "login_answer strtof junk cb msg type s = Some s' \<Longrightarrow> trace s' = trace s @ es \<Longrightarrow>
     Send_iq t ty (Some cb') i x \<in> set es \<Longrightarrow> login_step strtof junk (s, cb) (s', cb')"

inductive_cases login_stepE: "login_step strtof junk (s, cb) p"

definition login_rank :: "'u session \<times> 'u id_callback \<Rightarrow> nat" where
  "login_rank p =
     (let again = (if created_profile (fst p) then 0 else 2) in
      case snd p of
        CB_account \<Rightarrow> 3 + again
      | CB_get_master_server For_login \<Rightarrow> 2 + again
      | CB_get_master_server _ \<Rightarrow> 1
      | CB_account_profiles \<Rightarrow> 1 + again
      | CB_create_profile \<Rightarrow> again
      | _ \<Rightarrow> 0)"

lemma cached_adds:
  "xmpp_iq_get_configs (xmpp_iq_items s) = add_trace ((if query_disable_items (cvar s) then [] else [Refresh_cache ''items''])
     @ (if query_disable_get_configs (cvar s) then [] else [Refresh_cache ''get_configs''])) s"
  by (simp add: xmpp_iq_get_configs_def xmpp_iq_items_def)

definition logged_in :: "masterserver list \<Rightarrow> cstring \<Rightarrow> 'u session \<Rightarrow> 'u session" where
  "logged_in l m s = set_masterservers l
     (s\<lparr>online := (online s)\<lparr>ol_status := STATUS_ONLINE, ol_active_token := attr m ''active_token'', ol_id := attr m ''user''\<rparr>\<rparr>)"

lemma logged_in_simps [simp]:
  "created_profile (logged_in l m s) = created_profile s" "trace (logged_in l m s) = trace s" "cvar (logged_in l m s) = cvar s"
  "profile (logged_in l m s) = profile s"
  by (simp_all add: logged_in_def set_masterservers_def)

text \<open>The texts of the requests of a login, from the settings and from what the server answered.\<close>

definition server_request :: "cvars \<Rightarrow> cstring" where
  "server_request v =
     k01_query (''<get_master_server '' @ q ''rank'' (fmt_u (c_uint (online_pvp_rank v))) @ '' '' @ q ''channel'' (NULL_CHECK (online_channel_type v)) @ ''/>'')"

definition profiles_text :: "cvars \<Rightarrow> cptr \<Rightarrow> cptr \<Rightarrow> cstring" where
  "profiles_text v user token =
     k01_query ('' <get_account_profiles '' @ q ''version'' (show_ptr (game_version v)) @ ''   '' @ q ''user_id'' (show_ptr user)
       @ '' '' @ q ''token'' (show_ptr token) @ ''/>'')"

definition join_text :: "cvars \<Rightarrow> cptr \<Rightarrow> cptr \<Rightarrow> cptr \<Rightarrow> cstring \<Rightarrow> cstring" where
  "join_text v user token pid channel =
     k01_query (''<join_channel '' @ q ''version'' (show_ptr (game_version v)) @ '' '' @ q ''token'' (show_ptr token)
       @ '' '' @ q ''region_id'' (show_ptr (online_region_id v)) @ '' '' @ q ''profile_id'' (show_ptr pid)
       @ '' '' @ q ''user_id'' (show_ptr user) @ '' '' @ q ''resource'' channel @ '' '' @ q ''build_type'' ''--release''
       @ '' '' @ q ''hw_id'' (int_dec (game_hwid v)) @ concat (map (\<lambda>n. '' '' @ q n ''0'')
           [''os_ver'', ''os_64'', ''cpu_vendor'', ''cpu_family'', ''cpu_model'', ''cpu_stepping'', ''cpu_speed'', ''cpu_num_cores'',
            ''gpu_vendor_id'', ''gpu_device_id'', ''physical_memory'']) @ ''/>'')"

lemma account_result:
  assumes "xmpp_iq_account_cb strtof (Some m) type s = Some s'" "type \<noteq> XMPP_TYPE_ERROR"
  shows "\<exists>l es. s' = add_trace (es @ [Send_iq (JID_K01 s) XMPP_TYPE_GET (Some (CB_get_master_server For_login)) None (server_request (cvar s))]) (logged_in l m s)
     \<and> list_all (\<lambda>e. \<exists>n. e = Refresh_cache n) es \<and> read_servers strtof m = Some l"
proof -
  from assms obtain l where m: "read_servers strtof m = Some l"
    and s: "xmpp_iq_get_master_server (c_uint (online_pvp_rank (cvar s))) (online_channel_type (cvar s)) For_login
      (xmpp_iq_get_configs (xmpp_iq_items (logged_in l m s))) = Some s'"
    by (auto simp: xmpp_iq_account_cb_def bind_eq_Some_conv Let_def logged_in_def [symmetric] cached_adds)
  obtain es where es: "xmpp_iq_get_configs (xmpp_iq_items (logged_in l m s)) = add_trace es (logged_in l m s)"
    "list_all (\<lambda>e. \<exists>n. e = Refresh_cache n) es" by (rule that [OF cached_adds]) simp
  have k: "JID_K01 (add_trace es (logged_in l m s)) = JID_K01 s"
    by (simp add: JID_K01_def logged_in_def set_masterservers_def)
  from s have "s' = add_trace [Send_iq (JID_K01 s) XMPP_TYPE_GET (Some (CB_get_master_server For_login)) None (server_request (cvar s))]
      (add_trace es (logged_in l m s))"
    unfolding xmpp_iq_get_master_server_def es(1) send_iq_get_Some emit_simps add_trace_simps(3) k server_request_def by blast
  then have "s' = add_trace (es @ [Send_iq (JID_K01 s) XMPP_TYPE_GET (Some (CB_get_master_server For_login)) None (server_request (cvar s))]) (logged_in l m s)"
    by simp
  with m es(2) show ?thesis by blast
qed

lemma account_answered:
  assumes "xmpp_iq_account_cb strtof msg type s = Some s'"
  shows "s' = s \<or> (\<exists>m l es t x. msg = Some m \<and> s' = add_trace (es @ [Send_iq t XMPP_TYPE_GET (Some (CB_get_master_server For_login)) None x])
      (logged_in l m s) \<and> list_all (\<lambda>e. \<exists>n. e = Refresh_cache n) es \<and> read_servers strtof m = Some l)"
proof (cases "type = XMPP_TYPE_ERROR")
  case True
  with assms show ?thesis by (simp add: xmpp_iq_account_cb_def)
next
  case False
  with assms obtain m where "msg = Some m" by (auto simp: xmpp_iq_account_cb_def bind_eq_Some_conv)
  with account_result [of strtof m type s s'] assms False show ?thesis by blast
qed

lemma profiles_request:
  assumes "xmpp_iq_get_account_profiles s = Some s'"
  shows "s' = add_trace [Send_iq (JID_MS (ol_channel (online s)) s) XMPP_TYPE_GET (Some CB_account_profiles) None
      (profiles_text (cvar s) (ol_id (online s)) (ol_active_token (online s)))] s"
  using assms by (auto simp: xmpp_iq_get_account_profiles_def send_iq_get_Some profiles_text_def)

lemma create_request:
  assumes "xmpp_iq_create_profile junk n s = Some s'"
  shows "s' = s \<or> (\<exists>t x. s' = add_trace [Send_iq t XMPP_TYPE_GET (Some CB_create_profile) None x] s)"
  using assms by (auto simp: xmpp_iq_create_profile_def send_iq_get_Some bind_eq_Some_conv split: if_splits)

lemma profiles_answered:
  assumes "xmpp_iq_get_account_profiles_cb junk msg type s = Some s'"
  shows "s' = s \<or> (\<exists>f. s' = upd_profile f s \<or> xmpp_iq_create_profile junk None (upd_profile f s) = Some s'
     \<or> xmpp_iq_join_channel (ol_channel (online s)) None (upd_profile f s) = Some s')"
proof (cases "type = XMPP_TYPE_ERROR")
  case True
  with assms show ?thesis by (simp add: xmpp_iq_get_account_profiles_cb_def)
next
  case False
  with assms obtain m where m: "msg = Some m" by (auto simp: xmpp_iq_get_account_profiles_cb_def bind_eq_Some_conv)
  let ?f = "\<lambda>p :: profile_info. p\<lparr>pr_id := attr m ''profile id'', pr_nickname := attr m ''nickname''\<rparr>"
  have "s' = upd_profile ?f s \<or> xmpp_iq_create_profile junk None (upd_profile ?f s) = Some s'
     \<or> xmpp_iq_join_channel (ol_channel (online s)) None (upd_profile ?f s) = Some s'"
    using assms False m by (simp add: xmpp_iq_get_account_profiles_cb_def Let_def split: if_splits)
  then show ?thesis by (rule disjI2 [OF exI [of _ ?f]])
qed

text \<open>The request that an answer triggers.\<close>

definition sends_one :: "'u session \<Rightarrow> 'u session \<Rightarrow> 'u id_callback \<Rightarrow> bool" where
  "sends_one s s' c \<longleftrightarrow> (\<exists>cs t ty i x. trace s' = trace s @ cs @ [Send_iq t ty (Some c) i x] \<and> list_all (\<lambda>e. \<exists>n. e = Refresh_cache n) cs)"

lemma sends_oneI: "s' = add_trace [Send_iq t ty (Some c) i x] u \<Longrightarrow> trace u = trace s \<Longrightarrow> sends_one s s' c"
  unfolding sends_one_def by (intro exI [of _ "[]"]) simp

lemma sends_one_callback:
  assumes "sends_one s s' c" "trace s' = trace s @ es" "Send_iq t ty (Some c') i x \<in> set es"
  shows "c' = c"
  using assms by (auto simp: sends_one_def list_all_iff)

lemma login_answered:
  assumes "login_answer strtof junk cb msg type s = Some s'" "trace s' \<noteq> trace s" "\<And>u. cb \<noteq> CB_get_master_server (For_user u)"
  shows "\<exists>c. sends_one s s' c \<and> login_rank (s', c) < login_rank (s, cb)"
proof (cases cb)
  case CB_account
  with assms(1,2) obtain m l cs t0 x0 where
    s': "s' = add_trace (cs @ [Send_iq t0 XMPP_TYPE_GET (Some (CB_get_master_server For_login)) None x0]) (logged_in l m s)"
    "list_all (\<lambda>e. \<exists>n. e = Refresh_cache n) cs"
    using account_answered [of strtof msg type s s'] by (auto simp: login_answer_def)
  then have "sends_one s s' (CB_get_master_server For_login)" unfolding sends_one_def by (intro exI conjI) simp_all
  moreover have "created_profile s' = created_profile s" unfolding s' by simp
  ultimately show ?thesis using CB_account by (intro exI conjI) (assumption, simp add: login_rank_def)
next
  case (CB_get_master_server use)
  have "use_resource use r s \<noteq> Some s' \<Longrightarrow> False" if "\<And>r. use_resource use r s \<noteq> Some s'" for r
    using assms(1,2) that
    by (auto simp: login_answer_def CB_get_master_server xmpp_iq_get_master_server_cb_def split: option.splits if_splits)
  then obtain r where r: "use_resource use r s = Some s'" by blast
  show ?thesis
  proof (cases use)
    case For_login
    with r obtain c0 where "xmpp_iq_get_account_profiles (set_channel r c0 s) = Some s'"
      by (auto simp: use_resource_def login_channel_def bind_eq_Some_conv)
    from profiles_request [OF this] have "sends_one s s' CB_account_profiles \<and> created_profile s' = created_profile s"
      by (auto simp: set_channel_def simp del: add_trace_updates intro!: sends_oneI)
    then show ?thesis by (intro exI [of _ CB_account_profiles]) (simp add: CB_get_master_server For_login login_rank_def)
  next
    case For_autorotate
    with r have "xmpp_iq_join_channel (Some r) None s = Some s'" by (simp add: use_resource_def)
    from join_channel_Some [OF this] have "\<exists>ch. sends_one s s' (CB_join_channel ch None)" using assms(2) by (auto simp del: add_trace_updates intro!: sends_oneI)
    then show ?thesis by (auto simp: CB_get_master_server For_autorotate login_rank_def)
  next
    case (For_user u)
    with assms(3) CB_get_master_server show ?thesis by blast
  qed
next
  case CB_account_profiles
  then have "xmpp_iq_get_account_profiles_cb junk msg type s = Some s'" using assms(1) by (simp add: login_answer_def)
  with assms(2) obtain f where f: "xmpp_iq_create_profile junk None (upd_profile f s) = Some s'
     \<or> xmpp_iq_join_channel (ol_channel (online s)) None (upd_profile f s) = Some s'"
    using profiles_answered by fastforce
  then show ?thesis
  proof
    assume "xmpp_iq_create_profile junk None (upd_profile f s) = Some s'"
    from create_request [OF this] assms(2) have "sends_one s s' CB_create_profile \<and> created_profile s' = created_profile s"
      by (auto simp del: add_trace_updates intro!: sends_oneI)
    then show ?thesis by (intro exI [of _ CB_create_profile]) (simp add: CB_account_profiles login_rank_def)
  next
    assume "xmpp_iq_join_channel (ol_channel (online s)) None (upd_profile f s) = Some s'"
    from join_channel_Some [OF this] assms(2) have "\<exists>ch. sends_one s s' (CB_join_channel ch None)" by (auto simp del: add_trace_updates intro!: sends_oneI)
    then show ?thesis by (auto simp: CB_account_profiles login_rank_def)
  qed
next
  case CB_create_profile
  with assms(1,2) have c: "\<not> created_profile s" "xmpp_iq_get_account_profiles (s\<lparr>created_profile := True\<rparr>) = Some s'"
    by (auto simp: login_answer_def xmpp_iq_create_profile_cb_def split: if_splits)
  from profiles_request [OF c(2)] have "sends_one s s' CB_account_profiles \<and> created_profile s'" by (auto simp del: add_trace_updates intro!: sends_oneI)
  then show ?thesis using c(1) by (intro exI [of _ CB_account_profiles]) (simp add: CB_create_profile login_rank_def)
qed (use assms(1) in \<open>simp_all add: login_answer_def\<close>)

lemma login_decreases:
  assumes "login_step strtof junk p p'"
  shows "login_rank p' < login_rank p"
  using assms
proof cases
  case (login_step cb msg type s s' es t ty cb' i x)
  have user: "cb \<noteq> CB_get_master_server (For_user u)" for u
    using login_step(3-5) by (auto simp: login_answer_def xmpp_iq_get_master_server_cb_def use_resource_def split: option.splits if_splits)
  have "trace s' \<noteq> trace s" using login_step(4,5) by auto
  from login_answered [OF login_step(3) this user] obtain c where "sends_one s s' c" "login_rank (s', c) < login_rank (s, cb)" by blast
  with sends_one_callback [OF _ login_step(4,5)] login_step(1,2) show ?thesis by blast
qed

lemma login_rank_steps:
  assumes "(login_step strtof junk ^^ n) p p'"
  shows "n + login_rank p' \<le> login_rank p"
  using assms
proof (induction n arbitrary: p')
  case 0
  then show ?case by simp
next
  case (Suc n)
  then obtain p1 where "(login_step strtof junk ^^ n) p p1" "login_step strtof junk p1 p'" by auto
  with Suc.IH login_decreases show ?case by fastforce
qed

text \<open>logging in always ends: whatever the server answers, the account request leads to at most five more
  requests, since a profile is created at most once while the program runs; at most three if one was created before.\<close>

theorem login_ends:
  assumes "(login_step strtof junk ^^ n) (s, CB_account) (s', cb)"
  shows "n \<le> (if created_profile s then 3 else 5)"
  using login_rank_steps [OF assms] by (auto simp: login_rank_def split: if_splits)

definition account_answer :: cstring where
  "account_answer = ''<account user='' @ [apos] @ ''7'' @ [apos] @ ''/>''"

theorem login_ends_witness:
  "\<exists>s'. (login_step (\<lambda>_. 0) (\<lambda>_. NUL) ^^ 1) (demo_session, CB_account) (s', CB_get_master_server For_login)
     \<and> (1::nat) \<le> (if created_profile demo_session then 3 else 5)"
proof -
  have "strstr account_answer ''<server '' = None" by code_simp
  then have r: "read_servers (\<lambda>_. 0) account_answer = Some []" by (simp add: read_servers_def each_elem_stop)
  obtain es where es: "xmpp_iq_get_configs (xmpp_iq_items (logged_in [] account_answer demo_session)) = add_trace es (logged_in [] account_answer demo_session)"
    by (rule that [OF cached_adds])
  let ?u = "add_trace es (logged_in [] account_answer demo_session)"
  have "jid_domain (JID_K01 ?u) \<noteq> None" by (simp add: logged_in_def set_masterservers_def demo_session_simps)
  from request_sent [OF this] obtain t x where
    g: "xmpp_iq_get_master_server (c_uint (online_pvp_rank (cvar ?u))) (online_channel_type (cvar ?u)) For_login ?u
      = Some (add_trace [Send_iq t XMPP_TYPE_GET (Some (CB_get_master_server For_login)) None x] ?u)"
    unfolding xmpp_iq_get_master_server_def by blast
  have "login_answer (\<lambda>_. 0) (\<lambda>_. NUL) CB_account (Some account_answer) XMPP_TYPE_RESULT demo_session
      = Some (add_trace [Send_iq t XMPP_TYPE_GET (Some (CB_get_master_server For_login)) None x] ?u)"
    using g by (simp add: login_answer_def xmpp_iq_account_cb_def r Let_def logged_in_def [symmetric] es del: add_trace_simps(2))
  then have "login_step (\<lambda>_. 0) (\<lambda>_. NUL) (demo_session, CB_account)
      (add_trace [Send_iq t XMPP_TYPE_GET (Some (CB_get_master_server For_login)) None x] ?u, CB_get_master_server For_login)"
    by (rule login_step [where es = "es @ [Send_iq t XMPP_TYPE_GET (Some (CB_get_master_server For_login)) None x]" and t = t and x = x
        and ty = XMPP_TYPE_GET and i = None]) simp_all
  then have "(login_step (\<lambda>_. 0) (\<lambda>_. NUL) ^^ 1) (demo_session, CB_account)
      (add_trace [Send_iq t XMPP_TYPE_GET (Some (CB_get_master_server For_login)) None x] ?u, CB_get_master_server For_login)"
    by (simp only: relpowp_1)
  with login_ends [OF this] show ?thesis by blast
qed

lemma first_channel:
  assumes "\<not> STATUS_LOBBY \<le> ol_status (online s)" "xmpp_iq_join_channel (Some ch) cont s = Some s'"
  shows "s' = add_trace [Send_iq (JID_K01 s) XMPP_TYPE_GET (Some (CB_join_channel ch cont)) None
      (join_text (cvar s) (ol_id (online s)) (ol_active_token (online s)) (pr_id (profile s)) ch)] s"
  using assms by (auto simp: xmpp_iq_join_channel_def Let_def send_iq_get_Some join_text_def)

lemma server_assigned:
  assumes "xmpp_iq_get_master_server_cb For_login (Some m2) XMPP_TYPE_RESULT s1 = Some s2" "attr m2 ''resource'' = Some channel"
  shows "\<exists>ms. masterserver_list_get s1 (Some channel) = Some ms
    \<and> s2 = add_trace [Send_iq (JID_MS (Some channel) s1) XMPP_TYPE_GET (Some CB_account_profiles) None
        (profiles_text (cvar s1) (ol_id (online s1)) (ol_active_token (online s1)))]
      (set_channel channel (case ms of None \<Rightarrow> None | Some m \<Rightarrow> sv_channel m) s1)"
proof -
  have l: "login_channel channel s1 = Some s2"
    using assms by (simp add: xmpp_iq_get_master_server_cb_def use_resource_def)
  then obtain ms where ms: "masterserver_list_get s1 (Some channel) = Some ms"
    by (auto simp: login_channel_def bind_eq_Some_conv)
  define c where "c = (case ms of None \<Rightarrow> None | Some m \<Rightarrow> sv_channel m)"
  have "xmpp_iq_get_account_profiles (set_channel channel c s1) = Some s2"
    using l ms by (cases ms) (auto simp: login_channel_def bind_eq_Some_conv c_def)
  from profiles_request [OF this] ms show ?thesis
    unfolding c_def [symmetric] by (intro exI [of _ ms]) (simp add: c_def set_channel_def JID_MS_def)
qed

lemma profile_joins:
  assumes "xmpp_iq_get_account_profiles_cb junk (Some m3) XMPP_TYPE_RESULT s2 = Some s3" "attr m3 ''profile id'' = Some pid"
    and "ol_channel (online s2) = Some channel" "\<not> STATUS_LOBBY \<le> ol_status (online s2)"
  shows "s3 = add_trace [Send_iq (JID_K01 s2) XMPP_TYPE_GET (Some (CB_join_channel channel None)) None
      (join_text (cvar s2) (ol_id (online s2)) (ol_active_token (online s2)) (Some pid) channel)]
    (upd_profile (\<lambda>p. p\<lparr>pr_id := Some pid, pr_nickname := attr m3 ''nickname''\<rparr>) s2)"
proof -
  have "xmpp_iq_join_channel (Some channel) None (upd_profile (\<lambda>p. p\<lparr>pr_id := Some pid, pr_nickname := attr m3 ''nickname''\<rparr>) s2) = Some s3"
    using assms(1-3) by (simp add: xmpp_iq_get_account_profiles_cb_def Let_def)
  from first_channel [OF _ this] assms(4) show ?thesis by (simp add: JID_K01_def)
qed

text \<open>C19: the login in order: the account's answer gives the token, the user and the list of master servers, makes the
  session online and leads to the question for a master server of the configured rank and channel type; the name of the
  assigned channel is stored with its type and its server is asked for the profile of that user with that token; the
  profile's answer gives identifier and nickname and leads to the request, to the k01 server, to join with user, token
  and profile exactly that channel.\<close>

theorem login_workflow:
  assumes "xmpp_iq_account_cb strtof (Some m1) XMPP_TYPE_RESULT s = Some s1"
    and "xmpp_iq_get_master_server_cb For_login (Some m2) XMPP_TYPE_RESULT s1 = Some s2" "attr m2 ''resource'' = Some channel"
    and "xmpp_iq_get_account_profiles_cb junk (Some m3) XMPP_TYPE_RESULT s2 = Some s3" "attr m3 ''profile id'' = Some pid"
  shows "ol_status (online s3) = STATUS_ONLINE \<and> ol_active_token (online s3) = attr m1 ''active_token'' \<and> ol_id (online s3) = attr m1 ''user''
    \<and> ol_masterservers (online s3) = read_servers strtof m1 \<and> ol_channel (online s3) = Some channel
    \<and> (\<exists>ms. masterserver_list_get s3 (Some channel) = Some ms \<and> ol_channel_type (online s3) = (case ms of None \<Rightarrow> None | Some m \<Rightarrow> sv_channel m))
    \<and> pr_id (profile s3) = Some pid \<and> pr_nickname (profile s3) = attr m3 ''nickname''
    \<and> (\<exists>cs. trace s3 = trace s @ cs @
          [Send_iq (JID_K01 s) XMPP_TYPE_GET (Some (CB_get_master_server For_login)) None (server_request (cvar s)),
           Send_iq (JID_MS (Some channel) s) XMPP_TYPE_GET (Some CB_account_profiles) None
             (profiles_text (cvar s) (attr m1 ''user'') (attr m1 ''active_token'')),
           Send_iq (JID_K01 s) XMPP_TYPE_GET (Some (CB_join_channel channel None)) None
             (join_text (cvar s) (attr m1 ''user'') (attr m1 ''active_token'') (Some pid) channel)]
        \<and> list_all (\<lambda>e. \<exists>n. e = Refresh_cache n) cs)"
proof -
  obtain l cs where 1: "s1 = add_trace (cs @ [Send_iq (JID_K01 s) XMPP_TYPE_GET (Some (CB_get_master_server For_login)) None (server_request (cvar s))])
      (logged_in l m1 s)"
    "list_all (\<lambda>e. \<exists>n. e = Refresh_cache n) cs" "read_servers strtof m1 = Some l"
    using account_result [OF assms(1)] by auto
  have f: "cvar s1 = cvar s" "ol_id (online s1) = attr m1 ''user''" "ol_active_token (online s1) = attr m1 ''active_token''"
    "ol_status (online s1) = STATUS_ONLINE" "ol_masterservers (online s1) = Some l"
    "JID_MS (Some channel) s1 = JID_MS (Some channel) s" "JID_K01 s1 = JID_K01 s"
    unfolding 1(1) by (simp_all add: logged_in_def set_masterservers_def JID_MS_def JID_K01_def)
  from server_assigned [OF assms(2,3), unfolded f] obtain ms c where ms: "masterserver_list_get s1 (Some channel) = Some ms"
    "c = (case ms of None \<Rightarrow> None | Some m \<Rightarrow> sv_channel m)" and
    s2: "s2 = add_trace [Send_iq (JID_MS (Some channel) s) XMPP_TYPE_GET (Some CB_account_profiles) None
        (profiles_text (cvar s) (attr m1 ''user'') (attr m1 ''active_token''))] (set_channel channel c s1)" by blast
  have o: "online s2 = (online s1)\<lparr>ol_channel := Some channel, ol_channel_type := c\<rparr>" "JID_K01 s2 = JID_K01 s" "cvar s2 = cvar s"
    unfolding s2 using f by (simp_all add: set_channel_def JID_K01_def)
  have "ol_channel (online s2) = Some channel" "\<not> STATUS_LOBBY \<le> ol_status (online s2)"
    unfolding o using f(4) by (simp_all add: status_flags word_le_nat_alt)
  from profile_joins [OF assms(4,5) this]
  have s3: "s3 = add_trace [Send_iq (JID_K01 s) XMPP_TYPE_GET (Some (CB_join_channel channel None)) None
      (join_text (cvar s) (attr m1 ''user'') (attr m1 ''active_token'') (Some pid) channel)]
    (upd_profile (\<lambda>p. p\<lparr>pr_id := Some pid, pr_nickname := attr m3 ''nickname''\<rparr>) s2)"
    unfolding o using f by simp
  have o3: "online s3 = (online s1)\<lparr>ol_channel := Some channel, ol_channel_type := c\<rparr>" unfolding s3 using o by simp
  then have m: "masterserver_list_get s3 (Some channel) = Some ms" using ms by (simp add: masterserver_list_get_def)
  have "trace s3 = trace s @ cs @
      [Send_iq (JID_K01 s) XMPP_TYPE_GET (Some (CB_get_master_server For_login)) None (server_request (cvar s)),
       Send_iq (JID_MS (Some channel) s) XMPP_TYPE_GET (Some CB_account_profiles) None
         (profiles_text (cvar s) (attr m1 ''user'') (attr m1 ''active_token'')),
       Send_iq (JID_K01 s) XMPP_TYPE_GET (Some (CB_join_channel channel None)) None
         (join_text (cvar s) (attr m1 ''user'') (attr m1 ''active_token'') (Some pid) channel)]"
    unfolding s3 s2 1(1) by (simp add: set_channel_def)
  moreover have "pr_id (profile s3) = Some pid \<and> pr_nickname (profile s3) = attr m3 ''nickname''" unfolding s3 by simp
  ultimately show ?thesis using m ms(2) f 1(2,3) unfolding o3 by auto
qed

definition server_answer :: cstring where
  "server_answer = ''<get_master_server resource='' @ [apos] @ ''pve_1'' @ [apos] @ ''/>''"

definition profiles_answer :: cstring where
  "profiles_answer = ''<profile id='' @ [apos] @ ''7'' @ [apos] @ '' nickname='' @ [apos] @ ''me'' @ [apos] @ ''/>''"

theorem login_workflow_witness:
  "\<exists>s1 s2 s3. xmpp_iq_account_cb (\<lambda>_. 0) (Some account_answer) XMPP_TYPE_RESULT demo_session = Some s1
     \<and> xmpp_iq_get_master_server_cb For_login (Some server_answer) XMPP_TYPE_RESULT s1 = Some s2
     \<and> xmpp_iq_get_account_profiles_cb (\<lambda>_. NUL) (Some profiles_answer) XMPP_TYPE_RESULT s2 = Some s3
     \<and> ol_id (online s3) = Some ''7'' \<and> ol_channel (online s3) = Some ''pve_1'' \<and> pr_id (profile s3) = Some ''7''"
proof -
  let ?d = "demo_session :: nat session"
  have r: "read_servers (\<lambda>_. 0) account_answer = Some []"
  proof -
    have "strstr account_answer ''<server '' = None" by code_simp
    then show ?thesis by (simp add: read_servers_def each_elem_stop)
  qed
  obtain es where es: "xmpp_iq_get_configs (xmpp_iq_items (logged_in [] account_answer ?d)) = add_trace es (logged_in [] account_answer ?d)"
    by (rule that [OF cached_adds])
  have j: "ol_jid_k01 (online (logged_in [] account_answer ?d)) = Some ''k01.eu.warface''"
    "ol_jid_host (online (logged_in [] account_answer ?d)) = Some ''eu.warface''"
    by (simp_all add: logged_in_def set_masterservers_def demo_session_simps)
  have "\<exists>e. xmpp_iq_account_cb (\<lambda>_. 0) (Some account_answer) XMPP_TYPE_RESULT ?d = Some (add_trace e (logged_in [] account_answer ?d))"
    by (simp add: xmpp_iq_account_cb_def r Let_def logged_in_def [symmetric] es xmpp_iq_get_master_server_def request_sent j) blast
  then obtain e where s1: "xmpp_iq_account_cb (\<lambda>_. 0) (Some account_answer) XMPP_TYPE_RESULT ?d = Some (add_trace e (logged_in [] account_answer ?d))"
    by blast
  let ?s1 = "add_trace e (logged_in [] account_answer ?d)"
  have a: "attr server_answer ''resource'' = Some ''pve_1''" "attr profiles_answer ''profile id'' = Some ''7''"
    "attr account_answer ''user'' = Some ''7''" by code_simp+
  have "masterserver_list_get ?s1 (Some ''pve_1'') = Some None"
    by (simp add: masterserver_list_get_def logged_in_def set_masterservers_def)
  then have "\<exists>e. xmpp_iq_get_master_server_cb For_login (Some server_answer) XMPP_TYPE_RESULT ?s1 = Some (add_trace e (set_channel ''pve_1'' None ?s1))"
    using request_sent [of "JID_MS (ol_channel (online (set_channel ''pve_1'' None ?s1))) (set_channel ''pve_1'' None ?s1)"]
    by (simp add: xmpp_iq_get_master_server_cb_def a use_resource_def login_channel_def xmpp_iq_get_account_profiles_def
        set_channel_def j) blast
  then obtain e' where s2: "xmpp_iq_get_master_server_cb For_login (Some server_answer) XMPP_TYPE_RESULT ?s1
      = Some (add_trace e' (set_channel ''pve_1'' None ?s1))" by blast
  let ?s2 = "add_trace e' (set_channel ''pve_1'' None ?s1)"
  have "ol_jid_k01 (online ?s2) = Some ''k01.eu.warface''" "\<not> STATUS_LOBBY \<le> ol_status (online ?s2)" "ol_channel (online ?s2) = Some ''pve_1''"
    by (simp_all add: set_channel_def j) (simp add: logged_in_def set_masterservers_def status_flags word_le_nat_alt)
  then have "\<exists>s3. xmpp_iq_get_account_profiles_cb (\<lambda>_. NUL) (Some profiles_answer) XMPP_TYPE_RESULT ?s2 = Some s3"
    by (simp add: xmpp_iq_get_account_profiles_cb_def a xmpp_iq_join_channel_def Let_def request_sent)
  then obtain s3 where s3: "xmpp_iq_get_account_profiles_cb (\<lambda>_. NUL) (Some profiles_answer) XMPP_TYPE_RESULT ?s2 = Some s3" by blast
  have "ol_id (online s3) = Some ''7''" "ol_channel (online s3) = Some ''pve_1''" "pr_id (profile s3) = Some ''7''"
    using login_workflow [OF s1 s2 a(1) s3 a(2)] a(3) by simp_all
  with s1 s2 s3 show ?thesis by blast
qed

subsection \<open>The items that the server lists\<close>

text \<open>The attributes of an owned item; an item without configuration has no such attribute.\<close>

definition item_attrs :: "game_item \<Rightarrow> (cstring \<times> cstring) list" where
  "item_attrs i =
     [(''id'', int_dec (uint (it_id i))), (''name'', NULL_CHECK (it_name i)), (''attached_to'', int_dec (it_attached_to i))]
     @ (case it_config i of None \<Rightarrow> [] | Some c \<Rightarrow> [(''config'', c)])
     @ [(''slot'', int_dec (it_slot i)), (''equipped'', int_dec (it_equipped i)), (''default'', int_dec (it_is_default i)),
        (''permanent'', int_dec (it_permanent i)), (''expired_confirmed'', int_dec (it_expired_confirmed i)),
        (''buy_time_utc'', int_dec (uint (it_buy_time_utc i))), (''expiration_time_utc'', int_dec (uint (it_expiration_time_utc i))),
        (''seconds_left'', int_dec (uint (it_seconds_left i))), (''quantity'', int_dec (uint (it_quantity i)))]"

definition plain_item :: "game_item \<Rightarrow> bool" where
  "plain_item i \<longleftrightarrow> (case it_name i of None \<Rightarrow> False | Some n \<Rightarrow> plain_value n) \<and> pred_option plain_value (it_config i) \<and> it_locked i = 0
     \<and> - (2 ^ 31) \<le> it_equipped i \<and> it_equipped i < 2 ^ 31 \<and> - (2 ^ 31) \<le> it_slot i \<and> it_slot i < 2 ^ 31
     \<and> list_all (\<lambda>f. - 128 \<le> f i \<and> f i < 128) [it_attached_to, it_is_default, it_permanent, it_expired_confirmed]"

lemma item_attrs_plain:
  assumes "plain_item i"
  shows "plain_attrs (item_attrs i)"
  using assms plain_value_int
  by (auto simp: item_attrs_def plain_item_def name_ok_def NULL_CHECK_def split: option.splits)

lemma attr_read:
  assumes "plain_attrs kvs" "name_ok n"
  shows "lookup_attr n kvs = Some v \<Longrightarrow> attr (render_attrs kvs) n = Some v"
    and "lookup_attr n kvs = Some (int_dec j) \<Longrightarrow> - (2 ^ 63) \<le> j \<Longrightarrow> j < 2 ^ 63 \<Longrightarrow> attr_int (render_attrs kvs) n = c_int j"
    and "lookup_attr n kvs = Some (int_dec j) \<Longrightarrow> - (2 ^ 63) \<le> j \<Longrightarrow> j < 2 ^ 63 \<Longrightarrow> sync_char (render_attrs kvs) n = c_char j"
    and "lookup_attr n kvs = Some (int_dec (uint w)) \<Longrightarrow> sync_uint (render_attrs kvs) n = w"
    and "lookup_attr n kvs = None \<Longrightarrow> attr (render_attrs kvs) n = None"
proof -
  note ok = plain_attrs_ok [OF assms(1)] assms(2)
  show "lookup_attr n kvs = Some v \<Longrightarrow> attr (render_attrs kvs) n = Some v"
    using attr_elem [OF assms, of v "[]"] by simp
  show "lookup_attr n kvs = Some (int_dec j) \<Longrightarrow> - (2 ^ 63) \<le> j \<Longrightarrow> j < 2 ^ 63 \<Longrightarrow> attr_int (render_attrs kvs) n = c_int j"
    using attr_int_elem [OF assms, of j "[]"] by simp
  show "lookup_attr n kvs = Some (int_dec j) \<Longrightarrow> - (2 ^ 63) \<le> j \<Longrightarrow> j < 2 ^ 63 \<Longrightarrow> sync_char (render_attrs kvs) n = c_char j"
    using get_attr_int [OF ok, of j "[]"] by (simp add: sync_char_def sync_long_def)
  show "lookup_attr n kvs = Some (int_dec (uint w)) \<Longrightarrow> sync_uint (render_attrs kvs) n = w"
    using sync_uint_elem [OF assms, of w "[]"] by simp
  show "lookup_attr n kvs = None \<Longrightarrow> attr (render_attrs kvs) n = None"
    using get_attr_absent [OF ok, of "[]" "[apos]"] by (simp add: attr_def get_info_def)
qed

lemma item_read:
  assumes "plain_item i"
  shows "read_item (render_attrs (item_attrs i)) = i" "attr (render_attrs (item_attrs i)) ''name'' = it_name i"
proof -
  let ?k = "item_attrs i"
  note p = item_attrs_plain [OF assms]
  have ok: "name_ok ''id''" "name_ok ''name''" "name_ok ''attached_to''" "name_ok ''config''" "name_ok ''slot''" "name_ok ''equipped''"
    "name_ok ''default''" "name_ok ''permanent''" "name_ok ''expired_confirmed''" "name_ok ''buy_time_utc''"
    "name_ok ''expiration_time_utc''" "name_ok ''seconds_left''" "name_ok ''quantity''"
    by (simp_all add: name_ok_def)
  have l: "lookup_attr ''id'' ?k = Some (int_dec (uint (it_id i)))" "lookup_attr ''name'' ?k = Some (NULL_CHECK (it_name i))"
    "lookup_attr ''attached_to'' ?k = Some (int_dec (it_attached_to i))" "lookup_attr ''config'' ?k = it_config i"
    "lookup_attr ''slot'' ?k = Some (int_dec (it_slot i))" "lookup_attr ''equipped'' ?k = Some (int_dec (it_equipped i))"
    "lookup_attr ''default'' ?k = Some (int_dec (it_is_default i))" "lookup_attr ''permanent'' ?k = Some (int_dec (it_permanent i))"
    "lookup_attr ''expired_confirmed'' ?k = Some (int_dec (it_expired_confirmed i))"
    "lookup_attr ''buy_time_utc'' ?k = Some (int_dec (uint (it_buy_time_utc i)))"
    "lookup_attr ''expiration_time_utc'' ?k = Some (int_dec (uint (it_expiration_time_utc i)))"
    "lookup_attr ''seconds_left'' ?k = Some (int_dec (uint (it_seconds_left i)))"
    "lookup_attr ''quantity'' ?k = Some (int_dec (uint (it_quantity i)))"
    by (simp_all add: item_attrs_def attr_hit_def split: option.split)
  have b: "- (2 ^ 63) \<le> it_attached_to i" "it_attached_to i < 2 ^ 63" "- (2 ^ 63) \<le> it_is_default i" "it_is_default i < 2 ^ 63"
    "- (2 ^ 63) \<le> it_permanent i" "it_permanent i < 2 ^ 63" "- (2 ^ 63) \<le> it_expired_confirmed i" "it_expired_confirmed i < 2 ^ 63"
    "- (2 ^ 63) \<le> it_slot i" "it_slot i < 2 ^ 63" "- (2 ^ 63) \<le> it_equipped i" "it_equipped i < 2 ^ 63"
    using assms by (simp_all add: plain_item_def)
  have c: "attr (render_attrs ?k) ''config'' = it_config i"
    using attr_read(1) [OF p ok(4)] attr_read(5) [OF p ok(4)] l(4) by (cases "it_config i") simp_all
  have id: "c_int (it_slot i) = it_slot i" "c_int (it_equipped i) = it_equipped i" "c_char (it_attached_to i) = it_attached_to i"
    "c_char (it_is_default i) = it_is_default i" "c_char (it_permanent i) = it_permanent i"
    "c_char (it_expired_confirmed i) = it_expired_confirmed i"
    using assms by (simp_all add: plain_item_def c_int_id c_char_id)
  have n: "Some (NULL_CHECK (it_name i)) = it_name i" "it_locked i = 0"
    using assms by (auto simp: plain_item_def NULL_CHECK_def split: option.splits)
  show "attr (render_attrs ?k) ''name'' = it_name i" using attr_read(1) [OF p ok(2) l(2)] n(1) by simp
  then show "read_item (render_attrs ?k) = i"
    unfolding read_item_def c attr_read(4) [OF p ok(1) l(1)] attr_read(3) [OF p ok(3) l(3) b(1,2)] attr_read(2) [OF p ok(5) l(5) b(9,10)]
      attr_read(2) [OF p ok(6) l(6) b(11,12)] attr_read(3) [OF p ok(7) l(7) b(3,4)] attr_read(3) [OF p ok(8) l(8) b(5,6)]
      attr_read(3) [OF p ok(9) l(9) b(7,8)] attr_read(4) [OF p ok(10) l(10)] attr_read(4) [OF p ok(11) l(11)]
      attr_read(4) [OF p ok(12) l(12)] attr_read(4) [OF p ok(13) l(13)] id
    by (simp add: n(2))
qed

definition add_item_step :: "game_item \<Rightarrow> game_item list \<Rightarrow> game_item list crash" where
  "add_item_step i items = Some (i # items)"

lemma item_elem_step:
  assumes "plain_item i"
  shows "item_elem (''<item'' @ render_attrs (item_attrs i) @ ''/>'' @ r) items = add_item_step i items"
    and "named_item_elem (''<item'' @ render_attrs (item_attrs i) @ ''/>'' @ r) items = add_item_step i items"
proof -
  have "CHR ''>'' \<notin> set (render_attrs (item_attrs i))" using plain_attrs_text [OF item_attrs_plain [OF assms]] by simp
  note cut = elem_cut [OF this, of "''<item''" r]
  have "it_name i \<noteq> None" using assms by (auto simp: plain_item_def split: option.splits)
  then show "item_elem (''<item'' @ render_attrs (item_attrs i) @ ''/>'' @ r) items = add_item_step i items"
    "named_item_elem (''<item'' @ render_attrs (item_attrs i) @ ''/>'' @ r) items = add_item_step i items"
    unfolding item_elem_def named_item_elem_def cut deref_simps Option.bind.simps item_read(2) [OF assms]
    by (auto simp: item_read(1) [OF assms] add_item_step_def)
qed

interpretation item_reader: element_reader "''<item''" item_attrs plain_item item_elem add_item_step
  by unfold_locales (use item_attrs_plain item_elem_step(1) in simp_all)

interpretation named_item_reader: element_reader "''<item''" item_attrs plain_item named_item_elem add_item_step
  by unfold_locales (use item_attrs_plain item_elem_step(2) in simp_all)

lemma add_items: "each add_item_step is l = Some (rev is @ l)"
  by (induction "is" arbitrary: l) (simp_all add: add_item_step_def)

lemma class_updated:
  assumes "pr_items (profile s) = Some l" "uint (6 * cl) < 32"
  shows "\<exists>p. status_update_class cl s = Some (s\<lparr>profile := p\<rparr>) \<and> pr_items p = Some l \<and> pr_curr_class p = cl"
proof -
  have "weapon_of_class cl i = Some (the (weapon_of_class cl i))" for i using assms(2) by (simp add: weapon_of_class_def)
  from find_crash_total [of l "weapon_of_class cl", OF this] obtain i where "find_crash (weapon_of_class cl) l = Some i" by blast
  moreover define p where "p = (case i of None \<Rightarrow> profile s
      | Some it \<Rightarrow> (profile s)\<lparr>pr_primary_weapon := it_name it\<rparr>)\<lparr>pr_curr_class := cl\<rparr>"
  ultimately have "status_update_class cl s = Some (s\<lparr>profile := p\<rparr>)"
    using assms(1) by (simp add: status_update_class_def Let_def)
  moreover have "pr_items p = Some l" "pr_curr_class p = cl" using assms(1) by (simp_all add: p_def split: option.split)
  ultimately show ?thesis by blast
qed

text \<open>asking for the profile again replaces the list of own items by exactly the items of the answer, each field
  as the server wrote it (the last one first), and stores the class; classes above 5 would shift by too much.\<close>

theorem items_received:
  assumes "list_all plain_item is" "CHR ''<'' \<notin> set w" "strstr r ''<item'' = None"
    and "data = w @ concat (map (\<lambda>i. render_elem ''<item'' (item_attrs i)) is) @ r"
    and "uint (6 * sync_uint data ''current_class'') < 32" "strstr data ''<unlocked_item'' = None"
  shows "\<exists>s'. xmpp_iq_resync_profile_cb cb (Some m) (Some data) XMPP_TYPE_RESULT s = Some s'
    \<and> pr_items (profile s') = Some (rev is) \<and> pr_curr_class (profile s') = sync_uint data ''current_class''"
proof -
  have e: "each_elem ''<item'' item_elem data [] = Some (rev is)"
    using item_reader.reads_elements [OF assms(1-3), of "[]"] by (simp add: assms(4) add_items)
  let ?s1 = "upd_profile (\<lambda>p. (update_money data (update_character data p))\<lparr>pr_items := Some (rev is)\<rparr>) s"
  have "pr_items (profile ?s1) = Some (rev is)" by simp
  from class_updated [OF this assms(5)] obtain p where p: "status_update_class (sync_uint data ''current_class'') ?s1 = Some (?s1\<lparr>profile := p\<rparr>)"
    "pr_items p = Some (rev is)" "pr_curr_class p = sync_uint data ''current_class''" by blast
  have "xmpp_iq_resync_profile_cb cb (Some m) (Some data) XMPP_TYPE_RESULT s = Some (call_opt cb (?s1\<lparr>profile := p\<rparr>))"
    by (simp add: xmpp_iq_resync_profile_cb_def e p(1) update_unlocked_def each_elem_stop [OF assms(6)])
  then show ?thesis using p(2,3) by (simp add: call_opt_def split: option.split)
qed

definition coin :: game_item where
  "coin = \<lparr>it_id = 12, it_name = Some ''coin_01'', it_locked = 0, it_equipped = 1, it_slot = 1, it_config = None, it_attached_to = 0,
     it_is_default = 0, it_permanent = 1, it_expired_confirmed = 0, it_buy_time_utc = 5, it_expiration_time_utc = 9,
     it_seconds_left = 4, it_quantity = 3\<rparr>"

theorem items_received_witness:
  "\<exists>s'. xmpp_iq_resync_profile_cb None (Some []) (Some (concat (map (\<lambda>i. render_elem ''<item'' (item_attrs i)) [coin]))) XMPP_TYPE_RESULT
     (demo_session :: nat session) = Some s' \<and> pr_items (profile s') = Some [coin]"
proof -
  have p: "list_all plain_item [coin]" by (simp add: plain_item_def coin_def plain_value_def)
  define data where "data = concat (map (\<lambda>i. render_elem ''<item'' (item_attrs i)) [coin])"
  have "plain_attrs (item_attrs coin)" using p item_attrs_plain by simp
  note k = this
  from plain_attrs_text [OF k] have "CHR ''<'' \<notin> set (''item'' @ render_attrs (item_attrs coin) @ ''/>'')" by simp
  from strstr_piece [OF this, of "''unlocked_item''" "[]"] have u: "strstr data ''<unlocked_item'' = None"
    by (simp add: data_def render_elem_def)
  have "lookup_attr ''current_class'' (item_attrs coin) = None" by (simp add: item_attrs_def coin_def attr_hit_def)
  moreover have "name_ok ''current_class''" by (simp add: name_ok_def)
  moreover have "sync_uint data ''current_class'' = sync_uint (render_attrs (item_attrs coin) @ ''/>'') ''current_class''"
    using tagged(3) [of "item_attrs coin" "''<item''" "''current_class''" "''/>''"] by (simp add: data_def render_elem_def item_attrs_def)
  ultimately have c: "sync_uint data ''current_class'' = 0"
    using strstr_attrs [OF plain_attrs_ok [OF k], of "''current_class''" "''/>''"]
    by (simp add: sync_uint_def sync_long_def get_info_int_def c_uint_def)
  have "\<exists>s'. xmpp_iq_resync_profile_cb None (Some []) (Some data) XMPP_TYPE_RESULT (demo_session :: nat session) = Some s'
     \<and> pr_items (profile s') = Some (rev [coin]) \<and> pr_curr_class (profile s') = sync_uint data ''current_class''"
    by (rule items_received [OF p _ _ _ _ u, of "[]" "[]"]) (simp_all add: data_def [symmetric] c, simp add: data_def)
  then show ?thesis unfolding data_def by auto
qed

end
