(* ===== verification/Keepalive.thy ===== *)
theory Keepalive
  imports Channels
begin

text \<open>
  Keeping the connection alive: the thread that pings the server and the leader of a group, marks the
  session as away and repeats an old status (\<open>src/threads/thread_ping.c\<close>), the pings themselves
  (\<open>xmpp_iq_ping.c\<close>, \<open>xmpp_iq_p2p_ping.c\<close>).  \<open>last_query\<close> is the time of the last bytes from the server.
\<close>

subsection \<open>Pings\<close>

definition xmpp_iq_ping :: "'u session \<Rightarrow> 'u session crash" where
  "xmpp_iq_ping s = send_iq_get (JID (ol_jid_host (online s))) (Some CB_ping) (''<ping xmlns='' @ [apos] @ ''urn:xmpp:ping'' @ [apos] @ ''/>'') s"

text \<open>The answer to a ping has no query; its text is empty here.\<close>

definition xmpp_iq_ping_cb :: "cptr \<Rightarrow> 'u session \<Rightarrow> 'u session crash" where
  "xmpp_iq_ping_cb msg_id s = send_iq_result (JID (ol_jid_host (online s))) msg_id [] s"

definition xmpp_iq_p2p_ping :: "cptr \<Rightarrow> 'u session \<Rightarrow> 'u session crash" where
  "xmpp_iq_p2p_ping online_id s = send_iq_get (JID online_id) None (k01_query ''<p2p_ping/>'') s"

definition xmpp_iq_p2p_ping_cb :: "cptr \<Rightarrow> cstring \<Rightarrow> 'u session \<Rightarrow> 'u session crash" where
  "xmpp_iq_p2p_ping_cb msg_id msg s = send_iq_result (JID (attr msg ''from'')) msg_id (k01_query '' <p2p_ping/>'') s"

subsection \<open>The thread\<close>

text \<open>A number of pings in seconds; the product of two \<open>int\<close> must not overflow.\<close>

definition ping_seconds :: "int \<Rightarrow> 'u session \<Rightarrow> int crash" where
  "ping_seconds count s =
     (let n = count * wb_ping_unit (cvar s) in if - (2 ^ 31) \<le> n \<and> n < 2 ^ 31 then Some n else None)"

text \<open>The tests of the server's silence: the first result is \<open>None\<close> when the connection is given up, else the
  new value of \<open>previous_ping\<close>.\<close>

definition ping_server :: "'u session \<Rightarrow> (bool option \<times> 'u session) crash" where
  "ping_server s =
     do {
       over \<leftarrow> ping_seconds (wb_ping_count_is_over (cvar s)) s;
       if last_query s + over < now s then Some (None, s)
       else do {
              stall \<leftarrow> ping_seconds (wb_ping_count_is_stall (cvar s)) s;
              if last_query s + stall < now s then do { s' \<leftarrow> xmpp_iq_ping s; Some (Some True, s') }
              else Some (Some False, s)
            }
     }"

text \<open>The condition on the status is the exclusive or with the flag: it only fails for \<open>STATUS_AFK\<close> alone.\<close>

definition ping_status :: "'u session \<Rightarrow> 'u session crash" where
  "ping_status s =
     do {
       idle \<leftarrow> (if wb_auto_afk (cvar s) \<and> ol_status (online s) XOR STATUS_AFK \<noteq> 0
               then do {
                      afk \<leftarrow> ping_seconds (wb_ping_count_is_afk (cvar s)) s;
                      Some (ol_last_status_change (online s) + afk < now s)
                    }
               else Some False);
       if idle then status_set (ol_status (online s) OR STATUS_AFK) s
       else do {
              outdated \<leftarrow> ping_seconds (wb_ping_count_is_outdated (cvar s)) s;
              if ol_last_status_update (online s) + outdated < now s then status_set (ol_status (online s)) s else Some s
            }
     }"

definition ping_tick :: "'u session \<Rightarrow> (bool option \<times> 'u session) crash" where
  "ping_tick s =
     do {
       (r, s1) \<leftarrow> ping_server s;
       case r of
         None \<Rightarrow> Some (None, s1)
       | Some previous_ping \<Rightarrow>
           do {
             s2 \<leftarrow> (case qp_master (quickplay s1) of None \<Rightarrow> Some s1 | Some m \<Rightarrow> xmpp_iq_p2p_ping (Some m) s1);
             s3 \<leftarrow> ping_status s2;
             Some (Some previous_ping, s3)
           }
     }"

text \<open>The loop while nothing but the clock changes: each pass sleeps for one unit.\<close>

fun ping_run :: "nat \<Rightarrow> 'u session \<Rightarrow> (bool \<times> 'u session) crash" where
  "ping_run 0 s = Some (True, s)"
| "ping_run (Suc n) s =
     do {
       (r, s1) \<leftarrow> ping_tick s;
       case r of None \<Rightarrow> Some (False, s1) | Some previous_ping \<Rightarrow> ping_run n (s1\<lparr>now := now s1 + wb_ping_unit (cvar s1)\<rparr>)
     }"

subsection \<open>A silent server is noticed\<close>

definition keepalive_ok :: "'u session \<Rightarrow> bool" where
  "keepalive_ok s \<longleftrightarrow> ol_jid_host (online s) \<noteq> None \<and> ol_jid_k01 (online s) \<noteq> None \<and> pr_friends (profile s) \<noteq> None
     \<and> cl_mates (profile s) \<noteq> None \<and> gi_jid (groom s) = None \<and> 0 < wb_ping_unit (cvar s)
     \<and> list_all (\<lambda>c. ping_seconds c s \<noteq> None) [wb_ping_count_is_over (cvar s), wb_ping_count_is_stall (cvar s),
          wb_ping_count_is_afk (cvar s), wb_ping_count_is_outdated (cvar s)]"

definition alike :: "'u session \<Rightarrow> 'u session \<Rightarrow> bool" where
  "alike s s' \<longleftrightarrow> ol_jid_host (online s') = ol_jid_host (online s) \<and> ol_jid_k01 (online s') = ol_jid_k01 (online s)
     \<and> profile s' = profile s \<and> groom s' = groom s \<and> cvar s' = cvar s \<and> last_query s' = last_query s \<and> now s' = now s
     \<and> quickplay s' = quickplay s"

lemma alike_ok: "alike s s' \<Longrightarrow> keepalive_ok s \<Longrightarrow> keepalive_ok s'"
  by (simp add: alike_def keepalive_ok_def ping_seconds_def)

lemma alike_trans: "alike s1 s2 \<Longrightarrow> alike s2 s3 \<Longrightarrow> alike s1 s3"
  by (simp add: alike_def)

lemma alike_trace [simp]: "alike s (add_trace es s)" "alike s s"
  by (simp_all add: alike_def)

lemma location_runs:
  assumes "gi_jid (groom s) = None"
  shows "\<exists>a b c d. status_update_location s = Some (set_tokens a b c d s)"
proof (cases "ol_status (online s) AND STATUS_LOBBY = 0")
  case True
  with assms have "status_update_location s = Some (set_tokens None None None None s)" by (simp add: status_update_location_def)
  then show ?thesis by (intro exI)
next
  case False
  then have "status_update_location s = Some (set_tokens (Some ''@ui_playerinfo_inlobby'') None None None s)"
    by (simp add: status_update_location_def)
  then show ?thesis by (intro exI)
qed

lemma status_set_runs:
  assumes "keepalive_ok s"
  shows "\<exists>s'. status_set status s = Some s' \<and> alike s s'"
proof -
  define s1 where "s1 = (if ol_status (online s) XOR STATUS_AFK \<noteq> status XOR STATUS_AFK
      then s\<lparr>online := (online s)\<lparr>ol_last_status_change := now s\<rparr>\<rparr> else s)"
  have 1: "alike s s1" by (simp add: s1_def alike_def)
  have "jid_domain (JID_K01 s1) \<noteq> None" using assms 1 by (simp add: keepalive_ok_def alike_def)
  from request_sent [OF this] obtain m where m: "xmpp_iq_player_status status s1 = Some (add_trace [m] s1)"
    unfolding xmpp_iq_player_status_def by blast
  let ?s3 = "(add_trace [m] s1)\<lparr>online := (online (add_trace [m] s1))\<lparr>ol_status := status, ol_last_status_update := now (add_trace [m] s1)\<rparr>\<rparr>"
  have "gi_jid (groom ?s3) = None" using assms 1 by (simp add: keepalive_ok_def alike_def)
  then obtain a b c d where t: "status_update_location ?s3 = Some (set_tokens a b c d ?s3)"
    using location_runs by blast
  let ?s4 = "set_tokens a b c d ?s3"
  have 4: "alike s ?s4" using 1 by (simp add: alike_def set_tokens_def)
  obtain fs cs where f: "pr_friends (profile ?s4) = Some fs" "cl_mates (profile ?s4) = Some cs"
    using assms 4 by (auto simp: alike_def keepalive_ok_def)
  define s5 where "s5 = add_trace (map (friend_message ?s4) (filter (\<lambda>f. fr_jid f \<noteq> None) fs)) ?s4"
  have "status_set status s = Some (add_trace (map (clanmate_message s5) (filter (\<lambda>c. cm_jid c \<noteq> None) cs)) s5)"
    unfolding status_set_def Let_def s1_def [symmetric] m Option.bind.simps t f deref_simps each_friend s5_def [symmetric]
    using f(2) by (simp add: s5_def [symmetric] each_clanmate) (simp add: s5_def each_clanmate)
  moreover have "alike s s5" using 4 alike_trace(1) alike_trans unfolding s5_def by blast
  ultimately show ?thesis using alike_trace(1) alike_trans by blast
qed

lemma ping_seconds_alike: "alike s s' \<Longrightarrow> ping_seconds c s' = ping_seconds c s"
  by (simp add: alike_def ping_seconds_def)

lemma ping_seconds_value: "ping_seconds c s = Some n \<Longrightarrow> n = c * wb_ping_unit (cvar s)"
  by (simp add: ping_seconds_def Let_def split: if_splits)

lemma ping_status_runs:
  assumes "keepalive_ok s"
  shows "\<exists>s'. ping_status s = Some s' \<and> alike s s'"
proof -
  obtain afk outdated where p: "ping_seconds (wb_ping_count_is_afk (cvar s)) s = Some afk"
    "ping_seconds (wb_ping_count_is_outdated (cvar s)) s = Some outdated"
    using assms by (auto simp: keepalive_ok_def)
  obtain a b where a: "status_set (ol_status (online s) OR STATUS_AFK) s = Some a" "alike s a"
    and b: "status_set (ol_status (online s)) s = Some b" "alike s b"
    using status_set_runs [OF assms] by blast
  have "ping_status s \<in> {Some a, Some b, Some s}" by (simp add: ping_status_def p a(1) b(1))
  with a(2) b(2) show ?thesis by auto
qed

lemma ping_server_runs:
  assumes "keepalive_ok s"
  shows "last_query s + wb_ping_count_is_over (cvar s) * wb_ping_unit (cvar s) < now s \<Longrightarrow> ping_server s = Some (None, s)"
    and "now s \<le> last_query s + wb_ping_count_is_over (cvar s) * wb_ping_unit (cvar s)
      \<Longrightarrow> \<exists>p es. ping_server s = Some (Some p, add_trace es s)"
proof -
  obtain over stall where p: "ping_seconds (wb_ping_count_is_over (cvar s)) s = Some over"
    "ping_seconds (wb_ping_count_is_stall (cvar s)) s = Some stall"
    using assms by (auto simp: keepalive_ok_def)
  have o: "over = wb_ping_count_is_over (cvar s) * wb_ping_unit (cvar s)" using ping_seconds_value [OF p(1)] .
  show "last_query s + wb_ping_count_is_over (cvar s) * wb_ping_unit (cvar s) < now s \<Longrightarrow> ping_server s = Some (None, s)"
    by (simp add: ping_server_def p(1) o)
  have "jid_domain (JID (ol_jid_host (online s))) \<noteq> None" using assms by (simp add: keepalive_ok_def)
  from request_sent [OF this] obtain e where e: "xmpp_iq_ping s = Some (add_trace [e] s)" unfolding xmpp_iq_ping_def by blast
  show "\<exists>p es. ping_server s = Some (Some p, add_trace es s)"
    if "now s \<le> last_query s + wb_ping_count_is_over (cvar s) * wb_ping_unit (cvar s)"
  proof (cases "last_query s + stall < now s")
    case True
    with that e have "ping_server s = Some (Some True, add_trace [e] s)" by (simp add: ping_server_def p o)
    then show ?thesis by blast
  next
    case False
    with that have "ping_server s = Some (Some False, add_trace [] s)" by (simp add: ping_server_def p o)
    then show ?thesis by blast
  qed
qed

lemma ping_tick_runs:
  assumes "keepalive_ok s"
  shows "last_query s + wb_ping_count_is_over (cvar s) * wb_ping_unit (cvar s) < now s \<Longrightarrow> ping_tick s = Some (None, s)"
    and "now s \<le> last_query s + wb_ping_count_is_over (cvar s) * wb_ping_unit (cvar s)
      \<Longrightarrow> \<exists>p es s'. ping_tick s = Some (Some p, s') \<and> ping_status (add_trace es s) = Some s' \<and> alike s s'"
proof -
  show "last_query s + wb_ping_count_is_over (cvar s) * wb_ping_unit (cvar s) < now s \<Longrightarrow> ping_tick s = Some (None, s)"
    using ping_server_runs(1) [OF assms] by (simp add: ping_tick_def)
  assume "now s \<le> last_query s + wb_ping_count_is_over (cvar s) * wb_ping_unit (cvar s)"
  then obtain p es where 1: "ping_server s = Some (Some p, add_trace es s)" using ping_server_runs(2) [OF assms] by blast
  obtain es' where 2: "(case qp_master (quickplay (add_trace es s)) of None \<Rightarrow> Some (add_trace es s)
      | Some m \<Rightarrow> xmpp_iq_p2p_ping (Some m) (add_trace es s)) = Some (add_trace es' s)"
  proof (cases "qp_master (quickplay s)")
    case None
    with that show ?thesis by simp
  next
    case (Some m)
    have "jid_domain (JID (Some m)) \<noteq> None" by simp
    from request_sent [OF this] obtain e where "xmpp_iq_p2p_ping (Some m) (add_trace es s) = Some (add_trace [e] (add_trace es s))"
      unfolding xmpp_iq_p2p_ping_def by blast
    with Some that show ?thesis by simp
  qed
  have a: "alike s (add_trace es' s)" by simp
  obtain s' where 3: "ping_status (add_trace es' s) = Some s'" "alike (add_trace es' s) s'"
    using ping_status_runs [OF alike_ok [OF a assms]] by blast
  have "ping_tick s = Some (Some p, s')"
    unfolding ping_tick_def 1 Option.bind.simps prod.case option.case 2 3(1) by (rule refl)
  with 3 alike_trans [OF a 3(2)] show "\<exists>p es s'. ping_tick s = Some (Some p, s') \<and> ping_status (add_trace es s) = Some s' \<and> alike s s'"
    by blast
qed

lemma keepalive_later: "keepalive_ok s \<Longrightarrow> keepalive_ok (s\<lparr>now := t\<rparr>)"
  by (simp add: keepalive_ok_def ping_seconds_def)

text \<open>C21: the thread gives a silent connection up exactly when it has been silent for longer than
  \<open>wb_ping_count_is_over\<close> units of \<open>wb_ping_unit\<close> seconds: with only the clock running, the pass number \<open>n\<close> (from 0)
  is the last one if the limit is exceeded then, and until then the loop goes on; it never crashes on a
  session with its lists that is in no room.\<close>

theorem silent_server_noticed:
  assumes "keepalive_ok s"
  shows "\<exists>alive s'. ping_run (Suc n) s = Some (alive, s') \<and>
     (alive \<longleftrightarrow> now s + int n * wb_ping_unit (cvar s) \<le> last_query s + wb_ping_count_is_over (cvar s) * wb_ping_unit (cvar s))"
  using assms
proof (induction n arbitrary: s)
  case 0
  show ?case
  proof (cases "now s \<le> last_query s + wb_ping_count_is_over (cvar s) * wb_ping_unit (cvar s)")
    case True
    with ping_tick_runs(2) [OF 0] obtain p s' where "ping_tick s = Some (Some p, s')" by blast
    with True show ?thesis by (intro exI [of _ True] exI [of _ "s'\<lparr>now := now s' + wb_ping_unit (cvar s')\<rparr>"]) simp
  next
    case False
    then have "ping_tick s = Some (None, s)" using ping_tick_runs(1) [OF 0] by simp
    with False show ?thesis by (intro exI [of _ False] exI [of _ s]) simp
  qed
next
  case (Suc n)
  have u: "0 < wb_ping_unit (cvar s)" using Suc.prems by (simp add: keepalive_ok_def)
  show ?case
  proof (cases "now s \<le> last_query s + wb_ping_count_is_over (cvar s) * wb_ping_unit (cvar s)")
    case True
    with ping_tick_runs(2) [OF Suc.prems] obtain p s1 where 1: "ping_tick s = Some (Some p, s1)" "alike s s1" by blast
    let ?s2 = "s1\<lparr>now := now s1 + wb_ping_unit (cvar s1)\<rparr>"
    have "keepalive_ok ?s2" using alike_ok [OF 1(2) Suc.prems] by (rule keepalive_later)
    from Suc.IH [OF this] obtain alive s' where r: "ping_run (Suc n) ?s2 = Some (alive, s')"
      "alive \<longleftrightarrow> now ?s2 + int n * wb_ping_unit (cvar ?s2) \<le> last_query ?s2 + wb_ping_count_is_over (cvar ?s2) * wb_ping_unit (cvar ?s2)" by blast
    have eq: "now ?s2 + int n * wb_ping_unit (cvar ?s2) = now s + int (Suc n) * wb_ping_unit (cvar s)"
      "last_query ?s2 + wb_ping_count_is_over (cvar ?s2) * wb_ping_unit (cvar ?s2) = last_query s + wb_ping_count_is_over (cvar s) * wb_ping_unit (cvar s)"
      using 1(2) by (simp_all add: alike_def algebra_simps)
    have "ping_run (Suc (Suc n)) s = Some (alive, s')" using 1(1) r(1) by (subst ping_run.simps) simp
    with r(2) show ?thesis unfolding eq by blast
  next
    case False
    then have "ping_tick s = Some (None, s)" using ping_tick_runs(1) [OF Suc.prems] by simp
    moreover have "0 \<le> int (Suc n) * wb_ping_unit (cvar s)" using u by simp
    ultimately show ?thesis using False by auto
  qed
qed

lemma demo_keepalive:
  "keepalive_ok demo_session" "last_query demo_session = 1000" "wb_ping_unit (cvar demo_session) = 5"
  "wb_ping_count_is_over (cvar demo_session) = 48" "wb_ping_count_is_afk (cvar demo_session) = 12"
  "ol_last_status_change (online demo_session) = 1000"
  by (simp_all add: keepalive_ok_def ping_seconds_def demo_session_def session_init_def zero_session_def Let_def friend_list_init_def
      clanmate_list_init_def)

theorem silent_server_noticed_witness:
  "\<exists>s'. ping_run (Suc 49) demo_session = Some (False, s')"
  using silent_server_noticed [OF demo_keepalive(1), of 49] by (auto simp: demo_keepalive demo_session_simps simp del: ping_run.simps)

text \<open>C15: a session that is away tells the server, its friends and its clan mates so again in every pass: the
  test for the flag \<open>STATUS_AFK\<close> is an exclusive or, true for every status with another flag, and setting the same
  status leaves the time of the last change alone, so that the condition holds in the next pass as well.\<close>

theorem away_is_repeated:
  assumes "keepalive_ok s" "wb_auto_afk (cvar s)" "ol_status (online s) OR STATUS_AFK = ol_status (online s)" "ol_status (online s) \<noteq> STATUS_AFK"
    and "ol_last_status_change (online s) + wb_ping_count_is_afk (cvar s) * wb_ping_unit (cvar s) < now s"
    and "now s \<le> last_query s + wb_ping_count_is_over (cvar s) * wb_ping_unit (cvar s)"
  shows "\<exists>p s' es m fs cs. ping_tick s = Some (Some p, s') \<and> pr_friends (profile s) = Some fs \<and> cl_mates (profile s) = Some cs
     \<and> trace s' = trace s @ es @ m # map (friend_message s') (filter (\<lambda>f. fr_jid f \<noteq> None) fs)
                          @ map (clanmate_message s') (filter (\<lambda>c. cm_jid c \<noteq> None) cs)
     \<and> ol_status (online s') = ol_status (online s) \<and> ol_last_status_change (online s') = ol_last_status_change (online s)
     \<and> keepalive_ok s' \<and> cvar s' = cvar s \<and> now s' = now s \<and> last_query s' = last_query s"
proof -
  obtain p es s' where 1: "ping_tick s = Some (Some p, s')" "ping_status (add_trace es s) = Some s'" "alike s s'"
    using ping_tick_runs(2) [OF assms(1,6)] by blast
  obtain afk where "ping_seconds (wb_ping_count_is_afk (cvar s)) s = Some afk" using assms(1) by (auto simp: keepalive_ok_def)
  moreover from this have "ol_last_status_change (online s) + afk < now s" using ping_seconds_value assms(5) by blast
  moreover have "ol_status (online s) XOR STATUS_AFK \<noteq> 0"
  proof
    assume "ol_status (online s) XOR STATUS_AFK = 0"
    then have "(ol_status (online s) XOR STATUS_AFK) XOR STATUS_AFK = STATUS_AFK" by simp
    with assms(4) show False by (simp add: xor.assoc)
  qed
  ultimately have "status_set (ol_status (online s)) (add_trace es s) = Some s'"
    using 1(2) assms(2,3) by (simp add: ping_status_def ping_seconds_def)
  from status_set_effect [OF this] obtain fs cs m where
    "pr_friends (profile s) = Some fs \<and> cl_mates (profile s) = Some cs
     \<and> trace s' = trace s @ es @ m # map (friend_message s') (filter (\<lambda>f. fr_jid f \<noteq> None) fs)
                          @ map (clanmate_message s') (filter (\<lambda>c. cm_jid c \<noteq> None) cs)
     \<and> ol_status (online s') = ol_status (online s) \<and> ol_last_status_change (online s') = ol_last_status_change (online s)"
    by auto
  with 1(1) alike_ok [OF 1(3) assms(1)] 1(3) show ?thesis unfolding alike_def by blast
qed

definition away_session :: "nat session" where
  "away_session = demo_session\<lparr>online := (online demo_session)\<lparr>ol_status := 13\<rparr>, cvar := (cvar demo_session)\<lparr>wb_auto_afk := True\<rparr>, now := 1100\<rparr>"

theorem away_is_repeated_witness:
  "\<exists>p s' es m. ping_tick away_session = Some (Some p, s')
     \<and> trace s' = es @ [m, friend_message s' \<lparr>fr_jid = Some ''ann@warface/GameClient'', fr_nickname = ''ann'', fr_profile_id = ''1'',
          fr_status = 9, fr_experience = 0\<rparr>]
     \<and> ol_last_status_change (online s') = 1000"
proof -
  have k: "keepalive_ok away_session"
    using demo_keepalive(1) by (simp add: away_session_def keepalive_ok_def ping_seconds_def)
  have f: "(13 :: u32) OR STATUS_AFK = 13" "(13 :: u32) \<noteq> STATUS_AFK" by (simp_all add: STATUS_AFK_def)
  have "\<exists>p s' es m fs cs. ping_tick away_session = Some (Some p, s') \<and> pr_friends (profile away_session) = Some fs \<and> cl_mates (profile away_session) = Some cs
     \<and> trace s' = trace away_session @ es @ m # map (friend_message s') (filter (\<lambda>f. fr_jid f \<noteq> None) fs)
                          @ map (clanmate_message s') (filter (\<lambda>c. cm_jid c \<noteq> None) cs)
     \<and> ol_status (online s') = ol_status (online away_session) \<and> ol_last_status_change (online s') = ol_last_status_change (online away_session)
     \<and> keepalive_ok s' \<and> cvar s' = cvar away_session \<and> now s' = now away_session \<and> last_query s' = last_query away_session"
    by (rule away_is_repeated [OF k]) (simp_all add: away_session_def f demo_keepalive)
  then obtain p s' es m fs cs where r: "ping_tick away_session = Some (Some p, s')" "pr_friends (profile away_session) = Some fs"
    "cl_mates (profile away_session) = Some cs" "ol_last_status_change (online s') = ol_last_status_change (online away_session)"
    "trace s' = trace away_session @ es @ m # map (friend_message s') (filter (\<lambda>f. fr_jid f \<noteq> None) fs)
        @ map (clanmate_message s') (filter (\<lambda>c. cm_jid c \<noteq> None) cs)" by blast
  have a: "pr_friends (profile away_session) = pr_friends (profile demo_session)" "cl_mates (profile away_session) = Some []"
    "trace away_session = []" "ol_last_status_change (online away_session) = 1000"
    by (simp_all add: away_session_def demo_session_simps demo_keepalive)
  have "trace s' = es @ [m, friend_message s' \<lparr>fr_jid = Some ''ann@warface/GameClient'', fr_nickname = ''ann'', fr_profile_id = ''1'',
          fr_status = 9, fr_experience = 0\<rparr>]"
    using r(2,3,5) unfolding a demo_session_simps by auto
  with r(1,4) a(4) show ?thesis by auto
qed

end
