(* ===== verification/PlayerInfo.thy ===== *)
theory PlayerInfo
  imports Keepalive
begin

text \<open>
  Questions about players and rooms: who is online (\<open>xmpp_iq_profile_info_get_status.c\<close>), since when
  (\<open>xmpp_iq_get_last_seen_date.c\<close>), the details that the clients tell each other
  (\<open>xmpp_iq_peer_player_info.c\<close> of both directories), the rooms of a channel in batches
  (\<open>xmpp_iq_gameroom_get.c\<close>), and removing a player (\<open>xmpp_iq_gameroom_kick.c\<close>).

  The callbacks of these requests get what was read; \<open>run\<close> is what they do.
\<close>

subsection \<open>Who is online\<close>

definition xmpp_iq_profile_info_get_status :: "(nat \<Rightarrow> char) \<Rightarrow> cptr \<Rightarrow> 'u option \<Rightarrow> 'u session \<Rightarrow> 'u session crash" where
  "xmpp_iq_profile_info_get_status junk nickname f s =
     do {
       nick \<leftarrow> deref nickname;
       serialized \<leftarrow> xml_serialize_inplace junk nick;
       send_iq_get (JID_K01 s) (Some (CB_profile_status f))
         (k01_query (''<profile_info_get_status '' @ q ''nickname'' serialized @ ''/>'')) s
     }"

definition xmpp_iq_profile_info_get_status_cb ::
  "('u \<Rightarrow> cptr \<Rightarrow> 'u session \<Rightarrow> 'u session crash) \<Rightarrow> 'u option \<Rightarrow> cptr \<Rightarrow> xmpp_msg_type \<Rightarrow> 'u session \<Rightarrow> 'u session crash" where
  "xmpp_iq_profile_info_get_status_cb run f msg type s =
     do {
       info \<leftarrow> (if type = XMPP_TYPE_ERROR then Some None
               else do { m \<leftarrow> deref msg; Some (get_info m ''<info'' ''/>'') });
       (case f of None \<Rightarrow> Some s | Some u \<Rightarrow> run u info s)
     }"

definition xmpp_iq_get_last_seen_date :: "cptr \<Rightarrow> 'u option \<Rightarrow> 'u session \<Rightarrow> 'u session crash" where
  "xmpp_iq_get_last_seen_date profile_id f s =
     (case profile_id of
        None \<Rightarrow> Some s
      | Some pid \<Rightarrow>
          send_iq_get (JID_MS (ol_channel (online s)) s) (Some (CB_last_seen f))
            (k01_query ('' <get_last_seen_date '' @ q ''profile_id'' pid @ ''/>'')) s)"

text \<open>An error is not reported to the callback.\<close>

definition xmpp_iq_get_last_seen_date_cb ::
  "('u \<Rightarrow> cptr \<Rightarrow> u32 \<Rightarrow> 'u session \<Rightarrow> 'u session crash) \<Rightarrow> 'u option \<Rightarrow> cptr \<Rightarrow> xmpp_msg_type \<Rightarrow> 'u session \<Rightarrow> 'u session crash" where
  "xmpp_iq_get_last_seen_date_cb run f content type s =
     (if type = XMPP_TYPE_ERROR then Some s
      else (case content of
              None \<Rightarrow> Some s
            | Some data \<Rightarrow>
                (case f of
                   None \<Rightarrow> Some s
                 | Some u \<Rightarrow> run u (attr data ''profile_id'') (sync_uint data ''last_seen'') s)))"

subsection \<open>Details of a player\<close>

text \<open>\<open>leavings_percentage\<close> is a float; the whole number that is stored in it is kept.\<close>

record player_peer_info =
  pi_online_id :: cptr
  pi_nickname :: cptr
  pi_primary_weapon :: cptr
  pi_primary_weapon_skin :: cptr
  pi_banner_badge :: u32
  pi_banner_mark :: u32
  pi_banner_stripe :: u32
  pi_experience :: u32
  pi_pvp_rating_rank :: u32
  pi_items_unlocked :: u32
  pi_challenges_completed :: u32
  pi_missions_completed :: u32
  pi_pvp_wins :: u32
  pi_pvp_loses :: u32
  pi_pvp_total_matches :: u32
  pi_pvp_kills :: u32
  pi_pvp_deaths :: u32
  pi_playtime_seconds :: u32
  pi_leavings_percentage :: int
  pi_coop_climbs_performed :: u32
  pi_coop_assists_performed :: u32
  pi_favorite_pvp_class :: u32
  pi_favorite_pve_class :: u32
  pi_clan_name :: cptr
  pi_clan_role :: u32
  pi_clan_position :: u32
  pi_clan_points :: u32
  pi_clan_member_since :: cptr

definition xmpp_iq_peer_player_info :: "cptr \<Rightarrow> 'u option \<Rightarrow> 'u session \<Rightarrow> 'u session crash" where
  "xmpp_iq_peer_player_info online_id f s =
     send_iq_get (JID online_id) (Some (CB_peer_player_info f)) (k01_query ''<peer_player_info/>'') s"

definition read_peer_player_info :: "cstring \<Rightarrow> player_peer_info" where
  "read_peer_player_info msg =
     \<lparr>pi_online_id = attr msg ''online_id'', pi_nickname = attr msg ''nickname'', pi_primary_weapon = attr msg ''primary_weapon'',
      pi_primary_weapon_skin = attr msg ''primary_weapon_skin'', pi_banner_badge = sync_uint msg ''banner_badge'',
      pi_banner_mark = sync_uint msg ''banner_mark'', pi_banner_stripe = sync_uint msg ''banner_stripe'',
      pi_experience = sync_uint msg ''experience'', pi_pvp_rating_rank = sync_uint msg ''pvp_rating_rank'',
      pi_items_unlocked = sync_uint msg ''items_unlocked'', pi_challenges_completed = sync_uint msg ''challenges_completed'',
      pi_missions_completed = sync_uint msg ''missions_completed'', pi_pvp_wins = sync_uint msg ''pvp_wins'',
      pi_pvp_loses = sync_uint msg ''pvp_loses'', pi_pvp_total_matches = sync_uint msg ''pvp_total_matches'',
      pi_pvp_kills = sync_uint msg ''pvp_kills'', pi_pvp_deaths = sync_uint msg ''pvp_deaths'',
      pi_playtime_seconds = sync_uint msg ''playtime_seconds'', pi_leavings_percentage = sync_long msg ''leavings_percentage'',
      pi_coop_climbs_performed = sync_uint msg ''coop_climbs_performed'', pi_coop_assists_performed = sync_uint msg ''coop_assists_performed'',
      pi_favorite_pvp_class = sync_uint msg ''favorite_pvp_class'', pi_favorite_pve_class = sync_uint msg ''favorite_pve_class'',
      pi_clan_name = attr msg ''clan_name'', pi_clan_role = sync_uint msg ''clan_role'', pi_clan_position = sync_uint msg ''clan_position'',
      pi_clan_points = sync_uint msg ''clan_points'', pi_clan_member_since = attr msg ''clan_member_since''\<rparr>"

definition xmpp_iq_peer_player_info_cb ::
  "('u \<Rightarrow> player_peer_info option \<Rightarrow> 'u session \<Rightarrow> 'u session crash) \<Rightarrow> 'u option \<Rightarrow> cptr \<Rightarrow> xmpp_msg_type
     \<Rightarrow> 'u session \<Rightarrow> 'u session crash" where
  "xmpp_iq_peer_player_info_cb run f msg type s =
     do {
       ppi \<leftarrow> (if type = XMPP_TYPE_ERROR then Some None else do { m \<leftarrow> deref msg; Some (Some (read_peer_player_info m)) });
       (case f of None \<Rightarrow> Some s | Some u \<Rightarrow> run u ppi s)
     }"

text \<open>The answer to the question of another client; \<open>print_f\<close> prints the percentage of matches left with \<open>%f\<close>.\<close>

definition clan_stats :: "profile_info \<Rightarrow> cstring" where
  "clan_stats p =
     (if cl_id p \<noteq> 0
      then ''    '' @ q ''clan_name'' (show_ptr (cl_name p)) @ '' '' @ q ''clan_role'' (fmt_d (cl_role p))
        @ ''    '' @ q ''clan_position'' (fmt_d (cl_own_position p)) @ '' '' @ q ''clan_points'' (fmt_d (cl_points p))
        @ ''    '' @ q ''clan_member_since'' (nat_hex (unat (cl_joined p)))
      else [])"

definition own_player_info :: "(u32 \<times> u32 \<Rightarrow> cstring) \<Rightarrow> 'u session \<Rightarrow> cstring" where
  "own_player_info print_f s =
     (let p = profile s; t = pr_stats p
      in '' <peer_player_info '' @ q ''online_id'' (show_ptr (own_jid s)) @ '' '' @ q ''nickname'' (show_ptr (pr_nickname p))
        @ ''   '' @ q ''pvp_rating_rank'' (fmt_u (st_rating_points t))
        @ ''   '' @ q ''primary_weapon'' (show_ptr (pr_primary_weapon p))
        @ ''   '' @ q ''primary_weapon_skin'' []
        @ ''   '' @ q ''banner_badge'' (fmt_u (pr_banner_badge p)) @ '' '' @ q ''banner_mark'' (fmt_u (pr_banner_mark p))
        @ ''   '' @ q ''banner_stripe'' (fmt_u (pr_banner_stripe p)) @ '' '' @ q ''experience'' (fmt_u (pr_experience p))
        @ ''   '' @ q ''items_unlocked'' (fmt_u (st_items_unlocked t))
        @ ''   '' @ q ''challenges_completed'' (fmt_u (st_challenges_completed t))
        @ ''   '' @ q ''missions_completed'' (fmt_u (st_missions_completed t))
        @ ''   '' @ q ''pvp_wins'' (fmt_u (st_pvp_wins t)) @ '' '' @ q ''pvp_loses'' (fmt_u (st_pvp_loses t))
        @ '' '' @ q ''pvp_total_matches'' (fmt_u (st_pvp_wins t + st_pvp_loses t))
        @ ''   '' @ q ''pvp_kills'' (fmt_u (st_pvp_kills t)) @ '' '' @ q ''pvp_deaths'' (fmt_u (st_pvp_deaths t))
        @ ''   '' @ q ''playtime_seconds'' (fmt_u (st_playtime_seconds t))
        @ ''   '' @ q ''leavings_percentage'' (print_f (st_leavings t))
        @ ''   '' @ q ''coop_climbs_performed'' (fmt_u (st_coop_climbs t))
        @ ''   '' @ q ''coop_assists_performed'' (fmt_u (st_coop_assists t))
        @ ''   '' @ q ''favorite_pvp_class'' (fmt_u (st_pvp_favorite t)) @ '' '' @ q ''favorite_pve_class'' (fmt_u (st_pve_favorite t))
        @ ''   '' @ clan_stats p @ '' />'')"

definition xmpp_iq_peer_player_info_handler :: "(u32 \<times> u32 \<Rightarrow> cstring) \<Rightarrow> cptr \<Rightarrow> cstring \<Rightarrow> 'u session \<Rightarrow> 'u session crash" where
  "xmpp_iq_peer_player_info_handler print_f msg_id msg s =
     send_iq_result (JID (attr msg ''from'')) msg_id (k01_query (own_player_info print_f s)) s"

subsection \<open>Removing a player from the room\<close>

text \<open>The callback is registered twice: under an identifier that is never sent, and by \<open>xmpp_send_iq_get\<close>.\<close>

definition xmpp_iq_gameroom_kick :: "u32 \<Rightarrow> 'u id_callback option \<Rightarrow> 'u session \<Rightarrow> 'u session crash" where
  "xmpp_iq_gameroom_kick profile_id cb s =
     (let s1 = emit (Register_only cb) s
      in send_iq_get (JID_MS (ol_channel (online s1)) s1) cb
           (k01_query ('' <gameroom_kick '' @ q ''target_id'' (fmt_u profile_id) @ ''/>'')) s1)"

subsection \<open>The rooms of a channel\<close>

definition GAMEROOM_GET_BATCH_SIZE :: u32 where "GAMEROOM_GET_BATCH_SIZE = 100"

definition xmpp_iq_gameroom_get :: "cptr \<Rightarrow> u32 \<Rightarrow> 'u option \<Rightarrow> 'u session \<Rightarrow> 'u session crash" where
  "xmpp_iq_gameroom_get channel type cb s =
     (case channel of
        None \<Rightarrow> Some s
      | Some ch \<Rightarrow>
          send_iq_get (JID_MS (Some ch) s) (Some (CB_gameroom_get [] type ch cb))
            (k01_query ('' <gameroom_get '' @ q ''token'' ''0'' @ '' '' @ q ''received'' ''0''
              @ ''               '' @ q ''size'' (fmt_u GAMEROOM_GET_BATCH_SIZE) @ '' '' @ q ''room_type'' (fmt_u type) @ ''/>'')) s)"

definition room_elem :: "(cstring \<Rightarrow> u32) \<Rightarrow> cstring \<Rightarrow> gameroom list \<Rightarrow> gameroom list crash" where
  "room_elem strtof m got =
     do {
       grs \<leftarrow> deref (get_info m ''<game_room'' ''</game_room>'');
       (gr, ret) \<leftarrow> gameroom_parse strtof False gameroom_init grs;
       Some (gr # got)
     }"

definition gameroom_get_more :: "int \<Rightarrow> nat \<Rightarrow> u32 \<Rightarrow> cstring" where
  "gameroom_get_more token received type =
     k01_query (''<gameroom_get '' @ q ''token'' (int_dec token) @ '' '' @ q ''received'' (fmt_u (of_nat received))
       @ ''              '' @ q ''size'' (fmt_u GAMEROOM_GET_BATCH_SIZE) @ '' '' @ q ''room_type'' (fmt_u type) @ ''/>'')"

definition xmpp_iq_gameroom_get_cb ::
  "(cstring \<Rightarrow> u32) \<Rightarrow> ('u \<Rightarrow> gameroom list option \<Rightarrow> 'u session \<Rightarrow> 'u session crash) \<Rightarrow> gameroom list \<Rightarrow> u32 \<Rightarrow> cstring \<Rightarrow> 'u option
     \<Rightarrow> cptr \<Rightarrow> cptr \<Rightarrow> xmpp_msg_type \<Rightarrow> 'u session \<Rightarrow> 'u session crash" where
  "xmpp_iq_gameroom_get_cb strtof run room_list type channel cb msg content mtype s =
     (let call = (\<lambda>l s. case cb of None \<Rightarrow> Some s | Some u \<Rightarrow> run u l s)
      in if mtype = XMPP_TYPE_ERROR then do { m \<leftarrow> deref msg; call None s }
         else (case content of
                 None \<Rightarrow> call None s
               | Some data \<Rightarrow>
                   do {
                     l \<leftarrow> each_elem ''<game_room '' (room_elem strtof) data room_list;
                     if 0 < attr_int data ''left''
                     then send_iq_get (JID_MS (Some channel) s) (Some (CB_gameroom_get l type channel cb))
                            (gameroom_get_more (attr_int data ''token'') (length l) type) s
                     else call (Some l) s
                   }))"

subsection \<open>Batches\<close>

text \<open>The callback that waits for the answer to the last request, and answers that arrive one after the other.\<close>

definition waiting :: "'u session \<Rightarrow> 'u id_callback option" where
  "waiting s = (case rev (trace s) of Send_iq t ty cb i x # es \<Rightarrow> cb | _ \<Rightarrow> None)"

fun answer_all ::
  "(cstring \<Rightarrow> u32) \<Rightarrow> ('u \<Rightarrow> gameroom list option \<Rightarrow> 'u session \<Rightarrow> 'u session crash) \<Rightarrow> cstring list \<Rightarrow> 'u session \<Rightarrow> 'u session crash" where
  "answer_all strtof run [] s = Some s"
| "answer_all strtof run (d # ds) s =
     (case waiting s of
        Some (CB_gameroom_get l type channel cb) \<Rightarrow>
          do { s' \<leftarrow> xmpp_iq_gameroom_get_cb strtof run l type channel cb (Some []) (Some d) XMPP_TYPE_RESULT s; answer_all strtof run ds s' }
      | _ \<Rightarrow> Some s)"

fun more_requests :: "jid \<Rightarrow> u32 \<Rightarrow> cstring \<Rightarrow> 'u \<Rightarrow> gameroom list \<Rightarrow> cstring list \<Rightarrow> gameroom list list \<Rightarrow> 'u effect list" where
  "more_requests t type ch u l (d # ds) (b # bs) =
     Send_iq t XMPP_TYPE_GET (Some (CB_gameroom_get (b @ l) type ch (Some u))) None
       (gameroom_get_more (attr_int d ''token'') (length (b @ l)) type)
     # more_requests t type ch u (b @ l) ds bs"
| "more_requests t type ch u l ds bs = []"

lemma room_elem_adds: "room_elem strtof m l = map_option (\<lambda>b. b @ l) (room_elem strtof m [])"
  by (auto simp: room_elem_def bind_eq_Some_conv map_option_case split: option.splits prod.splits Option.bind_split)

lemma rooms_added:
  assumes "each_elem ''<game_room '' (room_elem strtof) m l0 = Some b"
  shows "each_elem ''<game_room '' (room_elem strtof) m (l0 @ l) = Some (b @ l)"
  using assms
proof (induction "length m" arbitrary: m l0 rule: less_induct)
  case less
  show ?case
  proof (cases "strstr m ''<game_room ''")
    case None
    with less.prems show ?thesis by (simp add: each_elem_stop)
  next
    case (Some el)
    then have el: "el \<noteq> []" using strstr_result_starts by fastforce
    with less.prems obtain l1 where l1: "room_elem strtof el l0 = Some l1" "each_elem ''<game_room '' (room_elem strtof) (tl el) l1 = Some b"
      by (auto simp: each_elem_next [OF Some] bind_eq_Some_conv)
    then obtain b1 where b1: "room_elem strtof el [] = Some b1" "l1 = b1 @ l0" by (subst (asm) room_elem_adds) auto
    have "length (tl el) < length m" using strstr_length [OF Some] el by (cases el) auto
    from less.hyps [OF this l1(2)] b1 show ?thesis
      by (simp add: each_elem_next [OF Some el] room_elem_adds [of strtof el "l0 @ l"])
  qed
qed

lemma next_batch:
  assumes "each_elem ''<game_room '' (room_elem strtof) d [] = Some b" "0 < attr_int d ''left''" "ol_jid_host (online s) \<noteq> None"
  shows "xmpp_iq_gameroom_get_cb strtof run l type ch (Some u) (Some []) (Some d) XMPP_TYPE_RESULT s
    = Some (add_trace [Send_iq (JID_MS (Some ch) s) XMPP_TYPE_GET (Some (CB_gameroom_get (b @ l) type ch (Some u))) None
        (gameroom_get_more (attr_int d ''token'') (length (b @ l)) type)] s)"
  using rooms_added [OF assms(1), of l] assms(2,3) by (simp add: xmpp_iq_gameroom_get_cb_def request_sent)

lemma batches_run:
  assumes "list_all2 (\<lambda>d b. each_elem ''<game_room '' (room_elem strtof) d [] = Some b) ds bs" "list_all (\<lambda>d. 0 < attr_int d ''left'') ds"
    and "each_elem ''<game_room '' (room_elem strtof) d [] = Some b" "attr_int d ''left'' \<le> 0"
    and "waiting s = Some (CB_gameroom_get l type ch (Some u))" "ol_jid_host (online s) \<noteq> None"
  shows "answer_all strtof run (ds @ [d]) s
    = run u (Some (b @ concat (rev bs) @ l)) (add_trace (more_requests (JID_MS (Some ch) s) type ch u l ds bs) s)"
  using assms(1,2,5,6)
proof (induction ds bs arbitrary: s l rule: list_all2_induct)
  case Nil
  then show ?case using rooms_added [OF assms(3), of l] assms(4) by (simp add: xmpp_iq_gameroom_get_cb_def) (simp split: Option.bind_split)
next
  case (Cons d1 ds b1 bs)
  let ?m = "Send_iq (JID_MS (Some ch) s) XMPP_TYPE_GET (Some (CB_gameroom_get (b1 @ l) type ch (Some u))) None
        (gameroom_get_more (attr_int d1 ''token'') (length (b1 @ l)) type)"
  have w: "waiting (add_trace [?m] s) = Some (CB_gameroom_get (b1 @ l) type ch (Some u))" by (simp add: waiting_def)
  have j: "JID_MS (Some ch) (add_trace [?m] s) = JID_MS (Some ch) s" by (simp add: JID_MS_def)
  have a: "answer_all strtof run (ds @ [d]) (add_trace [?m] s)
      = run u (Some (b @ concat (rev bs) @ b1 @ l)) (add_trace (more_requests (JID_MS (Some ch) s) type ch u (b1 @ l) ds bs) (add_trace [?m] s))"
    using Cons.IH [OF _ w] Cons.prems(1,3) unfolding j by simp
  have "answer_all strtof run ((d1 # ds) @ [d]) s = answer_all strtof run (ds @ [d]) (add_trace [?m] s)"
    using next_batch [OF Cons.hyps(1), of s run l type ch u] Cons.prems by simp
  with a show ?case by simp
qed

text \<open>C12: the rooms of a channel that the server sends in any number of batches reach the caller as one list: the callback
  is called once, after the last batch, with the rooms of all batches, and each request in between goes to the
  channel asked for, repeats the token of the answer before and says how many rooms have been received.\<close>

theorem rooms_in_batches:
  assumes "xmpp_iq_gameroom_get (Some ch) type (Some u) s = Some s0"
    and "list_all2 (\<lambda>d b. each_elem ''<game_room '' (room_elem strtof) d [] = Some b) (ds @ [d]) (bs @ [b])"
    and "list_all (\<lambda>d. 0 < attr_int d ''left'') ds" "attr_int d ''left'' \<le> 0"
  shows "answer_all strtof run (ds @ [d]) s0
    = run u (Some (b @ concat (rev bs))) (add_trace (more_requests (JID_MS (Some ch) s) type ch u [] ds bs) s0)"
proof -
  have s0: "ol_jid_host (online s) \<noteq> None" "\<exists>x. s0 = add_trace [Send_iq (JID_MS (Some ch) s) XMPP_TYPE_GET (Some (CB_gameroom_get [] type ch (Some u))) None x] s"
    using assms(1) by (auto simp: xmpp_iq_gameroom_get_def send_iq_get_Some)
  then have w: "waiting s0 = Some (CB_gameroom_get [] type ch (Some u))" "ol_jid_host (online s0) \<noteq> None" "JID_MS (Some ch) s0 = JID_MS (Some ch) s"
    by (auto simp: waiting_def JID_MS_def)
  have l: "list_all2 (\<lambda>d b. each_elem ''<game_room '' (room_elem strtof) d [] = Some b) ds bs" "each_elem ''<game_room '' (room_elem strtof) d [] = Some b"
    using assms(2) list_all2_lengthD [OF assms(2)] by (simp_all add: list_all2_append)
  from batches_run [OF l(1) assms(3) l(2) assms(4) w(1,2)] w(3) show ?thesis by simp
qed

definition first_batch :: cstring where
  "first_batch = ''<gameroom_get'' @ render_attrs [(''left'', ''1''), (''token'', ''5'')] @ ''><game_room''
     @ render_attrs [(''room_id'', ''a''), (''room_type'', ''8'')] @ ''></game_room></gameroom_get>''"

definition report :: "nat \<Rightarrow> gameroom list option \<Rightarrow> nat session \<Rightarrow> nat session crash" where
  "report u l s = do { rs \<leftarrow> deref l; Some (emit (Call_result u (int (length rs))) s) }"

theorem rooms_in_batches_witness:
  "\<exists>s0 s'. xmpp_iq_gameroom_get (Some ''pvp_1'') 8 (Some 3) demo_session = Some s0
     \<and> answer_all (\<lambda>_. 0) report [first_batch, ''<gameroom_get/>''] s0 = Some s' \<and> last (trace s') = Call_result 3 1"
proof -
  have "map_option length (each_elem ''<game_room '' (room_elem (\<lambda>_. 0)) first_batch []) = Some 1" by code_simp
  then obtain b where b: "each_elem ''<game_room '' (room_elem (\<lambda>_. 0)) first_batch [] = Some b" "length b = 1" by auto
  have e: "each_elem ''<game_room '' (room_elem (\<lambda>_. 0)) ''<gameroom_get/>'' [] = Some []" by (rule each_elem_stop) code_simp
  have l: "list_all (\<lambda>d. 0 < attr_int d ''left'') [first_batch]" "attr_int ''<gameroom_get/>'' ''left'' \<le> 0" by code_simp+
  have j: "ol_jid_host (online demo_session) \<noteq> None" by (simp add: demo_session_simps)
  obtain s0 where s0: "xmpp_iq_gameroom_get (Some ''pvp_1'') 8 (Some 3) demo_session = Some s0"
    using j by (auto simp: xmpp_iq_gameroom_get_def request_sent)
  have "list_all2 (\<lambda>d b. each_elem ''<game_room '' (room_elem (\<lambda>_. 0)) d [] = Some b) ([first_batch] @ [''<gameroom_get/>'']) ([b] @ [[]])"
    using b(1) e by simp
  from rooms_in_batches [OF s0 this l, of report] b(2) s0 show ?thesis by (simp add: report_def)
qed

subsection \<open>What one client tells another\<close>

text \<open>A text of attributes with anything in front of their names.\<close>

definition pieces :: "(cstring \<times> cstring) list \<Rightarrow> cstring" where
  "pieces kvs = concat (map (\<lambda>kv. fst kv @ ''='' @ [apos] @ snd kv @ [apos]) kvs)"

lemma pieces_simps: "pieces [] = []" "pieces ((k, v) # kvs) = q k v @ pieces kvs"
  by (simp_all add: pieces_def q_def)

lemma piece_blank: "render_attr kv = CHR '' '' # fst kv @ ''='' @ [apos] @ snd kv @ [apos]"
  by (simp add: render_attr_def)

lemma strstr_blank: "p \<noteq> [] \<Longrightarrow> hd p \<noteq> CHR '' '' \<Longrightarrow> strstr (CHR '' '' # s) p = strstr s p"
  by (cases p) auto

lemma pieces_attr:
  assumes "list_all attr_ok kvs" "name_ok n" "n \<noteq> []" "hd n \<noteq> CHR '' ''" "lookup_attr n kvs = Some v"
  shows "\<exists>w. strstr (pieces kvs @ r) (n @ ''='' @ [apos]) = Some ((n @ ''='' @ [apos]) @ v @ apos # w)"
  using assms(1,5)
proof (induction kvs)
  case Nil
  then show ?case by simp
next
  case (Cons kv kvs)
  have b: "strstr (render_attr kv @ pieces kvs @ r) (n @ ''='' @ [apos]) = strstr (pieces (kv # kvs) @ r) (n @ ''='' @ [apos])"
    using strstr_blank [of "n @ ''='' @ [apos]" "pieces (kv # kvs) @ r"] assms(3,4) by (cases n) (simp_all add: piece_blank pieces_def)
  show ?case
  proof (cases "attr_hit n kv")
    case True
    with strstr_attr_hit [OF _ assms(2) True, of "pieces kvs @ r"] Cons.prems b [symmetric]
    show ?thesis by (intro exI [of _ "pieces kvs @ r"]) simp
  next
    case False
    with Cons obtain w where "strstr (pieces kvs @ r) (n @ ''='' @ [apos]) = Some ((n @ ''='' @ [apos]) @ v @ apos # w)" by auto
    with strstr_attr_miss [OF _ assms(2) False, of "pieces kvs @ r"] Cons.prems b [symmetric]
    show ?thesis by (intro exI [of _ w]) simp
  qed
qed

lemma pieces_read:
  assumes "list_all attr_ok kvs" "name_ok n" "n \<noteq> []" "hd n \<noteq> CHR '' ''"
  shows "lookup_attr n kvs = Some v \<Longrightarrow> attr (pieces kvs @ r) n = Some v"
    and "lookup_attr n kvs = Some (int_dec i) \<Longrightarrow> - (2 ^ 63) \<le> i \<Longrightarrow> i < 2 ^ 63 \<Longrightarrow> sync_uint (pieces kvs @ r) n = c_uint i"
proof -
  show "attr (pieces kvs @ r) n = Some v" if l: "lookup_attr n kvs = Some v"
  proof -
    obtain w where "strstr (pieces kvs @ r) (n @ ''='' @ [apos]) = Some ((n @ ''='' @ [apos]) @ v @ apos # w)"
      using pieces_attr [OF assms l] by blast
    then show ?thesis unfolding attr_def by (rule get_info_quoted [OF lookup_value_ok [OF assms(1) l]])
  qed
  show "sync_uint (pieces kvs @ r) n = c_uint i" if l: "lookup_attr n kvs = Some (int_dec i)" and "- (2 ^ 63) \<le> i" "i < 2 ^ 63"
  proof -
    obtain w where "strstr (pieces kvs @ r) (n @ ''='' @ [apos]) = Some ((n @ ''='' @ [apos]) @ int_dec i @ apos # w)"
      using pieces_attr [OF assms l] by blast
    from get_info_int_printed [OF this that(2,3)] show ?thesis by (simp add: sync_uint_def sync_long_def)
  qed
qed

lemma pieces_absent:
  assumes "list_all attr_ok kvs" "name_ok n" "n \<noteq> []" "hd n \<noteq> CHR '' ''" "lookup_attr n kvs = None" "apos \<notin> set r"
  shows "strstr (pieces kvs @ r) (n @ ''='' @ [apos]) = None"
  using assms(1,5)
proof (induction kvs)
  case Nil
  have "strstr r (n @ ''='' @ [apos]) = None" using assms(6) by (auto simp: strstr_none_iff)
  then show ?case by (simp add: pieces_def)
next
  case (Cons kv kvs)
  then have miss: "\<not> attr_hit n kv" "strstr (pieces kvs @ r) (n @ ''='' @ [apos]) = None" by (auto split: if_splits)
  have "strstr (render_attr kv @ pieces kvs @ r) (n @ ''='' @ [apos]) = strstr (pieces (kv # kvs) @ r) (n @ ''='' @ [apos])"
    using strstr_blank [of "n @ ''='' @ [apos]" "pieces (kv # kvs) @ r"] assms(3,4) by (cases n) (simp_all add: piece_blank pieces_def)
  with strstr_attr_miss [OF _ assms(2) miss(1), of "pieces kvs @ r"] Cons.prems(1) miss(2) show ?case by simp
qed

lemma pieces_append: "pieces (xs @ ys) = pieces xs @ pieces ys"
  by (simp add: pieces_def)

text \<open>The stanza as the server delivers it, and the attributes of the answer.\<close>

definition delivered :: "cstring \<Rightarrow> cstring \<Rightarrow> cstring \<Rightarrow> cstring \<Rightarrow> cstring" where
  "delivered from_jid to_jid uid query =
     q ''<iq from'' from_jid @ q '' to'' to_jid @ q '' id'' uid @ q '' type'' ''result'' @ ''>'' @ query @ ''</iq>''"

definition delivered_head :: "cstring \<Rightarrow> cstring \<Rightarrow> cstring \<Rightarrow> (cstring \<times> cstring) list" where
  "delivered_head from_jid to_jid uid =
     [(''<iq from'', from_jid), ('' to'', to_jid), ('' id'', uid), ('' type'', ''result''), (''><query xmlns'', ''urn:cryonline:k01'')]"

definition clan_attrs :: "profile_info \<Rightarrow> (cstring \<times> cstring) list" where
  "clan_attrs p =
     [(''       clan_name'', show_ptr (cl_name p)), ('' clan_role'', int_dec (sint (cl_role p))), (''    clan_position'', int_dec (sint (cl_own_position p))),
      ('' clan_points'', int_dec (sint (cl_points p))), (''    clan_member_since'', nat_hex (unat (cl_joined p)))]"

definition info_attrs :: "cstring \<Rightarrow> 'u session \<Rightarrow> (cstring \<times> cstring) list" where
  "info_attrs leavings s =
     (let p = profile s; t = pr_stats p
      in [(''> <peer_player_info online_id'', show_ptr (own_jid s)), ('' nickname'', show_ptr (pr_nickname p)),
          (''   pvp_rating_rank'', int_dec (uint (st_rating_points t))), (''   primary_weapon'', show_ptr (pr_primary_weapon p)),
          (''   primary_weapon_skin'', []), (''   banner_badge'', int_dec (uint (pr_banner_badge p))),
          ('' banner_mark'', int_dec (uint (pr_banner_mark p))), (''   banner_stripe'', int_dec (uint (pr_banner_stripe p))),
          ('' experience'', int_dec (uint (pr_experience p))), (''   items_unlocked'', int_dec (uint (st_items_unlocked t))),
          (''   challenges_completed'', int_dec (uint (st_challenges_completed t))),
          (''   missions_completed'', int_dec (uint (st_missions_completed t))), (''   pvp_wins'', int_dec (uint (st_pvp_wins t))),
          ('' pvp_loses'', int_dec (uint (st_pvp_loses t))), ('' pvp_total_matches'', int_dec (uint (st_pvp_wins t + st_pvp_loses t))),
          (''   pvp_kills'', int_dec (uint (st_pvp_kills t))), ('' pvp_deaths'', int_dec (uint (st_pvp_deaths t))),
          (''   playtime_seconds'', int_dec (uint (st_playtime_seconds t))), (''   leavings_percentage'', leavings),
          (''   coop_climbs_performed'', int_dec (uint (st_coop_climbs t))), (''   coop_assists_performed'', int_dec (uint (st_coop_assists t))),
          (''   favorite_pvp_class'', int_dec (uint (st_pvp_favorite t))), ('' favorite_pve_class'', int_dec (uint (st_pve_favorite t)))])"

lemma delivered_pieces:
  "delivered f t u (k01_query (own_player_info print_f s))
     = pieces (delivered_head f t u @ info_attrs (print_f (st_leavings (pr_stats (profile s)))) s
         @ (if cl_id (profile s) \<noteq> 0 then clan_attrs (profile s) else []))
       @ (if cl_id (profile s) \<noteq> 0 then '' /></query></iq>'' else ''    /></query></iq>'')"
  by (simp add: delivered_def k01_query_def k01_open_def own_player_info_def clan_stats_def delivered_head_def info_attrs_def clan_attrs_def
      pieces_def Let_def q_def fmt_u_def fmt_d_def)

text \<open>What the other client gets to know.\<close>

definition told :: "int \<Rightarrow> 'u session \<Rightarrow> player_peer_info" where
  "told leavings s =
     (let p = profile s; t = pr_stats p; clan = (cl_id p \<noteq> 0)
      in \<lparr>pi_online_id = Some (show_ptr (own_jid s)), pi_nickname = Some (show_ptr (pr_nickname p)),
          pi_primary_weapon = Some (show_ptr (pr_primary_weapon p)), pi_primary_weapon_skin = Some [],
          pi_banner_badge = pr_banner_badge p, pi_banner_mark = pr_banner_mark p, pi_banner_stripe = pr_banner_stripe p,
          pi_experience = pr_experience p, pi_pvp_rating_rank = st_rating_points t, pi_items_unlocked = st_items_unlocked t,
          pi_challenges_completed = st_challenges_completed t, pi_missions_completed = st_missions_completed t,
          pi_pvp_wins = st_pvp_wins t, pi_pvp_loses = st_pvp_loses t, pi_pvp_total_matches = st_pvp_wins t + st_pvp_loses t,
          pi_pvp_kills = st_pvp_kills t, pi_pvp_deaths = st_pvp_deaths t, pi_playtime_seconds = st_playtime_seconds t,
          pi_leavings_percentage = leavings, pi_coop_climbs_performed = st_coop_climbs t,
          pi_coop_assists_performed = st_coop_assists t, pi_favorite_pvp_class = st_pvp_favorite t,
          pi_favorite_pve_class = st_pve_favorite t,
          pi_clan_name = (if clan then Some (show_ptr (cl_name p)) else None), pi_clan_role = (if clan then cl_role p else 0),
          pi_clan_position = (if clan then cl_own_position p else 0), pi_clan_points = (if clan then cl_points p else 0),
          pi_clan_member_since = (if clan then Some (nat_hex (unat (cl_joined p))) else None)\<rparr>)"


lemma attr_ok_hex: "apos \<notin> set (nat_hex n)" "CHR ''='' \<notin> set (nat_hex n)"
proof -
  have h: "hex_digit d \<noteq> apos \<and> hex_digit d \<noteq> CHR ''=''" if "d < 16" for d
  proof -
    have "list_all (\<lambda>d. hex_digit d \<noteq> apos \<and> hex_digit d \<noteq> CHR ''='') [0..<16]" by code_simp
    with that show ?thesis by (auto simp: list_all_iff)
  qed
  have "c \<noteq> apos \<and> c \<noteq> CHR ''=''" if "c \<in> set (nat_hex n)" for c
    using that
  proof (induction n rule: nat_hex.induct)
    case (1 n)
    then show ?case using h [of n] h [of "n mod 16"] by (subst (asm) (2) nat_hex.simps) (auto split: if_splits)
  qed
  then show "apos \<notin> set (nat_hex n)" "CHR ''='' \<notin> set (nat_hex n)" by blast+
qed

definition plain_text :: "cstring \<Rightarrow> bool" where
  "plain_text v \<longleftrightarrow> apos \<notin> set v \<and> CHR ''='' \<notin> set v"

lemma plain_texts:
  "plain_text (int_dec i)" "plain_text (nat_hex n)" "plain_text []"
  using int_dec_chars [of apos i] int_dec_chars [of "CHR ''=''" i] attr_ok_hex [of n] by (auto simp: plain_text_def isdigit_def)

lemma plain_text_ok: "plain_text k \<Longrightarrow> plain_text v \<Longrightarrow> attr_ok (k, v)"
  by (cases v rule: rev_cases) (auto simp: attr_ok_def plain_text_def)

lemma info_ok:
  assumes "list_all plain_text [f, t, u, leavings]"
    "list_all (\<lambda>p. plain_text (show_ptr p)) [own_jid s, pr_nickname (profile s), pr_primary_weapon (profile s), cl_name (profile s)]"
  shows "list_all attr_ok (delivered_head f t u @ info_attrs leavings s @ clan_attrs (profile s))"
    and "list_all attr_ok (delivered_head f t u @ info_attrs leavings s)"
proof -
  have h: "list_all attr_ok (delivered_head f t u)"
    unfolding delivered_head_def list.pred_inject using assms by (intro conjI plain_text_ok) (simp_all add: plain_text_def)
  have i: "list_all attr_ok (info_attrs leavings s)"
    unfolding info_attrs_def Let_def list.pred_inject using assms by (intro conjI plain_text_ok plain_texts) (simp_all add: plain_text_def)
  have c: "list_all attr_ok (clan_attrs (profile s))"
    unfolding clan_attrs_def list.pred_inject using assms by (intro conjI plain_text_ok plain_texts) (simp_all add: plain_text_def)
  from h i c show "list_all attr_ok (delivered_head f t u @ info_attrs leavings s @ clan_attrs (profile s))"
    "list_all attr_ok (delivered_head f t u @ info_attrs leavings s)" by simp_all
qed

lemma u32_round: "c_uint (uint w) = w" "c_uint (sint w) = w"
  by (simp_all add: c_uint_def)

lemma sint_bounds: "- (2 ^ 63) \<le> sint (w :: u32)" "sint (w :: u32) < 2 ^ 63"
  using sint_range_size [of w] by (simp_all add: word_size)

lemma leavings_read:
  assumes "list_all attr_ok kvs" "lookup_attr ''leavings_percentage'' kvs = Some (int_dec i @ CHR ''.'' # ds)" "- (2 ^ 63) \<le> i" "i < 2 ^ 63"
    "apos \<notin> set ds"
  shows "sync_long (pieces kvs @ r) ''leavings_percentage'' = i"
proof -
  obtain w where w: "strstr (pieces kvs @ r) (''leavings_percentage'' @ ''='' @ [apos])
      = Some ((''leavings_percentage'' @ ''='' @ [apos]) @ (int_dec i @ CHR ''.'' # ds) @ apos # w)"
    using pieces_attr [OF assms(1) _ _ _ assms(2)] by (auto simp: name_ok_def)
  have "apos \<notin> set (int_dec i @ CHR ''.'' # ds)" using assms(5) int_dec_chars [of apos i] by (auto simp: isdigit_def)
  from strstr_char [OF this, of w] have "strstr ((int_dec i @ CHR ''.'' # ds) @ apos # w) [apos] \<noteq> None" by simp
  moreover have "strtoll (int_dec i @ CHR ''.'' # ds @ apos # w) = i"
    using assms(3,4) by (intro strtoll_int_dec) (auto simp: isdigit_def)
  ultimately show ?thesis using w unfolding sync_long_def get_info_int_def by (auto simp: Let_def)
qed

lemmas info_lookups = delivered_head_def info_attrs_def clan_attrs_def Let_def attr_hit_def name_ok_def

text \<open>A number is read back; the fields that are written always, and those of the clan.\<close>

lemma number_read:
  assumes "list_all attr_ok kvs" "lookup_attr n kvs = Some (int_dec (uint (w :: u32))) \<or> lookup_attr n kvs = Some (int_dec (sint w))"
    and "name_ok n \<and> n \<noteq> [] \<and> hd n \<noteq> CHR '' ''"
  shows "sync_uint (pieces kvs @ r) n = w"
  using assms(2)
proof
  assume "lookup_attr n kvs = Some (int_dec (uint w))"
  from pieces_read(2) [OF assms(1) _ _ _ this u32_bounds, of r] assms(3) show ?thesis by (simp add: u32_round)
next
  assume "lookup_attr n kvs = Some (int_dec (sint w))"
  from pieces_read(2) [OF assms(1) _ _ _ this sint_bounds, of r] assms(3) show ?thesis by (simp add: u32_round)
qed

lemma text_read:
  assumes "list_all attr_ok kvs" "lookup_attr n kvs = Some v" "name_ok n \<and> n \<noteq> [] \<and> hd n \<noteq> CHR '' ''"
  shows "attr (pieces kvs @ r) n = Some v"
  using pieces_read(1) [OF assms(1) _ _ _ assms(2)] assms(3) by blast

lemma info_read:
  assumes "list_all attr_ok (delivered_head f t u @ info_attrs leavings s @ c)"
  shows
    "attr (pieces (delivered_head f t u @ info_attrs leavings s @ c) @ r) ''online_id'' = Some (show_ptr (own_jid s))"
    "attr (pieces (delivered_head f t u @ info_attrs leavings s @ c) @ r) ''nickname'' = Some (show_ptr (pr_nickname (profile s)))"
    "attr (pieces (delivered_head f t u @ info_attrs leavings s @ c) @ r) ''primary_weapon'' = Some (show_ptr (pr_primary_weapon (profile s)))"
    "attr (pieces (delivered_head f t u @ info_attrs leavings s @ c) @ r) ''primary_weapon_skin'' = Some ([])"
    "sync_uint (pieces (delivered_head f t u @ info_attrs leavings s @ c) @ r) ''pvp_rating_rank'' = st_rating_points (pr_stats (profile s))"
    "sync_uint (pieces (delivered_head f t u @ info_attrs leavings s @ c) @ r) ''banner_badge'' = pr_banner_badge (profile s)"
    "sync_uint (pieces (delivered_head f t u @ info_attrs leavings s @ c) @ r) ''banner_mark'' = pr_banner_mark (profile s)"
    "sync_uint (pieces (delivered_head f t u @ info_attrs leavings s @ c) @ r) ''banner_stripe'' = pr_banner_stripe (profile s)"
    "sync_uint (pieces (delivered_head f t u @ info_attrs leavings s @ c) @ r) ''experience'' = pr_experience (profile s)"
    "sync_uint (pieces (delivered_head f t u @ info_attrs leavings s @ c) @ r) ''items_unlocked'' = st_items_unlocked (pr_stats (profile s))"
    "sync_uint (pieces (delivered_head f t u @ info_attrs leavings s @ c) @ r) ''challenges_completed'' = st_challenges_completed (pr_stats (profile s))"
    "sync_uint (pieces (delivered_head f t u @ info_attrs leavings s @ c) @ r) ''missions_completed'' = st_missions_completed (pr_stats (profile s))"
    "sync_uint (pieces (delivered_head f t u @ info_attrs leavings s @ c) @ r) ''pvp_wins'' = st_pvp_wins (pr_stats (profile s))"
    "sync_uint (pieces (delivered_head f t u @ info_attrs leavings s @ c) @ r) ''pvp_loses'' = st_pvp_loses (pr_stats (profile s))"
    "sync_uint (pieces (delivered_head f t u @ info_attrs leavings s @ c) @ r) ''pvp_total_matches'' = st_pvp_wins (pr_stats (profile s)) + st_pvp_loses (pr_stats (profile s))"
    "sync_uint (pieces (delivered_head f t u @ info_attrs leavings s @ c) @ r) ''pvp_kills'' = st_pvp_kills (pr_stats (profile s))"
    "sync_uint (pieces (delivered_head f t u @ info_attrs leavings s @ c) @ r) ''pvp_deaths'' = st_pvp_deaths (pr_stats (profile s))"
    "sync_uint (pieces (delivered_head f t u @ info_attrs leavings s @ c) @ r) ''playtime_seconds'' = st_playtime_seconds (pr_stats (profile s))"
    "sync_uint (pieces (delivered_head f t u @ info_attrs leavings s @ c) @ r) ''coop_climbs_performed'' = st_coop_climbs (pr_stats (profile s))"
    "sync_uint (pieces (delivered_head f t u @ info_attrs leavings s @ c) @ r) ''coop_assists_performed'' = st_coop_assists (pr_stats (profile s))"
    "sync_uint (pieces (delivered_head f t u @ info_attrs leavings s @ c) @ r) ''favorite_pvp_class'' = st_pvp_favorite (pr_stats (profile s))"
    "sync_uint (pieces (delivered_head f t u @ info_attrs leavings s @ c) @ r) ''favorite_pve_class'' = st_pve_favorite (pr_stats (profile s))"
  by (rule text_read [OF assms] number_read [OF assms]; simp add: info_lookups)+

lemma clan_read:
  assumes "list_all attr_ok (delivered_head f t u @ info_attrs leavings s @ clan_attrs (profile s))"
  shows
    "attr (pieces (delivered_head f t u @ info_attrs leavings s @ clan_attrs (profile s)) @ r) ''clan_name'' = Some (show_ptr (cl_name (profile s)))"
    "attr (pieces (delivered_head f t u @ info_attrs leavings s @ clan_attrs (profile s)) @ r) ''clan_member_since'' = Some (nat_hex (unat (cl_joined (profile s))))"
    "sync_uint (pieces (delivered_head f t u @ info_attrs leavings s @ clan_attrs (profile s)) @ r) ''clan_role'' = cl_role (profile s)"
    "sync_uint (pieces (delivered_head f t u @ info_attrs leavings s @ clan_attrs (profile s)) @ r) ''clan_position'' = cl_own_position (profile s)"
    "sync_uint (pieces (delivered_head f t u @ info_attrs leavings s @ clan_attrs (profile s)) @ r) ''clan_points'' = cl_points (profile s)"
  by (rule text_read [OF assms] number_read [OF assms]; simp add: info_lookups)+

lemma no_clan_read:
  assumes "list_all attr_ok (delivered_head f t u @ info_attrs leavings s)" "apos \<notin> set r" "n \<in> {''clan_name'', ''clan_member_since'', ''clan_role'', ''clan_position'', ''clan_points''}"
  shows "attr (pieces (delivered_head f t u @ info_attrs leavings s) @ r) n = None" "sync_uint (pieces (delivered_head f t u @ info_attrs leavings s) @ r) n = 0"
proof -
  have "lookup_attr n (delivered_head f t u @ info_attrs leavings s) = None" using assms(3) by (elim insertE) (simp_all add: info_lookups)
  moreover have "name_ok n" "n \<noteq> []" "hd n \<noteq> CHR '' ''" using assms(3) by (auto simp: name_ok_def)
  ultimately have "strstr (pieces (delivered_head f t u @ info_attrs leavings s) @ r) (n @ ''='' @ [apos]) = None"
    using pieces_absent [OF assms(1)] assms(2) by blast
  then show "attr (pieces (delivered_head f t u @ info_attrs leavings s) @ r) n = None" "sync_uint (pieces (delivered_head f t u @ info_attrs leavings s) @ r) n = 0"
    by (simp_all add: attr_def get_info_def sync_uint_def sync_long_def get_info_int_def c_uint_def)
qed


lemma told_read:
  assumes "list_all plain_text [f, t, u, ds]" "print_f (st_leavings (pr_stats (profile s))) = int_dec i @ CHR ''.'' # ds"
    "- (2 ^ 63) \<le> i" "i < 2 ^ 63"
    "list_all (\<lambda>p. plain_text (show_ptr p)) [own_jid s, pr_nickname (profile s), pr_primary_weapon (profile s), cl_name (profile s)]"
  shows "read_peer_player_info (delivered f t u (k01_query (own_player_info print_f s))) = told i s"
proof -
  let ?l = "print_f (st_leavings (pr_stats (profile s)))"
  have "plain_text ?l" using assms(1) plain_texts(1) [of i] unfolding assms(2) by (simp add: plain_text_def)
  then have "list_all plain_text [f, t, u, ?l]" using assms(1) by simp
  note ok = info_ok [OF this assms(5)]
  have ds: "apos \<notin> set ds" using assms(1) by (simp add: plain_text_def)
  have l: "lookup_attr ''leavings_percentage'' (delivered_head f t u @ info_attrs ?l s @ c) = Some (int_dec i @ CHR ''.'' # ds)" for c
    by (simp add: info_lookups assms(2))
  show ?thesis
  proof (cases "cl_id (profile s) = 0")
    case True
    have ok': "list_all attr_ok (delivered_head f t u @ info_attrs ?l s @ [])" using ok(2) by simp
    note n = no_clan_read [OF ok(2), of "''    /></query></iq>''"]
    show ?thesis
      unfolding delivered_pieces read_peer_player_info_def told_def Let_def
      using info_read [OF ok', of "''    /></query></iq>''"] leavings_read [OF ok' l assms(3,4) ds, of "''    /></query></iq>''"] n True
      by simp
  next
    case False
    show ?thesis
      unfolding delivered_pieces read_peer_player_info_def told_def Let_def
      using info_read [OF ok(1), of "'' /></query></iq>''"] leavings_read [OF ok(1) l assms(3,4) ds, of "'' /></query></iq>''"]
        clan_read [OF ok(1), of "'' /></query></iq>''"] False
      by simp
  qed
qed

text \<open>C13: what a client answers to the question for its details is what the asking client reads, number for number, when the
  names have no quotes and no equals signs: with clan data exactly when the answering player is in a clan.  Only
  the percentage of matches left arrives without its fraction.\<close>

theorem peer_info_exchanged:
  assumes "xmpp_iq_peer_player_info_handler print_f (Some u) question s = Some s'" "attr question ''from'' = Some asker"
    and "list_all plain_text [f, t, u, ds]" "print_f (st_leavings (pr_stats (profile s))) = int_dec i @ CHR ''.'' # ds"
    and "- (2 ^ 63) \<le> i" "i < 2 ^ 63"
    and "list_all (\<lambda>p. plain_text (show_ptr p)) [own_jid s, pr_nickname (profile s), pr_primary_weapon (profile s), cl_name (profile s)]"
  shows "\<exists>x. s' = add_trace [Send_iq (JID (Some asker)) XMPP_TYPE_RESULT None (Some u) x] s
    \<and> xmpp_iq_peer_player_info_cb run (Some cb) (Some (delivered f t u x)) XMPP_TYPE_RESULT s2 = run cb (Some (told i s)) s2"
proof (intro exI conjI)
  show "s' = add_trace [Send_iq (JID (Some asker)) XMPP_TYPE_RESULT None (Some u) (k01_query (own_player_info print_f s))] s"
    using assms(1,2) by (simp add: xmpp_iq_peer_player_info_handler_def send_iq_result_Some)
  show "xmpp_iq_peer_player_info_cb run (Some cb) (Some (delivered f t u (k01_query (own_player_info print_f s)))) XMPP_TYPE_RESULT s2
      = run cb (Some (told i s)) s2"
    using told_read [of f t u ds print_f s i, OF assms(3-7)] by (simp add: xmpp_iq_peer_player_info_cb_def)
qed

definition note_leavings :: "nat \<Rightarrow> player_peer_info option \<Rightarrow> nat session \<Rightarrow> nat session crash" where
  "note_leavings u i s = map_option (\<lambda>p. emit (Call_result u (pi_leavings_percentage p)) s) i"

theorem peer_info_exchanged_witness:
  "\<exists>s' x. xmpp_iq_peer_player_info_handler (\<lambda>_. ''0.250000'') (Some ''9'') (q ''<iq from'' ''ann'') demo_session = Some s'
    \<and> s' = add_trace [Send_iq (JID (Some ''ann'')) XMPP_TYPE_RESULT None (Some ''9'') x] demo_session
    \<and> xmpp_iq_peer_player_info_cb note_leavings (Some 3) (Some (delivered ''me'' ''ann'' ''9'' x)) XMPP_TYPE_RESULT demo_session
        = Some (emit (Call_result 3 0) demo_session)"
proof -
  have f: "attr (q ''<iq from'' ''ann'') ''from'' = Some ''ann''" by code_simp
  then obtain s' where s': "xmpp_iq_peer_player_info_handler (\<lambda>_. ''0.250000'') (Some ''9'') (q ''<iq from'' ''ann'') demo_session = Some s'"
    by (simp add: xmpp_iq_peer_player_info_handler_def send_iq_result_Some)
  have p: "list_all plain_text [''me'', ''ann'', ''9'', ''250000'']" by (simp add: plain_text_def)
  have l: "''0.250000'' = int_dec 0 @ CHR ''.'' # ''250000''" by code_simp
  have n: "list_all (\<lambda>p. plain_text (show_ptr p)) [own_jid demo_session, pr_nickname (profile demo_session), pr_primary_weapon (profile demo_session), cl_name (profile demo_session)]"
    by (simp add: plain_text_def show_ptr_def demo_session_def session_init_def zero_session_def clanmate_list_init_def Let_def)
  have "note_leavings 3 (Some (told 0 demo_session)) demo_session = Some (emit (Call_result 3 0) demo_session)"
    by (simp add: note_leavings_def told_def Let_def)
  with peer_info_exchanged [of "\<lambda>_. ''0.250000''" _ _ _ _ _ _ _ _ 0 note_leavings 3 demo_session, OF s' f p l _ _ n] s' show ?thesis by auto
qed

end
