(* ===== verification/MatchResult.thy ===== *)
theory MatchResult
  imports PlayerInfo
begin

text \<open>
  The results of a match (\<open>xmpp_iq_broadcast_session_result.c\<close>).  The list of results that the handler builds
  is only handed to D-Bus and freed; what remains is what it books for the own player.
\<close>

subsection \<open>Definitions\<close>

record player_result =
  re_nickname :: cptr
  re_experience :: u32
  re_money :: u32
  re_gained_crown_money :: u32
  re_pvp_rating_points :: u32
  re_mission_unlocked :: cptr
  re_class_unlocked :: int
  re_tutorial_unlocked :: int
  re_tutorial_passed :: int

definition read_player_result :: "cstring \<Rightarrow> player_result" where
  "read_player_result results =
     \<lparr>re_nickname = attr results ''nickname'', re_experience = sync_uint results ''experience'', re_money = sync_uint results ''money'',
      re_gained_crown_money = sync_uint results ''gained_crown_money'', re_pvp_rating_points = sync_uint results ''pvp_rating_rank'',
      re_mission_unlocked = attr results ''mission_unlocked'', re_class_unlocked = attr_int results ''class_unlocked'',
      re_tutorial_unlocked = attr_int results ''tutorial_unlocked'', re_tutorial_passed = attr_int results ''tutorial_passed''\<rparr>"

text \<open>The old string of unlocked missions is freed first; without a new one the pointer to it stays.\<close>

definition book_progress :: "player_result \<Rightarrow> progress_info \<Rightarrow> progress_info crash" where
  "book_progress pr g =
     (if pg_mission_freed g then None
      else (let g1 = (case re_mission_unlocked pr of
                        Some m \<Rightarrow> g\<lparr>pg_mission_unlocked := Some m\<rparr>
                      | None \<Rightarrow> g\<lparr>pg_mission_freed := (pg_mission_unlocked g \<noteq> None)\<rparr>)
            in Some (g1\<lparr>pg_class_unlocked := re_class_unlocked pr, pg_tutorial_unlocked := re_tutorial_unlocked pr,
                        pg_tutorial_passed := re_tutorial_passed pr\<rparr>)))"

definition book_result :: "player_result \<Rightarrow> profile_info \<Rightarrow> profile_info crash" where
  "book_result pr p =
     do {
       g \<leftarrow> book_progress pr (pr_progress p);
       Some (upd_stats (\<lambda>t. t\<lparr>st_rating_points := re_pvp_rating_points pr\<rparr>)
         (p\<lparr>pr_experience := pr_experience p + re_experience pr, pr_money_game := pr_money_game p + re_money pr,
            pr_money_crown := pr_money_crown p + re_gained_crown_money pr, pr_progress := g\<rparr>))
     }"

definition result_elem :: "cstring \<Rightarrow> 'u session \<Rightarrow> 'u session crash" where
  "result_elem m s =
     do {
       results \<leftarrow> deref (get_info m ''<player_result'' ''</player_result>'');
       let pr = read_player_result results;
       own \<leftarrow> strcmp_eq (re_nickname pr) (pr_nickname (profile s));
       if own then do { p \<leftarrow> book_result pr (profile s); Some (upd_profile (\<lambda>_. p) s) } else Some s
     }"

definition xmpp_iq_broadcast_session_result_cb :: "cptr \<Rightarrow> 'u session \<Rightarrow> 'u session crash" where
  "xmpp_iq_broadcast_session_result_cb content s =
     (case content of None \<Rightarrow> Some s | Some data \<Rightarrow> each_elem ''<player_result'' result_elem data s)"

subsection \<open>Reading a result\<close>

definition result_attrs :: "player_result \<Rightarrow> (cstring \<times> cstring) list \<Rightarrow> (cstring \<times> cstring) list" where
  "result_attrs r extra =
     [('' nickname'', show_ptr (re_nickname r)), ('' experience'', int_dec (uint (re_experience r))),
      ('' pvp_rating_rank'', int_dec (uint (re_pvp_rating_points r))), ('' money'', int_dec (uint (re_money r))),
      ('' gained_crown_money'', int_dec (uint (re_gained_crown_money r)))] @ extra"

definition progress_attrs :: "player_result \<Rightarrow> (cstring \<times> cstring) list" where
  "progress_attrs r =
     opt_at '' mission_unlocked'' (re_mission_unlocked r)
     @ [('' tutorial_unlocked'', int_dec (re_tutorial_unlocked r)), ('' tutorial_passed'', int_dec (re_tutorial_passed r)),
        ('' class_unlocked'', int_dec (re_class_unlocked r))]"

definition render_result :: "player_result \<Rightarrow> (cstring \<times> cstring) list \<Rightarrow> cstring \<Rightarrow> cstring" where
  "render_result r extra pid =
     ''<player_result'' @ pieces (result_attrs r extra) @ ''>'' @ ''<profile_progression_update'' @ q '' profile_id'' pid
     @ pieces (progress_attrs r) @ ''/>'' @ ''</player_result>''"

definition bracket_free :: "cstring \<Rightarrow> bool" where
  "bracket_free v \<longleftrightarrow> CHR ''<'' \<notin> set v"

text \<open>The other attributes of a result must not be read instead of the progress.\<close>

definition plain_result :: "player_result \<times> (cstring \<times> cstring) list \<times> cstring \<Rightarrow> bool" where
  "plain_result x \<longleftrightarrow>
     (case x of (r, extra, pid) \<Rightarrow>
        re_nickname r \<noteq> None \<and> plain_text (show_ptr (re_nickname r)) \<and> bracket_free (show_ptr (re_nickname r))
        \<and> plain_text pid \<and> bracket_free pid
        \<and> pred_option (\<lambda>m. plain_text m \<and> bracket_free m) (re_mission_unlocked r)
        \<and> list_all (\<lambda>i. - (2 ^ 31) \<le> i \<and> i < 2 ^ 31) [re_class_unlocked r, re_tutorial_unlocked r, re_tutorial_passed r]
        \<and> list_all attr_ok extra \<and> list_all (\<lambda>kv. bracket_free (fst kv) \<and> bracket_free (snd kv)) extra
        \<and> list_all (\<lambda>n. lookup_attr n extra = None) [''mission_unlocked'', ''class_unlocked'', ''tutorial_unlocked'', ''tutorial_passed''])"

definition read_attrs :: "player_result \<Rightarrow> (cstring \<times> cstring) list \<Rightarrow> cstring \<Rightarrow> (cstring \<times> cstring) list" where
  "read_attrs r extra pid = result_attrs r extra @ (''><profile_progression_update profile_id'', pid) # progress_attrs r"

lemma read_attrs_ok:
  assumes "plain_result (r, extra, pid)"
  shows "list_all attr_ok (read_attrs r extra pid)"
proof -
  have "list_all attr_ok (opt_at '' mission_unlocked'' (re_mission_unlocked r))"
    using assms by (auto simp: plain_result_def opt_at_def intro!: plain_text_ok split: option.split) (simp_all add: plain_text_def)
  moreover have "list_all attr_ok extra" "plain_text (show_ptr (re_nickname r))" "plain_text pid" using assms by (auto simp: plain_result_def)
  ultimately show ?thesis
    unfolding read_attrs_def result_attrs_def progress_attrs_def list.pred_inject list_all_append append.simps
    by (intro conjI plain_text_ok plain_texts) (simp_all add: plain_text_def)
qed

lemma int_read:
  assumes "list_all attr_ok kvs" "lookup_attr n kvs = Some (int_dec i)" "- (2 ^ 31) \<le> i" "i < 2 ^ 31"
    and "name_ok n \<and> n \<noteq> [] \<and> hd n \<noteq> CHR '' ''"
  shows "attr_int (pieces kvs @ r) n = i"
proof -
  obtain w where "strstr (pieces kvs @ r) (n @ ''='' @ [apos]) = Some ((n @ ''='' @ [apos]) @ int_dec i @ apos # w)"
    using pieces_attr [OF assms(1) _ _ _ assms(2)] assms(5) by blast
  from get_info_int_printed [OF this] assms(3,4) show ?thesis by (simp add: attr_int_def c_int_id)
qed

lemmas result_lookups = read_attrs_def result_attrs_def progress_attrs_def attr_hit_def name_ok_def

lemma result_read:
  assumes "plain_result (r, extra, pid)"
  shows "read_player_result (pieces (read_attrs r extra pid) @ ''/>'') = r"
proof -
  note ok = read_attrs_ok [OF assms]
  have none: "lookup_attr ''mission_unlocked'' extra = None" "lookup_attr ''class_unlocked'' extra = None"
    "lookup_attr ''tutorial_unlocked'' extra = None" "lookup_attr ''tutorial_passed'' extra = None"
    using assms by (simp_all add: plain_result_def)
  have b: "- (2 ^ 31) \<le> re_class_unlocked r" "re_class_unlocked r < 2 ^ 31" "- (2 ^ 31) \<le> re_tutorial_unlocked r" "re_tutorial_unlocked r < 2 ^ 31"
    "- (2 ^ 31) \<le> re_tutorial_passed r" "re_tutorial_passed r < 2 ^ 31"
    using assms by (simp_all add: plain_result_def)
  obtain nick where nick: "re_nickname r = Some nick" using assms by (auto simp: plain_result_def)
  have n: "attr (pieces (read_attrs r extra pid) @ ''/>'') ''nickname'' = re_nickname r"
    unfolding nick by (rule text_read [OF ok]) (simp_all add: result_lookups nick show_ptr_def)
  have u: "sync_uint (pieces (read_attrs r extra pid) @ ''/>'') ''experience'' = re_experience r"
    "sync_uint (pieces (read_attrs r extra pid) @ ''/>'') ''pvp_rating_rank'' = re_pvp_rating_points r"
    "sync_uint (pieces (read_attrs r extra pid) @ ''/>'') ''money'' = re_money r"
    "sync_uint (pieces (read_attrs r extra pid) @ ''/>'') ''gained_crown_money'' = re_gained_crown_money r"
    by (rule number_read [OF ok]; simp add: result_lookups)+
  have i: "attr_int (pieces (read_attrs r extra pid) @ ''/>'') ''class_unlocked'' = re_class_unlocked r"
    "attr_int (pieces (read_attrs r extra pid) @ ''/>'') ''tutorial_unlocked'' = re_tutorial_unlocked r"
    "attr_int (pieces (read_attrs r extra pid) @ ''/>'') ''tutorial_passed'' = re_tutorial_passed r"
    by (rule int_read [OF ok]; simp add: result_lookups lookup_append none b [simplified])+
  have m: "attr (pieces (read_attrs r extra pid) @ ''/>'') ''mission_unlocked'' = re_mission_unlocked r"
  proof (cases "re_mission_unlocked r")
    case None
    have "strstr (pieces (read_attrs r extra pid) @ ''/>'') (''mission_unlocked'' @ ''='' @ [apos]) = None"
      by (rule pieces_absent [OF ok]) (simp_all add: result_lookups lookup_append none None)
    with None show ?thesis by (simp add: attr_def get_info_def)
  next
    case (Some m)
    show ?thesis unfolding Some by (rule text_read [OF ok]) (simp_all add: result_lookups lookup_append none Some)
  qed
  show ?thesis unfolding read_player_result_def n u i m by simp
qed

lemma bracket_free_pieces: "list_all (\<lambda>kv. bracket_free (fst kv) \<and> bracket_free (snd kv)) kvs \<Longrightarrow> CHR ''<'' \<notin> set (pieces kvs)"
  by (induction kvs) (auto simp: pieces_def bracket_free_def)

lemma bracket_free_int: "bracket_free (int_dec i)"
  using int_dec_chars [of "CHR ''<''" i] by (auto simp: bracket_free_def isdigit_def)

lemma result_brackets:
  assumes "plain_result (r, extra, pid)"
  shows "CHR ''<'' \<notin> set (pieces (result_attrs r extra))" "CHR ''<'' \<notin> set (pieces (progress_attrs r))" "CHR ''<'' \<notin> set pid"
proof -
  show "CHR ''<'' \<notin> set (pieces (result_attrs r extra))"
    using assms by (intro bracket_free_pieces) (simp add: result_attrs_def plain_result_def bracket_free_int, simp add: bracket_free_def)
  have "list_all (\<lambda>kv. bracket_free (fst kv) \<and> bracket_free (snd kv)) (opt_at '' mission_unlocked'' (re_mission_unlocked r))"
    using assms by (cases "re_mission_unlocked r") (auto simp: plain_result_def opt_at_def, simp add: bracket_free_def)
  then show "CHR ''<'' \<notin> set (pieces (progress_attrs r))"
    by (intro bracket_free_pieces) (simp add: progress_attrs_def bracket_free_int, simp add: bracket_free_def)
  show "CHR ''<'' \<notin> set pid" using assms by (simp add: plain_result_def bracket_free_def)
qed

lemma get_info_between:
  "strstr m pb = Some (pb @ r @ pe @ w) \<Longrightarrow> strstr (r @ pe @ w) pe = Some (pe @ w) \<Longrightarrow> get_info m pb pe = Some r"
  using upto_ptr_append [of r "pe @ w"] by (simp add: get_info_def)

text \<open>An element with one element inside.\<close>

lemma nested_element:
  assumes "CHR ''<'' \<notin> set a" "CHR ''<'' \<notin> set c" "CHR ''<'' \<notin> set tag" "CHR ''<'' \<notin> set close"
    and "\<not> starts_with c close" "\<not> starts_with c tag" "\<not> starts_with close tag"
  shows "get_info ((CHR ''<'' # tag) @ (a @ CHR ''<'' # c) @ (CHR ''<'' # close) @ w) (CHR ''<'' # tag) (CHR ''<'' # close) = Some (a @ CHR ''<'' # c)"
    and "w = [] \<or> hd w = CHR ''<'' \<Longrightarrow>
      strstr (tag @ a @ CHR ''<'' # c @ (CHR ''<'' # close) @ w) (CHR ''<'' # tag) = strstr w (CHR ''<'' # tag)"
proof -
  have "strstr (a @ CHR ''<'' # c @ (CHR ''<'' # close) @ w) (CHR ''<'' # close) = strstr (CHR ''<'' # c @ (CHR ''<'' # close) @ w) (CHR ''<'' # close)"
    by (rule strstr_skip_head [OF assms(1)])
  also have "\<dots> = strstr ((CHR ''<'' # close) @ w) (CHR ''<'' # close)"
    using strstr_piece [OF assms(2,4), of "(CHR ''<'' # close) @ w"] assms(5) by (simp del: strstr.simps)
  also have "\<dots> = Some ((CHR ''<'' # close) @ w)" by (rule strstr_here)
  finally have e: "strstr ((a @ CHR ''<'' # c) @ (CHR ''<'' # close) @ w) (CHR ''<'' # close) = Some ((CHR ''<'' # close) @ w)" by simp
  show "get_info ((CHR ''<'' # tag) @ (a @ CHR ''<'' # c) @ (CHR ''<'' # close) @ w) (CHR ''<'' # tag) (CHR ''<'' # close) = Some (a @ CHR ''<'' # c)"
    by (rule get_info_between [OF strstr_here e])
  assume w: "w = [] \<or> hd w = CHR ''<''"
  have "strstr ((tag @ a) @ CHR ''<'' # c @ (CHR ''<'' # close) @ w) (CHR ''<'' # tag) = strstr (CHR ''<'' # c @ (CHR ''<'' # close) @ w) (CHR ''<'' # tag)"
    using assms(1,3) by (intro strstr_skip_head) simp
  also have "\<dots> = strstr ((CHR ''<'' # close) @ w) (CHR ''<'' # tag)"
    using strstr_piece [OF assms(2,3), of "(CHR ''<'' # close) @ w"] assms(6) by (simp del: strstr.simps)
  also have "\<dots> = strstr w (CHR ''<'' # tag)"
    using strstr_piece [OF assms(4,3) w] assms(7) by (simp del: strstr.simps)
  finally show "strstr (tag @ a @ CHR ''<'' # c @ (CHR ''<'' # close) @ w) (CHR ''<'' # tag) = strstr w (CHR ''<'' # tag)" by simp
qed

lemma result_text:
  "render_result r extra pid @ w = (CHR ''<'' # ''player_result'') @ ((pieces (result_attrs r extra) @ ''>'') @ CHR ''<''
     # ''profile_progression_update'' @ q '' profile_id'' pid @ pieces (progress_attrs r) @ ''/>'') @ (CHR ''<'' # ''/player_result>'') @ w"
  by (simp add: render_result_def)

lemma result_inside:
  "pieces (read_attrs r extra pid) @ ''/>'' = (pieces (result_attrs r extra) @ ''>'') @ CHR ''<''
     # ''profile_progression_update'' @ q '' profile_id'' pid @ pieces (progress_attrs r) @ ''/>''"
  by (simp add: read_attrs_def pieces_append pieces_simps q_def)

lemma result_tail:
  assumes "plain_result (r, extra, pid)"
  shows "get_info (render_result r extra pid @ w) ''<player_result'' ''</player_result>'' = Some (pieces (read_attrs r extra pid) @ ''/>'')"
    and "w = [] \<or> hd w = CHR ''<'' \<Longrightarrow> strstr (tl (render_result r extra pid @ w)) ''<player_result'' = strstr w ''<player_result''"
proof -
  note b = result_brackets [OF assms]
  let ?c = "''profile_progression_update'' @ q '' profile_id'' pid @ pieces (progress_attrs r) @ ''/>''"
  have c: "CHR ''<'' \<notin> set ?c" "\<not> starts_with ?c ''/player_result>''" "\<not> starts_with ?c ''player_result''" using b by (simp_all add: q_def)
  have a: "CHR ''<'' \<notin> set (pieces (result_attrs r extra) @ ''>'')" using b by simp
  have t: "CHR ''<'' \<notin> set ''player_result''" "CHR ''<'' \<notin> set ''/player_result>''" "\<not> starts_with ''/player_result>'' ''player_result''" by simp_all
  note n = nested_element [OF a c(1) t(1,2) c(2,3) t(3)]
  show "get_info (render_result r extra pid @ w) ''<player_result'' ''</player_result>'' = Some (pieces (read_attrs r extra pid) @ ''/>'')"
    unfolding result_text result_inside by (rule n(1))
  assume "w = [] \<or> hd w = CHR ''<''"
  from n(2) [OF this]
  show "strstr (tl (render_result r extra pid @ w)) ''<player_result'' = strstr w ''<player_result''"
    unfolding result_text append_Cons list.sel append_assoc .
qed

subsection \<open>What a match adds to the profile\<close>

definition session_result :: "cstring \<Rightarrow> (player_result \<times> (cstring \<times> cstring) list \<times> cstring) list \<Rightarrow> cstring" where
  "session_result v xs = ''<broadcast_session_result'' @ q '' bcast_receivers'' v @ ''>''
     @ concat (map (\<lambda>(r, extra, pid). render_result r extra pid) xs) @ ''</broadcast_session_result>''"

definition book_own :: "player_result \<Rightarrow> 'u session \<Rightarrow> 'u session crash" where
  "book_own r s =
     (if re_nickname r = pr_nickname (profile s) then map_option (\<lambda>p. upd_profile (\<lambda>_. p) s) (book_result r (profile s)) else Some s)"

fun book_each :: "player_result list \<Rightarrow> 'u session \<Rightarrow> 'u session crash" where
  "book_each [] s = Some s"
| "book_each (r # rs) s = do { s' \<leftarrow> book_own r s; book_each rs s' }"

definition booked :: "player_result \<Rightarrow> profile_info \<Rightarrow> profile_info" where
  "booked r p =
     upd_stats (\<lambda>t. t\<lparr>st_rating_points := re_pvp_rating_points r\<rparr>)
       (p\<lparr>pr_experience := pr_experience p + re_experience r, pr_money_game := pr_money_game p + re_money r,
          pr_money_crown := pr_money_crown p + re_gained_crown_money r,
          pr_progress := (pr_progress p)\<lparr>pg_mission_unlocked := re_mission_unlocked r, pg_class_unlocked := re_class_unlocked r,
            pg_tutorial_unlocked := re_tutorial_unlocked r, pg_tutorial_passed := re_tutorial_passed r\<rparr>\<rparr>)"

definition book_all :: "player_result list \<Rightarrow> profile_info \<Rightarrow> profile_info" where
  "book_all rs p =
     (if rs = [] then p
      else upd_stats (\<lambda>t. t\<lparr>st_rating_points := re_pvp_rating_points (last rs)\<rparr>)
        (p\<lparr>pr_experience := pr_experience p + sum_list (map re_experience rs),
           pr_money_game := pr_money_game p + sum_list (map re_money rs),
           pr_money_crown := pr_money_crown p + sum_list (map re_gained_crown_money rs),
           pr_progress := (pr_progress p)\<lparr>pg_mission_unlocked := re_mission_unlocked (last rs), pg_class_unlocked := re_class_unlocked (last rs),
             pg_tutorial_unlocked := re_tutorial_unlocked (last rs), pg_tutorial_passed := re_tutorial_passed (last rs)\<rparr>\<rparr>))"

lemma book_all_fold: "fold booked rs p = book_all rs p"
  by (induction rs rule: rev_induct) (simp_all add: book_all_def booked_def upd_stats_def add.assoc)

lemma result_elem_rendered:
  assumes "plain_result (r, extra, pid)" "pr_nickname (profile s) \<noteq> None"
  shows "result_elem (render_result r extra pid @ w) s = book_own r s"
proof -
  obtain a b where "re_nickname r = Some a" "pr_nickname (profile s) = Some b" using assms by (auto simp: plain_result_def)
  then show ?thesis
    by (cases "book_result r (profile s)")
      (simp_all add: result_elem_def result_tail(1) [OF assms(1)] result_read [OF assms(1)] book_own_def)
qed

lemma book_own_nickname: "book_own r s = Some s' \<Longrightarrow> pr_nickname (profile s') = pr_nickname (profile s)"
  by (auto simp: book_own_def book_result_def upd_stats_def bind_eq_Some_conv split: if_splits)

lemma results_loop:
  assumes "list_all plain_result xs" "pr_nickname (profile s) \<noteq> None"
    and "w = concat (map (\<lambda>(r, extra, pid). render_result r extra pid) xs) @ ''</broadcast_session_result>''"
    and "strstr m ''<player_result'' = strstr w ''<player_result''"
  shows "each_elem ''<player_result'' result_elem m s = book_each (map fst xs) s"
  using assms
proof (induction xs arbitrary: m w s)
  case Nil
  have "strstr ''</broadcast_session_result>'' ''<player_result'' = None" by code_simp
  with Nil show ?case by (simp add: each_elem_stop del: strstr.simps)
next
  case (Cons x xs)
  obtain r extra pid where x: "x = (r, extra, pid)" using prod_cases3 by blast
  let ?w = "concat (map (\<lambda>(r, extra, pid). render_result r extra pid) xs) @ ''</broadcast_session_result>''"
  have ok: "plain_result (r, extra, pid)" "list_all plain_result xs" using Cons.prems(1) by (simp_all add: x)
  have hw: "hd ?w = CHR ''<''" by (cases xs) (auto simp: render_result_def)
  have w: "w = render_result r extra pid @ ?w" using Cons.prems(3) by (simp add: x)
  have m: "strstr m ''<player_result'' = Some (render_result r extra pid @ ?w)"
    using Cons.prems(4) unfolding w render_result_def append_assoc by (metis strstr_here)
  have t: "strstr (tl (render_result r extra pid @ ?w)) ''<player_result'' = strstr ?w ''<player_result''"
    by (rule result_tail(2) [OF ok(1)]) (rule disjI2 [OF hw])
  have ne: "render_result r extra pid @ ?w \<noteq> []" by (simp add: render_result_def)
  show ?case
  proof (cases "book_own r s")
    case None
    then show ?thesis unfolding each_elem_next [OF m ne] result_elem_rendered [OF ok(1) Cons.prems(2)] by (simp add: x)
  next
    case (Some s1)
    have "pr_nickname (profile s1) \<noteq> None" using book_own_nickname [OF Some] Cons.prems(2) by simp
    from Cons.IH [OF ok(2) this refl t] Some show ?thesis
      unfolding each_elem_next [OF m ne] result_elem_rendered [OF ok(1) Cons.prems(2)] by (simp add: x del: map_append)
  qed
qed

lemma session_result_loop:
  assumes "list_all plain_result xs" "pr_nickname (profile s) \<noteq> None" "bracket_free v"
  shows "xmpp_iq_broadcast_session_result_cb (Some (session_result v xs)) s = book_each (map fst xs) s"
proof -
  let ?w = "concat (map (\<lambda>(r, extra, pid). render_result r extra pid) xs) @ ''</broadcast_session_result>''"
  have b: "CHR ''<'' \<notin> set (''broadcast_session_result'' @ q '' bcast_receivers'' v @ ''>'')" using assms(3) by (simp add: bracket_free_def q_def)
  have t: "CHR ''<'' \<notin> set ''player_result''" by simp
  have n: "\<not> starts_with (''broadcast_session_result'' @ q '' bcast_receivers'' v @ ''>'') ''player_result''" by simp
  have hw: "hd ?w = CHR ''<''" by (cases xs) (auto simp: render_result_def)
  have e: "session_result v xs = CHR ''<'' # (''broadcast_session_result'' @ q '' bcast_receivers'' v @ ''>'') @ ?w" by (simp add: session_result_def)
  have "strstr (session_result v xs) ''<player_result'' = strstr ?w ''<player_result''"
    unfolding e using strstr_piece [OF b t disjI2 [OF hw]] n by (simp only: if_False)
  from results_loop [OF assms(1,2) refl this] show ?thesis by (simp add: xmpp_iq_broadcast_session_result_cb_def)
qed

lemma book_result_mission:
  "\<not> pg_mission_freed (pr_progress p) \<Longrightarrow> re_mission_unlocked r \<noteq> None \<Longrightarrow> book_result r p = Some (booked r p)"
  by (auto simp: book_result_def book_progress_def booked_def Let_def)

lemma booked_keeps: "pg_mission_freed (pr_progress (booked r p)) = pg_mission_freed (pr_progress p)" "pr_nickname (booked r p) = pr_nickname p"
  by (simp_all add: booked_def upd_stats_def)

lemma book_each_fold:
  assumes "\<not> pg_mission_freed (pr_progress (profile s))"
    and "list_all (\<lambda>r. re_nickname r = pr_nickname (profile s) \<longrightarrow> re_mission_unlocked r \<noteq> None) rs"
  shows "book_each rs s = Some (upd_profile (fold booked (filter (\<lambda>r. re_nickname r = pr_nickname (profile s)) rs)) s)"
  using assms
proof (induction rs arbitrary: s)
  case Nil
  then show ?case by (simp add: upd_profile_def)
next
  case (Cons r rs)
  show ?case
  proof (cases "re_nickname r = pr_nickname (profile s)")
    case True
    then have "book_own r s = Some (upd_profile (\<lambda>_. booked r (profile s)) s)"
      using Cons.prems by (simp add: book_own_def book_result_mission)
    with Cons.IH [of "upd_profile (\<lambda>_. booked r (profile s)) s"] Cons.prems True show ?thesis
      by (simp add: booked_keeps upd_profile_def)
  next
    case False
    with Cons show ?thesis by (simp add: book_own_def)
  qed
qed

text \<open>C14: The results of a match are booked exactly once and only for the own player: experience and both kinds
  of money grow by the sums of the own results, rating, tutorial, classes and missions become those of the last one,
  and nothing else of the session changes.\<close>

theorem match_result_booked:
  assumes "list_all plain_result xs" "bracket_free v" "pr_nickname (profile s) \<noteq> None"
    and "\<not> pg_mission_freed (pr_progress (profile s))"
    and "own = filter (\<lambda>r. re_nickname r = pr_nickname (profile s)) (map fst xs)" "list_all (\<lambda>r. re_mission_unlocked r \<noteq> None) own"
  shows "xmpp_iq_broadcast_session_result_cb (Some (session_result v xs)) s = Some (upd_profile (book_all own) s)"
proof -
  have "list_all (\<lambda>r. re_nickname r = pr_nickname (profile s) \<longrightarrow> re_mission_unlocked r \<noteq> None) (map fst xs)"
    using assms(5,6) by (auto simp: list_all_iff)
  from book_each_fold [OF assms(4) this] show ?thesis
    unfolding session_result_loop [OF assms(1,3,2)] assms(5) [symmetric] by (simp add: upd_profile_def book_all_fold)
qed

definition sample_result :: "cstring \<Rightarrow> cptr \<Rightarrow> player_result" where
  "sample_result n m =
     \<lparr>re_nickname = Some n, re_experience = 40, re_money = 7, re_gained_crown_money = 1, re_pvp_rating_points = 12,
      re_mission_unlocked = m, re_class_unlocked = 29, re_tutorial_unlocked = 7, re_tutorial_passed = 7\<rparr>"

definition named_session :: "nat session" where
  "named_session = upd_profile (\<lambda>p. p\<lparr>pr_nickname := Some ''me'', pr_progress := (pr_progress p)\<lparr>pg_mission_unlocked := Some ''none''\<rparr>\<rparr>) demo_session"

lemma named_session_simps [simp]:
  "pr_nickname (profile named_session) = Some ''me''" "\<not> pg_mission_freed (pr_progress (profile named_session))"
  "pg_mission_unlocked (pr_progress (profile named_session)) = Some ''none''"
  by (simp_all add: named_session_def demo_session_def session_init_def zero_session_def clanmate_list_init_def Let_def)

lemma sample_result_plain:
  "plain_text n \<Longrightarrow> bracket_free n \<Longrightarrow> pred_option (\<lambda>m. plain_text m \<and> bracket_free m) m
     \<Longrightarrow> plain_result (sample_result n m, [('' score'', ''10'')], ''5'')"
  by (auto simp: plain_result_def sample_result_def show_ptr_def plain_text_def bracket_free_def attr_ok_def attr_hit_def)

theorem match_result_booked_witness:
  "xmpp_iq_broadcast_session_result_cb (Some (session_result ''x''
      [(sample_result ''ann'' None, [('' score'', ''10'')], ''5''), (sample_result ''me'' (Some ''easy''), [('' score'', ''10'')], ''5'')]))
     named_session = Some (upd_profile (book_all [sample_result ''me'' (Some ''easy'')]) named_session)"
  by (rule match_result_booked)
    (simp_all add: sample_result_plain plain_text_def bracket_free_def, simp_all add: sample_result_def)

text \<open>A result of the own player without a list of missions leaves the freed list behind: a second
  such result in the same message frees it again, and otherwise leaving the session does.\<close>

theorem match_result_frees_twice:
  assumes "list_all plain_result [x, y]" "bracket_free v" "pr_nickname (profile s) \<noteq> None"
    and "pg_mission_unlocked (pr_progress (profile s)) \<noteq> None"
    and "list_all (\<lambda>z. re_nickname (fst z) = pr_nickname (profile s) \<and> re_mission_unlocked (fst z) = None) [x, y]"
  shows "xmpp_iq_broadcast_session_result_cb (Some (session_result v [x, y])) s = None
    \<and> Option.bind (xmpp_iq_broadcast_session_result_cb (Some (session_result v [x])) s) session_free = None"
proof -
  obtain r s0 where r: "fst x = r" "fst y = s0" by simp
  have o: "re_nickname r = pr_nickname (profile s)" "re_mission_unlocked r = None" "re_nickname s0 = pr_nickname (profile s)"
    using assms(5) r by simp_all
  have f: "pg_mission_freed (pr_progress (profile s1))" "re_nickname s0 = pr_nickname (profile s1)" if "book_own r s = Some s1" for s1
    using that o assms(4)
    by (auto simp: book_own_def book_result_def book_progress_def upd_stats_def Let_def bind_eq_Some_conv split: if_splits)
  have "book_each [r, s0] s = None"
    using f by (cases "book_own r s") (auto simp: book_own_def book_result_def book_progress_def)
  moreover have "session_free s1 = None" if "book_each [r] s = Some s1" for s1
    using that f(1) [of s1] by (auto simp: session_free_def bind_eq_Some_conv bind_eq_None_conv)
  moreover have "xmpp_iq_broadcast_session_result_cb (Some (session_result v [x, y])) s = book_each [r, s0] s"
    using session_result_loop [OF assms(1,3,2)] r by simp
  moreover have "xmpp_iq_broadcast_session_result_cb (Some (session_result v [x])) s = book_each [r] s"
    using session_result_loop [of "[x]", OF _ assms(3,2)] assms(1) r by simp
  ultimately show ?thesis by (cases "book_each [r] s") (simp_all del: book_each.simps)
qed

theorem match_result_frees_twice_witness:
  "xmpp_iq_broadcast_session_result_cb (Some (session_result ''x''
      [(sample_result ''me'' None, [('' score'', ''10'')], ''5''), (sample_result ''me'' None, [('' score'', ''10'')], ''5'')])) named_session = None"
  using match_result_frees_twice [of "(sample_result ''me'' None, [('' score'', ''10'')], ''5'')" "(sample_result ''me'' None, [('' score'', ''10'')], ''5'')"
      "''x''" named_session]
  by (simp add: sample_result_plain plain_text_def bracket_free_def) (simp add: sample_result_def)

end
