(* ===== verification/QueryCache.thy ===== *)
theory QueryCache
  imports WfQuery
begin

text \<open>
  \<open>src/querycache.c\<close> and \<open>src/xmpp_wf/get/xmpp_iq_querycache.c\<close>: lists of elements (items,
  offers, configurations, maps) that the server sends in chunks, that are parsed element by element
  into a container and are kept in a file with the hash of the transfer.

  The cache file is the optional string \<open>qc_disk\<close>; while it is open for writing (\<open>qc_open\<close>),
  output goes to its end.  The element parser and the reset function are function pointers, hence
  optional functions on the container.  The parse loop only reads the text: its nodes are computed
  first (\<open>parse_nodes\<close>) and handed to the parser and the file in that order.
\<close>

subsection \<open>State\<close>

record 'c querycache =
  qc_parser :: "(cstring \<Rightarrow> 'c \<Rightarrow> 'c) option"
  qc_reset :: "('c \<Rightarrow> 'c) option"
  qc_name :: cptr
  qc_hash :: cptr
  qc_open :: bool
  qc_disk :: cptr
  qc_container :: 'c

definition qc_starttag :: "cstring \<Rightarrow> cstring" where
  "qc_starttag name = ''<'' @ name @ '' ''"

definition qc_endtag :: "cstring \<Rightarrow> cstring" where
  "qc_endtag name = ''</'' @ name @ ''>''"

subsection \<open>Cutting a text into elements\<close>

text \<open>
  The element that starts at \<open>s\<close>, given the pointer \<open>root\<close> to the first \<open>>\<close>: up to
  \<open>/>\<close>, or up to the closing tag of the same name.  A missing closing tag is a difference of
  pointers with NULL.
\<close>

definition cut_node :: "cstring \<Rightarrow> cstring \<Rightarrow> cstring crash" where
  "cut_node s root =
     (let open_element =
        do {
          let starttag = get_info_first s ''<'' '' >'';
          let endtag = ''</'' @ show_ptr starttag @ ''>'';
          pos \<leftarrow> deref (strstr root endtag);
          Some (take (length s - length pos + length endtag) s)
        }
      in case strstr s ''/>'' of
           None \<Rightarrow> open_element
         | Some single \<Rightarrow>
             if length single < length root then open_element
             else Some (take (length s - length single + 2) s))"

lemma cut_node_nonempty: "cut_node s root = Some node \<Longrightarrow> s \<noteq> [] \<Longrightarrow> node \<noteq> []"
  by (auto simp: cut_node_def Let_def bind_eq_Some_conv split: option.splits if_splits)

lemma strstr_nonempty: "strstr s (c # p) = Some q \<Longrightarrow> q \<noteq> []"
  using strstr_result_starts by fastforce

function parse_nodes :: "cstring \<Rightarrow> bool \<Rightarrow> cstring \<Rightarrow> int \<Rightarrow> int \<Rightarrow> cstring list crash" where
  "parse_nodes endtag do_write str from to =
     (case strstr str ''<'' of
        None \<Rightarrow> Some []
      | Some s \<Rightarrow>
          (case strstr s endtag of
             None \<Rightarrow> Some []
           | Some e \<Rightarrow>
               if length e < length s \<and> (from < to \<or> \<not> do_write)
               then (case strstr s ''>'' of
                       None \<Rightarrow> parse_nodes endtag do_write (tl s) from to
                     | Some root \<Rightarrow>
                         (case cut_node s root of
                            None \<Rightarrow> None
                          | Some node \<Rightarrow>
                              map_option ((#) node)
                                (parse_nodes endtag do_write (drop (length node) s) (from + 1) to)))
               else Some []))"
  by pat_completeness auto
termination
proof (relation "measure (\<lambda>(_, _, str, _, _). length str)", goal_cases)
  case 1
  then show ?case by simp
next
  case (2 endtag do_write str a b s e)
  then show ?case using strstr_length [of str "''<''" s] strstr_nonempty [of str "CHR ''<''" "[]" s] by auto
next
  case (3 endtag do_write str a b s e root node)
  then have "length s \<le> length str" "0 < length s" "0 < length node"
    using strstr_length [of str "''<''" s] strstr_nonempty [of str "CHR ''<''" "[]" s] cut_node_nonempty [of s root node]
    by auto
  then have "length s - length node < length str" by linarith
  then show ?case by simp
qed

declare parse_nodes.simps [simp del]

text \<open>Every element goes to the parser and, with caching on and the file open, into the file.\<close>

definition querycache_parse ::
  "(cstring \<Rightarrow> 'c \<Rightarrow> 'c) \<Rightarrow> cstring \<Rightarrow> int \<Rightarrow> int \<Rightarrow> bool \<Rightarrow> 'c querycache \<Rightarrow> 'c querycache crash" where
  "querycache_parse parser str from to do_write c =
     do {
       name \<leftarrow> deref (qc_name c);
       let str' = (case strstr str (qc_starttag name) of None \<Rightarrow> str | Some q \<Rightarrow> tl q);
       nodes \<leftarrow> parse_nodes (qc_endtag name) do_write str' from to;
       Some (c\<lparr>qc_container := fold parser nodes (qc_container c),
               qc_disk := (if do_write \<and> qc_open c
                           then map_option (\<lambda>d. d @ concat (map (\<lambda>n. '' '' @ n @ [CHR 0x0A]) nodes)) (qc_disk c)
                           else qc_disk c)\<rparr>)
     }"

subsection \<open>Updating, loading\<close>

definition qc_header :: "cstring \<Rightarrow> int \<Rightarrow> int \<Rightarrow> cptr \<Rightarrow> cstring" where
  "qc_header name from to hash =
     ''<'' @ name @ '' from='' @ [apos] @ int_dec from @ [apos] @ '' to='' @ [apos] @ int_dec to @ [apos]
     @ '' hash='' @ [apos] @ show_ptr hash @ [apos] @ ''>'' @ [CHR 0x0A]"

text \<open>\<open>caching\<close> is \<open>cvar.query_cache\<close>, \<open>can_write\<close> whether \<open>fopen\<close> succeeds.\<close>

definition querycache_update ::
  "bool \<Rightarrow> bool \<Rightarrow> cstring \<Rightarrow> cptr \<Rightarrow> int \<Rightarrow> int \<Rightarrow> bool \<Rightarrow> 'c querycache \<Rightarrow> 'c querycache crash" where
  "querycache_update caching can_write str hash from to is_end c =
     (case qc_parser c of
        None \<Rightarrow> Some c
      | Some parser \<Rightarrow>
          do {
            name \<leftarrow> deref (qc_name c);
            let open_file = (from = 0 \<and> caching);
            let close_file = (is_end \<and> caching);
            let c1 = (if open_file \<and> \<not> qc_open c \<and> can_write
                      then c\<lparr>qc_open := True, qc_disk := Some (qc_header name from to hash)\<rparr> else c);
            let c2 = (if from = 0 then (case qc_reset c1 of None \<Rightarrow> c1
                                          | Some reset \<Rightarrow> c1\<lparr>qc_container := reset (qc_container c1)\<rparr>) else c1);
            let c3 = c2\<lparr>qc_hash := hash\<rparr>;
            c4 \<leftarrow> querycache_parse parser str from to caching c3;
            Some (if close_file \<and> qc_open c4
                  then c4\<lparr>qc_open := False,
                          qc_disk := map_option (\<lambda>d. d @ ''</'' @ name @ ''>'' @ [CHR 0x0A]) (qc_disk c4)\<rparr>
                  else c4)
          })"

definition querycache_load :: "bool \<Rightarrow> 'c querycache \<Rightarrow> 'c querycache crash" where
  "querycache_load caching c =
     (if \<not> caching then Some c
      else (case (qc_parser c, qc_name c, qc_disk c) of
              (Some parser, Some name, Some ptr) \<Rightarrow>
                if ptr = [] then Some c
                else (case get_info ptr (qc_starttag name) ''>'' of
                        None \<Rightarrow> Some c
                      | Some starttag \<Rightarrow>
                          (let c1 = c\<lparr>qc_hash := get_info starttag (''hash='' @ [apos]) [apos]\<rparr>;
                               c2 = (case qc_reset c1 of None \<Rightarrow> c1
                                     | Some reset \<Rightarrow> c1\<lparr>qc_container := reset (qc_container c1)\<rparr>)
                           in querycache_parse parser ptr 0 0 False c2))
            | _ \<Rightarrow> Some c))"

definition querycache_init ::
  "bool \<Rightarrow> cptr \<Rightarrow> (cstring \<Rightarrow> 'c \<Rightarrow> 'c) option \<Rightarrow> ('c \<Rightarrow> 'c) option \<Rightarrow> 'c querycache \<Rightarrow> 'c querycache crash" where
  "querycache_init caching queryname parser reset c =
     (case queryname of
        None \<Rightarrow> Some c
      | Some name \<Rightarrow>
          querycache_load caching
            (c\<lparr>qc_name := Some name, qc_parser := parser, qc_reset := reset, qc_hash := None, qc_open := False\<rparr>))"

definition querycache_free :: "'c querycache \<Rightarrow> 'c querycache" where
  "querycache_free c =
     c\<lparr>qc_hash := None, qc_parser := None, qc_reset := None, qc_name := None, qc_open := False\<rparr>"

subsection \<open>Requesting\<close>

datatype qc_effect = QC_Request cstring | QC_Callback

definition chunk_request :: "cstring \<Rightarrow> int \<Rightarrow> cstring" where
  "chunk_request name from =
     ''<query xmlns='' @ [apos] @ k01_open @ '' <'' @ name @ '' from='' @ [apos] @ int_dec from @ [apos] @ ''/></query>''"

definition first_request :: "cstring \<Rightarrow> cptr \<Rightarrow> cstring" where
  "first_request name hash =
     ''<query xmlns='' @ [apos] @ k01_open @ '' <'' @ name @ '' cached='' @ [apos] @ show_ptr hash @ [apos] @ ''/></query>''"

definition querycache_request :: "bool \<Rightarrow> 'c querycache \<Rightarrow> qc_effect list" where
  "querycache_request caching c =
     (case qc_name c of
        None \<Rightarrow> []
      | Some name \<Rightarrow> [QC_Request (first_request name (if caching then qc_hash c else None))])"

text \<open>
  The answer's content \<open>data\<close> is what \<open>wf_get_query_content\<close> gave (NULL ends the transfer, as
  does an error).  \<open>has_cb\<close> tells whether a callback was passed.
\<close>

definition querycache_request_cb ::
  "bool \<Rightarrow> bool \<Rightarrow> bool \<Rightarrow> bool \<Rightarrow> cptr \<Rightarrow> 'c querycache \<Rightarrow> ('c querycache \<times> qc_effect list) crash" where
  "querycache_request_cb caching can_write has_cb is_error content c =
     (if is_error then Some (c, [])
      else (case content of
              None \<Rightarrow> Some (c, [])
            | Some data \<Rightarrow>
                (let hash = get_info data (''hash='' @ [apos]) [apos];
                     code = c_int (get_info_int data (''code='' @ [apos]) [apos]);
                     from = c_int (get_info_int data (''from='' @ [apos]) [apos]);
                     to = c_int (get_info_int data (''to='' @ [apos]) [apos])
                 in if code = 1 then Some (c, if has_cb then [QC_Callback] else [])
                    else if code = 2
                    then do {
                           c' \<leftarrow> querycache_update caching can_write data hash from to False c;
                           name \<leftarrow> deref (qc_name c');
                           Some (c', [QC_Request (chunk_request name to)])
                         }
                    else if code = 3
                    then do {
                           c' \<leftarrow> querycache_update caching can_write data hash from to True c;
                           Some (c', if has_cb then [QC_Callback] else [])
                         }
                    else Some (c, []))))"

subsection \<open>Reading a written file\<close>

text \<open>Elements without children, as the server sends them in item and offer lists.\<close>

definition node_body :: "cstring \<Rightarrow> bool" where
  "node_body b \<longleftrightarrow> b \<noteq> [] \<and> hd b \<noteq> CHR ''/'' \<and> CHR ''<'' \<notin> set b \<and> CHR ''>'' \<notin> set b"

definition simple_node :: "cstring \<Rightarrow> bool" where
  "simple_node n \<longleftrightarrow> (\<exists>b. n = ''<'' @ b @ ''/>'' \<and> node_body b)"

definition node_lines :: "cstring list \<Rightarrow> cstring" where
  "node_lines nodes = concat (map (\<lambda>n. '' '' @ n @ [CHR 0x0A]) nodes)"

lemma node_lines_simps [simp]:
  "node_lines [] = []" "node_lines (n # ns) = '' '' @ n @ CHR 0x0A # node_lines ns"
  "node_lines (ms @ ns) = node_lines ms @ node_lines ns"
  by (simp_all add: node_lines_def)

lemma strstr_contains: "\<exists>q. strstr (a @ p @ b) p = Some q"
  by (cases "strstr (a @ p @ b) p") (auto simp: strstr_none_iff)

lemma cut_simple:
  assumes "node_body b"
  shows "strstr (''<'' @ b @ ''/>'' @ r) ''>'' = Some (CHR ''>'' # r)"
    and "cut_node (''<'' @ b @ ''/>'' @ r) (CHR ''>'' # r) = Some (''<'' @ b @ ''/>'')"
proof -
  let ?s = "''<'' @ b @ ''/>'' @ r"
  have t: "CHR ''>'' \<notin> set (CHR ''<'' # b @ ''/'')" using assms by (auto simp: node_body_def)
  from strstr_char [OF t, of r] show "strstr ?s ''>'' = Some (CHR ''>'' # r)" by simp
  have "\<forall>k < length (''<'' @ b). \<not> starts_with (drop k ((''<'' @ b) @ ''/>'' @ r)) ''/>''"
  proof (intro allI impI notI)
    fix k
    assume k: "k < length (''<'' @ b)" and "starts_with (drop k ((''<'' @ b) @ ''/>'' @ r)) ''/>''"
    then have "starts_with (drop k ((CHR ''<'' # b @ ''/'') @ CHR ''>'' # r)) (''/'' @ CHR ''>'' # [])" by simp
    from match_reaches [OF this t] k show False by simp
  qed
  from strstr_first [OF this] have "strstr ?s ''/>'' = Some (''/>'' @ r)" by simp
  then show "cut_node ?s (CHR ''>'' # r) = Some (''<'' @ b @ ''/>'')"
    by (simp add: cut_node_def Let_def)
qed

lemma parse_node_lines:
  assumes "CHR ''<'' \<notin> set w" "list_all simple_node nodes"
  shows "parse_nodes (qc_endtag name) False (w @ node_lines nodes @ qc_endtag name @ r) f t = Some nodes"
  using assms
proof (induction nodes arbitrary: w f)
  case Nil
  let ?e = "qc_endtag name @ r"
  have "strstr (w @ ?e) ''<'' = strstr ?e ''<''" using Nil.prems(1) by (rule strstr_skip_head)
  also have "\<dots> = Some ?e" by (simp add: qc_endtag_def)
  finally have 1: "strstr (w @ ?e) ''<'' = Some ?e" by simp
  show ?case by (subst parse_nodes.simps) (simp add: 1)
next
  case (Cons n nodes)
  from Cons.prems(2) obtain b where b: "n = ''<'' @ b @ ''/>''" "node_body b" by (auto simp: simple_node_def)
  let ?r = "CHR 0x0A # node_lines nodes @ qc_endtag name @ r"
  let ?s = "''<'' @ b @ ''/>'' @ ?r"
  have "strstr ((w @ '' '') @ ?s) ''<'' = strstr ?s ''<''"
    using Cons.prems(1) by (intro strstr_skip_head) auto
  also have "\<dots> = Some ?s" by simp
  finally have 1: "strstr (w @ node_lines (n # nodes) @ qc_endtag name @ r) ''<'' = Some ?s"
    using b(1) by simp
  obtain e where e: "strstr ?s (qc_endtag name) = Some e"
    using strstr_contains [of "''<'' @ b @ ''/>'' @ CHR 0x0A # node_lines nodes" "qc_endtag name" r] by auto
  have "e \<noteq> ?s"
  proof
    assume "e = ?s"
    with e have "starts_with ?s (qc_endtag name)" using strstr_result_starts by blast
    with b(2) show False by (cases b) (auto simp: qc_endtag_def node_body_def)
  qed
  moreover obtain u where u: "?s = u @ e" using strstr_suffix [OF e] by blast
  ultimately have "u \<noteq> []" by auto
  then have le: "length e < length ?s" unfolding u by simp
  have drop: "drop (length n) ?s = [CHR 0x0A] @ node_lines nodes @ qc_endtag name @ r" using b(1) by simp
  have "parse_nodes (qc_endtag name) False ([CHR 0x0A] @ node_lines nodes @ qc_endtag name @ r) (f + 1) t = Some nodes"
    using Cons.prems(2) by (intro Cons.IH) simp_all
  then have rest: "parse_nodes (qc_endtag name) False (drop (length n) ?s) (f + 1) t = Some nodes"
    unfolding drop .
  have "cut_node ?s (CHR ''>'' # ?r) = Some n" using cut_simple(2) [OF b(2), of ?r] b(1) by simp
  with 1 e le cut_simple(1) [OF b(2), of ?r] rest show ?case
    by (subst parse_nodes.simps) (simp only: option.case if_True simp_thms option.map)
qed


text \<open>The file as a whole.\<close>

definition tame_text :: "cstring \<Rightarrow> bool" where
  "tame_text s \<longleftrightarrow> set s \<inter> {apos, CHR ''<'', CHR ''>'', CHR ''=''} = {}"

lemma int_dec_tame: "tame_text (int_dec i)"
  using int_dec_chars [of _ i] by (force simp: tame_text_def isdigit_def)

lemma header_read:
  assumes "tame_text name" "tame_text h"
  shows "get_info (qc_header name f t (Some h) @ r) (qc_starttag name) ''>''
       = Some (''from='' @ [apos] @ int_dec f @ [apos] @ '' to='' @ [apos] @ int_dec t @ [apos] @ '' hash='' @ [apos] @ h @ [apos])"
    and "get_info (''from='' @ [apos] @ int_dec f @ [apos] @ '' to='' @ [apos] @ int_dec t @ [apos] @ '' hash='' @ [apos] @ h @ [apos])
           (''hash='' @ [apos]) [apos] = Some h"
    and "strstr (qc_header name f t (Some h) @ r) (qc_starttag name) = Some (qc_header name f t (Some h) @ r)"
    and "CHR ''<'' \<notin> set (tl (qc_header name f t (Some h)))"
proof -
  let ?a = "''from='' @ [apos] @ int_dec f @ [apos] @ '' to='' @ [apos] @ int_dec t @ [apos] @ '' hash='' @ [apos] @ h @ [apos]"
  have h: "qc_header name f t (Some h) @ r = qc_starttag name @ ?a @ CHR ''>'' # CHR 0x0A # r"
    by (simp add: qc_header_def qc_starttag_def show_ptr_def)
  have ng: "CHR ''>'' \<notin> set ?a" using assms(2) int_dec_tame [of f] int_dec_tame [of t] by (auto simp: tame_text_def)
  show s: "strstr (qc_header name f t (Some h) @ r) (qc_starttag name) = Some (qc_header name f t (Some h) @ r)"
    unfolding h by (rule strstr_here)
  show "get_info (qc_header name f t (Some h) @ r) (qc_starttag name) ''>'' = Some ?a"
    using s unfolding h by (rule get_info_upto [OF ng])
  show "CHR ''<'' \<notin> set (tl (qc_header name f t (Some h)))"
    using assms int_dec_tame [of f] int_dec_tame [of t] by (auto simp: tame_text_def qc_header_def show_ptr_def)
  have "strstr ((int_dec f @ [apos]) @ CHR '' '' # ''to='' @ [apos] @ (int_dec t @ [apos]) @ CHR '' '' # ''hash='' @ [apos] @ h @ [apos]) (''hash'' @ CHR ''='' # [apos])
      = strstr (''to='' @ [apos] @ (int_dec t @ [apos]) @ CHR '' '' # ''hash='' @ [apos] @ h @ [apos]) (''hash'' @ CHR ''='' # [apos])"
    using int_dec_tame [of f] by (intro strstr_skip_field) (auto simp: tame_text_def)
  also have "\<dots> = strstr ((int_dec t @ [apos]) @ CHR '' '' # ''hash='' @ [apos] @ h @ [apos]) (''hash'' @ CHR ''='' # [apos])" by simp
  also have "\<dots> = strstr (''hash='' @ [apos] @ h @ [apos]) (''hash'' @ CHR ''='' # [apos])"
    using int_dec_tame [of t] by (intro strstr_skip_field) (auto simp: tame_text_def)
  finally have "strstr ?a (''hash='' @ [apos]) = Some ((''hash='' @ [apos]) @ h @ apos # [])" by simp
  then show "get_info ?a (''hash='' @ [apos]) [apos] = Some h"
    using assms(2) by (intro get_info_quoted) (auto simp: tame_text_def)
qed

subsection \<open>Properties\<close>

text \<open>A transfer: the chunks with their bounds; the last one is the end.\<close>

fun run_chunks ::
  "cptr \<Rightarrow> (cstring \<times> int \<times> int) list \<Rightarrow> 'c querycache \<Rightarrow> 'c querycache crash" where
  "run_chunks h [] c = Some c"
| "run_chunks h ((str, f, t) # cs) c = (querycache_update True True str h f t (cs = []) c \<bind> run_chunks h cs)"

definition chunk_nodes :: "cstring \<Rightarrow> cstring \<times> int \<times> int \<Rightarrow> cstring list crash" where
  "chunk_nodes name = (\<lambda>(str, f, t).
     parse_nodes (qc_endtag name) True (case strstr str (qc_starttag name) of None \<Rightarrow> str | Some q \<Rightarrow> tl q) f t)"

lemma update_more:
  assumes "qc_parser c = Some parser" "qc_name c = Some name" "qc_open c" "qc_disk c = Some d"
    "f \<noteq> 0" "chunk_nodes name (str, f, t) = Some ns"
  shows "querycache_update True True str h f t is_end c
       = Some (c\<lparr>qc_hash := h, qc_open := \<not> is_end,
            qc_disk := Some (d @ node_lines ns @ (if is_end then qc_endtag name @ [CHR 0x0A] else [])),
            qc_container := fold parser ns (qc_container c)\<rparr>)"
  using assms
  by (auto simp: querycache_update_def querycache_parse_def chunk_nodes_def Let_def node_lines_def qc_endtag_def)

lemma update_first:
  assumes "qc_parser c = Some parser" "qc_name c = Some name" "\<not> qc_open c" "qc_reset c = Some rs"
    "chunk_nodes name (str, 0, t) = Some ns"
  shows "querycache_update True True str h 0 t is_end c
       = Some (c\<lparr>qc_hash := h, qc_open := \<not> is_end,
            qc_disk := Some (qc_header name 0 t h @ node_lines ns @ (if is_end then qc_endtag name @ [CHR 0x0A] else [])),
            qc_container := fold parser ns (rs (qc_container c))\<rparr>)"
  using assms
  by (auto simp: querycache_update_def querycache_parse_def chunk_nodes_def Let_def node_lines_def qc_endtag_def)

lemma run_more:
  assumes "qc_parser c = Some parser" "qc_name c = Some name" "qc_open c" "qc_disk c = Some d"
    "list_all2 (\<lambda>ch ns. fst (snd ch) \<noteq> 0 \<and> chunk_nodes name ch = Some ns) chunks nss" "chunks \<noteq> []"
  shows "run_chunks (Some h) chunks c
       = Some (c\<lparr>qc_hash := Some h, qc_open := False,
            qc_disk := Some (d @ node_lines (concat nss) @ qc_endtag name @ [CHR 0x0A]),
            qc_container := fold parser (concat nss) (qc_container c)\<rparr>)"
  using assms
proof (induction chunks arbitrary: c d nss)
  case Nil
  then show ?case by simp
next
  case (Cons ch chunks)
  obtain str f t where ch: "ch = (str, f, t)" by (cases ch) auto
  from Cons.prems(5) obtain ns nss' where nss: "nss = ns # nss'" "f \<noteq> 0" "chunk_nodes name (str, f, t) = Some ns"
    "list_all2 (\<lambda>ch ns. fst (snd ch) \<noteq> 0 \<and> chunk_nodes name ch = Some ns) chunks nss'"
    by (auto simp: ch list_all2_Cons1)
  note u = update_more [OF Cons.prems(1-4) nss(2,3), of "Some h" "chunks = []"]
  show ?case
  proof (cases "chunks = []")
    case True
    then have "nss' = []" using nss(4) by simp
    then show ?thesis using True u Cons.prems(3) by (simp add: ch nss(1))
  next
    case False
    have "run_chunks (Some h) chunks (c\<lparr>qc_hash := Some h, qc_open := True,
            qc_disk := Some (d @ node_lines ns), qc_container := fold parser ns (qc_container c)\<rparr>)
        = Some ((c\<lparr>qc_hash := Some h, qc_open := True,
            qc_disk := Some (d @ node_lines ns), qc_container := fold parser ns (qc_container c)\<rparr>)
            \<lparr>qc_hash := Some h, qc_open := False,
            qc_disk := Some ((d @ node_lines ns) @ node_lines (concat nss') @ qc_endtag name @ [CHR 0x0A]),
            qc_container := fold parser (concat nss') (fold parser ns (qc_container c))\<rparr>)"
      using Cons.IH [of "c\<lparr>qc_hash := Some h, qc_open := True,
            qc_disk := Some (d @ node_lines ns), qc_container := fold parser ns (qc_container c)\<rparr>" "d @ node_lines ns" nss']
        Cons.prems(1,2) nss(4) False by simp
    then show ?thesis using u False by (simp add: ch nss(1))
  qed
qed

lemma load_written:
  assumes "tame_text name" "tame_text h" "list_all simple_node ns"
    "qc_parser c = Some parser" "qc_name c = Some name" "qc_reset c = Some rs"
    "qc_disk c = Some (qc_header name 0 t (Some h) @ node_lines ns @ qc_endtag name @ [CHR 0x0A])"
  shows "querycache_load True c = Some (c\<lparr>qc_hash := Some h, qc_container := fold parser ns (rs (qc_container c))\<rparr>)"
proof -
  let ?rest = "node_lines ns @ qc_endtag name @ [CHR 0x0A]"
  let ?d = "qc_header name 0 t (Some h) @ ?rest"
  note hr = header_read [OF assms(1,2), where f = 0 and t = t]
  have ne: "qc_header name 0 t (Some h) \<noteq> []" by (simp add: qc_header_def)
  then have tl: "tl ?d = tl (qc_header name 0 t (Some h)) @ ?rest" by simp
  have p: "parse_nodes (qc_endtag name) False (tl ?d) 0 0 = Some ns"
    unfolding tl by (rule parse_node_lines [OF hr(4) assms(3)])
  have pp: "querycache_parse parser ?d 0 0 False c'
      = Some (c'\<lparr>qc_container := fold parser ns (qc_container c')\<rparr>)" if "qc_name c' = Some name" for c'
    using that p hr(3) by (simp add: querycache_parse_def)
  show ?thesis
    using assms(4-7) hr(1,2) ne pp by (simp add: querycache_load_def Let_def)
qed

text \<open>C36: a transfer that is written to the cache file chunk by chunk is read back by a later start of
  the program: the same elements in the same order reach the container, with the same hash.\<close>

theorem querycache_file_roundtrip:
  assumes "qc_parser c = Some parser" "qc_name c = Some name" "\<not> qc_open c" "qc_reset c = Some rs"
    and "tame_text name" "tame_text h"
    and "chunk_nodes name (str, 0, t) = Some ns" "list_all2 (\<lambda>ch ns. fst (snd ch) \<noteq> 0 \<and> chunk_nodes name ch = Some ns) chunks nss"
    and "list_all simple_node (ns @ concat nss)"
  shows "\<exists>c' d. run_chunks (Some h) ((str, 0, t) # chunks) c = Some c'
       \<and> querycache_init True (Some name) (Some parser) (Some rs) (blank\<lparr>qc_disk := qc_disk c'\<rparr>) = Some d
       \<and> qc_hash d = Some h \<and> qc_hash c' = Some h
       \<and> qc_container c' = fold parser (ns @ concat nss) (rs (qc_container c))
       \<and> qc_container d = fold parser (ns @ concat nss) (rs (qc_container blank))"
proof -
  note u = update_first [OF assms(1-4,7), of "Some h" "chunks = []"]
  let ?c' = "c\<lparr>qc_hash := Some h, qc_open := False,
      qc_disk := Some (qc_header name 0 t (Some h) @ node_lines (ns @ concat nss) @ qc_endtag name @ [CHR 0x0A]),
      qc_container := fold parser (ns @ concat nss) (rs (qc_container c))\<rparr>"
  have c': "run_chunks (Some h) ((str, 0, t) # chunks) c = Some ?c'"
  proof (cases "chunks = []")
    case True
    with assms(3,8) u show ?thesis by simp
  next
    case False
    let ?c1 = "c\<lparr>qc_hash := Some h, qc_open := True,
       qc_disk := Some (qc_header name 0 t (Some h) @ node_lines ns), qc_container := fold parser ns (rs (qc_container c))\<rparr>"
    have "run_chunks (Some h) ((str, 0, t) # chunks) c = run_chunks (Some h) chunks ?c1" using u False by simp
    moreover have "run_chunks (Some h) chunks ?c1 = Some (?c1\<lparr>qc_hash := Some h, qc_open := False,
        qc_disk := Some ((qc_header name 0 t (Some h) @ node_lines ns) @ node_lines (concat nss) @ qc_endtag name @ [CHR 0x0A]),
        qc_container := fold parser (concat nss) (qc_container ?c1)\<rparr>)"
      using assms(1,2,8) False by (intro run_more) simp_all
    ultimately show ?thesis by simp
  qed
  have "querycache_init True (Some name) (Some parser) (Some rs) (blank\<lparr>qc_disk := qc_disk ?c'\<rparr>)
      = Some ((blank\<lparr>qc_disk := qc_disk ?c', qc_name := Some name, qc_parser := Some parser, qc_reset := Some rs,
      qc_hash := None, qc_open := False\<rparr>)\<lparr>qc_hash := Some h, qc_container := fold parser (ns @ concat nss) (rs (qc_container blank))\<rparr>)"
    using load_written [OF assms(5,6,9), where c = "blank\<lparr>qc_disk := qc_disk ?c', qc_name := Some name, qc_parser := Some parser,
       qc_reset := Some rs, qc_hash := None, qc_open := False\<rparr>" and parser = parser and rs = rs and t = t]
    by (simp add: querycache_init_def)
  with c' show ?thesis by simp
qed


text \<open>A concrete transfer of two chunks, into a container that lists the elements.\<close>

definition sample_chunk :: "cstring \<Rightarrow> cstring" where
  "sample_chunk x = ''<it ><i n='' @ [apos] @ x @ [apos] @ ''/></it>''"

definition blank_cache :: "cstring list querycache" where
  "blank_cache = \<lparr>qc_parser = Some (\<lambda>n c. c @ [n]), qc_reset = Some (\<lambda>_. []), qc_name = Some ''it'',
     qc_hash = None, qc_open = False, qc_disk = None, qc_container = []\<rparr>"

lemma sample_chunk_nodes:
  "chunk_nodes ''it'' (sample_chunk ''a'', f, f + 1) = Some [''<i n='' @ [apos, CHR ''a'', apos] @ ''/>'']"
proof -
  have c: "cut_node (''<i n='' @ [apos, CHR ''a'', apos] @ ''/></it>'') (''></it>'') = Some (''<i n='' @ [apos, CHR ''a'', apos] @ ''/>'')"
    by (simp add: cut_node_def Let_def)
  have "parse_nodes ''</it>'' True ''</it>'' (f + 1) (f + 1) = Some []" by (subst parse_nodes.simps) simp
  then have "parse_nodes ''</it>'' True (''it ><i n='' @ [apos, CHR ''a'', apos] @ ''/></it>'') f (f + 1)
      = Some [''<i n='' @ [apos, CHR ''a'', apos] @ ''/>'']"
    using c by (subst parse_nodes.simps) simp
  then show ?thesis by (simp add: chunk_nodes_def sample_chunk_def qc_endtag_def qc_starttag_def)
qed

theorem querycache_file_roundtrip_witness:
  "\<exists>c' d. run_chunks (Some ''77'') [(sample_chunk ''a'', 0, 1), (sample_chunk ''a'', 1, 2)] blank_cache = Some c'
     \<and> querycache_init True (Some ''it'') (Some (\<lambda>n c. c @ [n])) (Some (\<lambda>_. [])) (blank_cache\<lparr>qc_disk := qc_disk c'\<rparr>) = Some d
     \<and> qc_hash d = Some ''77'' \<and> qc_container d = qc_container c'"
proof -
  let ?n = "''<i n='' @ [apos, CHR ''a'', apos] @ ''/>''"
  have n0: "chunk_nodes ''it'' (sample_chunk ''a'', 0, 1) = Some [?n]" using sample_chunk_nodes [of 0] by simp
  have n1: "chunk_nodes ''it'' (sample_chunk ''a'', 1, 2) = Some [?n]" using sample_chunk_nodes [of 1] by simp
  have more: "list_all2 (\<lambda>ch ns. fst (snd ch) \<noteq> 0 \<and> chunk_nodes ''it'' ch = Some ns) [(sample_chunk ''a'', 1, 2)] [[?n]]"
    using n1 by simp
  have simple: "list_all simple_node ([?n] @ concat [[?n]])"
    by (auto simp: simple_node_def node_body_def intro!: exI [of _ "''i n='' @ [apos, CHR ''a'', apos]"])
  have cache: "qc_parser blank_cache = Some (\<lambda>n c. c @ [n])" "qc_name blank_cache = Some ''it''" "\<not> qc_open blank_cache"
    "qc_reset blank_cache = Some (\<lambda>_. [])" "tame_text ''it''" "tame_text ''77''"
    by (simp_all add: blank_cache_def tame_text_def)
  from querycache_file_roundtrip [OF cache n0 more simple, where blank = blank_cache] show ?thesis
    by (auto simp: blank_cache_def)
qed

text \<open>a transfer that restarts while the file of an interrupted one is still open appends to it
  without starting over: the file then holds the interrupted chunk twice, although the container does
  not.\<close>

theorem querycache_restart_duplicates:
  "\<exists>c1 c2 n. querycache_update True True (sample_chunk ''a'') (Some ''77'') 0 1 False blank_cache = Some c1
     \<and> querycache_update True True (sample_chunk ''a'') (Some ''77'') 0 1 True c1 = Some c2
     \<and> qc_container c2 = [n]
     \<and> qc_disk c2 = Some (qc_header ''it'' 0 1 (Some ''77'') @ node_lines [n, n] @ qc_endtag ''it'' @ [CHR 0x0A])"
proof -
  let ?n = "''<i n='' @ [apos, CHR ''a'', apos] @ ''/>''"
  have n0: "chunk_nodes ''it'' (sample_chunk ''a'', 0, 1) = Some [?n]" using sample_chunk_nodes [of 0] by simp
  let ?c1 = "blank_cache\<lparr>qc_hash := Some ''77'', qc_open := True,
       qc_disk := Some (qc_header ''it'' 0 1 (Some ''77'') @ node_lines [?n]), qc_container := [?n]\<rparr>"
  have 1: "querycache_update True True (sample_chunk ''a'') (Some ''77'') 0 1 False blank_cache = Some ?c1"
    using update_first [OF _ _ _ _ n0, of blank_cache] by (simp add: blank_cache_def)
  have "querycache_update True True (sample_chunk ''a'') (Some ''77'') 0 1 True ?c1
      = Some (?c1\<lparr>qc_open := False, qc_disk := Some (qc_header ''it'' 0 1 (Some ''77'') @ node_lines [?n, ?n]
           @ qc_endtag ''it'' @ [CHR 0x0A])\<rparr>)"
    using n0 by (simp add: querycache_update_def querycache_parse_def chunk_nodes_def blank_cache_def Let_def
        node_lines_def qc_endtag_def)
  with 1 show ?thesis by fastforce
qed

end
