(* ===== verification/Shop.thy ===== *)
theory Shop
  imports MatchResult QueryCache
begin

text \<open>
  The lists of the game that come through the query cache: the items (\<open>xmpp_iq_items.c\<close>), the offers of the shop
  (\<open>xmpp_iq_shop_get_offers.c\<close>, \<open>src/offer.c\<close>) and the maps of the match search
  (\<open>xmpp_iq_quickplay_maplist.c\<close>).  A parser works on the whole session, since the one of the items also counts
  the locked ones; a session that crashed stays crashed.
\<close>

subsection \<open>Items\<close>

definition upd_wf :: "(wf_info \<Rightarrow> wf_info) \<Rightarrow> 'u session \<Rightarrow> 'u session" where
  "upd_wf f s = s\<lparr>wf := f (wf s)\<rparr>"

lemma upd_wf_simps [simp]:
  "wf (upd_wf f s) = f (wf s)" "profile (upd_wf f s) = profile s" "trace (upd_wf f s) = trace s" "online (upd_wf f s) = online s"
  "cvar (upd_wf f s) = cvar s" "quickplay (upd_wf f s) = quickplay s"
  by (simp_all add: upd_wf_def)

definition new_item :: "cstring \<Rightarrow> cstring \<Rightarrow> game_item" where
  "new_item elt name =
     \<lparr>it_id = sync_uint elt ''id'', it_name = Some name,
      it_locked = (if strstr name ''contract'' \<noteq> None then 0 else sync_uint elt ''locked''),
      it_equipped = 0, it_slot = 0, it_config = None, it_attached_to = 0, it_is_default = 0, it_permanent = 0,
      it_expired_confirmed = 0, it_buy_time_utc = 0, it_expiration_time_utc = 0, it_seconds_left = 0, it_quantity = 0\<rparr>"

definition parse_item :: "cstring \<Rightarrow> 'u session \<Rightarrow> 'u session crash" where
  "parse_item elt s =
     (case attr elt ''name'' of
        None \<Rightarrow> Some s
      | Some name \<Rightarrow>
          do {
            items \<leftarrow> deref (wf_items (wf s));
            i2 \<leftarrow> find_crash (\<lambda>i. strcmp_eq (it_name i) (Some name)) items;
            Some (case i2 of
                    Some _ \<Rightarrow> s
                  | None \<Rightarrow>
                      (let i = new_item elt name in
                       upd_wf (\<lambda>w. w\<lparr>wf_items := Some (i # items), wf_locked := (if it_locked i \<noteq> 0 then wf_locked w + 1 else wf_locked w)\<rparr>) s))
          })"

definition reset_items :: "'u session \<Rightarrow> 'u session" where
  "reset_items s = upd_wf (\<lambda>w. w\<lparr>wf_items := Some [], wf_locked := 0\<rparr>) s"

subsection \<open>Offers\<close>

definition offer_list_get :: "cptr \<Rightarrow> 'u session \<Rightarrow> shop_offer option crash" where
  "offer_list_get name s =
     (case (wf_offers (wf s), name) of
        (Some os, Some n) \<Rightarrow> find_crash (\<lambda>x. strcmp_eq (of_name x) (Some n)) os
      | _ \<Rightarrow> Some None)"

definition offer_list_get_by_id :: "u32 \<Rightarrow> 'u session \<Rightarrow> shop_offer option" where
  "offer_list_get_by_id i s = (case wf_offers (wf s) of None \<Rightarrow> None | Some os \<Rightarrow> find (\<lambda>x. of_id x - i = 0) os)"

definition read_offer_status :: "cptr \<Rightarrow> offer_status" where
  "read_offer_status p =
     (if p = Some ''new'' then OFFER_NEW
      else if p = Some ''sale'' then OFFER_SALE
      else if p = Some ''hot'' then OFFER_HOT
      else OFFER_NORMAL)"

definition price_of :: "cstring \<Rightarrow> cstring \<Rightarrow> u32 \<times> u32" where
  "price_of elt currency = (sync_uint elt (currency @ ''_price_origin''), sync_uint elt (currency @ ''_price''))"

text \<open>The costs of repairing the parts of a set: \<open>name,cost,durability;\<close> for each of them.\<close>

definition token_number :: "cptr \<Rightarrow> u32" where
  "token_number t = (case t of None \<Rightarrow> 0 | Some n \<Rightarrow> c_uint (strtoll n))"

definition repair_item :: "cstring \<Rightarrow> repair_cost_item" where
  "repair_item item =
     (let (name, r1) = get_token item '','';
          (repair_cost, r2) = get_token r1 '','';
          (durability, r3) = get_token r2 '',''
      in \<lparr>rc_name = name, rc_repair_cost = token_number repair_cost, rc_durability = token_number durability\<rparr>)"

function repair_tokens :: "cstring \<Rightarrow> repair_cost_item list \<Rightarrow> repair_cost_item list" where
  "repair_tokens s rs =
     (case get_token s '';'' of
        (None, _) \<Rightarrow> rs
      | (Some item, saveptr) \<Rightarrow> repair_tokens saveptr (repair_item item # rs))"
  by pat_completeness auto

lemma get_token_shorter: "get_token s d = (Some t, r) \<Longrightarrow> length r < length s"
proof -
  assume a: "get_token s d = (Some t, r)"
  let ?t = "skip_any s d"
  have l: "length ?t \<le> length s" by (simp add: skip_any_def length_dropWhile_le)
  have "?t \<noteq> [] \<and> r = drop 1 (dropWhile (\<lambda>c. c \<notin> set d) ?t)" using a by (auto simp: get_token_def strtok_r_def Let_def split: if_splits)
  moreover have "length (dropWhile (\<lambda>c. c \<notin> set d) ?t) \<le> length ?t" by (simp add: length_dropWhile_le)
  ultimately show ?thesis using l by (cases ?t) auto
qed

termination repair_tokens
  by (relation "measure (\<lambda>(s, _). length s)") (auto dest!: get_token_shorter [OF sym])

declare repair_tokens.simps [simp del]

definition read_repairs :: "cstring \<Rightarrow> cptr \<Rightarrow> u32 \<Rightarrow> repair_cost_item list option" where
  "read_repairs elt name durability =
     (case attr elt ''repair_cost'' of
        None \<Rightarrow> None
      | Some s \<Rightarrow>
          (let repair = c_uint (strtoll s) in
           Some (if s = ''0'' \<or> repair \<noteq> 0
                 then [\<lparr>rc_name = name, rc_repair_cost = repair, rc_durability = durability\<rparr>]
                 else repair_tokens s [])))"

definition read_offer :: "cstring \<Rightarrow> shop_offer" where
  "read_offer elt =
     \<lparr>of_id = sync_uint elt '' id'', of_name = attr elt ''name'', of_supplier_id = sync_uint elt ''supplier_id'',
      of_offer_status = read_offer_status (attr elt ''offer_status''),
      of_repairs = read_repairs elt (attr elt ''name'') (sync_uint elt ''durabilityPoints''),
      of_quantity = sync_uint elt ''quantity'', of_expiration_time = attr elt ''expirationTime'',
      of_durability_points = sync_uint elt ''durabilityPoints'', of_discount_percent = sync_uint elt ''discount'',
      of_rank = sync_uint elt ''rank'', of_key_item_name = attr elt ''key_item_name'',
      of_cry = price_of elt ''cry'', of_crown = price_of elt ''crown'', of_game = price_of elt ''game'',
      of_key = sync_uint elt ''key_item_price''\<rparr>"

definition parse_offer :: "cstring \<Rightarrow> 'u session \<Rightarrow> 'u session crash" where
  "parse_offer elt s =
     (case offer_list_get_by_id (sync_uint elt '' id'') s of
        Some _ \<Rightarrow> Some s
      | None \<Rightarrow>
          do {
            os \<leftarrow> deref (wf_offers (wf s));
            Some (upd_wf (\<lambda>w. w\<lparr>wf_offers := Some (read_offer elt # os)\<rparr>) s)
          })"

definition reset_shop :: "'u session \<Rightarrow> 'u session" where
  "reset_shop s = upd_wf (\<lambda>w. w\<lparr>wf_offers := Some []\<rparr>) s"

subsection \<open>Maps of the match search\<close>

definition upd_maps :: "cptr list option \<Rightarrow> 'u session \<Rightarrow> 'u session" where
  "upd_maps l s = s\<lparr>quickplay := (quickplay s)\<lparr>qp_maps := l\<rparr>\<rparr>"

definition parse_map :: "cstring \<Rightarrow> 'u session \<Rightarrow> 'u session crash" where
  "parse_map elt s =
     do {
       ms \<leftarrow> deref (qp_maps (quickplay s));
       m2 \<leftarrow> find_crash (\<lambda>m. strcmp_eq m (attr elt ''mission'')) ms;
       Some (case m2 of None \<Rightarrow> upd_maps (Some (attr elt ''mission'' # ms)) s | Some _ \<Rightarrow> s)
     }"

definition reset_quickplay_maplist :: "'u session \<Rightarrow> 'u session" where
  "reset_quickplay_maplist s = upd_maps (Some []) s"

subsection \<open>The caches\<close>

type_synonym 'u session_cache = "'u session crash querycache"

definition on_session :: "(cstring \<Rightarrow> 'u session \<Rightarrow> 'u session crash) \<Rightarrow> cstring \<Rightarrow> 'u session crash \<Rightarrow> 'u session crash" where
  "on_session parser elt c = do { s \<leftarrow> c; parser elt s }"

definition cache_init ::
  "bool \<Rightarrow> bool \<Rightarrow> cstring \<Rightarrow> (cstring \<Rightarrow> 'u session \<Rightarrow> 'u session crash) \<Rightarrow> ('u session \<Rightarrow> 'u session) \<Rightarrow> 'u session_cache \<Rightarrow> 'u session_cache crash" where
  "cache_init disabled caching name parser reset c =
     (if disabled then Some c else querycache_init caching (Some name) (Some (on_session parser)) (Some (map_option reset)) c)"

definition querycache_items_init :: "bool \<Rightarrow> cvars \<Rightarrow> 'u session_cache \<Rightarrow> 'u session_cache crash" where
  "querycache_items_init caching v c = cache_init (query_disable_items v) caching ''items'' parse_item reset_items c"

text \<open>The switch of the items, not that of the offers.\<close>

definition querycache_shop_get_offers_init :: "bool \<Rightarrow> cvars \<Rightarrow> 'u session_cache \<Rightarrow> 'u session_cache crash" where
  "querycache_shop_get_offers_init caching v c = cache_init (query_disable_items v) caching ''shop_get_offers'' parse_offer reset_shop c"

definition querycache_quickplay_maplist_init :: "bool \<Rightarrow> cvars \<Rightarrow> 'u session_cache \<Rightarrow> 'u session_cache crash" where
  "querycache_quickplay_maplist_init caching v c =
     cache_init (query_disable_quickplay_maplist v) caching ''quickplay_maplist'' parse_map reset_quickplay_maplist c"

definition querycache_items_free :: "'u session_cache \<Rightarrow> 'u session_cache" where
  "querycache_items_free c =
     querycache_free (c\<lparr>qc_container := map_option (upd_wf (\<lambda>w. w\<lparr>wf_items := None\<rparr>)) (qc_container c)\<rparr>)"

definition querycache_shop_get_offers_free :: "'u session_cache \<Rightarrow> 'u session_cache" where
  "querycache_shop_get_offers_free c =
     querycache_free (c\<lparr>qc_container := map_option (upd_wf (\<lambda>w. w\<lparr>wf_offers := None\<rparr>)) (qc_container c)\<rparr>)"

definition querycache_quickplay_maplist_free :: "'u session_cache \<Rightarrow> 'u session_cache" where
  "querycache_quickplay_maplist_free c = querycache_free (c\<lparr>qc_container := map_option (upd_maps None) (qc_container c)\<rparr>)"

subsection \<open>What the lists keep\<close>

definition items_ok :: "'u session \<Rightarrow> bool" where
  "items_ok s \<longleftrightarrow>
     (case wf_items (wf s) of
        None \<Rightarrow> False
      | Some is \<Rightarrow> list_all (\<lambda>i. it_name i \<noteq> None) is \<and> distinct (map it_name is)
          \<and> wf_locked (wf s) = of_nat (length (filter (\<lambda>i. it_locked i \<noteq> 0) is)))"

definition offers_ok :: "'u session \<Rightarrow> bool" where
  "offers_ok s \<longleftrightarrow> (case wf_offers (wf s) of None \<Rightarrow> False | Some os \<Rightarrow> distinct (map of_id os))"

text \<open>Only the two lists change, and what they had stays at their end.\<close>

definition extends :: "'u session \<Rightarrow> 'u session \<Rightarrow> bool" where
  "extends s s' \<longleftrightarrow> (\<exists>f is os. s' = upd_wf f s \<and> wf_shop_hash (wf s') = wf_shop_hash (wf s)
     \<and> wf_items (wf s') = map_option (append is) (wf_items (wf s)) \<and> wf_offers (wf s') = map_option (append os) (wf_offers (wf s)))"

lemma map_append_Nil [simp]: "map_option ((@) []) x = x"
  by (cases x) simp_all

lemma extends_refl [simp]: "extends s s"
  unfolding extends_def by (intro exI [of _ "\<lambda>_. wf s"] exI [of _ "[]"]) (simp add: upd_wf_def)

lemma extends_trans: "extends s t \<Longrightarrow> extends t u \<Longrightarrow> extends s u"
proof -
  assume "extends s t" "extends t u"
  then obtain f i1 o1 g i2 o2 where t: "t = upd_wf f s" "wf_shop_hash (wf t) = wf_shop_hash (wf s)"
    "wf_items (wf t) = map_option (append i1) (wf_items (wf s))" "wf_offers (wf t) = map_option (append o1) (wf_offers (wf s))"
    and u: "u = upd_wf g t" "wf_shop_hash (wf u) = wf_shop_hash (wf t)"
    "wf_items (wf u) = map_option (append i2) (wf_items (wf t))" "wf_offers (wf u) = map_option (append o2) (wf_offers (wf t))"
    unfolding extends_def by blast
  have "u = upd_wf (\<lambda>w. g (f w)) s" by (simp add: u(1) t(1) upd_wf_def)
  then show ?thesis unfolding extends_def
    using t(2-4) u(2-4) by (intro exI [of _ "\<lambda>w. g (f w)"] exI [of _ "i2 @ i1"] exI [of _ "o2 @ o1"]) (cases "wf_items (wf s)"; cases "wf_offers (wf s)"; simp)
qed

lemma item_parsed:
  assumes "items_ok s"
  shows "\<exists>s'. parse_item elt s = Some s' \<and> items_ok s' \<and> extends s s' \<and> (offers_ok s \<longrightarrow> offers_ok s')"
proof -
  obtain l where l: "wf_items (wf s) = Some l" "list_all (\<lambda>i. it_name i \<noteq> None) l" "distinct (map it_name l)"
    "wf_locked (wf s) = of_nat (length (filter (\<lambda>i. it_locked i \<noteq> 0) l))"
    using assms by (auto simp: items_ok_def split: option.splits)
  show ?thesis
  proof (cases "attr elt ''name''")
    case None
    then show ?thesis using assms by (simp add: parse_item_def)
  next
    case (Some name)
    have "strcmp_eq (it_name i) (Some name) = Some (it_name i = Some name)" if "i \<in> set l" for i
      using that l(2) by (auto simp: list_all_iff)
    then have f: "find_crash (\<lambda>i. strcmp_eq (it_name i) (Some name)) l = Some (find (\<lambda>i. it_name i = Some name) l)"
      by (rule find_crash_total)
    show ?thesis
    proof (cases "find (\<lambda>i. it_name i = Some name) l")
      case None
      then have n: "Some name \<notin> it_name ` set l" by (auto simp: find_None_iff)
      let ?i = "new_item elt name"
      let ?s = "upd_wf (\<lambda>w. w\<lparr>wf_items := Some (?i # l), wf_locked := (if it_locked ?i \<noteq> 0 then wf_locked w + 1 else wf_locked w)\<rparr>) s"
      have i: "it_name ?i = Some name" by (simp add: new_item_def)
      have "parse_item elt s = Some ?s" using f None by (simp add: parse_item_def Some l(1) Let_def)
      moreover have "items_ok ?s" using l n i by (auto simp: items_ok_def)
      moreover have "extends s ?s"
        unfolding extends_def using l(1)
        by (intro exI [of _ "\<lambda>w. w\<lparr>wf_items := Some (?i # l), wf_locked := (if it_locked ?i \<noteq> 0 then wf_locked w + 1 else wf_locked w)\<rparr>"]
            exI [of _ "[?i]"] exI [of _ "[]"]) simp
      moreover have "offers_ok s \<longrightarrow> offers_ok ?s" by (simp add: offers_ok_def)
      ultimately show ?thesis by blast
    next
      case (Some i)
      then have "parse_item elt s = Some s" using f by (simp add: parse_item_def \<open>attr elt ''name'' = Some name\<close> l(1))
      then show ?thesis using assms by simp
    qed
  qed
qed

lemma offer_parsed:
  assumes "offers_ok s"
  shows "\<exists>s'. parse_offer elt s = Some s' \<and> offers_ok s' \<and> extends s s' \<and> (items_ok s \<longrightarrow> items_ok s')"
proof -
  obtain l where l: "wf_offers (wf s) = Some l" "distinct (map of_id l)"
    using assms by (auto simp: offers_ok_def split: option.splits)
  show ?thesis
  proof (cases "offer_list_get_by_id (sync_uint elt '' id'') s")
    case (Some x)
    then show ?thesis using assms by (simp add: parse_offer_def)
  next
    case None
    then have n: "\<forall>x\<in>set l. of_id x \<noteq> sync_uint elt '' id''" by (simp add: offer_list_get_by_id_def l(1) find_None_iff)
    let ?s = "upd_wf (\<lambda>w. w\<lparr>wf_offers := Some (read_offer elt # l)\<rparr>) s"
    have "parse_offer elt s = Some ?s" by (simp add: parse_offer_def None l(1))
    moreover have "offers_ok ?s" using l n by (auto simp: offers_ok_def read_offer_def image_iff)
    moreover have "extends s ?s"
      unfolding extends_def using l(1)
      by (intro exI [of _ "\<lambda>w. w\<lparr>wf_offers := Some (read_offer elt # l)\<rparr>"] exI [of _ "[]"] exI [of _ "[read_offer elt]"]) simp
    moreover have "items_ok s \<longrightarrow> items_ok ?s" by (cases "wf_items (wf s)") (simp_all add: items_ok_def)
    ultimately show ?thesis by blast
  qed
qed

text \<open>The chunks of an answer: text, hash, \<open>from\<close>, \<open>to\<close> and whether it is the last.\<close>

type_synonym chunk = "cstring \<times> cptr \<times> int \<times> int \<times> bool"

fun chunks_arrive :: "bool \<Rightarrow> bool \<Rightarrow> chunk list \<Rightarrow> 'c querycache \<Rightarrow> 'c querycache crash" where
  "chunks_arrive caching can_write [] c = Some c"
| "chunks_arrive caching can_write ((str, hash, start, stop, is_end) # chs) c =
     do { c1 \<leftarrow> querycache_update caching can_write str hash start stop is_end c; chunks_arrive caching can_write chs c1 }"

text \<open>A chunk that begins at 0 is the first of a new list.\<close>

definition restarts :: "chunk list \<Rightarrow> bool" where
  "restarts chs \<longleftrightarrow> list_ex (\<lambda>(str, hash, start, stop, is_end). start = 0) chs"

text \<open>The elements of a chunk, and the chunks since the list was emptied last.\<close>

definition chunk_elems :: "bool \<Rightarrow> cptr \<Rightarrow> chunk \<Rightarrow> cstring list" where
  "chunk_elems caching name ch =
     (case ch of (str, hash, start, stop, is_end) \<Rightarrow>
        (case parse_nodes (qc_endtag (show_ptr name)) caching
                (case strstr str (qc_starttag (show_ptr name)) of None \<Rightarrow> str | Some r \<Rightarrow> tl r) start stop of
           None \<Rightarrow> []
         | Some elems \<Rightarrow> elems))"

fun last_list :: "chunk list \<Rightarrow> chunk list" where
  "last_list [] = []"
| "last_list (ch # chs) = (if restarts chs then last_list chs else ch # chs)"

text \<open>The item or the offer of an element is in the list.\<close>

definition item_listed :: "'u session \<Rightarrow> cstring \<Rightarrow> bool" where
  "item_listed s elt \<longleftrightarrow>
     (case (attr elt ''name'', wf_items (wf s)) of
        (Some n, Some l) \<Rightarrow> list_ex (\<lambda>i. it_name i = Some n) l
      | (p, _) \<Rightarrow> p = None)"

definition offer_listed :: "'u session \<Rightarrow> cstring \<Rightarrow> bool" where
  "offer_listed s elt \<longleftrightarrow>
     (case wf_offers (wf s) of None \<Rightarrow> False | Some l \<Rightarrow> list_ex (\<lambda>x. of_id x = sync_uint elt '' id'') l)"

definition shop_cache ::
  "('u session \<Rightarrow> 'u session) \<Rightarrow> ('u session \<Rightarrow> cstring \<Rightarrow> bool) \<Rightarrow> 'u session_cache \<Rightarrow> bool" where
  "shop_cache reset listed c \<longleftrightarrow>
     qc_reset c = Some (map_option reset)
     \<and> (reset = reset_items \<and> listed = item_listed \<and> qc_parser c = Some (on_session parse_item)
        \<or> reset = reset_shop \<and> listed = offer_listed \<and> qc_parser c = Some (on_session parse_offer))"

lemma listed_kept:
  assumes "shop_cache reset listed c" "extends s t" "listed s elt"
  shows "listed t elt"
  using assms
  by (cases "wf_items (wf s)"; cases "wf_offers (wf s)")
    (auto simp: shop_cache_def item_listed_def offer_listed_def extends_def split: option.splits)

lemma item_taken:
  assumes "items_ok s" "parse_item elt s = Some s'"
  shows "item_listed s' elt"
proof (cases "attr elt ''name''")
  case None
  then show ?thesis by (simp add: item_listed_def)
next
  case (Some name)
  obtain l where l: "wf_items (wf s) = Some l" "list_all (\<lambda>i. it_name i \<noteq> None) l"
    using assms(1) by (auto simp: items_ok_def split: option.splits)
  have "strcmp_eq (it_name i) (Some name) = Some (it_name i = Some name)" if "i \<in> set l" for i
    using that l(2) by (auto simp: list_all_iff)
  then have f: "find_crash (\<lambda>i. strcmp_eq (it_name i) (Some name)) l = Some (find (\<lambda>i. it_name i = Some name) l)"
    by (rule find_crash_total)
  show ?thesis
  proof (cases "find (\<lambda>i. it_name i = Some name) l")
    case None
    then show ?thesis using assms(2) f Some l(1) by (auto simp: parse_item_def item_listed_def new_item_def Let_def)
  next
    case (Some i)
    then have "s' = s" using assms(2) f \<open>attr elt ''name'' = Some name\<close> l(1) by (simp add: parse_item_def)
    moreover have "list_ex (\<lambda>i. it_name i = Some name) l" using find_in_set [OF Some] find_holds [OF Some] by (auto simp: list_ex_iff)
    ultimately show ?thesis using \<open>attr elt ''name'' = Some name\<close> l(1) by (simp add: item_listed_def)
  qed
qed

lemma offer_taken: "offers_ok s \<Longrightarrow> parse_offer elt s = Some s' \<Longrightarrow> offer_listed s' elt"
  by (auto simp: parse_offer_def offer_listed_def offers_ok_def offer_list_get_by_id_def read_offer_def find_Some_iff list_ex_iff
      split: option.splits)

lemma reset_kept:
  assumes "shop_cache reset listed c" "items_ok s" "offers_ok s"
  shows "items_ok (reset s) \<and> offers_ok (reset s)"
  using assms by (auto simp: shop_cache_def items_ok_def offers_ok_def reset_items_def reset_shop_def upd_wf_def split: option.splits)

lemma reset_extends:
  assumes "shop_cache reset listed c" "extends s t"
  shows "extends (reset s) (reset t)"
proof -
  obtain f i1 o1 where t: "t = upd_wf f s" "wf_shop_hash (wf t) = wf_shop_hash (wf s)"
    "wf_items (wf t) = map_option (append i1) (wf_items (wf s))" "wf_offers (wf t) = map_option (append o1) (wf_offers (wf s))"
    using assms(2) unfolding extends_def by blast
  let ?g = "\<lambda>_. wf (reset t)"
  from assms(1) consider "reset = reset_items" | "reset = reset_shop" by (auto simp: shop_cache_def)
  then show ?thesis
  proof cases
    case 1
    with t show ?thesis unfolding extends_def
      by (intro exI [of _ ?g] exI [of _ "[]"] exI [of _ o1]) (simp add: reset_items_def upd_wf_def)
  next
    case 2
    with t show ?thesis unfolding extends_def
      by (intro exI [of _ ?g] exI [of _ i1] exI [of _ "[]"]) (simp add: reset_shop_def upd_wf_def)
  qed
qed

lemma reset_twice: "shop_cache reset listed c \<Longrightarrow> reset (reset s) = reset s"
  by (auto simp: shop_cache_def reset_items_def reset_shop_def upd_wf_def)

lemma elems_parsed:
  assumes "shop_cache reset listed c" "qc_parser c = Some p" "items_ok s" "offers_ok s"
  shows "\<exists>s'. fold p elems (Some s) = Some s' \<and> items_ok s' \<and> offers_ok s' \<and> extends s s' \<and> list_all (listed s') elems"
  using assms(3,4)
proof (induction elems arbitrary: s)
  case Nil
  then show ?case by simp
next
  case (Cons n ns)
  from assms(1,2) have "\<exists>s1. p n (Some s) = Some s1 \<and> items_ok s1 \<and> offers_ok s1 \<and> extends s s1 \<and> listed s1 n"
    using item_parsed [OF Cons.prems(1), of n] offer_parsed [OF Cons.prems(2), of n] Cons.prems
      item_taken [OF Cons.prems(1), of n] offer_taken [OF Cons.prems(2), of n]
    by (auto simp: shop_cache_def on_session_def)
  then obtain s1 where s1: "p n (Some s) = Some s1" "items_ok s1" "offers_ok s1" "extends s s1" "listed s1 n" by blast
  from Cons.IH [OF s1(2,3)] obtain s' where s': "fold p ns (Some s1) = Some s'" "items_ok s'" "offers_ok s'" "extends s1 s'"
    "list_all (listed s') ns" by blast
  with s1(1) listed_kept [OF assms(1) s'(4) s1(5)] extends_trans [OF s1(4) s'(4)] show ?case by auto
qed

lemma parse_container:
  "querycache_parse parser str start stop w c = Some c' \<Longrightarrow>
     qc_parser c' = qc_parser c \<and> qc_reset c' = qc_reset c \<and> qc_name c' = qc_name c
     \<and> qc_container c' = fold parser (chunk_elems w (qc_name c) (str, hash, start, stop, is_end)) (qc_container c)"
  by (auto simp: querycache_parse_def bind_eq_Some_conv chunk_elems_def show_ptr_def)

lemma update_container:
  assumes "querycache_update caching can_write str hash start stop is_end c = Some c'" "qc_parser c = Some parser" "qc_reset c = Some reset"
  shows "qc_parser c' = qc_parser c \<and> qc_reset c' = qc_reset c \<and> qc_name c' = qc_name c
    \<and> qc_container c' = fold parser (chunk_elems caching (qc_name c) (str, hash, start, stop, is_end))
        (if start = 0 then reset (qc_container c) else qc_container c)"
proof -
  from assms obtain c3 c4 where "querycache_parse parser str start stop caching c3 = Some c4"
    "qc_parser c3 = qc_parser c" "qc_reset c3 = qc_reset c" "qc_name c3 = qc_name c"
    "qc_container c3 = (if start = 0 then reset (qc_container c) else qc_container c)"
    "qc_parser c' = qc_parser c4" "qc_reset c' = qc_reset c4" "qc_name c' = qc_name c4" "qc_container c' = qc_container c4"
    by (fastforce simp: querycache_update_def bind_eq_Some_conv Let_def split: if_splits)
  with parse_container [of parser str start stop caching c3 c4 hash is_end] show ?thesis by simp
qed

lemma chunk_parsed:
  assumes "shop_cache reset listed c" "querycache_update caching can_write str hash start stop is_end c = Some c'"
    "qc_container c = Some s" "items_ok s" "offers_ok s"
  shows "shop_cache reset listed c' \<and> qc_name c' = qc_name c
    \<and> (\<exists>s'. qc_container c' = Some s' \<and> items_ok s' \<and> offers_ok s' \<and> extends (if start = 0 then reset s else s) s'
         \<and> list_all (listed s') (chunk_elems caching (qc_name c) (str, hash, start, stop, is_end)))"
proof -
  obtain p where p: "qc_parser c = Some p" "qc_reset c = Some (map_option reset)"
    using assms(1) by (auto simp: shop_cache_def)
  let ?s = "if start = 0 then reset s else s"
  have "items_ok ?s" "offers_ok ?s" using assms(4,5) reset_kept [OF assms(1)] by simp_all
  from elems_parsed [OF assms(1) p(1) this, of "chunk_elems caching (qc_name c) (str, hash, start, stop, is_end)"]
    update_container [OF assms(2) p] assms(1,3) show ?thesis by (auto simp: shop_cache_def split: if_splits)
qed

text \<open>C15: whatever chunks of items or offers arrive, no entry fails to be read, item names and offer numbers stay
  distinct and the count of locked items is right; as long as no chunk begins at 0 nothing of what was known is lost
  or changed, and after one that does only the list of that cache was emptied first; all entries that came since then
  are in the list.\<close>

theorem shop_lists_kept:
  assumes "chunks_arrive caching can_write chs c = Some c'" "shop_cache reset listed c"
    and "qc_container c = Some s" "items_ok s" "offers_ok s"
  shows "\<exists>s'. qc_container c' = Some s' \<and> items_ok s' \<and> offers_ok s' \<and> extends (if restarts chs then reset s else s) s'
    \<and> list_all (\<lambda>ch. list_all (listed s') (chunk_elems caching (qc_name c) ch)) (last_list chs)"
  using assms
proof (induction chs arbitrary: c s)
  case Nil
  then show ?case by (auto simp: restarts_def)
next
  case (Cons ch chs)
  obtain str hash start stop is_end where ch: "ch = (str, hash, start, stop, is_end)" by (cases ch)
  with Cons.prems(1) obtain c1 where 1: "querycache_update caching can_write str hash start stop is_end c = Some c1"
    "chunks_arrive caching can_write chs c1 = Some c'" by (auto simp: bind_eq_Some_conv)
  from chunk_parsed [OF Cons.prems(2) 1(1) Cons.prems(3-5)] obtain s1 where s1: "shop_cache reset listed c1" "qc_name c1 = qc_name c"
    "qc_container c1 = Some s1" "items_ok s1" "offers_ok s1" "extends (if start = 0 then reset s else s) s1"
    "list_all (listed s1) (chunk_elems caching (qc_name c) ch)" unfolding ch by blast
  from Cons.IH [OF 1(2) s1(1,3-5)] obtain s' where s': "qc_container c' = Some s'" "items_ok s'" "offers_ok s'"
    "extends (if restarts chs then reset s1 else s1) s'"
    "list_all (\<lambda>ch. list_all (listed s') (chunk_elems caching (qc_name c) ch)) (last_list chs)" unfolding s1(2) by blast
  have "extends (if restarts (ch # chs) then reset s else s) (if restarts chs then reset s1 else s1)"
    using s1(6) reset_extends [OF s1(1) s1(6)] reset_twice [OF s1(1)]
    by (cases "start = 0") (auto simp: restarts_def ch)
  moreover have "last_list chs = chs" if "\<not> restarts chs" using that by (cases chs) (auto simp: restarts_def)
  moreover have "list_all (listed s') (chunk_elems caching (qc_name c) ch)" if "\<not> restarts chs"
    using s1(7) s'(4) that listed_kept [OF s1(1), of s1 s'] by (auto simp: list_all_iff)
  ultimately show ?case using s' extends_trans by (intro exI [of _ s']) (auto split: if_splits)
qed

definition item_chunk :: cstring where
  "item_chunk = ''<items ><item id='' @ [apos] @ ''7'' @ [apos] @ '' name='' @ [apos] @ ''ak'' @ [apos] @ '' locked='' @ [apos] @ ''1'' @ [apos] @ ''/></items>''"

definition item_elem_text :: cstring where
  "item_elem_text = ''<item id='' @ [apos] @ ''7'' @ [apos] @ '' name='' @ [apos] @ ''ak'' @ [apos] @ '' locked='' @ [apos] @ ''1'' @ [apos] @ ''/>''"

definition items_cache :: "nat session_cache" where
  "items_cache = \<lparr>qc_parser = Some (on_session parse_item), qc_reset = Some (map_option reset_items), qc_name = Some ''items'', qc_hash = None,
     qc_open = False, qc_disk = None, qc_container = Some (reset_shop (reset_items demo_session))\<rparr>"

theorem shop_lists_kept_witness:
  "\<exists>c' s'. chunks_arrive False False [(item_chunk, None, 0, 250, False), (item_chunk, None, 250, 500, True)] items_cache = Some c'
     \<and> qc_container c' = Some s' \<and> items_ok s' \<and> offers_ok s' \<and> extends (reset_items (reset_shop (reset_items demo_session))) s'
     \<and> item_listed s' (item_elem_text)"
proof -
  let ?s = "reset_shop (reset_items demo_session)"
  let ?chs = "[(item_chunk, None, 0, 250, False), (item_chunk, None, 250, 500, True)]"
  have p: "parse_nodes ''</items>'' False (case strstr item_chunk ''<items '' of None \<Rightarrow> item_chunk | Some r \<Rightarrow> tl r) 0 250 = Some [item_elem_text]"
    "parse_nodes ''</items>'' False (case strstr item_chunk ''<items '' of None \<Rightarrow> item_chunk | Some r \<Rightarrow> tl r) 250 500 = Some [item_elem_text]"
    by code_simp+
  then have "chunks_arrive False False ?chs items_cache \<noteq> None"
    by (auto simp: querycache_update_def querycache_parse_def items_cache_def qc_starttag_def qc_endtag_def Let_def simp del: strstr.simps)
  then obtain c' where c: "chunks_arrive False False ?chs items_cache = Some c'" by blast
  have "shop_cache reset_items item_listed items_cache" "qc_container items_cache = Some ?s" "items_ok ?s" "offers_ok ?s"
    by (simp_all add: shop_cache_def items_cache_def items_ok_def offers_ok_def reset_items_def reset_shop_def)
  from shop_lists_kept [OF c this] c p(1) show ?thesis
    by (auto simp: restarts_def chunk_elems_def items_cache_def show_ptr_def qc_starttag_def qc_endtag_def simp del: strstr.simps chunks_arrive.simps)
qed

text \<open>The shop follows the switch of the items: the request that is not disabled finds no cache and is not sent.\<close>

lemma shop_follows_items_switch:
  assumes "query_disable_items v" "qc_name c = None"
  shows "querycache_shop_get_offers_init caching v c = Some c \<and> querycache_request caching c = []"
  using assms by (simp add: querycache_shop_get_offers_init_def cache_init_def querycache_request_def)

end
