(* ===== verification/BoxTable.thy ===== *)
theory BoxTable
  imports Session
begin

text \<open>
  The table of random boxes of \<open>src/cmd/cmd_randombox.c\<close>, in its order.  \<open>box_id\<close> is an index into
  \<open>shop_id\<close>; \<open>RandomBox\<close> shows that it never exceeds \<open>SHOP_MAX_BATCH\<close>.
\<close>

definition SHOP_MAX_BATCH :: nat where
  "SHOP_MAX_BATCH = 5"

record shop_box =
  rb_name :: cstring
  rb_shop_name :: cstring
  rb_token_name :: cptr
  rb_max_tokens :: u32
  rb_shop_id :: "u32 list"
  rb_box_id :: nat

definition plain_box :: "cstring \<Rightarrow> cstring \<Rightarrow> shop_box" where
  "plain_box name shop_name =
     \<lparr>rb_name = name, rb_shop_name = shop_name, rb_token_name = None, rb_max_tokens = 0,
      rb_shop_id = replicate SHOP_MAX_BATCH 0, rb_box_id = 0\<rparr>"

definition token_box :: "cstring \<Rightarrow> cstring \<Rightarrow> cstring \<Rightarrow> shop_box" where
  "token_box name shop_name token_name =
     \<lparr>rb_name = name, rb_shop_name = shop_name, rb_token_name = Some token_name, rb_max_tokens = 1000,
      rb_shop_id = replicate SHOP_MAX_BATCH 0, rb_box_id = 0\<rparr>"

definition numbered_boxes :: "shop_box list" where
  "numbered_boxes = [
     token_box ''bullpup'' ''random_box_01'' ''box_token_cry_money_05'',
     token_box ''scarh'' ''random_box_02'' ''box_token_cry_money_34'',
     token_box ''ctar'' ''random_box_03'' ''box_token_cry_money_03'',
     token_box ''as50'' ''random_box_04'' ''box_token_cry_money_04'',
     token_box ''as50-c'' ''random_box_04_crown'' ''box_token_cry_money_04'',
     token_box ''eagle'' ''random_box_05'' ''box_token_cry_money_01'',
     plain_box ''usas12'' ''random_box_06'',
     plain_box ''calico'' ''random_box_07'',
     plain_box ''acr'' ''random_box_08'',
     plain_box ''ump'' ''random_box_09'',
     plain_box ''ump-c'' ''random_box_09_crown'',
     token_box ''ak47'' ''random_box_10'' ''box_token_cry_money_10'',
     plain_box ''mk14'' ''random_box_11'',
     plain_box ''mk14-c'' ''random_box_11_crown'',
     plain_box ''aa12'' ''random_box_12'',
     plain_box ''aa12'' ''random_box_west_12'',
     plain_box ''type97'' ''random_box_13'',
     token_box ''awm'' ''random_box_14'' ''box_token_cry_money_14'',
     plain_box ''xm8'' ''random_box_15'',
     plain_box ''daewoo-k7'' ''random_box_16'',
     plain_box ''daewoo-k7'' ''random_box_west_16'',
     plain_box ''coin'' ''random_box_17'',
     plain_box ''mossberg'' ''random_box_18'',
     plain_box ''machete'' ''random_box_19'',
     plain_box ''machete'' ''random_box_west_19'',
     plain_box ''glock-18c'' ''random_box_20'',
     plain_box ''mcmillan'' ''random_box_21'',
     plain_box ''katana'' ''random_box_22'',
     plain_box ''mg3'' ''random_box_23'',
     plain_box ''mg3'' ''random_box_west_23'',
     plain_box ''six12'' ''random_box_24'',
     plain_box ''pink'' ''random_box_25'',
     plain_box ''grach'' ''random_box_26'',
     plain_box ''grach'' ''random_box_west_26'',
     plain_box ''870'' ''random_box_27'',
     plain_box ''870'' ''random_box_west_27'',
     plain_box ''acrcqb'' ''random_box_28'',
     token_box ''ax308'' ''random_box_29'' ''box_token_cry_money_29'',
     token_box ''para'' ''random_box_30'' ''box_token_cry_money_30'',
     token_box ''para-c'' ''random_box_30_crown'' ''box_token_cry_money_30'',
     plain_box ''skorpion83'' ''random_box_31'',
     plain_box ''skorpion83'' ''random_box_west_31'',
     token_box ''sig-sauer'' ''random_box_32'' ''box_token_cry_money_32'',
     plain_box ''dsa-spr'' ''random_box_33'',
     token_box ''sat'' ''random_box_34'' ''box_token_cry_money_02'',
     token_box ''scarl'' ''random_box_35'' ''box_token_cry_money_35'',
     token_box ''scarl-c'' ''random_box_35_crown'' ''box_token_cry_money_35'',
     token_box ''m16a3'' ''random_box_36'' ''box_token_cry_money_36'',
     token_box ''axe'' ''random_box_37'' ''box_token_cry_money_37'',
     token_box ''remington-r11'' ''random_box_38'' ''box_token_cry_money_38'',
     plain_box ''volcano'' ''random_box_39'',
     token_box ''fabarm-stf'' ''random_box_40'' ''box_token_cry_money_40'',
     token_box ''fabarm-stf-c'' ''random_box_40_crown'' ''box_token_cry_money_40'',
     token_box ''scout'' ''random_box_41'' ''box_token_cry_money_41'',
     token_box ''honey'' ''random_box_42'' ''box_token_cry_money_42'',
     plain_box ''volcano2'' ''random_box_43'',
     plain_box ''europe'' ''random_box_44'',
     plain_box ''es-mossberg'' ''random_box_45'',
     plain_box ''es-mossberg-c'' ''random_box_45_crown'',
     plain_box ''es-scarl'' ''random_box_46'',
     plain_box ''es-scarl-c'' ''random_box_46_crown'',
     plain_box ''es-ax308'' ''random_box_47'',
     plain_box ''es-ax308-c'' ''random_box_47_crown'',
     plain_box ''es-sig-sauer'' ''random_box_48'',
     plain_box ''es-sig-sauer-c'' ''random_box_48_crown'',
     plain_box ''es-katana'' ''random_box_49'',
     plain_box ''es-acr'' ''random_box_50'',
     plain_box ''es-acr-c'' ''random_box_50_crown'',
     plain_box ''dogsoldier'' ''random_box_51'',
     plain_box ''dogengineer'' ''random_box_52'',
     plain_box ''dogmedic'' ''random_box_53'',
     plain_box ''dogsniper'' ''random_box_54'',
     token_box ''fabarm-xlr'' ''random_box_55'' ''box_token_cry_money_55'',
     token_box ''fabarm-xlr-c'' ''random_box_55_crown'' ''box_token_cry_money_55'',
     token_box ''enfield'' ''random_box_56'' ''box_token_cry_money_56'',
     token_box ''enfield-c'' ''random_box_56_crown'' ''box_token_cry_money_56'',
     plain_box ''kommando'' ''random_box_58'',
     plain_box ''kommando'' ''random_box_west_58'',
     token_box ''cz75'' ''random_box_59'' ''box_token_cry_money_59'',
     plain_box ''jade'' ''random_box_60'',
     token_box ''svu-as'' ''random_box_61'' ''box_token_cry_money_61'',
     plain_box ''scarlet'' ''random_box_62'',
     plain_box ''zsd-scarh'' ''random_box_65'',
     plain_box ''zsd-scarh-c'' ''random_box_65_crown'',
     plain_box ''zsd-bullpup'' ''random_box_66'',
     plain_box ''zsd-bullpup-c'' ''random_box_66_crown'',
     plain_box ''zsd-xm8'' ''random_box_67'',
     plain_box ''zsd-xm8-c'' ''random_box_67_crown'',
     plain_box ''zsd-glock-18c'' ''random_box_68'',
     plain_box ''zsd-glock-18c-c'' ''random_box_68_crown'',
     plain_box ''zsd-axe'' ''random_box_69'',
     plain_box ''zsd-axe-c'' ''random_box_69_crown'',
     plain_box ''zsd-scout'' ''random_box_70'',
     plain_box ''zsd-scout-c'' ''random_box_70_crown'',
     token_box ''pecheneg'' ''random_box_72'' ''box_token_cry_money_72'',
     token_box ''mag7'' ''random_box_73'' ''box_token_cry_money_73'',
     token_box ''crazyhorse'' ''random_box_74'' ''box_token_cry_money_74'',
     plain_box ''zsd-atf'' ''random_box_75'',
     plain_box ''zsd-atf-c'' ''random_box_75_crown'',
     token_box ''magpul'' ''random_box_76'' ''box_token_cry_money_76'',
     plain_box ''frzn-m16a3'' ''random_box_77'',
     plain_box ''frzn-fabarm-stf'' ''random_box_78'',
     plain_box ''frzn-honey'' ''random_box_79'',
     plain_box ''frzn-sig-sauer'' ''random_box_80'',
     plain_box ''frzn-scout'' ''random_box_81'',
     plain_box ''frzn-axe'' ''random_box_82'',
     plain_box ''goldsmoke'' ''random_box_skin_83'',
     plain_box ''es-six12'' ''random_box_84'',
     plain_box ''es-six12-c'' ''random_box_84_crown'',
     plain_box ''es-acr-cqb'' ''random_box_85'',
     plain_box ''es-acr-cqb-c'' ''random_box_85_crown'',
     plain_box ''es-mcmillan'' ''random_box_86'',
     plain_box ''es-mcmillan-c'' ''random_box_86_crown'',
     plain_box ''es-glock-18c'' ''random_box_87'',
     plain_box ''es-glock-18c-c'' ''random_box_87_crown'',
     plain_box ''es-machete'' ''random_box_88'',
     plain_box ''es-type97'' ''random_box_89'',
     plain_box ''es-type97-c'' ''random_box_89_crown'',
     token_box ''arx160'' ''random_box_90'' ''box_token_cry_money_90'',
     token_box ''dp12'' ''random_box_91'' ''box_token_cry_money_91'',
     token_box ''pm84'' ''random_box_92'' ''box_token_cry_money_92'',
     token_box ''scorpion-evo'' ''random_box_93'' ''box_token_cry_money_93'',
     token_box ''bushmaster'' ''random_box_94'' ''box_token_cry_money_94'',
     token_box ''swmp-r8'' ''random_box_95'' ''box_token_cry_money_95'',
     token_box ''rpd-custom'' ''random_box_96'' ''box_token_cry_money_96'',
     token_box ''type97as'' ''random_box_97'' ''box_token_cry_money_97'',
     token_box ''winchester'' ''random_box_98'' ''box_token_cry_money_98'',
     token_box ''fabarm-pss10'' ''random_box_99'' ''box_token_cry_money_99'',
     token_box ''desert'' ''random_box_101'' ''box_token_cry_money_101'',
     token_box ''radon'' ''random_box_103'' ''box_token_cry_money_103'',
     token_box ''m1911a1'' ''random_box_104'' ''box_token_cry_money_104'',
     token_box ''s60b3'' ''random_box_105'' ''box_token_cry_money_105'',
     token_box ''fnfal'' ''random_box_113'' ''box_token_cry_money_113'',
     token_box ''qsz92'' ''random_box_120'' ''box_token_cry_money_120'',
     token_box ''derya'' ''random_box_121'' ''box_token_cry_money_121'',
     token_box ''veresk'' ''random_box_122'' ''box_token_cry_money_122'']"

definition weapon_boxes :: "shop_box list" where
  "weapon_boxes = [
     token_box ''micro-roni'' ''box_smg43'' ''box_token_cry_money_smg43'',
     token_box ''fostech'' ''box_weapon_shg45'' ''box_token_cry_money_shg45'',
     token_box ''remington-msr'' ''box_sr44'' ''box_token_cry_money_sr44'',
     token_box ''dp27'' ''box_mg24'' ''box_token_cry_money_mg24'',
     token_box ''taurus'' ''box_pt35'' ''box_token_cry_money_pt35'',
     token_box ''parrot'' ''box_pt37'' ''box_token_cry_money_pt37'',
     token_box ''parrot-c'' ''box_crown_pt37'' ''box_token_cry_money_pt37'',
     token_box ''spike'' ''box_shg46'' ''box_token_cry_money_shg46'',
     token_box ''balisong'' ''box_kn19'' ''box_token_cry_money_kn19'',
     token_box ''harms'' ''box_ar32'' ''box_token_cry_money_ar32'',
     token_box ''harms-c'' ''box_crown_ar32'' ''box_token_cry_money_ar32'',
     token_box ''hcar'' ''box_ar33'' ''box_token_cry_money_ar33'',
     token_box ''hcar-c'' ''box_crown_ar33'' ''box_token_cry_money_ar33'',
     token_box ''ung12'' ''box_shg47'' ''box_token_cry_money_shg47'',
     token_box ''ung12-c'' ''box_crown_shg47'' ''box_token_cry_money_shg47'',
     token_box ''hkg28'' ''box_sr45'' ''box_token_cry_money_sr45'',
     token_box ''hkg28-c'' ''box_crown_sr45'' ''box_token_cry_money_sr45'',
     token_box ''maxim'' ''box_pt38'' ''box_token_cry_money_pt38'',
     token_box ''maxim-c'' ''box_crown_pt38'' ''box_token_cry_money_pt38'',
     token_box ''marlin'' ''box_shg50'' ''box_token_cry_money_shg50'',
     token_box ''marlin-c'' ''box_crown_shg50'' ''box_token_cry_money_shg50'',
     token_box ''lwrc'' ''box_smg45'' ''box_token_cry_money_smg45'',
     token_box ''lwrc-c'' ''box_crown_smg45'' ''box_token_cry_money_smg45'',
     token_box ''mpx'' ''box_mpx'' ''box_token_cry_money_smg46'',
     token_box ''mpx-c'' ''box_crown_mpx'' ''box_token_cry_money_smg46'',
     token_box ''tommy'' ''box_smg47'' ''box_token_cry_money_smg47'',
     token_box ''tommy-c'' ''box_crown_smg47'' ''box_token_cry_money_smg47'',
     token_box ''stoner'' ''box_mg25'' ''box_token_cry_money_mg25'',
     token_box ''stoner-c'' ''box_crown_mg25'' ''box_token_cry_money_mg25'',
     token_box ''ak12'' ''box_ar35'' ''box_token_cry_money_ar35'',
     token_box ''ak12-c'' ''box_crown_ar35'' ''box_token_cry_money_ar35'',
     token_box ''truvelo'' ''box_sr47'' ''box_token_cry_money_sr47'',
     token_box ''truvelo-c'' ''box_crown_sr47'' ''box_token_cry_money_sr47'',
     token_box ''ts12'' ''box_shg52'' ''box_token_cry_money_shg52'',
     token_box ''ts12-c'' ''box_crown_shg52'' ''box_token_cry_money_shg52'',
     token_box ''tec9'' ''box_pt36'' ''box_token_cry_money_pt36'',
     token_box ''tec9-c'' ''box_crown_pt36'' ''box_token_cry_money_pt36'',
     token_box ''f90'' ''box_ar36'' ''box_token_cry_money_ar36'',
     token_box ''f90-c'' ''box_crown_ar36'' ''box_token_cry_money_ar36'',
     token_box ''tomahawk'' ''box_kn21'' ''box_token_cry_money_kn21'',
     token_box ''tomahawk-c'' ''box_crown_kn21'' ''box_token_cry_money_kn21'',
     token_box ''sv98'' ''box_sr48'' ''box_token_cry_money_sr48'',
     token_box ''sv98-c'' ''box_crown_sr48'' ''box_token_cry_money_sr48'',
     token_box ''kraken'' ''box_sr46'' ''box_token_cry_money_sr46'',
     token_box ''typhoon'' ''box_shg51'' ''box_token_cry_money_shg51'',
     token_box ''asval'' ''box_ar23'' ''box_token_cry_money_ar23'',
     token_box ''am17'' ''box_smg49'' ''box_token_cry_money_smg49'',
     token_box ''am17-c'' ''box_crown_smg49'' ''box_token_cry_money_smg49'',
     plain_box ''rad-arx160'' ''random_box_rad01_ar27'',
     plain_box ''rad-katana'' ''random_box_rad01_kn13'',
     plain_box ''rad-axe'' ''random_box_rad01_kn16'',
     plain_box ''rad-pecheneg'' ''random_box_rad01_mg22'',
     plain_box ''rad-m1911a1'' ''random_box_rad01_pt16'',
     plain_box ''rad-swmp-r8'' ''random_box_rad01_pt33'',
     plain_box ''rad-mag7'' ''random_box_rad01_shg40'',
     plain_box ''rad-dp12'' ''random_box_rad01_shg42'',
     plain_box ''rad-honey'' ''random_box_rad01_smg33'',
     plain_box ''rad-scorpion-evo'' ''random_box_rad01_smg38'',
     plain_box ''rad-ax308'' ''random_box_rad01_sr31'',
     plain_box ''rad-remington-r11'' ''random_box_rad01_sr33'',
     plain_box ''ice-arx160'' ''box_ice01_ar27'',
     plain_box ''ice-parrot'' ''box_ice01_pt37'',
     plain_box ''ice-dp12'' ''box_ice01_shg42'',
     plain_box ''ice-scorpion'' ''box_ice01_smg38'',
     plain_box ''ice-bushmaster'' ''box_ice01_sr42'',
     plain_box ''jp-hcar'' ''box_jp01_ar33'',
     plain_box ''jp-katana'' ''box_jp01_kn13'',
     plain_box ''jp-balisong'' ''box_jp01_kn19'',
     plain_box ''jp-rpd-custom'' ''box_jp01_mg23'',
     plain_box ''jp-m1911a1'' ''box_jp01_pt16'',
     plain_box ''jp-swmp-r8'' ''box_jp01_pt33'',
     plain_box ''jp-fabarm-xlr'' ''box_jp01_shg38'',
     plain_box ''jp-mag7'' ''box_jp01_shg40'',
     plain_box ''jp-acrcqb'' ''box_jp01_smg25'',
     plain_box ''jp-scorpion'' ''box_jp01_smg38'',
     plain_box ''jp-crazyhorse'' ''box_jp01_sr38'',
     plain_box ''jp-remington-msr'' ''box_jp01_sr44'',
     plain_box ''santa-benelli'' ''random_box_santa_01'',
     plain_box ''santa-ak103'' ''random_box_santa_02'',
     plain_box ''santa-bizon'' ''random_box_santa_03'',
     plain_box ''santa-dsr'' ''random_box_santa_04'',
     plain_box ''santa-fiveseven'' ''random_box_santa_05'',
     plain_box ''santa-vhs'' ''box_xmas04_ar31'',
     plain_box ''santa-bowie'' ''box_xmas04_kn18'',
     plain_box ''santa-mpa'' ''box_xmas04_pt34'',
     plain_box ''santa-hgc-custom'' ''box_xmas04_shg41'',
     plain_box ''santa-uzi-pro'' ''box_xmas04_smg42'',
     plain_box ''santa-gepard'' ''box_xmas04_sr43'']"

definition event_boxes :: "shop_box list" where
  "event_boxes = [
     plain_box ''frost-saigry'' ''box_xmas05_ar28'',
     plain_box ''frost-bowie'' ''box_xmas05_kn18'',
     plain_box ''frost-mpa'' ''box_xmas05_pt34'',
     plain_box ''frost-sap8'' ''box_xmas05_shg48'',
     plain_box ''frost-uzi-pro'' ''box_xmas05_smg42'',
     plain_box ''frost-gepard'' ''box_xmas05_sr43'',
     plain_box ''dragon-black'' ''box_dragon_black'',
     plain_box ''dragon-jade'' ''box_dragon_jade'',
     plain_box ''dragon-red'' ''box_dragon_red'',
     plain_box ''skins-asval'' ''random_box_skin_01'',
     plain_box ''skins-utas'' ''random_box_skin_02'',
     plain_box ''skins-mxstorm'' ''random_box_skin_03'',
     plain_box ''skins-m98b'' ''random_box_skin_04'',
     plain_box ''skins-m1911a1'' ''random_box_skin_05'',
     plain_box ''anubis-ak103'' ''random_box_skin_06'',
     plain_box ''anubis-alpine'' ''random_box_skin_07'',
     plain_box ''anubis-bizon'' ''random_box_skin_08'',
     plain_box ''anubis-vepr'' ''random_box_skin_09'',
     plain_box ''anubis-python'' ''random_box_skin_10'',
     plain_box ''skin-bird-ak103'' ''random_box_skin_11'',
     plain_box ''skin-bird-bullpup'' ''random_box_skin_12'',
     plain_box ''skin-bird-ctar'' ''random_box_skin_13'',
     plain_box ''skin-bird-mcmillan'' ''random_box_skin_14'',
     plain_box ''skin-bird-glock-18c'' ''random_box_skin_15'',
     plain_box ''skin-bird-axe'' ''random_box_skin_16'',
     plain_box ''skins-ak47'' ''random_box_skin_17'',
     plain_box ''skin-bird-m16a3'' ''random_box_skin_18'',
     plain_box ''anubis-radon'' ''random_box_skin_19'',
     plain_box ''anubis-radon-c'' ''random_box_skin_19_crown'',
     plain_box ''anubis-venom'' ''random_box_skin_20'',
     plain_box ''anubis-venom-c'' ''random_box_skin_20_crown'',
     plain_box ''anubis-orsis'' ''random_box_skin_21'',
     plain_box ''anubis-orsis-c'' ''random_box_skin_21_crown'',
     plain_box ''anubis-pp2000'' ''random_box_skin_22'',
     plain_box ''anubis-pp2000-c'' ''random_box_skin_22_crown'',
     plain_box ''anubis-walther'' ''random_box_skin_23'',
     plain_box ''zsd03'' ''random_box_zsd03_01'',
     plain_box ''zsd03-c'' ''random_box_zsd03_01_crown'',
     plain_box ''skins-balisong'' ''box_skin_kn19'',
     plain_box ''skins-pecheneg'' ''box_skin_mg22'',
     plain_box ''skins-parrot'' ''box_skin_pt32'',
     plain_box ''skins-sat'' ''box_skin_shg35'',
     plain_box ''skins-scorpion'' ''box_skin_smg38'',
     plain_box ''skins-ax308'' ''box_skin_sr31'',
     plain_box ''ec-kommando'' ''box_ec02_kn17'',
     plain_box ''ec-scarl'' ''box_ec02_smg31'',
     plain_box ''ec-mossberg'' ''box_ec02_shg08'',
     plain_box ''ec-mcmillan'' ''box_ec02_sr09'',
     plain_box ''ec-enfield'' ''box_ec02_ar25'',
     plain_box ''ec-cz75'' ''box_ec02_pt32'',
     plain_box ''cny-acr'' ''box_cny01_ar20'',
     plain_box ''cny-marine'' ''box_cny01_kn02'',
     plain_box ''cny-eagle'' ''box_cny01_pt01'',
     plain_box ''cny-cobra'' ''box_cny01_shg11'',
     plain_box ''cny-stf'' ''box_cny01_shg37'',
     plain_box ''cny-daewoo-k1'' ''box_cny01_smg12'',
     plain_box ''cny-acrcqb'' ''box_cny01_smg25'',
     plain_box ''cny-as50'' ''box_cny01_sr04'',
     plain_box ''crown-set1'' ''random_box_crown_01'',
     plain_box ''black-friday'' ''random_box_bf_01'',
     plain_box ''ps4-es'' ''box_ps4_01'',
     plain_box ''ps4-ice'' ''box_ps4_02'',
     plain_box ''ps4-anubis'' ''box_ps4_03'',
     plain_box ''ps4-zsd'' ''box_ps4_04'',
     plain_box ''ps4-rad'' ''box_ps4_05'',
     plain_box ''ps4-secondary'' ''box_ps4_06'',
     plain_box ''ps4-main'' ''box_ps4_07'',
     plain_box ''ps4-radon'' ''box_ps4_01_ar26'',
     plain_box ''ps4-saigry'' ''box_ps4_01_ar28'',
     plain_box ''ps4-fnfal'' ''box_ps4_01_ar30'',
     plain_box ''ps4-axe'' ''box_ps4_01_kn16'',
     plain_box ''ps4-walther'' ''box_ps4_01_pt31'',
     plain_box ''ps4-mpa'' ''box_ps4_01_pt34'',
     plain_box ''ps4-fabarm-pss10'' ''box_ps4_01_shg43'',
     plain_box ''ps4-ung12'' ''box_ps4_01_shg47'',
     plain_box ''ps4-xm8'' ''box_ps4_01_smg08'',
     plain_box ''ps4-hkmp5a5'' ''box_ps4_01_smg39'',
     plain_box ''ps4-dsa-spr'' ''box_ps4_01_sr32'',
     plain_box ''ps4-remington-r11'' ''box_ps4_01_sr33'']"

definition random_box_items :: "shop_box list" where
  "random_box_items = numbered_boxes @ weapon_boxes @ event_boxes"

lemma fresh_boxes:
  "list_all (\<lambda>b. rb_shop_id b = replicate SHOP_MAX_BATCH 0 \<and> rb_box_id b = 0) random_box_items"
  unfolding random_box_items_def list_all_append numbered_boxes_def weapon_boxes_def event_boxes_def list.pred_inject
  by (simp add: plain_box_def token_box_def)

end
