(* ===== verification/RandomBox.thy ===== *)
theory RandomBox
  imports MatchResult Shop BoxTable "HOL-Library.Multiset"
begin

text \<open>
  Buying random boxes (\<open>src/cmd/cmd_randombox.c\<close>): the offers of the boxes are found once and kept in a table,
  cheapest last; a purchase takes the next offers of the box.  The table and the flag that it is filled are the static
  variables of the file.  The callback of a purchase is registered through \<open>rb_cb\<close> with its arguments, the amount
  and the name of the token.
\<close>

subsection \<open>Filling the table\<close>

definition offer_price :: "shop_offer \<Rightarrow> u32" where
  "offer_price x = snd (of_game x) + snd (of_crown x) + snd (of_cry x) + of_key x"

text \<open>The new offer goes through the slots in use; where it is dearer it stays and the other one moves on.\<close>

fun sift :: "'u session \<Rightarrow> u32 list \<Rightarrow> shop_offer \<Rightarrow> (u32 list \<times> shop_offer) crash" where
  "sift s [] x = Some ([], x)"
| "sift s (i # is) x =
     do {
       y \<leftarrow> offer_list_get_by_id i s;
       if offer_price y < offer_price x
       then do { (ids, z) \<leftarrow> sift s is y; Some (of_id x # ids, z) }
       else do { (ids, z) \<leftarrow> sift s is x; Some (i # ids, z) }
     }"

definition init_rb_item :: "'u session \<Rightarrow> shop_offer \<Rightarrow> shop_box \<Rightarrow> shop_box crash" where
  "init_rb_item s x rb =
     (if SHOP_MAX_BATCH \<le> rb_box_id rb then None
      else if rb_shop_id rb ! rb_box_id rb \<noteq> 0 then Some rb
      else do {
        same \<leftarrow> strcmp_eq (of_name x) (Some (rb_shop_name rb));
        if same
        then do {
               (ids, z) \<leftarrow> sift s (take (rb_box_id rb) (rb_shop_id rb)) x;
               let n = rb_box_id rb + 1;
               Some (rb\<lparr>rb_shop_id := ids @ of_id z # drop n (rb_shop_id rb), rb_box_id := (if SHOP_MAX_BATCH \<le> n then 0 else n)\<rparr>)
             }
        else Some rb
      })"

record shop_state =
  boxes_ready :: bool
  boxes :: "shop_box list"

definition shop_start :: shop_state where
  "shop_start = \<lparr>boxes_ready = False, boxes = random_box_items\<rparr>"

fun map_crash :: "('a \<Rightarrow> 'b crash) \<Rightarrow> 'a list \<Rightarrow> 'b list crash" where
  "map_crash f [] = Some []"
| "map_crash f (x # xs) = do { y \<leftarrow> f x; ys \<leftarrow> map_crash f xs; Some (y # ys) }"

fun fill_box :: "'u session \<Rightarrow> shop_offer list \<Rightarrow> shop_box \<Rightarrow> shop_box crash" where
  "fill_box s [] rb = Some rb"
| "fill_box s (x # xs) rb = do { rb' \<leftarrow> init_rb_item s x rb; fill_box s xs rb' }"

definition init_rb_items :: "'u session \<Rightarrow> shop_state \<Rightarrow> shop_state crash" where
  "init_rb_items s st =
     (if boxes_ready st then Some st
      else (case wf_offers (wf s) of
              None \<Rightarrow> Some st
            | Some os \<Rightarrow> do { bs \<leftarrow> map_crash (fill_box s os) (boxes st); Some (st\<lparr>boxes := bs, boxes_ready := True\<rparr>) }))"

subsection \<open>The list of boxes\<close>

definition profile_item_list_get :: "cptr \<Rightarrow> 'u session \<Rightarrow> game_item option crash" where
  "profile_item_list_get name s = item_list_get (pr_items (profile s)) name"

text \<open>A row: name, whether the money is enough, price, currency, tokens, tokens that are needed.\<close>

datatype currency = CRY | CROWN | GAME | KEY | NO_CURRENCY

definition box_price :: "shop_offer \<Rightarrow> profile_info \<Rightarrow> currency \<times> u32 \<times> bool" where
  "box_price x p =
     (if snd (of_cry x) \<noteq> 0 then (CRY, snd (of_cry x), snd (of_cry x) \<le> pr_money_cry p)
      else if snd (of_crown x) \<noteq> 0 then (CROWN, snd (of_crown x), snd (of_crown x) \<le> pr_money_crown p)
      else if snd (of_game x) \<noteq> 0 then (GAME, snd (of_game x), snd (of_game x) \<le> pr_money_game p)
      else if of_key x \<noteq> 0 then (KEY, of_key x, False)
      else (NO_CURRENCY, 0, False))"

definition box_row :: "'u session \<Rightarrow> shop_box \<Rightarrow> (cstring \<times> (currency \<times> u32 \<times> bool) \<times> (u32 \<times> u32) option) option crash" where
  "box_row s rb =
     (if rb_shop_id rb ! 0 = 0 then Some None
      else do {
        x \<leftarrow> offer_list_get_by_id (rb_shop_id rb ! 0) s;
        tokens \<leftarrow> (case rb_token_name rb of
                      None \<Rightarrow> Some None
                    | Some t \<Rightarrow> do { it \<leftarrow> profile_item_list_get (Some t) s; Some (Some (case it of None \<Rightarrow> 0 | Some i \<Rightarrow> it_quantity i, rb_max_tokens rb)) });
        Some (Some (rb_name rb, box_price x (profile s), tokens))
      })"

subsection \<open>Buying\<close>

definition is_box :: "cstring \<Rightarrow> shop_box \<Rightarrow> bool" where
  "is_box name rb \<longleftrightarrow> (name = rb_name rb \<or> name = rb_shop_name rb) \<and> rb_shop_id rb ! 0 \<noteq> 0"

definition offer_elem :: "u32 \<Rightarrow> cstring" where
  "offer_elem i = ''<offer '' @ q ''id'' (fmt_d i) @ ''/>''"

text \<open>The slots from \<open>i\<close> on; reading outside of the array is a crash.\<close>

fun take_offers :: "u32 list \<Rightarrow> nat \<Rightarrow> nat \<Rightarrow> (u32 list \<times> nat) crash" where
  "take_offers ids i 0 = Some ([], i)"
| "take_offers ids i (Suc n) =
     (if length ids \<le> i then None else do { (xs, j) \<leftarrow> take_offers ids (i + 1) n; Some (ids ! i # xs, j) })"

definition purchase_query :: "cptr \<Rightarrow> u32 list \<Rightarrow> cstring" where
  "purchase_query hash ids =
     k01_query (''<shop_buy_multiple_offer '' @ q ''hash'' (show_ptr hash) @ '' supplier_id='' @ [apos] @ ''1'' @ [apos] @ ''>''
       @ concat (map offer_elem ids) @ ''</shop_buy_multiple_offer>'')"

definition buy_box :: "(u32 \<Rightarrow> cptr \<Rightarrow> 'u) \<Rightarrow> u32 \<Rightarrow> shop_box \<Rightarrow> 'u session \<Rightarrow> (shop_box \<times> 'u session) crash" where
  "buy_box rb_cb amount rb s =
     do {
       let start = (if SHOP_MAX_BATCH < rb_box_id rb + unat amount then 0 else rb_box_id rb);
       (ids, next) \<leftarrow> take_offers (rb_shop_id rb) start (unat amount);
       s' \<leftarrow> send_iq_get (JID_MS (ol_channel (online s)) s) (Some (CB_caller (rb_cb amount (rb_token_name rb))))
          (purchase_query (wf_shop_hash (wf s)) ids) s;
       Some (rb\<lparr>rb_box_id := next\<rparr>, s')
     }"

fun buy_first :: "(u32 \<Rightarrow> cptr \<Rightarrow> 'u) \<Rightarrow> cstring \<Rightarrow> u32 \<Rightarrow> shop_box list \<Rightarrow> 'u session \<Rightarrow> (shop_box list \<times> 'u session) crash" where
  "buy_first rb_cb name amount [] s = Some ([], s)"
| "buy_first rb_cb name amount (rb # rbs) s =
     (if is_box name rb then do { (rb', s') \<leftarrow> buy_box rb_cb amount rb s; Some (rb' # rbs, s') }
      else do { (rbs', s') \<leftarrow> buy_first rb_cb name amount rbs s; Some (rb # rbs', s') })"

definition cmd_randombox :: "(u32 \<Rightarrow> cptr \<Rightarrow> 'u) \<Rightarrow> cptr \<Rightarrow> u32 \<Rightarrow> shop_state \<Rightarrow> 'u session \<Rightarrow> (shop_state \<times> 'u session) crash" where
  "cmd_randombox rb_cb name amount st s =
     do {
       st1 \<leftarrow> init_rb_items s st;
       (case name of
          None \<Rightarrow> do { _ \<leftarrow> map_crash (box_row s) (boxes st1); Some (st1, s) }
        | Some n \<Rightarrow>
            if amount = 0 \<or> 5 < amount then Some (st1, s)
            else do { (bs, s') \<leftarrow> buy_first rb_cb n amount (boxes st1) s; Some (st1\<lparr>boxes := bs\<rparr>, s') })
     }"

definition cmd_randombox_wrapper :: "(u32 \<Rightarrow> cptr \<Rightarrow> 'u) \<Rightarrow> cptr \<Rightarrow> cptr \<Rightarrow> shop_state \<Rightarrow> 'u session \<Rightarrow> (shop_state \<times> 'u session) crash" where
  "cmd_randombox_wrapper rb_cb name count_str st s =
     (case (name, count_str) of
        (None, _) \<Rightarrow> cmd_randombox rb_cb None 0 st s
      | (Some n, Some c) \<Rightarrow> cmd_randombox rb_cb (Some n) (c_uint (strtoll c)) st s
      | (Some n, None) \<Rightarrow> Some (st, s))"

definition cmd_randombox_completions :: "int \<Rightarrow> 'u session \<Rightarrow> shop_state \<Rightarrow> cstring list \<Rightarrow> (shop_state \<times> cstring list) crash" where
  "cmd_randombox_completions arg_index s st l =
     (if arg_index = 1
      then do {
             st1 \<leftarrow> init_rb_items s st;
             Some (st1, rev (map rb_name (filter (\<lambda>rb. rb_shop_id rb ! 0 \<noteq> 0) (boxes st1))) @ l)
           }
      else if arg_index = 2 then Some (st, [''5'', ''4'', ''3'', ''2'', ''1''] @ l)
      else Some (st, l))"

subsection \<open>The answer\<close>

text \<open>The purchased things: experience and crowns are summed up, a permanent item asks for a new profile.\<close>

definition attr_starts_0 :: "cptr \<Rightarrow> bool" where
  "attr_starts_0 p = (case p of None \<Rightarrow> True | Some v \<Rightarrow> v \<noteq> [] \<and> hd v = CHR ''0'')"

definition is_permanent :: "cstring \<Rightarrow> bool" where
  "is_permanent m \<longleftrightarrow> attr_starts_0 (attr m ''added_expiration'') \<and> attr_starts_0 (attr m ''added_quantity'') \<and> attr_int m ''permanent'' = 0"

function purchased :: "cstring \<Rightarrow> u32 \<Rightarrow> u32 \<Rightarrow> bool \<Rightarrow> (u32 \<times> u32 \<times> bool) crash" where
  "purchased m total_xp total_crown resync =
     (let exp_s = strstr m ''<exp''; crown_s = strstr m ''<crown_money''; profile_item_s = strstr m ''<profile_item'' in
      if comes_first exp_s profile_item_s crown_s
      then do {
             e \<leftarrow> exp_s;
             if length e < 5 then None
             else purchased (drop 5 e) (total_xp + sync_uint (drop 5 e) ''added'') total_crown resync
           }
      else if comes_first crown_s profile_item_s exp_s
      then do {
             c \<leftarrow> crown_s;
             if length c < 13 then None
             else purchased (drop 13 c) total_xp (total_crown + sync_uint (drop 13 c) ''added'') resync
           }
      else (case profile_item_s of
              None \<Rightarrow> Some (total_xp, total_crown, resync)
            | Some i \<Rightarrow> if length i < 14 then None
                        else purchased (drop 14 i) total_xp total_crown (resync \<or> is_permanent (drop 14 i))))"
  by pat_completeness auto
termination
  by (relation "measure (\<lambda>(m, _, _, _). length m)") (auto dest!: strstr_length [OF sym])

declare purchased.simps [simp del]

definition profile_item_list_update :: "'u option \<Rightarrow> 'u session \<Rightarrow> 'u session crash" where
  "profile_item_list_update cb s = xmpp_iq_resync_profile cb s"

definition add_tokens :: "u32 \<Rightarrow> cptr \<Rightarrow> 'u session \<Rightarrow> ('u session \<times> bool) crash" where
  "add_tokens amount token s =
     (case token of
        None \<Rightarrow> Some (s, False)
      | Some t \<Rightarrow>
          do {
            it \<leftarrow> profile_item_list_get (Some t) s;
            (case (it, pr_items (profile s)) of
               (Some _, Some l) \<Rightarrow>
                 do {
                   l' \<leftarrow> modify_crash (\<lambda>i. strcmp_eq (it_name i) (Some t)) (\<lambda>i. i\<lparr>it_quantity := it_quantity i + amount\<rparr>) l;
                   Some (upd_profile (\<lambda>p. p\<lparr>pr_items := Some l'\<rparr>) s, False)
                 }
             | _ \<Rightarrow> Some (s, True))
          })"

definition randombox_cb :: "u32 \<Rightarrow> cptr \<Rightarrow> cptr \<Rightarrow> xmpp_msg_type \<Rightarrow> 'u session \<Rightarrow> 'u session crash" where
  "randombox_cb amount token content type s =
     (if type = XMPP_TYPE_ERROR then Some s
      else (case content of
              None \<Rightarrow> Some s
            | Some data \<Rightarrow>
                (let error_code = sync_uint data ''error_status'' in
                 case strstr data ''<shop_buy_multiple_offer'' of
                   None \<Rightarrow> Some s
                 | Some m \<Rightarrow>
                     if 1 < error_code then Some s
                     else if length m < 25 then None
                     else do {
                       (xp, crown, permanent) \<leftarrow> purchased (drop 25 m) 0 0 False;
                       let s1 = upd_profile (\<lambda>p. p\<lparr>pr_experience := pr_experience p + xp, pr_money_game := sync_uint data ''game_money'',
                                  pr_money_crown := sync_uint data ''crown_money'', pr_money_cry := sync_uint data ''cry_money''\<rparr>) s;
                       (s2, unknown) \<leftarrow> (if error_code = 1 then Some (s1, True) else add_tokens amount token s1);
                       if permanent \<or> unknown then profile_item_list_update None s2 else Some s2
                     })))"

subsection \<open>Which offers a box gets\<close>

definition by_price :: "shop_offer list \<Rightarrow> bool" where
  "by_price xs \<longleftrightarrow> sorted_wrt (\<lambda>x y. offer_price y \<le> offer_price x) xs"

text \<open>A box of the table that holds the given offers.\<close>

definition with_offers :: "shop_box \<Rightarrow> shop_offer list \<Rightarrow> shop_box" where
  "with_offers rb xs = rb\<lparr>rb_shop_id := map of_id xs @ replicate (SHOP_MAX_BATCH - length xs) 0,
     rb_box_id := (if length xs = SHOP_MAX_BATCH then 0 else length xs)\<rparr>"

definition offers_of :: "shop_box \<Rightarrow> shop_offer list \<Rightarrow> shop_offer list" where
  "offers_of rb xs = filter (\<lambda>x. of_name x = Some (rb_shop_name rb)) xs"

definition plain_offers :: "'u session \<Rightarrow> shop_offer list \<Rightarrow> bool" where
  "plain_offers s xs \<longleftrightarrow> list_all (\<lambda>x. of_id x \<noteq> 0 \<and> of_name x \<noteq> None \<and> offer_list_get_by_id (of_id x) s = Some x) xs"

lemma sift_sorted:
  assumes "plain_offers s (x # ys)" "by_price ys"
  shows "\<exists>zs z. sift s (map of_id ys) x = Some (map of_id zs, z) \<and> mset (zs @ [z]) = mset (x # ys) \<and> by_price (zs @ [z])"
  using assms
proof (induction ys arbitrary: x)
  case Nil
  then show ?case by (intro exI [of _ "[]"]) (simp add: by_price_def)
next
  case (Cons y ys)
  have y: "offer_list_get_by_id (of_id y) s = Some y" using Cons.prems(1) by (simp add: plain_offers_def)
  have ys: "by_price ys" "\<And>w. w \<in> set ys \<Longrightarrow> offer_price w \<le> offer_price y" using Cons.prems(2) by (auto simp: by_price_def)
  show ?case
  proof (cases "offer_price y < offer_price x")
    case True
    from Cons.IH [of y] Cons.prems(1) ys(1)
    obtain zs z where z: "sift s (map of_id ys) y = Some (map of_id zs, z)" "mset (zs @ [z]) = mset (y # ys)" "by_price (zs @ [z])"
      by (auto simp: plain_offers_def)
    have "\<And>w. w \<in> set (zs @ [z]) \<Longrightarrow> offer_price w \<le> offer_price x"
      using ys(2) True unfolding mset_eq_setD [OF z(2)] by force
    then show ?thesis using True y z by (intro exI [of _ "x # zs"] exI [of _ z]) (auto simp: by_price_def)
  next
    case False
    from Cons.IH [of x] Cons.prems(1) ys(1)
    obtain zs z where z: "sift s (map of_id ys) x = Some (map of_id zs, z)" "mset (zs @ [z]) = mset (x # ys)" "by_price (zs @ [z])"
      by (auto simp: plain_offers_def)
    have "\<And>w. w \<in> set (zs @ [z]) \<Longrightarrow> offer_price w \<le> offer_price y"
      using ys(2) False unfolding mset_eq_setD [OF z(2)] by force
    then show ?thesis using False y z by (intro exI [of _ "y # zs"] exI [of _ z]) (auto simp: by_price_def)
  qed
qed

lemma init_rb_item_with:
  assumes "plain_offers s (x # ys)" "by_price ys" "length ys \<le> SHOP_MAX_BATCH"
  shows "\<exists>zs. init_rb_item s x (with_offers rb ys) = Some (with_offers rb zs) \<and> by_price zs \<and> plain_offers s zs
    \<and> mset zs = mset (ys @ take (SHOP_MAX_BATCH - length ys) (offers_of rb [x]))"
proof (cases "length ys = SHOP_MAX_BATCH")
  case True
  then have "rb_shop_id (with_offers rb ys) ! 0 \<noteq> 0" using assms(1) by (cases ys) (auto simp: with_offers_def plain_offers_def SHOP_MAX_BATCH_def)
  then have "init_rb_item s x (with_offers rb ys) = Some (with_offers rb ys)"
    using True by (simp add: init_rb_item_def with_offers_def SHOP_MAX_BATCH_def)
  then show ?thesis using assms True by (intro exI [of _ ys]) (simp add: plain_offers_def)
next
  case False
  then have n: "length ys < SHOP_MAX_BATCH" using assms(3) by simp
  then have free: "rb_shop_id (with_offers rb ys) ! rb_box_id (with_offers rb ys) = 0" "rb_box_id (with_offers rb ys) = length ys"
    "take (length ys) (rb_shop_id (with_offers rb ys)) = map of_id ys"
    by (simp_all add: with_offers_def nth_append)
  obtain nm where nm: "of_name x = Some nm" using assms(1) by (auto simp: plain_offers_def)
  show ?thesis
  proof (cases "of_name x = Some (rb_shop_name rb)")
    case True
    from sift_sorted [OF assms(1,2)] obtain zs z where z: "sift s (map of_id ys) x = Some (map of_id zs, z)"
      "mset (zs @ [z]) = mset (x # ys)" "by_price (zs @ [z])" by blast
    have l: "length (zs @ [z]) = Suc (length ys)" using mset_eq_length [OF z(2)] by simp
    have "drop (Suc (length ys)) (rb_shop_id (with_offers rb ys)) = replicate (SHOP_MAX_BATCH - length (zs @ [z])) 0"
      using n l by (simp add: with_offers_def)
    then have "init_rb_item s x (with_offers rb ys) = Some (with_offers rb (zs @ [z]))"
      using n l free True z(1) by (simp add: init_rb_item_def) (simp add: with_offers_def)
    moreover have "plain_offers s (zs @ [z])"
      using assms(1) unfolding plain_offers_def list_all_iff mset_eq_setD [OF z(2)] .
    ultimately show ?thesis using z n True by (intro exI [of _ "zs @ [z]"]) (simp add: offers_of_def)
  next
    case False
    then have "init_rb_item s x (with_offers rb ys) = Some (with_offers rb ys)"
      using n free nm by (simp add: init_rb_item_def) (simp add: with_offers_def)
    then show ?thesis using assms False by (intro exI [of _ ys]) (simp add: plain_offers_def offers_of_def)
  qed
qed

lemma fill_box_with:
  assumes "plain_offers s (xs @ ys)" "by_price ys" "length ys \<le> SHOP_MAX_BATCH"
  shows "\<exists>zs. fill_box s xs (with_offers rb ys) = Some (with_offers rb zs) \<and> by_price zs \<and> plain_offers s zs
    \<and> mset zs = mset (ys @ take (SHOP_MAX_BATCH - length ys) (offers_of rb xs))"
  using assms
proof (induction xs arbitrary: ys)
  case Nil
  then show ?case by (intro exI [of _ ys]) (simp add: offers_of_def)
next
  case (Cons x xs)
  have p: "plain_offers s (x # ys)" using Cons.prems(1) by (simp add: plain_offers_def)
  from init_rb_item_with [OF p Cons.prems(2,3)] obtain y1 where y1: "init_rb_item s x (with_offers rb ys) = Some (with_offers rb y1)"
    "by_price y1" "plain_offers s y1" "mset y1 = mset (ys @ take (SHOP_MAX_BATCH - length ys) (offers_of rb [x]))" by blast
  have l: "length y1 = length (ys @ take (SHOP_MAX_BATCH - length ys) (offers_of rb [x]))" using mset_eq_length [OF y1(4)] .
  then have l1: "length y1 \<le> SHOP_MAX_BATCH" using Cons.prems(3) by simp
  have p1: "plain_offers s (xs @ y1)" using Cons.prems(1) y1(3) by (simp add: plain_offers_def)
  from Cons.IH [OF p1 y1(2) l1] obtain zs where zs: "fill_box s xs (with_offers rb y1) = Some (with_offers rb zs)" "by_price zs"
    "plain_offers s zs" "mset zs = mset (y1 @ take (SHOP_MAX_BATCH - length y1) (offers_of rb xs))" by blast
  have "mset zs = mset (ys @ take (SHOP_MAX_BATCH - length ys) (offers_of rb (x # xs)))"
    using zs(4) y1(4) l Cons.prems(3)
    by (cases "of_name x = Some (rb_shop_name rb)"; cases "SHOP_MAX_BATCH - length ys") (simp_all add: offers_of_def diff_Suc)
  then show ?case using zs y1 by (intro exI [of _ zs]) simp
qed

lemma fresh_with: "rb_shop_id b = replicate SHOP_MAX_BATCH 0 \<and> rb_box_id b = 0 \<Longrightarrow> with_offers b [] = b"
  by (simp add: with_offers_def SHOP_MAX_BATCH_def)

lemma fresh_table: "list_all (\<lambda>b. with_offers b [] = b) random_box_items"
  using fresh_boxes unfolding list_all_iff by (blast intro: fresh_with)

lemma plain_offers_shop:
  assumes "wf_offers (wf s) = Some xs" "offers_ok s" "list_all (\<lambda>x. of_id x \<noteq> 0 \<and> of_name x \<noteq> None) xs"
  shows "plain_offers s xs"
proof -
  have "find (\<lambda>y. of_id y - of_id x = 0) xs = Some x" if "x \<in> set xs" for x
  proof (cases "find (\<lambda>y. of_id y - of_id x = 0) xs")
    case None
    then show ?thesis using that by (auto simp: find_None_iff)
  next
    case (Some y)
    then have "y \<in> set xs" "of_id y = of_id x" by (auto simp: find_Some_iff)
    then show ?thesis using Some that assms(1,2) by (auto simp: offers_ok_def distinct_map dest: inj_onD)
  qed
  then show ?thesis using assms(1,3) by (auto simp: plain_offers_def list_all_iff offer_list_get_by_id_def)
qed

lemma map_crash_all: "(\<And>x. x \<in> set xs \<Longrightarrow> \<exists>y. f x = Some y \<and> R x y) \<Longrightarrow> \<exists>ys. map_crash f xs = Some ys \<and> list_all2 R xs ys"
proof (induction xs)
  case (Cons x xs)
  obtain y where "f x = Some y" "R x y" using Cons.prems [of x] by auto
  moreover obtain ys where "map_crash f xs = Some ys" "list_all2 R xs ys" using Cons by auto
  ultimately show ?case by (intro exI [of _ "y # ys"]) simp
qed simp

lemma fill_boxes:
  assumes "plain_offers s xs" "list_all (\<lambda>b. with_offers b [] = b) bs"
  shows "\<exists>bs'. map_crash (fill_box s xs) bs = Some bs' \<and> list_all2 (\<lambda>b b'. \<exists>zs. b' = with_offers b zs \<and> by_price zs
    \<and> plain_offers s zs \<and> mset zs = mset (take SHOP_MAX_BATCH (offers_of b xs))) bs bs'"
proof (rule map_crash_all)
  fix b
  assume "b \<in> set bs"
  then have "with_offers b [] = b" using assms(2) by (simp add: list_all_iff)
  with fill_box_with [of s xs "[]" b] assms(1)
  show "\<exists>b'. fill_box s xs b = Some b' \<and> (\<exists>zs. b' = with_offers b zs \<and> by_price zs \<and> plain_offers s zs
    \<and> mset zs = mset (take SHOP_MAX_BATCH (offers_of b xs)))" by (auto simp: by_price_def)
qed

text \<open>C16: Every box of the table gets the first five offers of its name, ordered by falling price, and no other
  number.\<close>

theorem box_offers_sorted:
  assumes "wf_offers (wf s) = Some xs" "offers_ok s" "list_all (\<lambda>x. of_id x \<noteq> 0 \<and> of_name x \<noteq> None) xs"
  shows "\<exists>st. init_rb_items s shop_start = Some st \<and> boxes_ready st
    \<and> list_all2 (\<lambda>b b'. \<exists>zs. b' = with_offers b zs \<and> by_price zs \<and> mset zs = mset (take SHOP_MAX_BATCH (offers_of b xs)))
        random_box_items (boxes st)"
proof -
  from fill_boxes [OF plain_offers_shop [OF assms] fresh_table] obtain bs where bs: "map_crash (fill_box s xs) random_box_items = Some bs"
    "list_all2 (\<lambda>b b'. \<exists>zs. b' = with_offers b zs \<and> by_price zs \<and> plain_offers s zs
        \<and> mset zs = mset (take SHOP_MAX_BATCH (offers_of b xs))) random_box_items bs" by blast
  have "list_all2 (\<lambda>b b'. \<exists>zs. b' = with_offers b zs \<and> by_price zs \<and> mset zs = mset (take SHOP_MAX_BATCH (offers_of b xs))) random_box_items bs"
    by (rule list_all2_mono [OF bs(2)]) blast
  then show ?thesis using bs(1) assms(1) by (intro exI [of _ "shop_start\<lparr>boxes := bs, boxes_ready := True\<rparr>"]) (simp add: init_rb_items_def shop_start_def)
qed

subsection \<open>Purchases\<close>

lemma take_offers_range: "take_offers ids i n = (if n = 0 \<or> i + n \<le> length ids then Some (take n (drop i ids), i + n) else None)"
  by (induction n arbitrary: i) (auto simp: Cons_nth_drop_Suc [symmetric] not_le)

definition box_fits :: "'u session \<Rightarrow> shop_box \<Rightarrow> bool" where
  "box_fits s b \<longleftrightarrow> length (rb_shop_id b) = SHOP_MAX_BATCH \<and> rb_box_id b \<le> SHOP_MAX_BATCH
     \<and> list_all (\<lambda>i. i = 0 \<or> offer_list_get_by_id i s \<noteq> None) (rb_shop_id b)"

text \<open>What the commands rely on: the offers with names and numbers, named items of the player, a connection.\<close>

definition can_shop :: "'u session \<Rightarrow> bool" where
  "can_shop s \<longleftrightarrow>
     (case wf_offers (wf s) of None \<Rightarrow> False | Some xs \<Rightarrow> offers_ok s \<and> list_all (\<lambda>x. of_id x \<noteq> 0 \<and> of_name x \<noteq> None) xs)
     \<and> pred_option (list_all (\<lambda>i. it_name i \<noteq> None)) (pr_items (profile s)) \<and> ol_jid_host (online s) \<noteq> None"

definition shop_fits :: "'u session \<Rightarrow> shop_state \<Rightarrow> bool" where
  "shop_fits s st \<longleftrightarrow> (if boxes_ready st then list_all (box_fits s) (boxes st) else list_all (\<lambda>b. with_offers b [] = b) (boxes st))"

lemma trace_keeps_shop [simp]:
  "can_shop (add_trace es s) = can_shop s" "box_fits (add_trace es s) = box_fits s" "shop_fits (add_trace es s) st = shop_fits s st"
proof -
  have "offers_ok (add_trace es s) = offers_ok s" "offer_list_get_by_id i (add_trace es s) = offer_list_get_by_id i s" for i
    by (simp_all add: offers_ok_def offer_list_get_by_id_def)
  note k = this
  show "can_shop (add_trace es s) = can_shop s" unfolding can_shop_def k by simp
  show b: "box_fits (add_trace es s) = box_fits s" unfolding box_fits_def k by simp
  show "shop_fits (add_trace es s) st = shop_fits s st" unfolding shop_fits_def b by simp
qed

lemma with_offers_fits:
  assumes "plain_offers s zs" "length zs \<le> SHOP_MAX_BATCH"
  shows "box_fits s (with_offers b zs)"
  using assms by (auto simp: box_fits_def with_offers_def plain_offers_def list_all_iff)

lemma init_fits:
  assumes "can_shop s" "shop_fits s st"
  shows "\<exists>st'. init_rb_items s st = Some st' \<and> boxes_ready st' \<and> shop_fits s st'"
proof (cases "boxes_ready st")
  case True
  then show ?thesis using assms(2) by (simp add: init_rb_items_def)
next
  case False
  obtain xs where xs: "wf_offers (wf s) = Some xs" "offers_ok s" "list_all (\<lambda>x. of_id x \<noteq> 0 \<and> of_name x \<noteq> None) xs"
    using assms(1) by (auto simp: can_shop_def split: option.splits)
  have "list_all (\<lambda>b. with_offers b [] = b) (boxes st)" using assms(2) False by (simp add: shop_fits_def)
  from fill_boxes [OF plain_offers_shop [OF xs] this] obtain bs where bs: "map_crash (fill_box s xs) (boxes st) = Some bs"
    "list_all2 (\<lambda>b b'. \<exists>zs. b' = with_offers b zs \<and> by_price zs \<and> plain_offers s zs
        \<and> mset zs = mset (take SHOP_MAX_BATCH (offers_of b xs))) (boxes st) bs" by blast
  have "box_fits s b'" if "b' \<in> set bs" for b'
  proof -
    obtain b zs where z: "b' = with_offers b zs" "plain_offers s zs" "mset zs = mset (take SHOP_MAX_BATCH (offers_of b xs))"
      using \<open>b' \<in> set bs\<close> bs(2) by (auto simp: list_all2_conv_all_nth in_set_conv_nth)
    show ?thesis unfolding z(1) using z(2) mset_eq_length [OF z(3)] by (intro with_offers_fits) simp_all
  qed
  then show ?thesis using False xs(1) bs(1) by (simp add: init_rb_items_def shop_fits_def list_all_iff)
qed

lemma box_row_total:
  assumes "can_shop s" "box_fits s b"
  shows "\<exists>r. box_row s b = Some r"
proof -
  have "rb_shop_id b ! 0 = 0 \<or> offer_list_get_by_id (rb_shop_id b ! 0) s \<noteq> None"
    using assms(2) by (auto simp: box_fits_def list_all_iff SHOP_MAX_BATCH_def)
  moreover have items: "\<exists>i. profile_item_list_get (Some t) s = Some i" for t
  proof (cases "pr_items (profile s)")
    case None
    then show ?thesis by (simp add: profile_item_list_get_def item_list_get_def)
  next
    case (Some l)
    then have "strcmp_eq (it_name i) (Some t) = Some (it_name i = Some t)" if "i \<in> set l" for i
      using that assms(1) by (auto simp: can_shop_def list_all_iff)
    then have "find_crash (\<lambda>i. strcmp_eq (it_name i) (Some t)) l = Some (find (\<lambda>i. it_name i = Some t) l)" by (rule find_crash_total)
    then show ?thesis by (simp add: profile_item_list_get_def item_list_get_def Some)
  qed
  moreover obtain t where "(case rb_token_name b of None \<Rightarrow> Some None
      | Some t \<Rightarrow> do { it \<leftarrow> profile_item_list_get (Some t) s; Some (Some (case it of None \<Rightarrow> 0 | Some i \<Rightarrow> it_quantity i, rb_max_tokens b)) }) = Some t"
  proof (cases "rb_token_name b")
    case (Some n)
    with items [of n] that show ?thesis by auto
  qed simp
  ultimately show ?thesis unfolding box_row_def by (cases "rb_shop_id b ! 0 = 0") (auto simp del: option.case)
qed


definition purchase :: "(u32 \<Rightarrow> cptr \<Rightarrow> 'u) \<Rightarrow> u32 \<Rightarrow> cptr \<Rightarrow> u32 list \<Rightarrow> 'u session \<Rightarrow> 'u effect" where
  "purchase rb_cb amount token ids s =
     Send_iq (JID_MS (ol_channel (online s)) s) XMPP_TYPE_GET (Some (CB_caller (rb_cb amount token))) None
       (purchase_query (wf_shop_hash (wf s)) ids)"

lemma buy_box_range:
  assumes "ol_jid_host (online s) \<noteq> None" "length (rb_shop_id b) = SHOP_MAX_BATCH" "rb_box_id b \<le> SHOP_MAX_BATCH"
    and "amount \<noteq> 0" "amount \<le> 5"
    and "start = (if SHOP_MAX_BATCH < rb_box_id b + unat amount then 0 else rb_box_id b)"
  shows "buy_box rb_cb amount b s = Some (b\<lparr>rb_box_id := start + unat amount\<rparr>,
      emit (purchase rb_cb amount (rb_token_name b) (take (unat amount) (drop start (rb_shop_id b))) s) s)"
    and "start + unat amount \<le> SHOP_MAX_BATCH"
proof -
  have u: "0 < unat amount" "unat amount \<le> SHOP_MAX_BATCH"
    using assms(4,5) by (simp_all add: unat_gt_0 word_le_nat_alt SHOP_MAX_BATCH_def)
  show r: "start + unat amount \<le> SHOP_MAX_BATCH" using u assms(3) by (auto simp: assms(6))
  then have t: "take_offers (rb_shop_id b) start (unat amount) = Some (take (unat amount) (drop start (rb_shop_id b)), start + unat amount)"
    using assms(2) by (simp add: take_offers_range)
  obtain d where d: "jid_to_str (JID_MS (ol_channel (online s)) s) = Some d" using assms(1) by (auto simp: jid_to_str_def Let_def)
  show "buy_box rb_cb amount b s = Some (b\<lparr>rb_box_id := start + unat amount\<rparr>,
      emit (purchase rb_cb amount (rb_token_name b) (take (unat amount) (drop start (rb_shop_id b))) s) s)"
    unfolding buy_box_def assms(6) [symmetric] Let_def t send_iq_get_def d purchase_def by simp
qed

lemma buy_box_fits:
  assumes "can_shop s" "box_fits s b" "amount \<noteq> 0" "amount \<le> 5"
  shows "\<exists>b' e. buy_box rb_cb amount b s = Some (b', add_trace [e] s) \<and> box_fits s b'"
proof -
  have h: "ol_jid_host (online s) \<noteq> None" using assms(1) by (simp add: can_shop_def)
  have l: "length (rb_shop_id b) = SHOP_MAX_BATCH" "rb_box_id b \<le> SHOP_MAX_BATCH" using assms(2) by (simp_all add: box_fits_def)
  note r = buy_box_range [OF h l assms(3,4) refl]
  have "box_fits s (b\<lparr>rb_box_id := n\<rparr>)" if "n \<le> SHOP_MAX_BATCH" for n using assms(2) that by (simp add: box_fits_def)
  from this [OF r(2)] show ?thesis unfolding r(1) by auto
qed

lemma buy_first_fits:
  assumes "can_shop s" "amount \<noteq> 0" "amount \<le> 5" "list_all (box_fits s) bs"
  shows "\<exists>bs' es. buy_first rb_cb name amount bs s = Some (bs', add_trace es s) \<and> list_all (box_fits s) bs' \<and> length es \<le> 1"
  using assms(4)
proof (induction bs)
  case Nil
  then show ?case by (intro exI [of _ "[]"]) simp
next
  case (Cons b bs)
  then obtain bs' es where "buy_first rb_cb name amount bs s = Some (bs', add_trace es s)" "list_all (box_fits s) bs'" "length es \<le> 1"
    by auto
  moreover obtain b' e where "buy_box rb_cb amount b s = Some (b', add_trace [e] s)" "box_fits s b'"
    using buy_box_fits [OF assms(1) _ assms(2,3), of b rb_cb] Cons.prems by auto
  ultimately show ?case using Cons.prems by (cases "is_box name b") (fastforce intro: exI [of _ "[e]"])+
qed

lemma cmd_randombox_fits:
  assumes "can_shop s" "shop_fits s st"
  shows "\<exists>st' es. cmd_randombox rb_cb name amount st s = Some (st', add_trace es s) \<and> shop_fits s st' \<and> length es \<le> 1"
proof -
  obtain st1 where st1: "init_rb_items s st = Some st1" "boxes_ready st1" "shop_fits s st1" using init_fits [OF assms] by blast
  then have f: "list_all (box_fits s) (boxes st1)" by (simp add: shop_fits_def)
  have stays: "\<exists>st' es. Some (st1, s) = Some (st', add_trace es s) \<and> shop_fits s st' \<and> length es \<le> 1"
    using st1(3) by (intro exI [of _ st1] exI [of _ "[]"]) simp
  show ?thesis
  proof (cases name)
    case None
    have "\<exists>y. box_row s b = Some y \<and> True" if "b \<in> set (boxes st1)" for b
    proof -
      have "box_fits s b" using f that by (simp add: list_all_iff)
      from box_row_total [OF assms(1) this] show ?thesis by blast
    qed
    from map_crash_all [of "boxes st1" "box_row s" "\<lambda>_ _. True", OF this] obtain rs where "map_crash (box_row s) (boxes st1) = Some rs" by blast
    then have "cmd_randombox rb_cb name amount st s = Some (st1, s)" using None st1(1) by (simp add: cmd_randombox_def)
    with stays show ?thesis by simp
  next
    case (Some n)
    show ?thesis
    proof (cases "amount = 0 \<or> 5 < amount")
      case True
      then have "cmd_randombox rb_cb name amount st s = Some (st1, s)" using Some st1(1) by (simp add: cmd_randombox_def)
      with stays show ?thesis by simp
    next
      case False
      then have a: "amount \<noteq> 0" "amount \<le> 5" by auto
      from buy_first_fits [OF assms(1) a f] obtain bs es where b: "buy_first rb_cb n amount (boxes st1) s = Some (bs, add_trace es s)"
        "list_all (box_fits s) bs" "length es \<le> 1" by blast
      have "shop_fits s (st1\<lparr>boxes := bs\<rparr>)" using b(2) st1(2) by (simp add: shop_fits_def)
      moreover have "cmd_randombox rb_cb name amount st s = Some (st1\<lparr>boxes := bs\<rparr>, add_trace es s)"
        using False b(1) by (simp add: cmd_randombox_def st1(1) Some)
      ultimately show ?thesis using b(3) by blast
    qed
  qed
qed

definition shop_in_bounds :: "shop_state \<Rightarrow> bool" where
  "shop_in_bounds st \<longleftrightarrow> list_all (\<lambda>b. length (rb_shop_id b) = SHOP_MAX_BATCH \<and> rb_box_id b \<le> SHOP_MAX_BATCH) (boxes st)"

lemma shop_fits_bounds:
  assumes "shop_fits s st"
  shows "shop_in_bounds st"
proof (cases "boxes_ready st")
  case True
  then show ?thesis using assms by (auto simp: shop_fits_def shop_in_bounds_def box_fits_def list_all_iff)
next
  case False
  have "length (rb_shop_id (with_offers b [])) = SHOP_MAX_BATCH" "rb_box_id (with_offers b []) \<le> SHOP_MAX_BATCH" for b
    by (simp_all add: with_offers_def)
  then show ?thesis using assms False unfolding shop_fits_def shop_in_bounds_def list_all_iff by (metis (no_types, lifting))
qed

text \<open>Commands one after the other, each with the session it finds: other handlers run between them.\<close>

fun shop_run :: "(u32 \<Rightarrow> cptr \<Rightarrow> 'u) \<Rightarrow> ('u session \<times> cptr \<times> u32) list \<Rightarrow> shop_state \<Rightarrow> (shop_state \<times> 'u session list) crash" where
  "shop_run rb_cb [] st = Some (st, [])"
| "shop_run rb_cb ((s, name, amount) # vs) st =
     do { (st', s') \<leftarrow> cmd_randombox rb_cb name amount st s; (st'', ss) \<leftarrow> shop_run rb_cb vs st'; Some (st'', s' # ss) }"

text \<open>Every offer of the first session is still known in the second one.\<close>

definition keeps_offers :: "'u session \<Rightarrow> 'u session \<Rightarrow> bool" where
  "keeps_offers s t \<longleftrightarrow>
     (case wf_offers (wf s) of None \<Rightarrow> True | Some xs \<Rightarrow> list_all (\<lambda>x. offer_list_get_by_id (of_id x) t \<noteq> None) xs)"

lemma offer_known: "offer_list_get_by_id i s \<noteq> None \<longleftrightarrow> (\<exists>xs x. wf_offers (wf s) = Some xs \<and> x \<in> set xs \<and> of_id x = i)"
  by (cases "wf_offers (wf s)") (auto simp: offer_list_get_by_id_def find_None_iff simp del: not_None_eq)

lemma offer_kept: "keeps_offers s t \<Longrightarrow> offer_list_get_by_id i s \<noteq> None \<Longrightarrow> offer_list_get_by_id i t \<noteq> None"
  by (auto simp: keeps_offers_def offer_known list_all_iff simp del: not_None_eq)

lemma extends_keeps_offers: "extends s t \<Longrightarrow> keeps_offers s t"
  by (cases "wf_offers (wf s)") (auto simp: extends_def keeps_offers_def offer_known list_all_iff simp del: not_None_eq)

lemma box_fits_kept: "keeps_offers s t \<Longrightarrow> box_fits s b \<Longrightarrow> box_fits t b"
  using offer_kept [of s t] unfolding box_fits_def list_all_iff by blast

lemma shop_fits_kept: "keeps_offers s t \<Longrightarrow> shop_fits s st \<Longrightarrow> shop_fits t st"
  using box_fits_kept [of s t] by (auto simp: shop_fits_def list_all_iff)

lemma shop_run_fits:
  assumes "list_all (\<lambda>v. can_shop (fst v)) vs" "successively (\<lambda>v v'. keeps_offers (fst v) (fst v')) vs"
    and "vs \<noteq> [] \<Longrightarrow> shop_fits (fst (hd vs)) st" "shop_in_bounds st"
  shows "\<exists>st' ss. shop_run rb_cb vs st = Some (st', ss) \<and> shop_in_bounds st'
    \<and> list_all2 (\<lambda>v s'. \<exists>es. s' = add_trace es (fst v) \<and> length es \<le> 1) vs ss"
  using assms
proof (induction vs arbitrary: st)
  case Nil
  then show ?case by simp
next
  case (Cons v vs)
  obtain s name amount where v: "v = (s, name, amount)" by (cases v)
  from Cons.prems v have s: "can_shop s" "shop_fits s st" by simp_all
  from cmd_randombox_fits [OF s, of rb_cb name amount] obtain st1 es where s1:
    "cmd_randombox rb_cb name amount st s = Some (st1, add_trace es s)" "shop_fits s st1" "length es \<le> 1" by blast
  have "shop_fits (fst (hd vs)) st1" if "vs \<noteq> []"
    using that Cons.prems(2) s1(2) v by (cases vs) (auto intro: shop_fits_kept)
  moreover have "successively (\<lambda>v v'. keeps_offers (fst v) (fst v')) vs" using Cons.prems(2) by (cases vs) auto
  ultimately obtain st' ss where "shop_run rb_cb vs st1 = Some (st', ss)" "shop_in_bounds st'"
    "list_all2 (\<lambda>v s'. \<exists>es. s' = add_trace es (fst v) \<and> length es \<le> 1) vs ss"
    using Cons.IH [of st1] Cons.prems(1) shop_fits_bounds [OF s1(2)] by auto
  with s1 show ?case by (intro exI [of _ st'] exI [of _ "add_trace es s # ss"]) (auto simp: v)
qed

lemma shop_start_fits: "shop_fits s shop_start"
  using fresh_table by (simp add: shop_fits_def shop_start_def)

text \<open>C17: in every sequence of commands no read leaves the five slots of a box and no lookup fails, a command sends
  at most one request, and the index of every box stays in its range.  Between two commands the session may change in
  any way that keeps the offers it knows (as \<open>extends\<close>, all that the chunks of a shop do that do not restart its list).\<close>

theorem purchases_in_bounds:
  assumes "list_all (\<lambda>v. can_shop (fst v)) vs" "successively (\<lambda>v v'. keeps_offers (fst v) (fst v')) vs"
  shows "\<exists>st ss. shop_run rb_cb vs shop_start = Some (st, ss)
    \<and> list_all2 (\<lambda>v s'. \<exists>es. s' = add_trace es (fst v) \<and> length es \<le> 1) vs ss
    \<and> list_all (\<lambda>b. length (rb_shop_id b) = SHOP_MAX_BATCH \<and> rb_box_id b \<le> SHOP_MAX_BATCH) (boxes st)"
  using shop_run_fits [OF assms shop_start_fits shop_fits_bounds [OF shop_start_fits], of rb_cb] unfolding shop_in_bounds_def by blast

text \<open>A box with five offers sells as many as asked for, all of them different, neighbours in the order of
  their prices, and starts again with the dearest when less than that are left.\<close>

theorem full_box_sells:
  assumes "plain_offers s zs" "distinct (map of_id zs)" "length zs = SHOP_MAX_BATCH"
    and "rb_shop_id b = map of_id zs" "rb_box_id b \<le> SHOP_MAX_BATCH" "amount \<noteq> 0" "amount \<le> 5" "ol_jid_host (online s) \<noteq> None"
  shows "\<exists>start ids. buy_box rb_cb amount b s =
      Some (b\<lparr>rb_box_id := start + unat amount\<rparr>, emit (purchase rb_cb amount (rb_token_name b) ids s) s)
    \<and> ids = map of_id (take (unat amount) (drop start zs)) \<and> length ids = unat amount \<and> distinct ids
    \<and> (start = rb_box_id b \<or> start = 0 \<and> SHOP_MAX_BATCH < rb_box_id b + unat amount)"
proof -
  define start where "start = (if SHOP_MAX_BATCH < rb_box_id b + unat amount then 0 else rb_box_id b)"
  have l: "length (rb_shop_id b) = SHOP_MAX_BATCH" using assms(3,4) by simp
  note r = buy_box_range [OF assms(8) l assms(5-7) start_def]
  have e: "take (unat amount) (drop start (rb_shop_id b)) = map of_id (take (unat amount) (drop start zs))"
    by (simp add: assms(4) take_map drop_map)
  have "distinct (map of_id (take (unat amount) (drop start zs)))" unfolding e [symmetric] assms(4) using assms(2) by (intro distinct_take distinct_drop)
  then show ?thesis using r(2) assms(3) unfolding r(1) e by (intro exI [of _ start]) (auto simp: start_def)
qed

text \<open>A box with fewer than five offers is left with the index behind the last one: the first purchases ask for
  the offer 0 instead of an offer of the box.\<close>

theorem first_purchase_misses:
  assumes "length zs + unat amount \<le> SHOP_MAX_BATCH" "amount \<noteq> 0" "ol_jid_host (online s) \<noteq> None"
  shows "\<exists>b'. buy_box rb_cb amount (with_offers b zs) s =
    Some (b', emit (purchase rb_cb amount (rb_token_name b) (replicate (unat amount) 0) s) s)"
proof -
  have u: "0 < unat amount" using assms(2) by (simp add: unat_gt_0)
  then have n: "length zs < SHOP_MAX_BATCH" using assms(1) by simp
  have a: "amount \<le> 5" using assms(1) by (simp add: word_le_nat_alt SHOP_MAX_BATCH_def)
  have w: "length (rb_shop_id (with_offers b zs)) = SHOP_MAX_BATCH" "rb_box_id (with_offers b zs) \<le> SHOP_MAX_BATCH"
    "rb_token_name (with_offers b zs) = rb_token_name b"
    using n by (simp_all add: with_offers_def)
  have st: "length zs = (if SHOP_MAX_BATCH < rb_box_id (with_offers b zs) + unat amount then 0 else rb_box_id (with_offers b zs))"
    using assms(1) n by (simp add: with_offers_def)
  have "take (unat amount) (drop (length zs) (rb_shop_id (with_offers b zs))) = replicate (unat amount) 0"
    using assms(1) n by (simp add: with_offers_def)
  with buy_box_range(1) [OF assms(3) w(1,2) assms(2) a st, of rb_cb] show ?thesis unfolding w(3) by auto
qed

text \<open>The numbers of the offers are kept for ever: when the list of the shop was loaded again without one of
  them, the list of boxes fails.\<close>

theorem stale_box_crashes:
  assumes "boxes_ready st" "b \<in> set (boxes st)" "rb_shop_id b ! 0 \<noteq> 0" "offer_list_get_by_id (rb_shop_id b ! 0) s = None"
  shows "cmd_randombox rb_cb None amount st s = None"
proof -
  have "box_row s b = None" using assms(3,4) by (simp add: box_row_def)
  then have "map_crash (box_row s) bs = None" if "b \<in> set bs" for bs
    using that by (induction bs) (auto simp: bind_eq_None_conv)
  then show ?thesis using assms(1,2) by (simp add: cmd_randombox_def init_rb_items_def)
qed

subsection \<open>A shop with one box\<close>

definition box_offer :: "u32 \<Rightarrow> u32 \<Rightarrow> shop_offer" where
  "box_offer i price =
     \<lparr>of_id = i, of_name = Some ''random_box_06'', of_supplier_id = 1, of_offer_status = OFFER_NORMAL, of_repairs = None,
      of_quantity = 0, of_expiration_time = None, of_durability_points = 0, of_discount_percent = 0, of_rank = 0,
      of_key_item_name = None, of_cry = (price, price), of_crown = (0, 0), of_game = (0, 0), of_key = 0\<rparr>"

definition sample_shop :: "nat session" where
  "sample_shop = upd_wf (\<lambda>w. w\<lparr>wf_offers := Some [box_offer 11 50, box_offer 12 90, box_offer 13 70, box_offer 14 60, box_offer 15 80]\<rparr>)
     (demo_session\<lparr>online := (online demo_session)\<lparr>ol_jid_host := Some ''host''\<rparr>\<rparr>)"

lemma sample_shop_offers:
  "wf_offers (wf sample_shop) = Some [box_offer 11 50, box_offer 12 90, box_offer 13 70, box_offer 14 60, box_offer 15 80]"
  "offers_ok sample_shop"
  "list_all (\<lambda>x. of_id x \<noteq> 0 \<and> of_name x \<noteq> None) [box_offer 11 50, box_offer 12 90, box_offer 13 70, box_offer 14 60, box_offer 15 80]"
  "can_shop sample_shop" "ol_jid_host (online sample_shop) = Some ''host''"
  by (simp_all add: sample_shop_def offers_ok_def box_offer_def can_shop_def demo_session_def session_init_def zero_session_def
      clanmate_list_init_def Let_def)

theorem box_offers_sorted_witness:
  "\<exists>st. init_rb_items sample_shop shop_start = Some st \<and> boxes_ready st"
  using box_offers_sorted [OF sample_shop_offers(1-3)] by blast

text \<open>Between the commands the shop gets one more offer.\<close>

definition larger_shop :: "nat session" where
  "larger_shop = upd_wf (\<lambda>w. w\<lparr>wf_offers := map_option ((#) (box_offer 16 40)) (wf_offers w)\<rparr>) sample_shop"

lemma larger_shop_offers: "can_shop larger_shop" "keeps_offers sample_shop larger_shop" "keeps_offers larger_shop larger_shop"
  using sample_shop_offers
  by (simp_all add: larger_shop_def offers_ok_def box_offer_def can_shop_def keeps_offers_def offer_list_get_by_id_def)

theorem purchases_in_bounds_witness:
  "\<exists>st ss. shop_run (\<lambda>_ _. 0) [(sample_shop, Some ''usas12'', 3), (larger_shop, None, 0), (larger_shop, Some ''usas12'', 4)] shop_start
      = Some (st, ss) \<and> length ss = 3"
proof -
  let ?vs = "[(sample_shop, Some ''usas12'', 3), (larger_shop, None, 0), (larger_shop, Some ''usas12'', 4)]"
  have "list_all (\<lambda>v. can_shop (fst v)) ?vs" "successively (\<lambda>v v'. keeps_offers (fst v) (fst v')) ?vs"
    using sample_shop_offers(4) larger_shop_offers by simp_all
  from purchases_in_bounds [OF this, of "\<lambda>_ _. 0"] show ?thesis by (auto simp del: shop_run.simps dest: list_all2_lengthD)
qed

lemma sample_sorted:
  "plain_offers sample_shop [box_offer 12 90, box_offer 15 80, box_offer 13 70, box_offer 14 60, box_offer 11 50]"
  using plain_offers_shop [OF sample_shop_offers(1-3)] by (simp add: plain_offers_def)

theorem full_box_sells_witness:
  "\<exists>b' e. buy_box (\<lambda>_ _. 0) 2 ((plain_box ''usas12'' ''random_box_06'')\<lparr>rb_shop_id := [12, 15, 13, 14, 11], rb_box_id := 4\<rparr>) sample_shop
     = Some (b', emit e sample_shop) \<and> rb_box_id b' = 2"
proof -
  let ?b = "(plain_box ''usas12'' ''random_box_06'')\<lparr>rb_shop_id := [12, 15, 13, 14, 11], rb_box_id := 4\<rparr>"
  have "distinct (map of_id [box_offer 12 90, box_offer 15 80, box_offer 13 70, box_offer 14 60, box_offer 11 50])"
    "length [box_offer 12 90, box_offer 15 80, box_offer 13 70, box_offer 14 60, box_offer 11 50] = SHOP_MAX_BATCH"
    "rb_shop_id ?b = map of_id [box_offer 12 90, box_offer 15 80, box_offer 13 70, box_offer 14 60, box_offer 11 50]"
    "rb_box_id ?b \<le> SHOP_MAX_BATCH" "(2 :: u32) \<noteq> 0" "(2 :: u32) \<le> 5" "ol_jid_host (online sample_shop) \<noteq> None"
    by (simp_all add: box_offer_def SHOP_MAX_BATCH_def sample_shop_offers(5))
  from full_box_sells [OF sample_sorted this, of "\<lambda>_ _. 0"] obtain start ids where r: "buy_box (\<lambda>_ _. 0) 2 ?b sample_shop =
      Some (?b\<lparr>rb_box_id := start + unat (2 :: u32)\<rparr>, emit (purchase (\<lambda>_ _. 0) 2 (rb_token_name ?b) ids sample_shop) sample_shop)"
    "ids = map of_id (take (unat (2 :: u32)) (drop start [box_offer 12 90, box_offer 15 80, box_offer 13 70, box_offer 14 60, box_offer 11 50]))"
    "length ids = unat (2 :: u32)" "start = rb_box_id ?b \<or> start = 0" by blast
  have "start = 0" using r(2-4) by auto
  with r(1) show ?thesis by auto
qed

theorem first_purchase_misses_witness:
  "\<exists>b'. buy_box (\<lambda>_ _. 0) 1 (with_offers (plain_box ''usas12'' ''random_box_06'') [box_offer 12 90]) sample_shop =
    Some (b', emit (purchase (\<lambda>_ _. 0) 1 None [0] sample_shop) sample_shop)"
  using first_purchase_misses [of "[box_offer 12 90]" 1 sample_shop "\<lambda>_ _. 0" "plain_box ''usas12'' ''random_box_06''"]
  by (simp add: SHOP_MAX_BATCH_def sample_shop_offers(5) plain_box_def)

theorem stale_box_crashes_witness:
  "cmd_randombox (\<lambda>_ _. 0) None 0 \<lparr>boxes_ready = True, boxes = [with_offers (plain_box ''usas12'' ''random_box_06'') [box_offer 9 90]]\<rparr> sample_shop = None"
proof -
  let ?b = "with_offers (plain_box ''usas12'' ''random_box_06'') [box_offer 9 90]"
  have "rb_shop_id ?b ! 0 = 9" by (simp add: with_offers_def box_offer_def)
  moreover have "offer_list_get_by_id 9 sample_shop = None"
    by (simp add: offer_list_get_by_id_def sample_shop_offers(1)) (simp add: box_offer_def)
  ultimately show ?thesis by (intro stale_box_crashes [of _ ?b]) simp_all
qed

subsection \<open>The answer to a purchase\<close>

text \<open>The answer as the comment in \<open>_randombox_cb\<close> shows it: experience, crowns, items, then the money that is left.\<close>

record bought_item =
  bi_name :: cstring
  bi_item_id :: cstring
  bi_offer :: cstring
  bi_expiration :: cstring
  bi_quantity :: cstring
  bi_status :: cstring
  bi_attached :: cstring
  bi_config :: cstring
  bi_slot :: cstring
  bi_equipped :: cstring
  bi_default :: cstring
  bi_permanent :: int
  bi_confirmed :: cstring
  bi_bought :: cstring
  bi_expires :: cstring
  bi_left :: cstring

datatype bought =
    Bought_exp u32 u32 cstring
  | Bought_crown u32 u32
  | Bought_item bought_item

definition exp_attrs :: "u32 \<Rightarrow> u32 \<Rightarrow> cstring \<Rightarrow> (cstring \<times> cstring) list" where
  "exp_attrs n t offer = [(''name'', ''exp_item_01''), ('' added'', int_dec (uint n)), ('' total'', int_dec (uint t)), ('' offerId'', offer)]"

definition crown_attrs :: "u32 \<Rightarrow> u32 \<Rightarrow> (cstring \<times> cstring) list" where
  "crown_attrs n t = [(''name'', ''crown_money_item_01''), ('' added'', int_dec (uint n)), ('' total'', int_dec (uint t))]"

definition item_head :: "bought_item \<Rightarrow> (cstring \<times> cstring) list" where
  "item_head i = [(''name'', bi_name i), ('' profile_item_id'', bi_item_id i), ('' offerId'', bi_offer i),
     ('' added_expiration'', bi_expiration i), ('' added_quantity'', bi_quantity i), ('' error_status'', bi_status i)]"

definition item_body :: "bought_item \<Rightarrow> (cstring \<times> cstring) list" where
  "item_body i = [('' name'', bi_name i), ('' attached_to'', bi_attached i), ('' config'', bi_config i), ('' slot'', bi_slot i),
     ('' equipped'', bi_equipped i), ('' default'', bi_default i), ('' permanent'', int_dec (bi_permanent i)),
     ('' expired_confirmed'', bi_confirmed i), ('' buy_time_utc'', bi_bought i), ('' expiration_time_utc'', bi_expires i),
     ('' seconds_left'', bi_left i)]"

fun render_bought :: "bought \<Rightarrow> cstring" where
  "render_bought (Bought_exp n t offer) = ''<exp '' @ pieces (exp_attrs n t offer) @ ''/>''"
| "render_bought (Bought_crown n t) = ''<crown_money '' @ pieces (crown_attrs n t) @ ''/>''"
| "render_bought (Bought_item i) =
     ''<profile_item '' @ pieces (item_head i) @ ''>'' @ ''<item '' @ pieces ((''id'', bi_item_id i) # item_body i) @ ''/>'' @ ''</profile_item>''"

definition purchase_answer :: "u32 \<Rightarrow> bought list \<Rightarrow> u32 \<Rightarrow> u32 \<Rightarrow> u32 \<Rightarrow> cstring" where
  "purchase_answer code rs game cry crown =
     ''<shop_buy_multiple_offer '' @ pieces [(''error_status'', int_dec (uint code))] @ ''>'' @ ''<purchased_item>''
     @ concat (map render_bought rs) @ ''</purchased_item>''
     @ ''<money '' @ pieces [(''game_money'', int_dec (uint game)), ('' cry_money'', int_dec (uint cry)), ('' crown_money'', int_dec (uint crown))]
     @ ''/>'' @ ''</shop_buy_multiple_offer>''"

text \<open>Values without quotes and angle brackets.\<close>

definition clean :: "cstring \<Rightarrow> bool" where
  "clean v \<longleftrightarrow> attr_ok ([], v) \<and> CHR ''<'' \<notin> set v"

fun plain_bought :: "bought \<Rightarrow> bool" where
  "plain_bought (Bought_exp n t offer) \<longleftrightarrow> clean offer"
| "plain_bought (Bought_crown n t) \<longleftrightarrow> True"
| "plain_bought (Bought_item i) \<longleftrightarrow>
     list_all clean [bi_name i, bi_item_id i, bi_offer i, bi_expiration i, bi_quantity i, bi_status i, bi_attached i, bi_config i, bi_slot i,
       bi_equipped i, bi_default i, bi_confirmed i, bi_bought i, bi_expires i, bi_left i]
     \<and> - (2 ^ 31) \<le> bi_permanent i \<and> bi_permanent i < 2 ^ 31"

fun exp_bought :: "bought \<Rightarrow> u32" where
  "exp_bought (Bought_exp n t offer) = n"
| "exp_bought _ = 0"

text \<open>The item whose life the answer does not limit.\<close>

fun for_ever :: "bought \<Rightarrow> bool" where
  "for_ever (Bought_item i) \<longleftrightarrow>
     starts_with (bi_expiration i) ''0'' \<and> starts_with (bi_quantity i) ''0'' \<and> bi_permanent i = 0"
| "for_ever _ \<longleftrightarrow> False"

lemma clean_int: "clean (int_dec i)"
  using attr_ok_int [of "[]" i] int_dec_chars [of "CHR ''<''" i] by (auto simp: clean_def isdigit_def)

lemma clean_ok: "plain_text k \<Longrightarrow> clean v \<Longrightarrow> attr_ok (k, v)"
  by (auto simp: clean_def attr_ok_def plain_text_def)

lemma clean_bracket: "clean v \<Longrightarrow> bracket_free v"
  by (simp add: clean_def bracket_free_def)

lemma bought_attrs_ok:
  "clean offer \<Longrightarrow> list_all attr_ok (exp_attrs n t offer)"
  "list_all attr_ok (crown_attrs n t)"
  "plain_bought (Bought_item i) \<Longrightarrow> list_all attr_ok (item_head i)"
  "plain_bought (Bought_item i) \<Longrightarrow> list_all attr_ok (item_body i)"
  unfolding exp_attrs_def crown_attrs_def item_head_def item_body_def list.pred_inject plain_bought.simps
  by (intro conjI clean_ok clean_int; simp add: plain_text_def clean_def attr_ok_def)+

lemma bought_brackets:
  "clean offer \<Longrightarrow> CHR ''<'' \<notin> set (pieces (exp_attrs n t offer))"
  "CHR ''<'' \<notin> set (pieces (crown_attrs n t))"
  "plain_bought (Bought_item i) \<Longrightarrow> CHR ''<'' \<notin> set (pieces (item_head i))"
  "plain_bought (Bought_item i) \<Longrightarrow> CHR ''<'' \<notin> set (pieces (item_body i))"
  unfolding exp_attrs_def crown_attrs_def item_head_def item_body_def
  by (intro bracket_free_pieces; simp add: clean_bracket bracket_free_int; simp add: bracket_free_def)+

text \<open>The loop over the purchased things.\<close>

lemma purchased_cong:
  assumes "strstr m ''<exp'' = strstr m' ''<exp''" "strstr m ''<crown_money'' = strstr m' ''<crown_money''"
    "strstr m ''<profile_item'' = strstr m' ''<profile_item''"
  shows "purchased m xp crown f = purchased m' xp crown f"
  using assms by (simp add: purchased.simps [of m] purchased.simps [of m'] del: strstr.simps)

lemma purchased_skip: "CHR ''<'' \<notin> set w \<Longrightarrow> purchased (w @ r) xp crown f = purchased r xp crown f"
  by (rule purchased_cong) (simp_all only: strstr_skip_head not_False_eq_True)

lemma purchased_other:
  assumes "CHR ''<'' \<notin> set c" "r = [] \<or> hd r = CHR ''<''" "\<not> starts_with c ''exp''" "\<not> starts_with c ''crown_money''" "\<not> starts_with c ''profile_item''"
  shows "purchased (CHR ''<'' # c @ r) xp crown f = purchased r xp crown f"
proof (rule purchased_cong)
  show "strstr (CHR ''<'' # c @ r) ''<exp'' = strstr r ''<exp''"
    using strstr_piece [OF assms(1) _ assms(2), of "''exp''"] assms(3) by (simp del: strstr.simps)
  show "strstr (CHR ''<'' # c @ r) ''<crown_money'' = strstr r ''<crown_money''"
    using strstr_piece [OF assms(1) _ assms(2), of "''crown_money''"] assms(4) by (simp del: strstr.simps)
  show "strstr (CHR ''<'' # c @ r) ''<profile_item'' = strstr r ''<profile_item''"
    using strstr_piece [OF assms(1) _ assms(2), of "''profile_item''"] assms(5) by (simp del: strstr.simps)
qed

text \<open>One thing at the front of the text.\<close>

lemma front_thing:
  assumes "CHR ''<'' \<notin> set c" "R = [] \<or> hd R = CHR ''<''"
  shows "starts_with c ''exp'' \<Longrightarrow> 4 \<le> length c \<Longrightarrow> purchased (CHR ''<'' # c @ R) xp crown f
      = purchased R (xp + sync_uint (drop 4 c @ R) ''added'') crown f"
    and "starts_with c ''crown_money'' \<Longrightarrow> 12 \<le> length c \<Longrightarrow> purchased (CHR ''<'' # c @ R) xp crown f
      = purchased R xp (crown + sync_uint (drop 12 c @ R) ''added'') f"
    and "starts_with c ''profile_item'' \<Longrightarrow> 13 \<le> length c \<Longrightarrow> purchased (CHR ''<'' # c @ R) xp crown f
      = purchased R xp crown (f \<or> is_permanent (drop 13 c @ R))"
proof -
  have w: "CHR ''<'' \<notin> set (drop n c)" for n using assms(1) by (meson in_set_dropD)
  note s = strstr_piece [OF assms(1) _ assms(2), of "''exp''"] strstr_piece [OF assms(1) _ assms(2), of "''crown_money''"]
    strstr_piece [OF assms(1) _ assms(2), of "''profile_item''"]
  have head: "starts_with c (x # p) \<Longrightarrow> starts_with c (y # p') \<Longrightarrow> x = y" for x y p p' by (cases c) auto
  show "purchased (CHR ''<'' # c @ R) xp crown f = purchased R (xp + sync_uint (drop 4 c @ R) ''added'') crown f"
    if "starts_with c ''exp''" "4 \<le> length c"
  proof -
    have n: "\<not> starts_with c ''crown_money''" "\<not> starts_with c ''profile_item''" using head [OF that(1)] by auto
    have d: "drop 5 (CHR ''<'' # c @ R) = drop 4 c @ R" "(length (CHR ''<'' # c @ R) < 5) = False" using that(2) by simp_all
    have e: "strstr (CHR ''<'' # c @ R) ''<exp'' = Some (CHR ''<'' # c @ R)"
      "strstr (CHR ''<'' # c @ R) ''<crown_money'' = strstr R ''<crown_money''"
      "strstr (CHR ''<'' # c @ R) ''<profile_item'' = strstr R ''<profile_item''" using s that(1) n by (simp_all del: strstr.simps)
    show ?thesis by (subst purchased.simps) (simp only: e d front_first Let_def Option.bind.simps if_True if_False purchased_skip [OF w])
  qed
  show "purchased (CHR ''<'' # c @ R) xp crown f = purchased R xp (crown + sync_uint (drop 12 c @ R) ''added'') f"
    if "starts_with c ''crown_money''" "12 \<le> length c"
  proof -
    have n: "\<not> starts_with c ''exp''" "\<not> starts_with c ''profile_item''" using head [OF that(1)] by auto
    have d: "drop 13 (CHR ''<'' # c @ R) = drop 12 c @ R" "(length (CHR ''<'' # c @ R) < 13) = False" using that(2) by simp_all
    have e: "strstr (CHR ''<'' # c @ R) ''<crown_money'' = Some (CHR ''<'' # c @ R)"
      "strstr (CHR ''<'' # c @ R) ''<exp'' = strstr R ''<exp''"
      "strstr (CHR ''<'' # c @ R) ''<profile_item'' = strstr R ''<profile_item''" using s that(1) n by (simp_all del: strstr.simps)
    show ?thesis by (subst purchased.simps) (simp only: e d front_first not_first Let_def Option.bind.simps if_True if_False purchased_skip [OF w])
  qed
  show "purchased (CHR ''<'' # c @ R) xp crown f = purchased R xp crown (f \<or> is_permanent (drop 13 c @ R))"
    if "starts_with c ''profile_item''" "13 \<le> length c"
  proof -
    have n: "\<not> starts_with c ''exp''" "\<not> starts_with c ''crown_money''" using head [OF that(1)] by auto
    have d: "drop 14 (CHR ''<'' # c @ R) = drop 13 c @ R" "(length (CHR ''<'' # c @ R) < 14) = False" using that(2) by simp_all
    have e: "strstr (CHR ''<'' # c @ R) ''<profile_item'' = Some (CHR ''<'' # c @ R)"
      "strstr (CHR ''<'' # c @ R) ''<exp'' = strstr R ''<exp''"
      "strstr (CHR ''<'' # c @ R) ''<crown_money'' = strstr R ''<crown_money''" using s that(1) n by (simp_all del: strstr.simps)
    show ?thesis by (subst purchased.simps) (simp only: e d not_first Let_def if_False option.case purchased_skip [OF w])
  qed
qed

lemma purchased_exp:
  assumes "clean offer" "R = [] \<or> hd R = CHR ''<''"
  shows "purchased (render_bought (Bought_exp n t offer) @ R) xp crown f = purchased R (xp + n) crown f"
proof -
  let ?c = "''exp '' @ pieces (exp_attrs n t offer) @ ''/>''"
  have c: "CHR ''<'' \<notin> set ?c" using bought_brackets(1) [OF assms(1)] by simp
  have "sync_uint (pieces (exp_attrs n t offer) @ ''/>'' @ R) ''added'' = n"
    by (rule number_read [OF bought_attrs_ok(1) [OF assms(1)]]) (simp_all add: exp_attrs_def attr_hit_def name_ok_def)
  with front_thing(1) [OF c assms(2)] show ?thesis by simp
qed

lemma purchased_crown:
  assumes "R = [] \<or> hd R = CHR ''<''"
  shows "purchased (render_bought (Bought_crown n t) @ R) xp crown f = purchased R xp (crown + n) f"
proof -
  let ?c = "''crown_money '' @ pieces (crown_attrs n t) @ ''/>''"
  have c: "CHR ''<'' \<notin> set ?c" using bought_brackets(2) by simp
  have "sync_uint (pieces (crown_attrs n t) @ ''/>'' @ R) ''added'' = n"
    by (rule number_read [OF bought_attrs_ok(2)]) (simp_all add: crown_attrs_def attr_hit_def name_ok_def)
  with front_thing(2) [OF c assms] show ?thesis by simp
qed

lemma zero_attr: "attr_starts_0 (Some v) \<longleftrightarrow> starts_with v ''0''"
  by (cases v) (auto simp: attr_starts_0_def)

lemma permanent_read:
  assumes "plain_bought (Bought_item i)"
  shows "is_permanent (pieces (item_head i) @ ''>'' @ ''<item '' @ pieces ((''id'', bi_item_id i) # item_body i) @ w) = for_ever (Bought_item i)"
proof -
  let ?kvs = "item_head i @ (''><item id'', bi_item_id i) # item_body i"
  have "attr_ok (''><item id'', bi_item_id i)" using assms by (intro clean_ok) (simp_all add: plain_text_def)
  then have ok: "list_all attr_ok ?kvs" using bought_attrs_ok(3,4) [OF assms] by simp
  have m: "pieces (item_head i) @ ''>'' @ ''<item '' @ pieces ((''id'', bi_item_id i) # item_body i) @ w = pieces ?kvs @ w"
    by (simp add: pieces_append pieces_simps q_def)
  have n: "name_ok x \<and> x \<noteq> [] \<and> hd x \<noteq> CHR '' ''" if "x \<in> {''added_expiration'', ''added_quantity'', ''permanent''}" for x
    using that by (auto simp: name_ok_def)
  have "attr (pieces ?kvs @ w) ''added_expiration'' = Some (bi_expiration i)" "attr (pieces ?kvs @ w) ''added_quantity'' = Some (bi_quantity i)"
    by (rule text_read [OF ok]; simp add: item_head_def attr_hit_def name_ok_def)+
  moreover have "attr_int (pieces ?kvs @ w) ''permanent'' = bi_permanent i"
    using assms by (intro int_read [OF ok]) (simp_all add: item_head_def item_body_def attr_hit_def name_ok_def)
  ultimately show ?thesis unfolding m is_permanent_def by (simp add: zero_attr)
qed

lemma purchased_item:
  assumes "plain_bought (Bought_item i)" "R = [] \<or> hd R = CHR ''<''"
  shows "purchased (render_bought (Bought_item i) @ R) xp crown f = purchased R xp crown (f \<or> for_ever (Bought_item i))"
proof -
  let ?c = "''profile_item '' @ pieces (item_head i) @ ''>''"
  let ?b = "''item '' @ pieces ((''id'', bi_item_id i) # item_body i) @ ''/>''"
  let ?e = "''/profile_item>''"
  have "CHR ''<'' \<notin> set (bi_item_id i)" using assms(1) by (simp add: clean_def)
  then have c: "CHR ''<'' \<notin> set ?c" "CHR ''<'' \<notin> set ?b" "CHR ''<'' \<notin> set ?e"
    using bought_brackets(3,4) [OF assms(1)] by (simp_all add: pieces_simps q_def)
  let ?E = "CHR ''<'' # ?e @ R" let ?B = "CHR ''<'' # ?b @ ?E"
  have "purchased ?B xp crown f' = purchased ?E xp crown f'" for f' by (rule purchased_other [OF c(2)]) simp_all
  moreover have "purchased ?E xp crown f' = purchased R xp crown f'" for f' by (rule purchased_other [OF c(3) assms(2)]) simp_all
  moreover have "purchased (CHR ''<'' # ?c @ ?B) xp crown f = purchased ?B xp crown (f \<or> is_permanent (drop 13 ?c @ ?B))"
    by (rule front_thing(3) [OF c(1)]) simp_all
  moreover have "is_permanent (drop 13 ?c @ ?B) = for_ever (Bought_item i)"
    using permanent_read [OF assms(1), of "''/>'' @ ?E"] by simp
  ultimately show ?thesis by simp
qed

lemma bought_front: "\<exists>c. render_bought r = CHR ''<'' # c"
  by (cases r) simp_all

lemma things_front: "hd R = CHR ''<'' \<Longrightarrow> hd (concat (map render_bought rs) @ R) = CHR ''<''"
  using bought_front [of "hd rs"] by (cases rs) auto

lemma purchased_things:
  assumes "list_all plain_bought rs" "hd R = CHR ''<''"
  shows "\<exists>cr. purchased (concat (map render_bought rs) @ R) xp crown f
    = purchased R (xp + sum_list (map exp_bought rs)) cr (f \<or> list_ex for_ever rs)"
  using assms(1)
proof (induction rs arbitrary: xp crown f)
  case Nil
  then show ?case by auto
next
  case (Cons r rs)
  let ?R = "concat (map render_bought rs) @ R"
  have h: "?R = [] \<or> hd ?R = CHR ''<''" using things_front [OF assms(2)] by simp
  have p: "plain_bought r" "list_all plain_bought rs" using Cons.prems by simp_all
  obtain cr where "purchased (render_bought r @ ?R) xp crown f = purchased ?R (xp + exp_bought r) cr (f \<or> for_ever r)"
    using p(1) purchased_exp [OF _ h] purchased_crown [OF h] purchased_item [OF _ h] by (cases r) (auto simp del: render_bought.simps)
  moreover obtain cr' where "purchased ?R (xp + exp_bought r) cr (f \<or> for_ever r)
      = purchased R (xp + exp_bought r + sum_list (map exp_bought rs)) cr' ((f \<or> for_ever r) \<or> list_ex for_ever rs)"
    using Cons.IH [OF p(2)] by blast
  ultimately show ?case by (intro exI [of _ cr']) (simp add: add.assoc disj_assoc del: render_bought.simps)
qed

text \<open>Texts without the asked name in front of a text.\<close>

lemma text_skip:
  assumes "CHR ''='' \<notin> set (c @ [x])" "x \<notin> set n" "x \<noteq> apos"
  shows "strstr ((c @ [x]) @ r) (n @ ''='' @ [apos]) = strstr r (n @ ''='' @ [apos])"
proof (rule strstr_skip, intro allI impI notI)
  fix k
  let ?p = "n @ CHR ''='' # [apos]"
  assume k: "k < length (c @ [x])" and m: "starts_with (drop k ((c @ [x]) @ r)) (n @ ''='' @ [apos])"
  then have m': "starts_with (drop k ((c @ [x]) @ r)) ?p" by simp
  from match_reaches [OF m' assms(1)] k have l: "length c - k < length n" by simp
  have "((c @ [x]) @ r) ! (k + (length c - k)) = ?p ! (length c - k)"
    using k l by (intro match_nth [OF m']) simp_all
  moreover have "((c @ [x]) @ r) ! (k + (length c - k)) = x" using k by (simp add: nth_append)
  moreover have "?p ! (length c - k) = n ! (length c - k)" using l by (simp add: nth_append)
  ultimately show False using assms(2) nth_mem [OF l] by simp
qed

lemma pieces_skip:
  assumes "list_all attr_ok kvs" "name_ok n \<and> n \<noteq> [] \<and> hd n \<noteq> CHR '' ''" "lookup_attr n kvs = None"
  shows "strstr (pieces kvs @ r) (n @ ''='' @ [apos]) = strstr r (n @ ''='' @ [apos])"
  using assms(1,3)
proof (induction kvs)
  case Nil
  then show ?case by (simp add: pieces_simps)
next
  case (Cons kv kvs)
  have b: "strstr (render_attr kv @ pieces kvs @ r) (n @ ''='' @ [apos]) = strstr (pieces (kv # kvs) @ r) (n @ ''='' @ [apos])"
    using strstr_blank [of "n @ ''='' @ [apos]" "pieces (kv # kvs) @ r"] assms(2)
    by (cases n) (simp_all add: piece_blank pieces_def del: strstr.simps)
  have "\<not> attr_hit n kv" using Cons.prems(2) by (simp split: if_splits)
  with strstr_attr_miss [of kv n "pieces kvs @ r"] b Cons assms(2) show ?case by simp
qed

text \<open>What is left of the money stands behind the purchased things.\<close>

definition money_name :: "cstring \<Rightarrow> bool" where
  "money_name n \<longleftrightarrow> n \<in> {''game_money'', ''cry_money'', ''crown_money''}"

lemma money_names: "money_name n \<Longrightarrow> name_ok n \<and> n \<noteq> [] \<and> hd n \<noteq> CHR '' ''" "money_name n \<Longrightarrow> CHR '' '' \<notin> set n \<and> CHR ''>'' \<notin> set n"
  by (auto simp: money_name_def name_ok_def)

lemma tag_skip:
  assumes "money_name n" "c \<noteq> []" "last c = CHR '' '' \<or> last c = CHR ''>''" "CHR ''='' \<notin> set c"
  shows "strstr (c @ r) (n @ ''='' @ [apos]) = strstr r (n @ ''='' @ [apos])"
  using text_skip [of "butlast c" "last c" n r] assms money_names [OF assms(1)] by auto

lemma bought_skip:
  assumes "plain_bought b" "money_name n"
  shows "strstr (render_bought b @ R) (n @ ''='' @ [apos]) = strstr R (n @ ''='' @ [apos])"
proof -
  note n = money_names(1) [OF assms(2)]
  note t = tag_skip [OF assms(2)]
  show ?thesis
  proof (cases b)
    case (Bought_exp m tl offer)
    have "lookup_attr n (exp_attrs m tl offer) = None" using assms(2) by (auto simp: money_name_def exp_attrs_def attr_hit_def)
    with pieces_skip [OF bought_attrs_ok(1) n] assms(1) t [of "''<exp ''"] t [of "''/>''"] Bought_exp show ?thesis by (simp del: strstr.simps)
  next
    case (Bought_crown m tl)
    have "lookup_attr n (crown_attrs m tl) = None" using assms(2) by (auto simp: money_name_def crown_attrs_def attr_hit_def)
    with pieces_skip [OF bought_attrs_ok(2) n] t [of "''<crown_money ''"] t [of "''/>''"] Bought_crown show ?thesis by (simp del: strstr.simps)
  next
    case (Bought_item i)
    have l: "lookup_attr n (item_head i) = None" "lookup_attr n ((''id'', bi_item_id i) # item_body i) = None"
      using assms(2) by (auto simp: money_name_def item_head_def item_body_def attr_hit_def)
    have p: "plain_bought (Bought_item i)" using assms(1) Bought_item by simp
    have "attr_ok (''id'', bi_item_id i)" using p by (intro clean_ok) (simp_all add: plain_text_def)
    then have ok: "list_all attr_ok ((''id'', bi_item_id i) # item_body i)" using bought_attrs_ok(4) [OF p] by simp
    from pieces_skip [OF bought_attrs_ok(3) [OF p] n l(1)] pieces_skip [OF ok n l(2)] t [of "''<profile_item ''"] t [of "''>''"]
      t [of "''<item ''"] t [of "''/>''"] t [of "''</profile_item>''"] Bought_item
    show ?thesis by (simp del: strstr.simps)
  qed
qed

lemma things_skip:
  assumes "list_all plain_bought rs" "money_name n"
  shows "strstr (concat (map render_bought rs) @ R) (n @ ''='' @ [apos]) = strstr R (n @ ''='' @ [apos])"
  using assms(1)
proof (induction rs)
  case (Cons r rs)
  then show ?case using bought_skip [OF _ assms(2), of r "concat (map render_bought rs) @ R"] by (simp del: strstr.simps render_bought.simps)
qed simp

lemma sync_uint_cong: "strstr s (n @ ''='' @ [apos]) = strstr t (n @ ''='' @ [apos]) \<Longrightarrow> sync_uint s n = sync_uint t n"
  by (simp add: sync_uint_def sync_long_def get_info_int_def)

lemma answer_read:
  assumes "list_all plain_bought rs" "data = purchase_answer code rs game cry crown"
  shows "sync_uint data ''error_status'' = code" "sync_uint data ''game_money'' = game" "sync_uint data ''cry_money'' = cry"
    "sync_uint data ''crown_money'' = crown"
    and "strstr data ''<shop_buy_multiple_offer'' = Some data" "25 \<le> length data"
    and "\<exists>cr. purchased (drop 25 data) 0 0 False = Some (sum_list (map exp_bought rs), cr, list_ex for_ever rs)"
proof -
  let ?c = "[(''error_status'', int_dec (uint code))]"
  let ?m = "[(''game_money'', int_dec (uint game)), ('' cry_money'', int_dec (uint cry)), ('' crown_money'', int_dec (uint crown))]"
  let ?fin = "''/>'' @ ''</shop_buy_multiple_offer>''"
  have ok: "list_all attr_ok ?c" "list_all attr_ok ?m" by (simp_all add: attr_ok_int)
  have data: "data = ''<shop_buy_multiple_offer '' @ pieces ?c @ ''>'' @ ''<purchased_item>'' @ concat (map render_bought rs)
      @ ''</purchased_item>'' @ ''<money '' @ pieces ?m @ ?fin"
    by (simp add: assms(2) purchase_answer_def)
  show "strstr data ''<shop_buy_multiple_offer'' = Some data"
    unfolding data using strstr_here [of "''<shop_buy_multiple_offer''"] by (simp del: strstr.simps)
  show "25 \<le> length data" by (simp add: data)
  have e: "data = pieces [(''<shop_buy_multiple_offer error_status'', int_dec (uint code))] @ ''>'' @ ''<purchased_item>''
      @ concat (map render_bought rs) @ ''</purchased_item>'' @ ''<money '' @ pieces ?m @ ?fin"
    by (simp add: data pieces_simps q_def)
  show "sync_uint data ''error_status'' = code"
    unfolding e by (rule number_read) (simp_all add: attr_ok_int attr_hit_def name_ok_def)
  have skip: "sync_uint data n = sync_uint (pieces ?m @ ?fin) n" if "money_name n" for n
  proof (rule sync_uint_cong)
    have l: "lookup_attr n ?c = None" using that by (auto simp: money_name_def attr_hit_def)
    show "strstr data (n @ ''='' @ [apos]) = strstr (pieces ?m @ ?fin) (n @ ''='' @ [apos])"
      unfolding data using pieces_skip [OF ok(1) money_names(1) [OF that] l] things_skip [OF assms(1) that] tag_skip [OF that, of "''>''"]
        tag_skip [OF that, of "''<shop_buy_multiple_offer ''"] tag_skip [OF that, of "''<purchased_item>''"]
        tag_skip [OF that, of "''</purchased_item>''"] tag_skip [OF that, of "''<money ''"]
      by (simp del: strstr.simps)
  qed
  have "sync_uint (pieces ?m @ ?fin) ''game_money'' = game" "sync_uint (pieces ?m @ ?fin) ''cry_money'' = cry"
    "sync_uint (pieces ?m @ ?fin) ''crown_money'' = crown"
    by (rule number_read [OF ok(2)]; simp add: attr_hit_def name_ok_def)+
  then show "sync_uint data ''game_money'' = game" "sync_uint data ''cry_money'' = cry" "sync_uint data ''crown_money'' = crown"
    by (simp_all add: skip money_name_def)
  let ?R2 = "CHR ''<'' # (''money '' @ pieces ?m @ ''/>'') @ CHR ''<'' # ''/shop_buy_multiple_offer>'' @ []"
  let ?R = "CHR ''<'' # ''/purchased_item>'' @ ?R2"
  let ?w = "pieces ?c @ ''>''"
  have w: "CHR ''<'' \<notin> set ?w" "CHR ''<'' \<notin> set (''money '' @ pieces ?m @ ''/>'')"
    using bracket_free_int by (auto simp: pieces_simps q_def bracket_free_def)
  have d: "drop 25 data = ?w @ CHR ''<'' # ''purchased_item>'' @ concat (map render_bought rs) @ ?R" by (simp add: data)
  have h: "hd (concat (map render_bought rs) @ ?R) = CHR ''<''" by (rule things_front) simp
  have "purchased (drop 25 data) 0 0 False = purchased (concat (map render_bought rs) @ ?R) 0 0 False"
    unfolding d purchased_skip [OF w(1)] by (rule purchased_other [OF _ disjI2 [OF h]]) simp_all
  moreover obtain cr where "purchased (concat (map render_bought rs) @ ?R) 0 0 False
      = purchased ?R (sum_list (map exp_bought rs)) cr (list_ex for_ever rs)"
    using purchased_things [OF assms(1), of ?R 0 0 False] by auto
  moreover have "purchased ?R x cr f = purchased ?R2 x cr f" for x f by (rule purchased_other) simp_all
  moreover have "purchased ?R2 x cr f = purchased (CHR ''<'' # ''/shop_buy_multiple_offer>'' @ []) x cr f" for x f
    by (rule purchased_other [OF w(2)]) simp_all
  moreover have "purchased (CHR ''<'' # ''/shop_buy_multiple_offer>'' @ []) x cr f = Some (x, cr, f)" for x f
    by (subst purchased_other) (simp_all add: purchased.simps [of "[]"] comes_first_def)
  ultimately show "\<exists>cr. purchased (drop 25 data) 0 0 False = Some (sum_list (map exp_bought rs), cr, list_ex for_ever rs)" by simp
qed

text \<open>The tokens of a box.\<close>

definition items_named :: "'u session \<Rightarrow> bool" where
  "items_named s \<longleftrightarrow> pred_option (list_all (\<lambda>i. it_name i \<noteq> None)) (pr_items (profile s))"

definition lacks_token :: "cptr \<Rightarrow> game_item list option \<Rightarrow> bool" where
  "lacks_token token items \<longleftrightarrow>
     (case token of None \<Rightarrow> False | Some t \<Rightarrow> (case items of None \<Rightarrow> True | Some l \<Rightarrow> \<not> list_ex (\<lambda>i. it_name i = Some t) l))"

definition tokens_added :: "u32 \<Rightarrow> cptr \<Rightarrow> game_item list option \<Rightarrow> game_item list option" where
  "tokens_added n token items =
     (case token of
        None \<Rightarrow> items
      | Some t \<Rightarrow> map_option (modify_first (\<lambda>i. it_name i = Some t) (\<lambda>i. i\<lparr>it_quantity := it_quantity i + n\<rparr>)) items)"

lemma named_lookup:
  assumes "items_named s" "pr_items (profile s) = Some l"
  shows "profile_item_list_get (Some t) s = Some (find (\<lambda>i. it_name i = Some t) l)"
    and "modify_crash (\<lambda>i. strcmp_eq (it_name i) (Some t)) f l = Some (modify_first (\<lambda>i. it_name i = Some t) f l)"
proof -
  have "strcmp_eq (it_name i) (Some t) = Some (it_name i = Some t)" if "i \<in> set l" for i
    using that assms by (auto simp: items_named_def list_all_iff)
  note n = this
  show "profile_item_list_get (Some t) s = Some (find (\<lambda>i. it_name i = Some t) l)"
    unfolding profile_item_list_get_def item_list_get_def assms(2) using n by (simp add: find_crash_total)
  show "modify_crash (\<lambda>i. strcmp_eq (it_name i) (Some t)) f l = Some (modify_first (\<lambda>i. it_name i = Some t) f l)"
    using n by (rule modify_crash_total)
qed

lemma modify_none: "find P l = None \<Longrightarrow> modify_first P f l = l"
  by (induction l) (auto split: if_splits)

lemma add_tokens_done:
  assumes "items_named s"
  shows "add_tokens n token s =
    Some (upd_profile (\<lambda>p. p\<lparr>pr_items := tokens_added n token (pr_items p)\<rparr>) s, lacks_token token (pr_items (profile s)))"
proof (cases token)
  case None
  then show ?thesis by (simp add: add_tokens_def tokens_added_def lacks_token_def upd_profile_def)
next
  case (Some t)
  show ?thesis
  proof (cases "pr_items (profile s)")
    case None
    then show ?thesis using Some
      by (simp add: add_tokens_def profile_item_list_get_def item_list_get_def tokens_added_def lacks_token_def upd_profile_def)
  next
    case l: (Some l)
    note n = named_lookup [OF assms l, of t]
    show ?thesis
    proof (cases "find (\<lambda>i. it_name i = Some t) l")
      case None
      then have "\<not> list_ex (\<lambda>i. it_name i = Some t) l" by (auto simp: find_None_iff list_ex_iff)
      with None n(1) l Some modify_none [OF None] show ?thesis
        by (simp add: add_tokens_def tokens_added_def lacks_token_def upd_profile_def)
    next
      case (Some i)
      then have "list_ex (\<lambda>i. it_name i = Some t) l" by (auto simp: find_Some_iff list_ex_iff)
      with Some n l \<open>token = Some t\<close> show ?thesis by (simp add: add_tokens_def tokens_added_def lacks_token_def upd_profile_def)
    qed
  qed
qed

text \<open>C18: a purchase is booked: the experience grows by all that came with it, the money becomes what the server says
  is left, and if it was not answered with the lack of money the tokens of the box grow by the number of boxes; the
  profile is asked for again, once, exactly if money was lacking, the tokens were not known or one of the items is for
  ever.  Nothing else changes.\<close>

theorem purchase_booked:
  assumes "list_all plain_bought rs" "code \<le> 1" "items_named s" "ol_jid_host (online s) \<noteq> None"
  shows "randombox_cb amount token (Some (purchase_answer code rs game cry crown)) XMPP_TYPE_RESULT s
    = Some (add_trace
        (if code = 1 \<or> lacks_token token (pr_items (profile s)) \<or> list_ex for_ever rs
         then [Send_iq (JID_MS (ol_channel (online s)) s) XMPP_TYPE_GET (Some (CB_resync_profile None)) None (k01_query ''<resync_profile/>'')]
         else [])
        (upd_profile (\<lambda>p. p\<lparr>pr_experience := pr_experience p + sum_list (map exp_bought rs),
           pr_money_game := game, pr_money_crown := crown, pr_money_cry := cry,
           pr_items := (if code = 1 then pr_items p else tokens_added amount token (pr_items p))\<rparr>) s))"
proof -
  define data where "data = purchase_answer code rs game cry crown"
  note a = answer_read [OF assms(1) data_def]
  obtain cr where f: "purchased (drop 25 data) 0 0 False = Some (sum_list (map exp_bought rs), cr, list_ex for_ever rs)" using a(7) by blast
  let ?b = "\<lambda>p. p\<lparr>pr_experience := pr_experience p + sum_list (map exp_bought rs), pr_money_game := game,
      pr_money_crown := crown, pr_money_cry := cry\<rparr>"
  let ?s = "upd_profile ?b s"
  let ?es = "[Send_iq (JID_MS (ol_channel (online s)) s) XMPP_TYPE_GET (Some (CB_resync_profile None)) None (k01_query ''<resync_profile/>'')]"
  have "items_named ?s" using assms(3) by (simp add: items_named_def)
  note t = add_tokens_done [OF this, of amount token]
  obtain d where d: "jid_to_str (JID_MS (ol_channel (online s)) s) = Some d" using assms(4) by (auto simp: jid_to_str_def Let_def)
  have h: "JID_MS (ol_channel (online s)) (upd_profile g s') = JID_MS (ol_channel (online s)) s'" for g s' by (simp add: JID_MS_def)
  have sent: "profile_item_list_update None (upd_profile g s) = Some (add_trace ?es (upd_profile g s))" for g
    by (simp add: profile_item_list_update_def xmpp_iq_resync_profile_def send_iq_get_def h d)
  have twice: "upd_profile g (upd_profile g' s) = upd_profile (\<lambda>p. g (g' p)) s" for g g' by (simp add: upd_profile_def)
  from assms(2) have "code = 0 \<or> code = 1" by (metis order_le_less word_less_1)
  then show ?thesis
  proof
    assume "code = 1"
    with a(1-6) f sent show ?thesis
      unfolding data_def [symmetric] by (simp add: randombox_cb_def upd_profile_def)
  next
    assume "code = 0"
    with a(1-6) f sent t show ?thesis
      unfolding data_def [symmetric] by (simp add: randombox_cb_def twice)
  qed
qed

definition token_item :: game_item where
  "token_item = (new_item [] ''box_token_cry_money_05'')\<lparr>it_quantity := 3\<rparr>"

definition flashbang :: bought_item where
  "flashbang = \<lparr>bi_name = ''flashbang'', bi_item_id = ''77'', bi_offer = ''9870'', bi_expiration = ''0'', bi_quantity = ''0'', bi_status = ''0'',
     bi_attached = ''0'', bi_config = ''dm=0;material=;pocket_index=3246082'', bi_slot = ''0'', bi_equipped = ''0'', bi_default = ''0'', bi_permanent = 0,
     bi_confirmed = ''0'', bi_bought = ''1429646487'', bi_expires = ''1449778407'', bi_left = ''172628''\<rparr>"

theorem purchase_booked_witness:
  "\<exists>s'. randombox_cb 2 (Some ''box_token_cry_money_05'') (Some (purchase_answer 0 [Bought_exp 50 90 ''9870'', Bought_item flashbang, Bought_exp 20 110 ''9871'', Bought_crown 100 300] 5 6 7))
       XMPP_TYPE_RESULT (upd_profile (\<lambda>p. p\<lparr>pr_items := Some [token_item]\<rparr>) sample_shop) = Some s'
     \<and> pr_experience (profile s') = pr_experience (profile sample_shop) + 70 \<and> pr_money_cry (profile s') = 6
     \<and> pr_items (profile s') = Some [token_item\<lparr>it_quantity := 5\<rparr>] \<and> length (trace s') = 1"
proof -
  let ?s = "upd_profile (\<lambda>p. p\<lparr>pr_items := Some [token_item]\<rparr>) sample_shop"
  let ?rs = "[Bought_exp 50 90 ''9870'', Bought_item flashbang, Bought_exp 20 110 ''9871'', Bought_crown 100 300]"
  have r: "list_all plain_bought ?rs" "(0 :: u32) \<le> 1" by (simp_all add: clean_def attr_ok_def flashbang_def)
  have n: "items_named ?s" "ol_jid_host (online ?s) \<noteq> None" "trace sample_shop = []"
    by (simp_all add: items_named_def token_item_def new_item_def sample_shop_offers(5)) (simp add: sample_shop_def demo_session_simps upd_wf_def)
  from purchase_booked [OF r n(1,2), of 2 "Some ''box_token_cry_money_05''" 5 6 7] show ?thesis
    by (simp add: token_item_def new_item_def tokens_added_def flashbang_def n(3))
qed

end
