(* ===== verification/GameConfig.thy ===== *)
theory GameConfig
  imports Shop
begin

text \<open>
  The configuration of the game (\<open>src/xmpp_wf/get/xmpp_iq_get_configs.c\<close>, \<open>include/wb_config.h\<close>), which comes
  through the query cache element by element.  \<open>elt\<close> is the text from the element on.  An endless loop is
  the value \<open>None\<close>, as is a crash.
\<close>

subsection \<open>The record\<close>

record ui_menu_unlock_unlock =
  un_screen :: cptr
  un_option :: cptr
  un_rank :: int

record rating_curve_step =
  cs_points_required :: int
  cs_adjustment :: int
  cs_icon :: cptr
  cs_description :: cptr

record rating_reward =
  rr_rating_level :: int
  rr_name :: cptr

record abuse_report_type =
  ar_name :: cptr
  ar_message :: cptr

record login_reward =
  lr_id :: u32
  lr_name :: cptr

record login_streak =
  ls_id :: u32
  ls_rewards :: "login_reward list"

record profile_progression_event =
  pe_id :: u32
  pe_silent :: int
  pe_type :: cptr
  pe_tutorial_passed :: cptr
  pe_rank_reached :: int
  pe_max_value :: int
  pe_pass_value :: int
  pe_unlock_type :: cptr
  pe_unlock_class :: cptr
  pe_special_reward :: cptr

datatype special_reward_data =
    SPECIAL_REWARD_ITEM cptr cptr u32 u32
  | SPECIAL_REWARD_ACHIEVEMENT u32 u32
  | SPECIAL_REWARD_MONEY cptr u32

record special_reward =
  sr_id :: u32
  sr_use_notification :: int
  sr_data :: special_reward_data

record special_reward_event =
  se_name :: cptr
  se_rewards :: "special_reward list"

record region_distance =
  rd_from :: cptr
  rd_to :: cptr
  rd_value :: int

record win_streak =
  ws_enabled :: int
  ws_bonus_amount :: u32
  ws_start_from_streak :: u32
  ws_apply_below_rating :: u32

record rating_curve =
  cu_step :: u32
  cu_leave_penalty :: u32
  cu_top_rating_capacity :: u32
  cu_win_streak :: win_streak
  cu_steps :: "rating_curve_step list option"

record rating_rule =
  ru_enabled :: int
  ru_season_id_template :: cptr
  ru_banner :: cptr
  ru_description :: cptr
  ru_rules :: cptr
  ru_announcement_end_date :: cptr
  ru_games_end_date :: cptr
  ru_rank :: "rating_reward list option"
  ru_season :: "rating_reward list option"

record login_bonus_config =
  lb_enabled :: int
  lb_use_notification :: int
  lb_schedule :: cptr
  lb_expiration :: cptr
  lb_streaks :: "login_streak list option"

record vote_config =
  vo_can_be_started_after_sec :: u32
  vo_cooldown_sec :: u32
  vo_timeout_sec :: u32
  vo_success_threshold :: u32

record game_config =
  ui_enabled :: int
  ui_unlocks :: "ui_menu_unlock_unlock list option"
  rating_enabled :: int
  rating_curve :: rating_curve
  rating_rule :: rating_rule
  abuse_reports_per_day :: int
  abuse_reports_per_player :: int
  abuse_report_types :: "abuse_report_type list option"
  consecutive_login_bonus :: login_bonus_config
  consecutive_login_bonus_holiday :: login_bonus_config
  progression_enabled :: int
  progression_events :: "profile_progression_event list option"
  special_reward_events :: "special_reward_event list option"
  votes_kick :: vote_config
  votes_surrender :: vote_config
  regions_distances :: "region_distance list option"

text \<open>\<open>calloc\<close>.\<close>

definition zero_bonus :: login_bonus_config where
  "zero_bonus = \<lparr>lb_enabled = 0, lb_use_notification = 0, lb_schedule = None, lb_expiration = None, lb_streaks = None\<rparr>"

definition zero_vote :: vote_config where
  "zero_vote = \<lparr>vo_can_be_started_after_sec = 0, vo_cooldown_sec = 0, vo_timeout_sec = 0, vo_success_threshold = 0\<rparr>"

definition zero_config :: game_config where
  "zero_config =
     \<lparr>ui_enabled = 0, ui_unlocks = None, rating_enabled = 0,
      rating_curve = \<lparr>cu_step = 0, cu_leave_penalty = 0, cu_top_rating_capacity = 0,
        cu_win_streak = \<lparr>ws_enabled = 0, ws_bonus_amount = 0, ws_start_from_streak = 0, ws_apply_below_rating = 0\<rparr>, cu_steps = None\<rparr>,
      rating_rule = \<lparr>ru_enabled = 0, ru_season_id_template = None, ru_banner = None, ru_description = None, ru_rules = None,
        ru_announcement_end_date = None, ru_games_end_date = None, ru_rank = None, ru_season = None\<rparr>,
      abuse_reports_per_day = 0, abuse_reports_per_player = 0, abuse_report_types = None,
      consecutive_login_bonus = zero_bonus, consecutive_login_bonus_holiday = zero_bonus,
      progression_enabled = 0, progression_events = None, special_reward_events = None,
      votes_kick = zero_vote, votes_surrender = zero_vote, regions_distances = None\<rparr>"

subsection \<open>Menu, rating, reports\<close>

text \<open>The option and the rank are looked up in the whole element, not in the entry.\<close>

definition unlock_elem :: "cstring \<Rightarrow> cstring \<Rightarrow> ui_menu_unlock_unlock list \<Rightarrow> ui_menu_unlock_unlock list crash" where
  "unlock_elem elt m l =
     do {
       unlock \<leftarrow> deref (get_info m ''<unlock '' ''/>'');
       Some (\<lparr>un_screen = attr unlock ''screen'', un_option = attr elt ''option'', un_rank = attr_int elt ''rank''\<rparr> # l)
     }"

definition parse_ui_menu_unlock :: "cstring \<Rightarrow> game_config \<Rightarrow> game_config crash" where
  "parse_ui_menu_unlock elt c =
     do {
       l \<leftarrow> each_elem ''<unlock '' (unlock_elem elt) elt [];
       Some (c\<lparr>ui_enabled := attr_int elt ''enabled'', ui_unlocks := Some l\<rparr>)
     }"

definition curve_step_elem :: "cstring \<Rightarrow> rating_curve_step list \<Rightarrow> rating_curve_step list crash" where
  "curve_step_elem m l =
     do {
       rating \<leftarrow> deref (get_info m ''<rating '' ''/>'');
       Some (\<lparr>cs_points_required = attr_int rating ''points_required'', cs_adjustment = attr_int rating ''adjustment'',
              cs_icon = attr rating ''icon'', cs_description = attr rating ''description''\<rparr> # l)
     }"

definition parse_win_streak :: "cstring \<Rightarrow> win_streak \<Rightarrow> win_streak" where
  "parse_win_streak elt ws =
     (case get_info elt ''<win_streak'' ''/>'' of
        None \<Rightarrow> ws
      | Some n \<Rightarrow> \<lparr>ws_enabled = sync_char n ''enabled'', ws_bonus_amount = sync_uint n ''bonus_amount'',
                  ws_start_from_streak = sync_uint n ''start_from_streak'', ws_apply_below_rating = sync_uint n ''apply_below_rating''\<rparr>)"

definition parse_rating_curve :: "cstring \<Rightarrow> game_config \<Rightarrow> game_config crash" where
  "parse_rating_curve elt c =
     do {
       l \<leftarrow> each_elem ''<rating '' curve_step_elem elt [];
       Some (c\<lparr>rating_curve := \<lparr>cu_step = sync_uint elt ''step'', cu_leave_penalty = sync_uint elt ''leave_penalty'',
         cu_top_rating_capacity = sync_uint elt ''top_rating_capacity'',
         cu_win_streak = parse_win_streak elt (cu_win_streak (rating_curve c)), cu_steps = Some l\<rparr>\<rparr>)
     }"

definition rating_reward_elem :: "cstring \<Rightarrow> rating_reward list \<Rightarrow> rating_reward list crash" where
  "rating_reward_elem m l =
     do {
       n \<leftarrow> deref (get_info m ''<reward '' ''/>'');
       Some (\<lparr>rr_rating_level = attr_int n ''rating_level'', rr_name = attr n ''name''\<rparr> # l)
     }"

definition rating_rewards :: "cptr \<Rightarrow> rating_reward list crash" where
  "rating_rewards rewards = (case rewards of None \<Rightarrow> Some [] | Some m \<Rightarrow> each_elem ''<reward '' rating_reward_elem m [])"

definition parse_rating_season_rule :: "cstring \<Rightarrow> game_config \<Rightarrow> game_config crash" where
  "parse_rating_season_rule elt c =
     do {
       rank \<leftarrow> rating_rewards (get_info elt ''<rating_achieved_rewards>'' ''</rating_achieved_rewards>'');
       season \<leftarrow> rating_rewards (get_info elt ''<season_result_rewards>'' ''</season_result_rewards>'');
       Some (c\<lparr>rating_rule := \<lparr>ru_enabled = sync_char elt ''enabled'', ru_season_id_template = attr elt ''season_id_template'',
         ru_banner = attr elt ''banner'', ru_description = attr elt ''description'', ru_rules = attr elt ''rules'',
         ru_announcement_end_date = attr elt ''announcement_end_date'', ru_games_end_date = attr elt ''games_end_date'',
         ru_rank = Some rank, ru_season = Some season\<rparr>\<rparr>)
     }"

definition parse_ratingseason :: "cstring \<Rightarrow> game_config \<Rightarrow> game_config crash" where
  "parse_ratingseason elt c = Some (c\<lparr>rating_enabled := sync_char elt ''enabled''\<rparr>)"

definition report_type_elem :: "cstring \<Rightarrow> abuse_report_type list \<Rightarrow> abuse_report_type list crash" where
  "report_type_elem m l =
     do {
       n \<leftarrow> deref (get_info m ''<report_type '' ''/>'');
       Some (\<lparr>ar_name = attr n ''name'', ar_message = attr n ''message''\<rparr> # l)
     }"

definition parse_abuse_manager_config :: "cstring \<Rightarrow> game_config \<Rightarrow> game_config crash" where
  "parse_abuse_manager_config elt c =
     do {
       l \<leftarrow> each_elem ''<report_type '' report_type_elem elt [];
       Some (c\<lparr>abuse_reports_per_day := attr_int elt ''reports_per_day'', abuse_reports_per_player := attr_int elt ''reports_per_player'',
         abuse_report_types := Some l\<rparr>)
     }"

subsection \<open>Log in rewards\<close>

text \<open>The rewards of a streak and the streaks are numbered in their order.\<close>

definition login_reward_elem :: "cstring \<Rightarrow> u32 \<times> login_reward list \<Rightarrow> (u32 \<times> login_reward list) crash" where
  "login_reward_elem m =
     (\<lambda>(i, l). do {
       n \<leftarrow> deref (get_info m ''<reward '' ''/>'');
       Some (i + 1, \<lparr>lr_id = i, lr_name = attr n ''name''\<rparr> # l)
     })"

definition login_streak_elem :: "cstring \<Rightarrow> u32 \<times> login_streak list \<Rightarrow> (u32 \<times> login_streak list) crash" where
  "login_streak_elem m2 =
     (\<lambda>(j, l). do {
       n \<leftarrow> deref (get_info m2 ''<streak>'' ''</streak>'');
       (i, rewards) \<leftarrow> each_elem ''<reward '' login_reward_elem n (0, []);
       Some (j + 1, \<lparr>ls_id = j, ls_rewards = rewards\<rparr> # l)
     })"

definition parse_login_bonus :: "cstring \<Rightarrow> login_bonus_config crash" where
  "parse_login_bonus elt =
     do {
       (j, l) \<leftarrow> each_elem ''<streak>'' login_streak_elem elt (0, []);
       Some \<lparr>lb_enabled = sync_char elt ''enabled'', lb_use_notification = attr_int elt ''use_notification'',
         lb_schedule = attr elt ''schedule'', lb_expiration = attr elt ''expiration'', lb_streaks = Some l\<rparr>
     }"

definition parse_consecutive_login_bonus :: "cstring \<Rightarrow> game_config \<Rightarrow> game_config crash" where
  "parse_consecutive_login_bonus elt c = do { b \<leftarrow> parse_login_bonus elt; Some (c\<lparr>consecutive_login_bonus := b\<rparr>) }"

definition parse_consecutive_login_bonus_holiday :: "cstring \<Rightarrow> game_config \<Rightarrow> game_config crash" where
  "parse_consecutive_login_bonus_holiday elt c = do { b \<leftarrow> parse_login_bonus elt; Some (c\<lparr>consecutive_login_bonus_holiday := b\<rparr>) }"

subsection \<open>Progression, special rewards\<close>

text \<open>\<open>unlock_type\<close> is never read.\<close>

definition read_progression_event :: "u32 \<Rightarrow> cstring \<Rightarrow> profile_progression_event" where
  "read_progression_event i n =
     \<lparr>pe_id = i, pe_silent = sync_char n ''silent'', pe_type = attr n ''type'', pe_tutorial_passed = attr n ''tutorial_passed'',
      pe_rank_reached = attr_int n ''rank_reached'', pe_max_value = attr_int n ''max_value'', pe_pass_value = attr_int n ''pass_value'',
      pe_unlock_type = None, pe_unlock_class = attr n ''unlock_class'', pe_special_reward = attr n ''special_reward''\<rparr>"

text \<open>The loop goes on as long as an element starts before the closing tag; it steps over the text of the element
  and does not move if that is empty.\<close>

partial_function (option) progression_loop ::
  "cptr \<Rightarrow> cstring \<Rightarrow> u32 \<Rightarrow> profile_progression_event list \<Rightarrow> profile_progression_event list crash" where
  "progression_loop end' m i l =
     (case strstr m ''<'' of
        None \<Rightarrow> Some l
      | Some el \<Rightarrow>
          if case end' of None \<Rightarrow> True | Some e \<Rightarrow> length el \<le> length e then Some l
          else (case get_info el ''<'' ''/>'' of
                  None \<Rightarrow> None
                | Some n \<Rightarrow> progression_loop end' (drop (length n) el) (i + 1) (read_progression_event i n # l)))"

definition parse_profile_progression_config :: "cstring \<Rightarrow> game_config \<Rightarrow> game_config crash" where
  "parse_profile_progression_config elt c =
     (if elt = [] then None
      else do {
             l \<leftarrow> progression_loop (strstr elt ''</profile_progression_config>'') (tl elt) 0 [];
             Some (c\<lparr>progression_enabled := sync_char elt ''enabled'', progression_events := Some l\<rparr>)
           })"

definition notification_flag :: "cstring \<Rightarrow> int \<Rightarrow> int" where
  "notification_flag n inherited = (if strstr n ''use_notification='' \<noteq> None then sync_char n ''use_notification'' else inherited)"

definition read_special_reward :: "cstring \<Rightarrow> cstring \<Rightarrow> special_reward_data option" where
  "read_special_reward name n =
     (if name = ''item'' then Some (SPECIAL_REWARD_ITEM (attr n ''name'') (attr n ''expiration'') (sync_uint n ''max_amount'') (sync_uint n ''amount''))
      else if name = ''money'' then Some (SPECIAL_REWARD_MONEY (attr n ''currency'') (sync_uint n ''amount''))
      else if name = ''achievement'' then Some (SPECIAL_REWARD_ACHIEVEMENT (sync_uint n ''id'') (sync_uint n ''progress''))
      else None)"

partial_function (option) special_reward_loop :: "int \<Rightarrow> cstring \<Rightarrow> u32 \<Rightarrow> special_reward list \<Rightarrow> special_reward list crash" where
  "special_reward_loop use_notification m i l =
     (case strstr m ''<'' of
        None \<Rightarrow> Some l
      | Some el \<Rightarrow>
          (case (get_info el ''<'' ''/>'', get_info_first el ''<'' '' />'') of
             (Some n, Some name) \<Rightarrow>
               (case read_special_reward name n of
                  None \<Rightarrow> special_reward_loop use_notification (drop (length n) el) i l
                | Some d \<Rightarrow>
                    special_reward_loop use_notification (drop (length n) el) (i + 1)
                      (\<lparr>sr_id = i, sr_use_notification = notification_flag n use_notification, sr_data = d\<rparr> # l))
           | _ \<Rightarrow> None))"

text \<open>The loop looks for \<open><event>\<close>, its body for \<open><event \<close>.\<close>

partial_function (option) special_event_loop :: "cstring \<Rightarrow> special_reward_event list \<Rightarrow> special_reward_event list crash" where
  "special_event_loop m2 l =
     (case strstr m2 ''<event>'' of
        None \<Rightarrow> Some l
      | Some el \<Rightarrow>
          (case (get_info el ''<event '' ''</event>'', get_info el ''<event '' ''>'') of
             (Some event_node, Some event_head) \<Rightarrow>
               (case special_reward_loop (notification_flag event_head 1) event_node 0 [] of
                  None \<Rightarrow> None
                | Some rewards \<Rightarrow>
                    special_event_loop (drop (length event_node) el) (\<lparr>se_name = attr event_head ''name'', se_rewards = rewards\<rparr> # l))
           | _ \<Rightarrow> None))"

definition parse_special_reward_configuration :: "cstring \<Rightarrow> game_config \<Rightarrow> game_config crash" where
  "parse_special_reward_configuration elt c =
     do { l \<leftarrow> special_event_loop elt []; Some (c\<lparr>special_reward_events := Some l\<rparr>) }"

subsection \<open>Votes, regions\<close>

definition parse_vote :: "(cstring \<Rightarrow> u32) \<Rightarrow> cptr \<Rightarrow> vote_config \<Rightarrow> vote_config" where
  "parse_vote strtof node v =
     (case node of
        None \<Rightarrow> v
      | Some n \<Rightarrow> \<lparr>vo_can_be_started_after_sec = sync_uint n ''can_be_started_after_sec'', vo_cooldown_sec = sync_uint n ''cooldown_sec'',
                  vo_timeout_sec = sync_uint n ''timeout_sec'',
                  vo_success_threshold = get_info_float strtof n (''success_threshold='' @ [apos]) [apos]\<rparr>)"

definition parse_votes :: "(cstring \<Rightarrow> u32) \<Rightarrow> cstring \<Rightarrow> game_config \<Rightarrow> game_config crash" where
  "parse_votes strtof elt c =
     Some (c\<lparr>votes_kick := parse_vote strtof (get_info elt ''<kickvote'' ''/>'') (votes_kick c),
             votes_surrender := parse_vote strtof (get_info elt ''<surrendervote'' ''/>'') (votes_surrender c)\<rparr>)"

definition distance_elem :: "cstring \<Rightarrow> region_distance list \<Rightarrow> region_distance list crash" where
  "distance_elem m l =
     do {
       n \<leftarrow> deref (get_info m ''<distance '' ''/>'');
       Some (\<lparr>rd_from = attr n ''from'', rd_to = attr n ''to'', rd_value = attr_int n ''value''\<rparr> # l)
     }"

definition parse_regions :: "cstring \<Rightarrow> game_config \<Rightarrow> game_config crash" where
  "parse_regions elt c =
     (case get_info elt ''<distances>'' ''</distances>'' of
        None \<Rightarrow> Some c
      | Some m \<Rightarrow> do { l \<leftarrow> each_elem ''<distance '' distance_elem m []; Some (c\<lparr>regions_distances := Some l\<rparr>) })"

subsection \<open>The cache\<close>

definition parse_config :: "(cstring \<Rightarrow> u32) \<Rightarrow> cstring \<Rightarrow> game_config \<Rightarrow> game_config crash" where
  "parse_config strtof elt c =
     do {
       tag_name \<leftarrow> deref (get_info_first elt ''<'' '' />'');
       if tag_name = ''ui_menu_unlock'' then parse_ui_menu_unlock elt c
       else if tag_name = ''rating_curve'' then parse_rating_curve elt c
       else if tag_name = ''rating_season_rule'' then parse_rating_season_rule elt c
       else if tag_name = ''ratingseason'' then parse_ratingseason elt c
       else if tag_name = ''abuse_manager_config'' then parse_abuse_manager_config elt c
       else if tag_name = ''consecutive_login_bonus'' then parse_consecutive_login_bonus elt c
       else if tag_name = ''consecutive_login_bonus_holiday'' then parse_consecutive_login_bonus_holiday elt c
       else if tag_name = ''profile_progression_config'' then parse_profile_progression_config elt c
       else if tag_name = ''special_reward_configuration'' then parse_special_reward_configuration elt c
       else if tag_name = ''votes'' then parse_votes strtof elt c
       else if tag_name = ''regions'' then parse_regions elt c
       else Some c
     }"

text \<open>The record is only touched by an element that is known and, for the votes and regions, not empty.\<close>

definition config_tags :: "cstring list" where
  "config_tags =
     [''ui_menu_unlock'', ''rating_curve'', ''rating_season_rule'', ''ratingseason'', ''abuse_manager_config'', ''consecutive_login_bonus'',
      ''consecutive_login_bonus_holiday'', ''profile_progression_config'', ''special_reward_configuration'', ''votes'', ''regions'']"

definition touches_config :: "cstring \<Rightarrow> cstring \<Rightarrow> bool" where
  "touches_config tag_name elt \<longleftrightarrow>
     tag_name \<in> set config_tags
     \<and> (tag_name = ''votes'' \<longrightarrow> get_info elt ''<kickvote'' ''/>'' \<noteq> None \<or> get_info elt ''<surrendervote'' ''/>'' \<noteq> None)
     \<and> (tag_name = ''regions'' \<longrightarrow> get_info elt ''<distances>'' ''</distances>'' \<noteq> None)"

text \<open>The container of the cache is NULL until the first reset, which frees the old record with everything in it.\<close>

type_synonym config_cache = "game_config option crash querycache"

definition on_config :: "(cstring \<Rightarrow> u32) \<Rightarrow> cstring \<Rightarrow> game_config option crash \<Rightarrow> game_config option crash" where
  "on_config strtof elt c =
     do {
       g \<leftarrow> c;
       (case g of
          Some config \<Rightarrow> map_option Some (parse_config strtof elt config)
        | None \<Rightarrow> do { tag_name \<leftarrow> deref (get_info_first elt ''<'' '' />''); if touches_config tag_name elt then None else Some None })
     }"

definition reset_configs :: "game_config option crash \<Rightarrow> game_config option crash" where
  "reset_configs c = map_option (\<lambda>_. Some zero_config) c"

definition querycache_get_configs_init :: "(cstring \<Rightarrow> u32) \<Rightarrow> bool \<Rightarrow> cvars \<Rightarrow> config_cache \<Rightarrow> config_cache crash" where
  "querycache_get_configs_init strtof caching v c =
     (if query_disable_get_configs v then Some c
      else querycache_init caching (Some ''get_configs'') (Some (on_config strtof)) (Some reset_configs) c)"

definition querycache_get_configs_free :: "config_cache \<Rightarrow> config_cache" where
  "querycache_get_configs_free c = querycache_free (c\<lparr>qc_container := map_option (\<lambda>_. None) (qc_container c)\<rparr>)"

subsection \<open>Reading elements whose tag ends with a blank, and nested ones\<close>

text \<open>Like \<open>element_reader\<close>, but for any text that does not contain the tag again.\<close>

locale text_reader =
  fixes tag :: cstring
    and text_of :: "'a \<Rightarrow> cstring"
    and plain :: "'a \<Rightarrow> bool"
    and body :: "cstring \<Rightarrow> 's \<Rightarrow> 's crash"
    and step :: "'a \<Rightarrow> 's \<Rightarrow> 's crash"
  assumes tag_starts: "tag \<noteq> []"
    and tag_once: "plain x \<Longrightarrow> strstr (tl tag @ text_of x @ r) tag = strstr r tag"
    and body_reads: "plain x \<Longrightarrow> body (tag @ text_of x @ r) s = step x s"
begin

lemma reads_texts:
  assumes "list_all plain xs" "strstr r tag = None"
  shows "each_elem tag body (concat (map (\<lambda>x. tag @ text_of x) xs) @ r) s = each step xs s"
proof -
  have "strstr w tag = strstr (concat (map (\<lambda>x. tag @ text_of x) xs) @ r) tag \<Longrightarrow> each_elem tag body w s = each step xs s" for w
    using assms(1)
  proof (induction xs arbitrary: w s)
    case Nil
    then show ?case using assms(2) by (simp add: each_elem_stop)
  next
    case (Cons x xs)
    let ?r = "concat (map (\<lambda>x. tag @ text_of x) xs) @ r"
    have w: "strstr w tag = Some (tag @ text_of x @ ?r)"
      using Cons.prems(1) strstr_here [of tag "text_of x @ ?r"] by simp
    have t: "tl (tag @ text_of x @ ?r) = tl tag @ text_of x @ ?r" using tag_starts by simp
    have "strstr (tl tag @ text_of x @ ?r) tag = strstr ?r tag" using tag_once Cons.prems(2) by simp
    then have "each_elem tag body (tl tag @ text_of x @ ?r) s' = each step xs s'" for s'
      using Cons.IH [of "tl tag @ text_of x @ ?r" s'] Cons.prems(2) by simp
    then show ?case
      using each_elem_next [OF w, of body s] tag_starts t body_reads [of x ?r s] Cons.prems(2) by simp
  qed
  then show "each_elem tag body (concat (map (\<lambda>x. tag @ text_of x) xs) @ r) s = each step xs s" by simp
qed

lemma reads_behind:
  assumes "list_all plain xs" "strstr r tag = None" "\<And>r. strstr (w @ r) tag = strstr r tag"
  shows "each_elem tag body (w @ concat (map (\<lambda>x. tag @ text_of x) xs) @ r) s = each step xs s"
proof -
  have "each_elem tag body u s = each_elem tag body v s" if "strstr u tag = strstr v tag" for u v
    using that by (subst (1 2) each_elem.simps) simp
  from this [OF assms(3)] reads_texts [OF assms(1,2)] show ?thesis by simp
qed

end

lemma plain_pieces: "plain_attrs kvs \<Longrightarrow> CHR ''<'' \<notin> set (pieces kvs) \<and> CHR ''>'' \<notin> set (pieces kvs)"
  by (induction kvs) (auto simp: pieces_def plain_value_def)

lemma piece_cut: "plain_attrs kvs \<Longrightarrow> get_info (tag @ (pieces kvs @ ''/>'') @ r) tag ''/>'' = Some (pieces kvs)"
  using elem_cut [of "pieces kvs" tag r] plain_pieces [of kvs] by simp

lemma pieces_skipped:
  assumes "tag = CHR ''<'' # t" "CHR ''<'' \<notin> set t" "plain_attrs kvs"
  shows "strstr (tl tag @ (pieces kvs @ ''/>'') @ r) tag = strstr r tag"
  using strstr_skip_head [of "CHR ''<''" "t @ pieces kvs @ ''/>''" r t] plain_pieces [OF assms(3)] assms(1,2) by simp

lemma piece_attr:
  assumes "plain_attrs kvs" "name_ok n" "n \<noteq> []" "hd n \<noteq> CHR '' ''"
  shows "lookup_attr n kvs = Some v \<Longrightarrow> attr (pieces kvs) n = Some v"
    and "lookup_attr n kvs = Some (int_dec i) \<Longrightarrow> - (2 ^ 31) \<le> i \<Longrightarrow> i < 2 ^ 31 \<Longrightarrow> attr_int (pieces kvs) n = i"
proof -
  note ok = plain_attrs_ok [OF assms(1)]
  show "lookup_attr n kvs = Some v \<Longrightarrow> attr (pieces kvs) n = Some v"
    using pieces_read(1) [OF ok assms(2-4), of v "[]"] by simp
  show "attr_int (pieces kvs) n = i" if l: "lookup_attr n kvs = Some (int_dec i)" and "- (2 ^ 31) \<le> i" "i < 2 ^ 31"
  proof -
    obtain w where w: "strstr (pieces kvs) (n @ ''='' @ [apos]) = Some ((n @ ''='' @ [apos]) @ int_dec i @ apos # w)"
      using pieces_attr [OF ok assms(2-4) l, of "[]"] by auto
    have "- (2 ^ 63) \<le> i" "i < 2 ^ 63" using that(2,3) by simp_all
    from get_info_int_printed [OF w this] that(2,3) show ?thesis by (simp add: attr_int_def c_int_id)
  qed
qed

subsection \<open>Log in rewards\<close>

text \<open>Entries that are numbered from \<open>i\<close> on.\<close>

fun counted_up :: "(u32 \<Rightarrow> 'a \<Rightarrow> 'b) \<Rightarrow> u32 \<Rightarrow> 'a list \<Rightarrow> 'b list" where
  "counted_up mk i [] = []"
| "counted_up mk i (x # xs) = mk i x # counted_up mk (i + 1) xs"

lemma each_numbered:
  "each (\<lambda>x (i, l). Some (i + 1, mk i x # l)) xs (i, l) = Some (i + of_nat (length xs), rev (counted_up mk i xs) @ l)"
  by (induction xs arbitrary: i l) (simp_all add: algebra_simps)

definition mk_reward :: "u32 \<Rightarrow> cstring \<Rightarrow> login_reward" where
  "mk_reward i name = \<lparr>lr_id = i, lr_name = Some name\<rparr>"

definition mk_streak :: "u32 \<Rightarrow> cstring list \<Rightarrow> login_streak" where
  "mk_streak j names = \<lparr>ls_id = j, ls_rewards = rev (counted_up mk_reward 0 names)\<rparr>"

definition reward_text :: "cstring \<Rightarrow> cstring" where
  "reward_text name = pieces [(''name'', name)] @ ''/>''"

definition streak_text :: "cstring list \<Rightarrow> cstring" where
  "streak_text names = concat (map (\<lambda>n. ''<reward '' @ reward_text n) names) @ ''</streak>''"

interpretation reward_reader: text_reader "''<reward ''" reward_text plain_value login_reward_elem "\<lambda>x (i, l). Some (i + 1, mk_reward i x # l)"
proof unfold_locales
  fix x r and s :: "u32 \<times> login_reward list"
  assume x: "plain_value x"
  then have p: "plain_attrs [(''name'', x)]" by (simp add: name_ok_def)
  show "strstr (tl ''<reward '' @ reward_text x @ r) ''<reward '' = strstr r ''<reward ''"
    using pieces_skipped [OF _ _ p, of "''<reward ''" "''reward ''" r] by (simp add: reward_text_def del: strstr.simps)
  have "attr (pieces [(''name'', x)]) ''name'' = Some x"
    using piece_attr(1) [OF p, of "''name''" x] by (simp add: name_ok_def attr_hit_def)
  then show "login_reward_elem (''<reward '' @ reward_text x @ r) s = (\<lambda>(i, l). Some (i + 1, mk_reward i x # l)) s"
    using piece_cut [OF p, of "''<reward ''" r]
    by (cases s) (simp add: login_reward_elem_def reward_text_def mk_reward_def del: strstr.simps)
qed simp

text \<open>Another tag in between.\<close>

lemma strstr_other_tag:
  assumes "c \<noteq> d" "c \<noteq> CHR ''<''" "CHR ''<'' \<notin> set t"
  shows "strstr (CHR ''<'' # c # t @ r) (CHR ''<'' # d # p) = strstr r (CHR ''<'' # d # p)"
  using assms strstr_skip_head [OF assms(3), of r "d # p"] by simp

lemma rewards_skipped:
  assumes "list_all plain_value names" "d \<noteq> CHR ''r''"
  shows "strstr (concat (map (\<lambda>n. ''<reward '' @ reward_text n) names) @ r) (CHR ''<'' # d # p) = strstr r (CHR ''<'' # d # p)"
  using assms(1)
proof (induction names)
  case Nil
  then show ?case by simp
next
  case (Cons n names)
  then have p: "plain_attrs [(''name'', n)]" by (simp add: name_ok_def)
  then have "CHR ''<'' \<notin> set (''eward '' @ reward_text n)" using plain_pieces [OF p] by (simp add: reward_text_def)
  from strstr_other_tag [OF _ _ this, of "CHR ''r''" d "concat (map (\<lambda>n. ''<reward '' @ reward_text n) names) @ r" p] assms(2) Cons
  show ?case by (simp del: strstr.simps)
qed

interpretation streak_reader: text_reader "''<streak>''" streak_text "list_all plain_value" login_streak_elem "\<lambda>x (j, l). Some (j + 1, mk_streak j x # l)"
proof unfold_locales
  fix x r and s :: "u32 \<times> login_streak list"
  assume x: "list_all plain_value x"
  let ?rs = "concat (map (\<lambda>n. ''<reward '' @ reward_text n) x)"
  have "strstr (tl ''<streak>'' @ ?rs @ ''</streak>'' @ r) ''<streak>'' = strstr (?rs @ ''</streak>'' @ r) ''<streak>''"
    using strstr_skip_head [of "CHR ''<''" "''streak>''" "?rs @ ''</streak>'' @ r" "''streak>''"] by (simp del: strstr.simps)
  also have "\<dots> = strstr (''</streak>'' @ r) ''<streak>''" using rewards_skipped [OF x] by simp
  also have "\<dots> = strstr r ''<streak>''"
    using strstr_other_tag [of "CHR ''/''" "CHR ''s''" "''streak>''" r "''treak>''"] by (simp del: strstr.simps)
  finally show "strstr (tl ''<streak>'' @ streak_text x @ r) ''<streak>'' = strstr r ''<streak>''" by (simp add: streak_text_def del: strstr.simps)
  have "strstr (?rs @ ''</streak>'' @ r) ''</streak>'' = Some (''</streak>'' @ r)"
    using rewards_skipped [OF x, of "CHR ''/''" "''</streak>'' @ r" "''streak>''"] strstr_here [of "''</streak>''" r] by (simp del: strstr.simps)
  then have cut: "get_info (''<streak>'' @ streak_text x @ r) ''<streak>'' ''</streak>'' = Some ?rs"
    using strstr_here [of "''<streak>''" "streak_text x @ r"]
    by (simp add: get_info_def streak_text_def upto_ptr_def del: strstr.simps)
  have "each_elem ''<reward '' login_reward_elem ?rs (0, []) = Some (of_nat (length x), rev (counted_up mk_reward 0 x))"
    using reward_reader.reads_texts [OF x, of "[]" "(0, [])"] each_numbered [of mk_reward x 0 "[]"] by simp
  then show "login_streak_elem (''<streak>'' @ streak_text x @ r) s = (\<lambda>(j, l). Some (j + 1, mk_streak j x # l)) s"
    using cut by (cases s) (simp add: login_streak_elem_def mk_streak_def)
qed simp

definition bonus_text :: "cstring \<Rightarrow> (cstring \<times> cstring) list \<Rightarrow> cstring list list \<Rightarrow> cstring" where
  "bonus_text name attrs streaks =
     (''<'' @ name @ render_attrs attrs @ ''>'') @ concat (map (\<lambda>x. ''<streak>'' @ streak_text x) streaks) @ ''</'' @ name @ ''>''"

lemma tagged_int:
  assumes "plain_attrs kvs" "kvs \<noteq> []" "apos \<notin> set t" "name_ok n" "CHR '' '' \<notin> set n" "lookup_attr n kvs = Some (int_dec i)"
    "- (2 ^ 31) \<le> i" "i < 2 ^ 31"
  shows "sync_long (t @ render_attrs kvs @ r) n = i" "attr_int (t @ render_attrs kvs @ r) n = i"
proof -
  obtain R where R: "\<And>r. render_attrs kvs @ r = CHR '' '' # R @ r" using render_attrs_blank [OF assms(2)] by blast
  have "- (2 ^ 63) \<le> i" "i < 2 ^ 63" using assms(7,8) by simp_all
  from get_attr_int [OF plain_attrs_ok [OF assms(1)] assms(4,6) this, of r]
  have "get_info_int (t @ render_attrs kvs @ r) (n @ ''='' @ [apos]) [apos] = i"
    unfolding R get_info_int_def strstr_tag [OF assms(3,5)] .
  with assms(7,8) show "sync_long (t @ render_attrs kvs @ r) n = i" "attr_int (t @ render_attrs kvs @ r) n = i"
    by (simp_all add: sync_long_def attr_int_def c_int_id)
qed

text \<open>C28: the log in rewards of the configuration are read streak by streak and reward by reward, each numbered by its
  place, whatever their number, with the attributes of the element; every other setting stays as it was.\<close>

theorem login_bonus_read:
  assumes "list_all (list_all plain_value) streaks" "plain_value schedule" "plain_value expiration"
    "0 \<le> enabled" "enabled < 128" "0 \<le> notification" "notification < 2 ^ 31"
  shows "parse_config strtof (bonus_text ''consecutive_login_bonus''
        [(''enabled'', int_dec enabled), (''use_notification'', int_dec notification), (''schedule'', schedule), (''expiration'', expiration)] streaks) c
    = Some (c\<lparr>consecutive_login_bonus := \<lparr>lb_enabled = enabled, lb_use_notification = notification, lb_schedule = Some schedule,
        lb_expiration = Some expiration, lb_streaks = Some (rev (counted_up mk_streak 0 streaks))\<rparr>\<rparr>)"
proof -
  let ?name = "''consecutive_login_bonus''"
  let ?head = "[(''enabled'', int_dec enabled), (''use_notification'', int_dec notification), (''schedule'', schedule), (''expiration'', expiration)]"
  let ?elt = "bonus_text ?name ?head streaks"
  let ?rest = "''>'' @ concat (map (\<lambda>x. ''<streak>'' @ streak_text x) streaks) @ ''</'' @ ?name @ ''>''"
  have head: "plain_attrs ?head" using assms by (simp add: name_ok_def plain_value_int)
  have elt: "?elt = (''<'' @ ?name) @ render_attrs ?head @ ?rest" by (simp add: bonus_text_def)
  have names: "name_ok ''enabled''" "name_ok ''use_notification''" "name_ok ''schedule''" "name_ok ''expiration''" by (simp_all add: name_ok_def)
  have lookups: "lookup_attr ''enabled'' ?head = Some (int_dec enabled)" "lookup_attr ''use_notification'' ?head = Some (int_dec notification)"
    "lookup_attr ''schedule'' ?head = Some schedule" "lookup_attr ''expiration'' ?head = Some expiration"
    by (simp_all add: attr_hit_def)
  have tag: "?head \<noteq> []" "apos \<notin> set (''<'' @ ?name)" by simp_all
  have attrs: "attr ?elt ''schedule'' = Some schedule" "attr ?elt ''expiration'' = Some expiration"
    "sync_char ?elt ''enabled'' = enabled" "attr_int ?elt ''use_notification'' = notification"
    using tagged(1) [OF tag, of "''schedule''" ?rest] tagged(1) [OF tag, of "''expiration''" ?rest]
      attr_elem [OF head names(3) lookups(3), of ?rest] attr_elem [OF head names(4) lookups(4), of ?rest]
      tagged_int(1) [OF head tag names(1) _ lookups(1), of ?rest] tagged_int(2) [OF head tag names(2) _ lookups(2), of ?rest] assms(4-7)
    unfolding elt by (simp_all add: sync_char_def c_char_id del: render_attrs_simps)
  have "?elt = ''<'' @ ?name @ CHR '' '' # tl (render_attrs ?head) @ ?rest" unfolding elt by (simp add: render_attr_def)
  then have "strstr ?elt ''<'' = Some (''<'' @ ?name @ CHR '' '' # tl (render_attrs ?head) @ ?rest)"
    using strstr_here [of "''<''" "?name @ CHR '' '' # tl (render_attrs ?head) @ ?rest"] by (simp only:)
  from get_info_first_append [OF this, of "'' />''"] have first: "get_info_first ?elt ''<'' '' />'' = Some ?name" by simp
  have skip: "strstr ((''<'' @ ?name @ render_attrs ?head @ ''>'') @ r) ''<streak>'' = strstr r ''<streak>''" for r
    using strstr_other_tag [of "CHR ''c''" "CHR ''s''" "''onsecutive_login_bonus'' @ render_attrs ?head @ ''>''" r "''treak>''"] plain_attrs_text [OF head]
    by (simp del: strstr.simps render_attrs_simps)
  have "strstr (''</'' @ ?name @ ''>'') ''<streak>'' = None" by code_simp
  from streak_reader.reads_behind [OF assms(1) this skip, of "(0, [])"]
  have "each_elem ''<streak>'' login_streak_elem ?elt (0, []) = Some (of_nat (length streaks), rev (counted_up mk_streak 0 streaks))"
    using each_numbered [of mk_streak streaks 0 "[]"] by (simp add: bonus_text_def del: render_attrs_simps)
  with attrs first show ?thesis
    by (simp add: parse_config_def parse_consecutive_login_bonus_def parse_login_bonus_def)
qed

theorem login_bonus_read_witness:
  "\<exists>c'. parse_config (\<lambda>_. 0) (bonus_text ''consecutive_login_bonus''
        [(''enabled'', int_dec 1), (''use_notification'', int_dec 0), (''schedule'', ''0 5 * * *''), (''expiration'', ''2d'')]
        [[''box_01'', ''coin_01''], [''gold_01'']]) zero_config = Some c'
     \<and> map (\<lambda>s. map lr_name (ls_rewards s)) (the (lb_streaks (consecutive_login_bonus c'))) = [[Some ''gold_01''], [Some ''coin_01'', Some ''box_01'']]"
proof -
  have p: "list_all (list_all plain_value) [[''box_01'', ''coin_01''], [''gold_01'']]" "plain_value ''0 5 * * *''" "plain_value ''2d''"
    by (simp_all add: plain_value_def)
  from login_bonus_read [OF p, of 1 0 "\<lambda>_. 0" zero_config] show ?thesis by (simp add: mk_streak_def mk_reward_def)
qed

subsection \<open>Regions\<close>

definition distance_attrs :: "cstring \<times> cstring \<times> int \<Rightarrow> (cstring \<times> cstring) list" where
  "distance_attrs = (\<lambda>(f, t, v). [(''from'', f), ('' to'', t), ('' value'', int_dec v)])"

definition plain_distance :: "cstring \<times> cstring \<times> int \<Rightarrow> bool" where
  "plain_distance = (\<lambda>(f, t, v). plain_value f \<and> plain_value t \<and> - (2 ^ 31) \<le> v \<and> v < 2 ^ 31)"

definition mk_distance :: "cstring \<times> cstring \<times> int \<Rightarrow> region_distance" where
  "mk_distance = (\<lambda>(f, t, v). \<lparr>rd_from = Some f, rd_to = Some t, rd_value = v\<rparr>)"

definition distance_text :: "cstring \<times> cstring \<times> int \<Rightarrow> cstring" where
  "distance_text x = pieces (distance_attrs x) @ ''/>''"

interpretation distance_reader: text_reader "''<distance ''" distance_text plain_distance distance_elem "\<lambda>x l. Some (mk_distance x # l)"
proof unfold_locales
  fix x r and s :: "region_distance list"
  assume x: "plain_distance x"
  obtain f t v where ftv: "x = (f, t, v)" by (cases x)
  have p: "plain_attrs (distance_attrs x)" using x by (simp add: ftv plain_distance_def distance_attrs_def name_ok_def plain_value_int)
  show "strstr (tl ''<distance '' @ distance_text x @ r) ''<distance '' = strstr r ''<distance ''"
    using pieces_skipped [OF _ _ p, of "''<distance ''" "''distance ''" r] by (simp add: distance_text_def del: strstr.simps)
  have "attr (pieces (distance_attrs x)) ''from'' = Some f" "attr (pieces (distance_attrs x)) ''to'' = Some t"
    "attr_int (pieces (distance_attrs x)) ''value'' = v"
    using x piece_attr [OF p] by (simp_all add: ftv plain_distance_def distance_attrs_def name_ok_def attr_hit_def)
  then show "distance_elem (''<distance '' @ distance_text x @ r) s = Some (mk_distance x # s)"
    using piece_cut [OF p, of "''<distance ''" r]
    by (simp add: distance_elem_def distance_text_def mk_distance_def ftv del: strstr.simps)
qed simp

lemma each_collected: "each (\<lambda>x l. Some (mk x # l)) xs l = Some (rev (map mk xs) @ l)"
  by (induction xs arbitrary: l) simp_all

definition regions_text :: "(cstring \<times> cstring \<times> int) list \<Rightarrow> cstring" where
  "regions_text ds = ''<regions><distances>'' @ concat (map (\<lambda>x. ''<distance '' @ distance_text x) ds) @ ''</distances></regions>''"

lemma distances_skipped:
  assumes "list_all plain_distance ds" "d \<noteq> CHR ''d''"
  shows "strstr (concat (map (\<lambda>x. ''<distance '' @ distance_text x) ds) @ r) (CHR ''<'' # d # p) = strstr r (CHR ''<'' # d # p)"
  using assms(1)
proof (induction ds)
  case Nil
  then show ?case by simp
next
  case (Cons x ds)
  obtain f t v where "x = (f, t, v)" by (cases x)
  with Cons.prems have "plain_attrs (distance_attrs x)" by (simp add: plain_distance_def distance_attrs_def name_ok_def plain_value_int)
  then have "CHR ''<'' \<notin> set (''istance '' @ distance_text x)" using plain_pieces by (simp add: distance_text_def)
  from strstr_other_tag [OF _ _ this, of "CHR ''d''" d "concat (map (\<lambda>x. ''<distance '' @ distance_text x) ds) @ r" p] assms(2) Cons
  show ?case by (simp del: strstr.simps)
qed

text \<open>the table of distances between regions is read entry by entry, the last first, and no other setting changes.\<close>

theorem regions_read:
  assumes "list_all plain_distance ds"
  shows "parse_config strtof (regions_text ds) c = Some (c\<lparr>regions_distances := Some (rev (map mk_distance ds))\<rparr>)"
proof -
  let ?ds = "concat (map (\<lambda>x. ''<distance '' @ distance_text x) ds)"
  have "strstr (regions_text ds) ''<'' = Some (''<'' @ ''regions'' @ CHR ''>'' # ''<distances>'' @ ?ds @ ''</distances></regions>'')"
    by (simp add: regions_text_def)
  from get_info_first_append [OF this, of "'' />''"] have tag: "get_info_first (regions_text ds) ''<'' '' />'' = Some ''regions''" by simp
  have "strstr (regions_text ds) ''<distances>'' = Some (''<distances>'' @ ?ds @ ''</distances></regions>'')"
    using strstr_other_tag [of "CHR ''r''" "CHR ''d''" "''egions>''" "''<distances>'' @ ?ds @ ''</distances></regions>''" "''istances>''"]
      strstr_here [of "''<distances>''" "?ds @ ''</distances></regions>''"] by (simp add: regions_text_def del: strstr.simps)
  moreover have "strstr (?ds @ ''</distances></regions>'') ''</distances>'' = Some (''</distances>'' @ ''</regions>'')"
    using distances_skipped [OF assms, of "CHR ''/''" "''</distances></regions>''" "''distances>''"] strstr_here [of "''</distances>''" "''</regions>''"]
    by (simp del: strstr.simps)
  ultimately have cut: "get_info (regions_text ds) ''<distances>'' ''</distances>'' = Some ?ds"
    by (simp add: get_info_def upto_ptr_def del: strstr.simps)
  have "each_elem ''<distance '' distance_elem ?ds [] = Some (rev (map mk_distance ds))"
    using distance_reader.reads_texts [OF assms, of "[]" "[]"] each_collected [of mk_distance ds "[]"] by simp
  with tag cut show ?thesis by (simp add: parse_config_def parse_regions_def)
qed

theorem regions_read_witness:
  "parse_config (\<lambda>_. 0) (regions_text [(''eu'', ''us'', 120), (''eu'', ''ru'', -1)]) zero_config
   = Some (zero_config\<lparr>regions_distances := Some [\<lparr>rd_from = Some ''eu'', rd_to = Some ''ru'', rd_value = -1\<rparr>,
       \<lparr>rd_from = Some ''eu'', rd_to = Some ''us'', rd_value = 120\<rparr>]\<rparr>)"
  using regions_read [of "[(''eu'', ''us'', 120), (''eu'', ''ru'', -1)]" "\<lambda>_. 0" zero_config]
  by (simp add: plain_distance_def plain_value_def mk_distance_def)

subsection \<open>What goes wrong\<close>

text \<open>Every entry of the menu gets the option and the rank of the element that they are looked up in: those of the
  first entry.\<close>

theorem unlocks_share_option:
  assumes "each_elem ''<unlock '' (unlock_elem elt) m l = Some l'" "list_all (\<lambda>u. un_option u = attr elt ''option'' \<and> un_rank u = attr_int elt ''rank'') l"
  shows "list_all (\<lambda>u. un_option u = attr elt ''option'' \<and> un_rank u = attr_int elt ''rank'') l'"
  using assms(1)
  by (rule each_elem_invariant [where I = "list_all (\<lambda>u. un_option u = attr elt ''option'' \<and> un_rank u = attr_int elt ''rank'')"])
    (use assms(2) in \<open>auto simp: unlock_elem_def bind_eq_Some_conv\<close>)

text \<open>The loop over the special rewards looks for a tag without attributes, but its events have a name.\<close>

theorem special_rewards_never_read:
  "strstr elt ''<event>'' = None \<Longrightarrow> parse_special_reward_configuration elt c = Some (c\<lparr>special_reward_events := Some []\<rparr>)"
  by (simp add: parse_special_reward_configuration_def special_event_loop.simps)

theorem special_event_crash:
  "parse_special_reward_configuration (''<special_reward_configuration><event></event></special_reward_configuration>'') c = None"
proof -
  let ?m = "''<special_reward_configuration><event></event></special_reward_configuration>''"
  have "strstr ?m ''<event>'' = Some ''<event></event></special_reward_configuration>''" by code_simp
  moreover have "get_info ''<event></event></special_reward_configuration>'' ''<event '' ''>'' = None" by code_simp
  ultimately have "special_event_loop ?m [] = None"
    by (subst special_event_loop.simps) (simp del: strstr.simps split: option.split)
  then show ?thesis by (simp add: parse_special_reward_configuration_def)
qed

text \<open>An empty element in the progression is found again and again, and one more event is allocated every time.\<close>

lemma stuck_step:
  assumes "progression_loop end' m i l = Some l'" "m = ''</>'' @ r" "end' = Some e"
  shows "length m \<le> length e"
  using assms
proof (induction arbitrary: r e rule: progression_loop.raw_induct [rotated, consumes 1])
  case (1 loop end' m i l l')
  note m = \<open>m = ''</>'' @ r\<close> and e = \<open>end' = Some e\<close>
  have f: "strstr m ''<'' = Some m" "get_info m ''<'' ''/>'' = Some []" using m by (simp_all add: get_info_def upto_ptr_def)
  show ?case
  proof (rule ccontr)
    assume n: "\<not> length m \<le> length e"
    with "1.hyps" f e have "loop end' m (i + 1) (read_progression_event i [] # l) = Some l'" by simp
    from "1.IH" [OF this m e] n show False by simp
  qed
qed

theorem progression_never_ends:
  "parse_profile_progression_config (''<profile_progression_config></></profile_progression_config>'') c = None"
proof -
  let ?elt = "''<profile_progression_config></></profile_progression_config>''"
  let ?e = "''</profile_progression_config>''"
  have e: "strstr ?elt ?e = Some ?e" "strstr (tl ?elt) ''<'' = Some (''</>'' @ ?e)" by code_simp+
  have "progression_loop (Some ?e) (''</>'' @ ?e) 0 [] = None"
    using stuck_step [of "Some ?e" "''</>'' @ ?e" 0 "[]" _ ?e ?e] by fastforce
  moreover have "progression_loop (Some ?e) (tl ?elt) 0 [] = progression_loop (Some ?e) (''</>'' @ ?e) 0 []"
    using e(2) by (subst (1 2) progression_loop.simps) simp
  ultimately show ?thesis using e(1) by (simp add: parse_profile_progression_config_def)
qed
end
