(* ===== verification/Commands.thy ===== *)
theory Commands
  imports RandomBox Invitations
begin

text \<open>
  The commands of the user (\<open>src/cmd\<close>), which the console, the whispers of other players and D-Bus share.
  What they ask for the first time is the type \<open>command\<close>: the functions that they register as callbacks, with
  their arguments; \<open>run_info\<close>, \<open>run_last_seen\<close>, \<open>run_user\<close> and \<open>run_opened\<close> are the bodies.

  Arguments of the model are the texts of the language file, the random numbers and the calendar (record
  \<open>world\<close>).  \<open>w_rand t\<close> is \<open>rand()\<close> after \<open>srand(t)\<close>, \<open>w_nap t\<close> the one that decides how long an answer takes.
\<close>

subsection \<open>Arguments, callbacks\<close>

record world =
  w_lang :: "cstring \<Rightarrow> cstring"
  w_fmt :: "cstring \<Rightarrow> cstring list \<Rightarrow> cstring"
  w_rand :: "int \<Rightarrow> nat"
  w_nap :: "int \<Rightarrow> nat"
  w_strftime :: "cstring \<Rightarrow> u32 \<Rightarrow> cstring"
  w_geoip :: "cstring \<Rightarrow> (cptr \<times> cptr) option"
  w_high_ratio :: "u32 \<Rightarrow> u32 \<Rightarrow> bool"
  w_room_title :: "cptr \<Rightarrow> cstring"
  w_uuid :: cstring
  w_junk :: "nat \<Rightarrow> char"

text \<open>Who gets the result of a question: nobody, the console, or the player who whispered (nickname, address).\<close>

datatype reporter = Nobody | Console | Whisperer cptr cptr

datatype command =
    Cmd_follow
  | Cmd_master
  | Cmd_whisper cstring
  | Cmd_last reporter
  | Cmd_last_seen reporter
  | Cmd_whois reporter
  | Cmd_open_pvp
  | Cmd_open_joined bool cptr
  | Cmd_qp_invite
  | Cmd_qp_done
  | Cmd_randombox u32 cptr
  | Cmd_clan_shop cstring cstring
  | Cmd_safe_joined cptr
  | Cmd_safe_opened cptr
  | Cmd_pigs
  | Cmd_safe_presence
  | Cmd_ppi cptr cptr u32
  | Cmd_kicked cptr
  | Cmd_stats

type_synonym csession = "command session"

subsection \<open>Messages\<close>

definition JID_WFC :: "'u session \<Rightarrow> jid" where
  "JID_WFC s = JID (ol_jid_wfc (online s))"

definition message_query :: "cstring \<Rightarrow> cstring \<Rightarrow> cstring \<Rightarrow> cstring" where
  "message_query sender nick message = k01_query (''<message '' @ q ''from'' sender @ '' '' @ q ''nick'' nick @ '' '' @ q ''message'' message @ ''/>'')"

definition xmpp_send_message :: "world \<Rightarrow> cptr \<Rightarrow> cptr \<Rightarrow> cstring \<Rightarrow> 'u session \<Rightarrow> 'u session crash" where
  "xmpp_send_message w to_login to_jid msg s =
     do {
       serialized \<leftarrow> xml_serialize (w_junk w) msg;
       let s1 = s\<lparr>now := now s + int (w_nap w (now s) mod 2 + 1)\<rparr>;
       send_iq_get (JID_WFC s1) None (message_query (show_ptr (pr_nickname (profile s1))) (show_ptr to_login) serialized) s1
     }"

definition xmpp_ack_message :: "world \<Rightarrow> cptr \<Rightarrow> cptr \<Rightarrow> cstring \<Rightarrow> cptr \<Rightarrow> 'u session \<Rightarrow> 'u session crash" where
  "xmpp_ack_message w from_login from_jid msg answer_id s =
     do {
       serialized \<leftarrow> xml_serialize (w_junk w) msg;
       send_iq_result (JID from_jid) answer_id (message_query (show_ptr from_login) (show_ptr (pr_nickname (profile s))) serialized) s
     }"

definition xmpp_room_message :: "world \<Rightarrow> cptr \<Rightarrow> cstring \<Rightarrow> 'u session \<Rightarrow> 'u session crash" where
  "xmpp_room_message w to_jid msg s =
     (case to_jid of
        None \<Rightarrow> Some s
      | Some rj \<Rightarrow>
          do {
            serialized \<leftarrow> xml_serialize (w_junk w) msg;
            Some (emit (Send_text (''<message '' @ q ''to'' rj @ '' '' @ q ''type'' ''groupchat'' @ ''><body>'' @ serialized @ ''</body></message>'')) s)
          })"

subsection \<open>Requests with arguments of the user\<close>

definition PVP_PRIVATE :: u32 where "PVP_PRIVATE = 1"
definition PVP_FRIENDLY_FIRE :: u32 where "PVP_FRIENDLY_FIRE = 2"
definition PVP_ENEMY_OUTLINES :: u32 where "PVP_ENEMY_OUTLINES = 4"
definition PVP_AUTOBALANCE :: u32 where "PVP_AUTOBALANCE = 8"
definition PVP_DEADCHAT :: u32 where "PVP_DEADCHAT = 16"
definition PVP_ALLOWJOIN :: u32 where "PVP_ALLOWJOIN = 32"

definition flag_attr :: "cstring \<Rightarrow> u32 \<Rightarrow> u32 \<Rightarrow> cstring" where
  "flag_attr name flags flag = ''    '' @ q name (if and flags flag \<noteq> 0 then ''1'' else ''0'')"

definition class_elem :: "cstring \<Rightarrow> cstring \<Rightarrow> cstring" where
  "class_elem name cl = ''  <class_'' @ name @ '' '' @ q ''enabled'' ''1'' @ '' '' @ q ''class_id'' cl @ ''/>''"

definition xmpp_iq_gameroom_update_pvp :: "cptr \<Rightarrow> u32 \<Rightarrow> u32 \<Rightarrow> u64 \<Rightarrow> 'u option \<Rightarrow> 'u session \<Rightarrow> 'u session crash" where
  "xmpp_iq_gameroom_update_pvp mission_key flags max_players inventory_slot cb s =
     (case mission_key of
        None \<Rightarrow> Some s
      | Some mk \<Rightarrow>
          send_iq_get (JID_MS (ol_channel (online s)) s) (Some (CB_gameroom_update_pvp cb))
            (k01_query ('' <gameroom_update_pvp '' @ q ''by_mission_key'' ''1'' @ '' '' @ q ''mission_key'' mk
              @ flag_attr ''private'' flags PVP_PRIVATE @ flag_attr ''friendly_fire'' flags PVP_FRIENDLY_FIRE
              @ flag_attr ''enemy_outlines'' flags PVP_ENEMY_OUTLINES @ flag_attr ''auto_team_balance'' flags PVP_AUTOBALANCE
              @ flag_attr ''dead_can_chat'' flags PVP_DEADCHAT @ flag_attr ''join_in_the_process'' flags PVP_ALLOWJOIN
              @ ''    '' @ q ''max_players'' (fmt_d max_players) @ '' '' @ q ''inventory_slot'' (int_dec (sint inventory_slot)) @ ''>''
              @ class_elem ''rifleman'' ''0'' @ class_elem ''engineer'' ''4'' @ class_elem ''medic'' ''3''
              @ class_elem ''sniper'' ''2'' @ class_elem ''heavy'' ''1'' @ '' </gameroom_update_pvp>'')) s)"

definition xmpp_iq_clan_create :: "cptr \<Rightarrow> cptr \<Rightarrow> 'u option \<Rightarrow> 'u session \<Rightarrow> 'u session crash" where
  "xmpp_iq_clan_create name description cb s =
     (case (name, description) of
        (Some n, Some d) \<Rightarrow>
          send_iq_get (JID_MS (ol_channel (online s)) s) (Some (CB_clan_create cb))
            (k01_query ('' <clan_create '' @ q ''clan_name'' n @ '' '' @ q ''description'' (base64encode (bytes_of d)) @ ''/>'')) s
      | _ \<Rightarrow> Some s)"

subsection \<open>The own player in a room\<close>

definition cmd_leave :: "csession \<Rightarrow> csession crash" where
  "cmd_leave s = xmpp_iq_gameroom_leave s"

definition cmd_unready :: "csession \<Rightarrow> csession crash" where
  "cmd_unready s = xmpp_iq_gameroom_setplayer (gi_curr_team (groom s)) (sint GAMEROOM_UNREADY) (pr_curr_class (profile s)) None s"

definition CLASS_RIFLEMAN :: u32 where "CLASS_RIFLEMAN = 0"
definition CLASS_HEAVY :: u32 where "CLASS_HEAVY = 1"
definition CLASS_SNIPER :: u32 where "CLASS_SNIPER = 2"
definition CLASS_MEDIC :: u32 where "CLASS_MEDIC = 3"
definition CLASS_ENGINEER :: u32 where "CLASS_ENGINEER = 4"

definition contains :: "cstring \<Rightarrow> cstring \<Rightarrow> bool" where
  "contains s p \<longleftrightarrow> strstr s p \<noteq> None"

definition class_named :: "cptr \<Rightarrow> u32 \<Rightarrow> u32" where
  "class_named take_class current =
     (case take_class of
        None \<Rightarrow> current
      | Some t \<Rightarrow>
          if contains t ''rif'' then CLASS_RIFLEMAN
          else if contains t ''med'' then CLASS_MEDIC
          else if contains t ''snip'' then CLASS_SNIPER
          else if contains t ''eng'' then CLASS_ENGINEER
          else if contains t ''hea'' then CLASS_HEAVY
          else current)"

definition cmd_ready :: "cptr \<Rightarrow> csession \<Rightarrow> csession crash" where
  "cmd_ready take_class s =
     (let cl = class_named take_class (pr_curr_class (profile s)) in
      do {
        s1 \<leftarrow> status_update_class cl s;
        xmpp_iq_gameroom_setplayer (gi_curr_team (groom s1)) (sint GAMEROOM_READY) cl None s1
      })"

definition cmd_switch :: "csession \<Rightarrow> csession crash" where
  "cmd_switch s =
     (let s1 = upd_gr (\<lambda>g. g\<lparr>gi_curr_team := (if gi_curr_team g = 1 then 2 else 1)\<rparr>) s
      in xmpp_iq_gameroom_setplayer (gi_curr_team (groom s1)) (sint GAMEROOM_READY) (pr_curr_class (profile s1)) None s1)"

definition cmd_start :: "csession \<Rightarrow> csession crash" where
  "cmd_start s = (if gi_jid (groom s) \<noteq> None then xmpp_iq_gameroom_askserver None s else Some s)"

text \<open>At most two hours.\<close>

definition cmd_stay :: "u32 \<Rightarrow> csession \<Rightarrow> csession crash" where
  "cmd_stay secs s =
     (let secs' = (if 2 * 60 * 60 < secs then 2 * 60 * 60 else secs)
      in Some (upd_gr (\<lambda>g. g\<lparr>gi_leave_timeout := now s + uint secs'\<rparr>) s))"

definition stay_multiplier :: "cptr \<Rightarrow> u32 \<Rightarrow> u32" where
  "stay_multiplier unit multiplier =
     (case unit of
        None \<Rightarrow> multiplier
      | Some u \<Rightarrow> (case u of
                    c # _ \<Rightarrow> if c = CHR ''h'' then 60 * 60 else if c = CHR ''m'' then 60 else 1
                  | [] \<Rightarrow> 1))"

definition cmd_stay_wrapper :: "cptr \<Rightarrow> cptr \<Rightarrow> csession \<Rightarrow> csession crash" where
  "cmd_stay_wrapper duration_str unit s =
     (case duration_str of
        None \<Rightarrow> cmd_stay (1 * stay_multiplier unit (60 * 60)) s
      | Some d \<Rightarrow> cmd_stay (c_uint (strtoll d) * stay_multiplier unit 1) s)"

definition cmd_say :: "world \<Rightarrow> cptr \<Rightarrow> csession \<Rightarrow> csession crash" where
  "cmd_say w message s =
     (case message of
        None \<Rightarrow> Some s
      | Some m \<Rightarrow>
          if gi_jid (groom s) \<noteq> None then xmpp_room_message w (gi_jid (groom s)) m s
          else if ol_global_chat (online s) \<noteq> None then xmpp_room_message w (ol_global_chat (online s)) m s
          else Some s)"

subsection \<open>Questions about a player\<close>

definition ask_status :: "world \<Rightarrow> cptr \<Rightarrow> command \<Rightarrow> csession \<Rightarrow> csession crash" where
  "ask_status w nickname c s = xmpp_iq_profile_info_get_status (w_junk w) nickname (Some c) s"

definition cmd_invite :: "world \<Rightarrow> cptr \<Rightarrow> csession \<Rightarrow> csession crash" where
  "cmd_invite w nickname s = xmpp_iq_invitation_send (w_junk w) (w_uuid w) nickname 0 None s"

definition cmd_follow_cb :: "cptr \<Rightarrow> csession \<Rightarrow> csession crash" where
  "cmd_follow_cb info s =
     (case info of
        None \<Rightarrow> Some s
      | Some i \<Rightarrow>
          if attr i ''online_id'' \<noteq> None \<and> attr i ''nickname'' \<noteq> None
          then xmpp_iq_follow_send (attr i ''nickname'') (attr i ''online_id'') None s
          else Some s)"

definition cmd_follow :: "world \<Rightarrow> cptr \<Rightarrow> csession \<Rightarrow> csession crash" where
  "cmd_follow w nickname s = (case nickname of None \<Rightarrow> Some s | Some n \<Rightarrow> ask_status w nickname Cmd_follow s)"

definition cmd_master_cb :: "cptr \<Rightarrow> csession \<Rightarrow> csession crash" where
  "cmd_master_cb info s =
     (case info of
        None \<Rightarrow> Some s
      | Some i \<Rightarrow> xmpp_iq_gameroom_promote_to_host (attr i ''profile_id'') None s)"

definition cmd_master :: "world \<Rightarrow> cptr \<Rightarrow> csession \<Rightarrow> csession crash" where
  "cmd_master w nickname s = (case nickname of None \<Rightarrow> Some s | Some n \<Rightarrow> ask_status w nickname Cmd_master s)"

definition cmd_whisper_cb :: "world \<Rightarrow> cstring \<Rightarrow> cptr \<Rightarrow> csession \<Rightarrow> csession crash" where
  "cmd_whisper_cb w message info s =
     (case info of
        None \<Rightarrow> Some s
      | Some i \<Rightarrow>
          if attr i ''online_id'' \<noteq> None \<and> attr i ''nickname'' \<noteq> None
          then xmpp_send_message w (attr i ''nickname'') (attr i ''online_id'') message s
          else Some s)"

definition cmd_whisper :: "world \<Rightarrow> cptr \<Rightarrow> cptr \<Rightarrow> csession \<Rightarrow> csession crash" where
  "cmd_whisper w nickname message s =
     (case (nickname, message) of
        (Some n, Some m) \<Rightarrow> ask_status w nickname (Cmd_whisper m) s
      | _ \<Rightarrow> Some s)"

subsection \<open>When a player was seen\<close>

definition last_seen_format :: "int \<Rightarrow> u32 \<Rightarrow> cstring" where
  "last_seen_format time timestamp =
     (let t = uint timestamp in
      if t + 3600 < time then ''whisper_last_seen_hour''
      else if t + 3600 * 7 < time then ''whisper_last_seen_day''
      else if t + 3600 * 7 * 31 < time then ''whisper_last_seen_month''
      else ''whisper_last_seen_year'')"

definition cmd_last_whisper_cb :: "world \<Rightarrow> u32 option \<Rightarrow> cptr \<Rightarrow> cptr \<Rightarrow> csession \<Rightarrow> csession crash" where
  "cmd_last_whisper_cb w last_seen nick_to jid_to s =
     (case last_seen of
        None \<Rightarrow> xmpp_send_message w nick_to jid_to (w_lang w ''whisper_last_seen_never'') s
      | Some t \<Rightarrow> xmpp_send_message w nick_to jid_to (w_strftime w (w_lang w (last_seen_format (now s) t)) t) s)"

text \<open>The console only prints.\<close>

definition report_last :: "world \<Rightarrow> reporter \<Rightarrow> u32 option \<Rightarrow> csession \<Rightarrow> csession crash" where
  "report_last w r last_seen s = (case r of Whisperer n j \<Rightarrow> cmd_last_whisper_cb w last_seen n j s | _ \<Rightarrow> Some s)"

definition get_last_seen_date_cb :: "world \<Rightarrow> reporter \<Rightarrow> u32 \<Rightarrow> csession \<Rightarrow> csession crash" where
  "get_last_seen_date_cb w r timestamp s = report_last w r (Some timestamp) s"

definition cmd_last_cb :: "world \<Rightarrow> reporter \<Rightarrow> cptr \<Rightarrow> csession \<Rightarrow> csession crash" where
  "cmd_last_cb w r info s =
     (case info of
        None \<Rightarrow> report_last w r None s
      | Some i \<Rightarrow> xmpp_iq_get_last_seen_date (attr i ''profile_id'') (Some (Cmd_last_seen r)) s)"

definition cmd_last_pid :: "cptr \<Rightarrow> reporter \<Rightarrow> csession \<Rightarrow> csession crash" where
  "cmd_last_pid profile_id r s = xmpp_iq_get_last_seen_date profile_id (Some (Cmd_last_seen r)) s"

definition cmd_last :: "world \<Rightarrow> cptr \<Rightarrow> reporter \<Rightarrow> csession \<Rightarrow> csession crash" where
  "cmd_last w nickname r s =
     (case nickname of
        None \<Rightarrow> Some s
      | Some n \<Rightarrow>
          (case (friend_list_get (pr_friends (profile s)) nickname, clanmate_list_get (profile s) nickname) of
             (Some f, _) \<Rightarrow> cmd_last_pid (Some (fr_profile_id f)) r s
           | (None, Some c) \<Rightarrow> cmd_last_pid (Some (cm_profile_id c)) r s
           | (None, None) \<Rightarrow> ask_status w nickname (Cmd_last r) s))"

subsection \<open>Who a player is\<close>

definition STATUS_SHOP :: u32 where "STATUS_SHOP = 64"
definition STATUS_INVENTORY :: u32 where "STATUS_INVENTORY = 128"
definition STATUS_RATING :: u32 where "STATUS_RATING = 256"
definition STATUS_TUTORIAL :: u32 where "STATUS_TUTORIAL = 512"

definition status_text :: "u32 \<Rightarrow> cstring" where
  "status_text st =
     (let has = (\<lambda>flag. and st flag \<noteq> 0) in
      if has STATUS_AFK then ''status_afk''
      else if has STATUS_TUTORIAL then ''status_tutorial''
      else if has STATUS_RATING then ''status_rating''
      else if has STATUS_PLAYING then ''status_playing''
      else if has STATUS_SHOP then ''status_shop''
      else if has STATUS_INVENTORY then ''status_inventory''
      else if has STATUS_ROOM then ''status_room''
      else if has STATUS_LOBBY then ''status_lobby''
      else if has STATUS_ONLINE then ''status_online''
      else ''status_offline'')"

definition cmd_whois_whisper_cb :: "world \<Rightarrow> (cptr \<times> cstring) option \<Rightarrow> cptr \<Rightarrow> cptr \<Rightarrow> csession \<Rightarrow> csession crash" where
  "cmd_whois_whisper_cb w whois nick_to jid_to s =
     (let message =
        (case whois of
           None \<Rightarrow> w_lang w ''whisper_whois_unknown''
         | Some (None, st) \<Rightarrow> w_fmt w ''whisper_whois_no_country'' [st]
         | Some (Some c, st) \<Rightarrow>
             w_fmt w (if now s mod 3 = 0 then ''whisper_whois_1'' else if now s mod 3 = 1 then ''whisper_whois_2'' else ''whisper_whois_3'') [c, st])
      in xmpp_send_message w nick_to jid_to message s)"

definition report_whois :: "world \<Rightarrow> reporter \<Rightarrow> (cptr \<times> cstring) option \<Rightarrow> csession \<Rightarrow> csession crash" where
  "report_whois w r whois s = (case r of Whisperer n j \<Rightarrow> cmd_whois_whisper_cb w whois n j s | _ \<Rightarrow> Some s)"

text \<open>The place is looked up in a thread of its own, and the answer is given there.\<close>

definition cmd_whois_cb :: "world \<Rightarrow> reporter \<Rightarrow> cptr \<Rightarrow> csession \<Rightarrow> csession crash" where
  "cmd_whois_cb w r info s =
     (case info of
        None \<Rightarrow> report_whois w r None s
      | Some i \<Rightarrow>
          (let st = w_lang w (status_text (sync_uint i ''status''));
               country = (case attr i ''ip_address'' of
                            None \<Rightarrow> None
                          | Some ip \<Rightarrow> (case w_geoip w ip of None \<Rightarrow> None | Some (c, isp) \<Rightarrow> c))
           in report_whois w r (Some (country, st)) s))"

definition cmd_whois :: "world \<Rightarrow> cptr \<Rightarrow> reporter \<Rightarrow> csession \<Rightarrow> csession crash" where
  "cmd_whois w nickname r s = ask_status w nickname (Cmd_whois r) s"

subsection \<open>Missions\<close>

definition mission_setting :: "cstring \<Rightarrow> cstring" where
  "mission_setting setting = (case strstr setting ''/'' of None \<Rightarrow> setting | Some r \<Rightarrow> upto_ptr setting r)"

definition cmd_missions_whisper_cb :: "world \<Rightarrow> cstring \<Rightarrow> mission \<Rightarrow> cptr \<Rightarrow> cptr \<Rightarrow> csession \<Rightarrow> csession crash" where
  "cmd_missions_whisper_cb w setting m nick_to jid_to s =
     (let time = snd (snd (ms_crown_time m)); perf = snd (snd (ms_crown_perf m)) in
      if time = 0 \<or> nick_to = None \<or> jid_to = None then Some s
      else xmpp_send_message w nick_to jid_to
             (w_fmt w ''whisper_missions_line'' [show_ptr (ms_name m), setting, fmt_d (time div 60), fmt_d (perf div 1000)]) s)"

definition mission_line :: "world \<Rightarrow> reporter \<Rightarrow> mission \<Rightarrow> csession \<Rightarrow> csession crash" where
  "mission_line w r m s =
     (case (ms_setting m, r) of
        (Some st, Whisperer n j) \<Rightarrow> cmd_missions_whisper_cb w (mission_setting st) m n j s
      | _ \<Rightarrow> Some s)"

definition cmd_missions :: "world \<Rightarrow> reporter \<Rightarrow> csession \<Rightarrow> csession crash" where
  "cmd_missions w r s =
     (if r = Nobody then Some s
      else (case mi_list (missions s) of None \<Rightarrow> Some s | Some l \<Rightarrow> each (mission_line w r) l s))"

subsection \<open>Opening and changing a room\<close>

definition ROOM_PVE_PRIVATE :: u32 where "ROOM_PVE_PRIVATE = 1"
definition ROOM_PVP_PUBLIC :: u32 where "ROOM_PVP_PUBLIC = 2"

text \<open>\<open>strlen\<close>, a mission key is a UUID.\<close>

definition is_uuid :: "cstring \<Rightarrow> bool" where
  "is_uuid s \<longleftrightarrow> length s = 36"

definition room_params :: "u32 \<Rightarrow> cptr \<Rightarrow> csession \<Rightarrow> csession crash" where
  "room_params flags mission_key s =
     (let cp = gm_custom_params (gi_sync (groom s))
      in xmpp_iq_gameroom_update_pvp mission_key flags (cp_max_players cp) (cp_inventory_slot cp) None s)"

definition cmd_open_pvp_cb :: "csession \<Rightarrow> csession crash" where
  "cmd_open_pvp_cb s =
     room_params (or (or PVP_AUTOBALANCE PVP_DEADCHAT) (if wb_safemaster (cvar s) then 0 else or PVP_ALLOWJOIN PVP_PRIVATE))
       (mi_mission_key (gm_mission (gi_sync (groom s)))) s"

definition open_room :: "world \<Rightarrow> cptr \<Rightarrow> u32 \<Rightarrow> command option \<Rightarrow> csession \<Rightarrow> csession crash" where
  "open_room w mission_key type cb s = xmpp_iq_gameroom_open (w_room_title w) (w_junk w) mission_key type 0 cb s"

definition join_channel_cb :: "world \<Rightarrow> bool \<Rightarrow> cptr \<Rightarrow> csession \<Rightarrow> csession crash" where
  "join_channel_cb w is_pvp mission_key s =
     (if is_pvp then open_room w mission_key ROOM_PVP_PUBLIC (Some Cmd_open_pvp) s
      else open_room w mission_key ROOM_PVE_PRIVATE None s)"

definition open_mission :: "world \<Rightarrow> mission \<Rightarrow> csession \<Rightarrow> csession crash" where
  "open_mission w m s =
     do {
       mode \<leftarrow> deref (ms_mode m);
       let were_in_pve = (case ol_channel_type (online s) of None \<Rightarrow> False | Some c \<Rightarrow> contains c ''pve'');
       let is_pve = (if ol_channel_type (online s) = None then were_in_pve else \<not> contains mode ''pvp'');
       ms \<leftarrow> masterserver_list_get_by_type s (Some (if is_pve then ''pve'' else ''pvp_pro''));
       (case ms of
          None \<Rightarrow> Some s
        | Some srv \<Rightarrow>
            do {
              mission_key \<leftarrow> deref (ms_mission_key m);
              if is_pve = were_in_pve then join_channel_cb w (\<not> is_pve) (Some mission_key) s
              else xmpp_iq_join_channel (sv_resource srv) (Some (Cont_user (Cmd_open_joined (\<not> is_pve) (Some mission_key)))) s
            })
     }"

definition cmd_open :: "world \<Rightarrow> cptr \<Rightarrow> csession \<Rightarrow> csession crash" where
  "cmd_open w mission_name s =
     (let name = (case mission_name of None \<Rightarrow> ''training'' | Some n \<Rightarrow> n) in
      if is_uuid name then open_room w (Some name) ROOM_PVE_PRIVATE None s
      else do {
             m \<leftarrow> mission_list_get s (Some name);
             (case m of None \<Rightarrow> Some s | Some m' \<Rightarrow> open_mission w m' s)
           })"

definition room_flags :: "gameroom \<Rightarrow> u32" where
  "room_flags g =
     (let cp = gm_custom_params g in
      or (if co_private (gm_core g) \<noteq> 0 then PVP_PRIVATE else 0)
        (or (if cp_auto_team_balance cp \<noteq> 0 then PVP_AUTOBALANCE else 0)
          (or (if cp_dead_can_chat cp \<noteq> 0 then PVP_DEADCHAT else 0)
            (if cp_join_in_the_process cp \<noteq> 0 then PVP_ALLOWJOIN else 0))))"

definition cmd_change :: "cptr \<Rightarrow> csession \<Rightarrow> csession crash" where
  "cmd_change mission_name s =
     do {
       channel_type \<leftarrow> deref (ol_channel_type (online s));
       let pvp = contains channel_type ''pvp'';
       let name = (case mission_name of None \<Rightarrow> if pvp then ''tdm_airbase'' else ''trainingmission'' | Some n \<Rightarrow> n);
       m \<leftarrow> mission_list_get s (Some name);
       let key = (case m of None \<Rightarrow> Some name | Some m' \<Rightarrow> ms_mission_key m');
       if pvp then room_params (room_flags (gi_sync (groom s))) key s
       else xmpp_iq_gameroom_setinfo key None s
     }"

definition cmd_name :: "world \<Rightarrow> cptr \<Rightarrow> csession \<Rightarrow> csession crash" where
  "cmd_name w room_name s = xmpp_iq_gameroom_setname (w_junk w) room_name None s"

definition cmd_channel :: "cptr \<Rightarrow> csession \<Rightarrow> csession crash" where
  "cmd_channel channel s = xmpp_iq_join_channel channel None s"

subsection \<open>Friends, clan, profile\<close>

definition cmd_create :: "world \<Rightarrow> cptr \<Rightarrow> csession \<Rightarrow> csession crash" where
  "cmd_create w nickname s = (case nickname of None \<Rightarrow> Some s | Some n \<Rightarrow> xmpp_iq_create_profile (w_junk w) nickname s)"

definition cmd_add :: "cptr \<Rightarrow> csession \<Rightarrow> csession crash" where
  "cmd_add nickname s = (case nickname of None \<Rightarrow> Some s | Some n \<Rightarrow> xmpp_iq_send_invitation nickname (sint NOTIF_FRIEND_REQUEST) None s)"

definition cmd_remove :: "cptr \<Rightarrow> csession \<Rightarrow> csession crash" where
  "cmd_remove nickname s = (case nickname of None \<Rightarrow> Some s | Some n \<Rightarrow> xmpp_iq_remove_friend nickname s)"

definition cmd_removeall :: "csession \<Rightarrow> csession crash" where
  "cmd_removeall s =
     do {
       fl \<leftarrow> deref (pr_friends (profile s));
       each (\<lambda>f. cmd_remove (Some (fr_nickname f))) fl s
     }"

definition cmd_clan_invite :: "cptr \<Rightarrow> csession \<Rightarrow> csession crash" where
  "cmd_clan_invite nickname s = (case nickname of None \<Rightarrow> Some s | Some n \<Rightarrow> xmpp_iq_send_invitation nickname (sint NOTIF_CLAN_INVITE) None s)"

definition cmd_clan_leave :: "csession \<Rightarrow> csession crash" where
  "cmd_clan_leave s = xmpp_iq_clan_leave None s"

definition create_clan :: "cptr \<Rightarrow> cptr \<Rightarrow> csession \<Rightarrow> csession crash" where
  "create_clan name description s = do { s1 \<leftarrow> xmpp_iq_clan_create name description None s; profile_item_list_update None s1 }"

definition clan_shop_cb :: "cstring \<Rightarrow> cstring \<Rightarrow> cptr \<Rightarrow> xmpp_msg_type \<Rightarrow> csession \<Rightarrow> csession crash" where
  "clan_shop_cb name description content type s =
     (if type = XMPP_TYPE_ERROR then Some s
      else (case content of
              None \<Rightarrow> Some s
            | Some data \<Rightarrow> if sync_uint data ''error_status'' = 0 then create_clan (Some name) (Some description) s else Some s))"

definition cmd_clan_create :: "cptr \<Rightarrow> cptr \<Rightarrow> csession \<Rightarrow> csession crash" where
  "cmd_clan_create name description s =
     (case wf_offers (wf s) of
        None \<Rightarrow> Some s
      | Some offers \<Rightarrow>
          do {
            i \<leftarrow> profile_item_list_get (Some ''clan_creation_item_01'') s;
            if (case i of None \<Rightarrow> False | Some it \<Rightarrow> 0 < it_quantity it) then create_clan name description s
            else do {
              x \<leftarrow> find_crash (\<lambda>x. strcmp_eq (of_name x) (Some ''clan_creation_item_01'')) offers;
              (case x of
                 None \<Rightarrow> Some s
               | Some offer \<Rightarrow>
                   do {
                     n \<leftarrow> deref name;
                     d \<leftarrow> deref description;
                     send_iq_get (JID_MS (ol_channel (online s)) s) (Some (CB_caller (Cmd_clan_shop n d)))
                       (k01_query (''<shop_buy_offer '' @ q ''hash'' (show_ptr (wf_shop_hash (wf s))) @ '' '' @ q ''supplier_id'' ''1''
                         @ '' '' @ q ''offer_id'' (fmt_d (of_id offer)) @ ''/>'')) s
                   })
            }
          })"

definition sponsor_named :: "cstring \<Rightarrow> int option" where
  "sponsor_named n =
     (if strcasecmp_eq n ''weapon'' then Some 0 else if strcasecmp_eq n ''outfit'' then Some 1
      else if strcasecmp_eq n ''equipment'' then Some 2 else None)"

definition cmd_sponsor :: "int \<Rightarrow> csession \<Rightarrow> csession crash" where
  "cmd_sponsor st s =
     (if st \<notin> {0, 1, 2} then Some s
      else send_iq_get (JID_MS (ol_channel (online s)) s) None
        (k01_query ('' <persistent_settings_set>  <settings>   <sponsor '' @ q ''id'' (int_dec st) @ ''/>  </settings> </persistent_settings_set>'')) s)"

definition cmd_sponsor_wrapper :: "cptr \<Rightarrow> csession \<Rightarrow> csession crash" where
  "cmd_sponsor_wrapper sponsor s =
     do { n \<leftarrow> deref sponsor; (case sponsor_named n of None \<Rightarrow> Some s | Some st \<Rightarrow> cmd_sponsor st s) }"

subsection \<open>Searching a match\<close>

definition quickplay_modes :: "cstring list" where
  "quickplay_modes = [''tdm'', ''ptb'', ''stm'', ''dmn'', ''ffa'', ''hnt'', ''ctf'', ''dst'', ''tbs'', ''lms'']"

definition qp_open :: "world \<Rightarrow> cptr \<Rightarrow> u32 \<Rightarrow> cptr \<Rightarrow> csession \<Rightarrow> csession crash" where
  "qp_open w mission_key type game_mode s = quickplay_open (w_uuid w) mission_key type game_mode (Some Cmd_qp_done) s"

definition cmd_quickplay_open :: "world \<Rightarrow> cstring \<Rightarrow> csession \<Rightarrow> csession crash" where
  "cmd_quickplay_open w mission_name s =
     (if mission_name = ''pvp'' then qp_open w None ROOM_PVP_QUICKPLAY None s
      else if mission_name = ''rating'' then qp_open w (Some mission_name) ROOM_PVP_RATING (Some ''ptb'') s
      else if mission_name \<in> set quickplay_modes then qp_open w None ROOM_PVP_QUICKPLAY (Some mission_name) s
      else do {
             m \<leftarrow> mission_list_get s (Some mission_name);
             (case m of
                None \<Rightarrow> Some s
              | Some m' \<Rightarrow>
                  do {
                    mode \<leftarrow> deref (ms_mode m');
                    qp_open w (ms_mission_key m') (if contains mode ''pvp'' then ROOM_PVP_QUICKPLAY else ROOM_PVE_QUICKPLAY) None s
                  })
           })"

definition cmd_quickplay_invite_cb :: "cptr \<Rightarrow> csession \<Rightarrow> csession crash" where
  "cmd_quickplay_invite_cb info s =
     (case info of
        None \<Rightarrow> Some s
      | Some i \<Rightarrow> quickplay_preinvite (attr i ''online_id'') (attr i ''profile_id'') (attr i ''nickname'') s)"

definition cmd_quickplay_invite :: "world \<Rightarrow> cptr \<Rightarrow> csession \<Rightarrow> csession crash" where
  "cmd_quickplay_invite w nickname s =
     (case nickname of
        None \<Rightarrow> Some s
      | Some n \<Rightarrow>
          (case (friend_list_get (pr_friends (profile s)) nickname, clanmate_list_get (profile s) nickname) of
             (Some f, _) \<Rightarrow> if fr_jid f \<noteq> None then quickplay_preinvite (fr_jid f) (Some (fr_profile_id f)) (Some (fr_nickname f)) s else Some s
           | (None, Some c) \<Rightarrow> if cm_jid c \<noteq> None then quickplay_preinvite (cm_jid c) (Some (cm_profile_id c)) (Some (cm_nickname c)) s else Some s
           | (None, None) \<Rightarrow> ask_status w nickname Cmd_qp_invite s))"

text \<open>Called without a callback, as the console does.\<close>

definition cmd_quickplay :: "world \<Rightarrow> cptr \<Rightarrow> cptr \<Rightarrow> csession \<Rightarrow> csession crash" where
  "cmd_quickplay w cmd arg_1 s =
     (case cmd of
        None \<Rightarrow> Some s
      | Some c \<Rightarrow>
          if c = ''open'' then (case arg_1 of None \<Rightarrow> Some s | Some a \<Rightarrow> cmd_quickplay_open w a s)
          else if c = ''cancel'' then quickplay_cancel s
          else if c = ''invite'' then cmd_quickplay_invite w arg_1 s
          else if c = ''start'' then quickplay_start (w_room_title w) (w_junk w) (Some Cmd_qp_done) s
          else Some s)"

subsection \<open>Statistics\<close>

text \<open>The list of servers in the answer is printed and freed.\<close>

definition cmd_stats :: "csession \<Rightarrow> csession crash" where
  "cmd_stats s = send_iq_get (JID_K01 s) (Some (CB_caller Cmd_stats)) (k01_query ''<get_master_servers/>'') s"

subsection \<open>A room that watches over itself\<close>

text \<open>\<open>blacklist_service\<close> is NULL: nobody is on the list.  \<open>w_high_ratio k d\<close> says that the float quotient of kills and
  deaths is above 3.\<close>

definition safe_kick :: "u32 \<Rightarrow> cptr \<Rightarrow> csession \<Rightarrow> csession crash" where
  "safe_kick profile_id nickname s = xmpp_iq_gameroom_kick profile_id (Some (CB_caller (Cmd_kicked nickname))) s"

definition xmpp_iq_ppi_cb :: "world \<Rightarrow> cptr \<Rightarrow> u32 \<Rightarrow> player_peer_info option \<Rightarrow> csession \<Rightarrow> csession crash" where
  "xmpp_iq_ppi_cb w nickname profile_id ppi s =
     (case ppi of
        None \<Rightarrow> Some s
      | Some p \<Rightarrow>
          if pi_pvp_deaths p \<noteq> 0 \<and> w_high_ratio w (pi_pvp_kills p) (pi_pvp_deaths p) then safe_kick profile_id nickname s else Some s)"

definition xmpp_iq_pigs_cb :: "cptr \<Rightarrow> csession \<Rightarrow> csession crash" where
  "xmpp_iq_pigs_cb info s =
     (case info of
        None \<Rightarrow> Some s
      | Some i \<Rightarrow>
          (let profile_id = sync_uint i ''profile_id''; nickname = attr i ''nickname'' in
           if sync_uint i ''rank'' < 15 then safe_kick profile_id nickname s
           else xmpp_iq_peer_player_info (attr i ''online_id'') (Some (Cmd_ppi (attr i ''online_id'') nickname profile_id)) s))"

text \<open>The handler of presences is registered for one message, in the table of queries.\<close>

definition watch_presence :: "csession \<Rightarrow> csession" where
  "watch_presence s = emit (Register_only (Some (CB_caller Cmd_safe_presence))) s"

definition safe_presence_cb :: "world \<Rightarrow> cptr \<Rightarrow> csession \<Rightarrow> csession crash" where
  "safe_presence_cb w msg s =
     (case (msg, gi_jid (groom s)) of
        (Some m, Some jid) \<Rightarrow>
          if \<not> wb_safemaster (cvar s) then Some (s\<lparr>player_count := 0\<rparr>)
          else if strstr m jid = None then Some (watch_presence s)
          else (let nickname = get_info m ''warface/'' [apos] in
                if contains m ''unavailable''
                then do {
                       same \<leftarrow> strcmp_eq (pr_nickname (profile s)) nickname;
                       let s1 = s\<lparr>player_count := player_count s - 1\<rparr>;
                       Some (if same then s1 else watch_presence s1)
                     }
                else do {
                       s1 \<leftarrow> ask_status w nickname Cmd_pigs s;
                       let s2 = s1\<lparr>player_count := player_count s1 + 1\<rparr>;
                       s3 \<leftarrow> (if 8 \<le> player_count s2 then xmpp_iq_gameroom_askserver None s2 else Some s2);
                       Some (watch_presence s3)
                     })
      | _ \<Rightarrow> Some (s\<lparr>player_count := 0\<rparr>))"

definition xmpp_iq_open_room_cb :: "world \<Rightarrow> cptr \<Rightarrow> csession \<Rightarrow> csession crash" where
  "xmpp_iq_open_room_cb w mission_key s =
     do {
       let s1 = s\<lparr>cvar := (cvar s)\<lparr>wb_safemaster := True\<rparr>, player_count := 0\<rparr>;
       s2 \<leftarrow> xmpp_iq_gameroom_setname (w_junk w) (wb_safemaster_room_name (cvar s1)) None s1;
       s3 \<leftarrow> xmpp_iq_gameroom_update_pvp mission_key (or PVP_AUTOBALANCE PVP_DEADCHAT) 16 0 None s2;
       Some (watch_presence s3)
     }"

definition cmd_safe :: "cptr \<Rightarrow> csession \<Rightarrow> csession crash" where
  "cmd_safe mission_name s =
     (let name = (case mission_name of None \<Rightarrow> ''tdm_airbase'' | Some n \<Rightarrow> n);
          join = (\<lambda>key. xmpp_iq_join_channel (wb_safemaster_channel (cvar s)) (Some (Cont_user (Cmd_safe_joined key))) s)
      in if is_uuid name then join (Some name)
         else do {
                m \<leftarrow> mission_list_get s (Some name);
                (case m of None \<Rightarrow> Some s | Some m' \<Rightarrow> do { key \<leftarrow> deref (ms_mission_key m'); join (Some key) })
              })"

subsection \<open>What the callbacks do\<close>

fun run_info :: "world \<Rightarrow> command \<Rightarrow> cptr \<Rightarrow> csession \<Rightarrow> csession crash" where
  "run_info w Cmd_follow info s = cmd_follow_cb info s"
| "run_info w Cmd_master info s = cmd_master_cb info s"
| "run_info w (Cmd_whisper message) info s = cmd_whisper_cb w message info s"
| "run_info w (Cmd_last r) info s = cmd_last_cb w r info s"
| "run_info w (Cmd_whois r) info s = cmd_whois_cb w r info s"
| "run_info w Cmd_qp_invite info s = cmd_quickplay_invite_cb info s"
| "run_info w Cmd_pigs info s = xmpp_iq_pigs_cb info s"
| "run_info w _ info s = Some s"

fun run_last_seen :: "world \<Rightarrow> command \<Rightarrow> cptr \<Rightarrow> u32 \<Rightarrow> csession \<Rightarrow> csession crash" where
  "run_last_seen w (Cmd_last_seen r) profile_id timestamp s = get_last_seen_date_cb w r timestamp s"
| "run_last_seen w _ profile_id timestamp s = Some s"

fun run_peer :: "world \<Rightarrow> command \<Rightarrow> player_peer_info option \<Rightarrow> csession \<Rightarrow> csession crash" where
  "run_peer w (Cmd_ppi online_id nickname profile_id) ppi s = xmpp_iq_ppi_cb w nickname profile_id ppi s"
| "run_peer w _ ppi s = Some s"

fun run_user :: "world \<Rightarrow> command \<Rightarrow> csession \<Rightarrow> csession crash" where
  "run_user w (Cmd_open_joined is_pvp mission_key) s = join_channel_cb w is_pvp mission_key s"
| "run_user w (Cmd_safe_joined mission_key) s = open_room w mission_key ROOM_PVP_PUBLIC (Some (Cmd_safe_opened mission_key)) s"
| "run_user w _ s = Some s"

fun run_opened :: "world \<Rightarrow> command \<Rightarrow> csession \<Rightarrow> csession crash" where
  "run_opened w Cmd_open_pvp s = cmd_open_pvp_cb s"
| "run_opened w (Cmd_safe_opened mission_key) s = xmpp_iq_open_room_cb w mission_key s"
| "run_opened w _ s = Some s"

fun run_answer :: "command \<Rightarrow> cptr \<Rightarrow> xmpp_msg_type \<Rightarrow> csession \<Rightarrow> csession crash" where
  "run_answer (Cmd_randombox amount token) content type s = randombox_cb amount token content type s"
| "run_answer (Cmd_clan_shop name description) content type s = clan_shop_cb name description content type s"
| "run_answer _ content type s = Some s"

definition run_presence :: "world \<Rightarrow> command \<Rightarrow> cptr \<Rightarrow> csession \<Rightarrow> csession crash" where
  "run_presence w c msg s = (if c = Cmd_safe_presence then safe_presence_cb w msg s else Some s)"

end
