(* ===== verification/Whispers.thy ===== *)
theory Whispers
  imports Commands
begin

text \<open>
  Messages of other players (\<open>src/xmpp_wf/result/xmpp_message.c\<close>): what is said in a room, and whispers, which are
  commands when the user allows it.  The texts are compared with \<open>strstr\<close> in the order of the code.
\<close>

subsection \<open>Rooms\<close>

definition handle_room_message :: "world \<Rightarrow> cptr \<Rightarrow> csession \<Rightarrow> csession crash" where
  "handle_room_message w msg s =
     (case msg of
        None \<Rightarrow> Some s
      | Some m \<Rightarrow>
          do {
            sender \<leftarrow> deref (get_info m ''from='' '' '');
            (case (get_info m ''<body>'' ''</body>'', get_info sender ''/'' [apos], get_info sender [apos] ''/'') of
               (Some message, Some nick_from, Some from_room) \<Rightarrow>
                 do {
                   simple_rjid \<leftarrow> fst (strtok_r from_room ''@'');
                   message' \<leftarrow> xml_deserialize_inplace (w_junk w) message;
                   if contains simple_rjid ''global'' then Some s
                   else do {
                     own \<leftarrow> strcmp_eq (Some nick_from) (pr_nickname (profile s));
                     if \<not> own \<and> wb_safemaster (cvar s) \<and> (strcasestr message' ''start'' \<noteq> None \<or> strcasecmp_eq message' ''go'')
                     then cmd_start s else Some s
                   }
                 }
             | _ \<Rightarrow> Some s)
          })"

subsection \<open>Whispers\<close>

datatype whisper =
    W_leave
  | W_unready
  | W_ready cptr
  | W_invite
  | W_follow cptr
  | W_master
  | W_last cptr
  | W_whois cptr
  | W_missions
  | W_say cptr
  | W_stay
  | W_start
  | W_switch
  | W_unknown

text \<open>The name behind the first blank, or that of the sender.\<close>

definition named_or :: "cstring \<Rightarrow> cptr \<Rightarrow> cptr" where
  "named_or message nick_from = (case strstr message '' '' of None \<Rightarrow> nick_from | Some p \<Rightarrow> Some (tl p))"

definition whisper_command :: "bool \<Rightarrow> cstring \<Rightarrow> cptr \<Rightarrow> whisper" where
  "whisper_command invite message nick_from =
     (let has = contains message in
      if has ''leave'' then W_leave
      else if has ''unready'' then W_unready
      else if has ''ready'' \<or> has ''take'' then W_ready (strstr message '' '')
      else if invite \<and> has ''invite'' then W_invite
      else if has ''follow'' then W_follow (named_or message nick_from)
      else if has ''master'' then W_master
      else if has ''last'' then W_last (named_or message nick_from)
      else if has ''whois'' then W_whois (named_or message nick_from)
      else if has ''missions'' then W_missions
      else if has ''say'' then W_say (strstr message '' '')
      else if has ''stay'' then W_stay
      else if has ''start'' then W_start
      else if has ''switch'' then W_switch
      else W_unknown)"

text \<open>One of four texts of the language file.\<close>

definition random_answer :: "world \<Rightarrow> cstring \<Rightarrow> csession \<Rightarrow> cstring" where
  "random_answer w topic s =
     (let r = w_rand w (now s) mod 4
      in w_lang w (topic @ (if r = 0 then ''_1'' else if r = 1 then ''_2'' else if r = 2 then ''_3'' else ''_4'')))"

definition answer_whisper :: "world \<Rightarrow> cstring \<Rightarrow> cptr \<Rightarrow> cptr \<Rightarrow> csession \<Rightarrow> csession crash" where
  "answer_whisper w topic nick_from jid_from s = xmpp_send_message w nick_from jid_from (random_answer w topic s) s"

fun obey :: "world \<Rightarrow> whisper \<Rightarrow> cptr \<Rightarrow> cptr \<Rightarrow> csession \<Rightarrow> csession crash" where
  "obey w W_leave n j s = do { s1 \<leftarrow> cmd_leave s; answer_whisper w ''whisper_leave'' n j s1 }"
| "obey w W_unready n j s = do { s1 \<leftarrow> cmd_unready s; answer_whisper w ''whisper_unready'' n j s1 }"
| "obey w (W_ready cl) n j s = do { s1 \<leftarrow> cmd_ready cl s; answer_whisper w ''whisper_ready'' n j s1 }"
| "obey w W_invite n j s = cmd_invite w n s"
| "obey w (W_follow nickname) n j s = cmd_follow w nickname s"
| "obey w W_master n j s = do { s1 \<leftarrow> cmd_master w n s; answer_whisper w ''whisper_master'' n j s1 }"
| "obey w (W_last nickname) n j s = cmd_last w nickname (Whisperer n j) s"
| "obey w (W_whois nickname) n j s = cmd_whois w nickname (Whisperer n j) s"
| "obey w W_missions n j s = cmd_missions w (Whisperer n j) s"
| "obey w (W_say m) n j s = cmd_say w m s"
| "obey w W_stay n j s =
     (if gi_jid (groom s) \<noteq> None then do { s1 \<leftarrow> cmd_stay (60 * 60) s; answer_whisper w ''whisper_stay'' n j s1 }
      else answer_whisper w ''whisper_stay_ko'' n j s)"
| "obey w W_start n j s = cmd_start s"
| "obey w W_switch n j s = cmd_switch s"
| "obey w W_unknown n j s = answer_whisper w ''whisper_unknown'' n j s"

definition handle_private_message :: "world \<Rightarrow> cptr \<Rightarrow> cptr \<Rightarrow> cptr \<Rightarrow> csession \<Rightarrow> csession crash" where
  "handle_private_message w msg_id msg content s =
     (case content of
        None \<Rightarrow> Some s
      | Some data \<Rightarrow>
          (case get_info data ''<message'' ''/>'' of
             None \<Rightarrow> Some s
           | Some node \<Rightarrow>
               do {
                 message0 \<leftarrow> deref (attr node ''message'');
                 let nick_from = attr node ''from'';
                 m \<leftarrow> deref msg;
                 let jid_from = attr m ''from'';
                 message \<leftarrow> xml_deserialize_inplace (w_junk w) message0;
                 s1 \<leftarrow> xmpp_ack_message w nick_from jid_from message msg_id s;
                 if wb_enable_whisper_commands (cvar s1)
                 then obey w (whisper_command (wb_enable_invite (cvar s1)) message nick_from) nick_from jid_from s1
                 else Some s1
               }))"

definition xmpp_message_cb :: "world \<Rightarrow> cptr \<Rightarrow> cptr \<Rightarrow> cptr \<Rightarrow> csession \<Rightarrow> csession crash" where
  "xmpp_message_cb w msg_id msg content s =
     do {
       m \<leftarrow> deref msg;
       type \<leftarrow> deref (attr m ''type'');
       if type = ''groupchat'' then handle_room_message w msg s
       else if type = ''get'' then handle_private_message w msg_id msg content s
       else Some s
     }"

subsection \<open>A whisper arrives\<close>

text \<open>What \<open>xmpp_send_message\<close> of the other client puts into its query, and what the answer echoes.\<close>

definition whisper_node :: "cstring \<Rightarrow> cstring \<Rightarrow> cstring \<Rightarrow> cstring" where
  "whisper_node sender nick message =
     ''<message '' @ q ''from'' sender @ '' '' @ q ''nick'' nick @ '' '' @ q ''message'' (escape message) @ ''/>''"

definition echo :: "cstring \<Rightarrow> cptr \<Rightarrow> cptr \<Rightarrow> cstring \<Rightarrow> csession \<Rightarrow> command effect" where
  "echo sender jid_from msg_id message s =
     Send_iq (JID jid_from) XMPP_TYPE_RESULT None msg_id (k01_query (whisper_node sender (show_ptr (pr_nickname (profile s))) message))"

definition answer_sent :: "cptr \<Rightarrow> cstring \<Rightarrow> csession \<Rightarrow> command effect" where
  "answer_sent nick_from message s =
     Send_iq (JID_WFC s) XMPP_TYPE_GET None None (k01_query (whisper_node (show_ptr (pr_nickname (profile s))) (show_ptr nick_from) message))"

definition nap :: "world \<Rightarrow> csession \<Rightarrow> csession" where
  "nap w s = s\<lparr>now := now s + int (w_nap w (now s) mod 2 + 1)\<rparr>"

lemma serialized: "NUL \<notin> set str \<Longrightarrow> xml_serialize junk str = Some (escape str)"
  using escape_no_NUL [of str] by (simp add: xml_serialize_def xml_serialize_buf_eq)

lemma deserialized:
  assumes "NUL \<notin> set str"
  shows "xml_deserialize_inplace junk (escape str) = Some str"
proof -
  from escape_no_NUL [OF assms] have e: "NUL \<notin> set (escape str)" .
  with xml_deserialize_buf_eq [OF e, of junk True] assms show ?thesis
    by (auto simp: xml_deserialize_inplace_def unescape_escape)
qed

lemma ack_message:
  assumes "NUL \<notin> set message" "jid_from \<noteq> None"
  shows "xmpp_ack_message w (Some sender) jid_from message msg_id s = Some (add_trace [echo sender jid_from msg_id message s] s)"
  using assms by (simp add: xmpp_ack_message_def serialized send_iq_result_Some echo_def message_query_def whisper_node_def show_ptr_def)

lemma answer_message:
  assumes "NUL \<notin> set message" "ol_jid_wfc (online s) \<noteq> None"
  shows "xmpp_send_message w nick_from jid message s = Some (add_trace [answer_sent nick_from message (nap w s)] (nap w s))"
  using assms by (simp add: xmpp_send_message_def serialized send_iq_get_Some answer_sent_def message_query_def whisper_node_def nap_def JID_WFC_def)

lemma whisper_read:
  assumes "plain_value sender" "plain_value nick"
  shows "get_info (whisper_node sender nick message) ''<message'' ''/>''
       = Some (render_attrs [(''from'', sender), (''nick'', nick), (''message'', escape message)])" (is ?node)
    and "attr (render_attrs [(''from'', sender), (''nick'', nick), (''message'', escape message)]) ''from'' = Some sender" (is ?sender)
    and "attr (render_attrs [(''from'', sender), (''nick'', nick), (''message'', escape message)]) ''message'' = Some (escape message)"
proof -
  let ?kvs = "[(''from'', sender), (''nick'', nick), (''message'', escape message)]"
  have "CHR ''>'' \<notin> set (render_attrs ?kvs)"
    using assms escape_no_special [of "CHR ''>''" message] by (auto simp: render_attr_def plain_value_def)
  from elem_cut [OF this, of "''<message''" "[]"] show ?node by (simp add: whisper_node_def render_attr_def q_def)
  have ok: "list_all attr_ok [(''from'', sender), (''nick'', nick)]"
    using assms by (auto simp: name_ok_def intro!: plain_attr_ok)
  have n: "name_ok ''from''" "name_ok ''message''" by (simp_all add: name_ok_def)
  have l: "lookup_attr ''from'' [(''from'', sender), (''nick'', nick)] = Some sender"
    and l': "lookup_attr ''message'' [(''from'', sender), (''nick'', nick)] = None"
    by (simp_all add: attr_hit_def)
  note f = get_attr [OF ok n(1) l, of "render_attr (''message'', escape message)"]
  note m = strstr_attrs [OF ok n(2), of "render_attr (''message'', escape message)", unfolded l' option.case]
  from f show ?sender by (simp add: attr_def del: strstr.simps)
  have "strstr (render_attr (''message'', escape message)) (''message'' @ ''='' @ [apos])
      = strstr ((''message'' @ ''='' @ [apos]) @ escape message @ [apos]) (''message'' @ ''='' @ [apos])"
    using strstr_skip_head [of "CHR ''m''" "'' ''" "(''message'' @ ''='' @ [apos]) @ escape message @ [apos]" "''essage'' @ ''='' @ [apos]"]
    by (simp add: render_attr_def del: strstr.simps)
  then have "strstr (render_attrs ?kvs) (''message'' @ ''='' @ [apos])
      = Some ((''message'' @ ''='' @ [apos]) @ escape message @ apos # [])"
    using m strstr_here [of "''message'' @ ''='' @ [apos]" "escape message @ [apos]"] by (simp del: strstr.simps)
  then show "attr (render_attrs ?kvs) ''message'' = Some (escape message)"
    unfolding attr_def using escape_no_special [of apos message] by (intro get_info_quoted) (auto simp del: strstr.simps)
qed


lemma whisper_handled:
  assumes "attr msg ''type'' = Some ''get''" "attr msg ''from'' = Some jid" "NUL \<notin> set message"
    "plain_value sender" "plain_value nick"
  shows "xmpp_message_cb w msg_id (Some msg) (Some (whisper_node sender nick message)) s
    = (let s1 = add_trace [echo sender (Some jid) msg_id message s] s in
       if wb_enable_whisper_commands (cvar s)
       then obey w (whisper_command (wb_enable_invite (cvar s)) message (Some sender)) (Some sender) (Some jid) s1 else Some s1)"
proof -
  note read = whisper_read [OF assms(4,5), of message]
  have "handle_private_message w msg_id (Some msg) (Some (whisper_node sender nick message)) s
    = (let s1 = add_trace [echo sender (Some jid) msg_id message s] s in
       if wb_enable_whisper_commands (cvar s)
       then obey w (whisper_command (wb_enable_invite (cvar s)) message (Some sender)) (Some sender) (Some jid) s1 else Some s1)"
    using ack_message [OF assms(3), of "Some jid"] assms(2)
    by (simp add: handle_private_message_def read deserialized [OF assms(3)] Let_def del: obey.simps render_attrs_simps)
  with assms(1) show ?thesis by (simp add: xmpp_message_cb_def)
qed

text \<open>C7: a text that another player whispers with \<open>xmpp_send_message\<close> is read as it was typed, is
  acknowledged with the same text under the identifier of the request, and only then, if the user allows
  it, obeyed as the command that the text names.\<close>

theorem whisper_understood:
  assumes "attr msg ''type'' = Some ''get''" "attr msg ''from'' = Some jid" "NUL \<notin> set message"
    "plain_value sender" "plain_value nick"
  shows "xmpp_message_cb w msg_id (Some msg) (Some (whisper_node sender nick message)) s
    = (let s1 = add_trace [echo sender (Some jid) msg_id message s] s in
       if wb_enable_whisper_commands (cvar s)
       then obey w (whisper_command (wb_enable_invite (cvar s)) message (Some sender)) (Some sender) (Some jid) s1 else Some s1)"
  using assms by (rule whisper_handled)

subsection \<open>Commands that are answered at once\<close>

text \<open>The texts an answer is taken from, and what is requested before it.\<close>

fun topic :: "whisper \<Rightarrow> csession \<Rightarrow> cptr" where
  "topic W_leave s = Some ''whisper_leave''"
| "topic W_unready s = Some ''whisper_unready''"
| "topic (W_ready cl) s = Some ''whisper_ready''"
| "topic W_master s = Some ''whisper_master''"
| "topic W_stay s = Some (if gi_jid (groom s) \<noteq> None then ''whisper_stay'' else ''whisper_stay_ko'')"
| "topic W_unknown s = Some ''whisper_unknown''"
| "topic _ s = None"

definition setplayer_sent :: "cstring \<Rightarrow> u32 \<Rightarrow> csession \<Rightarrow> command effect" where
  "setplayer_sent status class s =
     Send_iq (JID_MS (ol_channel (online s)) s) XMPP_TYPE_GET (Some (CB_gameroom_setplayer None)) None
       (k01_query ('' <gameroom_setplayer '' @ q ''team_id'' (int_dec (gi_curr_team (groom s))) @ '' '' @ q ''status'' status
          @ '' '' @ q ''class_id'' (fmt_d class) @ ''/>''))"

definition status_asked :: "cstring \<Rightarrow> command \<Rightarrow> csession \<Rightarrow> command effect" where
  "status_asked nickname c s =
     Send_iq (JID_K01 s) XMPP_TYPE_GET (Some (CB_profile_status (Some c))) None
       (k01_query (''<profile_info_get_status '' @ q ''nickname'' (escape nickname) @ ''/>''))"

fun deeds :: "whisper \<Rightarrow> cstring \<Rightarrow> csession \<Rightarrow> command effect list" where
  "deeds W_leave n s = leave_effects s"
| "deeds W_unready n s = [setplayer_sent (int_dec 0) (pr_curr_class (profile s)) s]"
| "deeds (W_ready cl) n s = [setplayer_sent (int_dec 1) (class_named cl (pr_curr_class (profile s))) s]"
| "deeds W_master n s = [status_asked n Cmd_master s]"
| "deeds _ n s = []"

text \<open>What a command changes of the session: the request to leave is marked, the class and the weapon in hand
  follow \<open>ready\<close>, the status asked for is kept, and \<open>stay\<close> puts the end of the stay an hour ahead.\<close>

definition weapon_in_hand :: "u32 \<Rightarrow> csession \<Rightarrow> cptr" where
  "weapon_in_hand cl s =
     (case pr_items (profile s) of
        None \<Rightarrow> pr_primary_weapon (profile s)
      | Some items \<Rightarrow>
          (case find_crash (weapon_of_class cl) items of
             Some (Some it) \<Rightarrow> it_name it
           | _ \<Rightarrow> pr_primary_weapon (profile s)))"

fun carried_out :: "whisper \<Rightarrow> csession \<Rightarrow> csession" where
  "carried_out W_leave s = (if gi_jid (groom s) = None then s else s\<lparr>groom := (groom s)\<lparr>gi_leaving := True\<rparr>\<rparr>)"
| "carried_out W_unready s = s\<lparr>groom := (groom s)\<lparr>gi_desired_status := 0\<rparr>\<rparr>"
| "carried_out (W_ready cl) s =
     (let c = class_named cl (pr_curr_class (profile s))
      in s\<lparr>groom := (groom s)\<lparr>gi_desired_status := 1\<rparr>,
           profile := (profile s)\<lparr>pr_primary_weapon := weapon_in_hand c s, pr_curr_class := c\<rparr>\<rparr>)"
| "carried_out W_stay s =
     (if gi_jid (groom s) = None then s else s\<lparr>groom := (groom s)\<lparr>gi_leave_timeout := now s + 60 * 60\<rparr>\<rparr>)"
| "carried_out _ s = s"

lemma carried_out_simps [simp]:
  "now (carried_out c s) = now s" "online (carried_out c s) = online s" "trace (carried_out c s) = trace s"
  "pr_nickname (profile (carried_out c s)) = pr_nickname (profile s)"
  by (cases c; simp add: Let_def)+

lemma status_request:
  assumes "NUL \<notin> set nickname" "ol_jid_k01 (online s) \<noteq> None"
  shows "ask_status w (Some nickname) c s = Some (add_trace [status_asked nickname c s] s)"
  using escape_no_NUL [OF assms(1)] assms(2)
  by (simp add: ask_status_def xmpp_iq_profile_info_get_status_def xml_serialize_inplace_def xml_serialize_buf_eq
      send_iq_get_Some status_asked_def)

lemma random_answer_cong: "now s = now t \<Longrightarrow> random_answer w k s = random_answer w k t"
  by (simp add: random_answer_def)

lemma answer_later:
  assumes "\<And>k. NUL \<notin> set (w_lang w k)" "ol_jid_wfc (online s) \<noteq> None" "answer_whisper w k n j s1 = Some s'"
    "s1 = add_trace es (carried_out c s)"
  shows "s' = add_trace (es @ [answer_sent n (random_answer w k s) (nap w s)]) (nap w (carried_out c s))"
proof -
  have "NUL \<notin> set (random_answer w k s1)" unfolding random_answer_def Let_def by (rule assms(1))
  with assms(3) answer_message [of "random_answer w k s1" s1 w n j] assms(2,4)
  have "s' = add_trace [answer_sent n (random_answer w k s1) (nap w s1)] (nap w s1)" by (simp add: answer_whisper_def)
  moreover have "answer_sent n (random_answer w k s1) (nap w s1) = answer_sent n (random_answer w k s) (nap w s)"
    using assms(4) random_answer_cong [of s1 s w k] by (simp add: answer_sent_def nap_def JID_WFC_def)
  ultimately show ?thesis using assms(4) by (simp add: nap_def add_trace_def)
qed

lemma leave_carried:
  "cmd_leave s = Some s1 \<Longrightarrow> s1 = add_trace (leave_effects s) (carried_out W_leave s)"
  by (cases "gi_leaving (groom s)") (auto simp: cmd_leave_def xmpp_iq_gameroom_leave_def leave_effects_def Let_def send_iq_get_Some
      JID_MS_def upd_gr_def add_trace_def split: if_splits)

lemma class_carried:
  "status_update_class cl s = Some s1 \<Longrightarrow> s1 = s\<lparr>profile := (profile s)\<lparr>pr_primary_weapon := weapon_in_hand cl s, pr_curr_class := cl\<rparr>\<rparr>"
  by (auto simp: status_update_class_def weapon_in_hand_def bind_eq_Some_conv Let_def split: option.splits)

lemma setplayer_carried:
  assumes "xmpp_iq_gameroom_setplayer (gi_curr_team (groom s)) st cl None s = Some s1"
  shows "s1 = add_trace [setplayer_sent (int_dec st) cl s] (s\<lparr>groom := (groom s)\<lparr>gi_desired_status := st\<rparr>\<rparr>)"
  using assms
  by (simp add: xmpp_iq_gameroom_setplayer_def setplayer_sent_def Let_def send_iq_get_Some JID_MS_def bind_eq_Some_conv upd_gr_def)

lemma ready_carried:
  assumes "cmd_ready cl s = Some s1"
  shows "s1 = add_trace [setplayer_sent (int_dec 1) (class_named cl (pr_curr_class (profile s))) s] (carried_out (W_ready cl) s)"
proof -
  let ?c = "class_named cl (pr_curr_class (profile s))"
  from assms obtain s0 where 0: "status_update_class ?c s = Some s0"
    and 1: "xmpp_iq_gameroom_setplayer (gi_curr_team (groom s0)) (sint GAMEROOM_READY) ?c None s0 = Some s1"
    by (auto simp: cmd_ready_def Let_def bind_eq_Some_conv)
  from setplayer_carried [OF 1] class_carried [OF 0] show ?thesis
    by (simp add: Let_def GAMEROOM_READY_def setplayer_sent_def JID_MS_def)
qed

lemma unready_carried:
  "cmd_unready s = Some s1 \<Longrightarrow> s1 = add_trace [setplayer_sent (int_dec 0) (pr_curr_class (profile s)) s] (carried_out W_unready s)"
  unfolding cmd_unready_def by (drule setplayer_carried) (simp add: GAMEROOM_UNREADY_def)

text \<open>C9: the commands leave, unready, ready, master and stay, and a whisper that is not understood, are carried
  out once (the requests \<open>deeds\<close> and the change \<open>carried_out\<close> of the session) and then answered once to the player
  who whispered, with one of the four texts of the topic; the answer takes a second or two, and nothing else of the session
  changes and no other stanza is sent.\<close>

theorem whisper_answered:
  assumes "\<And>k. NUL \<notin> set (w_lang w k)" "NUL \<notin> set n" "ol_jid_wfc (online s) \<noteq> None"
    "topic c s = Some k" "obey w c (Some n) jid s = Some s'"
  shows "s' = add_trace (deeds c n s @ [answer_sent (Some n) (random_answer w k s) (nap w s)]) (nap w (carried_out c s))
    \<and> now s' \<in> {now s + 1, now s + 2}
    \<and> (\<exists>x \<in> {''_1'', ''_2'', ''_3'', ''_4''}. random_answer w k s = w_lang w (k @ x))"
proof -
  have texts: "\<exists>x \<in> {''_1'', ''_2'', ''_3'', ''_4''}. random_answer w k s = w_lang w (k @ x)"
    by (simp add: random_answer_def Let_def)
  have "\<exists>s1. answer_whisper w k (Some n) jid s1 = Some s' \<and> s1 = add_trace (deeds c n s) (carried_out c s)"
  proof (cases c)
    case W_leave
    then show ?thesis using assms(4,5) by (auto simp: bind_eq_Some_conv dest: leave_carried)
  next
    case W_unready
    then show ?thesis using assms(4,5) by (auto simp: bind_eq_Some_conv dest: unready_carried)
  next
    case (W_ready cl)
    then show ?thesis using assms(4,5) by (auto simp: bind_eq_Some_conv dest: ready_carried)
  next
    case W_master
    then show ?thesis using assms(2,4,5)
      by (auto simp: cmd_master_def bind_eq_Some_conv ask_status_def xmpp_iq_profile_info_get_status_def send_iq_get_Some status_asked_def
          xml_serialize_inplace_def xml_serialize_buf_eq escape_no_NUL)
  next
    case W_stay
    then show ?thesis using assms(4,5) by (auto simp: cmd_stay_def bind_eq_Some_conv Let_def upd_gr_def add_trace_def split: if_splits)
  next
    case W_unknown
    then show ?thesis using assms(4,5) by (auto simp: add_trace_def)
  qed (use assms(4) in auto)
  then obtain s1 where "answer_whisper w k (Some n) jid s1 = Some s'" "s1 = add_trace (deeds c n s) (carried_out c s)" by blast
  from answer_later [OF assms(1,3) this] texts show ?thesis by (auto simp: nap_def)
qed

text \<open>A session and a world for the examples.\<close>

definition command_session :: csession where
  "command_session =
     \<lparr>rooms = rooms demo_session, online = online demo_session, missions = missions demo_session, wf = wf demo_session,
      quickplay = \<lparr>qp_pre_uid = None, qp_uid = None, qp_try_again = 0, qp_group = None, qp_master = None,
         qp_mission_id = None, qp_game_mode = None, qp_type = 0, qp_channel_switches = 0, qp_start_cb = None, qp_maps = None\<rparr>,
      groom = groom demo_session, profile = profile demo_session, cvar = cvar demo_session, pending_invitations = None,
      created_profile = False, own_jid = own_jid demo_session, player_count = 0, last_query = 0, now = 1000, trace = []\<rparr>"

definition plain_world :: world where
  "plain_world = \<lparr>w_lang = (\<lambda>k. ''ok''), w_fmt = (\<lambda>k xs. ''ok''), w_rand = (\<lambda>t. 0), w_nap = (\<lambda>t. 0), w_strftime = (\<lambda>f t. f),
     w_geoip = (\<lambda>ip. Some (Some ''EU'', None)), w_high_ratio = (\<lambda>k d. uint k > 3 * uint d), w_room_title = (\<lambda>n. ''room''),
     w_uuid = ''0'', w_junk = (\<lambda>i. CHR ''?'')\<rparr>"

lemma command_session_simps:
  "ol_jid_host (online command_session) = Some ''eu.warface''" "ol_jid_k01 (online command_session) = Some ''k01.eu.warface''"
  "ol_jid_wfc (online command_session) = Some ''wfc.eu.warface''"
  "gi_jid (groom command_session) = None" "trace command_session = []" "now command_session = 1000" "player_count command_session = 0"
  "pr_nickname (profile command_session) = Some ''me''" "pr_items (profile command_session) = Some []"
  "wb_enable_whisper_commands (cvar command_session)" "wb_enable_invite (cvar command_session)" "\<not> wb_safemaster (cvar command_session)"
  "ol_channel (online command_session) = Some ''pvp_pro_1''" "ol_channel_type (online command_session) = Some ''pvp_pro''"
  by (simp_all add: command_session_def demo_session_simps, simp_all add: demo_session_def session_init_def zero_session_def Let_def show_ptr_def)

theorem whisper_understood_witness:
  "xmpp_message_cb plain_world (Some ''uid7'') (Some (''<iq from='' @ [apos] @ ''ann@warface'' @ [apos] @ '' type='' @ [apos] @ ''get'' @ [apos] @ ''>''))
     (Some (whisper_node ''ann'' ''me'' ''please leave'')) command_session
   = obey plain_world W_leave (Some ''ann'') (Some ''ann@warface'')
       (add_trace [echo ''ann'' (Some ''ann@warface'') (Some ''uid7'') ''please leave'' command_session] command_session)"
proof -
  let ?m = "''<iq from='' @ [apos] @ ''ann@warface'' @ [apos] @ '' type='' @ [apos] @ ''get'' @ [apos] @ ''>''"
  have "attr ?m ''type'' = Some ''get''" "attr ?m ''from'' = Some ''ann@warface''" by code_simp+
  moreover have "NUL \<notin> set ''please leave''" "plain_value ''ann''" "plain_value ''me''" by (simp_all add: plain_value_def)
  moreover have "whisper_command True ''please leave'' (Some ''ann'') = W_leave" by code_simp
  ultimately show ?thesis
    by (simp add: whisper_understood command_session_simps Let_def del: obey.simps)
qed

theorem whisper_answered_witness:
  "\<exists>s'. obey plain_world W_stay (Some ''ann'') (Some ''ann@warface'') (command_session\<lparr>groom := (groom command_session)\<lparr>gi_jid := Some ''r''\<rparr>\<rparr>) = Some s'
     \<and> gi_leave_timeout (groom s') = 4600 \<and> length (trace s') = 1 \<and> now s' = 1001"
proof -
  let ?s = "command_session\<lparr>groom := (groom command_session)\<lparr>gi_jid := Some ''r''\<rparr>\<rparr>"
  have "obey plain_world W_stay (Some ''ann'') (Some ''ann@warface'') ?s \<noteq> None"
    by (simp add: cmd_stay_def upd_gr_def Let_def answer_whisper_def command_session_simps answer_message random_answer_def plain_world_def)
  then obtain s' where s': "obey plain_world W_stay (Some ''ann'') (Some ''ann@warface'') ?s = Some s'" by blast
  have "\<And>k. NUL \<notin> set (w_lang plain_world k)" "NUL \<notin> set ''ann''" "ol_jid_wfc (online ?s) \<noteq> None"
    "topic W_stay ?s = Some ''whisper_stay''"
    by (simp_all add: plain_world_def command_session_simps)
  from whisper_answered [OF this s'] s' show ?thesis
    by (simp add: command_session_simps nap_def plain_world_def)
qed

subsection \<open>Questions that another player whispers\<close>

text \<open>The answer to a question about a player: nobody knows him, or the country and the state of the text that the
  server sent.\<close>

definition whois_text :: "world \<Rightarrow> cptr \<Rightarrow> csession \<Rightarrow> cstring" where
  "whois_text w info s =
     (case info of
        None \<Rightarrow> w_lang w ''whisper_whois_unknown''
      | Some i \<Rightarrow>
          (let st = w_lang w (status_text (sync_uint i ''status'')) in
           case (case attr i ''ip_address'' of None \<Rightarrow> None | Some ip \<Rightarrow> (case w_geoip w ip of None \<Rightarrow> None | Some (c, isp) \<Rightarrow> c)) of
             None \<Rightarrow> w_fmt w ''whisper_whois_no_country'' [st]
           | Some c \<Rightarrow> w_fmt w (if now s mod 3 = 0 then ''whisper_whois_1'' else if now s mod 3 = 1 then ''whisper_whois_2'' else ''whisper_whois_3'') [c, st]))"

lemma whois_reported:
  "cmd_whois_cb w (Whisperer n j) info s = xmpp_send_message w n j (whois_text w info s) s"
  by (cases info) (auto simp: cmd_whois_cb_def report_whois_def cmd_whois_whisper_cb_def whois_text_def Let_def split: option.splits)

text \<open>C10: a whispered \<open>whois\<close> asks the server for the player by the name that follows, or else for the one who
  whispers, and whatever the server answers, an error included, the one who whispered gets exactly one text.\<close>

theorem whois_answered:
  assumes "NUL \<notin> set name" "named_or message (Some sender) = Some name" "ol_jid_k01 (online s) \<noteq> None"
    "ol_jid_wfc (online t) \<noteq> None" "\<And>k. NUL \<notin> set (w_lang w k)" "\<And>k xs. NUL \<notin> set (w_fmt w k xs)"
    "type = XMPP_TYPE_ERROR \<or> msg \<noteq> None"
  shows "obey w (W_whois (named_or message (Some sender))) (Some sender) jid s
      = Some (add_trace [status_asked name (Cmd_whois (Whisperer (Some sender) jid)) s] s)
    \<and> xmpp_iq_profile_info_get_status_cb (run_info w) (Some (Cmd_whois (Whisperer (Some sender) jid))) msg type t
      = (let info = (if type = XMPP_TYPE_ERROR then None else get_info (the msg) ''<info'' ''/>'')
         in Some (add_trace [answer_sent (Some sender) (whois_text w info t) (nap w t)] (nap w t)))"
proof -
  have "NUL \<notin> set (whois_text w info t)" for info
    using assms(5,6) by (auto simp: whois_text_def Let_def split: option.splits)
  from answer_message [OF this assms(4)] show ?thesis
    using assms(1-3,7) status_request [OF assms(1,3)]
    by (auto simp: cmd_whois_def xmpp_iq_profile_info_get_status_cb_def whois_reported Let_def)
qed

theorem whois_answered_witness:
  "obey plain_world (W_whois (named_or ''whois bob'' (Some ''ann''))) (Some ''ann'') (Some ''ann@warface'') command_session
     = Some (add_trace [status_asked ''bob'' (Cmd_whois (Whisperer (Some ''ann'') (Some ''ann@warface''))) command_session] command_session)
   \<and> xmpp_iq_profile_info_get_status_cb (run_info plain_world) (Some (Cmd_whois (Whisperer (Some ''ann'') (Some ''ann@warface'')))) None XMPP_TYPE_ERROR
       command_session
     = Some (add_trace [answer_sent (Some ''ann'') ''ok'' (nap plain_world command_session)] (nap plain_world command_session))"
proof -
  have p: "NUL \<notin> set ''bob''" "ol_jid_k01 (online command_session) \<noteq> None" "ol_jid_wfc (online command_session) \<noteq> None"
    "\<And>k. NUL \<notin> set (w_lang plain_world k)" "\<And>k xs. NUL \<notin> set (w_fmt plain_world k xs)"
    by (simp_all add: plain_world_def command_session_simps)
  have n: "named_or ''whois bob'' (Some ''ann'') = Some ''bob''" by code_simp
  have "whois_text plain_world None command_session = ''ok''" by (simp add: whois_text_def plain_world_def)
  with whois_answered [OF p(1) n p(2-5), of XMPP_TYPE_ERROR None "Some ''ann@warface''"] show ?thesis by (simp add: Let_def del: obey.simps)
qed

text \<open>C1: a whispered \<open>master\<close> hands the room over to the player who whispers: the server is asked who that is,
  and the profile that it names is promoted; if it does not know him nothing is sent.\<close>

theorem master_handed_over:
  assumes "ol_jid_host (online t) \<noteq> None" "plain_attrs kvs" "lookup_attr ''profile_id'' kvs = Some pid"
  shows "xmpp_iq_profile_info_get_status_cb (run_info w) (Some Cmd_master) (Some (render_elem ''<info'' kvs)) XMPP_TYPE_RESULT t
      = Some (add_trace [Send_iq (JID_MS (ol_channel (online t)) t) XMPP_TYPE_GET (Some (CB_gameroom_promote_to_host None)) None
                (k01_query ('' <gameroom_promote_to_host '' @ q ''new_host_profile_id'' pid @ ''/>''))] t)
    \<and> xmpp_iq_profile_info_get_status_cb (run_info w) (Some Cmd_master) msg XMPP_TYPE_ERROR t = Some t"
proof -
  have "get_info (render_elem ''<info'' kvs) ''<info'' ''/>'' = Some (render_attrs kvs)"
    using elem_cut [of "render_attrs kvs" "''<info''" "[]"] plain_attrs_text [OF assms(2)] by (simp add: render_elem_def del: strstr.simps)
  moreover have "attr (render_attrs kvs) ''profile_id'' = Some pid"
    using attr_elem [OF assms(2) _ assms(3), of "[]"] by (simp add: name_ok_def)
  ultimately show ?thesis
    using assms(1) by (simp add: xmpp_iq_profile_info_get_status_cb_def cmd_master_cb_def xmpp_iq_gameroom_promote_to_host_def send_iq_get_Some)
qed

theorem master_handed_over_witness:
  "xmpp_iq_profile_info_get_status_cb (run_info plain_world) (Some Cmd_master)
      (Some (render_elem ''<info'' [(''nickname'', ''ann''), (''profile_id'', ''42'')])) XMPP_TYPE_RESULT command_session
   = Some (add_trace [Send_iq (JID_MS (Some ''pvp_pro_1'') command_session) XMPP_TYPE_GET (Some (CB_gameroom_promote_to_host None)) None
                (k01_query ('' <gameroom_promote_to_host '' @ q ''new_host_profile_id'' ''42'' @ ''/>''))] command_session)"
  using master_handed_over [of command_session "[(''nickname'', ''ann''), (''profile_id'', ''42'')]" "''42''" plain_world]
  by (simp add: command_session_simps plain_value_def name_ok_def attr_hit_def)

subsection \<open>Staying in a room, being seen\<close>

text \<open>whatever is typed, the bot stays in the room at most two hours from now, and never leaves before now.\<close>

theorem stay_bounded:
  "\<exists>d. 0 \<le> d \<and> d \<le> 7200 \<and> cmd_stay_wrapper duration unit s = Some (upd_gr (\<lambda>g. g\<lparr>gi_leave_timeout := now s + d\<rparr>) s)"
proof -
  have "\<exists>d. 0 \<le> d \<and> d \<le> 7200 \<and> cmd_stay secs s = Some (upd_gr (\<lambda>g. g\<lparr>gi_leave_timeout := now s + d\<rparr>) s)" for secs
  proof (cases "2 * 60 * 60 < secs")
    case True
    then show ?thesis by (intro exI [of _ 7200]) (simp add: cmd_stay_def)
  next
    case False
    then have "uint secs \<le> 7200" by (simp add: word_less_def)
    then show ?thesis using False by (intro exI [of _ "uint secs"]) (simp add: cmd_stay_def)
  qed
  then show ?thesis by (cases duration) (auto simp: cmd_stay_wrapper_def)
qed

text \<open>The number of hours is multiplied in 32 bits before the two hours are looked at.\<close>

theorem stay_wraps:
  "cmd_stay_wrapper (Some (int_dec 1193047)) (Some ''h'') s = Some (upd_gr (\<lambda>g. g\<lparr>gi_leave_timeout := now s + 1904\<rparr>) s)"
proof -
  have "c_uint (strtoll (int_dec 1193047)) = 1193047" using strtoll_int_dec [of "[]" 1193047] by (simp add: c_uint_def)
  then show ?thesis by (simp add: cmd_stay_wrapper_def stay_multiplier_def cmd_stay_def)
qed

text \<open>Someone who was seen a day or months ago is described with the text for hours, and the tests for days and
  months are never reached with success.\<close>

theorem last_seen_hours:
  "last_seen_format time t = (if uint t + 3600 < time then ''whisper_last_seen_hour'' else ''whisper_last_seen_year'')"
  by (simp add: last_seen_format_def Let_def)

text \<open>The request for the date fails: the player who asked hears nothing; the callback is not called.\<close>

theorem last_unanswered:
  "xmpp_iq_get_last_seen_date_cb (run_last_seen w) (Some (Cmd_last_seen (Whisperer n j))) content XMPP_TYPE_ERROR s = Some s"
  by (simp add: xmpp_iq_get_last_seen_date_cb_def)

text \<open>A message without a \<open>message=\<close> attribute, or a stanza without a type, is a NULL pointer for
  \<open>xml_deserialize_inplace\<close> and \<open>strcmp\<close>.\<close>

theorem whisper_without_text:
  assumes "attr msg ''type'' = Some ''get''" "get_info data ''<message'' ''/>'' = Some node" "attr node ''message'' = None"
  shows "xmpp_message_cb w msg_id (Some msg) (Some data) s = None"
  using assms by (simp add: xmpp_message_cb_def handle_private_message_def)

theorem whisper_without_type:
  "attr msg ''type'' = None \<Longrightarrow> xmpp_message_cb w msg_id (Some msg) content s = None"
  by (simp add: xmpp_message_cb_def)

subsection \<open>A room that watches over itself\<close>

text \<open>The handler of presences is registered for one presence; what follows is a sequence of them.\<close>

fun watch_presences :: "world \<Rightarrow> cstring list \<Rightarrow> csession \<Rightarrow> csession crash" where
  "watch_presences w [] s = Some s"
| "watch_presences w (m # ms) s = do { s1 \<leftarrow> run_presence w Cmd_safe_presence (Some m) s; watch_presences w ms s1 }"

definition leaves_room :: "cstring \<Rightarrow> bool" where
  "leaves_room m \<longleftrightarrow> contains m ''unavailable''"

text \<open>Who is in the room after these presences.\<close>

definition crowd :: "u32 \<Rightarrow> cstring list \<Rightarrow> u32" where
  "crowd c ms = c + of_nat (length (filter (\<lambda>m. \<not> leaves_room m) ms)) - of_nat (length (filter leaves_room ms))"

lemma crowd_simps: "crowd c [] = c" "crowd c (m # ms) = crowd (if leaves_room m then c - 1 else c + 1) ms"
  by (simp_all add: crowd_def)

definition room_presence :: "csession \<Rightarrow> cstring \<Rightarrow> bool" where
  "room_presence s m \<longleftrightarrow>
     (\<exists>jid nick. gi_jid (groom s) = Some jid \<and> strstr m jid \<noteq> None \<and> get_info m ''warface/'' [apos] = Some nick
        \<and> NUL \<notin> set nick \<and> pr_nickname (profile s) \<noteq> Some nick)"

definition server_asked :: "csession \<Rightarrow> command effect" where
  "server_asked s =
     Send_iq (JID_MS (ol_channel (online s)) s) XMPP_TYPE_GET (Some (CB_gameroom_askserver None)) None (k01_query '' <gameroom_askserver/>'')"

definition watching :: "command effect" where
  "watching = Register_only (Some (CB_caller Cmd_safe_presence))"

definition same_place :: "csession \<Rightarrow> csession \<Rightarrow> bool" where
  "same_place s t \<longleftrightarrow> online t = online s \<and> groom t = groom s \<and> profile t = profile s \<and> cvar t = cvar s"

lemma presence_step:
  assumes "room_presence s m" "wb_safemaster (cvar s)" "pr_nickname (profile s) \<noteq> None" "ol_jid_k01 (online s) \<noteq> None" "ol_jid_host (online s) \<noteq> None"
  shows "\<exists>s' es. run_presence w Cmd_safe_presence (Some m) s = Some s' \<and> same_place s s' \<and> trace s' = trace s @ es
    \<and> player_count s' = (if leaves_room m then player_count s - 1 else player_count s + 1)
    \<and> filter ((=) watching) es = [watching]
    \<and> (server_asked s \<in> set es \<longleftrightarrow> \<not> leaves_room m \<and> 8 \<le> player_count s + 1)"
proof -
  obtain jid nick where m: "gi_jid (groom s) = Some jid" "strstr m jid \<noteq> None" "get_info m ''warface/'' [apos] = Some nick"
    "NUL \<notin> set nick" "pr_nickname (profile s) \<noteq> Some nick"
    using assms(1) by (auto simp: room_presence_def)
  have own: "strcmp_eq (pr_nickname (profile s)) (Some nick) = Some False"
    using assms(3) m(5) by (auto simp: strcmp_eq_def)
  have "watching \<noteq> status_asked nick Cmd_pigs s" "watching \<noteq> server_asked s" "server_asked s \<noteq> status_asked nick Cmd_pigs s"
    by (simp_all add: watching_def status_asked_def server_asked_def)
  then show ?thesis
    using assms(2,5) m(1-3) own status_request [OF m(4) assms(4), of w Cmd_pigs]
    by (cases "leaves_room m")
      (auto simp: run_presence_def safe_presence_cb_def leaves_room_def watch_presence_def same_place_def Let_def watching_def
        xmpp_iq_gameroom_askserver_def send_iq_get_def jid_to_str_def server_asked_def JID_MS_def add_trace_def emit_def)
qed

definition full_at :: "u32 \<Rightarrow> cstring list \<Rightarrow> bool" where
  "full_at c ms \<longleftrightarrow> (\<exists>xs m ys. ms = xs @ m # ys \<and> \<not> leaves_room m \<and> 8 \<le> crowd c (xs @ [m]))"

lemma full_at_simps: "\<not> full_at c []"
  "full_at c (m # ms) \<longleftrightarrow> (\<not> leaves_room m \<and> 8 \<le> c + 1) \<or> full_at (if leaves_room m then c - 1 else c + 1) ms" (is "?l \<longleftrightarrow> ?r")
proof -
  show "\<not> full_at c []" by (simp add: full_at_def)
  show "?l \<longleftrightarrow> ?r"
  proof
    assume ?l
    then obtain xs n ys where d: "m # ms = xs @ n # ys" "\<not> leaves_room n" "8 \<le> crowd c (xs @ [n])" unfolding full_at_def by blast
    show ?r
    proof (cases xs)
      case Nil
      with d show ?thesis by (simp add: crowd_simps)
    next
      case (Cons x zs)
      with d have "ms = zs @ n # ys" "8 \<le> crowd (if leaves_room m then c - 1 else c + 1) (zs @ [n])" by (simp_all add: crowd_simps)
      with d(2) have "full_at (if leaves_room m then c - 1 else c + 1) ms" unfolding full_at_def by blast
      then show ?thesis ..
    qed
  next
    assume ?r
    then show ?l
    proof
      assume "\<not> leaves_room m \<and> 8 \<le> c + 1"
      then show ?l unfolding full_at_def by (intro exI [of _ "[]"] exI [of _ m] exI [of _ ms]) (simp add: crowd_simps)
    next
      assume "full_at (if leaves_room m then c - 1 else c + 1) ms"
      then obtain xs n ys where "ms = xs @ n # ys" "\<not> leaves_room n" "8 \<le> crowd (if leaves_room m then c - 1 else c + 1) (xs @ [n])"
        unfolding full_at_def by blast
      then show ?l unfolding full_at_def by (intro exI [of _ "m # xs"] exI [of _ n] exI [of _ ys]) (simp add: crowd_simps)
    qed
  qed
qed

text \<open>The counter in the width of the program.\<close>

lemma room_watched:
  assumes "list_all (room_presence s) ms" "wb_safemaster (cvar s)" "pr_nickname (profile s) \<noteq> None" "ol_jid_k01 (online s) \<noteq> None"
    "ol_jid_host (online s) \<noteq> None"
  shows "\<exists>s' es. watch_presences w ms s = Some s' \<and> trace s' = trace s @ es \<and> player_count s' = crowd (player_count s) ms
    \<and> length (filter ((=) watching) es) = length ms
    \<and> (server_asked s \<in> set es \<longleftrightarrow> full_at (player_count s) ms)"
  using assms
proof (induction ms arbitrary: s)
  case Nil
  then show ?case by (simp add: crowd_simps full_at_simps)
next
  case (Cons m ms)
  from presence_step [of s m w] Cons.prems obtain s1 es1 where
    one: "run_presence w Cmd_safe_presence (Some m) s = Some s1" "same_place s s1" "trace s1 = trace s @ es1"
      "player_count s1 = (if leaves_room m then player_count s - 1 else player_count s + 1)" "filter ((=) watching) es1 = [watching]"
      "server_asked s \<in> set es1 \<longleftrightarrow> \<not> leaves_room m \<and> 8 \<le> player_count s + 1"
    by auto
  have p: "room_presence s1 = room_presence s" and asked: "server_asked s1 = server_asked s"
    using one(2) by (auto simp: same_place_def room_presence_def server_asked_def JID_MS_def fun_eq_iff)
  have pre: "list_all (room_presence s1) ms" "wb_safemaster (cvar s1)" "pr_nickname (profile s1) \<noteq> None" "ol_jid_k01 (online s1) \<noteq> None"
    "ol_jid_host (online s1) \<noteq> None"
    using Cons.prems one(2) by (simp_all add: p) (simp_all add: same_place_def)
  from Cons.IH [OF pre] obtain s' es2 where
    "watch_presences w ms s1 = Some s'" "trace s' = trace s1 @ es2" "player_count s' = crowd (player_count s1) ms"
    "length (filter ((=) watching) es2) = length ms" "server_asked s \<in> set es2 \<longleftrightarrow> full_at (player_count s1) ms"
    unfolding asked by blast
  with one show ?case
    by (intro exI [of _ s'] exI [of _ "es1 @ es2"]) (auto simp: crowd_simps full_at_simps)
qed

text \<open>The players known to be in the room, as a number that nobody leaves below 0, and whether one of them came as
  the eighth or later.\<close>

fun counted :: "nat \<Rightarrow> cstring list \<Rightarrow> nat option" where
  "counted n [] = Some n"
| "counted n (m # ms) =
     (if leaves_room m then (if n = 0 then None else counted (n - 1) ms) else counted (n + 1) ms)"

fun filled :: "nat \<Rightarrow> cstring list \<Rightarrow> bool" where
  "filled n [] = False"
| "filled n (m # ms) = (if leaves_room m then filled (n - 1) ms else 8 \<le> n + 1 \<or> filled (n + 1) ms)"

lemma unat_small: "n < 2 ^ 32 \<Longrightarrow> unat (of_nat n :: u32) = n"
  by (simp add: unsigned_of_nat take_bit_nat_eq_self)

lemma eight_of_nat: "n < 2 ^ 32 \<Longrightarrow> 8 \<le> (of_nat n :: u32) \<longleftrightarrow> 8 \<le> n"
  by (simp add: word_le_nat_alt unat_small)

lemma counted_words:
  "counted n ms = Some p \<Longrightarrow> n + length ms < 2 ^ 32 \<Longrightarrow>
     crowd (of_nat n) ms = of_nat p \<and> p < 2 ^ 32 \<and> (full_at (of_nat n) ms \<longleftrightarrow> filled n ms)"
proof (induction ms arbitrary: n)
  case Nil
  then show ?case by (simp add: crowd_simps full_at_simps)
next
  case (Cons m ms)
  show ?case
  proof (cases "leaves_room m")
    case True
    with Cons.prems obtain k where "n = Suc k" by (cases n) auto
    with True Cons.IH [of k] Cons.prems show ?thesis by (simp add: crowd_simps full_at_simps)
  next
    case False
    have "of_nat n + 1 = (of_nat (Suc n) :: u32)" by simp
    with False Cons.IH [of "Suc n"] Cons.prems eight_of_nat [of "Suc n"] show ?thesis
      by (simp add: crowd_simps full_at_simps del: of_nat_Suc)
  qed
qed

text \<open>C11: while other players (whose presences name the room and a nickname other than the own one) come and go, the
  watch of a safe room is kept: after every such presence the handler is registered again, and the server is asked
  to start the match exactly if an arrival brings the counter to eight or more.  The counter is the number of
  arrivals less that of departures in 32 bits, which is the number of players in the room, and the request that of
  an eighth player, as long as no one leaves of whose arrival no presence came.\<close>

theorem safe_room_watched:
  assumes "list_all (room_presence s) ms" "wb_safemaster (cvar s)" "pr_nickname (profile s) \<noteq> None" "ol_jid_k01 (online s) \<noteq> None"
    "ol_jid_host (online s) \<noteq> None"
  shows "\<exists>s' es. watch_presences w ms s = Some s' \<and> trace s' = trace s @ es \<and> player_count s' = crowd (player_count s) ms
    \<and> length (filter ((=) watching) es) = length ms
    \<and> (server_asked s \<in> set es \<longleftrightarrow> full_at (player_count s) ms)
    \<and> (\<forall>p. counted (unat (player_count s)) ms = Some p \<and> unat (player_count s) + length ms < 2 ^ 32 \<longrightarrow>
         unat (player_count s') = p \<and> (server_asked s \<in> set es \<longleftrightarrow> filled (unat (player_count s)) ms))"
proof -
  from room_watched [OF assms] obtain s' es where w: "watch_presences w ms s = Some s'" "trace s' = trace s @ es"
    "player_count s' = crowd (player_count s) ms" "length (filter ((=) watching) es) = length ms"
    "server_asked s \<in> set es \<longleftrightarrow> full_at (player_count s) ms" by blast
  have "unat (player_count s') = p \<and> (server_asked s \<in> set es \<longleftrightarrow> filled (unat (player_count s)) ms)"
    if "counted (unat (player_count s)) ms = Some p \<and> unat (player_count s) + length ms < 2 ^ 32" for p
    using counted_words [of "unat (player_count s)" ms p] that w(3,5) by (simp add: unat_small)
  with w show ?thesis by blast
qed

definition safe_room :: csession where
  "safe_room = command_session\<lparr>cvar := (cvar command_session)\<lparr>wb_safemaster := True\<rparr>,
     groom := (groom command_session)\<lparr>gi_jid := Some ''room@muc''\<rparr>\<rparr>"

definition left_by :: "cstring \<Rightarrow> cstring" where
  "left_by nick = ''<presence from='' @ [apos] @ ''room@muc.warface/'' @ nick @ [apos] @ '' type='' @ [apos] @ ''unavailable'' @ [apos] @ ''/>''"

definition joined_by :: "cstring \<Rightarrow> cstring" where
  "joined_by nick = ''<presence from='' @ [apos] @ ''room@muc.warface/'' @ nick @ [apos] @ ''/>''"

text \<open>The counter is not compared with 0: two players of whose arrival no presence came leave, and the next one who
  comes starts the match.\<close>

theorem empty_room_starts:
  "\<exists>s' es. watch_presences plain_world [left_by ''ann'', left_by ''bob'', joined_by ''eve''] safe_room = Some s' \<and> trace s' = es
     \<and> length (filter ((=) watching) es) = 3 \<and> player_count s' = 2 ^ 32 - 1 \<and> server_asked safe_room \<in> set es"
proof -
  have facts: "strstr (left_by n) ''room@muc'' \<noteq> None \<and> get_info (left_by n) ''warface/'' [apos] = Some n \<and> leaves_room (left_by n)"
    if "n \<in> {''ann'', ''bob''}" for n using that by (elim insertE emptyE; hypsubst; code_simp)
  have eve: "strstr (joined_by ''eve'') ''room@muc'' \<noteq> None \<and> get_info (joined_by ''eve'') ''warface/'' [apos] = Some ''eve'' \<and> \<not> leaves_room (joined_by ''eve'')"
    by code_simp
  have "list_all (room_presence safe_room) [left_by ''ann'', left_by ''bob'', joined_by ''eve'']"
    using facts [of "''ann''"] facts [of "''bob''"] eve by (simp add: room_presence_def safe_room_def command_session_simps del: strstr.simps)
  moreover have "wb_safemaster (cvar safe_room)" "pr_nickname (profile safe_room) \<noteq> None" "ol_jid_k01 (online safe_room) \<noteq> None"
    "ol_jid_host (online safe_room) \<noteq> None"
    by (simp_all add: safe_room_def command_session_simps)
  ultimately have "\<exists>s' es. watch_presences plain_world [left_by ''ann'', left_by ''bob'', joined_by ''eve''] safe_room = Some s'
     \<and> trace s' = trace safe_room @ es \<and> player_count s' = crowd (player_count safe_room) [left_by ''ann'', left_by ''bob'', joined_by ''eve'']
     \<and> length (filter ((=) watching) es) = length [left_by ''ann'', left_by ''bob'', joined_by ''eve'']
     \<and> (server_asked safe_room \<in> set es \<longleftrightarrow> full_at (player_count safe_room) [left_by ''ann'', left_by ''bob'', joined_by ''eve''])"
    by (rule room_watched)
  then show ?thesis
    using facts [of "''ann''"] facts [of "''bob''"] eve
    by (auto simp: crowd_simps full_at_simps safe_room_def command_session_simps)
qed

theorem safe_room_watched_witness:
  "\<exists>s' es. watch_presences plain_world (replicate 8 (joined_by ''eve'')) safe_room = Some s' \<and> trace s' = es
     \<and> length (filter ((=) watching) es) = 8 \<and> unat (player_count s') = 8 \<and> server_asked safe_room \<in> set es"
proof -
  have eve: "strstr (joined_by ''eve'') ''room@muc'' \<noteq> None \<and> get_info (joined_by ''eve'') ''warface/'' [apos] = Some ''eve'' \<and> \<not> leaves_room (joined_by ''eve'')"
    by code_simp
  let ?ms = "replicate 8 (joined_by ''eve'')"
  have "list_all (room_presence safe_room) ?ms"
    using eve by (auto simp: list_all_iff room_presence_def safe_room_def command_session_simps simp del: strstr.simps)
  moreover have "wb_safemaster (cvar safe_room)" "pr_nickname (profile safe_room) \<noteq> None" "ol_jid_k01 (online safe_room) \<noteq> None"
    "ol_jid_host (online safe_room) \<noteq> None" and e: "trace safe_room = []" "player_count safe_room = 0"
    by (simp_all add: safe_room_def command_session_simps)
  ultimately obtain s' es where r: "watch_presences plain_world ?ms safe_room = Some s'" "trace s' = trace safe_room @ es"
    "length (filter ((=) watching) es) = length ?ms"
    "counted (unat (player_count safe_room)) ?ms = Some 8 \<and> unat (player_count safe_room) + length ?ms < 2 ^ 32 \<longrightarrow>
       unat (player_count s') = 8 \<and> (server_asked safe_room \<in> set es \<longleftrightarrow> filled (unat (player_count safe_room)) ?ms)"
    using safe_room_watched [of safe_room ?ms plain_world] by blast
  have "counted 0 ?ms = Some 8" "filled 0 ?ms" using eve by (simp_all add: eval_nat_numeral)
  with r show ?thesis by (simp add: e)
qed

text \<open>A room cannot be changed before a channel was joined, the type of the channel is a NULL pointer for \<open>strstr\<close>.\<close>

theorem change_without_channel:
  "ol_channel_type (online s) = None \<Longrightarrow> cmd_change mission s = None"
  by (simp add: cmd_change_def)
end
