(* ===== verification/Settings.thy ===== *)
theory Settings
  imports Attributes
begin

text \<open>
  The configuration variables and the texts of the user interface (\<open>src/cvar.c\<close>,
  \<open>include/wb_cvar.h\<close>, \<open>include/wb_lang.h\<close>, \<open>src/lang.c\<close>) and the command line
  (\<open>src/option.c\<close>).  The X-macro lists are lists of names and defaults; \<open>struct cvar\<close> and
  \<open>struct lang\<close> are maps from these names, which stand for the addresses in \<open>cvar_assoc\<close>.
  The program is the one built without \<open>DBUS_API\<close> and \<open>DEBUG\<close>.
\<close>

subsection \<open>The variables\<close>

datatype cvar_value = VInt int | VStr cptr | VBool int

definition CVAR_LIST :: "(cstring \<times> cvar_value) list" where
  "CVAR_LIST =
  [(''game_version'', VStr None),
   (''game_crypt_iv'', VStr None),
   (''game_crypt_key'', VStr None),
   (''game_server_name'', VStr None),
   (''game_hwid'', VInt 0),
   (''game_manual_profile_creation'', VBool 0),
   (''online_resource'', VStr (Some ''GameClient'')),
   (''online_region_id'', VStr (Some ''global'')),
   (''online_server'', VStr None),
   (''online_host'', VStr (Some ''warface'')),
   (''online_bootstrap'', VStr None),
   (''online_server_port'', VInt 5222),
   (''online_channel_type'', VStr (Some ''pve'')),
   (''online_pvp_rank'', VInt 1),
   (''online_use_protect'', VBool 1),
   (''online_use_tls'', VBool 1),
   (''wb_qp_search_started'', VBool 1),
   (''wb_qp_search_non_started'', VBool 1),
   (''wb_safemaster'', VBool 0),
   (''wb_safemaster_room_name'', VStr (Some ''FairGame (rank > 15 & kdr < 3)'')),
   (''wb_safemaster_channel'', VStr (Some ''pvp_pro_1'')),
   (''wb_join_global_rooms'', VBool 0),
   (''wb_accept_friend_requests'', VBool 1),
   (''wb_postpone_friend_requests'', VBool 0),
   (''wb_accept_clan_invites'', VBool 1),
   (''wb_postpone_clan_invites'', VBool 0),
   (''wb_enable_whisper_commands'', VBool 1),
   (''wb_leave_on_start'', VBool 1),
   (''wb_accept_room_follows'', VBool 1),
   (''wb_accept_room_invitations'', VBool 1),
   (''wb_postpone_room_invitations'', VBool 0),
   (''wb_enable_invite'', VBool 1),
   (''wb_auto_afk'', VBool 0),
   (''wb_ping_unit'', VInt 5),
   (''wb_ping_count_is_afk'', VInt (1 * 12)),
   (''wb_ping_count_is_stall'', VInt (3 * 12)),
   (''wb_ping_count_is_over'', VInt (4 * 12)),
   (''wb_ping_count_is_outdated'', VInt (5 * 12)),
   (''wb_auto_start'', VBool 1),
   (''query_cache_location'', VStr (Some ''./QueryCache/'')),
   (''query_cache'', VBool 1),
   (''query_disable_items'', VBool 0),
   (''query_disable_shop_get_offers'', VBool 0),
   (''query_disable_quickplay_maplist'', VBool 0),
   (''query_disable_get_configs'', VBool 0),
   (''g_language'', VStr (Some ''english''))]"

definition LANG_LIST :: "cstring list" where
  "LANG_LIST =
  [''default_room_name'', ''wb_closing'', ''error'', ''error_authentication'', ''error_parse_error'',
   ''error_file_notfound'', ''error_required_option'', ''error_required_cvar'', ''error_create_directory'',
   ''error_loading_file'', ''error_write_file'', ''error_read_file'', ''error_no_channel_type'',
   ''error_no_user'', ''error_user_not_connected'', ''error_no_map'', ''error_command_not_found'',
   ''error_command_usage'', ''error_set_cvar'', ''error_get_info'', ''error_get_master_server'',
   ''error_qos_limit'', ''error_invalid_channel'', ''error_invalid_login'', ''error_invalid_nickname'',
   ''error_duplicate_nickname'', ''error_duplicate_profile'', ''error_invalid_head'', ''error_game_version'',
   ''error_create_profile'', ''error_not_in_a_clan'', ''error_already_in_a_clan'', ''error_already_in_fl'',
   ''error_already_sent'', ''error_friendlist_full'', ''error_send_invitation'', ''error_unknown_mission'',
   ''error_room_started'', ''error_gameroom_setinfo'', ''error_get_account_profiles'',
   ''error_already_logged_in'', ''error_timeout'', ''error_gameroom_open'', ''error_expired_missions'',
   ''error_invalid_mission'', ''error_not_master'', ''error_rank_restricted'', ''error_invalid_room_name'',
   ''error_banned'', ''error_invalid_profile'', ''error_join_channel'', ''error_gameroom_get'',
   ''error_gameroom_askserver'', ''error_not_balanced'', ''error_gameroom_quickplay'',
   ''error_not_rating_season'', ''error_account'', ''error_follow'', ''error_invite'', ''error_leave_room'',
   ''error_join_room'', ''error_clan_create'', ''error_clan_leave'', ''clan_error_no_item'',
   ''clan_error_invalid_name'', ''clan_error_censored_name'', ''clan_error_duplicate_name'',
   ''clan_error_reserved_name'', ''quickplay_canceled'', ''quickplay_no_pending'', ''quickplay_in_progress'',
   ''quickplay_started'', ''quickplay_done'', ''preinvite_rejected'', ''preinvite_accepted'',
   ''preinvite_canceled'', ''preinvite_canceled_by_master'', ''preinvite_expired'', ''invite_rejected'',
   ''invite_pending'', ''invite_autoreject'', ''invite_duplicate_follow'', ''invite_duplicate'',
   ''invite_user_offline'', ''invite_user_not_in_room'', ''invite_not_in_room'', ''invite_expired'',
   ''invite_invalid_target'', ''invite_mission_restricted'', ''invite_rank_restricted'', ''invite_full_room'',
   ''invite_kicked'', ''invite_banned'', ''invite_private_room'', ''invite_not_in_cw'', ''invite_rating'',
   ''invite_restricted_item'', ''invite_accepted'', ''follow_accepted'', ''console_create_profile'',
   ''console_friends'', ''console_friend'', ''console_removed_friend'', ''console_clanmates'',
   ''console_clanmate'', ''console_last_seen'', ''console_missions_time'', ''console_missions_score'',
   ''console_multipliers'', ''console_quickplay_map_required'', ''console_quickplay_nick_required'',
   ''console_randombox_available'', ''console_randombox_invalid_amount'', ''console_randombox_required_amount'',
   ''console_randombox_unknown'', ''console_sponsor'', ''console_sponsor_weapon'', ''console_sponsor_outfit'',
   ''console_sponsor_equipment'', ''console_sponsor_unknown'', ''console_sponsor_should_be'', ''console_stay'',
   ''console_stats_total'', ''shop_error_purshase'', ''shop_error_no_money'', ''shop_error_timeout'',
   ''shop_error_tag'', ''shop_error_no_item'', ''shop_error_limit_reached'', ''shop_error_out_of_store'',
   ''shop_error_restricted'', ''shop_error_not_ready'', ''shop_rb_item'', ''shop_money_left'',
   ''shop_item_permanent'', ''money_game'', ''money_game_short'', ''money_crown'', ''money_crown_short'',
   ''money_cry'', ''money_cry_short'', ''money_key'', ''money_key_short'', ''experience'', ''experience_short'',
   ''sponsor_points'', ''sponsor_points_short'', ''rating_points'', ''nickname'', ''profile_id'', ''rank'',
   ''unlocked_items'', ''total_number_of_items'', ''whisper_last_seen_never'', ''whisper_last_seen_hour'',
   ''whisper_last_seen_day'', ''whisper_last_seen_month'', ''whisper_last_seen_year'', ''whisper_missions_line'',
   ''whisper_whois_unknown'', ''whisper_whois_no_country'', ''whisper_whois_1'', ''whisper_whois_2'',
   ''whisper_whois_3'', ''whisper_leave_1'', ''whisper_leave_2'', ''whisper_leave_3'', ''whisper_leave_4'',
   ''whisper_unready_1'', ''whisper_unready_2'', ''whisper_unready_3'', ''whisper_unready_4'',
   ''whisper_ready_1'', ''whisper_ready_2'', ''whisper_ready_3'', ''whisper_ready_4'', ''whisper_master_1'',
   ''whisper_master_2'', ''whisper_master_3'', ''whisper_master_4'', ''whisper_stay_1'', ''whisper_stay_2'',
   ''whisper_stay_3'', ''whisper_stay_4'', ''whisper_stay_ko_1'', ''whisper_stay_ko_2'', ''whisper_stay_ko_3'',
   ''whisper_stay_ko_4'', ''whisper_unknown_1'', ''whisper_unknown_2'', ''whisper_unknown_3'',
   ''whisper_unknown_4'', ''status_afk'', ''status_tutorial'', ''status_rating'', ''status_playing'',
   ''status_shop'', ''status_inventory'', ''status_room'', ''status_lobby'', ''status_online'',
   ''status_offline'', ''room_leave'', ''room_leave_fail'', ''room_join'', ''room_join_fail'', ''ping_is_over'',
   ''ping_is_alive'', ''ping_stalling'', ''channel'', ''channel_joined'', ''created_profile'',
   ''notif_confirm_expiration'', ''notif_message'', ''notif_custom_message'', ''notif_new_rank'',
   ''notif_unlock_mission'', ''notif_unlock_item'', ''notif_unlocking'', ''notif_unlocking_done'',
   ''notif_money_given'', ''notif_item_given'', ''notif_randombox_given'', ''notif_deleted_item'',
   ''notif_friend_request'', ''notif_friend_request_accepted'', ''notif_friend_request_rejected'',
   ''notif_clan_invite'', ''notif_clan_invite_rejected'', ''notif_clan_invite_failed'', ''notif_clan_joined'',
   ''notif_clan_left'', ''notif_postponed'', ''notif_accepted'', ''notif_rejected'', ''notif_room_invitation'',
   ''notif_room_preinvitation'', ''notif_contract_ended'', ''notif_contract_success'', ''notif_contract_fail'',
   ''update_profile_status'', ''update_rating_points'', ''update_consummable'', ''update_room_master'',
   ''update_mission'', ''update_players'', ''update_auto_start'', ''update_auto_start_canceled'',
   ''gameroom_started'', ''gameroom_leave'', ''gameroom_stay'', ''gameroom_loosemaster'', ''gameroom_autostart'',
   ''gameroom_on_kicked'', ''kick_unknown'', ''kick_no_reason'', ''kick_by_master'', ''kick_inactivity'',
   ''kick_by_vote'', ''kick_rank_too_high'', ''kick_not_in_cw'', ''kick_cheating'', ''kick_game_version'',
   ''kick_no_token'', ''kick_matchmaking'', ''kick_rating_end'', ''help_add'', ''help_channel'', ''help_change'',
   ''help_clan_create'', ''help_clan_invite'', ''help_clan_leave'', ''help_create'', ''help_exec'',
   ''help_friends'', ''help_follow'', ''help_help'', ''help_invite'', ''help_last'', ''help_leave'',
   ''help_master'', ''help_missions'', ''help_name'', ''help_open'', ''help_quickplay'', ''help_quit'',
   ''help_randombox'', ''help_ready'', ''help_remove'', ''help_removeall'', ''help_safe'', ''help_say'',
   ''help_sleep'', ''help_sponsor'', ''help_stats'', ''help_stay'', ''help_start'', ''help_switch'',
   ''help_unready'', ''help_whisper'', ''help_whois'']"

datatype e_cvar_type = CVAR_INT | CVAR_STR | CVAR_BOOL | LANG_STR

fun cvar_type :: "cvar_value \<Rightarrow> e_cvar_type" where
  "cvar_type (VInt _) = CVAR_INT"
| "cvar_type (VStr _) = CVAR_STR"
| "cvar_type (VBool _) = CVAR_BOOL"

definition cvar_assoc :: "(cstring \<times> e_cvar_type) list" where
  "cvar_assoc = map (\<lambda>(n, v). (n, cvar_type v)) CVAR_LIST @ map (\<lambda>n. (n, LANG_STR)) LANG_LIST"

record s_lang_assoc =
  lang_value :: cptr
  lang_is_set :: bool

record settings =
  cvars :: "cstring \<rightharpoonup> cvar_value"
  langs :: "cstring \<rightharpoonup> s_lang_assoc"

definition lang_initial :: "cstring \<rightharpoonup> s_lang_assoc" where
  "lang_initial = map_of (map (\<lambda>n. (n, \<lparr>lang_value = Some (CHR ''@'' # n), lang_is_set = False\<rparr>)) LANG_LIST)"

definition cvar_init :: "settings \<Rightarrow> settings" where
  "cvar_init s = s\<lparr>cvars := map_of CVAR_LIST\<rparr>"

fun free_value :: "cvar_value \<Rightarrow> cvar_value" where
  "free_value (VStr _) = VStr None"
| "free_value v = v"

definition cvar_free :: "settings \<Rightarrow> settings" where
  "cvar_free s =
     s\<lparr>cvars := map_option free_value \<circ> cvars s,
       langs := map_option (\<lambda>a. if lang_is_set a then \<lparr>lang_value = None, lang_is_set = False\<rparr> else a) \<circ> langs s\<rparr>"

definition cvar_get :: "cstring \<Rightarrow> (cstring \<times> e_cvar_type) option" where
  "cvar_get key = find (\<lambda>c. fst c = key) cvar_assoc"

subsection \<open>Assignments\<close>

text \<open>
  \<open>parse_string\<close> strips a pair of double quotes.  When the value is a single double quote, it is
  its own closing quote and the end of the copy is written in front of the buffer.
\<close>

definition parse_string :: "cstring \<Rightarrow> cstring crash" where
  "parse_string value =
     (let t = get_trim value; len = length t in
      if t \<noteq> [] \<and> hd t = CHR 0x22 \<and> last t = CHR 0x22
      then (if len < 2 then None else Some (take (len - 2) (tl t)))
      else Some t)"

definition isxdigit :: "char \<Rightarrow> bool" where
  "isxdigit c = (let n = of_char c :: nat in 48 \<le> n \<and> n \<le> 57 \<or> 65 \<le> n \<and> n \<le> 70 \<or> 97 \<le> n \<and> n \<le> 102)"

definition xdigit_val :: "char \<Rightarrow> nat" where
  "xdigit_val c = (let n = of_char c in if n \<le> 57 then n - 48 else if n \<le> 70 then n - 55 else n - 87)"

fun xdigits_val :: "nat \<Rightarrow> cstring \<Rightarrow> nat" where
  "xdigits_val acc [] = acc"
| "xdigits_val acc (c # cs) = xdigits_val (16 * acc + xdigit_val c) cs"

text \<open>\<open>strtoll\<close> with base 16: blanks, an optional sign, an optional \<open>0x\<close> in front of a digit.\<close>

definition strtoll16 :: "cstring \<Rightarrow> int" where
  "strtoll16 s =
     (let t = dropWhile isspace s;
          neg = (t \<noteq> [] \<and> hd t = CHR ''-'');
          u = (if t \<noteq> [] \<and> (hd t = CHR ''-'' \<or> hd t = CHR ''+'') then tl t else t);
          w = (if (starts_with u ''0x'' \<or> starts_with u ''0X'') \<and> takeWhile isxdigit (drop 2 u) \<noteq> [] then drop 2 u else u);
          v = int (xdigits_val 0 (takeWhile isxdigit w))
      in clamp_int (- (2 ^ 63)) (2 ^ 63 - 1) (if neg then - v else v))"

definition int_value :: "cstring \<Rightarrow> int" where
  "int_value value =
     c_int (if starts_with value ''0x'' \<or> starts_with value ''0X'' then strtoll16 (drop 2 value) else strtoll value)"

definition bool_value :: "cstring \<Rightarrow> int" where
  "bool_value value =
     (if strcasecmp_eq value ''true'' then 1
      else if strcasecmp_eq value ''false'' then 0
      else if strtoll value \<noteq> 0 then 1 else 0)"

definition cvar_set :: "cptr \<Rightarrow> cptr \<Rightarrow> settings \<Rightarrow> (settings \<times> bool) crash" where
  "cvar_set name value s =
     (case name of
        None \<Rightarrow> Some (s, False)
      | Some key \<Rightarrow>
          (case cvar_get key of
             None \<Rightarrow> Some (s, False)
           | Some (n, ty) \<Rightarrow>
               (case value of
                  None \<Rightarrow> Some (s, True)
                | Some v \<Rightarrow>
                    (case ty of
                       CVAR_INT \<Rightarrow> Some (s\<lparr>cvars := (cvars s)(n \<mapsto> VInt (int_value v))\<rparr>, True)
                     | CVAR_BOOL \<Rightarrow> Some (s\<lparr>cvars := (cvars s)(n \<mapsto> VBool (bool_value v))\<rparr>, True)
                     | CVAR_STR \<Rightarrow>
                         do { p \<leftarrow> parse_string v; Some (s\<lparr>cvars := (cvars s)(n \<mapsto> VStr (Some p))\<rparr>, True) }
                     | LANG_STR \<Rightarrow>
                         do { p \<leftarrow> parse_string v;
                              Some (s\<lparr>langs := (langs s)(n \<mapsto> \<lparr>lang_value = Some p, lang_is_set = True\<rparr>)\<rparr>, True) }))))"

subsection \<open>Configuration files\<close>

definition sep :: cstring where
  "sep = ''= '' @ [CHR 0x09]"

text \<open>\<open>getline\<close>: the lines with their newlines; a last line may lack it.\<close>

function file_lines :: "cstring \<Rightarrow> cstring list" where
  "file_lines [] = []"
| "file_lines (c # cs) =
     (let l = takeWhile (\<lambda>x. x \<noteq> CHR 0x0A) (c # cs); r = dropWhile (\<lambda>x. x \<noteq> CHR 0x0A) (c # cs)
      in case r of [] \<Rightarrow> [l] | nl # r' \<Rightarrow> (l @ [nl]) # file_lines r')"
  by pat_completeness auto
termination
proof (relation "measure length", goal_cases)
  case 1
  then show ?case by simp
next
  case (2 c cs l r nl r')
  have "length r \<le> length (c # cs)" unfolding 2(2) by (rule length_dropWhile_le)
  with 2(3) show ?case by simp
qed

datatype e_cvar_parse = CVAR_PARSE_SUCCESS | CVAR_PARSE_NOTFOUND | CVAR_PARSE_ERROR

text \<open>A name and the rest of the line behind the separators; both strings as \<open>strtok_r\<close> leaves them.\<close>

definition split_assignment :: "cstring \<Rightarrow> cptr \<times> cptr" where
  "split_assignment line =
     (let (name, saveptr) = strtok_r line sep; (value, _) = strtok_r saveptr [] in (name, value))"

fun parse_lines :: "cstring list \<Rightarrow> settings \<Rightarrow> (settings \<times> e_cvar_parse) crash" where
  "parse_lines [] s = Some (s, CVAR_PARSE_SUCCESS)"
| "parse_lines (l # ls) s =
     (let line = c_str l in
      if line \<noteq> [] \<and> hd line = CHR ''#'' then parse_lines ls s
      else (case split_assignment line of
              (None, _) \<Rightarrow> Some (s, CVAR_PARSE_ERROR)
            | (Some name, None) \<Rightarrow> parse_lines ls s
            | (Some name, Some value) \<Rightarrow>
                do { (s', ok) \<leftarrow> cvar_set (Some name) (Some (skip_any value sep)) s; parse_lines ls s' }))"

text \<open>The file is its content, or \<open>None\<close> when it cannot be opened.\<close>

definition cvar_parse_file :: "cstring option \<Rightarrow> settings \<Rightarrow> (settings \<times> e_cvar_parse) crash" where
  "cvar_parse_file f s =
     (case f of None \<Rightarrow> Some (s, CVAR_PARSE_NOTFOUND) | Some content \<Rightarrow> parse_lines (file_lines content) s)"

subsection \<open>The command line\<close>

definition define_cvar :: "cstring \<Rightarrow> settings \<Rightarrow> settings crash" where
  "define_cvar define s =
     (case split_assignment define of
        (Some name, Some value) \<Rightarrow>
          do { (s', ok) \<leftarrow> cvar_set (Some name) (Some (skip_any value sep)) s; Some s' }
      | _ \<Rightarrow> Some s)"

text \<open>
  \<open>getopt_long\<close> turns the arguments into a list of option characters with their arguments;
  \<open>files\<close> yields for an argument of \<open>-f\<close> the real path and the content of the file.
\<close>

record options =
  opt_token :: cptr
  opt_online_id :: cptr
  opt_cmdline :: cstring

datatype outcome = Exit_success | Exit_failure | Started options settings

definition add_option :: "char \<Rightarrow> cstring \<Rightarrow> options \<Rightarrow> options" where
  "add_option c a p =
     (if strstr (opt_cmdline p) a = None
      then p\<lparr>opt_cmdline := opt_cmdline p @ '' -'' @ [c] @ '' '' @ [apos] @ a @ [apos]\<rparr> else p)"

definition option_check :: "options \<Rightarrow> settings \<Rightarrow> outcome" where
  "option_check p s =
     (if opt_token p = None then Exit_failure
      else if opt_online_id p = None then Exit_failure
      else if cvars s ''online_server'' = Some (VStr None) then Exit_failure
      else Started p s)"

fun option_loop ::
  "(cstring \<Rightarrow> (cstring \<times> cstring option) option) \<Rightarrow> (char \<times> cstring) list \<Rightarrow> options \<Rightarrow> settings \<Rightarrow> outcome crash" where
  "option_loop files [] p s = Some (option_check p s)"
| "option_loop files ((opt, optarg) # os) p s =
     (if opt = CHR ''d'' then do { s' \<leftarrow> define_cvar optarg s; option_loop files os (add_option opt optarg p) s' }
      else if opt = CHR ''f''
      then (case files optarg of
              None \<Rightarrow> option_loop files os p s
            | Some (path, content) \<Rightarrow>
                do { (s', r) \<leftarrow> cvar_parse_file content s; option_loop files os (add_option opt path p) s' })
      else if opt = CHR ''t'' then option_loop files os (p\<lparr>opt_token := Some optarg\<rparr>) s
      else if opt = CHR ''i'' then option_loop files os (p\<lparr>opt_online_id := Some optarg\<rparr>) s
      else if opt = CHR ''h'' then Some Exit_success
      else Some Exit_failure)"

definition option_parse ::
  "(cstring \<Rightarrow> (cstring \<times> cstring option) option) \<Rightarrow> (char \<times> cstring) list \<Rightarrow> cptr \<Rightarrow> cptr \<Rightarrow> settings \<Rightarrow> outcome crash" where
  "option_parse files os token online_id s =
     option_loop files os \<lparr>opt_token = token, opt_online_id = online_id, opt_cmdline = []\<rparr> s"

subsection \<open>What is stored\<close>

text \<open>The type of a variable, an \<open>int\<close> in 32 bits, a truth value.\<close>

fun value_ok :: "e_cvar_type \<Rightarrow> cvar_value \<Rightarrow> bool" where
  "value_ok CVAR_INT (VInt i) = (- (2 ^ 31) \<le> i \<and> i < 2 ^ 31)"
| "value_ok CVAR_STR (VStr _) = True"
| "value_ok CVAR_BOOL (VBool b) = (b = 0 \<or> b = 1)"
| "value_ok _ _ = False"

definition settings_ok :: "settings \<Rightarrow> bool" where
  "settings_ok s \<longleftrightarrow> list_all (\<lambda>(n, d). case cvars s n of None \<Rightarrow> False | Some v \<Rightarrow> value_ok (cvar_type d) v) CVAR_LIST"

lemma cvar_names_distinct: "distinct (map fst CVAR_LIST)"
  by code_simp

lemma defaults_ok: "list_all (\<lambda>(n, d). value_ok (cvar_type d) d) CVAR_LIST"
  by code_simp

lemma cvar_init_ok: "settings_ok (cvar_init s)"
proof -
  have "map_of CVAR_LIST n = Some d" if "(n, d) \<in> set CVAR_LIST" for n d
    using that cvar_names_distinct by simp
  with defaults_ok show ?thesis by (fastforce simp: settings_ok_def cvar_init_def list_all_iff)
qed

lemma cvar_get_name: "cvar_get key = Some (n, ty) \<Longrightarrow> n = key"
  by (auto simp: cvar_get_def dest: find_holds)

lemma cvar_get_entry: "(n, d) \<in> set CVAR_LIST \<Longrightarrow> cvar_get n = Some (n, cvar_type d)"
proof -
  assume a: "(n, d) \<in> set CVAR_LIST"
  let ?l = "map (\<lambda>(n, v). (n, cvar_type v)) CVAR_LIST"
  have "\<exists>x. find (\<lambda>c. fst c = n) ?l = Some x" using a by (cases "find (\<lambda>c. fst c = n) ?l") (force simp: find_eq_None)+
  then obtain x where x: "find (\<lambda>c. fst c = n) ?l = Some x" by blast
  have "x \<in> set ?l" "fst x = n" using find_in_set [OF x] find_holds [OF x] by auto
  then obtain d' where d': "(n, d') \<in> set CVAR_LIST" "x = (n, cvar_type d')" by auto
  have "d' = d" using a d'(1) cvar_names_distinct by (auto dest: eq_key_imp_eq_value)
  with x d'(2) show ?thesis by (simp add: cvar_get_def cvar_assoc_def find_append)
qed

lemma int_value_range: "- (2 ^ 31) \<le> int_value v \<and> int_value v < 2 ^ 31"
  unfolding int_value_def by (rule c_int_range)

lemma bool_value_range: "bool_value v = 0 \<or> bool_value v = 1"
  by (simp add: bool_value_def)

lemma settings_ok_iff:
  "settings_ok s \<longleftrightarrow> (\<forall>n d. (n, d) \<in> set CVAR_LIST \<longrightarrow> (\<exists>v. cvars s n = Some v \<and> value_ok (cvar_type d) v))"
  by (auto simp: settings_ok_def list_all_iff split: option.splits) fastforce+

lemma assign_ok:
  assumes "settings_ok s" "cvar_get n = Some (n', ty)" "value_ok ty v"
  shows "settings_ok (s\<lparr>cvars := (cvars s)(n' \<mapsto> v)\<rparr>)"
  using assms cvar_get_entry cvar_get_name [OF assms(2)] by (fastforce simp: settings_ok_iff)

lemma lang_ok: "settings_ok (s\<lparr>langs := l\<rparr>) = settings_ok s"
  by (simp add: settings_ok_def)

lemma cvar_set_ok:
  assumes "cvar_set name value s = Some (s', r)" "settings_ok s"
  shows "settings_ok s'"
  using assms int_value_range bool_value_range
  by (auto simp: cvar_set_def bind_eq_Some_conv lang_ok intro!: assign_ok split: option.splits e_cvar_type.splits)

lemma parse_lines_ok: "parse_lines ls s = Some (s', r) \<Longrightarrow> settings_ok s \<Longrightarrow> settings_ok s'"
proof (induction ls arbitrary: s)
  case Nil
  then show ?case by simp
next
  case (Cons l ls)
  then show ?case
    by (fastforce simp: Let_def bind_eq_Some_conv split: if_splits option.splits prod.splits dest: cvar_set_ok)
qed

lemma cvar_parse_file_ok: "cvar_parse_file f s = Some (s', r) \<Longrightarrow> settings_ok s \<Longrightarrow> settings_ok s'"
  by (auto simp: cvar_parse_file_def split: option.splits dest: parse_lines_ok)

lemma define_cvar_ok: "define_cvar a s = Some s' \<Longrightarrow> settings_ok s \<Longrightarrow> settings_ok s'"
  by (auto simp: define_cvar_def bind_eq_Some_conv split: option.splits prod.splits dest: cvar_set_ok)

lemma option_loop_started:
  "option_loop files os p s = Some (Started p' s') \<Longrightarrow> settings_ok s \<Longrightarrow>
     settings_ok s' \<and> option_check p' s' = Started p' s'"
proof (induction files os p s rule: option_loop.induct)
  case (1 files p s)
  then show ?case by (auto simp: option_check_def split: if_splits)
next
  case (2 files opt optarg os p s)
  show ?case
  proof (cases "opt = CHR ''d''")
    case True
    with 2 show ?thesis by (fastforce simp: bind_eq_Some_conv dest: define_cvar_ok)
  next
    case nd: False
    show ?thesis
    proof (cases "opt = CHR ''f''")
      case True
      with 2 show ?thesis by (fastforce simp: bind_eq_Some_conv split: option.splits dest: cvar_parse_file_ok)
    next
      case False
      with 2 nd show ?thesis by (auto split: if_splits)
    qed
  qed
qed

subsection \<open>Writing a configuration file and reading it\<close>

fun value_text :: "cvar_value \<Rightarrow> cstring" where
  "value_text (VInt i) = int_dec i"
| "value_text (VBool b) = int_dec b"
| "value_text (VStr p) = CHR 0x22 # show_ptr p @ [CHR 0x22]"

definition config_line :: "cstring \<times> cvar_value \<Rightarrow> cstring" where
  "config_line nv = fst nv @ '' = '' @ value_text (snd nv) @ [CHR 0x0A]"

fun text_ok :: "cvar_value \<Rightarrow> bool" where
  "text_ok (VStr None) = False"
| "text_ok (VStr (Some t)) = (NUL \<notin> set t \<and> CHR 0x0A \<notin> set t)"
| "text_ok _ = True"

definition storable :: "cstring \<times> cvar_value \<Rightarrow> bool" where
  "storable nv \<longleftrightarrow> list_ex (\<lambda>(n, d). n = fst nv \<and> value_ok (cvar_type d) (snd nv)) CVAR_LIST \<and> text_ok (snd nv)"

definition name_chars :: "cstring \<Rightarrow> bool" where
  "name_chars n \<longleftrightarrow> n \<noteq> [] \<and> list_all (\<lambda>c. c \<notin> set (NUL # CHR 0x0A # CHR ''#'' # sep)) n"

lemma cvar_names_plain: "list_all (\<lambda>(n, d). name_chars n) CVAR_LIST"
  by code_simp

lemma file_lines_line: "CHR 0x0A \<notin> set l \<Longrightarrow> file_lines (l @ CHR 0x0A # r) = (l @ [CHR 0x0A]) # file_lines r"
  by (cases l) (auto simp: takeWhile_append dropWhile_append Let_def)

lemma split_line:
  assumes "name_chars n" "v \<noteq> []" "hd v \<notin> set sep"
  shows "split_assignment (n @ '' = '' @ v) = (Some n, Some (''= '' @ v))" "skip_any (''= '' @ v) sep = v"
proof -
  obtain c cs where n: "n = c # cs" using assms(1) by (cases n) (auto simp: name_chars_def)
  have nn: "\<forall>x \<in> set n. x \<notin> set sep" using assms(1) by (auto simp: name_chars_def list_all_iff)
  have "skip_any (n @ '' = '' @ v) sep = n @ '' = '' @ v" using nn n by (simp add: skip_any_def)
  moreover have "takeWhile (\<lambda>c. c \<notin> set sep) (n @ '' = '' @ v) = n"
    using nn by (induction n) (auto simp: sep_def)
  moreover have "dropWhile (\<lambda>c. c \<notin> set sep) (n @ '' = '' @ v) = '' = '' @ v"
    using nn by (induction n) (auto simp: sep_def)
  ultimately have "strtok_r (n @ '' = '' @ v) sep = (Some n, ''= '' @ v)" using n by (simp add: strtok_r_def)
  then show "split_assignment (n @ '' = '' @ v) = (Some n, Some (''= '' @ v))"
    by (simp add: split_assignment_def strtok_r_def skip_any_def)
  show "skip_any (''= '' @ v) sep = v" using assms(2,3) by (cases v) (auto simp: skip_any_def sep_def)
qed

lemma trim_end_append: "t \<noteq> [] \<Longrightarrow> \<not> isspace (last t) \<Longrightarrow> \<forall>c \<in> set w. isspace c \<Longrightarrow> k \<le> length w \<Longrightarrow>
    trim_end (t @ w) (length t + k) = length t"
proof (induction k)
  case 0
  then show ?case by (cases "length t") (auto simp: nth_append last_conv_nth)
next
  case (Suc k)
  then show ?case by (simp add: nth_append)
qed

lemma get_trim_tail:
  assumes "t \<noteq> []" "\<not> isspace (hd t)" "\<not> isspace (last t)" "\<forall>c \<in> set w. isspace c"
  shows "get_trim (t @ w) = t"
  using trim_end_append [OF assms(1,3,4) order_refl] assms(1,2)
  by (cases t) (simp_all add: get_trim_def Let_def)

lemma parse_string_quoted: "parse_string (CHR 0x22 # t @ CHR 0x22 # [CHR 0x0A]) = Some t"
proof -
  have "get_trim ((CHR 0x22 # t @ [CHR 0x22]) @ [CHR 0x0A]) = CHR 0x22 # t @ [CHR 0x22]"
    by (rule get_trim_tail) (auto simp: isspace_def)
  then show ?thesis by (simp add: parse_string_def Let_def)
qed

lemma int_dec_head: "\<exists>c cs. int_dec i = c # cs \<and> (c = CHR ''-'' \<or> isdigit c)"
  using int_dec_chars [of _ i] by (cases "int_dec i") (auto simp: int_dec_def split: if_splits)

lemma starts_with_chars: "starts_with s p \<Longrightarrow> c \<in> set p \<Longrightarrow> c \<in> set s"
  by (auto simp: starts_with_iff)

lemma int_dec_no_x: "\<not> starts_with (int_dec i @ [CHR 0x0A]) ''0x''" "\<not> starts_with (int_dec i @ [CHR 0x0A]) ''0X''"
  using starts_with_chars [of "int_dec i @ [CHR 0x0A]" "''0x''" "CHR ''x''"]
    starts_with_chars [of "int_dec i @ [CHR 0x0A]" "''0X''" "CHR ''X''"]
    int_dec_chars [of "CHR ''x''" i] int_dec_chars [of "CHR ''X''" i]
  by (auto simp: isdigit_def)

lemma int_value_text: "- (2 ^ 31) \<le> i \<Longrightarrow> i < 2 ^ 31 \<Longrightarrow> int_value (int_dec i @ [CHR 0x0A]) = i"
  using strtoll_int_dec [of "[CHR 0x0A]" i] int_dec_no_x [of i]
  by (simp add: int_value_def isdigit_def c_int_id)

lemma bool_value_text: "b = 0 \<or> b = 1 \<Longrightarrow> bool_value (int_dec b @ [CHR 0x0A]) = b"
  by (elim disjE) (hypsubst, code_simp)+

lemma set_stored:
  assumes "storable (n, v)"
  shows "cvar_set (Some n) (Some (value_text v @ [CHR 0x0A])) s = Some (s\<lparr>cvars := (cvars s)(n \<mapsto> v)\<rparr>, True)"
proof -
  obtain d where d: "(n, d) \<in> set CVAR_LIST" "value_ok (cvar_type d) v"
    using assms by (auto simp: storable_def list_ex_iff)
  from cvar_get_entry [OF d(1)] d(2) assms show ?thesis
    by (cases v; cases "cvar_type d")
       (auto simp: cvar_set_def int_value_text bool_value_text parse_string_quoted show_ptr_def storable_def split: option.splits)
qed

lemma value_text_head: "value_text v \<noteq> [] \<and> hd (value_text v) \<notin> set sep"
proof (cases v)
  case (VInt i)
  then show ?thesis using int_dec_head [of i] by (auto simp: sep_def isdigit_def)
next
  case (VBool i)
  then show ?thesis using int_dec_head [of i] by (auto simp: sep_def isdigit_def)
qed (simp add: sep_def)

lemma value_text_chars:
  assumes "text_ok v" "c = NUL \<or> c = CHR 0x0A"
  shows "c \<notin> set (value_text v)"
proof -
  have "c \<notin> set (int_dec i)" for i using int_dec_chars [of c i] assms(2) by (auto simp: isdigit_def)
  then show ?thesis using assms by (cases v rule: text_ok.cases) (auto simp: show_ptr_def)
qed

lemma read_line:
  assumes "storable nv"
  shows "parse_lines (file_lines (config_line nv @ r)) s
     = parse_lines (file_lines r) (s\<lparr>cvars := (cvars s)(fst nv \<mapsto> snd nv)\<rparr>)"
proof -
  obtain n v where nv: "nv = (n, v)" by (cases nv)
  have n: "name_chars n" and t: "text_ok v"
    using assms cvar_names_plain by (auto simp: nv storable_def list_all_iff list_ex_iff)
  let ?l = "n @ '' = '' @ value_text v"
  have plain: "\<forall>c \<in> set n. c \<noteq> NUL \<and> c \<noteq> CHR 0x0A \<and> c \<noteq> CHR ''#''" using n by (auto simp: name_chars_def list_all_iff)
  have free: "NUL \<notin> set (?l @ [CHR 0x0A])" "CHR 0x0A \<notin> set ?l" using plain value_text_chars [OF t] by auto
  have h: "hd (?l @ [CHR 0x0A]) \<noteq> CHR ''#''" using plain n by (cases n) (auto simp: name_chars_def)
  have sp: "split_assignment (?l @ [CHR 0x0A]) = (Some n, Some (''= '' @ value_text v @ [CHR 0x0A]))"
    "skip_any (''= '' @ value_text v @ [CHR 0x0A]) sep = value_text v @ [CHR 0x0A]"
    using split_line [OF n, of "value_text v @ [CHR 0x0A]"] value_text_head [of v] by auto
  have "file_lines (config_line nv @ r) = (?l @ [CHR 0x0A]) # file_lines r"
    using file_lines_line [OF free(2), of r] by (simp add: nv config_line_def)
  moreover have "parse_lines ((?l @ [CHR 0x0A]) # ls) s = parse_lines ls (s\<lparr>cvars := (cvars s)(n \<mapsto> v)\<rparr>)" for ls
    unfolding parse_lines.simps Let_def c_str_id [OF free(1)] sp option.case prod.case
    using h sp(2) set_stored [of n v s] assms by (simp add: nv del: fun_upd_apply)
  ultimately show ?thesis by (simp add: nv del: fun_upd_apply)
qed

text \<open>C24: a configuration file written variable by variable, with strings in double quotes, is read back: every
  variable in it gets its value, the last assignment wins, and all other variables keep theirs.\<close>

theorem config_roundtrip:
  assumes "list_all storable kvs"
  shows "cvar_parse_file (Some (concat (map config_line kvs))) s
     = Some (s\<lparr>cvars := cvars s ++ map_of (rev kvs)\<rparr>, CVAR_PARSE_SUCCESS)"
  using assms
proof (induction kvs arbitrary: s)
  case Nil
  then show ?case by (simp add: cvar_parse_file_def)
next
  case (Cons kv kvs)
  have "cvars s ++ map_of (rev (kv # kvs)) = (cvars s)(fst kv \<mapsto> snd kv) ++ map_of (rev kvs)"
    by (cases kv) (auto simp: map_add_def fun_eq_iff split: option.splits)
  with Cons read_line [of kv "concat (map config_line kvs)" s] show ?case
    by (simp add: cvar_parse_file_def del: fun_upd_apply)
qed

definition sample_config :: "(cstring \<times> cvar_value) list" where
  "sample_config = [(''online_server'', VStr (Some ''s0.example # 1'')), (''online_server_port'', VInt (- 5)), (''wb_auto_afk'', VBool 1)]"

theorem config_roundtrip_witness:
  "list_all storable sample_config
   \<and> cvar_parse_file (Some (concat (map config_line sample_config))) (cvar_init \<lparr>cvars = Map.empty, langs = lang_initial\<rparr>)
     = Some (cvar_init \<lparr>cvars = Map.empty, langs = lang_initial\<rparr>
         \<lparr>cvars := map_of CVAR_LIST ++ map_of (rev sample_config)\<rparr>, CVAR_PARSE_SUCCESS)"
proof -
  have "list_all storable sample_config" by code_simp
  from this config_roundtrip [OF this, of "cvar_init \<lparr>cvars = Map.empty, langs = lang_initial\<rparr>"] show ?thesis
    by (simp add: cvar_init_def)
qed

text \<open>C30: whatever the configuration files and the command line contain, the program starts only with a token, an
  identifier and a server, and then every variable holds a value of its type: an integer of 32 bits, a truth value
  0 or 1, a string.\<close>

theorem started_settings:
  assumes "cvar_parse_file cfg (cvar_init s0) = Some (s1, r1)" "cvar_parse_file lang s1 = Some (s2, r2)"
    "option_parse files os None None s2 = Some (Started p s)"
  shows "opt_token p \<noteq> None \<and> opt_online_id p \<noteq> None \<and> cvars s ''online_server'' \<noteq> Some (VStr None)
     \<and> list_all (\<lambda>(n, d). case cvars s n of None \<Rightarrow> False | Some v \<Rightarrow> value_ok (cvar_type d) v) CVAR_LIST"
proof -
  have "settings_ok s2" using assms(1,2) cvar_init_ok cvar_parse_file_ok by blast
  from option_loop_started [OF assms(3) [unfolded option_parse_def] this] show ?thesis
    by (auto simp: settings_ok_def option_check_def split: if_splits)
qed

definition demo_settings :: settings where
  "demo_settings = cvar_init \<lparr>cvars = Map.empty, langs = lang_initial\<rparr>"

theorem started_settings_witness:
  "\<exists>p s. option_parse (\<lambda>_. None) [(CHR ''t'', ''abc''), (CHR ''i'', ''42''), (CHR ''d'', ''online_server=s0'')] None None demo_settings
       = Some (Started p s)
     \<and> opt_token p \<noteq> None \<and> cvars s ''online_server'' \<noteq> Some (VStr None)"
proof -
  have d: "define_cvar ''online_server=s0'' demo_settings
      = Some (demo_settings\<lparr>cvars := (cvars demo_settings)(''online_server'' \<mapsto> VStr (Some ''s0''))\<rparr>)"
  proof -
    have "cvar_get ''online_server'' = Some (''online_server'', CVAR_STR)" "parse_string ''s0'' = Some ''s0''"
      "split_assignment ''online_server=s0'' = (Some ''online_server'', Some ''s0'')" "skip_any ''s0'' sep = ''s0''"
      by code_simp+
    then show ?thesis by (simp add: define_cvar_def cvar_set_def)
  qed
  obtain p s where r: "option_parse (\<lambda>_. None) [(CHR ''t'', ''abc''), (CHR ''i'', ''42''), (CHR ''d'', ''online_server=s0'')] None None
      demo_settings = Some (Started p s)"
    by (simp add: option_parse_def d add_option_def option_check_def)
  have f: "cvar_parse_file None s' = Some (s', CVAR_PARSE_NOTFOUND)" for s' by (simp add: cvar_parse_file_def)
  from started_settings [OF f [of "demo_settings", unfolded demo_settings_def] f r [unfolded demo_settings_def]] r show ?thesis
    by blast
qed

text \<open>a value that is a single double quote is taken as quoted: the program writes in front of the buffer.\<close>

theorem lone_quote_crashes:
  "cvar_set (Some ''online_server'') (Some [CHR 0x22]) s = None
   \<and> cvar_parse_file (Some (''online_server = '' @ [CHR 0x22, CHR 0x0A])) s = None"
proof -
  have g: "cvar_get ''online_server'' = Some (''online_server'', CVAR_STR)" by code_simp
  have p: "parse_string [CHR 0x22] = None" "parse_string [CHR 0x22, CHR 0x0A] = None" by code_simp+
  have l: "file_lines (''online_server = '' @ [CHR 0x22, CHR 0x0A]) = [''online_server = '' @ [CHR 0x22, CHR 0x0A]]"
    "c_str (''online_server = '' @ [CHR 0x22, CHR 0x0A]) = ''online_server = '' @ [CHR 0x22, CHR 0x0A]"
    "split_assignment (''online_server = '' @ [CHR 0x22, CHR 0x0A]) = (Some ''online_server'', Some (''= '' @ [CHR 0x22, CHR 0x0A]))"
    "skip_any (''= '' @ [CHR 0x22, CHR 0x0A]) sep = [CHR 0x22, CHR 0x0A]" by code_simp+
  have c: "cvar_set (Some ''online_server'') (Some [CHR 0x22]) s = None"
    "cvar_set (Some ''online_server'') (Some [CHR 0x22, CHR 0x0A]) s = None"
    by (simp_all add: cvar_set_def g p)
  show ?thesis unfolding cvar_parse_file_def option.case l parse_lines.simps Let_def using c l by (simp add: g)
qed

end
