(* ===== verification/Console.thy ===== *)
theory Console imports Whispers Settings
begin

text \<open>
  What the user types (\<open>src/threads/thread_readline.c\<close>, \<open>include/wb_cmd.h\<close>, \<open>src/cmd/complete.c\<close>,
  \<open>src/cmd/cmd_exec.c\<close>): the table of commands and variables, how a line is cut into arguments, and the
  loop that runs the lines.  A pointer into the copy of the line is the text from there on together with
  the text in front of it, last character first, since \<open>trim_end\<close> goes backwards.

  The program is the one built without \<open>DBUS_API\<close>.
\<close>

subsection \<open>The table\<close>

text \<open>How many arguments a command takes, and at least.\<close>

datatype cmd_parser = X0 | X1 nat | X2 nat | Cvar

definition XARGS :: "nat \<Rightarrow> nat" where "XARGS arg2 = 1 + arg2"
definition XARG1 :: nat where "XARG1 = 1"
definition XARGN :: nat where "XARGN = 1"
definition XOPT :: "nat \<Rightarrow> nat" where "XOPT arg1 = 0"

definition CMD_LIST_CONSOLE :: "(cstring \<times> cmd_parser) list" where
  "CMD_LIST_CONSOLE =
     [(''add'', X1 XARG1), (''channel'', X1 XARG1), (''change'', X1 XARG1), (''clan_create'', X2 (XARGS XARG1)), (''clan_leave'', X0),
      (''clan_invite'', X1 XARG1), (''create'', X1 XARG1), (''exec'', X1 XARG1), (''friends'', X0), (''follow'', X1 XARG1), (''help'', X0),
      (''removeall'', X0), (''invite'', X1 XARG1), (''last'', X1 XARG1), (''leave'', X0), (''master'', X1 XARG1), (''missions'', X0),
      (''name'', X1 XARG1), (''open'', X1 XARG1), (''quickplay'', X2 (XARGS (XOPT XARG1))), (''quit'', X0),
      (''randombox'', X2 (XOPT (XARGS XARG1))), (''ready'', X1 (XOPT XARG1)), (''remove'', X1 XARG1), (''safe'', X1 XARG1), (''say'', X1 XARGN),
      (''sleep'', X1 (XOPT XARG1)), (''sponsor'', X1 XARG1), (''stats'', X0), (''stay'', X2 (XOPT (XARGS (XOPT XARG1)))), (''start'', X0),
      (''switch'', X0), (''unready'', X0), (''whisper'', X2 (XARGS XARGN)), (''whois'', X1 XARG1)]"

text \<open>\<open>thread_readline_init\<close>; \<open>list_add\<close> puts the newest first.\<close>

definition cmd_list :: "(cstring \<times> cmd_parser) list" where
  "cmd_list = rev (map (\<lambda>c. (fst c, Cvar)) CVAR_LIST) @ rev CMD_LIST_CONSOLE"

subsection \<open>Cutting the line\<close>

definition blanks :: cstring where
  "blanks = '' '' @ [CHR 0x09]"

text \<open>\<open>strspn\<close>: the pointer moves over the characters.\<close>

definition skip_over :: "cstring \<Rightarrow> cstring \<times> cstring \<Rightarrow> cstring \<times> cstring" where
  "skip_over set_of = (\<lambda>(before, s). (rev (takeWhile (\<lambda>c. c \<in> set set_of) s) @ before, dropWhile (\<lambda>c. c \<in> set set_of) s))"

text \<open>\<open>None\<close> when the loop runs over the start of the copy.\<close>

definition trim_end_inplace :: "cstring \<times> cstring \<Rightarrow> cstring crash" where
  "trim_end_inplace = (\<lambda>(before, s).
     if dropWhile isspace (rev s @ before) = [] then None else Some (rev (dropWhile isspace (rev s))))"

text \<open>\<open>strtok_r\<close> on a pointer: the token with what is in front of it, and the pointer behind its end, where the
  delimiter was overwritten.\<close>

definition cut_token :: "cstring \<times> cstring \<Rightarrow> cstring \<Rightarrow> (cstring \<times> cstring) option \<times> (cstring \<times> cstring)" where
  "cut_token = (\<lambda>(before, s) d.
     (let (b, t) = skip_over d (before, s);
          tok = takeWhile (\<lambda>c. c \<notin> set d) t;
          r = dropWhile (\<lambda>c. c \<notin> set d) t
      in if t = [] then (None, (b, []))
         else (Some (b, tok), (if r = [] then (rev tok @ b, []) else (NUL # rev tok @ b, tl r)))))"

definition cmd_1arg :: "(cstring \<times> cstring) option \<Rightarrow> cptr crash" where
  "cmd_1arg cmdline =
     (case cmdline of
        None \<Rightarrow> Some None
      | Some p \<Rightarrow>
          (case fst (cut_token p []) of
             None \<Rightarrow> Some None
           | Some a \<Rightarrow> do { t \<leftarrow> trim_end_inplace (skip_over '' '' a); Some (Some t) }))"

definition cmd_2args :: "(cstring \<times> cstring) option \<Rightarrow> (cptr \<times> cptr) crash" where
  "cmd_2args cmdline =
     (case cmdline of
        None \<Rightarrow> Some (None, None)
      | Some p \<Rightarrow>
          (let (arg1, saveptr) = cut_token p '' '';
               arg2 = fst (cut_token saveptr []);
               a1 = (case arg1 of None \<Rightarrow> None | Some a \<Rightarrow> Some (snd (skip_over '' '' a)))
           in case arg2 of
                None \<Rightarrow> Some (a1, None)
              | Some a \<Rightarrow> do { t \<leftarrow> trim_end_inplace (skip_over '' '' a); Some (a1, Some t) }))"

text \<open>What a line asks for.\<close>

datatype request =
    Nothing
  | Raw cstring
  | Run cstring cptr cptr
  | Usage cstring
  | Set_cvar cstring "(cstring \<times> cstring) option"
  | Not_found cstring

definition run_parser :: "cstring \<times> cmd_parser \<Rightarrow> (cstring \<times> cstring) option \<Rightarrow> request crash" where
  "run_parser c line =
     (case snd c of
        X0 \<Rightarrow> Some (Run (fst c) None None)
      | X1 least \<Rightarrow>
          do {
            a0 \<leftarrow> cmd_1arg line;
            let count = (if a0 \<noteq> None then 1 else (0 :: nat));
            Some (if 1 \<le> count then Run (fst c) a0 None
                  else if count = 0 \<and> least = 0 then Run (fst c) None None
                  else Usage (fst c))
          }
      | X2 least \<Rightarrow>
          do {
            (a0, a1) \<leftarrow> cmd_2args line;
            let count = (if a0 \<noteq> None then 1 else 0) + (if a1 \<noteq> None then 1 else (0 :: nat));
            Some (if 2 \<le> count then Run (fst c) a0 a1
                  else if count = 1 \<and> least \<le> 1 then Run (fst c) a0 None
                  else if count = 0 \<and> least = 0 then Run (fst c) None None
                  else Usage (fst c))
          }
      | Cvar \<Rightarrow> Some (Set_cvar (fst c) line))"

definition parse_cmd :: "cstring \<Rightarrow> request crash" where
  "parse_cmd line =
     (if starts_with line ''<'' then Some (Raw line)
      else (let (cmd, saveptr) = cut_token ([], line) blanks;
                args = map_option (skip_over blanks) (fst (cut_token saveptr []))
            in case cmd of
                 None \<Rightarrow> Some Nothing
               | Some (_, name) \<Rightarrow>
                   (case find (\<lambda>c. fst c = name) cmd_list of
                      None \<Rightarrow> Some (Not_found name)
                    | Some c \<Rightarrow> run_parser c args)))"

subsection \<open>Running a line\<close>

text \<open>The session, the variables, the table of random boxes, and whether \<open>session.state\<close> is \<open>STATE_DEAD\<close>.\<close>

record console =
  cn_session :: csession
  cn_settings :: settings
  cn_boxes :: shop_state
  cn_dead :: bool

text \<open>\<open>struct cvar\<close> is one variable: the session uses some of its fields, and writes \<open>wb_safemaster\<close> itself.\<close>

definition switch_of :: "settings \<Rightarrow> cstring \<Rightarrow> bool" where
  "switch_of st name = (case cvars st name of Some (VBool b) \<Rightarrow> b \<noteq> 0 | _ \<Rightarrow> False)"

definition number_of :: "settings \<Rightarrow> cstring \<Rightarrow> int" where
  "number_of st name = (case cvars st name of Some (VInt i) \<Rightarrow> i | _ \<Rightarrow> 0)"

definition string_of :: "settings \<Rightarrow> cstring \<Rightarrow> cptr" where
  "string_of st name = (case cvars st name of Some (VStr p) \<Rightarrow> p | _ \<Rightarrow> None)"

definition cvars_of :: "settings \<Rightarrow> cvars" where
  "cvars_of st =
     \<lparr>wb_qp_search_started = switch_of st ''wb_qp_search_started'',
      wb_qp_search_non_started = switch_of st ''wb_qp_search_non_started'',
      wb_safemaster = switch_of st ''wb_safemaster'',
      wb_leave_on_start = switch_of st ''wb_leave_on_start'',
      wb_accept_room_invitations = switch_of st ''wb_accept_room_invitations'',
      wb_postpone_room_invitations = switch_of st ''wb_postpone_room_invitations'',
      wb_accept_room_follows = switch_of st ''wb_accept_room_follows'',
      wb_accept_friend_requests = switch_of st ''wb_accept_friend_requests'',
      wb_postpone_friend_requests = switch_of st ''wb_postpone_friend_requests'',
      wb_accept_clan_invites = switch_of st ''wb_accept_clan_invites'',
      wb_postpone_clan_invites = switch_of st ''wb_postpone_clan_invites'',
      wb_join_global_rooms = switch_of st ''wb_join_global_rooms'',
      game_version = string_of st ''game_version'',
      game_hwid = number_of st ''game_hwid'',
      online_region_id = string_of st ''online_region_id'',
      game_manual_profile_creation = switch_of st ''game_manual_profile_creation'',
      online_pvp_rank = number_of st ''online_pvp_rank'',
      online_channel_type = string_of st ''online_channel_type'',
      wb_enable_whisper_commands = switch_of st ''wb_enable_whisper_commands'',
      wb_enable_invite = switch_of st ''wb_enable_invite'',
      wb_auto_start = switch_of st ''wb_auto_start'',
      wb_auto_afk = switch_of st ''wb_auto_afk'',
      wb_ping_unit = number_of st ''wb_ping_unit'',
      wb_ping_count_is_afk = number_of st ''wb_ping_count_is_afk'',
      wb_ping_count_is_stall = number_of st ''wb_ping_count_is_stall'',
      wb_ping_count_is_over = number_of st ''wb_ping_count_is_over'',
      wb_ping_count_is_outdated = number_of st ''wb_ping_count_is_outdated'',
      query_disable_items = switch_of st ''query_disable_items'',
      query_disable_shop_get_offers = switch_of st ''query_disable_shop_get_offers'',
      query_disable_quickplay_maplist = switch_of st ''query_disable_quickplay_maplist'',
      query_disable_get_configs = switch_of st ''query_disable_get_configs'',
      wb_safemaster_room_name = string_of st ''wb_safemaster_room_name'',
      wb_safemaster_channel = string_of st ''wb_safemaster_channel''\<rparr>"

definition shared :: "console \<Rightarrow> settings" where
  "shared c = (let st = cn_settings c in
     st\<lparr>cvars := (cvars st)(''wb_safemaster'' \<mapsto> VBool (if wb_safemaster (cvar (cn_session c)) then 1 else 0))\<rparr>)"

definition share :: "settings \<Rightarrow> console \<Rightarrow> console" where
  "share st c = c\<lparr>cn_settings := st, cn_session := (cn_session c)\<lparr>cvar := cvars_of st\<rparr>\<rparr>"

text \<open>\<open>cvar_parse\<close>; the pointer is the line behind the name.\<close>

definition cvar_parse :: "cstring \<Rightarrow> (cstring \<times> cstring) option \<Rightarrow> console \<Rightarrow> (console \<times> bool) crash" where
  "cvar_parse name line c =
     do {
       (st, ok) \<leftarrow> cvar_set (Some name) (map_option (\<lambda>p. snd (skip_over (blanks @ ''='') p)) line) (shared c);
       Some (share st c, ok)
     }"

text \<open>Only printed: the lists must exist.\<close>

definition cmd_friends :: "csession \<Rightarrow> csession crash" where
  "cmd_friends s = do { fs \<leftarrow> deref (pr_friends (profile s)); cs \<leftarrow> deref (cl_mates (profile s)); Some s }"

definition cmd_sleep :: "u32 \<Rightarrow> csession \<Rightarrow> csession crash" where
  "cmd_sleep delay s = Some (s\<lparr>now := now s + uint delay\<rparr>)"

definition cmd_sleep_wrapper :: "cptr \<Rightarrow> csession \<Rightarrow> csession crash" where
  "cmd_sleep_wrapper delay_str s = (case delay_str of Some d \<Rightarrow> cmd_sleep (c_uint (strtoll d)) s | None \<Rightarrow> cmd_sleep 1 s)"

text \<open>The commands that work on the session, by the names of their wrappers.\<close>

definition run_wrapper :: "world \<Rightarrow> cstring \<Rightarrow> cptr \<Rightarrow> cptr \<Rightarrow> csession \<Rightarrow> csession crash" where
  "run_wrapper w name a0 a1 s =
     (if name = ''add'' then cmd_add a0 s
      else if name = ''channel'' then cmd_channel a0 s
      else if name = ''change'' then cmd_change a0 s
      else if name = ''clan_create'' then cmd_clan_create a0 a1 s
      else if name = ''clan_leave'' then cmd_clan_leave s
      else if name = ''clan_invite'' then cmd_clan_invite a0 s
      else if name = ''create'' then cmd_create w a0 s
      else if name = ''friends'' then cmd_friends s
      else if name = ''follow'' then cmd_follow w a0 s
      else if name = ''removeall'' then cmd_removeall s
      else if name = ''invite'' then cmd_invite w a0 s
      else if name = ''last'' then cmd_last w a0 Console s
      else if name = ''leave'' then cmd_leave s
      else if name = ''master'' then cmd_master w a0 s
      else if name = ''missions'' then cmd_missions w Console s
      else if name = ''name'' then cmd_name w a0 s
      else if name = ''open'' then cmd_open w a0 s
      else if name = ''quickplay'' then cmd_quickplay w a0 a1 s
      else if name = ''ready'' then cmd_ready a0 s
      else if name = ''remove'' then cmd_remove a0 s
      else if name = ''safe'' then cmd_safe a0 s
      else if name = ''say'' then cmd_say w a0 s
      else if name = ''sleep'' then cmd_sleep_wrapper a0 s
      else if name = ''sponsor'' then cmd_sponsor_wrapper a0 s
      else if name = ''stats'' then cmd_stats s
      else if name = ''stay'' then cmd_stay_wrapper a0 a1 s
      else if name = ''start'' then cmd_start s
      else if name = ''switch'' then cmd_switch s
      else if name = ''unready'' then cmd_unready s
      else if name = ''whisper'' then cmd_whisper w a0 a1 s
      else if name = ''whois'' then cmd_whois w a0 Console s
      else Some s)"

text \<open>The lines of a file, each without the blanks around it, run like typed ones.  \<open>exec\<close> runs them.\<close>

definition cmd_exec :: "(cstring \<Rightarrow> cstring option) \<Rightarrow> (cstring list \<Rightarrow> console \<Rightarrow> console crash) \<Rightarrow> cptr \<Rightarrow> console \<Rightarrow> console crash" where
  "cmd_exec files exec file_name c =
     (case file_name of
        None \<Rightarrow> Some c
      | Some f \<Rightarrow> (case files f of None \<Rightarrow> Some c | Some content \<Rightarrow> exec (map (\<lambda>l. get_trim (c_str l)) (file_lines content)) c))"

definition run_request ::
  "world \<Rightarrow> (cstring \<Rightarrow> cstring option) \<Rightarrow> (cstring list \<Rightarrow> console \<Rightarrow> console crash) \<Rightarrow> request \<Rightarrow> console \<Rightarrow> console crash" where
  "run_request w files exec r c =
     (case r of
        Raw line \<Rightarrow> Some (c\<lparr>cn_session := emit (Send_text line) (cn_session c)\<rparr>)
      | Set_cvar name line \<Rightarrow> map_option fst (cvar_parse name line c)
      | Run name a0 a1 \<Rightarrow>
          if name = ''exec'' then cmd_exec files exec a0 c
          else if name = ''quit'' then Some (c\<lparr>cn_dead := True\<rparr>)
          else if name = ''randombox''
          then do {
                 (boxes, s) \<leftarrow> cmd_randombox_wrapper Cmd_randombox a0 a1 (cn_boxes c) (cn_session c);
                 Some (c\<lparr>cn_boxes := boxes, cn_session := s\<rparr>)
               }
          else map_option (\<lambda>s. c\<lparr>cn_session := s\<rparr>) (run_wrapper w name a0 a1 (cn_session c))
      | _ \<Rightarrow> Some c)"

text \<open>\<open>n\<close> is how many files the stack holds that execute each other.\<close>

primrec run_line :: "world \<Rightarrow> (cstring \<Rightarrow> cstring option) \<Rightarrow> nat \<Rightarrow> cstring \<Rightarrow> console \<Rightarrow> console crash" where
  "run_line w files 0 line c = do { r \<leftarrow> parse_cmd line; run_request w files (\<lambda>ls c. None) r c }"
| "run_line w files (Suc n) line c = do { r \<leftarrow> parse_cmd line; run_request w files (each (run_line w files n)) r c }"

text \<open>The loop of the prompt, on the lines that are typed until the end of the input.  Lines of one character are
  skipped.\<close>

fun thread_readline :: "world \<Rightarrow> (cstring \<Rightarrow> cstring option) \<Rightarrow> nat \<Rightarrow> cstring list \<Rightarrow> console \<Rightarrow> console crash" where
  "thread_readline w files n [] c = Some (c\<lparr>cn_dead := True\<rparr>)"
| "thread_readline w files n (l # ls) c =
     (if cn_dead c then Some c
      else do {
             c1 \<leftarrow> (if 2 \<le> length l then run_line w files n l c else Some c);
             thread_readline w files n ls c1
           })"

subsection \<open>Completion\<close>

definition add_name :: "cstring \<Rightarrow> cstring list \<Rightarrow> cstring list" where
  "add_name nickname l = (if nickname \<in> set l then l else nickname # l)"

definition complete_gameroom_players :: "csession \<Rightarrow> cstring list \<Rightarrow> cstring list crash" where
  "complete_gameroom_players s l =
     (case co_players (gm_core (gi_sync (groom s))) of
        None \<Rightarrow> Some l
      | Some ps \<Rightarrow> each (\<lambda>p l. do { n \<leftarrow> deref (pl_nickname p); Some (add_name n l) }) ps l)"

definition complete_friends :: "csession \<Rightarrow> cstring list \<Rightarrow> cstring list crash" where
  "complete_friends s l =
     (case pr_friends (profile s) of None \<Rightarrow> Some l | Some fs \<Rightarrow> each (\<lambda>f l. Some (add_name (fr_nickname f) l)) fs l)"

definition complete_clanmates :: "csession \<Rightarrow> cstring list \<Rightarrow> cstring list crash" where
  "complete_clanmates s l =
     (case cl_mates (profile s) of None \<Rightarrow> Some l | Some cs \<Rightarrow> each (\<lambda>c l. Some (add_name (cm_nickname c) l)) cs l)"

definition complete_buddies :: "csession \<Rightarrow> cstring list \<Rightarrow> cstring list crash" where
  "complete_buddies s l = do { l1 \<leftarrow> complete_friends s l; complete_clanmates s l1 }"

definition complete_missions :: "bool \<Rightarrow> csession \<Rightarrow> cstring list \<Rightarrow> cstring list crash" where
  "complete_missions pve s l =
     (case mi_list (missions s) of
        None \<Rightarrow> Some l
      | Some ms \<Rightarrow>
          each (\<lambda>m l. if (ms_mode m = Some ''pve'') = pve then do { n \<leftarrow> deref (ms_name m); Some (n # l) } else Some l) ms l)"

definition complete_missions_pvp :: "csession \<Rightarrow> cstring list \<Rightarrow> cstring list crash" where
  "complete_missions_pvp = complete_missions False"

definition complete_missions_pve :: "csession \<Rightarrow> cstring list \<Rightarrow> cstring list crash" where
  "complete_missions_pve = complete_missions True"

definition complete_channels :: "csession \<Rightarrow> cstring list \<Rightarrow> cstring list crash" where
  "complete_channels s l =
     (case ol_masterservers (online s) of
        None \<Rightarrow> Some l
      | Some ms \<Rightarrow> each (\<lambda>m l. do { n \<leftarrow> deref (sv_resource m); Some (n # l) }) ms l)"

definition complete_channels_of :: "cstring \<Rightarrow> csession \<Rightarrow> cstring list \<Rightarrow> cstring list crash" where
  "complete_channels_of kind s l =
     (case ol_masterservers (online s) of
        None \<Rightarrow> Some l
      | Some ms \<Rightarrow>
          each (\<lambda>m l. case sv_resource m of
                        None \<Rightarrow> Some l
                      | Some n \<Rightarrow> do { ch \<leftarrow> deref (sv_channel m); Some (if contains ch kind then n # l else l) }) ms l)"

definition complete_quickplay_maps_pvp :: "csession \<Rightarrow> cstring list \<Rightarrow> cstring list crash" where
  "complete_quickplay_maps_pvp s l =
     (case qp_maps (quickplay s) of
        None \<Rightarrow> Some l
      | Some qs \<Rightarrow>
          each (\<lambda>key l. do {
                  m \<leftarrow> mission_list_get_by_key s key;
                  (case m of None \<Rightarrow> Some l | Some m' \<Rightarrow> do { n \<leftarrow> deref (ms_name m'); Some (n # l) })
                }) qs l)"

definition cmd_change_completions :: "csession \<Rightarrow> cstring list \<Rightarrow> cstring list crash" where
  "cmd_change_completions s l =
     (if ol_channel (online s) = None then Some l
      else do {
             t \<leftarrow> deref (ol_channel_type (online s));
             if contains t ''pve'' then complete_missions_pve s l else complete_missions_pvp s l
           })"

definition cmd_quickplay_completions :: "int \<Rightarrow> csession \<Rightarrow> cstring list \<Rightarrow> cstring list crash" where
  "cmd_quickplay_completions arg_index s l =
     (if arg_index = 1 then Some (rev [''open'', ''invite'', ''cancel'', ''start''] @ l)
      else if arg_index = 2
      then do {
             l1 \<leftarrow> complete_buddies s l;
             let l2 = rev [''rating'', ''pvp'', ''tdm'', ''ptb'', ''stm'', ''dmn'', ''ffa'', ''ctf'', ''hnt'', ''tbs'', ''dst'', ''lms''] @ l1;
             l3 \<leftarrow> complete_missions_pve s l2;
             complete_quickplay_maps_pvp s l3
           }
      else Some l)"

text \<open>\<open>wb_completion\<close>: which argument the cursor, \<open>left\<close> characters further on, is in.  Behind the end of the line
  the loop would not end.\<close>

function arg_index :: "cstring \<Rightarrow> nat \<Rightarrow> nat option" where
  "arg_index rest left =
     (if left = 0 then Some 0
      else (let step = length (takeWhile (\<lambda>c. c \<in> set blanks) rest)
                  + length (takeWhile (\<lambda>c. c \<notin> set blanks) (dropWhile (\<lambda>c. c \<in> set blanks) rest))
            in if step = 0 then None else map_option Suc (arg_index (drop step rest) (left - step))))"
  by pat_completeness auto
termination by (relation "measure snd") auto

text \<open>The lists for the argument \<open>i\<close>; \<open>None\<close> inside stands for the files that readline offers.\<close>

definition complete_argument :: "cstring \<Rightarrow> int \<Rightarrow> console \<Rightarrow> (console \<times> cstring list option) crash" where
  "complete_argument name i c =
     (let s = cn_session c;
          offer = (\<lambda>r. do { l \<leftarrow> r; Some (c, Some l) })
      in case map_of CMD_LIST_CONSOLE name of
           None \<Rightarrow> Some (c, Some [])
         | Some kind \<Rightarrow>
             if (case kind of X1 _ \<Rightarrow> 1 < i | X2 _ \<Rightarrow> 2 < i | _ \<Rightarrow> True) then Some (c, Some [])
             else if name = ''exec'' then Some (c, None)
             else if name = ''randombox''
             then do { (boxes, l) \<leftarrow> cmd_randombox_completions i s (cn_boxes c) []; Some (c\<lparr>cn_boxes := boxes\<rparr>, Some l) }
             else if name = ''add'' then offer (do { l \<leftarrow> complete_gameroom_players s []; complete_clanmates s l })
             else if name = ''clan_invite'' then offer (do { l \<leftarrow> complete_gameroom_players s []; complete_friends s l })
             else if name \<in> set [''follow'', ''invite'', ''last'', ''whois''] then offer (complete_buddies s [])
             else if name = ''channel'' then offer (complete_channels s [])
             else if name = ''change'' then offer (cmd_change_completions s [])
             else if name = ''master'' then offer (complete_gameroom_players s [])
             else if name = ''open'' then offer (do { l \<leftarrow> complete_missions_pve s []; complete_missions_pvp s l })
             else if name = ''quickplay'' then offer (cmd_quickplay_completions i s [])
             else if name = ''ready'' then offer (Some (rev [''rifleman'', ''medic'', ''engineer'', ''sniper'', ''heavy'']))
             else if name = ''remove'' then offer (complete_friends s [])
             else if name = ''safe'' then offer (complete_missions_pvp s [])
             else if name = ''sponsor'' then offer (Some (rev [''weapon'', ''outfit'', ''equipment'']))
             else if name = ''stay'' then offer (Some (if i = 2 then rev [''sec'', ''min'', ''h''] else []))
             else if name = ''whisper'' then offer (if i = 1 then do { l \<leftarrow> complete_gameroom_players s []; complete_buddies s l } else Some [])
             else Some (c, Some []))"


text \<open>What is offered in front of the matching by readline: the commands for the first word, else the list of the
  command.\<close>

definition wb_completion :: "cstring \<Rightarrow> nat \<Rightarrow> nat \<Rightarrow> console \<Rightarrow> (console \<times> cstring list option) crash" where
  "wb_completion buffer start point c =
     (if start = 0 then Some (c, Some (map fst cmd_list))
      else (let name = takeWhile (\<lambda>x. x \<notin> set blanks) buffer
            in if name = [] \<or> \<not> list_ex (\<lambda>e. fst e = name) cmd_list then Some (c, Some [])
               else do {
                      i \<leftarrow> arg_index (drop (length name) buffer) (point - length name);
                      complete_argument name (int i) c
                    }))"

subsection \<open>Arguments as they are typed\<close>

lemma trim_end_Some:
  assumes "NUL \<in> set b"
  shows "trim_end_inplace (b, s) = Some (rev (dropWhile isspace (rev s)))"
proof -
  have "\<not> isspace NUL" by (simp add: isspace_def)
  with assms have "dropWhile isspace (rev s @ b) \<noteq> []" by (auto simp: dropWhile_eq_Nil_conv)
  then show ?thesis by (simp add: trim_end_inplace_def)
qed

lemma trim_end_text:
  "NUL \<in> set b \<Longrightarrow> t \<noteq> [] \<Longrightarrow> \<not> isspace (last t) \<Longrightarrow> \<forall>c \<in> set w. isspace c \<Longrightarrow> trim_end_inplace (b, t @ w) = Some t"
  by (cases t rule: rev_cases) (simp_all add: trim_end_Some dropWhile_append2 dropWhile_append)

lemma skip_over_blank: "\<forall>c \<in> set w. c \<in> set d \<Longrightarrow> t = [] \<or> hd t \<notin> set d \<Longrightarrow> skip_over d (b, w @ t) = (rev w @ b, t)"
  by (cases t) (auto simp: skip_over_def takeWhile_append2 dropWhile_append2)

lemma skip_over_before: "set b \<subseteq> set (fst (skip_over d (b, s)))"
  by (auto simp: skip_over_def)

lemma cut_rest: "cut_token (b, s) [] = ((if s = [] then None else Some (b, s)), (rev s @ b, []))"
proof -
  have "takeWhile (\<lambda>c. True) s = s" "dropWhile (\<lambda>c. True) s = []" "takeWhile (\<lambda>c. False) s = []" "dropWhile (\<lambda>c. False) s = s"
    by (induction s) auto
  then show ?thesis by (simp add: cut_token_def skip_over_def Let_def)
qed

lemma cut_word:
  assumes "\<forall>c \<in> set w. c \<in> set d" "t \<noteq> []" "\<forall>c \<in> set t. c \<notin> set d" "x \<in> set d"
  shows "cut_token (b, w @ t @ x # r) d = (Some (rev w @ b, t), (NUL # rev t @ rev w @ b, r))"
proof -
  have t: "takeWhile (\<lambda>c. c \<notin> set d) (t @ x # r) = t" "dropWhile (\<lambda>c. c \<notin> set d) (t @ x # r) = x # r"
    using assms(3,4) by (simp_all add: takeWhile_append2 dropWhile_append2)
  have "skip_over d (b, w @ t @ x # r) = (rev w @ b, t @ x # r)"
    by (rule skip_over_blank) (use assms in \<open>auto simp: hd_append\<close>)
  then show ?thesis using t assms(2) by (simp add: cut_token_def Let_def)
qed

text \<open>The copy of the line has a NUL in front of the arguments, where the name was cut off.\<close>

lemma saveptr_NUL: "cut_token ([], line) d = (cmd, (b, s)) \<Longrightarrow> s \<noteq> [] \<Longrightarrow> NUL \<in> set b"
  by (auto simp: cut_token_def Let_def split: prod.splits if_splits)

lemma cut_before: "cut_token (b, s) d = (Some (b', t), (b'', r)) \<Longrightarrow> set b \<subseteq> set b' \<and> set b \<subseteq> set b''"
  using skip_over_before [of b d s] by (auto simp: cut_token_def Let_def split: prod.splits if_splits)

lemma cut_before_None: "cut_token (b, s) d = (None, (b'', r)) \<Longrightarrow> r = []"
  by (auto simp: cut_token_def Let_def split: prod.splits if_splits)

lemma arguments_total:
  assumes "NUL \<in> set b"
  shows "cmd_1arg (Some (b, s)) \<noteq> None" "cmd_2args (Some (b, s)) \<noteq> None"
proof -
  have trim: "trim_end_inplace (skip_over d (b', t)) \<noteq> None" if "NUL \<in> set b'" for d b' t
    using trim_end_Some [of "fst (skip_over d (b', t))" "snd (skip_over d (b', t))"] skip_over_before [of b' d t] that by auto
  show "cmd_1arg (Some (b, s)) \<noteq> None"
    using trim [OF assms] by (auto simp: cmd_1arg_def cut_rest bind_eq_None_conv simp del: not_None_eq)
  obtain a1 b'' r where c: "cut_token (b, s) '' '' = (a1, (b'', r))" by (metis prod.exhaust)
  have "r = [] \<or> NUL \<in> set b''"
    using cut_before [of b s "'' ''"] cut_before_None [of b s "'' ''"] assms c by (cases a1) auto
  then show "cmd_2args (Some (b, s)) \<noteq> None"
    using trim [of b''] c by (auto simp: cmd_2args_def cut_rest Let_def bind_eq_None_conv simp del: not_None_eq)
qed

lemma run_parser_total:
  assumes "\<And>b s. line = Some (b, s) \<Longrightarrow> NUL \<in> set b"
  shows "run_parser c line \<noteq> None"
proof (cases line)
  case None
  then show ?thesis by (cases "snd c") (simp_all add: run_parser_def cmd_1arg_def cmd_2args_def Let_def)
next
  case (Some p)
  obtain b s where p: "p = (b, s)" by (cases p)
  from Some p assms have "cmd_1arg line \<noteq> None" "cmd_2args line \<noteq> None" using arguments_total [of b s] by auto
  then show ?thesis by (cases "snd c") (auto simp: run_parser_def Let_def)
qed

text \<open>C27: whatever is typed, the line is understood or refused; cutting off the blanks at its end never runs over the
  start of the copy.\<close>

theorem every_line_parsed: "parse_cmd line \<noteq> None"
proof (cases "starts_with line ''<''")
  case False
  obtain cmd b s where c: "cut_token ([], line) blanks = (cmd, (b, s))" by (metis prod.exhaust)
  let ?args = "map_option (skip_over blanks) (fst (cut_token (b, s) []))"
  have "run_parser e ?args \<noteq> None" for e
  proof (rule run_parser_total)
    fix b' s' assume "?args = Some (b', s')"
    then have "s \<noteq> []" "skip_over blanks (b, s) = (b', s')" by (auto simp: cut_rest split: if_splits)
    with saveptr_NUL [OF c] skip_over_before [of b blanks s] show "NUL \<in> set b'" by auto
  qed
  with False c show ?thesis by (auto simp: parse_cmd_def split: option.splits)
qed (simp add: parse_cmd_def)

lemma command_entry: "e \<in> set cmd_list \<Longrightarrow> find (\<lambda>c. fst c = fst e) cmd_list = Some e"
  and command_name: "e \<in> set cmd_list \<Longrightarrow> fst e \<noteq> [] \<and> (\<forall>c \<in> set (fst e). c \<notin> set blanks \<and> c \<noteq> CHR ''<'' \<and> c \<noteq> CHR ''='')"
proof -
  have d: "distinct (map fst cmd_list)" by code_simp
  show "find (\<lambda>c. fst c = fst e) cmd_list = Some e" if "e \<in> set cmd_list"
  proof -
    have "find (\<lambda>c. fst c = fst e) l = Some e" if "distinct (map fst l)" "e \<in> set l" for l :: "(cstring \<times> cmd_parser) list"
      using that by (induction l) (auto simp: image_iff)
    with d that show ?thesis by blast
  qed
  have "list_all (\<lambda>e. fst e \<noteq> [] \<and> list_all (\<lambda>c. c \<notin> set blanks \<and> c \<noteq> CHR ''<'' \<and> c \<noteq> CHR ''='') (fst e)) cmd_list" by code_simp
  then show "fst e \<noteq> [] \<and> (\<forall>c \<in> set (fst e). c \<notin> set blanks \<and> c \<noteq> CHR ''<'' \<and> c \<noteq> CHR ''='')" if "e \<in> set cmd_list"
    using that by (auto simp: list_all_iff)
qed

text \<open>A name between blanks hands the rest of the line to the parser of the command.\<close>

lemma parse_named:
  assumes "e \<in> set cmd_list" "\<forall>c \<in> set w. c \<in> set blanks" "x \<in> set blanks" "\<forall>c \<in> set v. c \<in> set blanks"
    "rest \<noteq> []" "hd rest \<notin> set blanks"
  shows "\<exists>b. NUL \<in> set b \<and> parse_cmd (w @ fst e @ x # v @ rest) = run_parser e (Some (b, rest))"
proof -
  note n = command_name [OF assms(1)]
  let ?b = "NUL # rev (fst e) @ rev w"
  have "cut_token ([], w @ fst e @ x # v @ rest) blanks = (Some (rev w, fst e), (?b, v @ rest))"
    using cut_word [of w blanks "fst e" x "[]" "v @ rest"] assms(2,3) n by simp
  moreover have "skip_over blanks (?b, v @ rest) = (rev v @ ?b, rest)" by (rule skip_over_blank) (use assms in auto)
  moreover have "\<not> starts_with (w @ fst e @ x # v @ rest) ''<''"
    using n assms(2) by (cases w; cases "fst e") (auto simp: blanks_def)
  ultimately have "parse_cmd (w @ fst e @ x # v @ rest) = run_parser e (Some (rev v @ ?b, rest))"
    using assms(5) command_entry [OF assms(1)] by (simp add: parse_cmd_def cut_rest)
  then show ?thesis by (intro exI [of _ "rev v @ ?b"]) simp
qed

text \<open>What is typed reaches the command: the argument of a command with one, without the blanks around it.\<close>

theorem argument_read:
  assumes "(n, X1 k) \<in> set CMD_LIST_CONSOLE" "\<forall>c \<in> set w. c \<in> set blanks" "x \<in> set blanks" "\<forall>c \<in> set v. c \<in> set blanks"
    "a \<noteq> []" "hd a \<notin> set blanks" "\<not> isspace (last a)" "\<forall>c \<in> set z. isspace c"
  shows "parse_cmd (w @ n @ x # v @ a @ z) = Some (Run n (Some a) None)"
proof -
  have e: "(n, X1 k) \<in> set cmd_list" using assms(1) by (simp add: cmd_list_def)
  have a: "hd a \<noteq> CHR '' ''" using assms(6) by (auto simp: blanks_def)
  obtain b where b: "NUL \<in> set b" "parse_cmd (w @ n @ x # v @ a @ z) = run_parser (n, X1 k) (Some (b, a @ z))"
    using parse_named [OF e assms(2-4), of "a @ z"] assms(5,6) by auto
  have "skip_over '' '' (b, a @ z) = (b, a @ z)" using skip_over_blank [of "[]" "'' ''" "a @ z" b] assms(5) a by simp
  with b assms show ?thesis by (simp add: run_parser_def cmd_1arg_def cut_rest trim_end_text Let_def)
qed

text \<open>C26: a command with two arguments gets the first word, which may hold tabs, and the rest of the line without the
  blanks around it, whatever blanks are typed between them.\<close>

theorem two_arguments_read:
  assumes "(n, X2 k) \<in> set CMD_LIST_CONSOLE" "\<forall>c \<in> set w. c \<in> set blanks" "x \<in> set blanks" "\<forall>c \<in> set v. c \<in> set blanks"
    "a \<noteq> []" "hd a \<notin> set blanks" "CHR '' '' \<notin> set a" "\<forall>c \<in> set u. c = CHR '' ''"
    "t \<noteq> []" "hd t \<noteq> CHR '' ''" "\<not> isspace (last t)" "\<forall>c \<in> set z. isspace c"
  shows "parse_cmd (w @ n @ x # v @ a @ CHR '' '' # u @ t @ z) = Some (Run n (Some a) (Some t))"
proof -
  have e: "(n, X2 k) \<in> set cmd_list" using assms(1) by (simp add: cmd_list_def)
  have a: "hd a \<noteq> CHR '' ''" using assms(6) by (auto simp: blanks_def)
  obtain b where b: "NUL \<in> set b"
    "parse_cmd (w @ n @ x # v @ a @ CHR '' '' # u @ t @ z) = run_parser (n, X2 k) (Some (b, a @ CHR '' '' # u @ t @ z))"
    using parse_named [OF e assms(2-4), of "a @ CHR '' '' # u @ t @ z"] assms(5,6) by auto
  have c: "cut_token (b, a @ CHR '' '' # u @ t @ z) '' '' = (Some (b, a), (NUL # rev a @ b, u @ t @ z))"
    using cut_word [of "[]" "'' ''" a "CHR '' ''" b "u @ t @ z"] assms(5,7) by auto
  have "skip_over '' '' (b, a) = (b, a)" using skip_over_blank [of "[]" "'' ''" a b] a by simp
  moreover have "skip_over '' '' (NUL # rev a @ b, u @ t @ z) = (rev u @ NUL # rev a @ b, t @ z)"
    by (rule skip_over_blank) (use assms in auto)
  ultimately show ?thesis
    using assms c by (simp add: b(2) run_parser_def cmd_2args_def cut_rest trim_end_text Let_def)
qed

theorem two_arguments_read_witness:
  "parse_cmd ''  whisper ann  hello there '' = Some (Run ''whisper'' (Some ''ann'') (Some ''hello there''))"
proof -
  have "(''whisper'', X2 2) \<in> set CMD_LIST_CONSOLE" by code_simp
  then have "parse_cmd (''  '' @ ''whisper'' @ CHR '' '' # '''' @ ''ann'' @ CHR '' '' # '' '' @ ''hello there'' @ '' '')
    = Some (Run ''whisper'' (Some ''ann'') (Some ''hello there''))"
    by (rule two_arguments_read) (simp_all add: blanks_def isspace_def)
  then show ?thesis by simp
qed

text \<open>Two blanks behind the first word count as a second, empty argument: instead of an explanation of the usage an
  empty text is sent, or a clan without a description asked for.\<close>

theorem blank_is_argument:
  "parse_cmd ''whisper ann'' = Some (Usage ''whisper'')"
  "parse_cmd ''whisper ann '' = Some (Usage ''whisper'')"
  "parse_cmd ''whisper ann  '' = Some (Run ''whisper'' (Some ''ann'') (Some ''''))"
  "parse_cmd ''clan_create ours  '' = Some (Run ''clan_create'' (Some ''ours'') (Some ''''))"
  by code_simp+

subsection \<open>Files of settings\<close>

text \<open>The session sees the settings, and they have the types of the table.\<close>

definition console_ok :: "console \<Rightarrow> bool" where
  "console_ok c \<longleftrightarrow> settings_ok (cn_settings c) \<and> shared c = cn_settings c \<and> share (cn_settings c) c = c"

lemma safemaster_entry: "(''wb_safemaster'', VBool 0) \<in> set CVAR_LIST"
  by code_simp

lemma shared_share: "settings_ok st \<Longrightarrow> shared (share st c) = st"
proof -
  assume "settings_ok st"
  then obtain v where v: "cvars st ''wb_safemaster'' = Some v" "value_ok (cvar_type (VBool 0)) v"
    using safemaster_entry unfolding settings_ok_iff by blast
  then obtain b where b: "v = VBool b" "b = 0 \<or> b = 1" by (cases v) auto
  with v have "(cvars st)(''wb_safemaster'' \<mapsto> VBool (if b \<noteq> 0 then 1 else 0)) = cvars st" by (auto simp: fun_eq_iff)
  with v(1) b show "shared (share st c) = st"
    by (simp add: shared_def share_def cvars_of_def switch_of_def Let_def del: fun_upd_apply)
qed

lemma share_share: "share st' (share st c) = share st' c"
  by (simp add: share_def)

lemma share_ok: "settings_ok st \<Longrightarrow> console_ok (share st c)"
  using shared_share [of st c] by (simp add: console_ok_def share_share) (simp add: share_def)

text \<open>An assignment keeps it.\<close>

lemma cvar_parse_ok:
  assumes "cvar_parse name line c = Some (c', ok)" "settings_ok (shared c)"
  shows "console_ok c'"
  using assms by (auto simp: cvar_parse_def bind_eq_Some_conv intro!: share_ok dest: cvar_set_ok)

lemma int_value_plain: "- (2 ^ 31) \<le> i \<Longrightarrow> i < 2 ^ 31 \<Longrightarrow> int_value (int_dec i) = i"
proof -
  have "\<not> starts_with (int_dec i) ''0x''" "\<not> starts_with (int_dec i) ''0X''"
    using starts_with_chars [of "int_dec i" "''0x''" "CHR ''x''"] starts_with_chars [of "int_dec i" "''0X''" "CHR ''X''"]
      int_dec_chars [of "CHR ''x''" i] int_dec_chars [of "CHR ''X''" i] by (auto simp: isdigit_def)
  moreover assume "- (2 ^ 31) \<le> i" "i < 2 ^ 31"
  ultimately show ?thesis using strtoll_int_dec [of "[]" i] by (simp add: int_value_def c_int_id)
qed

lemma bool_value_plain: "b = 0 \<or> b = 1 \<Longrightarrow> bool_value (int_dec b) = b"
  by (elim disjE) (hypsubst, code_simp)+

lemma parse_string_closed: "parse_string (CHR 0x22 # t @ [CHR 0x22]) = Some t"
proof -
  have "get_trim ((CHR 0x22 # t @ [CHR 0x22]) @ []) = CHR 0x22 # t @ [CHR 0x22]"
    by (rule get_trim_tail) (auto simp: isspace_def)
  then show ?thesis by (simp add: parse_string_def Let_def)
qed

lemma set_typed:
  assumes "storable (n, v)"
  shows "cvar_set (Some n) (Some (value_text v)) s = Some (s\<lparr>cvars := (cvars s)(n \<mapsto> v)\<rparr>, True)"
proof -
  obtain d where d: "(n, d) \<in> set CVAR_LIST" "value_ok (cvar_type d) v"
    using assms by (auto simp: storable_def list_ex_iff)
  from cvar_get_entry [OF d(1)] d(2) assms show ?thesis
    by (cases v; cases "cvar_type d")
       (auto simp: cvar_set_def int_value_plain bool_value_plain parse_string_closed show_ptr_def storable_def split: option.splits)
qed

lemma value_text_end: "\<not> isspace (last (value_text v))"
proof -
  have "\<not> isspace (last (int_dec i))" for i
  proof -
    have "last (int_dec i) = CHR ''-'' \<or> isdigit (last (int_dec i))"
      using int_dec_chars [of "last (int_dec i)" i] int_dec_head [of i] by (metis last_in_set list.distinct(1))
    then show ?thesis by (auto simp: isspace_def isdigit_def Let_def)
  qed
  then show ?thesis by (cases v) (simp_all add: isspace_def)
qed

lemma variable_entry: "(n, d) \<in> set CVAR_LIST \<Longrightarrow> (n, Cvar) \<in> set cmd_list \<and> n \<noteq> [] \<and> \<not> isspace (hd n)"
proof -
  have "list_all (\<lambda>(n, d). n \<noteq> [] \<and> \<not> isspace (hd n)) CVAR_LIST" by code_simp
  moreover assume "(n, d) \<in> set CVAR_LIST"
  ultimately show ?thesis by (force simp: cmd_list_def list_all_iff)
qed

text \<open>A variable that is typed.\<close>

lemma variable_typed:
  assumes "storable (n, v)"
  shows "run_line w files k (n @ '' = '' @ value_text v) c
    = Some (share ((shared c)\<lparr>cvars := (cvars (shared c))(n \<mapsto> v)\<rparr>) c)"
proof -
  obtain d where d: "(n, d) \<in> set CVAR_LIST" using assms by (auto simp: storable_def list_ex_iff)
  have e: "(n, Cvar) \<in> set cmd_list" using variable_entry [OF d] by simp
  obtain b where b: "parse_cmd (n @ '' = '' @ value_text v) = run_parser (n, Cvar) (Some (b, ''= '' @ value_text v))"
    using parse_named [OF e, of "[]" "CHR '' ''" "[]" "''= '' @ value_text v"] by (auto simp: blanks_def)
  have "skip_over (blanks @ ''='') (b, ''= '' @ value_text v) = (rev ''= '' @ b, value_text v)"
    by (rule skip_over_blank) (use value_text_head [of v] in \<open>auto simp: blanks_def sep_def\<close>)
  then have "cvar_parse n (Some (b, ''= '' @ value_text v)) c
      = Some (share ((shared c)\<lparr>cvars := (cvars (shared c))(n \<mapsto> v)\<rparr>) c, True)"
    using set_typed [OF assms] by (simp add: cvar_parse_def del: fun_upd_apply)
  then show ?thesis using b by (cases k) (simp_all add: run_parser_def run_request_def del: fun_upd_apply)
qed

lemma config_line_trim:
  assumes "storable (n, v)"
  shows "get_trim (c_str (config_line (n, v))) = n @ '' = '' @ value_text v"
proof -
  obtain d where d: "(n, d) \<in> set CVAR_LIST" using assms by (auto simp: storable_def list_ex_iff)
  have n: "name_chars n" and t: "text_ok v"
    using assms cvar_names_plain by (auto simp: storable_def list_all_iff list_ex_iff)
  have "NUL \<notin> set (config_line (n, v))"
    using n value_text_chars [OF t, of NUL] by (auto simp: config_line_def name_chars_def list_all_iff)
  moreover have "get_trim ((n @ '' = '' @ value_text v) @ [CHR 0x0A]) = n @ '' = '' @ value_text v"
    by (rule get_trim_tail) (use variable_entry [OF d] value_text_end [of v] value_text_head [of v] in \<open>auto simp: isspace_def\<close>)
  ultimately show ?thesis by (simp add: c_str_id) (simp add: config_line_def)
qed

lemma stored_ok: "storable (n, v) \<Longrightarrow> settings_ok st \<Longrightarrow> settings_ok (st\<lparr>cvars := (cvars st)(n \<mapsto> v)\<rparr>)"
  by (auto simp: storable_def list_ex_iff intro!: assign_ok dest: cvar_get_entry)

text \<open>C25: a file of settings that is executed does what the same file does when the program reads it at its start.\<close>

theorem settings_executed:
  assumes "console_ok c" "list_all storable kvs" "files f = Some (concat (map config_line kvs))"
  shows "\<exists>st. cvar_parse_file (files f) (cn_settings c) = Some (st, CVAR_PARSE_SUCCESS)
     \<and> cmd_exec files (each (run_line w files k)) (Some f) c = Some (share st c) \<and> console_ok (share st c)"
proof -
  have "\<exists>st. cvar_parse_file (Some (concat (map config_line kvs))) (cn_settings c) = Some (st, CVAR_PARSE_SUCCESS)
     \<and> each (run_line w files k) (map (\<lambda>l. get_trim (c_str l)) (file_lines (concat (map config_line kvs)))) c = Some (share st c)
     \<and> console_ok (share st c)"
    using assms(1,2)
  proof (induction kvs arbitrary: c)
    case Nil
    then show ?case by (simp add: cvar_parse_file_def console_ok_def)
  next
    case (Cons kv kvs)
    obtain n v where kv: "kv = (n, v)" by (cases kv)
    let ?st = "(cn_settings c)\<lparr>cvars := (cvars (cn_settings c))(n \<mapsto> v)\<rparr>" and ?rest = "concat (map config_line kvs)"
    have s: "storable (n, v)" using Cons.prems by (simp add: kv)
    have ok: "console_ok (share ?st c)"
      by (rule share_ok, rule stored_ok [OF s]) (use Cons.prems(1) in \<open>simp add: console_ok_def\<close>)
    have st: "cn_settings (share ?st c) = ?st" by (simp add: share_def)
    from Cons.IH [OF ok] Cons.prems obtain st where IH:
      "cvar_parse_file (Some ?rest) ?st = Some (st, CVAR_PARSE_SUCCESS)"
      "each (run_line w files k) (map (\<lambda>l. get_trim (c_str l)) (file_lines ?rest)) (share ?st c) = Some (share st c)"
      "console_ok (share st c)"
      unfolding st share_share by auto
    have "CHR 0x0A \<notin> set (n @ '' = '' @ value_text v)"
      using s cvar_names_plain value_text_chars [of v "CHR 0x0A"] by (auto simp: storable_def list_all_iff list_ex_iff name_chars_def)
    from file_lines_line [OF this, of ?rest]
    have l: "file_lines (concat (map config_line (kv # kvs))) = config_line (n, v) # file_lines ?rest"
      by (simp add: kv config_line_def)
    have "run_line w files k (n @ '' = '' @ value_text v) c = Some (share ?st c)"
      using variable_typed [OF s] Cons.prems(1) by (simp add: console_ok_def)
    with IH(2) have "each (run_line w files k) (map (\<lambda>l. get_trim (c_str l)) (file_lines (concat (map config_line (kv # kvs))))) c
        = Some (share st c)"
      unfolding l unfolding list.map config_line_trim [OF s] each.simps by (simp del: fun_upd_apply)
    moreover have "cvar_parse_file (Some (concat (map config_line (kv # kvs)))) (cn_settings c) = Some (st, CVAR_PARSE_SUCCESS)"
      using read_line [OF s, of ?rest "cn_settings c"] IH(1) by (simp add: cvar_parse_file_def kv del: fun_upd_apply)
    ultimately show ?case using IH(3) by blast
  qed
  then show ?thesis by (simp add: cmd_exec_def assms(3))
qed

text \<open>A file that names itself: however deep the stack is, the command does not return.\<close>

theorem exec_never_returns:
  assumes "files ''loop'' = Some ''exec loop''"
  shows "run_line w files n ''exec loop'' c = None"
proof -
  have p: "parse_cmd ''exec loop'' = Some (Run ''exec'' (Some ''loop'') None)" by code_simp
  have l: "file_lines ''exec loop'' = [''exec loop'']" "get_trim (c_str ''exec loop'') = ''exec loop''" by code_simp+
  have e: "run_request w files g (Run ''exec'' (Some ''loop'') None) c = g [''exec loop''] c" for g c
    by (simp only: run_request_def request.case cmd_exec_def assms option.case l list.map refl if_True)
  show ?thesis by (induction n arbitrary: c) (simp_all add: p e)
qed

text \<open>A deeper stack does not change what a command does.\<close>

lemma each_mono:
  assumes "each f xs s = Some s'" "\<And>x s s'. f x s = Some s' \<Longrightarrow> g x s = Some s'"
  shows "each g xs s = Some s'"
  using assms(1) by (induction xs arbitrary: s) (auto simp: bind_eq_Some_conv dest: assms(2))

theorem deeper_stack: "run_line w files n line c = Some c' \<Longrightarrow> run_line w files (n + k) line c = Some c'"
proof (induction n arbitrary: line c c')
  case 0
  obtain r where r: "parse_cmd line = Some r" "run_request w files (\<lambda>ls c. None) r c = Some c'"
    using 0 by (auto simp: bind_eq_Some_conv)
  have "run_request w files g r c = Some c'" for g
    using r(2) by (cases r) (auto simp: run_request_def cmd_exec_def split: if_splits option.splits)
  with r(1) show ?case by (cases k) simp_all
next
  case (Suc n)
  obtain r where r: "parse_cmd line = Some r" "run_request w files (each (run_line w files n)) r c = Some c'"
    using Suc.prems by (auto simp: bind_eq_Some_conv)
  have "run_request w files (each (run_line w files (n + k))) r c = Some c'"
    using r(2) by (cases r) (auto simp: run_request_def cmd_exec_def split: if_splits option.splits intro: each_mono Suc.IH)
  with r(1) show ?case by simp
qed

subsection \<open>The loop of the prompt\<close>

text \<open>When the prompt ends the session is dead, whatever was typed.\<close>

theorem prompt_ends_dead: "thread_readline w files n ls c = Some c' \<Longrightarrow> cn_dead c'"
  by (induction ls arbitrary: c) (auto simp: bind_eq_Some_conv split: if_splits)

text \<open>Nothing is run after \<open>quit\<close>.\<close>

theorem nothing_after_quit:
  "thread_readline w files n (''quit'' # ls) c = Some (c\<lparr>cn_dead := True\<rparr>)"
proof -
  have p: "parse_cmd ''quit'' = Some (Run ''quit'' None None)" by code_simp
  have "run_line w files n ''quit'' c = Some (c\<lparr>cn_dead := True\<rparr>)" by (cases n) (simp_all add: p run_request_def)
  then show ?thesis by (cases ls; cases "cn_dead c") simp_all
qed

subsection \<open>A setting takes effect\<close>

text \<open>C8: what is typed at the prompt decides about the next whisper: with \<open>wb_enable_whisper_commands = 0\<close> it is only
  acknowledged, with \<open>1\<close> it is obeyed.\<close>

theorem switch_takes_effect:
  assumes "console_ok c" "attr msg ''type'' = Some ''get''" "attr msg ''from'' = Some jid" "NUL \<notin> set message"
    "plain_value sender" "plain_value nick"
    "v = VBool (if on then 1 else 0)"
  shows "\<exists>c'. run_line w files k (''wb_enable_whisper_commands = '' @ value_text v) c = Some c' \<and> console_ok c'
     \<and> xmpp_message_cb w msg_id (Some msg) (Some (whisper_node sender nick message)) (cn_session c')
       = (let s1 = emit (echo sender (Some jid) msg_id message (cn_session c)) (cn_session c') in
          if on then obey w (whisper_command (wb_enable_invite (cvar (cn_session c))) message (Some sender)) (Some sender) (Some jid) s1
          else Some s1)"
proof -
  let ?n = "''wb_enable_whisper_commands''"
  let ?st = "(cn_settings c)\<lparr>cvars := (cvars (cn_settings c))(?n \<mapsto> v)\<rparr>"
  have "(?n, VBool 1) \<in> set CVAR_LIST" by code_simp
  then have s: "storable (?n, v)" by (force simp: storable_def list_ex_iff assms(7))
  have run: "run_line w files k (?n @ '' = '' @ value_text v) c = Some (share ?st c)"
    using variable_typed [OF s] assms(1) by (simp add: console_ok_def)
  have ok: "console_ok (share ?st c)" by (rule share_ok, rule stored_ok [OF s]) (use assms(1) in \<open>simp add: console_ok_def\<close>)
  have old: "cvar (cn_session c) = cvars_of (cn_settings c)"
  proof -
    have "cvar (cn_session (share (cn_settings c) c)) = cvars_of (cn_settings c)" by (simp add: share_def)
    with assms(1) show ?thesis by (simp add: console_ok_def)
  qed
  have c: "wb_enable_whisper_commands (cvar (cn_session (share ?st c))) = on"
    "wb_enable_invite (cvar (cn_session (share ?st c))) = wb_enable_invite (cvar (cn_session c))"
    "profile (cn_session (share ?st c)) = profile (cn_session c)"
    by (simp_all add: share_def cvars_of_def switch_of_def assms(7) old)
  have e: "echo sender (Some jid) msg_id message (cn_session (share ?st c)) = echo sender (Some jid) msg_id message (cn_session c)"
    using c(3) by (simp add: echo_def)
  show ?thesis
    using run ok whisper_handled [OF assms(2-6), of w msg_id "cn_session (share ?st c)"] by (auto simp: c e Let_def)
qed

definition demo_console :: console where
  "demo_console = share demo_settings \<lparr>cn_session = command_session, cn_settings = demo_settings, cn_boxes = shop_start, cn_dead = False\<rparr>"

lemma demo_console_ok: "console_ok demo_console"
  unfolding demo_console_def demo_settings_def by (rule share_ok, rule cvar_init_ok)

theorem settings_executed_witness:
  "\<exists>st. cvar_parse_file (Some (concat (map config_line sample_config))) (cn_settings demo_console) = Some (st, CVAR_PARSE_SUCCESS)
     \<and> cmd_exec (\<lambda>_. Some (concat (map config_line sample_config)))
         (each (run_line plain_world (\<lambda>_. Some (concat (map config_line sample_config))) 0)) (Some ''wb.cfg'') demo_console
       = Some (share st demo_console)"
proof -
  have s: "list_all storable sample_config" by code_simp
  from settings_executed [OF demo_console_ok s, of "\<lambda>_. Some (concat (map config_line sample_config))" "''wb.cfg''" plain_world 0]
  show ?thesis by blast
qed

theorem switch_takes_effect_witness:
  "\<exists>c'. run_line plain_world (\<lambda>_. None) 0 ''wb_enable_whisper_commands = 0'' demo_console = Some c'
     \<and> xmpp_message_cb plain_world (Some ''uid7'') (Some (''<iq from='' @ [apos] @ ''ann@warface'' @ [apos] @ '' type='' @ [apos] @ ''get'' @ [apos] @ ''>''))
         (Some (whisper_node ''ann'' ''me'' ''please leave'')) (cn_session c')
       = Some (emit (echo ''ann'' (Some ''ann@warface'') (Some ''uid7'') ''please leave'' (cn_session demo_console)) (cn_session c'))"
proof -
  let ?m = "''<iq from='' @ [apos] @ ''ann@warface'' @ [apos] @ '' type='' @ [apos] @ ''get'' @ [apos] @ ''>''"
  have "attr ?m ''type'' = Some ''get''" "attr ?m ''from'' = Some ''ann@warface''" by code_simp+
  moreover have "NUL \<notin> set ''please leave''" "plain_value ''ann''" "plain_value ''me''" by (simp_all add: plain_value_def)
  moreover have "value_text (VBool (if False then 1 else 0)) = ''0''" by code_simp
  ultimately show ?thesis
    using switch_takes_effect [OF demo_console_ok, of ?m "''ann@warface''" "''please leave''" "''ann''" "''me''" "VBool (if False then 1 else 0)" False
        plain_world "\<lambda>_. None" 0 "Some ''uid7''"]
    by (auto simp: Let_def simp del: run_line.simps)
qed

subsection \<open>What is offered\<close>

lemma each_names:
  assumes "\<And>x l. f x l = Some (add_name (g x) l)" "distinct l"
  shows "\<exists>l'. each f xs l = Some l' \<and> distinct l' \<and> set l' = set l \<union> g ` set xs"
  using assms(2)
proof (induction xs arbitrary: l)
  case (Cons x xs)
  have "distinct (add_name (g x) l)" "set (add_name (g x) l) = insert (g x) (set l)" using Cons.prems by (auto simp: add_name_def)
  with Cons.IH [of "add_name (g x) l"] show ?case by (auto simp: assms(1))
qed simp

text \<open>the names of friends and clan mates are offered, each of them once, and nothing else.\<close>

theorem buddies_offered:
  "\<exists>l. complete_buddies s [] = Some l \<and> distinct l
     \<and> set l = fr_nickname ` set (case pr_friends (profile s) of None \<Rightarrow> [] | Some fs \<Rightarrow> fs)
         \<union> cm_nickname ` set (case cl_mates (profile s) of None \<Rightarrow> [] | Some cs \<Rightarrow> cs)"
proof -
  let ?fs = "fr_nickname ` set (case pr_friends (profile s) of None \<Rightarrow> [] | Some fs \<Rightarrow> fs)"
  obtain l1 where l1: "complete_friends s [] = Some l1" "distinct l1" "set l1 = ?fs"
    using each_names [of "\<lambda>f l. Some (add_name (fr_nickname f) l)" fr_nickname "[]"]
    by (fastforce simp: complete_friends_def split: option.splits)
  have "\<exists>l. complete_clanmates s l1 = Some l \<and> distinct l
     \<and> set l = set l1 \<union> cm_nickname ` set (case cl_mates (profile s) of None \<Rightarrow> [] | Some cs \<Rightarrow> cs)"
    using each_names [of "\<lambda>c l. Some (add_name (cm_nickname c) l)" cm_nickname l1] l1(2)
    by (fastforce simp: complete_clanmates_def split: option.splits)
  with l1 show ?thesis by (auto simp: complete_buddies_def)
qed

text \<open>In front of the end of the line the loop that counts the arguments ends.\<close>

theorem arg_index_total: "left \<le> length rest \<Longrightarrow> \<exists>i. arg_index rest left = Some i \<and> i \<le> left"
proof (induction rest left rule: arg_index.induct)
  case (1 rest left)
  let ?d = "dropWhile (\<lambda>c. c \<in> set blanks) rest"
  let ?step = "length (takeWhile (\<lambda>c. c \<in> set blanks) rest) + length (takeWhile (\<lambda>c. c \<notin> set blanks) ?d)"
  show ?case
  proof (cases "left = 0")
    case True
    then show ?thesis by (simp add: arg_index.simps)
  next
    case False
    with 1(2) have "rest \<noteq> []" by auto
    then have pos: "?step \<noteq> 0" by (cases rest) auto
    have "left - ?step \<le> length (drop ?step rest)" using 1(2) by simp
    with 1(1) [OF False refl pos] obtain i where i: "arg_index (drop ?step rest) (left - ?step) = Some i" "i \<le> left - ?step" by blast
    then have "arg_index rest left = Some (Suc i)"
      using False pos by (subst arg_index.simps) (simp add: Let_def del: arg_index.simps)
    moreover have "Suc i \<le> left" using i(2) pos False by linarith
    ultimately show ?thesis by blast
  qed
qed
end
