(* ===== verification/Spec2Isabelle.thy ===== *)
theory Spec2Isabelle
  imports Stream ThreadQueue RoomLimits PlayerInfo MatchResult RandomBox GameConfig Console
begin

text \<open>
  Warfacebot is a command-line client for the game Warface: it logs in over XMPP, follows game rooms,
  searches matches, answers invitations and keeps lists of friends, clan mates, missions and items.
  This development models the program in \<open>src/\<close> and \<open>include/\<close> with the cipher in
  \<open>third_party/\<close>, function by function, and proves what its parts promise and where they fail.

  \<^bold>\<open>How the program is put together.\<close>  \<open>src/stream\<close> frames (and encrypts) the bytes of the
  connection; two ring buffers (\<open>src/threads/thread_sendstream.c\<close>, \<open>thread_readstream.c\<close>)
  separate the network from one dispatching thread.  \<open>src/xmpp\<close> turns requests into stanzas, registers a
  callback under a fresh identifier (\<open>id_handler.c\<close>) and hands each incoming stanza to the callback that
  waits for it or to the handler of its query (\<open>query_handler.c\<close>).  \<open>src/xmpp_wf\<close> holds one file
  per query of the game server; these files scan messages with \<open>src/tools/get_info.c\<close> instead of an XML
  parser and update \<open>struct session\<close>.  \<open>src/gameroom.c\<close>, \<open>friend.c\<close>, \<open>clanmate.c\<close>,
  \<open>quickplay.c\<close>, \<open>mission.c\<close>, \<open>item.c\<close>, \<open>status.c\<close>, \<open>querycache.c\<close> keep the parts of
  the session; \<open>cvar.c\<close> and \<open>option.c\<close> the settings.

  \<^bold>\<open>The theories, in the order of their imports.\<close>
  \<^item> \<open>Prelude\<close>, \<open>CString\<close>: names of types, crashes as \<open>None\<close>, conversions between C integers, the
    C string library with the lemmas on the first occurrence that \<open>strstr\<close> finds.
  \<^item> \<open>GetInfo\<close>, \<open>Attributes\<close>: the attribute scanner and what it returns on rendered attribute lists.
  \<^item> \<open>WbList\<close>: \<open>tools/list.c\<close> on an explicit store, refined by plain lists (\<open>list_refines_abstract\<close>).
  \<^item> \<open>XmlSerializer\<close>, \<open>Base64\<close>, \<open>WfQuery\<close>: \<open>xml/serializer.c\<close>, \<open>tools/base64.c\<close>,
    \<open>tools/zlibb64.c\<close>, \<open>xmpp/sasl.c\<close>, \<open>xmpp_wf/tools.c\<close>, with their round trips.
  \<^item> \<open>Wake\<close>, \<open>Stream\<close>: the stream cipher and the frames of \<open>src/stream\<close>, with the round trip of a
    sequence of encrypted messages and the key exchange.
  \<^item> \<open>ThreadQueue\<close>: the ring buffers as a step relation over semaphores and mutex; order, no overwriting, no
    deadlock.
  \<^item> \<open>Handlers\<close>, \<open>XmppMsg\<close>: the callback tables, identifiers, stanzas and their dispatch; every request is
    answered by its own callback once.
  \<^item> \<open>QueryCache\<close>: the lists that are transferred in chunks and kept in files.
  \<^item> \<open>Settings\<close>: configuration variables, texts, configuration files, the command line.
  \<^item> \<open>Gameroom\<close>, \<open>Contacts\<close>: the record of a game room and its synchronisation; friends, clan mates, chat
    rooms (\<open>keyed_list\<close> states what the three lists have in common).
  \<^item> \<open>Session\<close>: \<open>struct session\<close>, sending, presence, the own status, changing the channel.
  \<^item> \<open>Quickplay\<close>, \<open>Rooms\<close>, \<open>Invitations\<close>: the handlers of match search, game rooms and invitations.
  \<^item> \<open>Elements\<close>, \<open>Buddies\<close>, \<open>Missions\<close>: the loops over elements of a message
    (\<open>element_reader\<close> is their contract), friend and clan messages, the list of missions.
  \<^item> \<open>Profile\<close>, \<open>Notifications\<close>: the own profile, items and statistics; what the server notifies and how
    the client answers.
  \<^item> \<open>Channels\<close>: the login from the account to the channel, the list of master servers, joining and changing a
    channel (\<open>login_ends\<close>, \<open>channel_switched\<close>).
  \<^item> \<open>Keepalive\<close>: the thread that pings the server and repeats the status.
  \<^item> \<open>PlayerInfo\<close>, \<open>MatchResult\<close>: questions about players and rooms with the callbacks of the user
    (\<open>rooms_in_batches\<close>, \<open>peer_info_exchanged\<close>); what a match adds to the own profile.
  \<^item> \<open>Shop\<close>, \<open>BoxTable\<close>, \<open>RandomBox\<close>: the lists of items, offers and maps behind the query
    cache; the table of random boxes, how it is filled and what a purchase asks for and books.
  \<^item> \<open>Commands\<close>, \<open>Whispers\<close>: the commands of \<open>src/cmd\<close> with the callbacks that they register, and how
    texts of other players become commands (\<open>whisper_understood\<close>, \<open>whisper_answered\<close>,
    \<open>whois_answered\<close>, \<open>safe_room_watched\<close>).
  \<^item> \<open>GameConfig\<close>: the game configuration behind the query cache (\<open>xmpp_iq_get_configs.c\<close>), with a
    contract \<open>text_reader\<close> for elements that hold elements (\<open>login_bonus_read\<close>, \<open>regions_read\<close>).
  \<^item> \<open>Console\<close>: the prompt: the table of commands, cutting a line into arguments, settings that are typed or
    executed from a file, completion (\<open>two_arguments_read\<close>, \<open>settings_executed\<close>,
    \<open>switch_takes_effect\<close>).
  \<^item> \<open>Lifecycle\<close>, \<open>RoomLimits\<close>: all handlers together: the steps of a session in any order, the
    invariants of every reachable session, the types of the fields, the end of retries.

  \<^bold>\<open>Conventions.\<close>  A handler is a function from the session to \<open>'u session option\<close>; \<open>None\<close> is a
  crash (NULL dereference, failed assertion, access outside a buffer).  What leaves the modelled part is
  appended to \<open>trace\<close>: stanzas with the callback that waits for the answer, and calls of callbacks of the
  user, of type \<open>'u\<close>.  A callback takes the message as a string that is \<open>None\<close> for a time-out, and
  the content that \<open>wf_get_query_content\<close> (\<open>WfQuery\<close>) extracted from it.  Records follow the C
  structures; \<open>unsigned\<close> fields are words, \<open>int\<close> and \<open>char\<close> fields integers in their range
  (\<open>gameroom_well_typed\<close>); strings have no terminator and pointers into them are suffixes.

  \<^bold>\<open>Arguments of the model.\<close>  \<open>strtof\<close> (its result is a bit pattern), zlib, \<open>getopt_long\<close>, the
  file system, the clock (\<open>now\<close>), texts of the language file and the uninitialised bytes of buffers
  (\<open>junk\<close>).  Hypotheses on them are named in the theorems and instantiated in the witnesses.

  \<^bold>\<open>Loops and fuel.\<close>  Loops are recursive functions with a termination proof, most by the length of the
  rest of the text; \<open>unique_name\<close> ends since only finitely many names are taken.  Walking the linked lists
  and the tables of handlers takes fuel; the lemmas \<open>lrep_fuel\<close> and \<open>idh_handle_def\<close> supply the length
  of the structure plus one, which is enough.

  Endless loops of the code are values too: the loops of \<open>GameConfig\<close> that may not move on are
  \<open>partial_function (option)\<close>, and \<open>run_line\<close> of \<open>Console\<close> takes how deep files that execute
  files may be nested; \<open>deeper_stack\<close> shows that a larger bound changes no result.

  \<^bold>\<open>Not modelled.\<close>  TLS and socket set-up, the stream negotiation in front of the login, GNU readline itself,
  D-Bus (glue to its library), threads other than the queues, the pings and the prompt, messages printed for the
  user, mutexes around the dispatcher.
\<close>

end
